(* ===== verification/Prelude.thy ===== *)
theory Prelude
  imports Main "HOL-Library.Sublist" "HOL-Library.Char_ord"
begin

text \<open>
  Shared vocabulary of the development: Python text operations, results and
  transactions, and the row-list view of a SQL table.

  A Python \<open>str\<close> is a HOL \<open>string\<close>; a HOL character stands for the code
  point of the same number, so the model covers text over the code points below 256.
  \<open>lower\<close> is exact on that range. A timestamp written by \<open>_now_iso\<close> is the whole
  number of seconds it denotes, and a clock reading is a number of microseconds: the
  text form is fixed-width UTC, so its order and the numeric order agree.
\<close>

named_theorems text_simps \<open>unfolding rules for the text operations\<close>
named_theorems table_simps \<open>unfolding rules for the table operations\<close>
named_theorems store_defs \<open>definitions of the store operations\<close>

section \<open>Results and checks\<close>

text \<open>
  \<open>Inl e\<close> is a raised exception, \<open>Inr x\<close> a normal return. \<open>rbind\<close> sequences two
  fallible steps; \<open>each\<close> is a \<open>for\<close> loop whose body only checks.
\<close>

type_synonym clock = int
type_synonym timestamp = int

definition rbind :: "'e + 'a \<Rightarrow> ('a \<Rightarrow> 'e + 'b) \<Rightarrow> 'e + 'b" where
  "rbind r f = (case r of Inl e \<Rightarrow> Inl e | Inr x \<Rightarrow> f x)"

lemma rbind_simps [simp]: "rbind (Inl e) f = Inl e" "rbind (Inr x) f = f x"
  by (simp_all add: rbind_def)

lemma rbind_eq_Inr [simp]: "rbind r f = Inr y \<longleftrightarrow> (\<exists>x. r = Inr x \<and> f x = Inr y)"
  by (cases r) auto

lemma rbind_eq_Inl: "rbind r f = Inl e \<longleftrightarrow> r = Inl e \<or> (\<exists>x. r = Inr x \<and> f x = Inl e)"
  by (cases r) auto

fun each :: "('a \<Rightarrow> 'e + unit) \<Rightarrow> 'a list \<Rightarrow> 'e + unit" where
  "each f [] = Inr ()"
| "each f (x # xs) = rbind (f x) (\<lambda>_. each f xs)"

lemma each_ok [simp]: "each f xs = Inr () \<longleftrightarrow> (\<forall>x \<in> set xs. f x = Inr ())"
  by (induction xs) auto

lemma each_raises:
  "each f xs = Inl e \<longleftrightarrow>
     (\<exists>ys x zs. xs = ys @ x # zs \<and> (\<forall>y \<in> set ys. f y = Inr ()) \<and> f x = Inl e)"
proof (induction xs)
  case Nil
  then show ?case by simp
next
  case (Cons a as)
  show ?case (is "?L \<longleftrightarrow> ?R")
  proof
    assume ?L
    then consider "f a = Inl e" | "f a = Inr ()" "each f as = Inl e"
      by (auto simp: rbind_eq_Inl)
    then show ?R
    proof cases
      case 1
      then show ?thesis by (intro exI [of _ "[]"]) auto
    next
      case 2
      then obtain ys x zs where "as = ys @ x # zs" "\<forall>y\<in>set ys. f y = Inr ()" "f x = Inl e"
        using Cons.IH by blast
      with 2 show ?thesis
        by (intro exI [of _ "a # ys"] exI [of _ x] exI [of _ zs]) auto
    qed
  next
    assume ?R
    then obtain ys x zs where *: "a # as = ys @ x # zs" "\<forall>y\<in>set ys. f y = Inr ()" "f x = Inl e"
      by blast
    show ?L
    proof (cases ys)
      case Nil
      with * show ?thesis by simp
    next
      case (Cons y ys')
      with * have "each f as = Inl e" "f a = Inr ()"
        unfolding Cons.IH by auto
      then show ?thesis by simp
    qed
  qed
qed

section \<open>Python text\<close>

text \<open>\<open>s.rstrip(c)\<close>, \<open>s.lstrip(c)\<close>, \<open>s.split(c)\<close>, \<open>s.find(c)\<close> for a one-character argument.\<close>

definition rstrip :: "char \<Rightarrow> string \<Rightarrow> string" where
  "rstrip c s = rev (dropWhile (\<lambda>x. x = c) (rev s))"

definition lstrip :: "char \<Rightarrow> string \<Rightarrow> string" where
  "lstrip c s = dropWhile (\<lambda>x. x = c) s"

fun split_on :: "char \<Rightarrow> string \<Rightarrow> string list" where
  "split_on c [] = [[]]"
| "split_on c (x # xs) =
     (if x = c then [] # split_on c xs
      else (case split_on c xs of [] \<Rightarrow> [[x]] | l # ls \<Rightarrow> (x # l) # ls))"

fun find_char :: "char \<Rightarrow> string \<Rightarrow> nat option" where
  "find_char c [] = None"
| "find_char c (x # xs) = (if x = c then Some 0 else map_option Suc (find_char c xs))"

text \<open>\<open>s.lower()\<close>: A-Z, and the accented capitals of the second half of the range.\<close>

definition lower_char :: "char \<Rightarrow> char" where
  "lower_char ch =
     (let n = (of_char ch :: nat) in
      if (65 \<le> n \<and> n \<le> 90) \<or> (192 \<le> n \<and> n \<le> 222 \<and> n \<noteq> 215) then char_of (n + 32) else ch)"

definition lower :: "string \<Rightarrow> string" where
  "lower s = map lower_char s"

text \<open>\<open>needle in haystack\<close> for text.\<close>

fun contains :: "string \<Rightarrow> string \<Rightarrow> bool" where
  "contains needle [] = (needle = [])"
| "contains needle (x # xs) = (prefix needle (x # xs) \<or> contains needle xs)"

lemma contains_iff: "contains needle s \<longleftrightarrow> (\<exists>a b. s = a @ needle @ b)"
proof (induction s)
  case Nil
  then show ?case by auto
next
  case (Cons x xs)
  have "(\<exists>a b. x # xs = a @ needle @ b) \<longleftrightarrow>
        (\<exists>b. x # xs = needle @ b) \<or> (\<exists>a b. xs = a @ needle @ b)"
    by (auto simp: Cons_eq_append_conv)
  with Cons show ?case by (simp add: prefix_def)
qed

lemma dropWhile_eq_idem [simp]: "dropWhile p (dropWhile p s) = dropWhile p s"
  by (induction s) auto

lemma rstrip_idem [simp]: "rstrip c (rstrip c s) = rstrip c s"
  by (simp add: rstrip_def)

lemma set_rstrip: "set (rstrip c s) \<subseteq> set s"
  unfolding rstrip_def using set_dropWhileD by fastforce

lemma rstrip_snoc [simp]: "rstrip c (s @ [c]) = rstrip c s"
  by (simp add: rstrip_def)

lemma rstrip_snoc_other: "x \<noteq> c \<Longrightarrow> rstrip c (s @ [x]) = s @ [x]"
  by (simp add: rstrip_def)

lemma mem_rstrip: "x \<noteq> c \<Longrightarrow> x \<in> set (rstrip c s) \<longleftrightarrow> x \<in> set s"
proof (induction s rule: rev_induct)
  case Nil
  then show ?case by (simp add: rstrip_def)
next
  case (snoc a s)
  then show ?case by (cases "a = c") (auto simp: rstrip_snoc_other)
qed

lemma length_rstrip: "length (rstrip c s) \<le> length s"
  using length_dropWhile_le [of _ "rev s"] by (simp add: rstrip_def)

lemma length_lower [simp]: "length (lower s) = length s"
  by (simp add: lower_def)

lemma lower_append: "lower (s @ t) = lower s @ lower t"
  by (simp add: lower_def)

lemma lower_Nil [simp]: "lower [] = []"
  by (simp add: lower_def)

lemma lower_char_idem [simp]: "lower_char (lower_char c) = lower_char c"
proof -
  have "(of_char c :: nat) < 256"
    by simp
  then show ?thesis
    by (auto simp: lower_char_def Let_def)
qed

lemma lower_idem [simp]: "lower (lower s) = lower s"
  by (simp add: lower_def)

lemma lower_char_fix:
  assumes "(of_char k :: nat) < 65 \<or> (90 < (of_char k :: nat) \<and> (of_char k :: nat) < 97)"
  shows "lower_char c = k \<longleftrightarrow> c = k"
proof -
  have c: "(of_char c :: nat) < 256" by simp
  show ?thesis
  proof
    assume "lower_char c = k"
    then show "c = k"
      using assms c by (auto simp: lower_char_def Let_def split: if_splits)
  next
    assume "c = k"
    then show "lower_char c = k"
      using assms by (auto simp: lower_char_def Let_def)
  qed
qed

lemma lower_mem_fix:
  assumes "(of_char k :: nat) < 65 \<or> (90 < (of_char k :: nat) \<and> (of_char k :: nat) < 97)"
  shows "k \<in> set (lower s) \<longleftrightarrow> k \<in> set s"
  using lower_char_fix [OF assms] by (force simp: lower_def)

lemma lower_rstrip_dot: "lower (rstrip CHR ''.'' s) = rstrip CHR ''.'' (lower s)"
proof (induction s rule: rev_induct)
  case Nil
  then show ?case by (simp add: rstrip_def)
next
  case (snoc a s)
  have dot: "lower_char a = CHR ''.'' \<longleftrightarrow> a = CHR ''.''"
    by (rule lower_char_fix) simp
  have 1: "lower (s @ [a]) = lower s @ [lower_char a]"
    by (simp add: lower_def)
  show ?case
  proof (cases "a = CHR ''.''")
    case True
    with dot have "lower (s @ [a]) = lower s @ [CHR ''.'']" unfolding 1 by blast
    with True snoc show ?thesis by (metis rstrip_snoc)
  next
    case False
    with dot have "lower_char a \<noteq> CHR ''.''" by blast
    with False show ?thesis by (simp add: 1 rstrip_snoc_other)
  qed
qed

lemma split_on_ne [simp]: "split_on c s \<noteq> []"
  by (induction s) (auto split: list.splits)

lemma split_on_no_sep: "l \<in> set (split_on c s) \<Longrightarrow> c \<notin> set l"
proof (induction s arbitrary: l)
  case Nil
  then show ?case by simp
next
  case (Cons x xs)
  obtain h t where ht: "split_on c xs = h # t"
    using split_on_ne by (metis neq_Nil_conv)
  with Cons show ?case by (auto split: if_splits)
qed

text \<open>\<open>c.join\<close>, the inverse of \<open>split\<close>.\<close>

fun join_with :: "char \<Rightarrow> string list \<Rightarrow> string" where
  "join_with c [] = []"
| "join_with c [l] = l"
| "join_with c (l # l' # ls) = l @ c # join_with c (l' # ls)"

lemma join_Cons_char: "join_with c ((x # l) # ls) = x # join_with c (l # ls)"
  by (cases ls) auto

lemma join_split [simp]: "join_with c (split_on c s) = s"
proof (induction s)
  case Nil
  then show ?case by simp
next
  case (Cons x xs)
  obtain h t where ht: "split_on c xs = h # t"
    using split_on_ne by (metis neq_Nil_conv)
  with Cons show ?case
    by (auto simp: join_Cons_char)
qed

lemma split_on_no_sep_id: "c \<notin> set l \<Longrightarrow> split_on c l = [l]"
  by (induction l) auto

lemma split_on_append_sep:
  "c \<notin> set l \<Longrightarrow> split_on c (l @ c # r) = l # split_on c r"
  by (induction l) auto

lemma split_join:
  "ls \<noteq> [] \<Longrightarrow> \<forall>l \<in> set ls. c \<notin> set l \<Longrightarrow> split_on c (join_with c ls) = ls"
  by (induction ls rule: join_with.induct)
     (auto simp: split_on_no_sep_id split_on_append_sep)

lemma sep_append_eq:
  "c \<notin> set a \<Longrightarrow> c \<notin> set a' \<Longrightarrow> a @ c # b = a' @ c # b' \<longleftrightarrow> a = a' \<and> b = b'"
proof (induction a arbitrary: a')
  case Nil
  then show ?case by (cases a') auto
next
  case (Cons x a)
  then show ?case by (cases a') auto
qed

lemma find_char_None: "find_char c s = None \<longleftrightarrow> c \<notin> set s"
  by (induction s) auto

lemma find_char_Some:
  "find_char c s = Some i \<longleftrightarrow>
     (\<exists>a b. s = a @ c # b \<and> c \<notin> set a \<and> length a = i)"
proof (induction s arbitrary: i)
  case Nil
  then show ?case by simp
next
  case (Cons x xs)
  show ?case (is "?L \<longleftrightarrow> ?R")
  proof (cases "x = c")
    case True
    then show ?thesis
      by (auto simp: Cons_eq_append_conv)
  next
    case False
    have "?L \<longleftrightarrow> (\<exists>j. i = Suc j \<and> find_char c xs = Some j)"
      using False by auto
    also have "\<dots> \<longleftrightarrow> (\<exists>a b. xs = a @ c # b \<and> c \<notin> set a \<and> Suc (length a) = i)"
      unfolding Cons.IH by auto
    also have "\<dots> \<longleftrightarrow> ?R"
      using False by (fastforce simp: Cons_eq_append_conv)
    finally show ?thesis .
  qed
qed

section \<open>Tables\<close>

text \<open>
  A table is the list of its rows in insertion (rowid) order. \<open>upd_where p f\<close> is
  \<open>UPDATE ... SET f WHERE p\<close>, with the row count SQLite reports; \<open>find\<close> is
  \<open>SELECT ... WHERE p\<close> followed by \<open>fetchone()\<close>.
\<close>

definition upd_where :: "('r \<Rightarrow> bool) \<Rightarrow> ('r \<Rightarrow> 'r) \<Rightarrow> 'r list \<Rightarrow> 'r list" where
  "upd_where p f rows = map (\<lambda>r. if p r then f r else r) rows"

definition rowcount :: "('r \<Rightarrow> bool) \<Rightarrow> 'r list \<Rightarrow> nat" where
  "rowcount p rows = length (filter p rows)"

text \<open>
  The \<open>with self._connect() as conn\<close> block: an exception inside it rolls the
  database back, a normal return commits.
\<close>

type_synonym ('s, 'e, 'a) txn = "'s \<Rightarrow> 'e + ('a \<times> 's)"

definition with_conn :: "('s, 'e, 'a) txn \<Rightarrow> 's \<Rightarrow> ('e + 'a) \<times> 's" where
  "with_conn t s = (case t s of Inl e \<Rightarrow> (Inl e, s) | Inr (x, s') \<Rightarrow> (Inr x, s'))"

lemma with_conn_simps [simp]:
  "t s = Inl e \<Longrightarrow> with_conn t s = (Inl e, s)"
  "t s = Inr (x, s') \<Longrightarrow> with_conn t s = (Inr x, s')"
  by (simp_all add: with_conn_def)

lemma with_conn_rollback: "with_conn t s = (Inl e, s') \<Longrightarrow> s' = s"
  by (auto simp: with_conn_def split: sum.splits prod.splits)

lemma with_conn_commit: "with_conn t s = (Inr x, s') \<longleftrightarrow> t s = Inr (x, s')"
  by (auto simp: with_conn_def split: sum.splits prod.splits)

lemma upd_where_length [simp]: "length (upd_where p f rows) = length rows"
  by (simp add: upd_where_def)

lemma upd_where_Nil [simp]: "upd_where p f [] = []"
  by (simp add: upd_where_def)

lemma upd_where_Cons [simp]:
  "upd_where p f (r # rows) = (if p r then f r else r) # upd_where p f rows"
  by (simp add: upd_where_def)

lemma upd_where_append [simp]:
  "upd_where p f (rows @ rows') = upd_where p f rows @ upd_where p f rows'"
  by (simp add: upd_where_def)

lemma rowcount_Nil [simp]: "rowcount p [] = 0"
  by (simp add: rowcount_def)

lemma rowcount_Cons [simp]: "rowcount p (r # rows) = (if p r then Suc (rowcount p rows) else rowcount p rows)"
  by (simp add: rowcount_def)

lemma rowcount_append [simp]: "rowcount p (rows @ rows') = rowcount p rows + rowcount p rows'"
  by (simp add: rowcount_def)

lemma rowcount_0: "rowcount p rows = 0 \<longleftrightarrow> (\<forall>r \<in> set rows. \<not> p r)"
  by (induction rows) auto

lemma upd_where_rowcount_0: "rowcount p rows = 0 \<Longrightarrow> upd_where p f rows = rows"
  by (induction rows) (auto split: if_splits)

lemma set_upd_where: "set (upd_where p f rows) = (\<lambda>r. if p r then f r else r) ` set rows"
  by (simp add: upd_where_def)

lemma map_upd_where:
  "(\<And>r. p r \<Longrightarrow> g (f r) = g r) \<Longrightarrow> map g (upd_where p f rows) = map g rows"
  by (auto simp: upd_where_def)

lemma rowcount_upd_where_le:
  "(\<And>r. p r \<Longrightarrow> q (f r) \<Longrightarrow> q r) \<Longrightarrow> rowcount q (upd_where p f rows) \<le> rowcount q rows"
  by (induction rows) (auto simp: le_Suc_eq)

text \<open>Rows with pairwise different keys: a key predicate selects at most one row.\<close>

lemma rowcount_key_le1:
  assumes "distinct (map key rows)" "\<And>r. p r \<Longrightarrow> key r = k"
  shows "rowcount p rows \<le> 1"
  using assms(1)
proof (induction rows)
  case Nil
  then show ?case by simp
next
  case (Cons r rows)
  show ?case
  proof (cases "p r")
    case True
    then have "\<forall>r' \<in> set rows. \<not> p r'"
      using Cons.prems assms(2) by (metis distinct.simps(2) image_eqI list.simps(9) list.set_map)
    then show ?thesis by (simp add: rowcount_0 [symmetric])
  next
    case False
    with Cons show ?thesis by simp
  qed
qed

lemma find_key_unique:
  assumes "distinct (map key rows)" "r \<in> set rows"
  shows "find (\<lambda>x. key x = key r) rows = Some r"
  using assms
proof (induction rows)
  case Nil
  then show ?case by simp
next
  case (Cons x rows)
  then show ?case by (auto simp: image_iff)
qed

lemma find_Some_in: "find p rows = Some r \<Longrightarrow> r \<in> set rows \<and> p r"
  by (induction rows) (auto split: if_splits)

lemma find_None: "find p rows = None \<longleftrightarrow> (\<forall>r \<in> set rows. \<not> p r)"
  by (induction rows) auto

lemma find_append: "find p (rows @ rows') = (case find p rows of None \<Rightarrow> find p rows' | Some r \<Rightarrow> Some r)"
  by (induction rows) auto

lemma find_upd_where:
  "(\<And>r. p r \<Longrightarrow> key (f r) = key r) \<Longrightarrow>
   find (\<lambda>r. key r = k) (upd_where p f rows) =
     map_option (\<lambda>r. if p r then f r else r) (find (\<lambda>r. key r = k) rows)"
  by (induction rows) auto

lemma rowcount_by_key:
  assumes "distinct (map key rows)" "\<And>r. p r \<Longrightarrow> key r = k"
  shows "rowcount p rows = (case find (\<lambda>r. key r = k) rows of None \<Rightarrow> 0
                            | Some r \<Rightarrow> (if p r then 1 else 0))"
  using assms(1)
proof (induction rows)
  case Nil
  then show ?case by simp
next
  case (Cons r rows)
  then have IH: "rowcount p rows = (case find (\<lambda>r. key r = k) rows of None \<Rightarrow> 0
                            | Some r \<Rightarrow> (if p r then 1 else 0))" by simp
  show ?case
  proof (cases "key r = k")
    case True
    then have "\<forall>r' \<in> set rows. \<not> p r'"
      using Cons.prems assms(2) by (metis distinct.simps(2) image_eqI list.simps(9) list.set_map)
    then have "rowcount p rows = 0" by (simp add: rowcount_0)
    with True show ?thesis by simp
  next
    case False
    then have "\<not> p r" using assms(2) by blast
    with False IH show ?thesis by simp
  qed
qed

end
