(* ===== verification/Policy.thy ===== *)
theory Policy
  imports Prelude
begin

text \<open>
  The issuance policy of \<open>src/src/acme_adcs_ra/policy.py\<close>: DNS name syntax, scope
  patterns and the allow/deny decision. The names of the source are kept; a Python
  \<open>ValueError\<close> is a value of \<open>dns_error\<close> carrying what its message names.
\<close>

section \<open>The decision\<close>

record PolicyDecision =
  allowed :: bool
  template :: "string option"
  reason :: string
  reason_code :: string

text \<open>Text comparison of DNS names: trailing dots stripped, case folded.\<close>

definition norm_dns :: "string \<Rightarrow> string" where
  "norm_dns s = lower (rstrip CHR ''.'' s)"

definition match_dns_pattern :: "string \<Rightarrow> string \<Rightarrow> bool" where
  "match_dns_pattern san0 pattern0 =
     (let san = lower (rstrip CHR ''.'' san0);
          pattern = lower (rstrip CHR ''.'' pattern0) in
      if CHR ''*'' \<in> set san then False
      else if prefix ''*.'' pattern then
        (let base = drop 2 pattern in
         case find_char CHR ''.'' san of
           None \<Rightarrow> False
         | Some idx \<Rightarrow> (if idx = 0 then False else drop (idx + 1) san = base))
      else san = pattern)"

definition is_valid_label_char :: "char \<Rightarrow> bool" where
  "is_valid_label_char ch =
     ((CHR ''a'' \<le> ch \<and> ch \<le> CHR ''z'') \<or> (CHR ''A'' \<le> ch \<and> ch \<le> CHR ''Z'')
      \<or> (CHR ''0'' \<le> ch \<and> ch \<le> CHR ''9'') \<or> ch = CHR ''-'')"

datatype dns_error =
    EmptyDnsName
  | DnsNameTooLong nat
  | EmptyLabel
  | LabelTooLong string
  | LabelHyphen string
  | LabelBadChar char string

definition validate_label :: "string \<Rightarrow> dns_error + unit" where
  "validate_label label =
     (if label = [] then Inl EmptyLabel
      else if length label > 63 then Inl (LabelTooLong label)
      else if hd label = CHR ''-'' \<or> last label = CHR ''-'' then Inl (LabelHyphen label)
      else each (\<lambda>ch. if \<not> is_valid_label_char ch then Inl (LabelBadChar ch label) else Inr ()) label)"

definition validate_dns_name :: "string \<Rightarrow> dns_error + unit" where
  "validate_dns_name name0 =
     (let name = rstrip CHR ''.'' name0 in
      if name = [] then Inl EmptyDnsName
      else if length name > 253 then Inl (DnsNameTooLong (length name))
      else each validate_label (split_on CHR ''.'' name))"

record IssuancePolicy =
  allowed_kids :: "string set"
  san_scopes :: "string \<rightharpoonup> string list"
  policy_template :: string

text \<open>
  The loop over the requested names stops at the first one no pattern admits.
  \<open>csr_subject\<close> is accepted and not used, as in the source.
\<close>

definition evaluate :: "IssuancePolicy \<Rightarrow> string \<Rightarrow> string \<Rightarrow> string list \<Rightarrow> PolicyDecision" where
  "evaluate pol eab_kid csr_subject requested_sans =
     (if eab_kid \<notin> allowed_kids pol then
        \<lparr>allowed = False, template = None, reason = ''unknown kid: '' @ eab_kid,
         reason_code = ''unknown-kid''\<rparr>
      else if requested_sans = [] then
        \<lparr>allowed = False, template = None,
         reason = ''no SANs requested; subject-only issuance is not allowed'',
         reason_code = ''no-sans-requested''\<rparr>
      else
        (let allowed_patterns = (case san_scopes pol eab_kid of None \<Rightarrow> [] | Some ps \<Rightarrow> ps) in
         case find (\<lambda>san. \<not> list_ex (match_dns_pattern san) allowed_patterns) requested_sans of
           Some san \<Rightarrow>
             \<lparr>allowed = False, template = None,
              reason = ''SAN out of scope for kid '' @ eab_kid @ '': '' @ san,
              reason_code = ''san-out-of-scope''\<rparr>
         | None \<Rightarrow>
             \<lparr>allowed = True, template = Some (policy_template pol), reason = ''allowed'',
              reason_code = ''allowed''\<rparr>))"

section \<open>Label syntax\<close>

definition ok_label :: "string \<Rightarrow> bool" where
  "ok_label l \<longleftrightarrow> 1 \<le> length l \<and> length l \<le> 63 \<and> hd l \<noteq> CHR ''-'' \<and> last l \<noteq> CHR ''-''
     \<and> list_all is_valid_label_char l"

lemma validate_label_ok: "validate_label l = Inr () \<longleftrightarrow> ok_label l"
  by (cases l) (auto simp: validate_label_def ok_label_def list_all_iff split: if_splits)

lemma dot_star_not_label_char [simp]:
  "\<not> is_valid_label_char CHR ''.''" "\<not> is_valid_label_char CHR ''*''"
  by (simp_all add: is_valid_label_char_def less_eq_char_def)

lemma ok_label_no_dot: "ok_label l \<Longrightarrow> CHR ''.'' \<notin> set l \<and> CHR ''*'' \<notin> set l"
  by (auto simp: ok_label_def list_all_iff)

lemma rstrip_no_trailing: "s \<noteq> [] \<Longrightarrow> last s \<noteq> c \<Longrightarrow> rstrip c s = s"
  by (cases s rule: rev_cases) (auto simp: rstrip_def)

lemma last_rstrip: "rstrip c s \<noteq> [] \<Longrightarrow> last (rstrip c s) \<noteq> c"
  unfolding rstrip_def
  by (metis (mono_tags, lifting) hd_dropWhile hd_rev rev_rev_ident rev_is_Nil_conv)

lemma set_join_with: "set (join_with c ls) \<subseteq> insert c (\<Union> (set ` set ls))"
  by (induction ls rule: join_with.induct) auto

lemma validate_dns_name_split:
  "validate_dns_name name = Inr () \<longleftrightarrow>
     rstrip CHR ''.'' name \<noteq> [] \<and> length (rstrip CHR ''.'' name) \<le> 253
     \<and> list_all ok_label (split_on CHR ''.'' (rstrip CHR ''.'' name))"
  by (auto simp: validate_dns_name_def Let_def validate_label_ok list_all_iff split: if_splits)

text \<open>
  A DNS name passes the syntax gate exactly when, without its trailing dots, it is a
  dot-separated list of one or more labels of 1 to 63 letters, digits and hyphens that
  neither start nor end with a hyphen, at most 253 characters in all.
\<close>

theorem validate_dns_name_iff:
  "validate_dns_name name = Inr () \<longleftrightarrow>
     (\<exists>ls. ls \<noteq> [] \<and> list_all ok_label ls \<and> rstrip CHR ''.'' name = join_with CHR ''.'' ls
         \<and> length (rstrip CHR ''.'' name) \<le> 253)"
proof -
  let ?n = "rstrip CHR ''.'' name"
  let ?d = "CHR ''.''"
  note L = validate_dns_name_split [of name]
  show ?thesis
  proof
    assume "validate_dns_name name = Inr ()"
    with L show "\<exists>ls. ls \<noteq> [] \<and> list_all ok_label ls \<and> ?n = join_with ?d ls \<and> length ?n \<le> 253"
      by (intro exI [of _ "split_on ?d ?n"]) simp
  next
    assume "\<exists>ls. ls \<noteq> [] \<and> list_all ok_label ls \<and> ?n = join_with ?d ls \<and> length ?n \<le> 253"
    then obtain ls where ls: "ls \<noteq> []" "list_all ok_label ls" "?n = join_with ?d ls" "length ?n \<le> 253"
      by blast
    have "\<forall>l \<in> set ls. ?d \<notin> set l"
      using ls(2) ok_label_no_dot by (auto simp: list_all_iff)
    then have "split_on ?d ?n = ls"
      unfolding ls(3) by (rule split_join [OF ls(1)])
    moreover have "?n \<noteq> []"
    proof -
      obtain l ls' where "ls = l # ls'" using ls(1) by (cases ls) auto
      with ls show ?thesis by (cases ls') (auto simp: ok_label_def)
    qed
    ultimately show "validate_dns_name name = Inr ()"
      using ls L by simp
  qed
qed

lemma validate_dns_name_no_star: "validate_dns_name name = Inr () \<Longrightarrow> CHR ''*'' \<notin> set name"
proof
  assume ok: "validate_dns_name name = Inr ()" and star: "CHR ''*'' \<in> set name"
  let ?ls = "split_on CHR ''.'' (rstrip CHR ''.'' name)"
  have "CHR ''*'' \<in> set (join_with CHR ''.'' ?ls)"
    using star by (simp add: mem_rstrip)
  then have "CHR ''*'' \<in> insert CHR ''.'' (\<Union> (set ` set ?ls))"
    using set_join_with by (metis subsetD)
  then obtain l where "l \<in> set ?ls" "CHR ''*'' \<in> set l" by auto
  with ok ok_label_no_dot show False by (auto simp: validate_dns_name_split list_all_iff)
qed

section \<open>Scope patterns\<close>

lemma norm_dns_star: "CHR ''*'' \<in> set (norm_dns s) \<longleftrightarrow> CHR ''*'' \<in> set s"
proof -
  have "CHR ''*'' \<in> set (norm_dns s) \<longleftrightarrow> CHR ''*'' \<in> set (rstrip CHR ''.'' s)"
    unfolding norm_dns_def by (rule lower_mem_fix) simp
  then show ?thesis by (simp add: mem_rstrip)
qed

lemma norm_dns_idem [simp]: "norm_dns (norm_dns s) = norm_dns s"
  by (simp add: norm_dns_def lower_rstrip_dot)

lemma norm_dns_cases [simp]: "norm_dns (s @ ''.'') = norm_dns s" "norm_dns (lower s) = norm_dns s"
  by (simp_all add: norm_dns_def lower_rstrip_dot)



lemma match_dns_pattern_no_star: "match_dns_pattern san pat \<Longrightarrow> CHR ''*'' \<notin> set san"
  using norm_dns_star by (auto simp: match_dns_pattern_def Let_def norm_dns_def [symmetric] split: if_splits)

section \<open>The decision, characterised\<close>

definition kid_patterns :: "IssuancePolicy \<Rightarrow> string \<Rightarrow> string list" where
  "kid_patterns pol kid = (case san_scopes pol kid of None \<Rightarrow> [] | Some ps \<Rightarrow> ps)"





text \<open>
  The machine code of a decision is one of four constants, whatever the request holds,
  and the code of an allowed decision is the constant for allowed and no denied one's.
\<close>

theorem evaluate_reason_code:
  "reason_code (evaluate pol kid subj sans) \<in>
     {''allowed'', ''unknown-kid'', ''no-sans-requested'', ''san-out-of-scope''}
   \<and> (reason_code (evaluate pol kid subj sans) = ''allowed'' \<longleftrightarrow>
      allowed (evaluate pol kid subj sans))"
  by (auto simp: evaluate_def Let_def split: option.splits)

lemma evaluate_allowed_not_empty: "allowed (evaluate pol kid subj sans) \<Longrightarrow> sans \<noteq> []"
  by (auto simp: evaluate_def split: if_splits)

lemma evaluate_allowed_kid: "allowed (evaluate pol kid subj sans) \<Longrightarrow> kid \<in> allowed_kids pol"
  by (auto simp: evaluate_def split: if_splits)

lemma evaluate_allowed_scope:
  "allowed (evaluate pol kid subj sans) \<Longrightarrow> san \<in> set sans \<Longrightarrow>
     list_ex (match_dns_pattern san) (kid_patterns pol kid)"
  by (auto simp: evaluate_def Let_def kid_patterns_def find_None split: option.splits if_splits)

lemma evaluate_allowed_no_star:
  "allowed (evaluate pol kid subj sans) \<Longrightarrow> san \<in> set sans \<Longrightarrow> CHR ''*'' \<notin> set san"
  using evaluate_allowed_scope match_dns_pattern_no_star by (metis list_ex_iff)

end
