(* ===== verification/AcmeErrors.thy ===== *)
theory AcmeErrors
  imports Prelude
begin

text \<open>
  The problem documents of \<open>src/src/acme_adcs_ra/acme_errors.py\<close>. An \<open>AcmeError\<close>
  keeps the problem type, the HTTP status, the \<open>Retry-After\<close> header and the
  \<open>algorithms\<close> member, which clients act on; the prose of \<open>detail\<close> is not modelled.
\<close>

record AcmeError =
  err_type :: string
  status_code :: nat
  retry_after :: "int option"
  algorithms :: "string list"

definition acme_error :: "string \<Rightarrow> nat \<Rightarrow> AcmeError" where
  "acme_error t st = \<lparr>err_type = ''urn:ietf:params:acme:error:'' @ t, status_code = st,
                       retry_after = None, algorithms = []\<rparr>"

definition bad_nonce :: AcmeError where "bad_nonce = acme_error ''badNonce'' 400"
definition unauthorized :: AcmeError where "unauthorized = acme_error ''unauthorized'' 401"
definition malformed :: AcmeError where "malformed = acme_error ''malformed'' 400"
definition bad_public_key :: AcmeError where "bad_public_key = acme_error ''badPublicKey'' 400"
definition bad_csr :: AcmeError where "bad_csr = acme_error ''badCSR'' 400"
definition rejected_identifier :: AcmeError where
  "rejected_identifier = acme_error ''rejectedIdentifier'' 400"
definition bad_external_account_binding :: AcmeError where
  "bad_external_account_binding = acme_error ''badExternalAccountBinding'' 400"
definition server_internal :: AcmeError where "server_internal = acme_error ''serverInternal'' 500"
definition issuance_halted :: AcmeError where "issuance_halted = acme_error ''serverInternal'' 503"
definition unsupported_identifier :: AcmeError where
  "unsupported_identifier = acme_error ''unsupportedIdentifier'' 400"
definition bad_revocation_reason :: AcmeError where
  "bad_revocation_reason = acme_error ''badRevocationReason'' 400"
definition not_found :: AcmeError where "not_found = acme_error ''notFound'' 404"
definition account_does_not_exist :: AcmeError where
  "account_does_not_exist = acme_error ''accountDoesNotExist'' 400"
definition rate_limited :: "int option \<Rightarrow> AcmeError" where
  "rate_limited ra = (acme_error ''rateLimited'' 429)\<lparr>retry_after := ra\<rparr>"
definition order_not_ready :: AcmeError where "order_not_ready = acme_error ''orderNotReady'' 403"
definition bad_signature_algorithm :: "string list \<Rightarrow> AcmeError" where
  "bad_signature_algorithm algs = (acme_error ''badSignatureAlgorithm'' 400)\<lparr>algorithms := algs\<rparr>"
definition unsupported_media_type :: AcmeError where
  "unsupported_media_type = acme_error ''malformed'' 415"

lemmas acme_error_defs =
  acme_error_def bad_nonce_def unauthorized_def malformed_def bad_public_key_def bad_csr_def
  rejected_identifier_def bad_external_account_binding_def server_internal_def
  issuance_halted_def unsupported_identifier_def bad_revocation_reason_def not_found_def
  account_does_not_exist_def rate_limited_def order_not_ready_def bad_signature_algorithm_def
  unsupported_media_type_def

end
