(* ===== verification/CsrValidation.thy ===== *)
theory CsrValidation
  imports Policy AcmeErrors
begin

text \<open>
  The certificate-request gates of \<open>src/src/acme_adcs_ra/csr_validation.py\<close> and the
  checks of the issued certificate in \<open>issued_certificate_validation.py\<close>. A parsed
  request or certificate is a record of the attributes the code reads; the parser of the
  \<open>cryptography\<close> package is a parameter \<open>load_pem\<close> of the checks that call it.
\<close>

section \<open>Parsed requests and certificates\<close>

datatype GeneralName =
    DNSName string
  | RFC822Name string
  | IPAddress string
  | URI string
  | OtherName string
  | RegisteredID string
  | DirectoryName string

datatype public_key = RSAPublicKey nat | EllipticCurvePublicKey string | OtherPublicKey string

text \<open>A subject attribute is text or, for a bit-string typed one, bytes.\<close>

datatype attr_value = TextAttr string | BytesAttr string

record csr =
  csr_public_key :: public_key
  csr_signature_valid :: bool
  csr_rfc4514 :: string
  csr_common_names :: "attr_value list"
  csr_san :: "GeneralName list option"
  csr_basic_constraints_ca :: "bool option"
  csr_key_usage :: "(bool \<times> bool) option"
  csr_eku :: "string list option"
  csr_application_policies :: bool

record x509_cert =
  crt_san :: "GeneralName list option"
  crt_eku :: "string list option"
  crt_basic_constraints_ca :: "bool option"
  crt_key_usage :: "(bool \<times> bool) option"

fun dns_value :: "GeneralName \<Rightarrow> string option" where
  "dns_value (DNSName s) = Some s"
| "dns_value _ = None"

definition dns_values :: "GeneralName list \<Rightarrow> string list" where
  "dns_values gns = List.map_filter dns_value gns"

definition server_auth_oid :: string where "server_auth_oid = ''1.3.6.1.5.5.7.3.1''"

section \<open>The request gates\<close>

definition reject_non_dns_sans :: "GeneralName list \<Rightarrow> AcmeError + unit" where
  "reject_non_dns_sans = each (\<lambda>gn. case gn of DNSName _ \<Rightarrow> Inr () | _ \<Rightarrow> Inl bad_csr)"

definition reject_wildcard_sans :: "string list \<Rightarrow> AcmeError + unit" where
  "reject_wildcard_sans = each (\<lambda>san. if CHR ''*'' \<in> set san then Inl bad_csr else Inr ())"

definition reject_invalid_dns_sans :: "string list \<Rightarrow> AcmeError + unit" where
  "reject_invalid_dns_sans =
     each (\<lambda>san. case validate_dns_name san of Inl _ \<Rightarrow> Inl bad_csr | Inr _ \<Rightarrow> Inr ())"

definition validate_csr_key_strength :: "csr \<Rightarrow> AcmeError + unit" where
  "validate_csr_key_strength c =
     (case csr_public_key c of
        RSAPublicKey key_size \<Rightarrow> if key_size < 2048 then Inl bad_csr else Inr ()
      | EllipticCurvePublicKey curve \<Rightarrow>
          if curve \<notin> set [''secp256r1'', ''secp384r1'', ''secp521r1''] then Inl bad_csr else Inr ()
      | OtherPublicKey _ \<Rightarrow> Inl bad_csr)"

definition reject_unrequested_common_names :: "csr \<Rightarrow> string list \<Rightarrow> AcmeError + unit" where
  "reject_unrequested_common_names c requested_sans =
     (let authorized = map norm_dns requested_sans in
      each (\<lambda>attr. case attr of
               BytesAttr _ \<Rightarrow> Inl bad_csr
             | TextAttr common_name \<Rightarrow>
                 (case validate_dns_name common_name of
                    Inl _ \<Rightarrow> Inl bad_csr
                  | Inr _ \<Rightarrow> if norm_dns common_name \<notin> set authorized then Inl bad_csr else Inr ()))
           (csr_common_names c))"

definition reject_ca_capable_csr_extensions :: "csr \<Rightarrow> AcmeError + unit" where
  "reject_ca_capable_csr_extensions c =
     (if csr_basic_constraints_ca c = Some True then Inl bad_csr
      else if (case csr_key_usage c of None \<Rightarrow> False | Some (cert_sign, crl_sign) \<Rightarrow> cert_sign \<or> crl_sign)
        then Inl bad_csr
      else if (case csr_eku c of None \<Rightarrow> False | Some oids \<Rightarrow> oids \<noteq> [server_auth_oid])
        then Inl bad_csr
      else if csr_application_policies c then Inl bad_csr
      else Inr ())"

section \<open>The issued certificate\<close>

text \<open>A violation is what the source words as one message.\<close>

datatype violation =
    NoEku
  | EkuBeyondServerAuth "string list"
  | ServerAuthAbsent
  | CaTrue
  | KeyCertSign
  | CrlSign
  | UnauthorizedDns "string list" "string list"
  | NonDnsSanTypes "string list"

definition non_dns_types :: "GeneralName list \<Rightarrow> string list" where
  "non_dns_types gns =
     (if list_ex (\<lambda>g. case g of RFC822Name _ \<Rightarrow> True | _ \<Rightarrow> False) gns then [''RFC822Name (email)''] else [])
   @ (if list_ex (\<lambda>g. case g of IPAddress _ \<Rightarrow> True | _ \<Rightarrow> False) gns then [''IPAddress''] else [])
   @ (if list_ex (\<lambda>g. case g of URI _ \<Rightarrow> True | _ \<Rightarrow> False) gns then [''URI''] else [])
   @ (if list_ex (\<lambda>g. case g of OtherName _ \<Rightarrow> True | _ \<Rightarrow> False) gns then [''OtherName''] else [])
   @ (if list_ex (\<lambda>g. case g of RegisteredID _ \<Rightarrow> True | _ \<Rightarrow> False) gns then [''RegisteredID''] else [])
   @ (if list_ex (\<lambda>g. case g of DirectoryName _ \<Rightarrow> True | _ \<Rightarrow> False) gns then [''DirectoryName''] else [])"

definition issued_cert_san_violations ::
  "(string \<Rightarrow> x509_cert option) \<Rightarrow> string \<Rightarrow> string list
     \<Rightarrow> AcmeError + (string list \<times> string list \<times> string list)" where
  "issued_cert_san_violations load_pem cert_pem requested_sans =
     (case load_pem cert_pem of
        None \<Rightarrow> Inl server_internal
      | Some issued \<Rightarrow>
          (case crt_san issued of
             None \<Rightarrow> Inr ([], [], [])
           | Some san_value \<Rightarrow>
               (let issued_dns = dns_values san_value;
                    authorized = map norm_dns requested_sans;
                    unauth = filter (\<lambda>s. norm_dns s \<notin> set authorized) issued_dns
                in Inr (issued_dns, unauth, non_dns_types san_value))))"

definition issued_cert_eku_violations ::
  "(string \<Rightarrow> x509_cert option) \<Rightarrow> string \<Rightarrow> AcmeError + violation list" where
  "issued_cert_eku_violations load_pem cert_pem =
     (case load_pem cert_pem of
        None \<Rightarrow> Inl server_internal
      | Some issued \<Rightarrow>
          (case crt_eku issued of
             None \<Rightarrow> Inr [NoEku]
           | Some oids \<Rightarrow>
               (let non_server = filter (\<lambda>oid. oid \<noteq> server_auth_oid) oids in
                Inr ((if non_server \<noteq> [] then [EkuBeyondServerAuth non_server] else [])
                   @ (if server_auth_oid \<notin> set oids then [ServerAuthAbsent] else [])))))"

definition issued_cert_ca_capability_violations ::
  "(string \<Rightarrow> x509_cert option) \<Rightarrow> string \<Rightarrow> AcmeError + violation list" where
  "issued_cert_ca_capability_violations load_pem cert_pem =
     (case load_pem cert_pem of
        None \<Rightarrow> Inl server_internal
      | Some issued \<Rightarrow>
          (let vs = (if crt_basic_constraints_ca issued = Some True then [CaTrue] else []) in
           case crt_key_usage issued of
             None \<Rightarrow> Inr vs
           | Some (key_cert_sign, crl_sign) \<Rightarrow>
               Inr (vs @ (if key_cert_sign then [KeyCertSign] else [])
                       @ (if crl_sign then [CrlSign] else []))))"

section \<open>What the gates guarantee\<close>

lemma reject_non_dns_sans_ok:
  "reject_non_dns_sans gns = Inr () \<longleftrightarrow> (\<forall>g \<in> set gns. \<exists>s. g = DNSName s)"
proof -
  have "(case g of DNSName _ \<Rightarrow> Inr () | _ \<Rightarrow> Inl bad_csr) = Inr () \<longleftrightarrow> (\<exists>s. g = DNSName s)" for g
    by (cases g) auto
  then show ?thesis by (simp add: reject_non_dns_sans_def)
qed

lemma dns_values_all:
  "\<forall>g \<in> set gns. \<exists>s. g = DNSName s \<Longrightarrow> map DNSName (dns_values gns) = gns"
  by (induction gns) (auto simp: dns_values_def List.map_filter_simps)

lemma reject_wildcard_sans_ok:
  "reject_wildcard_sans sans = Inr () \<longleftrightarrow> (\<forall>s \<in> set sans. CHR ''*'' \<notin> set s)"
  by (auto simp: reject_wildcard_sans_def split: if_splits)

lemma reject_invalid_dns_sans_ok:
  "reject_invalid_dns_sans sans = Inr () \<longleftrightarrow> (\<forall>s \<in> set sans. validate_dns_name s = Inr ())"
proof -
  have "(case validate_dns_name s of Inl _ \<Rightarrow> Inl bad_csr | Inr _ \<Rightarrow> Inr ()) = Inr ()
      \<longleftrightarrow> validate_dns_name s = Inr ()" for s
    by (cases "validate_dns_name s") auto
  then show ?thesis by (simp add: reject_invalid_dns_sans_def)
qed

text \<open>
  The extension gate passes a request exactly when it asks for no certificate-authority
  flag, no certificate or CRL signing usage, no extended key usage other than exactly
  server authentication, and carries no Microsoft application-policies extension.
\<close>

theorem reject_ca_capable_csr_extensions_ok:
  "reject_ca_capable_csr_extensions c = Inr () \<longleftrightarrow>
     csr_basic_constraints_ca c \<noteq> Some True
     \<and> (csr_key_usage c = None \<or> csr_key_usage c = Some (False, False))
     \<and> (csr_eku c = None \<or> csr_eku c = Some [server_auth_oid])
     \<and> \<not> csr_application_policies c"
  by (auto simp: reject_ca_capable_csr_extensions_def split: option.splits if_splits)

lemma cn_check_ok:
  "(case attr of BytesAttr _ \<Rightarrow> Inl bad_csr
     | TextAttr cn \<Rightarrow> (case validate_dns_name cn of Inl _ \<Rightarrow> Inl bad_csr
         | Inr _ \<Rightarrow> if norm_dns cn \<notin> A then Inl bad_csr else Inr ())) = Inr ()
   \<longleftrightarrow> (\<exists>cn. attr = TextAttr cn \<and> validate_dns_name cn = Inr () \<and> norm_dns cn \<in> A)"
  by (auto split: attr_value.splits sum.splits)

text \<open>
  The common-name gate passes a request exactly when every common name of its subject
  is text, is a valid DNS name, and equals one of the requested names up to case and
  trailing dots, so the subject names no host the names do not.
\<close>

theorem reject_unrequested_common_names_ok:
  "reject_unrequested_common_names c sans = Inr () \<longleftrightarrow>
     list_all (\<lambda>attr. \<exists>cn. attr = TextAttr cn \<and> validate_dns_name cn = Inr ()
                  \<and> norm_dns cn \<in> norm_dns ` set sans) (csr_common_names c)"
  unfolding reject_unrequested_common_names_def Let_def each_ok list_all_iff set_map
  by (simp only: cn_check_ok)

lemma non_dns_types_empty: "non_dns_types gns = [] \<longleftrightarrow> (\<forall>g \<in> set gns. \<exists>s. g = DNSName s)"
proof (induction gns)
  case Nil
  then show ?case by (simp add: non_dns_types_def)
next
  case (Cons g gns)
  then show ?case
    by (cases g) (auto simp: non_dns_types_def split: if_splits)
qed

lemma dns_values_mem: "s \<in> set (dns_values gns) \<longleftrightarrow> DNSName s \<in> set gns"
proof (induction gns)
  case Nil
  then show ?case by (simp add: dns_values_def List.map_filter_simps)
next
  case (Cons g gns)
  then show ?case by (cases g) (auto simp: dns_values_def List.map_filter_simps)
qed

text \<open>The certificates the relying parties may be shown: serverAuth-only, not CA-capable, in scope.\<close>

definition honourable :: "x509_cert \<Rightarrow> string list \<Rightarrow> bool" where
  "honourable crt sans \<longleftrightarrow>
     (case crt_san crt of None \<Rightarrow> True
      | Some gns \<Rightarrow> list_all (\<lambda>g. \<exists>s. g = DNSName s \<and> norm_dns s \<in> norm_dns ` set sans) gns)
     \<and> (\<exists>oids. crt_eku crt = Some oids \<and> set oids = {server_auth_oid})
     \<and> crt_basic_constraints_ca crt \<noteq> Some True
     \<and> (crt_key_usage crt = None \<or> crt_key_usage crt = Some (False, False))"

lemma san_violations_clean:
  "(\<exists>dns. issued_cert_san_violations load_pem pem sans = Inr (dns, [], [])) \<longleftrightarrow>
     (\<exists>crt. load_pem pem = Some crt \<and>
        (case crt_san crt of None \<Rightarrow> True
         | Some gns \<Rightarrow> list_all (\<lambda>g. \<exists>s. g = DNSName s \<and> norm_dns s \<in> norm_dns ` set sans) gns))"
proof (cases "load_pem pem")
  case None
  then show ?thesis by (simp add: issued_cert_san_violations_def)
next
  case (Some crt)
  show ?thesis
  proof (cases "crt_san crt")
    case None
    with Some show ?thesis by (simp add: issued_cert_san_violations_def)
  next
    case (Some gns)
    have "filter (\<lambda>s. norm_dns s \<notin> norm_dns ` set sans) (dns_values gns) = [] \<and> non_dns_types gns = []
      \<longleftrightarrow> (\<forall>g \<in> set gns. \<exists>s. g = DNSName s \<and> norm_dns s \<in> norm_dns ` set sans)"
      (is "?A \<longleftrightarrow> ?B")
    proof
      assume A: ?A
      show ?B
      proof
        fix g assume g: "g \<in> set gns"
        with A obtain s where s: "g = DNSName s" unfolding non_dns_types_empty by blast
        with g have "s \<in> set (dns_values gns)" by (simp add: dns_values_mem)
        with A s show "\<exists>s. g = DNSName s \<and> norm_dns s \<in> norm_dns ` set sans"
          unfolding filter_empty_conv by blast
      qed
    next
      assume B: ?B
      have "norm_dns s \<in> norm_dns ` set sans" if "DNSName s \<in> set gns" for s
        using bspec [OF B that] by simp
      moreover have "\<exists>s. g = DNSName s" if "g \<in> set gns" for g
        using bspec [OF B that] by blast
      ultimately show ?A
        by (simp add: filter_empty_conv non_dns_types_empty dns_values_mem)
    qed
    with Some \<open>load_pem pem = Some crt\<close> show ?thesis
      by (simp add: issued_cert_san_violations_def Let_def list_all_iff)
  qed
qed

lemma eku_violations_clean:
  "issued_cert_eku_violations load_pem pem = Inr [] \<longleftrightarrow>
     (\<exists>crt oids. load_pem pem = Some crt \<and> crt_eku crt = Some oids \<and> set oids = {server_auth_oid})"
proof -
  have "filter (\<lambda>oid. oid \<noteq> server_auth_oid) oids = [] \<and> server_auth_oid \<in> set oids
      \<longleftrightarrow> set oids = {server_auth_oid}" for oids
    unfolding filter_empty_conv by auto
  then show ?thesis
    by (auto simp: issued_cert_eku_violations_def Let_def split: option.splits if_splits)
qed

lemma ca_violations_clean:
  "issued_cert_ca_capability_violations load_pem pem = Inr [] \<longleftrightarrow>
     (\<exists>crt. load_pem pem = Some crt \<and> crt_basic_constraints_ca crt \<noteq> Some True
        \<and> (crt_key_usage crt = None \<or> crt_key_usage crt = Some (False, False)))"
  by (auto simp: issued_cert_ca_capability_violations_def Let_def split: option.splits if_splits prod.splits)

text \<open>
  C38. The three checks of an issued certificate together pass exactly when it parses, every
  subject alternative name is a DNS name the request asked for, its extended key usage is
  server authentication and nothing else, and it can sign neither certificates nor CRLs.
\<close>

theorem issued_checks_iff_honourable:
  "((\<exists>dns. issued_cert_san_violations load_pem pem sans = Inr (dns, [], []))
    \<and> issued_cert_eku_violations load_pem pem = Inr []
    \<and> issued_cert_ca_capability_violations load_pem pem = Inr [])
   \<longleftrightarrow> (\<exists>crt. load_pem pem = Some crt \<and> honourable crt sans)"
  unfolding san_violations_clean eku_violations_clean ca_violations_clean honourable_def
  by auto

end
