(* ===== verification/AuditBounds.thy ===== *)
theory AuditBounds
  imports Prelude "HOL-Library.List_Lexorder"
begin

text \<open>
  JSON values with their compact \<open>json.dumps\<close> text, and the bounded audit details of
  \<open>src/src/acme_adcs_ra/audit_bounds.py\<close>. A Python dict is an association list with
  distinct keys in insertion order. Numbers are integers. The SHA-256 digest is a
  parameter \<open>digest\<close>.
\<close>

section \<open>JSON\<close>

datatype json = JNull | JBool bool | JInt int | JStr string | JList "json list"
  | JObj "(string \<times> json) list"

type_synonym details = "(string \<times> json) list"

fun show_nat :: "nat \<Rightarrow> string" where
  "show_nat n = (if n < 10 then [char_of (48 + n)] else show_nat (n div 10) @ [char_of (48 + n mod 10)])"

declare show_nat.simps [simp del]

definition show_int :: "int \<Rightarrow> string" where
  "show_int i = (if i < 0 then CHR ''-'' # show_nat (nat (- i)) else show_nat (nat i))"

definition hex_digit :: "nat \<Rightarrow> char" where
  "hex_digit n = (if n < 10 then char_of (48 + n) else char_of (87 + n))"

definition esc_char :: "char \<Rightarrow> string" where
  "esc_char c =
     (let n = (of_char c :: nat) in
      if n = 34 then [CHR 0x5C, CHR 0x22]
      else if n = 92 then [CHR 0x5C, CHR 0x5C]
      else if n = 10 then [CHR 0x5C, CHR ''n'']
      else if n = 13 then [CHR 0x5C, CHR ''r'']
      else if n = 9 then [CHR 0x5C, CHR ''t'']
      else if n = 8 then [CHR 0x5C, CHR ''b'']
      else if n = 12 then [CHR 0x5C, CHR ''f'']
      else if 32 \<le> n \<and> n \<le> 126 then [c]
      else [CHR 0x5C, CHR ''u'', CHR ''0'', CHR ''0'', hex_digit (n div 16), hex_digit (n mod 16)])"

definition dump_str :: "string \<Rightarrow> string" where
  "dump_str s = CHR 0x22 # concat (map esc_char s) @ [CHR 0x22]"

fun commas :: "string list \<Rightarrow> string" where
  "commas [] = []"
| "commas [x] = x"
| "commas (x # y # ys) = x @ CHR '','' # commas (y # ys)"

primrec dumps :: "json \<Rightarrow> string" where
  "dumps JNull = ''null''"
| "dumps (JBool b) = (if b then ''true'' else ''false'')"
| "dumps (JInt i) = show_int i"
| "dumps (JStr s) = dump_str s"
| "dumps (JList xs) = CHR ''['' # commas (map dumps xs) @ '']''"
| "dumps (JObj kvs) = CHR ''{'' # commas (map (\<lambda>p. dump_str (fst p) @ CHR '':'' # snd p)
                                            (map (map_prod id dumps) kvs)) @ ''}''"

text \<open>\<open>d[k] = v\<close> on a dict.\<close>

fun dict_set :: "string \<Rightarrow> 'v \<Rightarrow> (string \<times> 'v) list \<Rightarrow> (string \<times> 'v) list" where
  "dict_set k v [] = [(k, v)]"
| "dict_set k v ((k', v') # d) = (if k' = k then (k, v) # d else (k', v') # dict_set k v d)"

section \<open>Bounding\<close>

definition max_value_chars :: nat where "max_value_chars = 256"
definition max_details_chars :: nat where "max_details_chars = 4096"
definition marker_headroom :: nat where "marker_headroom = 512"
definition max_dropped_keys_named :: nat where "max_dropped_keys_named = 10"
definition max_depth :: nat where "max_depth = 4"

function bound_value :: "(string \<Rightarrow> string) \<Rightarrow> nat \<Rightarrow> nat \<Rightarrow> json \<Rightarrow> json" where
  "bound_value digest max_chars depth v =
     (if depth > max_depth then JStr ''[nested too deeply for the audit log]''
      else (case v of
              JStr s \<Rightarrow>
                (if length s \<le> max_chars then JStr s
                 else JStr (take max_chars s @ ''...[truncated: '' @ show_nat (length s)
                            @ '' chars, sha256:'' @ digest s @ '']''))
            | JObj kvs \<Rightarrow> JObj (map (\<lambda>p. (fst p, bound_value digest max_chars (Suc depth) (snd p))) kvs)
            | JList xs \<Rightarrow> JList (map (bound_value digest max_chars (Suc depth)) xs)
            | w \<Rightarrow> w))"
  by pat_completeness auto
termination
  by (relation "measure (\<lambda>(_, _, depth, _). Suc max_depth - depth)") (auto simp: max_depth_def)

declare bound_value.simps [simp del]

definition serialized_length :: "details \<Rightarrow> nat" where
  "serialized_length d = length (dumps (JObj d))"

definition key_order :: "string list \<Rightarrow> string list" where
  "key_order ks = (if ''reason'' \<in> set ks then [''reason''] else [])
                  @ sort (filter (\<lambda>k. k \<noteq> ''reason'') ks)"

text \<open>The admission loop: a key whose value still fits the budget is kept, any other is dropped.\<close>

fun admit :: "nat \<Rightarrow> details \<Rightarrow> string list \<Rightarrow> details \<times> string list \<Rightarrow> details \<times> string list" where
  "admit budget bounded [] acc = acc"
| "admit budget bounded (key # keys) (kept, dropped) =
     (case map_of bounded key of
        None \<Rightarrow> admit budget bounded keys (kept, dropped)
      | Some v \<Rightarrow>
          (let candidate = dict_set key v kept in
           if serialized_length candidate > budget
           then admit budget bounded keys (kept, dropped @ [key])
           else admit budget bounded keys (candidate, dropped)))"

definition dropped_marker :: "string list \<Rightarrow> json" where
  "dropped_marker dropped =
     JObj [(''count'', JInt (int (length dropped))),
           (''keys'', JList (map JStr (take max_dropped_keys_named (sort dropped)))),
           (''reason'', JStr ''audit details exceeded the size bound'')]"

definition bound_details :: "(string \<Rightarrow> string) \<Rightarrow> nat \<Rightarrow> nat \<Rightarrow> details option \<Rightarrow> details" where
  "bound_details digest max_value max_total d =
     (let bounded = map (\<lambda>p. (fst p, bound_value digest max_value 0 (snd p)))
                        (case d of None \<Rightarrow> [] | Some kvs \<Rightarrow> kvs) in
      if serialized_length bounded \<le> max_total then bounded
      else
        (let (kept, dropped) = admit (max_total - marker_headroom) bounded
                                 (key_order (map fst bounded)) ([], []) in
         if dropped \<noteq> [] then dict_set ''_dropped'' (dropped_marker dropped) kept else kept))"

section \<open>Sizes\<close>

lemma length_commas: "length (commas xs) = sum_list (map length xs) + (length xs - 1)"
  by (induction xs rule: commas.induct) auto

lemma length_dump_obj:
  "serialized_length d =
     2 + sum_list (map (\<lambda>(k, v). length (dump_str k) + 1 + length (dumps v)) d) + (length d - 1)"
proof -
  have "sum_list (map length (map (\<lambda>p. dump_str (fst p) @ CHR '':'' # snd p) (map (map_prod id dumps) d)))
      = sum_list (map (\<lambda>(k, v). length (dump_str k) + 1 + length (dumps v)) d)"
    by (induction d) auto
  then show ?thesis
    by (simp add: serialized_length_def length_commas)
qed

lemma dict_set_new: "k \<notin> fst ` set d \<Longrightarrow> dict_set k v d = d @ [(k, v)]"
  by (induction k v d rule: dict_set.induct) auto

lemma dict_set_keys: "fst ` set (dict_set k v d) = insert k (fst ` set d)"
  by (induction k v d rule: dict_set.induct) auto

lemma map_of_dict_set: "map_of (dict_set k v d) = (map_of d)(k \<mapsto> v)"
  by (induction k v d rule: dict_set.induct) (auto simp: fun_eq_iff)

text \<open>Setting a key adds at most one member, its separator included.\<close>

lemma serialized_dict_set:
  "serialized_length (dict_set k v d)
     \<le> serialized_length d + length (dump_str k) + 2 + length (dumps v)"
proof -
  let ?w = "\<lambda>(k, v). length (dump_str k) + 1 + length (dumps v)"
  have s: "sum_list (map ?w (dict_set k v d))
      \<le> sum_list (map ?w d) + length (dump_str k) + 1 + length (dumps v)"
    by (induction k v d rule: dict_set.induct) auto
  have l: "length (dict_set k v d) \<le> Suc (length d)"
    by (induction k v d rule: dict_set.induct) auto
  from s l show ?thesis
    unfolding length_dump_obj by simp
qed

lemma admit_bound:
  "serialized_length kept \<le> max 2 budget \<Longrightarrow>
   serialized_length (fst (admit budget bounded ks (kept, dropped))) \<le> max 2 budget"
proof (induction ks arbitrary: kept dropped)
  case Nil
  then show ?case by simp
next
  case (Cons k ks)
  then show ?case by (auto simp: Let_def split: option.splits)
qed

lemma admit_dropped:
  "set (snd (admit budget bounded ks (kept, dropped))) \<subseteq> set dropped \<union> set ks"
proof (induction ks arbitrary: kept dropped)
  case Nil
  then show ?case by simp
next
  case (Cons k ks)
  then show ?case by (auto simp: Let_def split: option.splits dest!: subsetD [OF Cons.IH])
qed

lemma admit_dropped_length:
  "length (snd (admit budget bounded ks (kept, dropped))) \<le> length dropped + length ks"
proof (induction ks arbitrary: kept dropped)
  case Nil
  then show ?case by simp
next
  case (Cons k ks)
  show ?case
    using Cons.IH [of kept dropped] Cons.IH [of "dict_set k v kept" dropped for v]
      Cons.IH [of kept "dropped @ [k]"]
    by (auto simp: Let_def le_SucI split: option.splits)
qed

lemma length_show_nat: "n < 10 ^ Suc k \<Longrightarrow> length (show_nat n) \<le> Suc k"
proof (induction k arbitrary: n)
  case 0
  then show ?case by (subst show_nat.simps) simp
next
  case (Suc k)
  then have "n div 10 < 10 ^ Suc k" by auto
  then have "length (show_nat (n div 10)) \<le> Suc k" by (rule Suc.IH)
  then show ?case by (subst show_nat.simps) simp
qed

lemma sum_list_le: "\<forall>x \<in> set xs. f x \<le> (c::nat) \<Longrightarrow> sum_list (map f xs) \<le> length xs * c"
  by (induction xs) auto

lemma dump_str_literals:
  "length (dump_str ''count'') = 7" "length (dump_str ''keys'') = 6"
  "length (dump_str ''reason'') = 8" "length (dump_str ''_dropped'') = 10"
  "length (dump_str ''audit details exceeded the size bound'') = 39"
  by (simp_all add: dump_str_def esc_char_def)

lemma dropped_marker_size:
  assumes "\<forall>k \<in> set dropped. length (dump_str k) \<le> 40" "length dropped < 10 ^ 20"
  shows "length (dumps (dropped_marker dropped)) \<le> 498"
proof -
  let ?named = "take 10 (sort dropped)"
  have c: "length (show_int (int (length dropped))) \<le> 20"
    using length_show_nat [of "length dropped" 19] assms(2) by (simp add: show_int_def)
  have "\<forall>k \<in> set ?named. length (dump_str k) \<le> 40"
    using assms(1) by (auto dest: in_set_takeD)
  then have "\<forall>k \<in> set ?named. (length \<circ> (dumps \<circ> JStr)) k \<le> 40" by simp
  then have "sum_list (map (length \<circ> (dumps \<circ> JStr)) ?named) \<le> length ?named * 40"
    by (rule sum_list_le)
  moreover have "length ?named \<le> 10" by simp
  ultimately have n: "length (commas (map (dumps \<circ> JStr) ?named)) \<le> 409"
    unfolding length_commas by simp
  show ?thesis
    using c n
    by (simp add: dropped_marker_def max_dropped_keys_named_def dump_str_literals
        length_commas comp_def)
qed

abbreviation bounded_details :: "(string \<Rightarrow> string) \<Rightarrow> nat \<Rightarrow> details \<Rightarrow> details" where
  "bounded_details digest mv d \<equiv> map (\<lambda>p. (fst p, bound_value digest mv 0 (snd p))) d"

lemma key_order_set: "set (key_order ks) = set ks"
  by (auto simp: key_order_def)

lemma key_order_distinct: "distinct ks \<Longrightarrow> distinct (key_order ks)"
  by (auto simp: key_order_def distinct_sort)

lemma key_order_length: "distinct ks \<Longrightarrow> length (key_order ks) = length ks"
  by (metis key_order_distinct key_order_set distinct_card)

text \<open>
  Audit details whose keys have at most 40 characters of JSON text serialise, after
  bounding, within the configured total, however long or deep their values are.
\<close>

theorem bound_details_size:
  assumes "514 \<le> max_total"
    and "distinct (map fst d)" and "\<forall>k \<in> fst ` set d. length (dump_str k) \<le> 40"
    and "length d < 10 ^ 20"
  shows "serialized_length (bound_details digest max_value max_total (Some d)) \<le> max_total"
proof -
  let ?b = "bounded_details digest max_value d"
  let ?ks = "key_order (map fst ?b)"
  obtain kept dropped where kd: "admit (max_total - 512) ?b ?ks ([], []) = (kept, dropped)"
    by fastforce
  have "serialized_length [] \<le> max 2 (max_total - 512)"
    by (simp add: serialized_length_def)
  from admit_bound [OF this, of ?b ?ks "[]"] have kept: "serialized_length kept \<le> max_total - 512"
    using assms(1) unfolding kd by simp
  have "fst ` set d = set (map fst ?b)" by force
  then have dr: "\<forall>k \<in> set dropped. length (dump_str k) \<le> 40"
    using admit_dropped [of "max_total - 512" ?b ?ks "[]" "[]"] kd assms(3)
    by (auto simp: key_order_set)
  have "length ?ks = length d"
    using key_order_length [of "map fst ?b"] assms(2) by (simp add: comp_def)
  then have "length dropped < 10 ^ 20"
    using admit_dropped_length [of "max_total - 512" ?b ?ks "[]" "[]"] kd assms(4) by simp
  from dropped_marker_size [OF dr this]
  have "serialized_length (dict_set ''_dropped'' (dropped_marker dropped) kept) \<le> max_total"
    using kept serialized_dict_set [of "''_dropped''" "dropped_marker dropped" kept] assms(1)
    by (simp add: dump_str_literals)
  with kept kd show ?thesis
    by (auto simp: bound_details_def Let_def marker_headroom_def)
qed

theorem bound_details_size_witness:
  "serialized_length (bound_details (\<lambda>s. ''0123456789abcdef'') 256 4096
     (Some [(''reason'', JStr ''bad-nonce''), (''kid'', JStr (replicate 5000 CHR ''x''))])) \<le> 4096"
  by (rule bound_details_size) (simp_all add: dump_str_def esc_char_def)

text \<open>
  The bound does not hold for every key: a details object whose single key is five
  thousand characters long serialises, after bounding, beyond the total plus the headroom
  reserved for the marker, because the marker quotes the dropped key in full.
\<close>

theorem bound_details_long_key:
  "\<exists>d. distinct (map fst d) \<and>
     serialized_length (bound_details digest max_value_chars max_details_chars (Some d))
       > max_details_chars + marker_headroom"
proof -
  obtain k where kl: "length k = 5000" "set k = {CHR ''k''}"
    using that [of "replicate 5000 CHR ''k''"] by (metis length_replicate set_replicate zero_neq_numeral)
  let ?d = "[(k, JInt 0)]"
  have "concat (map esc_char k) = k"
  proof -
    have "map esc_char k = map (\<lambda>c. [c]) k"
      using kl(2) by (auto simp: esc_char_def)
    then show ?thesis by (simp only: concat_map_singleton list.map_id id_apply) simp
  qed
  then have k: "length (dump_str k) = 5002"
    by (simp add: dump_str_def kl)
  have kn: "k \<noteq> ''reason''" "k \<noteq> ''_dropped''"
    using kl(1) by auto
  have bv: "bounded_details digest max_value_chars ?d = ?d"
    by (simp add: bound_value.simps max_depth_def)
  have big: "serialized_length ?d = 5006"
    by (simp add: length_dump_obj k show_int_def show_nat.simps)
  have "bound_details digest max_value_chars max_details_chars (Some ?d)
      = [(''_dropped'', dropped_marker [k])]"
    using kn bv
    by (simp add: bound_details_def Let_def big max_details_chars_def marker_headroom_def key_order_def)
  moreover have "length (dumps (dropped_marker [k])) > 5000"
    by (simp add: dropped_marker_def max_dropped_keys_named_def k)
  ultimately have "serialized_length (bound_details digest max_value_chars max_details_chars (Some ?d)) > 5000"
    by (simp add: length_dump_obj)
  then show ?thesis
    by (intro exI [of _ ?d]) (simp add: max_details_chars_def marker_headroom_def)
qed

end
