(* ===== verification/Jwk.thy ===== *)
theory Jwk
  imports AuditBounds
begin

text \<open>
  Account-key identity of \<open>src/src/acme_adcs_ra/jws.py\<close>: base64url, the strict and the
  lenient JWK member decoders, canonical re-encoding and the RFC 7638 thumbprint. Octets
  are natural numbers below 256. \<open>base64.urlsafe_b64decode\<close> is modelled with its actual
  leniency (characters outside the alphabet are skipped, decoding stops at a complete pad
  sequence); SHA-256 is a parameter.
\<close>

section \<open>Base64url\<close>

type_synonym bytes = "nat list"

datatype b64_error = IncorrectPadding | OneCharacter | NonAscii

text \<open>Membership in \<open>_B64URL_ALPHABET\<close>, and the alphabet's character of each sextet.\<close>

definition b64_alphabet :: "char \<Rightarrow> bool" where
  "b64_alphabet ch =
     (let n = (of_char ch :: nat) in
      (65 \<le> n \<and> n \<le> 90) \<or> (97 \<le> n \<and> n \<le> 122) \<or> (48 \<le> n \<and> n \<le> 57)
      \<or> ch = CHR ''-'' \<or> ch = CHR ''_'')"

definition b64_char :: "nat \<Rightarrow> char" where
  "b64_char n =
     (if n < 26 then char_of (65 + n) else if n < 52 then char_of (71 + n)
      else if n < 62 then char_of (n - 4) else if n = 62 then CHR ''-'' else CHR ''_'')"

text \<open>The value of a character for the decoder, which also takes the standard alphabet's last two.\<close>

definition b64_val :: "char \<Rightarrow> nat option" where
  "b64_val ch =
     (let n = (of_char ch :: nat) in
      if 65 \<le> n \<and> n \<le> 90 then Some (n - 65)
      else if 97 \<le> n \<and> n \<le> 122 then Some (n - 71)
      else if 48 \<le> n \<and> n \<le> 57 then Some (n + 4)
      else if ch = CHR ''-'' \<or> ch = CHR ''+'' then Some 62
      else if ch = CHR ''_'' \<or> ch = CHR ''/'' then Some 63
      else None)"

fun base64url_encode :: "bytes \<Rightarrow> string" where
  "base64url_encode (a # b # c # bs) =
     [b64_char (a div 4), b64_char ((a mod 4) * 16 + b div 16),
      b64_char ((b mod 16) * 4 + c div 64), b64_char (c mod 64)] @ base64url_encode bs"
| "base64url_encode [a, b] =
     [b64_char (a div 4), b64_char ((a mod 4) * 16 + b div 16), b64_char ((b mod 16) * 4)]"
| "base64url_encode [a] = [b64_char (a div 4), b64_char ((a mod 4) * 16)]"
| "base64url_encode [] = []"

text \<open>The decoder's loop: position in the quantum, left-over bits, pads seen, octets so far.\<close>

fun b64_loop :: "string \<Rightarrow> nat \<Rightarrow> nat \<Rightarrow> nat \<Rightarrow> bytes \<Rightarrow> b64_error + bytes" where
  "b64_loop [] quad left pads out =
     (if quad = 0 then Inr out else if quad = 1 then Inl OneCharacter else Inl IncorrectPadding)"
| "b64_loop (ch # rest) quad left pads out =
     (if ch = CHR ''='' then
        (if quad \<ge> 2 \<and> quad + Suc pads \<ge> 4 then Inr out
         else b64_loop rest quad left (if quad \<ge> 2 then Suc pads else pads) out)
      else case b64_val ch of
        None \<Rightarrow> b64_loop rest quad left pads out
      | Some v \<Rightarrow>
          (if quad = 0 then b64_loop rest 1 v 0 out
           else if quad = 1 then b64_loop rest 2 (v mod 16) 0 (out @ [left * 4 + v div 16])
           else if quad = 2 then b64_loop rest 3 (v mod 4) 0 (out @ [left * 16 + v div 4])
           else b64_loop rest 0 0 0 (out @ [left * 64 + v])))"

definition base64url_decode :: "string \<Rightarrow> b64_error + bytes" where
  "base64url_decode data =
     (if list_ex (\<lambda>c. (of_char c :: nat) \<ge> 128) data then Inl NonAscii
      else b64_loop (data @ replicate ((4 - length data mod 4) mod 4) CHR ''='') 0 0 0 [])"

section \<open>JWK members\<close>

datatype jws_error = JWSValidationError | UnsupportedAlgorithmError | UnsupportedSignatureAlgorithmError

definition from_bytes :: "bytes \<Rightarrow> nat" where
  "from_bytes bs = foldl (\<lambda>acc b. acc * 256 + b) 0 bs"

definition decode_jwk_octets :: "json option \<Rightarrow> jws_error + bytes" where
  "decode_jwk_octets value =
     (case value of
        Some (JStr s) \<Rightarrow>
          (if s = [] then Inl JWSValidationError
           else if \<not> list_all b64_alphabet s then Inl JWSValidationError
           else if length s mod 4 = 1 then Inl JWSValidationError
           else case base64url_decode s of
               Inl _ \<Rightarrow> Inl JWSValidationError
             | Inr decoded \<Rightarrow>
                 if base64url_encode decoded \<noteq> s then Inl JWSValidationError else Inr decoded)
      | _ \<Rightarrow> Inl JWSValidationError)"

definition decode_jwk_uint :: "json option \<Rightarrow> jws_error + nat" where
  "decode_jwk_uint value =
     rbind (decode_jwk_octets value)
       (\<lambda>octets. if hd octets = 0 then Inl JWSValidationError else Inr (from_bytes octets))"

definition decode_jwk_coordinate :: "json option \<Rightarrow> nat \<Rightarrow> jws_error + nat" where
  "decode_jwk_coordinate value byte_length =
     rbind (decode_jwk_octets value)
       (\<lambda>octets. if length octets \<noteq> byte_length then Inl JWSValidationError else Inr (from_bytes octets))"

text \<open>Key sizes of \<open>_CURVE_BY_NAME\<close>, and \<open>_coordinate_length_for_curve\<close> of one.\<close>

definition curve_by_name :: "json option \<Rightarrow> nat option" where
  "curve_by_name crv =
     (case crv of
        Some (JStr s) \<Rightarrow>
          (if s = ''P-256'' then Some 256 else if s = ''P-384'' then Some 384
           else if s = ''P-521'' then Some 521 else None)
      | _ \<Rightarrow> None)"

definition coordinate_length_for_curve :: "nat \<Rightarrow> nat" where
  "coordinate_length_for_curve key_size = (key_size + 7) div 8"

definition validate_canonical_jwk :: "json \<Rightarrow> jws_error + unit" where
  "validate_canonical_jwk jwk =
     (case jwk of
        JObj d \<Rightarrow>
          (if map_of d ''kty'' = Some (JStr ''RSA'') then
             each (\<lambda>member. if map_of d member = None then Inl JWSValidationError
                            else rbind (decode_jwk_uint (map_of d member)) (\<lambda>_. Inr ())) [''n'', ''e'']
           else if map_of d ''kty'' = Some (JStr ''EC'') then
             (case curve_by_name (map_of d ''crv'') of
                None \<Rightarrow> Inl UnsupportedAlgorithmError
              | Some curve \<Rightarrow>
                  each (\<lambda>member. if map_of d member = None then Inl JWSValidationError
                                 else rbind (decode_jwk_coordinate (map_of d member)
                                               (coordinate_length_for_curve curve)) (\<lambda>_. Inr ()))
                       [''x'', ''y''])
           else Inl UnsupportedAlgorithmError)
      | _ \<Rightarrow> Inl JWSValidationError)"

definition lenient_jwk_octets :: "json option \<Rightarrow> jws_error + bytes" where
  "lenient_jwk_octets value =
     (case value of
        Some (JStr s) \<Rightarrow>
          (if s = [] then Inl JWSValidationError
           else
             (let stripped = rstrip CHR ''='' s in
              if stripped = [] \<or> \<not> list_all b64_alphabet stripped \<or> length stripped mod 4 = 1
              then Inl JWSValidationError
              else case base64url_decode stripped of
                  Inl _ \<Rightarrow> Inl JWSValidationError
                | Inr octets \<Rightarrow> Inr octets))
      | _ \<Rightarrow> Inl JWSValidationError)"

definition strip_zeros :: "bytes \<Rightarrow> bytes" where
  "strip_zeros bs = dropWhile (\<lambda>b. b = 0) bs"

text \<open>One re-spelled member: minimal for an RSA integer, fixed width for a coordinate.\<close>

definition canonical_uint :: "details \<Rightarrow> string \<Rightarrow> details \<Rightarrow> jws_error + details" where
  "canonical_uint jwk member result =
     (if map_of jwk member = None then Inl JWSValidationError
      else rbind (lenient_jwk_octets (map_of jwk member))
        (\<lambda>octets. if strip_zeros octets = [] then Inl JWSValidationError
                  else Inr (dict_set member (JStr (base64url_encode (strip_zeros octets))) result)))"

definition canonical_coordinate :: "nat \<Rightarrow> details \<Rightarrow> string \<Rightarrow> details \<Rightarrow> jws_error + details" where
  "canonical_coordinate width jwk member result =
     (if map_of jwk member = None then Inl JWSValidationError
      else rbind (lenient_jwk_octets (map_of jwk member))
        (\<lambda>octets. let trimmed = strip_zeros octets in
           if length trimmed > width then Inl JWSValidationError
           else Inr (dict_set member
                      (JStr (base64url_encode (replicate (width - length trimmed) 0 @ trimmed))) result)))"

definition canonicalize_jwk :: "json \<Rightarrow> jws_error + json" where
  "canonicalize_jwk jwk =
     (case jwk of
        JObj d \<Rightarrow>
          rbind
            (if map_of d ''kty'' = Some (JStr ''RSA'') then
               rbind (canonical_uint d ''n'' d) (canonical_uint d ''e'')
             else if map_of d ''kty'' = Some (JStr ''EC'') then
               (case curve_by_name (map_of d ''crv'') of
                  None \<Rightarrow> Inl UnsupportedAlgorithmError
                | Some curve \<Rightarrow>
                    (let width = coordinate_length_for_curve curve in
                     rbind (canonical_coordinate width d ''x'' d) (canonical_coordinate width d ''y'')))
             else Inl UnsupportedAlgorithmError)
            (\<lambda>result. rbind (validate_canonical_jwk (JObj result)) (\<lambda>_. Inr (JObj result)))
      | _ \<Rightarrow> Inl JWSValidationError)"

definition get_member :: "details \<Rightarrow> string \<Rightarrow> json" where
  "get_member d k = (case map_of d k of None \<Rightarrow> JNull | Some v \<Rightarrow> v)"

text \<open>The members RFC 7638 hashes, in sorted key order.\<close>

definition thumbprint_members :: "details \<Rightarrow> details" where
  "thumbprint_members d =
     (if map_of d ''kty'' = Some (JStr ''RSA'')
      then [(''e'', get_member d ''e''), (''kty'', JStr ''RSA''), (''n'', get_member d ''n'')]
      else [(''crv'', get_member d ''crv''), (''kty'', JStr ''EC''),
            (''x'', get_member d ''x''), (''y'', get_member d ''y'')])"

definition jwk_thumbprint :: "(string \<Rightarrow> bytes) \<Rightarrow> json \<Rightarrow> jws_error + string" where
  "jwk_thumbprint sha256 jwk =
     rbind (validate_canonical_jwk jwk)
       (\<lambda>_. case jwk of
          JObj d \<Rightarrow> Inr (base64url_encode (sha256 (dumps (JObj (thumbprint_members d)))))
        | _ \<Rightarrow> Inl UnsupportedAlgorithmError)"

text \<open>
  The numbers of the public key a JWK denotes, with the size and exponent bounds checked
  first. Whether a pair of coordinates lies on the curve is for the \<open>cryptography\<close> package.
\<close>

datatype public_numbers = RSAPublicNumbers nat nat | ECPublicNumbers nat nat nat

definition rsa_min_modulus_bits :: nat where "rsa_min_modulus_bits = 2048"
definition rsa_max_modulus_bits :: nat where "rsa_max_modulus_bits = 16384"

fun bit_length :: "nat \<Rightarrow> nat" where
  "bit_length n = (if n = 0 then 0 else Suc (bit_length (n div 2)))"

declare bit_length.simps [simp del]

definition public_key_from_jwk :: "json \<Rightarrow> jws_error + public_numbers" where
  "public_key_from_jwk jwk =
     (case jwk of
        JObj d \<Rightarrow>
          (if map_of d ''kty'' = Some (JStr ''RSA'') then
             rbind (decode_jwk_uint (map_of d ''n'')) (\<lambda>n.
             rbind (decode_jwk_uint (map_of d ''e'')) (\<lambda>e.
               if bit_length n < rsa_min_modulus_bits then Inl JWSValidationError
               else if bit_length n > rsa_max_modulus_bits then Inl JWSValidationError
               else if e \<notin> {3, 65537} then Inl JWSValidationError
               else Inr (RSAPublicNumbers e n)))
           else if map_of d ''kty'' = Some (JStr ''EC'') then
             (case curve_by_name (map_of d ''crv'') of
                None \<Rightarrow> Inl UnsupportedAlgorithmError
              | Some curve \<Rightarrow>
                  (let width = coordinate_length_for_curve curve in
                   rbind (decode_jwk_coordinate (map_of d ''x'') width) (\<lambda>x.
                   rbind (decode_jwk_coordinate (map_of d ''y'') width) (\<lambda>y.
                     Inr (ECPublicNumbers curve x y)))))
           else Inl UnsupportedAlgorithmError)
      | _ \<Rightarrow> Inl JWSValidationError)"

section \<open>Base64url round trip\<close>

abbreviation octets :: "bytes \<Rightarrow> bool" where
  "octets bs \<equiv> list_all (\<lambda>b. b < 256) bs"

lemma b64_table_at:
  assumes "n < 64"
  shows "b64_val (b64_char n) = Some n \<and> b64_char n \<noteq> CHR ''=''
    \<and> (of_char (b64_char n) :: nat) < 128 \<and> b64_alphabet (b64_char n)"
proof -
  consider "n < 26" | "26 \<le> n" "n < 52" | "52 \<le> n" "n < 62" | "n = 62" | "n = 63"
    using assms by linarith
  then show ?thesis
  proof cases
    case 1
    then show ?thesis
      by (auto simp: b64_char_def b64_val_def b64_alphabet_def Let_def dest: arg_cong [of _ _ "of_char :: char \<Rightarrow> nat"])
  next
    case 2
    then show ?thesis
      by (auto simp: b64_char_def b64_val_def b64_alphabet_def Let_def dest: arg_cong [of _ _ "of_char :: char \<Rightarrow> nat"])
  next
    case 3
    then show ?thesis
      by (auto simp: b64_char_def b64_val_def b64_alphabet_def Let_def dest: arg_cong [of _ _ "of_char :: char \<Rightarrow> nat"])
  qed (simp_all add: b64_char_def b64_val_def b64_alphabet_def)
qed

lemma b64_val_char [simp]:
  "n < 64 \<Longrightarrow> b64_val (b64_char n) = Some n" "n < 64 \<Longrightarrow> b64_char n \<noteq> CHR ''=''"
  "n < 64 \<Longrightarrow> (of_char (b64_char n) :: nat) < 128" "n < 64 \<Longrightarrow> b64_alphabet (b64_char n)"
  by (blast dest: b64_table_at)+

lemma b64_char_inj: "m < 64 \<Longrightarrow> n < 64 \<Longrightarrow> b64_char m = b64_char n \<longleftrightarrow> m = n"
  by (metis b64_val_char(1) option.inject)

lemma sextet1 [simp]: "(a::nat) < 256 \<Longrightarrow> a div 4 < 64"
  by (simp add: less_mult_imp_div_less)

lemma sextet2 [simp]: "(b::nat) < 256 \<Longrightarrow> (a mod 4) * 16 + b div 16 < 64"
proof -
  assume "b < 256"
  then have "b div 16 < 16" by (simp add: less_mult_imp_div_less)
  moreover have "a mod 4 < 4" by simp
  ultimately show ?thesis by linarith
qed

lemma sextet3 [simp]: "(c::nat) < 256 \<Longrightarrow> (b mod 16) * 4 + c div 64 < 64"
proof -
  assume "c < 256"
  then have "c div 64 < 4" by (simp add: less_mult_imp_div_less)
  moreover have "b mod 16 < 16" by simp
  ultimately show ?thesis by linarith
qed

lemma sextet4 [simp]: "(a mod 4) * 16 < (64::nat)" "(b mod 16) * 4 < (64::nat)"
proof -
  have "a mod 4 < 4" "b mod 16 < 16" by simp_all
  then show "(a mod 4) * 16 < (64::nat)" "(b mod 16) * 4 < (64::nat)" by linarith+
qed


lemma set_encode: "octets bs \<Longrightarrow> list_all b64_alphabet (base64url_encode bs)"
  by (induction bs rule: base64url_encode.induct) auto

lemma encode_ascii: "octets bs \<Longrightarrow> c \<in> set (base64url_encode bs) \<Longrightarrow> (of_char c :: nat) < 128"
  by (induction bs rule: base64url_encode.induct) auto

lemma length_encode_mod:
  "length (base64url_encode bs) mod 4 = (if length bs mod 3 = 0 then 0 else length bs mod 3 + 1)"
  by (induction bs rule: base64url_encode.induct) auto

lemma sextet5: "c mod 64 < (64::nat)"
  by simp

text \<open>One character of the alphabet at each position of a quantum.\<close>

lemma loop_char:
  "v < 64 \<Longrightarrow> b64_loop (b64_char v # r) 0 l p out = b64_loop r 1 v 0 out"
  "v < 64 \<Longrightarrow> b64_loop (b64_char v # r) 1 l p out = b64_loop r 2 (v mod 16) 0 (out @ [l * 4 + v div 16])"
  "v < 64 \<Longrightarrow> b64_loop (b64_char v # r) 2 l p out = b64_loop r 3 (v mod 4) 0 (out @ [l * 16 + v div 4])"
  "v < 64 \<Longrightarrow> b64_loop (b64_char v # r) 3 l p out = b64_loop r 0 0 0 (out @ [l * 64 + v])"
  by simp_all

lemma loop_pad:
  "b64_loop ''=='' 2 l 0 out = Inr out" "b64_loop ''='' 3 l 0 out = Inr out"
  by simp_all

lemma mod4_Suc4: "(4 - Suc (Suc (Suc (Suc n))) mod 4) mod 4 = (4 - n mod 4) mod (4::nat)"
proof -
  have "Suc (Suc (Suc (Suc n))) = n + 4" by simp
  then show ?thesis by (simp only: mod_add_self2)
qed

lemma join1: "(b::nat) < 256 \<Longrightarrow> a div 4 * 4 + (a mod 4 * 16 + b div 16) div 16 = a"
  by (simp add: less_mult_imp_div_less)

lemma join2:
  assumes "(b::nat) < 256" "c < 256"
  shows "(a mod 4 * 16 + b div 16) mod 16 * 16 + (b mod 16 * 4 + c div 64) div 4 = b"
proof -
  have "b div 16 < 16" "c div 64 < 4" using assms by (simp_all add: less_mult_imp_div_less)
  then have "(a mod 4 * 16 + b div 16) mod 16 = b div 16" "(b mod 16 * 4 + c div 64) div 4 = b mod 16"
    by simp_all
  then show ?thesis by simp
qed

lemma join3:
  assumes "(c::nat) < 256"
  shows "(b mod 16 * 4 + c div 64) mod 4 * 64 + c mod 64 = c"
proof -
  have "c div 64 < 4" using assms by (simp add: less_mult_imp_div_less)
  then have "(b mod 16 * 4 + c div 64) mod 4 = c div 64" by simp
  then show ?thesis by simp
qed

lemma loop_encode:
  "octets bs \<Longrightarrow>
   b64_loop (base64url_encode bs @ replicate ((4 - length (base64url_encode bs) mod 4) mod 4) CHR ''='') 0 0 0 out
     = Inr (out @ bs)"
proof (induction bs arbitrary: out rule: base64url_encode.induct)
  case (1 a b c bs)
  then have lt: "a < 256" "b < 256" "c < 256" "octets bs" by simp_all
  show ?case
    unfolding base64url_encode.simps append.simps list.size(4) add_0_right add_Suc_right One_nat_def
      length_append mod4_Suc4 add.left_neutral
    using "1.IH" [OF lt(4)]
    by (simp only: loop_char sextet1 sextet2 sextet3 sextet4 sextet5 lt join1 join2 join3
        list.size add_Suc plus_nat.add_0 add_0_right add_Suc_right mod4_Suc4 append.simps append_assoc)
next
  case (2 a b)
  then have lt: "a < 256" "b < 256" by simp_all
  have j: "(a mod 4 * 16 + b div 16) mod 16 * 16 + b mod 16 * 4 div 4 = b"
    using join2 [OF lt(2), of 0 a] by (simp only: div_0 add_0_right)
  have "replicate ((4 - length (base64url_encode [a, b]) mod 4) mod 4) CHR ''='' = ''=''" by simp
  then show ?case
    by (simp only: base64url_encode.simps append.simps loop_char sextet1 sextet2 sextet4 lt join1 j loop_pad append_assoc)
next
  case (3 a)
  then have lt: "a < 256" by simp
  have "replicate ((4 - length (base64url_encode [a]) mod 4) mod 4) CHR ''='' = ''==''"
    by (simp add: numeral_2_eq_2)
  moreover have "a div 4 * 4 + a mod 4 * 16 div 16 = a" by simp
  ultimately show ?case
    by (simp only: base64url_encode.simps append.simps loop_char sextet1 sextet4 lt loop_pad append_assoc)
next
  case 4
  then show ?case by simp
qed

lemma decode_encode: "octets bs \<Longrightarrow> base64url_decode (base64url_encode bs) = Inr bs"
  using loop_encode [of bs "[]"] encode_ascii [of bs]
  by (force simp: base64url_decode_def list_ex_iff)

text \<open>
  C40. Decoding inverts encoding: every octet string survives base64url without padding.
\<close>

theorem base64url_roundtrip:
  "list_all (\<lambda>b. b < 256) bs \<Longrightarrow> base64url_decode (base64url_encode bs) = Inr bs"
  by (rule decode_encode)

theorem base64url_roundtrip_witness:
  "list_all (\<lambda>b. b < 256) [1, 0, 255, 17 :: nat] \<and>
   base64url_decode (base64url_encode [1, 0, 255, 17]) = Inr [1, 0, 255, 17]"
proof -
  have h: "list_all (\<lambda>b. b < 256) [1, 0, 255, 17::nat]" by simp
  show ?thesis using h base64url_roundtrip [OF h] by simp
qed

section \<open>One spelling per key\<close>

lemma b64_val_less: "b64_val c = Some v \<Longrightarrow> v < 64"
  by (auto simp: b64_val_def Let_def split: if_splits)

text \<open>What the left-over bits of a quantum can be.\<close>

definition left_ok :: "nat \<Rightarrow> nat \<Rightarrow> bool" where
  "left_ok quad left \<longleftrightarrow> (quad = 1 \<longrightarrow> left < 64) \<and> (quad = 2 \<longrightarrow> left < 16) \<and> (2 < quad \<longrightarrow> left < 4)"

lemma b64_loop_octets:
  "b64_loop s quad left pads out = Inr bs \<Longrightarrow> octets out \<Longrightarrow> left_ok quad left \<Longrightarrow> octets bs"
proof (induction s quad left pads out rule: b64_loop.induct)
  case (1 quad left pads out)
  then show ?case by (auto split: if_splits)
next
  case (2 ch rest quad left pads out)
  show ?case
  proof (cases "ch = CHR ''=''")
    case True
    with 2 show ?thesis by (auto split: if_splits)
  next
    case False
    show ?thesis
    proof (cases "b64_val ch")
      case None
      with False 2 show ?thesis by simp
    next
      case (Some v)
      note v = b64_val_less [OF Some]
      have d: "v div 16 < 4" "v div 4 < 16"
        using v by (simp_all add: less_mult_imp_div_less)
      show ?thesis
        using 2 False Some v d by (auto simp: left_ok_def split: if_splits)
    qed
  qed
qed

lemma decode_octets: "base64url_decode s = Inr bs \<Longrightarrow> octets bs"
  by (auto simp: base64url_decode_def left_ok_def split: if_splits dest!: b64_loop_octets)

lemma decode_jwk_octetsD:
  assumes "decode_jwk_octets v = Inr bs"
  shows "v = Some (JStr (base64url_encode bs)) \<and> octets bs \<and> bs \<noteq> []
    \<and> list_all b64_alphabet (base64url_encode bs)"
  using assms decode_octets
  by (auto simp: decode_jwk_octets_def split: option.splits json.splits if_splits sum.splits)

lemma from_bytes_snoc: "from_bytes (bs @ [b]) = from_bytes bs * 256 + b"
  by (simp add: from_bytes_def)

lemma from_bytes_Nil [simp]: "from_bytes [] = 0"
  by (simp add: from_bytes_def)

lemma from_bytes_less: "octets bs \<Longrightarrow> from_bytes bs < 256 ^ length bs"
proof (induction bs rule: rev_induct)
  case (snoc b bs)
  then have "from_bytes bs + 1 \<le> 256 ^ length bs" by simp
  then have "(from_bytes bs + 1) * 256 \<le> 256 ^ length bs * 256" by simp
  with snoc.prems show ?case by (simp add: from_bytes_snoc)
qed simp

lemma from_bytes_ge: "bs \<noteq> [] \<Longrightarrow> hd bs \<noteq> 0 \<Longrightarrow> 256 ^ (length bs - 1) \<le> from_bytes bs"
proof (induction bs rule: rev_induct)
  case (snoc b bs)
  show ?case
  proof (cases "bs = []")
    case True
    with snoc.prems show ?thesis by (simp add: from_bytes_def)
  next
    case False
    with snoc have "256 ^ (length bs - 1) \<le> from_bytes bs" by simp
    then have "256 ^ (length bs - 1) * 256 \<le> from_bytes bs * 256" by simp
    moreover have "256 ^ (length bs - 1) * 256 = (256::nat) ^ length bs"
      using False by (simp flip: power_Suc2)
    ultimately show ?thesis by (simp add: from_bytes_snoc)
  qed
qed simp

lemma from_bytes_inj_length:
  "octets bs \<Longrightarrow> octets cs \<Longrightarrow> length bs = length cs \<Longrightarrow> from_bytes bs = from_bytes cs \<Longrightarrow> bs = cs"
proof (induction bs arbitrary: cs rule: rev_induct)
  case (snoc b bs)
  then obtain c cs' where cs: "cs = cs' @ [c]" by (cases cs rule: rev_cases) auto
  with snoc.prems have lt: "b < 256" "c < 256"
    and eq: "from_bytes bs * 256 + b = from_bytes cs' * 256 + c"
    by (auto simp: from_bytes_snoc)
  from eq have "(from_bytes bs * 256 + b) mod 256 = (from_bytes cs' * 256 + c) mod 256" by simp
  with lt have "b = c" by simp
  with eq cs snoc show ?case by simp
qed simp

lemma from_bytes_inj_minimal:
  assumes "octets bs" "octets cs" "bs \<noteq> []" "cs \<noteq> []" "hd bs \<noteq> 0" "hd cs \<noteq> 0"
    and eq: "from_bytes bs = from_bytes cs"
  shows "bs = cs"
proof (rule from_bytes_inj_length [OF assms(1,2) _ eq])
  have step: "length xs \<le> length ys"
    if "octets ys" "xs \<noteq> []" "hd xs \<noteq> 0" "from_bytes xs = from_bytes ys" for xs ys
  proof (rule ccontr)
    assume "\<not> length xs \<le> length ys"
    then have "(256::nat) ^ length ys \<le> 256 ^ (length xs - 1)" by simp
    with from_bytes_ge [OF that(2,3)] from_bytes_less [OF that(1)] that(4) show False by linarith
  qed
  show "length bs = length cs"
    using step [of cs bs] step [of bs cs] assms by fastforce
qed

lemma decode_jwk_uint_inj:
  "decode_jwk_uint v = Inr n \<Longrightarrow> decode_jwk_uint v' = Inr n \<Longrightarrow> v = v'"
  by (auto simp: decode_jwk_uint_def split: if_splits dest!: decode_jwk_octetsD
      dest: from_bytes_inj_minimal)

lemma decode_jwk_coordinate_inj:
  "decode_jwk_coordinate v w = Inr n \<Longrightarrow> decode_jwk_coordinate v' w = Inr n \<Longrightarrow> v = v'"
  by (auto simp: decode_jwk_coordinate_def split: if_splits dest!: decode_jwk_octetsD
      dest: from_bytes_inj_length)

section \<open>The thumbprint is the key's identity\<close>

lemma curve_by_nameD:
  "curve_by_name c = Some k \<Longrightarrow> (c = Some (JStr ''P-256'') \<and> k = 256)
     \<or> (c = Some (JStr ''P-384'') \<and> k = 384) \<or> (c = Some (JStr ''P-521'') \<and> k = 521)"
  by (auto simp: curve_by_name_def split: option.splits json.splits if_splits)

text \<open>What a JWK that denotes a key looks like, member by member.\<close>

lemma public_key_RSA:
  "public_key_from_jwk j = Inr (RSAPublicNumbers e n) \<Longrightarrow>
   \<exists>d. j = JObj d \<and> map_of d ''kty'' = Some (JStr ''RSA'') \<and>
       decode_jwk_uint (map_of d ''n'') = Inr n \<and> decode_jwk_uint (map_of d ''e'') = Inr e"
  by (auto simp: public_key_from_jwk_def Let_def split: json.splits if_splits option.splits)

lemma public_key_EC:
  "public_key_from_jwk j = Inr (ECPublicNumbers c x y) \<Longrightarrow>
   \<exists>d. j = JObj d \<and> map_of d ''kty'' = Some (JStr ''EC'') \<and> curve_by_name (map_of d ''crv'') = Some c \<and>
       decode_jwk_coordinate (map_of d ''x'') (coordinate_length_for_curve c) = Inr x \<and>
       decode_jwk_coordinate (map_of d ''y'') (coordinate_length_for_curve c) = Inr y"
  by (auto simp: public_key_from_jwk_def Let_def split: json.splits if_splits option.splits)

lemma decode_uint_present: "decode_jwk_uint v = Inr n \<Longrightarrow> v \<noteq> None"
  by (auto simp: decode_jwk_uint_def dest!: decode_jwk_octetsD)

lemma decode_coordinate_present: "decode_jwk_coordinate v w = Inr n \<Longrightarrow> v \<noteq> None"
  by (auto simp: decode_jwk_coordinate_def dest!: decode_jwk_octetsD)

lemma public_key_validates:
  assumes "public_key_from_jwk j = Inr K"
  shows "\<exists>d. j = JObj d \<and> validate_canonical_jwk j = Inr ()"
proof (cases K)
  case (RSAPublicNumbers e n)
  with assms public_key_RSA obtain d where "j = JObj d" "map_of d ''kty'' = Some (JStr ''RSA'')"
    "decode_jwk_uint (map_of d ''n'') = Inr n" "decode_jwk_uint (map_of d ''e'') = Inr e"
    by blast
  then show ?thesis
    using decode_uint_present by (auto simp: validate_canonical_jwk_def)
next
  case (ECPublicNumbers c x y)
  with assms public_key_EC obtain d where "j = JObj d" "map_of d ''kty'' = Some (JStr ''EC'')"
    "curve_by_name (map_of d ''crv'') = Some c"
    "decode_jwk_coordinate (map_of d ''x'') (coordinate_length_for_curve c) = Inr x"
    "decode_jwk_coordinate (map_of d ''y'') (coordinate_length_for_curve c) = Inr y"
    by blast
  then show ?thesis
    using decode_coordinate_present by (auto simp: validate_canonical_jwk_def)
qed

text \<open>The text that is hashed.\<close>

definition thumbprint_text :: "json \<Rightarrow> string" where
  "thumbprint_text j = (case j of JObj d \<Rightarrow> dumps (JObj (thumbprint_members d)) | _ \<Rightarrow> [])"

lemma jwk_thumbprint_text:
  assumes "public_key_from_jwk j = Inr K"
  shows "jwk_thumbprint sha256 j = Inr (base64url_encode (sha256 (thumbprint_text j)))"
  using public_key_validates [OF assms]
  by (auto simp: jwk_thumbprint_def thumbprint_text_def)

lemma esc_b64: "list_all b64_alphabet s \<Longrightarrow> concat (map esc_char s) = s"
proof (induction s)
  case (Cons c s)
  have "b64_alphabet c \<Longrightarrow> esc_char c = [c]"
    by (auto simp: b64_alphabet_def esc_char_def Let_def)
  with Cons show ?case by simp
qed simp

lemma b64_no_quote: "list_all b64_alphabet s \<Longrightarrow> CHR 0x22 \<notin> set s"
  by (auto simp: list_all_iff b64_alphabet_def)

lemma dump_b64: "list_all b64_alphabet s \<Longrightarrow> dump_str s = CHR 0x22 # s @ [CHR 0x22]"
  by (simp add: dump_str_def esc_b64)

lemma uint_text:
  "decode_jwk_uint v = Inr n \<Longrightarrow> \<exists>s. v = Some (JStr s) \<and> list_all b64_alphabet s"
  by (auto simp: decode_jwk_uint_def split: if_splits dest!: decode_jwk_octetsD)

lemma coordinate_text:
  "decode_jwk_coordinate v w = Inr n \<Longrightarrow> \<exists>s. v = Some (JStr s) \<and> list_all b64_alphabet s"
  by (auto simp: decode_jwk_coordinate_def split: if_splits dest!: decode_jwk_octetsD)

lemma dumps_rsa:
  assumes "list_all b64_alphabet e" "list_all b64_alphabet n"
  shows "dumps (JObj [(''e'', JStr e), (''kty'', JStr ''RSA''), (''n'', JStr n)]) =
     CHR ''{'' # dump_str ''e'' @ CHR '':'' # CHR 0x22 # e @ CHR 0x22 #
     (CHR '','' # dump_str ''kty'' @ CHR '':'' # dump_str ''RSA'' @ CHR '','' # dump_str ''n'' @ CHR '':''
       # CHR 0x22 # n @ [CHR 0x22, CHR ''}''])"
  using assms by (simp add: dump_b64)

lemma dumps_ec:
  assumes "list_all b64_alphabet x" "list_all b64_alphabet y"
  shows "dumps (JObj [(''crv'', JStr c), (''kty'', JStr ''EC''), (''x'', JStr x), (''y'', JStr y)]) =
     CHR ''{'' # dump_str ''crv'' @ CHR '':'' # dump_str c @ CHR '','' # dump_str ''kty'' @ CHR '':'' # dump_str ''EC''
       @ CHR '','' # dump_str ''x'' @ CHR '':'' # CHR 0x22 # x @ CHR 0x22 #
       (CHR '','' # dump_str ''y'' @ CHR '':'' # CHR 0x22 # y @ [CHR 0x22, CHR ''}''])"
  using assms by (simp add: dump_b64)

lemma dumps_rsa_inj:
  assumes "list_all b64_alphabet e" "list_all b64_alphabet n" "list_all b64_alphabet e'" "list_all b64_alphabet n'"
    and "dumps (JObj [(''e'', JStr e), (''kty'', JStr ''RSA''), (''n'', JStr n)])
       = dumps (JObj [(''e'', JStr e'), (''kty'', JStr ''RSA''), (''n'', JStr n')])"
  shows "e = e' \<and> n = n'"
proof -
  have "e @ CHR 0x22 # (CHR '','' # dump_str ''kty'' @ CHR '':'' # dump_str ''RSA'' @ CHR '','' # dump_str ''n'' @ CHR '':'' # CHR 0x22 # n @ [CHR 0x22, CHR ''}''])
     = e' @ CHR 0x22 # (CHR '','' # dump_str ''kty'' @ CHR '':'' # dump_str ''RSA'' @ CHR '','' # dump_str ''n'' @ CHR '':'' # CHR 0x22 # n' @ [CHR 0x22, CHR ''}''])"
    using assms(5) unfolding dumps_rsa [OF assms(1,2)] dumps_rsa [OF assms(3,4)] by simp
  then have "e = e' \<and> n @ CHR 0x22 # [CHR ''}''] = n' @ CHR 0x22 # [CHR ''}'']"
    using sep_append_eq [OF b64_no_quote [OF assms(1)] b64_no_quote [OF assms(3)]] by simp
  then show ?thesis
    using sep_append_eq [OF b64_no_quote [OF assms(2)] b64_no_quote [OF assms(4)]] by simp
qed

lemma dumps_ec_inj:
  assumes "list_all b64_alphabet x" "list_all b64_alphabet y" "list_all b64_alphabet x'" "list_all b64_alphabet y'"
    and c: "c \<in> {''P-256'', ''P-384'', ''P-521''}" "c' \<in> {''P-256'', ''P-384'', ''P-521''}"
    and eq: "dumps (JObj [(''crv'', JStr c), (''kty'', JStr ''EC''), (''x'', JStr x), (''y'', JStr y)])
       = dumps (JObj [(''crv'', JStr c'), (''kty'', JStr ''EC''), (''x'', JStr x'), (''y'', JStr y')])"
  shows "c = c' \<and> x = x' \<and> y = y'"
proof -
  have cc: "c = c'"
    using eq c unfolding dumps_ec [OF assms(1,2)] dumps_ec [OF assms(3,4)]
    by (auto simp: dump_str_def esc_char_def)
  have "x @ CHR 0x22 # (CHR '','' # dump_str ''y'' @ CHR '':'' # CHR 0x22 # y @ [CHR 0x22, CHR ''}''])
     = x' @ CHR 0x22 # (CHR '','' # dump_str ''y'' @ CHR '':'' # CHR 0x22 # y' @ [CHR 0x22, CHR ''}''])"
    using eq cc unfolding dumps_ec [OF assms(1,2)] dumps_ec [OF assms(3,4)] by simp
  then have "x = x' \<and> y @ CHR 0x22 # [CHR ''}''] = y' @ CHR 0x22 # [CHR ''}'']"
    using sep_append_eq [OF b64_no_quote [OF assms(1)] b64_no_quote [OF assms(3)]] by simp
  then show ?thesis
    using cc sep_append_eq [OF b64_no_quote [OF assms(2)] b64_no_quote [OF assms(4)]] by simp
qed

lemma thumbprint_text_rsa:
  assumes "public_key_from_jwk j = Inr (RSAPublicNumbers e n)"
  shows "\<exists>es ns. list_all b64_alphabet es \<and> list_all b64_alphabet ns \<and>
     decode_jwk_uint (Some (JStr es)) = Inr e \<and> decode_jwk_uint (Some (JStr ns)) = Inr n \<and>
     thumbprint_text j = dumps (JObj [(''e'', JStr es), (''kty'', JStr ''RSA''), (''n'', JStr ns)])"
proof -
  obtain d where d: "j = JObj d" "map_of d ''kty'' = Some (JStr ''RSA'')"
    "decode_jwk_uint (map_of d ''n'') = Inr n" "decode_jwk_uint (map_of d ''e'') = Inr e"
    using public_key_RSA [OF assms] by blast
  with uint_text obtain ns es where t: "map_of d ''n'' = Some (JStr ns)" "list_all b64_alphabet ns"
    "map_of d ''e'' = Some (JStr es)" "list_all b64_alphabet es" by metis
  with d show ?thesis
    by (intro exI [of _ es] exI [of _ ns])
       (simp add: thumbprint_text_def thumbprint_members_def get_member_def)
qed

lemma thumbprint_text_ec:
  assumes "public_key_from_jwk j = Inr (ECPublicNumbers c x y)"
  shows "\<exists>cs xs ys. list_all b64_alphabet xs \<and> list_all b64_alphabet ys \<and>
     (cs, c) \<in> {(''P-256'', 256), (''P-384'', 384), (''P-521'', 521)} \<and>
     decode_jwk_coordinate (Some (JStr xs)) (coordinate_length_for_curve c) = Inr x \<and>
     decode_jwk_coordinate (Some (JStr ys)) (coordinate_length_for_curve c) = Inr y \<and>
     thumbprint_text j = dumps (JObj [(''crv'', JStr cs), (''kty'', JStr ''EC''), (''x'', JStr xs), (''y'', JStr ys)])"
proof -
  obtain d where d: "j = JObj d" "map_of d ''kty'' = Some (JStr ''EC'')"
    "curve_by_name (map_of d ''crv'') = Some c"
    "decode_jwk_coordinate (map_of d ''x'') (coordinate_length_for_curve c) = Inr x"
    "decode_jwk_coordinate (map_of d ''y'') (coordinate_length_for_curve c) = Inr y"
    using public_key_EC [OF assms] by blast
  from d coordinate_text obtain xs ys where t: "map_of d ''x'' = Some (JStr xs)" "list_all b64_alphabet xs"
    "map_of d ''y'' = Some (JStr ys)" "list_all b64_alphabet ys" by metis
  from curve_by_nameD [OF d(3)] obtain cs where cs: "map_of d ''crv'' = Some (JStr cs)"
    "(cs, c) \<in> {(''P-256'', 256), (''P-384'', 384), (''P-521'', 521)}" by auto
  with d t show ?thesis
    by (intro exI [of _ cs] exI [of _ xs] exI [of _ ys])
       (simp add: thumbprint_text_def thumbprint_members_def get_member_def)
qed

lemma thumbprint_text_identity:
  assumes "public_key_from_jwk j = Inr K" "public_key_from_jwk j' = Inr K'"
  shows "thumbprint_text j = thumbprint_text j' \<longleftrightarrow> K = K'"
proof (cases K; cases K')
  fix e n e' n' assume K: "K = RSAPublicNumbers e n" "K' = RSAPublicNumbers e' n'"
  obtain es ns where 1: "list_all b64_alphabet es" "list_all b64_alphabet ns"
    "decode_jwk_uint (Some (JStr es)) = Inr e" "decode_jwk_uint (Some (JStr ns)) = Inr n"
    "thumbprint_text j = dumps (JObj [(''e'', JStr es), (''kty'', JStr ''RSA''), (''n'', JStr ns)])"
    using thumbprint_text_rsa [OF assms(1) [unfolded K(1)]] by blast
  obtain es' ns' where 2: "list_all b64_alphabet es'" "list_all b64_alphabet ns'"
    "decode_jwk_uint (Some (JStr es')) = Inr e'" "decode_jwk_uint (Some (JStr ns')) = Inr n'"
    "thumbprint_text j' = dumps (JObj [(''e'', JStr es'), (''kty'', JStr ''RSA''), (''n'', JStr ns')])"
    using thumbprint_text_rsa [OF assms(2) [unfolded K(2)]] by blast
  show ?thesis
  proof
    assume "thumbprint_text j = thumbprint_text j'"
    then have "es = es' \<and> ns = ns'"
      using dumps_rsa_inj [OF 1(1,2) 2(1,2)] 1(5) 2(5) by simp
    with 1 2 K show "K = K'" by simp
  next
    assume "K = K'"
    with K 1 2 have "es = es' \<and> ns = ns'"
      using decode_jwk_uint_inj by (metis json.inject(3) option.inject public_numbers.inject(1))
    with 1 2 show "thumbprint_text j = thumbprint_text j'" by simp
  qed
next
  fix c x y c' x' y' assume K: "K = ECPublicNumbers c x y" "K' = ECPublicNumbers c' x' y'"
  obtain cs xs ys where 1: "list_all b64_alphabet xs" "list_all b64_alphabet ys"
    "(cs, c) \<in> {(''P-256'', 256), (''P-384'', 384), (''P-521'', 521)}"
    "decode_jwk_coordinate (Some (JStr xs)) (coordinate_length_for_curve c) = Inr x"
    "decode_jwk_coordinate (Some (JStr ys)) (coordinate_length_for_curve c) = Inr y"
    "thumbprint_text j = dumps (JObj [(''crv'', JStr cs), (''kty'', JStr ''EC''), (''x'', JStr xs), (''y'', JStr ys)])"
    using thumbprint_text_ec [OF assms(1) [unfolded K(1)]] by blast
  obtain cs' xs' ys' where 2: "list_all b64_alphabet xs'" "list_all b64_alphabet ys'"
    "(cs', c') \<in> {(''P-256'', 256), (''P-384'', 384), (''P-521'', 521)}"
    "decode_jwk_coordinate (Some (JStr xs')) (coordinate_length_for_curve c') = Inr x'"
    "decode_jwk_coordinate (Some (JStr ys')) (coordinate_length_for_curve c') = Inr y'"
    "thumbprint_text j' = dumps (JObj [(''crv'', JStr cs'), (''kty'', JStr ''EC''), (''x'', JStr xs'), (''y'', JStr ys')])"
    using thumbprint_text_ec [OF assms(2) [unfolded K(2)]] by blast
  have cs: "cs \<in> {''P-256'', ''P-384'', ''P-521''}" "cs' \<in> {''P-256'', ''P-384'', ''P-521''}"
    and cc: "cs = cs' \<longleftrightarrow> c = c'"
    using 1(3) 2(3) by auto
  show ?thesis
  proof
    assume "thumbprint_text j = thumbprint_text j'"
    then have "cs = cs' \<and> xs = xs' \<and> ys = ys'"
      using dumps_ec_inj [OF 1(1,2) 2(1,2) cs] 1(6) 2(6) by simp
    with 1 2 K cc show "K = K'" by simp
  next
    assume "K = K'"
    with K cc have "cs = cs'" "c = c'" "x = x'" "y = y'" by auto
    with 1 2 have "xs = xs' \<and> ys = ys'"
      using decode_jwk_coordinate_inj by (metis json.inject(3) option.inject)
    with 1 2 \<open>cs = cs'\<close> show "thumbprint_text j = thumbprint_text j'" by simp
  qed
next
  fix e n c x y assume K: "K = RSAPublicNumbers e n" "K' = ECPublicNumbers c x y"
  have "thumbprint_text j \<noteq> thumbprint_text j'"
    using thumbprint_text_rsa [OF assms(1) [unfolded K(1)]] thumbprint_text_ec [OF assms(2) [unfolded K(2)]]
    by (auto simp: dump_str_def esc_char_def)
  with K show ?thesis by simp
next
  fix c x y e n assume K: "K = ECPublicNumbers c x y" "K' = RSAPublicNumbers e n"
  have "thumbprint_text j \<noteq> thumbprint_text j'"
    using thumbprint_text_ec [OF assms(1) [unfolded K(1)]] thumbprint_text_rsa [OF assms(2) [unfolded K(2)]]
    by (auto simp: dump_str_def esc_char_def)
  with K show ?thesis by simp
qed

lemma encode_inj: "octets bs \<Longrightarrow> octets cs \<Longrightarrow> base64url_encode bs = base64url_encode cs \<Longrightarrow> bs = cs"
  by (metis decode_encode sum.inject(2))

text \<open>
  An account key has one identity: two JWKs the key builder accepts denote the same
  public key exactly when their thumbprints are equal, unless SHA-256 itself collides. So
  no second spelling of a key can hold a second account.
\<close>

theorem thumbprint_identity:
  assumes "public_key_from_jwk j = Inr K" and "public_key_from_jwk j' = Inr K'"
    and "\<And>x. list_all (\<lambda>b. b < 256) (sha256 x)"
  shows "(K = K' \<longrightarrow> jwk_thumbprint sha256 j = jwk_thumbprint sha256 j') \<and>
    (jwk_thumbprint sha256 j = jwk_thumbprint sha256 j' \<longrightarrow>
       K = K' \<or> (\<exists>x y. x \<noteq> y \<and> sha256 x = sha256 y))"
proof -
  have "sha256 (thumbprint_text j) = sha256 (thumbprint_text j')"
    if "jwk_thumbprint sha256 j = jwk_thumbprint sha256 j'"
    using that encode_inj [OF assms(3) assms(3)]
    by (simp add: jwk_thumbprint_text [OF assms(1)] jwk_thumbprint_text [OF assms(2)])
  moreover have "thumbprint_text j = thumbprint_text j' \<longleftrightarrow> K = K'"
    using assms(1,2) by (rule thumbprint_text_identity)
  ultimately show ?thesis
    using jwk_thumbprint_text [OF assms(1)] jwk_thumbprint_text [OF assms(2)] by metis
qed

lemma decode_jwk_octets_encode:
  assumes "octets bs" "bs \<noteq> []"
  shows "decode_jwk_octets (Some (JStr (base64url_encode bs))) = Inr bs"
proof -
  have "base64url_decode (base64url_encode bs) = Inr bs"
    using assms(1) by (rule decode_encode)
  moreover have "base64url_encode bs \<noteq> []"
    using assms(2) by (cases bs rule: base64url_encode.cases) auto
  moreover have "length (base64url_encode bs) mod 4 \<noteq> 1"
    unfolding length_encode_mod by auto
  ultimately show ?thesis
    using set_encode [OF assms(1)] by (simp add: decode_jwk_octets_def)
qed

definition ec_jwk :: "details \<Rightarrow> bytes \<Rightarrow> bytes \<Rightarrow> json" where
  "ec_jwk extra xs ys = JObj ([(''kty'', JStr ''EC''), (''crv'', JStr ''P-256''),
     (''x'', JStr (base64url_encode xs)), (''y'', JStr (base64url_encode ys))] @ extra)"

lemma ec_jwk_key:
  assumes "octets xs" "octets ys" "length xs = 32" "length ys = 32"
  shows "public_key_from_jwk (ec_jwk extra xs ys) = Inr (ECPublicNumbers 256 (from_bytes xs) (from_bytes ys))"
proof -
  have "xs \<noteq> []" "ys \<noteq> []" using assms by auto
  with assms show ?thesis
    by (simp add: ec_jwk_def public_key_from_jwk_def curve_by_name_def decode_jwk_coordinate_def
        decode_jwk_octets_encode coordinate_length_for_curve_def)
qed

theorem thumbprint_identity_witness:
  "jwk_thumbprint (map of_char) (ec_jwk [] (replicate 32 1) (replicate 32 2))
     = jwk_thumbprint (map of_char) (ec_jwk [(''alg'', JStr ''ES256'')] (replicate 32 1) (replicate 32 2))"
proof -
  have h: "\<And>x. list_all (\<lambda>b. b < 256) (map (of_char :: char \<Rightarrow> nat) x)"
    by (simp add: list_all_iff)
  have k: "public_key_from_jwk (ec_jwk extra (replicate 32 1) (replicate 32 2))
      = Inr (ECPublicNumbers 256 (from_bytes (replicate 32 1)) (from_bytes (replicate 32 2)))" for extra
    by (intro ec_jwk_key) (simp_all add: list_all_iff)
  show ?thesis
    by (rule thumbprint_identity [OF k k h, THEN conjunct1, THEN mp, OF refl])
qed

section \<open>Canonical re-encoding\<close>

lemma dict_set_same: "map_of d k = Some v \<Longrightarrow> dict_set k v d = d"
  by (induction k v d rule: dict_set.induct) (auto split: if_splits)

lemma b64_no_eq: "list_all b64_alphabet s \<Longrightarrow> CHR ''='' \<notin> set s"
  by (auto simp: list_all_iff b64_alphabet_def)

lemma lenient_of_strict:
  assumes "decode_jwk_octets v = Inr bs"
  shows "lenient_jwk_octets v = Inr bs"
proof -
  obtain s where s: "v = Some (JStr s)" "s \<noteq> []" "list_all b64_alphabet s" "length s mod 4 \<noteq> 1"
    "base64url_decode s = Inr bs"
    using assms
    by (auto simp: decode_jwk_octets_def split: option.splits json.splits if_splits sum.splits)
  have "last s \<noteq> CHR ''=''"
    using b64_no_eq [OF s(3)] s(2) by (metis last_in_set)
  then have "rstrip CHR ''='' s = s"
    using s(2) by (cases s rule: rev_cases) (auto simp: rstrip_def)
  with s show ?thesis by (simp add: lenient_jwk_octets_def)
qed

lemma strip_zeros_minimal: "bs \<noteq> [] \<Longrightarrow> hd bs \<noteq> 0 \<Longrightarrow> strip_zeros bs = bs"
  by (cases bs) (auto simp: strip_zeros_def)

lemma strip_zeros_split: "\<exists>k. bs = replicate k 0 @ strip_zeros bs"
proof (induction bs)
  case (Cons b bs)
  then obtain k where "bs = replicate k 0 @ strip_zeros bs" by blast
  then show ?case
    by (cases "b = 0") (auto simp: strip_zeros_def intro: exI [of _ "Suc k"] exI [of _ 0])
qed (simp add: strip_zeros_def)

lemma strip_zeros_pad: "replicate (length bs - length (strip_zeros bs)) 0 @ strip_zeros bs = bs"
proof -
  obtain k where k: "bs = replicate k 0 @ strip_zeros bs" using strip_zeros_split by blast
  then have "length bs = k + length (strip_zeros bs)"
    by (metis length_append length_replicate)
  with k show ?thesis by simp
qed

lemma from_bytes_append_zeros: "from_bytes (replicate k 0 @ bs) = from_bytes bs"
  by (induction k) (simp_all add: from_bytes_def)

lemma from_bytes_strip_zeros: "from_bytes (strip_zeros bs) = from_bytes bs"
  using strip_zeros_split [of bs] from_bytes_append_zeros by metis

lemma octets_strip_zeros: "octets bs \<Longrightarrow> octets (strip_zeros bs)"
  using set_dropWhileD by (fastforce simp: strip_zeros_def list_all_iff)

lemma canonical_uint_fix:
  assumes "decode_jwk_uint (map_of d m) = Inr n" "map_of r m = map_of d m"
  shows "canonical_uint d m r = Inr r"
proof -
  obtain bs where bs: "decode_jwk_octets (map_of d m) = Inr bs" "hd bs \<noteq> 0"
    using assms(1) by (auto simp: decode_jwk_uint_def split: if_splits)
  from decode_jwk_octetsD [OF bs(1)] bs(2) have "strip_zeros bs = bs" "bs \<noteq> []"
    "map_of d m = Some (JStr (base64url_encode bs))"
    by (auto simp: strip_zeros_minimal)
  with lenient_of_strict [OF bs(1)] assms(2) show ?thesis
    by (simp add: canonical_uint_def dict_set_same)
qed

lemma canonical_coordinate_fix:
  assumes "decode_jwk_coordinate (map_of d m) w = Inr n" "map_of r m = map_of d m"
  shows "canonical_coordinate w d m r = Inr r"
proof -
  obtain bs where bs: "decode_jwk_octets (map_of d m) = Inr bs" "length bs = w"
    using assms(1) by (auto simp: decode_jwk_coordinate_def split: if_splits)
  have "length (strip_zeros bs) \<le> w"
    using bs(2) length_dropWhile_le [of _ bs] by (simp add: strip_zeros_def)
  with decode_jwk_octetsD [OF bs(1)] lenient_of_strict [OF bs(1)] assms(2) bs(2) strip_zeros_pad [of bs]
  show ?thesis
    by (simp add: canonical_coordinate_def Let_def dict_set_same)
qed

text \<open>
  Re-encoding a stored key is idempotent on canonical keys: a JWK the strict validator
  accepts comes back from the migration's re-encoder unchanged.
\<close>

theorem canonicalize_jwk_fix:
  "validate_canonical_jwk j = Inr () \<Longrightarrow> canonicalize_jwk j = Inr j"
proof -
  assume v: "validate_canonical_jwk j = Inr ()"
  then obtain d where j: "j = JObj d"
    by (auto simp: validate_canonical_jwk_def split: json.splits)
  consider (rsa) "map_of d ''kty'' = Some (JStr ''RSA'')"
    | (ec) "map_of d ''kty'' = Some (JStr ''EC'')"
    using v j by (auto simp: validate_canonical_jwk_def split: if_splits)
  then show ?thesis
  proof cases
    case rsa
    then obtain n e where "decode_jwk_uint (map_of d ''n'') = Inr n" "decode_jwk_uint (map_of d ''e'') = Inr e"
      using v j by (auto simp: validate_canonical_jwk_def split: if_splits)
    with rsa j v show ?thesis
      by (simp add: canonicalize_jwk_def canonical_uint_fix)
  next
    case ec
    then obtain c x y where "curve_by_name (map_of d ''crv'') = Some c"
      "decode_jwk_coordinate (map_of d ''x'') (coordinate_length_for_curve c) = Inr x"
      "decode_jwk_coordinate (map_of d ''y'') (coordinate_length_for_curve c) = Inr y"
      using v j by (auto simp: validate_canonical_jwk_def split: if_splits option.splits)
    with ec j v show ?thesis
      by (simp add: canonicalize_jwk_def canonical_coordinate_fix Let_def)
  qed
qed

theorem canonicalize_jwk_fix_witness:
  "canonicalize_jwk (ec_jwk [] (replicate 32 1) (replicate 32 2)) = Inr (ec_jwk [] (replicate 32 1) (replicate 32 2))"
proof -
  have "public_key_from_jwk (ec_jwk [] (replicate 32 1) (replicate 32 2))
      = Inr (ECPublicNumbers 256 (from_bytes (replicate 32 1)) (from_bytes (replicate 32 2)))"
    by (intro ec_jwk_key) (simp_all add: list_all_iff)
  from public_key_validates [OF this] have "validate_canonical_jwk (ec_jwk [] (replicate 32 1) (replicate 32 2)) = Inr ()"
    by blast
  then show ?thesis by (rule canonicalize_jwk_fix)
qed

lemma lenient_octets: "lenient_jwk_octets v = Inr bs \<Longrightarrow> octets bs"
  using decode_octets
  by (auto simp: lenient_jwk_octets_def Let_def split: option.splits json.splits if_splits sum.splits)

lemma canonical_uint_effect:
  assumes "canonical_uint d m r = Inr r'"
  shows "\<exists>bs v. lenient_jwk_octets (map_of d m) = Inr bs \<and> map_of r' = (map_of r)(m \<mapsto> v)
     \<and> decode_jwk_uint (Some v) = Inr (from_bytes bs)"
proof -
  obtain bs where bs: "lenient_jwk_octets (map_of d m) = Inr bs" "strip_zeros bs \<noteq> []"
    "r' = dict_set m (JStr (base64url_encode (strip_zeros bs))) r"
    using assms by (auto simp: canonical_uint_def split: if_splits)
  have "hd (strip_zeros bs) \<noteq> 0"
    using bs(2) hd_dropWhile [of "\<lambda>b. b = 0" bs] by (auto simp: strip_zeros_def)
  with bs(2) octets_strip_zeros [OF lenient_octets [OF bs(1)]]
  have "decode_jwk_uint (Some (JStr (base64url_encode (strip_zeros bs)))) = Inr (from_bytes bs)"
    by (simp add: decode_jwk_uint_def decode_jwk_octets_encode from_bytes_strip_zeros)
  with bs show ?thesis by (metis map_of_dict_set)
qed

lemma canonical_coordinate_effect:
  assumes "canonical_coordinate w d m r = Inr r'" "0 < w"
  shows "\<exists>bs v. lenient_jwk_octets (map_of d m) = Inr bs \<and> map_of r' = (map_of r)(m \<mapsto> v)
     \<and> decode_jwk_coordinate (Some v) w = Inr (from_bytes bs)"
proof -
  obtain bs where bs: "lenient_jwk_octets (map_of d m) = Inr bs" "length (strip_zeros bs) \<le> w"
    "r' = dict_set m (JStr (base64url_encode (replicate (w - length (strip_zeros bs)) 0 @ strip_zeros bs))) r"
    using assms by (auto simp: canonical_coordinate_def Let_def split: if_splits)
  let ?padded = "replicate (w - length (strip_zeros bs)) 0 @ strip_zeros bs"
  have "octets ?padded" using octets_strip_zeros [OF lenient_octets [OF bs(1)]] by (auto simp: list_all_iff)
  moreover have len: "length ?padded = w" using bs(2) by simp
  moreover have "?padded \<noteq> []" using len assms(2) by (metis less_numeral_extra(3) list.size(3))
  ultimately have "decode_jwk_coordinate (Some (JStr (base64url_encode ?padded))) w = Inr (from_bytes bs)"
    by (simp add: decode_jwk_coordinate_def decode_jwk_octets_encode from_bytes_append_zeros
        from_bytes_strip_zeros del: append_eq_append_conv)
  with bs show ?thesis by (metis map_of_dict_set)
qed

text \<open>
  Re-encoding a stored RSA key changes its spelling and not the key: the re-encoded
  modulus and exponent decode strictly to the integers the lenient decoder read, and every
  other member is carried through.
\<close>

theorem canonicalize_jwk_same_key:
  assumes "canonicalize_jwk (JObj d) = Inr j" and "map_of d ''kty'' = Some (JStr ''RSA'')"
  shows "\<exists>d' ns es. j = JObj d' \<and>
     lenient_jwk_octets (map_of d ''n'') = Inr ns \<and> decode_jwk_uint (map_of d' ''n'') = Inr (from_bytes ns) \<and>
     lenient_jwk_octets (map_of d ''e'') = Inr es \<and> decode_jwk_uint (map_of d' ''e'') = Inr (from_bytes es) \<and>
     (\<forall>k. k \<noteq> ''n'' \<and> k \<noteq> ''e'' \<longrightarrow> map_of d' k = map_of d k)"
proof -
  obtain r d' where r: "canonical_uint d ''n'' d = Inr r" "canonical_uint d ''e'' r = Inr d'" "j = JObj d'"
    using assms by (auto simp: canonicalize_jwk_def)
  obtain ns v where n: "lenient_jwk_octets (map_of d ''n'') = Inr ns" "map_of r = (map_of d)(''n'' \<mapsto> v)"
    "decode_jwk_uint (Some v) = Inr (from_bytes ns)"
    using canonical_uint_effect [OF r(1)] by blast
  obtain es w where e: "lenient_jwk_octets (map_of d ''e'') = Inr es" "map_of d' = (map_of r)(''e'' \<mapsto> w)"
    "decode_jwk_uint (Some w) = Inr (from_bytes es)"
    using canonical_uint_effect [OF r(2)] by blast
  from n e r(3) show ?thesis by auto
qed

definition rsa_jwk :: "bytes \<Rightarrow> bytes \<Rightarrow> details" where
  "rsa_jwk ns es = [(''kty'', JStr ''RSA''), (''n'', JStr (base64url_encode ns)), (''e'', JStr (base64url_encode es))]"

lemma lenient_encode:
  "octets bs \<Longrightarrow> bs \<noteq> [] \<Longrightarrow> lenient_jwk_octets (Some (JStr (base64url_encode bs))) = Inr bs"
  by (rule lenient_of_strict [OF decode_jwk_octets_encode])

lemma canonicalize_rsa_jwk:
  assumes "octets ns" "octets es" "strip_zeros ns \<noteq> []" "strip_zeros es \<noteq> []"
  shows "canonicalize_jwk (JObj (rsa_jwk ns es)) = Inr (JObj (rsa_jwk (strip_zeros ns) (strip_zeros es)))"
proof -
  have ne: "ns \<noteq> []" "es \<noteq> []" using assms by (auto simp: strip_zeros_def)
  have hd: "hd (strip_zeros ns) \<noteq> 0" "hd (strip_zeros es) \<noteq> 0"
    using assms(3,4) hd_dropWhile [of "\<lambda>b. b = 0"] by (auto simp: strip_zeros_def)
  have u: "decode_jwk_uint (Some (JStr (base64url_encode (strip_zeros ns)))) = Inr (from_bytes ns)"
    "decode_jwk_uint (Some (JStr (base64url_encode (strip_zeros es)))) = Inr (from_bytes es)"
    using assms hd by (simp_all add: decode_jwk_uint_def decode_jwk_octets_encode octets_strip_zeros from_bytes_strip_zeros)
  have "canonical_uint (rsa_jwk ns es) ''n'' (rsa_jwk ns es) = Inr (rsa_jwk (strip_zeros ns) es)"
    "canonical_uint (rsa_jwk ns es) ''e'' (rsa_jwk (strip_zeros ns) es)
       = Inr (rsa_jwk (strip_zeros ns) (strip_zeros es))"
    using assms ne by (simp_all add: canonical_uint_def rsa_jwk_def lenient_encode)
  moreover have "validate_canonical_jwk (JObj (rsa_jwk (strip_zeros ns) (strip_zeros es))) = Inr ()"
    using u by (simp add: validate_canonical_jwk_def rsa_jwk_def)
  ultimately show ?thesis
    by (simp add: canonicalize_jwk_def rsa_jwk_def)
qed

text \<open>An exponent spelled with a leading zero octet is rescued.\<close>

theorem canonicalize_jwk_same_key_witness:
  "\<exists>d' ns es. JObj (rsa_jwk [1, 0, 1] [1, 0, 1]) = JObj d' \<and>
     lenient_jwk_octets (map_of (rsa_jwk [1, 0, 1] [0, 1, 0, 1]) ''n'') = Inr ns \<and>
     decode_jwk_uint (map_of d' ''n'') = Inr (from_bytes ns) \<and>
     lenient_jwk_octets (map_of (rsa_jwk [1, 0, 1] [0, 1, 0, 1]) ''e'') = Inr es \<and>
     decode_jwk_uint (map_of d' ''e'') = Inr (from_bytes es)"
proof -
  have c: "canonicalize_jwk (JObj (rsa_jwk [1, 0, 1] [0, 1, 0, 1])) = Inr (JObj (rsa_jwk [1, 0, 1] [1, 0, 1]))"
    using canonicalize_rsa_jwk [of "[1, 0, 1]" "[0, 1, 0, 1]"] by (simp add: strip_zeros_def)
  have k: "map_of (rsa_jwk [1, 0, 1] [0, 1, 0, 1]) ''kty'' = Some (JStr ''RSA'')"
    by (simp add: rsa_jwk_def)
  from canonicalize_jwk_same_key [OF c k] show ?thesis
    by (elim exE conjE) (intro exI conjI, assumption+)
qed

end
