(* ===== verification/StoreBase.thy ===== *)
theory StoreBase
  imports Jwk AcmeErrors
begin

text \<open>
  The tables of \<open>src/src/acme_adcs_ra/store.py\<close>, its helpers, and the audit insert every
  other operation shares. Each table is the list of its rows in insertion order. JSON
  columns hold the decoded value. A status column holds the enumeration's constructor.
  SQLite does not enforce the schema's foreign keys (no connection turns them on); primary
  keys and the two unique indexes that the migrations create are enforced, and
  \<open>idx_certificates_order\<close> and \<open>idx_accounts_thumbprint\<close> say whether an index is installed.

  What is not Python code of the repository is a field of the record \<open>ext\<close>: SHA-256, and
  the serial number and validity the \<open>cryptography\<close> package reads from a certificate. A
  clock reading \<open>now\<close> is passed to each operation, which reads the clock once.
\<close>

section \<open>External functions\<close>

record ext =
  x_sha256 :: "string \<Rightarrow> bytes"
  x_digest :: "string \<Rightarrow> string"
  x_serial :: "string \<Rightarrow> nat option"
  x_validity :: "string \<Rightarrow> (timestamp \<times> timestamp) option"

section \<open>Rows\<close>

datatype OrderStatus = PENDING | READY | PROCESSING | VALID | INVALID | REVOKED

datatype CertStatus = CertVALID | CertREVOKED | CertQUARANTINED

datatype AccountStatus = AcctVALID | AcctDEACTIVATED

record AccountRow =
  acc_id :: string
  acc_status :: AccountStatus
  acc_jwk :: "json option"
  acc_eab_kid :: string
  acc_contact :: "json list"
  acc_created_at :: timestamp
  acc_thumbprint :: "string option"

record NonceRow =
  nonce_text :: string
  nonce_created_at :: timestamp

record OrderRow =
  ord_id :: string
  ord_account_id :: string
  ord_status :: OrderStatus
  ord_identifiers :: "(string \<times> string) list"
  ord_authorizations :: "string list"
  ord_finalize_url :: string
  ord_certificate_url :: "string option"
  ord_expires :: timestamp
  ord_created_at :: timestamp
  ord_updated_at :: timestamp
  ord_processing_started_at :: "timestamp option"
  ord_processing_generation :: nat
  ord_pending_ca_request_id :: "string option"

record AuthzRow =
  az_id :: string
  az_account_id :: string
  az_order_id :: string
  az_identifier :: "string \<times> string"
  az_status :: string
  az_expires :: timestamp

record ChallengeRow =
  ch_id :: string
  ch_authz_id :: string
  ch_type :: string
  ch_status :: string
  ch_token :: string
  ch_url :: string
  ch_validated_at :: "timestamp option"

record CertRow =
  cert_id :: string
  cert_order_id :: string
  cert_account_id :: string
  cert_pem :: string
  cert_chain_pem :: "string list"
  cert_template :: string
  cert_requester :: string
  cert_issued_at :: timestamp
  cert_metadata :: "(string \<times> string) list"
  cert_serial :: "string option"
  cert_status :: CertStatus
  cert_revocation_reason :: "int option"
  cert_revoked_at :: "timestamp option"
  cert_ca_crl_updated :: bool
  cert_not_before :: "timestamp option"
  cert_not_after :: "timestamp option"

record AuditRow =
  aud_id :: nat
  aud_event_type :: string
  aud_account_id :: "string option"
  aud_order_id :: "string option"
  aud_sans :: "string list"
  aud_template :: "string option"
  aud_requester :: "string option"
  aud_outcome :: string
  aud_details :: details
  aud_timestamp :: timestamp

record WatermarkRow =
  wm_issuer_key :: string
  wm_crl_number :: "string option"
  wm_this_update :: timestamp
  wm_observed_at :: timestamp
  wm_source_url :: "string option"

record db =
  accounts :: "AccountRow list"
  nonces :: "NonceRow list"
  orders :: "OrderRow list"
  authorizations :: "AuthzRow list"
  challenges :: "ChallengeRow list"
  certificates :: "CertRow list"
  audit_log :: "AuditRow list"
  audit_seq :: nat
  crl_watermark :: "WatermarkRow list"
  idx_certificates_order :: bool
  idx_accounts_thumbprint :: bool

definition empty_db :: db where
  "empty_db = \<lparr>accounts = [], nonces = [], orders = [], authorizations = [], challenges = [],
     certificates = [], audit_log = [], audit_seq = 0, crl_watermark = [],
     idx_certificates_order = True, idx_accounts_thumbprint = True\<rparr>"

datatype store_error =
    IntegrityError
  | ValueError
  | EabAccountLimitExceeded string nat nat
  | OrderRateLimitExceeded string nat nat nat "string option"
  | KeyChangeRateLimitExceeded string nat nat nat
  | AccountKeyStale
  | StoreMigrationError
  | JwkError jws_error

section \<open>Time\<close>

definition micros :: int where "micros = 1000000"

definition now_iso :: "clock \<Rightarrow> timestamp" where
  "now_iso now = now div micros"

definition now_iso_plus :: "clock \<Rightarrow> nat \<Rightarrow> timestamp" where
  "now_iso_plus now seconds = (now + int seconds * micros) div micros"

text \<open>\<open>(now - timedelta(seconds)).strftime(...)\<close>\<close>

definition cutoff_before :: "clock \<Rightarrow> nat \<Rightarrow> timestamp" where
  "cutoff_before now seconds = (now - int seconds * micros) div micros"

definition is_expired :: "timestamp \<Rightarrow> clock \<Rightarrow> bool" where
  "is_expired expires now \<longleftrightarrow> expires * micros \<le> now"

lemma now_iso_plus_eq: "now_iso_plus now s = now_iso now + int s"
  by (simp add: now_iso_plus_def now_iso_def micros_def)

lemma cutoff_before_eq: "cutoff_before now s = now_iso now - int s"
proof -
  have "(now - int s * micros) div micros = (now + (- int s) * micros) div micros" by simp
  also have "\<dots> = now div micros + - int s"
    by (subst div_mult_self1) (simp_all add: micros_def)
  finally show ?thesis by (simp add: cutoff_before_def now_iso_def)
qed

lemma is_expired_iff: "is_expired e now \<longleftrightarrow> e \<le> now_iso now"
  unfolding is_expired_def now_iso_def micros_def by linarith

lemma now_iso_mono: "now \<le> now' \<Longrightarrow> now_iso now \<le> now_iso now'"
  by (simp add: now_iso_def micros_def zdiv_mono1)

section \<open>Serial numbers\<close>

text \<open>\<open>str.strip()\<close>, \<open>str.upper()\<close> (on ASCII) and \<open>format(n, 'x')\<close>.\<close>

definition is_space :: "char \<Rightarrow> bool" where
  "is_space c = (let n = (of_char c :: nat) in
     (9 \<le> n \<and> n \<le> 13) \<or> (28 \<le> n \<and> n \<le> 32) \<or> n = 133 \<or> n = 160)"

definition strip_space :: "string \<Rightarrow> string" where
  "strip_space s = rev (dropWhile is_space (rev (dropWhile is_space s)))"

definition upper_char :: "char \<Rightarrow> char" where
  "upper_char c = (let n = (of_char c :: nat) in if 97 \<le> n \<and> n \<le> 122 then char_of (n - 32) else c)"

fun hex_nat :: "nat \<Rightarrow> string" where
  "hex_nat n = (if n < 16 then [hex_digit n] else hex_nat (n div 16) @ [hex_digit (n mod 16)])"

declare hex_nat.simps [simp del]

definition remove_0X :: "string \<Rightarrow> string" where
  "remove_0X s = (if prefix ''0X'' s then drop 2 s else s)"

definition canonical_serial :: "string \<Rightarrow> string" where
  "canonical_serial serial_hex =
     (let stripped = remove_0X (map upper_char (strip_space serial_hex));
          digits = lstrip CHR ''0'' stripped
      in if digits = [] then ''0'' else digits)"

text \<open>\<open>_serial_from_pem\<close>: \<open>ValueError\<close> when the text is not a certificate.\<close>

definition serial_from_pem :: "ext \<Rightarrow> string \<Rightarrow> store_error + string" where
  "serial_from_pem x pem =
     (case x_serial x pem of None \<Rightarrow> Inl ValueError | Some n \<Rightarrow> Inr (canonical_serial (hex_nat n)))"

definition validity_from_pem :: "ext \<Rightarrow> string \<Rightarrow> store_error + (timestamp \<times> timestamp)" where
  "validity_from_pem x pem =
     (case x_validity x pem of None \<Rightarrow> Inl ValueError | Some v \<Rightarrow> Inr v)"

section \<open>The audit insert\<close>

record audit_args =
  ev_type :: string
  ev_account :: "string option"
  ev_order :: "string option"
  ev_sans :: "string list"
  ev_template :: "string option"
  ev_requester :: "string option"
  ev_outcome :: string
  ev_details :: "details option"

definition audit_ev :: "string \<Rightarrow> string option \<Rightarrow> string option \<Rightarrow> string \<Rightarrow> details \<Rightarrow> audit_args" where
  "audit_ev t a ord outcome d = \<lparr>ev_type = t, ev_account = a, ev_order = ord, ev_sans = [],
     ev_template = None, ev_requester = None, ev_outcome = outcome, ev_details = Some d\<rparr>"

definition bound_text :: "(string \<Rightarrow> string) \<Rightarrow> string option \<Rightarrow> string option" where
  "bound_text digest t =
     (case t of None \<Rightarrow> None
      | Some s \<Rightarrow> (case bound_value digest max_value_chars 0 (JStr s) of JStr s' \<Rightarrow> Some s' | _ \<Rightarrow> None))"

definition record_audit_in_conn :: "ext \<Rightarrow> clock \<Rightarrow> audit_args \<Rightarrow> db \<Rightarrow> AuditRow \<times> db" where
  "record_audit_in_conn x now args s =
     (let event = \<lparr>aud_id = Suc (audit_seq s),
                   aud_event_type = ev_type args, aud_account_id = ev_account args,
                   aud_order_id = ev_order args, aud_sans = ev_sans args,
                   aud_template = ev_template args,
                   aud_requester = bound_text (x_digest x) (ev_requester args),
                   aud_outcome = ev_outcome args,
                   aud_details = bound_details (x_digest x) max_value_chars max_details_chars (ev_details args),
                   aud_timestamp = now_iso now\<rparr>
      in (event, s\<lparr>audit_log := audit_log s @ [event], audit_seq := Suc (audit_seq s)\<rparr>))"

definition record_audit :: "ext \<Rightarrow> clock \<Rightarrow> audit_args \<Rightarrow> db \<Rightarrow> AuditRow \<times> db" where
  "record_audit x now args s = record_audit_in_conn x now args s"

definition update_audit_details :: "ext \<Rightarrow> nat \<Rightarrow> details \<Rightarrow> db \<Rightarrow> bool \<times> db" where
  "update_audit_details x audit_id d s =
     (let p = (\<lambda>r. aud_id r = audit_id) in
      (rowcount p (audit_log s) > 0,
       s\<lparr>audit_log := upd_where p
          (\<lambda>r. r\<lparr>aud_details := bound_details (x_digest x) max_value_chars max_details_chars (Some d)\<rparr>)
          (audit_log s)\<rparr>))"

definition delete_audit_rows_before :: "timestamp \<Rightarrow> db \<Rightarrow> nat \<times> db" where
  "delete_audit_rows_before cutoff s =
     (rowcount (\<lambda>r. aud_timestamp r < cutoff) (audit_log s),
      s\<lparr>audit_log := filter (\<lambda>r. \<not> aud_timestamp r < cutoff) (audit_log s)\<rparr>)"

text \<open>Newest first, optionally restricted to one account and one event type.\<close>

definition list_audit_events :: "string option \<Rightarrow> string option \<Rightarrow> nat \<Rightarrow> db \<Rightarrow> AuditRow list" where
  "list_audit_events account_id event_type limit s =
     take limit (rev (filter (\<lambda>r. (case account_id of None \<Rightarrow> True | Some a \<Rightarrow> aud_account_id r = Some a)
                              \<and> (case event_type of None \<Rightarrow> True | Some t \<Rightarrow> aud_event_type r = t))
                      (audit_log s)))"

section \<open>What the audit insert keeps\<close>

lemma record_audit_frame [simp]:
  "accounts (snd (record_audit_in_conn x now a s)) = accounts s"
  "nonces (snd (record_audit_in_conn x now a s)) = nonces s"
  "orders (snd (record_audit_in_conn x now a s)) = orders s"
  "authorizations (snd (record_audit_in_conn x now a s)) = authorizations s"
  "challenges (snd (record_audit_in_conn x now a s)) = challenges s"
  "certificates (snd (record_audit_in_conn x now a s)) = certificates s"
  "crl_watermark (snd (record_audit_in_conn x now a s)) = crl_watermark s"
  "idx_certificates_order (snd (record_audit_in_conn x now a s)) = idx_certificates_order s"
  "idx_accounts_thumbprint (snd (record_audit_in_conn x now a s)) = idx_accounts_thumbprint s"
  "audit_log (snd (record_audit_in_conn x now a s)) = audit_log s @ [fst (record_audit_in_conn x now a s)]"
  "audit_seq (snd (record_audit_in_conn x now a s)) = Suc (audit_seq s)"
  by (simp_all add: record_audit_in_conn_def Let_def)

lemma record_audit_event [simp]:
  "aud_event_type (fst (record_audit_in_conn x now a s)) = ev_type a"
  "aud_account_id (fst (record_audit_in_conn x now a s)) = ev_account a"
  "aud_order_id (fst (record_audit_in_conn x now a s)) = ev_order a"
  "aud_outcome (fst (record_audit_in_conn x now a s)) = ev_outcome a"
  "aud_timestamp (fst (record_audit_in_conn x now a s)) = now_iso now"
  "aud_sans (fst (record_audit_in_conn x now a s)) = ev_sans a"
  "aud_id (fst (record_audit_in_conn x now a s)) = Suc (audit_seq s)"
  by (simp_all add: record_audit_in_conn_def Let_def)

lemma audit_ev_simps [simp]:
  "ev_type (audit_ev t a ord out d) = t" "ev_account (audit_ev t a ord out d) = a"
  "ev_order (audit_ev t a ord out d) = ord" "ev_outcome (audit_ev t a ord out d) = out"
  "ev_sans (audit_ev t a ord out d) = []"
  by (simp_all add: audit_ev_def)

section \<open>Row keys\<close>

text \<open>
  The well-formedness every operation keeps: primary keys are pairwise different, audit
  ids grow, and an installed unique index holds.
\<close>

definition wf_db :: "db \<Rightarrow> bool" where
  "wf_db s \<longleftrightarrow>
     distinct (map acc_id (accounts s)) \<and> distinct (map nonce_text (nonces s))
     \<and> distinct (map ord_id (orders s)) \<and> distinct (map az_id (authorizations s))
     \<and> distinct (map ch_id (challenges s)) \<and> distinct (map cert_id (certificates s))
     \<and> distinct (map wm_issuer_key (crl_watermark s))
     \<and> sorted_wrt (<) (map aud_id (audit_log s)) \<and> list_all (\<lambda>r. aud_id r \<le> audit_seq s) (audit_log s)
     \<and> (idx_certificates_order s \<longrightarrow> distinct (map cert_order_id (certificates s)))
     \<and> (idx_accounts_thumbprint s \<longrightarrow> distinct (filter (\<lambda>t. t \<noteq> None) (map acc_thumbprint (accounts s))))"

lemma wf_empty: "wf_db empty_db"
  by (simp add: wf_db_def empty_db_def)

lemma wf_record_audit [simp]: "wf_db s \<Longrightarrow> wf_db (snd (record_audit_in_conn x now a s))"
  by (auto simp: wf_db_def sorted_wrt_append list_all_iff le_SucI less_Suc_eq_le)

lemma wf_update_audit: "wf_db s \<Longrightarrow> wf_db (snd (update_audit_details x i d s))"
proof -
  assume wf: "wf_db s"
  have "map aud_id (audit_log (snd (update_audit_details x i d s))) = map aud_id (audit_log s)"
    by (simp add: update_audit_details_def Let_def map_upd_where)
  then have "list_all (\<lambda>r. aud_id r \<le> audit_seq s) (audit_log (snd (update_audit_details x i d s)))"
    using wf unfolding wf_db_def list_all_length by (metis length_map nth_map)
  with wf \<open>map aud_id _ = _\<close> show ?thesis
    by (simp add: wf_db_def update_audit_details_def Let_def)
qed

lemma wf_delete_audit: "wf_db s \<Longrightarrow> wf_db (snd (delete_audit_rows_before c s))"
  by (auto simp: wf_db_def delete_audit_rows_before_def list_all_iff sorted_wrt_filter sorted_wrt_map)

text \<open>A concrete instance of the external functions, for the witnesses.\<close>

definition sample_ext :: ext where
  "sample_ext = \<lparr>x_sha256 = (\<lambda>_. []), x_digest = (\<lambda>_. ''d''), x_serial = (\<lambda>_. Some 171), x_validity = (\<lambda>_. Some (0, 86400))\<rparr>"

end
