(* ===== verification/StoreNonces.thy ===== *)
theory StoreNonces
  imports StoreBase
begin

text \<open>
  Replay nonces of \<open>src/src/acme_adcs_ra/store.py\<close>: issue, single-use redemption with the
  TTL enforced at redemption, and the sweep. The text of a new nonce and the outcome of
  the collection draw are arguments. The bounded collection deletes the first 5000 expired
  rows in rowid order; SQL leaves that choice open, and nothing proved here depends on it.

  \<open>consume_nonce\<close> is a read followed by a conditional delete, each its own statement on the
  shared database, so two callers can both pass the read: the relation \<open>race_step\<close>
  interleaves any number of callers statement by statement.
\<close>

section \<open>Operations\<close>

definition NONCE_TTL_SECONDS :: nat where "NONCE_TTL_SECONDS = 1800"

definition nonce_cutoff :: "clock \<Rightarrow> timestamp" where
  "nonce_cutoff now = cutoff_before now NONCE_TTL_SECONDS"

definition gc_nonces :: "clock \<Rightarrow> NonceRow list \<Rightarrow> NonceRow list" where
  "gc_nonces now rows =
     (let victims = take 5000 (filter (\<lambda>r. nonce_created_at r < nonce_cutoff now) rows)
      in filter (\<lambda>r. r \<notin> set victims) rows)"

definition create_nonce :: "clock \<Rightarrow> string \<Rightarrow> bool \<Rightarrow> db \<Rightarrow> (store_error + string) \<times> db" where
  "create_nonce now nonce collect = with_conn (\<lambda>s.
     if nonce \<in> nonce_text ` set (nonces s) then Inl IntegrityError
     else
       let rows = nonces s @ [\<lparr>nonce_text = nonce, nonce_created_at = now_iso now\<rparr>]
       in Inr (nonce, s\<lparr>nonces := if collect then gc_nonces now rows else rows\<rparr>))"

definition nonce_live :: "string \<Rightarrow> timestamp \<Rightarrow> NonceRow \<Rightarrow> bool" where
  "nonce_live nonce cutoff r \<longleftrightarrow> nonce_text r = nonce \<and> cutoff \<le> nonce_created_at r"

definition select_nonce :: "string \<Rightarrow> timestamp \<Rightarrow> db \<Rightarrow> bool" where
  "select_nonce nonce cutoff s \<longleftrightarrow> find (nonce_live nonce cutoff) (nonces s) \<noteq> None"

definition delete_nonce :: "string \<Rightarrow> timestamp \<Rightarrow> db \<Rightarrow> bool \<times> db" where
  "delete_nonce nonce cutoff s =
     (rowcount (nonce_live nonce cutoff) (nonces s) = 1,
      s\<lparr>nonces := filter (\<lambda>r. \<not> nonce_live nonce cutoff r) (nonces s)\<rparr>)"

definition consume_nonce :: "clock \<Rightarrow> string \<Rightarrow> db \<Rightarrow> bool \<times> db" where
  "consume_nonce now nonce s =
     (if select_nonce nonce (nonce_cutoff now) s then delete_nonce nonce (nonce_cutoff now) s
      else (False, s))"

definition cleanup_expired_nonces :: "clock \<Rightarrow> db \<Rightarrow> nat \<times> db" where
  "cleanup_expired_nonces now s =
     (rowcount (\<lambda>r. nonce_created_at r < nonce_cutoff now) (nonces s),
      s\<lparr>nonces := filter (\<lambda>r. \<not> nonce_created_at r < nonce_cutoff now) (nonces s)\<rparr>)"

definition nonce_present :: "string \<Rightarrow> db \<Rightarrow> bool" where
  "nonce_present nonce s \<longleftrightarrow> nonce \<in> nonce_text ` set (nonces s)"

section \<open>Single-use tokens\<close>

text \<open>
  The contract the protocol layer relies on: a redemption that succeeds found the token
  and leaves it absent, and no redemption makes a token appear. Any run of redemptions
  then accepts each token at most once.
\<close>

locale single_use =
  fixes redeem :: "'r \<Rightarrow> 's \<Rightarrow> bool \<times> 's"
    and token :: "'r \<Rightarrow> 't"
    and present :: "'t \<Rightarrow> 's \<Rightarrow> bool"
    and inv :: "'s \<Rightarrow> bool"
  assumes redeem_inv: "inv s \<Longrightarrow> inv (snd (redeem r s))"
    and redeem_found: "inv s \<Longrightarrow> fst (redeem r s) \<Longrightarrow> present (token r) s"
    and redeem_gone: "inv s \<Longrightarrow> fst (redeem r s) \<Longrightarrow> \<not> present (token r) (snd (redeem r s))"
    and redeem_shrinks: "inv s \<Longrightarrow> present t (snd (redeem r s)) \<Longrightarrow> present t s"
begin

primrec redeem_all :: "'r list \<Rightarrow> 's \<Rightarrow> bool list" where
  "redeem_all [] s = []"
| "redeem_all (r # rs) s = fst (redeem r s) # redeem_all rs (snd (redeem r s))"

definition wins :: "'t \<Rightarrow> 'r list \<Rightarrow> 's \<Rightarrow> nat" where
  "wins t rs s = length (filter (\<lambda>(r, ok). token r = t \<and> ok) (zip rs (redeem_all rs s)))"

lemma wins_simps [simp]:
  "wins t [] s = 0"
  "wins t (r # rs) s =
     (if token r = t \<and> fst (redeem r s) then 1 else 0) + wins t rs (snd (redeem r s))"
  by (simp_all add: wins_def)

lemma absent_never_wins: "inv s \<Longrightarrow> \<not> present t s \<Longrightarrow> wins t rs s = 0"
proof (induction rs arbitrary: s)
  case Nil
  then show ?case by simp
next
  case (Cons r rs)
  have "\<not> present t (snd (redeem r s))" using Cons.prems redeem_shrinks by blast
  then have "wins t rs (snd (redeem r s)) = 0" using Cons.IH Cons.prems redeem_inv by blast
  moreover have "\<not> (token r = t \<and> fst (redeem r s))" using Cons.prems redeem_found by blast
  ultimately show ?case by simp
qed

lemma at_most_one_win: "inv s \<Longrightarrow> wins t rs s \<le> 1"
proof (induction rs arbitrary: s)
  case Nil
  then show ?case by simp
next
  case (Cons r rs)
  have inv': "inv (snd (redeem r s))" using Cons.prems redeem_inv by blast
  show ?case
  proof (cases "token r = t \<and> fst (redeem r s)")
    case True
    then have "\<not> present t (snd (redeem r s))"
      using redeem_gone [OF Cons.prems, of r] by (simp only: simp_thms)
    with inv' have "wins t rs (snd (redeem r s)) = 0" by (rule absent_never_wins)
    then show ?thesis by simp
  next
    case False
    have "wins t (r # rs) s = wins t rs (snd (redeem r s))"
      by (simp only: wins_simps if_not_P [OF False] add_0)
    then show ?thesis using Cons.IH [OF inv'] by (simp only:)
  qed
qed

end

section \<open>Lemmas on the table\<close>

lemma nonce_count:
  assumes "wf_db s"
  shows "rowcount (nonce_live n c) (nonces s) \<le> 1"
proof -
  have "distinct (map nonce_text (nonces s))" using assms by (simp add: wf_db_def)
  then show ?thesis by (rule rowcount_key_le1) (simp add: nonce_live_def)
qed

lemma select_iff_rowcount:
  "select_nonce n c s \<longleftrightarrow> rowcount (nonce_live n c) (nonces s) \<noteq> 0"
  by (auto simp: select_nonce_def rowcount_0 find_None_iff)

lemma delete_nonce_wins:
  assumes "wf_db s"
  shows "fst (delete_nonce n c s) \<longleftrightarrow> (\<exists>r \<in> set (nonces s). nonce_live n c r)"
proof -
  have "rowcount (nonce_live n c) (nonces s) = 1 \<longleftrightarrow> rowcount (nonce_live n c) (nonces s) \<noteq> 0"
    using nonce_count [OF assms, of n c] by linarith
  then show ?thesis by (simp add: delete_nonce_def rowcount_0)
qed

lemma delete_nonce_gone:
  assumes wf: "wf_db s" and ok: "fst (delete_nonce n c s)"
  shows "\<not> nonce_present n (snd (delete_nonce n c s))"
proof
  assume "nonce_present n (snd (delete_nonce n c s))"
  then obtain r where r: "r \<in> set (nonces s)" "nonce_text r = n" "\<not> nonce_live n c r"
    by (auto simp: nonce_present_def delete_nonce_def)
  obtain r' where r': "r' \<in> set (nonces s)" "nonce_live n c r'"
    using ok delete_nonce_wins [OF wf] by blast
  have "inj_on nonce_text (set (nonces s))"
    using wf unfolding wf_db_def distinct_map by blast
  then have "r = r'"
    using r r' unfolding nonce_live_def by (metis inj_onD)
  with r r' show False by blast
qed

lemma delete_nonce_frame: "snd (delete_nonce n c s) = s\<lparr>nonces := filter (\<lambda>r. \<not> nonce_live n c r) (nonces s)\<rparr>"
  by (simp add: delete_nonce_def)

lemma distinct_map_filter_key: "distinct (map f xs) \<Longrightarrow> distinct (map f (filter p xs))"
  by (induction xs) auto

lemma wf_nonces_filter: "wf_db s \<Longrightarrow> wf_db (s\<lparr>nonces := filter p (nonces s)\<rparr>)"
  by (simp add: wf_db_def distinct_map_filter_key)

lemma wf_delete_nonce: "wf_db s \<Longrightarrow> wf_db (snd (delete_nonce n c s))"
  unfolding delete_nonce_frame by (rule wf_nonces_filter)

lemma wf_consume_nonce: "wf_db s \<Longrightarrow> wf_db (snd (consume_nonce now n s))"
  by (simp add: consume_nonce_def wf_delete_nonce)

lemma wf_cleanup_expired_nonces: "wf_db s \<Longrightarrow> wf_db (snd (cleanup_expired_nonces now s))"
  by (simp add: cleanup_expired_nonces_def wf_nonces_filter)

lemma gc_nonces_filter: "\<exists>p. gc_nonces now rows = filter p rows"
  unfolding gc_nonces_def Let_def by blast

lemma gc_nonces_subset: "set (gc_nonces now rows) \<subseteq> set rows"
  unfolding gc_nonces_def Let_def by (rule filter_is_subset)

lemma gc_nonces_keeps:
  assumes "r \<in> set rows" "nonce_cutoff now \<le> nonce_created_at r"
  shows "r \<in> set (gc_nonces now rows)"
proof -
  have "r \<notin> set (filter (\<lambda>r. nonce_created_at r < nonce_cutoff now) rows)" using assms(2) by simp
  then have "r \<notin> set (take 5000 (filter (\<lambda>r. nonce_created_at r < nonce_cutoff now) rows))"
    by (meson in_set_takeD)
  with assms(1) show ?thesis unfolding gc_nonces_def Let_def by simp
qed

lemma create_nonce_cases:
  obtains (clash) "n \<in> nonce_text ` set (nonces s)" "create_nonce now n collect s = (Inl IntegrityError, s)"
  | (made) rows where "n \<notin> nonce_text ` set (nonces s)"
      "create_nonce now n collect s = (Inr n, s\<lparr>nonces := rows\<rparr>)"
      "rows = (let new = nonces s @ [\<lparr>nonce_text = n, nonce_created_at = now_iso now\<rparr>]
               in if collect then gc_nonces now new else new)"
  by (cases "n \<in> nonce_text ` set (nonces s)") (auto simp: create_nonce_def with_conn_def Let_def)

lemma wf_create_nonce:
  assumes "wf_db s"
  shows "wf_db (snd (create_nonce now n collect s))"
proof (cases rule: create_nonce_cases [of n s now collect])
  case clash
  then show ?thesis using assms by simp
next
  case (made rows)
  let ?new = "nonces s @ [\<lparr>nonce_text = n, nonce_created_at = now_iso now\<rparr>]"
  have "distinct (map nonce_text ?new)" using assms made(1) by (simp add: wf_db_def)
  moreover have "\<exists>p. rows = filter p ?new"
  proof (cases collect)
    case True
    with made(3) gc_nonces_filter show ?thesis unfolding Let_def by (simp only: if_True)
  next
    case False
    then show ?thesis unfolding made(3) Let_def if_not_P [OF False] by (intro exI [of _ "\<lambda>_. True"]) simp
  qed
  ultimately have "distinct (map nonce_text rows)" using distinct_map_filter_key by blast
  with assms made(2) show ?thesis by (simp add: wf_db_def)
qed

lemma consume_nonce_iff:
  assumes "wf_db s"
  shows "fst (consume_nonce now n s) \<longleftrightarrow> (\<exists>r \<in> set (nonces s). nonce_live n (nonce_cutoff now) r)"
  using delete_nonce_wins [OF assms]
  by (auto simp: consume_nonce_def select_iff_rowcount rowcount_0)

interpretation nonce_use: single_use "\<lambda>(now, n). consume_nonce now n" snd nonce_present wf_db
proof unfold_locales
  fix s :: db and r :: "clock \<times> string" and t
  obtain now n where r: "r = (now, n)" by fastforce
  assume wf: "wf_db s"
  show "wf_db (snd ((case r of (now, n) \<Rightarrow> consume_nonce now n) s))"
    using wf_consume_nonce [OF wf] by (simp add: r)
  show "nonce_present (snd r) s" if "fst ((case r of (now, n) \<Rightarrow> consume_nonce now n) s)"
    using that consume_nonce_iff [OF wf] by (auto simp: r nonce_present_def nonce_live_def)
  show "\<not> nonce_present (snd r) (snd ((case r of (now, n) \<Rightarrow> consume_nonce now n) s))"
    if "fst ((case r of (now, n) \<Rightarrow> consume_nonce now n) s)"
    using that delete_nonce_gone [OF wf] by (simp add: r consume_nonce_def split: if_splits)
  show "nonce_present t s" if "nonce_present t (snd ((case r of (now, n) \<Rightarrow> consume_nonce now n) s))"
    using that by (auto simp: r nonce_present_def consume_nonce_def delete_nonce_def split: if_splits)
qed

section \<open>Interleaved consumers\<close>

datatype caller_state = Arrived | PassedSelect | Answered bool

record caller =
  cl_nonce :: string
  cl_cutoff :: timestamp
  cl_state :: caller_state

inductive race_step :: "db \<times> caller list \<Rightarrow> db \<times> caller list \<Rightarrow> bool" where
  select_miss: "race_step (s, cs) (s, cs[i := (cs ! i)\<lparr>cl_state := Answered False\<rparr>])"
    if "i < length cs" "cl_state (cs ! i) = Arrived" "\<not> select_nonce (cl_nonce (cs ! i)) (cl_cutoff (cs ! i)) s"
| select_hit: "race_step (s, cs) (s, cs[i := (cs ! i)\<lparr>cl_state := PassedSelect\<rparr>])"
    if "i < length cs" "cl_state (cs ! i) = Arrived" "select_nonce (cl_nonce (cs ! i)) (cl_cutoff (cs ! i)) s"
| delete: "race_step (s, cs) (snd (delete_nonce (cl_nonce (cs ! i)) (cl_cutoff (cs ! i)) s),
              cs[i := (cs ! i)\<lparr>cl_state := Answered (fst (delete_nonce (cl_nonce (cs ! i)) (cl_cutoff (cs ! i)) s))\<rparr>])"
    if "i < length cs" "cl_state (cs ! i) = PassedSelect"
| sweep: "race_step (s, cs) (snd (cleanup_expired_nonces now s), cs)"

inductive_cases race_stepE: "race_step (s, cs) (s', cs')"

definition winners :: "string \<Rightarrow> caller list \<Rightarrow> nat" where
  "winners n cs = rowcount (\<lambda>c. cl_nonce c = n \<and> cl_state c = Answered True) cs"

definition race_inv :: "string \<Rightarrow> db \<times> caller list \<Rightarrow> bool" where
  "race_inv n st \<longleftrightarrow> wf_db (fst st)
     \<and> winners n (snd st) + (if nonce_present n (fst st) then 1 else 0) \<le> 1"

lemma rowcount_list_update:
  "i < length xs \<Longrightarrow> rowcount p (xs[i := y]) + (if p (xs ! i) then 1 else 0) = rowcount p xs + (if p y then 1 else 0)"
proof (induction xs arbitrary: i)
  case Nil
  then show ?case by simp
next
  case (Cons x xs)
  then show ?case by (cases i) auto
qed

lemma winners_answer:
  assumes "i < length cs" "cl_state (cs ! i) \<noteq> Answered True"
  shows "winners n (cs[i := (cs ! i)\<lparr>cl_state := st\<rparr>]) =
     winners n cs + (if cl_nonce (cs ! i) = n \<and> st = Answered True then 1 else 0)"
proof -
  let ?p = "\<lambda>c. cl_nonce c = n \<and> cl_state c = Answered True"
  have "rowcount ?p (cs[i := (cs ! i)\<lparr>cl_state := st\<rparr>]) + (if ?p (cs ! i) then 1 else 0)
      = rowcount ?p cs + (if ?p ((cs ! i)\<lparr>cl_state := st\<rparr>) then 1 else 0)"
    by (rule rowcount_list_update) (rule assms(1))
  with assms(2) show ?thesis unfolding winners_def by simp
qed

lemma race_inv_step: "race_step (s, cs) (s', cs') \<Longrightarrow> race_inv n (s, cs) \<Longrightarrow> race_inv n (s', cs')"
proof (erule race_stepE, goal_cases)
  case (1 i)
  then show ?case using winners_answer [of i cs n "Answered False"] by (simp add: race_inv_def)
next
  case (2 i)
  then show ?case using winners_answer [of i cs n PassedSelect] by (simp add: race_inv_def)
next
  case (3 i)
  let ?m = "cl_nonce (cs ! i)" let ?c = "cl_cutoff (cs ! i)"
  let ?d = "delete_nonce ?m ?c s"
  have wf: "wf_db s" using 3(1) by (simp add: race_inv_def)
  have "winners n cs' = winners n cs + (if ?m = n \<and> fst ?d then 1 else 0)"
    using winners_answer [of i cs n "Answered (fst ?d)"] 3 by simp
  moreover have "nonce_present n s" if "?m = n" "fst ?d"
    using that(2) delete_nonce_wins [OF wf, of ?m ?c] unfolding that(1) [symmetric] nonce_present_def nonce_live_def
    by (auto intro: rev_image_eqI)
  moreover have "\<not> nonce_present n (snd ?d)" if "?m = n" "fst ?d"
    using delete_nonce_gone [OF wf that(2)] that(1) by simp
  moreover have "nonce_present n (snd ?d) \<Longrightarrow> nonce_present n s"
    by (auto simp: nonce_present_def delete_nonce_frame)
  ultimately show ?case
    using 3 wf_delete_nonce [OF wf] by (cases "?m = n \<and> fst ?d") (auto simp: race_inv_def)
next
  case (4 now)
  have "nonce_present n s" if "nonce_present n s'"
    using that 4 by (auto simp: nonce_present_def cleanup_expired_nonces_def)
  then show ?case
    using 4 wf_cleanup_expired_nonces [of s now] by (auto simp: race_inv_def split: if_splits)
qed

lemma race_inv_reachable:
  assumes "race_step\<^sup>*\<^sup>* st st'" "race_inv n st"
  shows "race_inv n st'"
  using assms
proof (induction rule: rtranclp_induct)
  case base
  then show ?case by simp
next
  case (step y z)
  then show ?case by (metis race_inv_step prod.collapse)
qed

section \<open>Properties\<close>

text \<open>
  Replay protection, sequentially: over any sequence of redemption requests, at any
  clock readings, each nonce is accepted at most once.
\<close>

theorem nonce_single_use:
  assumes "wf_db s"
  shows "length (filter (\<lambda>(r, ok). snd r = n \<and> ok)
           (zip reqs (nonce_use.redeem_all reqs s))) \<le> 1"
  using nonce_use.at_most_one_win [OF assms, of n reqs] unfolding nonce_use.wins_def .

theorem nonce_single_use_witness:
  "let s = empty_db\<lparr>nonces := [\<lparr>nonce_text = ''n'', nonce_created_at = 0\<rparr>]\<rparr>;
       reqs = [(5, ''n''), (6, ''n'')]
   in length (filter (\<lambda>(r, ok). snd r = ''n'' \<and> ok) (zip reqs (nonce_use.redeem_all reqs s))) \<le> 1
      \<and> nonce_use.redeem_all reqs s = [True, False]"
  unfolding Let_def
  by (rule conjI, rule nonce_single_use, simp add: wf_db_def empty_db_def)
     (simp add: consume_nonce_def select_nonce_def delete_nonce_def nonce_live_def nonce_cutoff_def
        cutoff_before_eq now_iso_def micros_def NONCE_TTL_SECONDS_def empty_db_def)

text \<open>
  Replay protection under interleaving: however the reads and deletes of any number
  of concurrent callers and of the sweep interleave, at most one caller is told that its
  nonce was good.
\<close>

theorem nonce_race_one_winner:
  assumes "wf_db s" "\<forall>c \<in> set cs. cl_state c = Arrived" "race_step\<^sup>*\<^sup>* (s, cs) (s', cs')"
  shows "winners n cs' \<le> 1"
proof -
  have "winners n cs = 0" using assms(2) by (auto simp: winners_def rowcount_0)
  then have "race_inv n (s, cs)" using assms(1) by (simp add: race_inv_def)
  from race_inv_reachable [OF assms(3) this] show ?thesis by (simp add: race_inv_def)
qed

definition race_start :: "db \<times> caller list" where
  "race_start = (empty_db\<lparr>nonces := [\<lparr>nonce_text = ''n'', nonce_created_at = 0\<rparr>]\<rparr>,
     [\<lparr>cl_nonce = ''n'', cl_cutoff = 0, cl_state = Arrived\<rparr>,
      \<lparr>cl_nonce = ''n'', cl_cutoff = 0, cl_state = Arrived\<rparr>])"

lemmas race_eval = race_start_def select_nonce_def delete_nonce_def nonce_live_def empty_db_def

lemma race_run:
  "race_step\<^sup>*\<^sup>* race_start (empty_db,
     [\<lparr>cl_nonce = ''n'', cl_cutoff = 0, cl_state = Answered False\<rparr>,
      \<lparr>cl_nonce = ''n'', cl_cutoff = 0, cl_state = Answered True\<rparr>])"
proof -
  let ?c = "\<lambda>st. \<lparr>cl_nonce = ''n'', cl_cutoff = 0, cl_state = st\<rparr>"
  let ?s = "fst race_start"
  have 1: "race_step race_start (?s, [?c PassedSelect, ?c Arrived])"
    using select_hit [of 0 "snd race_start" ?s] by (simp add: race_eval)
  have 2: "race_step (?s, [?c PassedSelect, ?c Arrived]) (?s, [?c PassedSelect, ?c PassedSelect])"
    using select_hit [of 1 "[?c PassedSelect, ?c Arrived]" ?s] by (simp add: race_eval)
  have 3: "race_step (?s, [?c PassedSelect, ?c PassedSelect]) (empty_db, [?c PassedSelect, ?c (Answered True)])"
    using delete [of 1 "[?c PassedSelect, ?c PassedSelect]" ?s] by (simp add: race_eval)
  have 4: "race_step (empty_db, [?c PassedSelect, ?c (Answered True)]) (empty_db, [?c (Answered False), ?c (Answered True)])"
    using delete [of 0 "[?c PassedSelect, ?c (Answered True)]" empty_db] by (simp add: race_eval)
  show ?thesis using 1 2 3 4 by (meson converse_rtranclp_into_rtranclp rtranclp.rtrancl_refl)
qed

theorem nonce_race_one_winner_witness:
  "winners ''n'' [\<lparr>cl_nonce = ''n'', cl_cutoff = 0, cl_state = Answered False\<rparr>,
      \<lparr>cl_nonce = ''n'', cl_cutoff = 0, cl_state = Answered True\<rparr>] \<le> 1"
  by (rule nonce_race_one_winner [OF _ _ race_run [unfolded race_start_def]])
     (simp_all add: wf_db_def empty_db_def)

text \<open>
  The nonce lifecycle: a nonce that \<open>create_nonce\<close> returned is accepted at a later
  instant exactly when no more than the TTL has passed, whether or not the creation also
  collected garbage, and an intervening sweep at that instant does not change the answer;
  a clash of texts changes nothing.
\<close>

theorem nonce_lifecycle:
  assumes "wf_db s"
  shows "case create_nonce now n collect s of
      (Inr m, s') \<Rightarrow> m = n
        \<and> (fst (consume_nonce now' n s') \<longleftrightarrow> now_iso now' \<le> now_iso now + 1800)
        \<and> (fst (consume_nonce now' n (snd (cleanup_expired_nonces now' s')))
             \<longleftrightarrow> fst (consume_nonce now' n s'))
    | (Inl e, s') \<Rightarrow> s' = s"
proof (cases rule: create_nonce_cases [of n s now collect])
  case clash
  then show ?thesis by simp
next
  case (made rows)
  let ?new = "\<lparr>nonce_text = n, nonce_created_at = now_iso now\<rparr>"
  let ?s = "s\<lparr>nonces := rows\<rparr>"
  have wf: "wf_db ?s" using wf_create_nonce [OF assms, of now n collect] made(2) by simp
  have cut: "nonce_cutoff t = now_iso t - 1800" for t
    by (simp add: nonce_cutoff_def cutoff_before_eq NONCE_TTL_SECONDS_def)
  have "?new \<in> set (nonces s @ [?new])" by simp
  then have new: "?new \<in> set rows"
    using gc_nonces_keeps [of ?new "nonces s @ [?new]" now] unfolding made(3) Let_def by (simp add: cut)
  have sub: "set rows \<subseteq> insert ?new (set (nonces s))"
    using gc_nonces_subset [of now "nonces s @ [?new]"] unfolding made(3) Let_def
    by (cases collect) simp_all
  have only: "r = ?new" if "r \<in> set rows" "nonce_text r = n" for r
    using that sub made(1) by auto
  have iff: "fst (consume_nonce now' n ?s) \<longleftrightarrow> now_iso now' \<le> now_iso now + 1800"
  proof -
    have "(\<exists>r \<in> set rows. nonce_live n (nonce_cutoff now') r) \<longleftrightarrow> nonce_live n (nonce_cutoff now') ?new"
    proof
      assume "\<exists>r \<in> set rows. nonce_live n (nonce_cutoff now') r"
      then obtain r where r: "r \<in> set rows" "nonce_live n (nonce_cutoff now') r" ..
      from r(2) have "nonce_text r = n" by (simp add: nonce_live_def)
      with r show "nonce_live n (nonce_cutoff now') ?new" using only by metis
    qed (use new in blast)
    then show ?thesis unfolding consume_nonce_iff [OF wf] nonce_live_def cut by auto
  qed
  have "fst (consume_nonce now' n (snd (cleanup_expired_nonces now' ?s))) \<longleftrightarrow> fst (consume_nonce now' n ?s)"
    unfolding consume_nonce_iff [OF wf] consume_nonce_iff [OF wf_cleanup_expired_nonces [OF wf]]
    by (auto simp: cleanup_expired_nonces_def nonce_live_def)
  with made(2) iff show ?thesis by simp
qed

theorem nonce_lifecycle_witness:
  "case create_nonce 0 ''n'' True empty_db of
      (Inr m, s') \<Rightarrow> m = ''n''
        \<and> (fst (consume_nonce 1000000 ''n'' s') \<longleftrightarrow> now_iso 1000000 \<le> now_iso 0 + 1800)
        \<and> (fst (consume_nonce 1000000 ''n'' (snd (cleanup_expired_nonces 1000000 s')))
             \<longleftrightarrow> fst (consume_nonce 1000000 ''n'' s'))
    | (Inl e, s') \<Rightarrow> s' = empty_db"
  by (rule nonce_lifecycle [OF wf_empty])

end
