(* ===== verification/StoreAccounts.thy ===== *)
theory StoreAccounts
  imports StoreBase
begin

text \<open>
  Accounts: creation under the per-credential quota, lookup by key, deactivation and key
  rollover of \<open>src/src/acme_adcs_ra/store.py\<close>. A fresh \<open>uuid4\<close> is an argument.
\<close>

section \<open>Operations\<close>

text \<open>A write to the accounts table, with the primary key and the unique index enforced.\<close>

definition put_accounts :: "AccountRow list \<Rightarrow> db \<Rightarrow> store_error + db" where
  "put_accounts rows s =
     (if distinct (map acc_id rows)
         \<and> (idx_accounts_thumbprint s \<longrightarrow> distinct (filter (\<lambda>t. t \<noteq> None) (map acc_thumbprint rows)))
      then Inr (s\<lparr>accounts := rows\<rparr>) else Inl IntegrityError)"

definition thumbprint_of :: "ext \<Rightarrow> json \<Rightarrow> store_error + string" where
  "thumbprint_of x jwk =
     (case jwk_thumbprint (x_sha256 x) jwk of Inl e \<Rightarrow> Inl (JwkError e) | Inr t \<Rightarrow> Inr t)"

definition insert_account ::
  "ext \<Rightarrow> clock \<Rightarrow> string \<Rightarrow> json \<Rightarrow> string \<Rightarrow> AccountStatus \<Rightarrow> json list
     \<Rightarrow> (db, store_error, AccountRow) txn" where
  "insert_account x now account_id jwk eab_kid status contact s =
     rbind (thumbprint_of x jwk) (\<lambda>thumbprint.
       let row = \<lparr>acc_id = account_id, acc_status = status, acc_jwk = Some jwk, acc_eab_kid = eab_kid,
                  acc_contact = contact, acc_created_at = now_iso now, acc_thumbprint = Some thumbprint\<rparr>
       in rbind (put_accounts (accounts s @ [row]) s) (\<lambda>s'. Inr (row, s')))"

definition create_account ::
  "ext \<Rightarrow> clock \<Rightarrow> string \<Rightarrow> json \<Rightarrow> string \<Rightarrow> AccountStatus \<Rightarrow> json list
     \<Rightarrow> db \<Rightarrow> (store_error + AccountRow) \<times> db" where
  "create_account x now account_id jwk eab_kid status contact =
     with_conn (insert_account x now account_id jwk eab_kid status contact)"

definition kid_accounts :: "string \<Rightarrow> db \<Rightarrow> nat" where
  "kid_accounts kid s = rowcount (\<lambda>r. acc_eab_kid r = kid) (accounts s)"

definition create_account_txn ::
  "ext \<Rightarrow> clock \<Rightarrow> string \<Rightarrow> json \<Rightarrow> string \<Rightarrow> AccountStatus \<Rightarrow> json list \<Rightarrow> audit_args \<Rightarrow> nat
     \<Rightarrow> (db, store_error, AccountRow \<times> AuditRow) txn" where
  "create_account_txn x now account_id jwk eab_kid status contact audit max_accounts s =
     (let count = kid_accounts eab_kid s in
      if count \<ge> max_accounts then Inl (EabAccountLimitExceeded eab_kid max_accounts count)
      else rbind (insert_account x now account_id jwk eab_kid status contact s) (\<lambda>(row, s').
        let (event, s'') = record_audit_in_conn x now (audit\<lparr>ev_account := Some (acc_id row)\<rparr>) s'
        in Inr ((row, event), s'')))"

definition create_account_with_audit ::
  "ext \<Rightarrow> clock \<Rightarrow> string \<Rightarrow> json \<Rightarrow> string \<Rightarrow> AccountStatus \<Rightarrow> json list \<Rightarrow> audit_args \<Rightarrow> nat
     \<Rightarrow> db \<Rightarrow> (store_error + AccountRow \<times> AuditRow) \<times> db" where
  "create_account_with_audit x now account_id jwk eab_kid status contact audit max_accounts s =
     (if max_accounts < 1 then (Inl ValueError, s)
      else if ev_account audit \<noteq> None then (Inl ValueError, s)
      else with_conn (create_account_txn x now account_id jwk eab_kid status contact audit max_accounts) s)"

definition get_account :: "string \<Rightarrow> db \<Rightarrow> AccountRow option" where
  "get_account account_id s = find (\<lambda>r. acc_id r = account_id) (accounts s)"

definition get_account_by_jwk :: "ext \<Rightarrow> json \<Rightarrow> db \<Rightarrow> store_error + AccountRow option" where
  "get_account_by_jwk x jwk s =
     rbind (thumbprint_of x jwk) (\<lambda>t. Inr (find (\<lambda>r. acc_thumbprint r = Some t) (accounts s)))"

definition update_account_status :: "string \<Rightarrow> AccountStatus \<Rightarrow> db \<Rightarrow> bool \<times> db" where
  "update_account_status account_id status s =
     (let p = (\<lambda>r. acc_id r = account_id \<and> acc_status r = AcctVALID) in
      (rowcount p (accounts s) = 1,
       s\<lparr>accounts := upd_where p (\<lambda>r. r\<lparr>acc_status := status\<rparr>) (accounts s)\<rparr>))"

definition update_account_key_in_conn :: "string \<Rightarrow> json \<Rightarrow> string \<Rightarrow> db \<Rightarrow> store_error + db" where
  "update_account_key_in_conn account_id new_jwk thumbprint s =
     put_accounts (upd_where (\<lambda>r. acc_id r = account_id)
        (\<lambda>r. r\<lparr>acc_jwk := Some new_jwk, acc_thumbprint := Some thumbprint\<rparr>) (accounts s)) s"

definition update_account_key :: "ext \<Rightarrow> string \<Rightarrow> json \<Rightarrow> db \<Rightarrow> (store_error + unit) \<times> db" where
  "update_account_key x account_id new_jwk s =
     (case thumbprint_of x new_jwk of
        Inl e \<Rightarrow> (Inl e, s)
      | Inr t \<Rightarrow> with_conn (\<lambda>s. rbind (update_account_key_in_conn account_id new_jwk t s)
                                     (\<lambda>s'. Inr ((), s'))) s)"

text \<open>Successful rollovers recorded since the cutoff for accounts under one credential (the SQL join).\<close>

definition count_key_changes :: "string \<Rightarrow> timestamp \<Rightarrow> db \<Rightarrow> nat" where
  "count_key_changes kid cutoff s =
     length (concat (map (\<lambda>al. filter (\<lambda>a. aud_account_id al = Some (acc_id a) \<and> acc_eab_kid a = kid) (accounts s))
               (filter (\<lambda>al. aud_event_type al = ''account-key-changed'' \<and> aud_outcome al = ''success''
                              \<and> cutoff \<le> aud_timestamp al) (audit_log s))))"

definition rotate_key_txn ::
  "ext \<Rightarrow> clock \<Rightarrow> string \<Rightarrow> json \<Rightarrow> string \<Rightarrow> string \<Rightarrow> audit_args \<Rightarrow> nat option \<Rightarrow> nat
     \<Rightarrow> (db, store_error, AuditRow) txn" where
  "rotate_key_txn x now account_id new_jwk thumbprint expected_old audit window per_kid s =
     (case get_account account_id s of
        None \<Rightarrow> Inl AccountKeyStale
      | Some row \<Rightarrow>
          if (case acc_thumbprint row of None \<Rightarrow> ''None'' | Some t \<Rightarrow> t) \<noteq> expected_old
             \<or> acc_status row \<noteq> AcctVALID
          then Inl AccountKeyStale
          else rbind
            (if per_kid > 0 then
               (case window of
                  None \<Rightarrow> Inl ValueError
                | Some w \<Rightarrow>
                    if w < 1 then Inl ValueError
                    else let count = count_key_changes (acc_eab_kid row) (cutoff_before now w) s in
                         if count \<ge> per_kid
                         then Inl (KeyChangeRateLimitExceeded (acc_eab_kid row) per_kid count w)
                         else Inr ())
             else Inr ())
            (\<lambda>_.
              let p = (\<lambda>r. acc_id r = account_id \<and> acc_thumbprint r = Some expected_old
                           \<and> acc_status r = AcctVALID) in
              rbind (put_accounts (upd_where p
                       (\<lambda>r. r\<lparr>acc_jwk := Some new_jwk, acc_thumbprint := Some thumbprint\<rparr>) (accounts s)) s)
                (\<lambda>s'. if rowcount p (accounts s) \<noteq> 1 then Inl AccountKeyStale
                      else Inr (record_audit_in_conn x now (audit\<lparr>ev_account := Some account_id\<rparr>) s'))))"

definition update_account_key_with_audit ::
  "ext \<Rightarrow> clock \<Rightarrow> string \<Rightarrow> json \<Rightarrow> string \<Rightarrow> audit_args \<Rightarrow> nat option \<Rightarrow> nat
     \<Rightarrow> db \<Rightarrow> (store_error + AuditRow) \<times> db" where
  "update_account_key_with_audit x now account_id new_jwk expected_old audit window per_kid s =
     (if ev_account audit \<noteq> None then (Inl ValueError, s)
      else case thumbprint_of x new_jwk of
          Inl e \<Rightarrow> (Inl e, s)
        | Inr thumbprint \<Rightarrow>
            with_conn (rotate_key_txn x now account_id new_jwk thumbprint expected_old audit window per_kid) s)"

definition eab_kids_with_accounts :: "string list \<Rightarrow> db \<Rightarrow> string set" where
  "eab_kids_with_accounts kids s =
     (if kids = [] then {} else set (filter (\<lambda>k. k \<in> set kids) (map acc_eab_kid (accounts s))))"

section \<open>Inversion\<close>

lemma put_accounts_ok:
  "put_accounts rows s = Inr s' \<longleftrightarrow>
     s' = s\<lparr>accounts := rows\<rparr> \<and> distinct (map acc_id rows)
     \<and> (idx_accounts_thumbprint s \<longrightarrow> distinct (filter (\<lambda>t. t \<noteq> None) (map acc_thumbprint rows)))"
  by (auto simp: put_accounts_def)

lemma insert_account_ok:
  assumes "insert_account x now i jwk kid st contact s = Inr (row, s')"
  shows "acc_id row = i \<and> acc_eab_kid row = kid \<and> acc_status row = st \<and> acc_jwk row = Some jwk
    \<and> thumbprint_of x jwk = Inr (the (acc_thumbprint row)) \<and> acc_thumbprint row \<noteq> None
    \<and> s' = s\<lparr>accounts := accounts s @ [row]\<rparr> \<and> distinct (map acc_id (accounts s @ [row]))
    \<and> (idx_accounts_thumbprint s \<longrightarrow>
         distinct (filter (\<lambda>t. t \<noteq> None) (map acc_thumbprint (accounts s @ [row]))))"
  using assms by (auto simp: insert_account_def Let_def put_accounts_ok)

lemma create_account_txn_ok:
  assumes "create_account_txn x now i jwk kid st contact audit m s = Inr ((row, ev), s')"
  shows "kid_accounts kid s < m \<and>
    (\<exists>s1. insert_account x now i jwk kid st contact s = Inr (row, s1)
        \<and> (ev, s') = record_audit_in_conn x now (audit\<lparr>ev_account := Some (acc_id row)\<rparr>) s1)"
  using assms by (auto simp: create_account_txn_def Let_def case_prod_beta split: if_splits)

lemma create_account_with_audit_ok:
  assumes "create_account_with_audit x now i jwk kid st contact audit m s = (Inr (row, ev), s')"
  shows "kid_accounts kid s < m \<and>
    (\<exists>s1. insert_account x now i jwk kid st contact s = Inr (row, s1)
        \<and> (ev, s') = record_audit_in_conn x now (audit\<lparr>ev_account := Some (acc_id row)\<rparr>) s1)"
  using assms create_account_txn_ok
  by (auto simp: create_account_with_audit_def with_conn_commit split: if_splits)

lemma create_account_with_audit_fails:
  "create_account_with_audit x now i jwk kid st contact audit m s = (Inl e, s') \<Longrightarrow> s' = s"
  by (auto simp: create_account_with_audit_def dest: with_conn_rollback split: if_splits)

lemma rotate_key_txn_ok:
  assumes "rotate_key_txn x now i jwk t old audit window per_kid s = Inr (ev, s')"
  obtains row where "get_account i s = Some row" "acc_status row = AcctVALID" "acc_thumbprint row = Some old"
    "per_kid = 0 \<or> (\<exists>w. window = Some w \<and> 1 \<le> w \<and>
        count_key_changes (acc_eab_kid row) (cutoff_before now w) s < per_kid)"
    "distinct (map acc_id (accounts s))"
    "idx_accounts_thumbprint s \<longrightarrow> distinct (filter (\<lambda>t. t \<noteq> None) (map acc_thumbprint (accounts s')))"
    "accounts s' = upd_where (\<lambda>r. acc_id r = i) (\<lambda>r. r\<lparr>acc_jwk := Some jwk, acc_thumbprint := Some t\<rparr>) (accounts s)"
    "s' = snd (record_audit_in_conn x now (audit\<lparr>ev_account := Some i\<rparr>) (s\<lparr>accounts := accounts s'\<rparr>))"
    "ev = fst (record_audit_in_conn x now (audit\<lparr>ev_account := Some i\<rparr>) (s\<lparr>accounts := accounts s'\<rparr>))"
proof -
  define p where "p = (\<lambda>r :: AccountRow. acc_id r = i \<and> acc_thumbprint r = Some old \<and> acc_status r = AcctVALID)"
  define f where "f = (\<lambda>r :: AccountRow. r\<lparr>acc_jwk := Some jwk, acc_thumbprint := Some t\<rparr>)"
  from assms obtain row s1 where row: "get_account i s = Some row" "acc_status row = AcctVALID"
    and rate: "per_kid = 0 \<or> (\<exists>w. window = Some w \<and> 1 \<le> w \<and>
        count_key_changes (acc_eab_kid row) (cutoff_before now w) s < per_kid)"
    and put: "put_accounts (upd_where p f (accounts s)) s = Inr s1"
    and cnt: "rowcount p (accounts s) = 1"
    and rec: "record_audit_in_conn x now (audit\<lparr>ev_account := Some i\<rparr>) s1 = (ev, s')"
    by (auto simp: rotate_key_txn_def Let_def p_def f_def not_le not_less_eq_eq
        split: option.splits if_splits)
  have ids: "map acc_id (upd_where p f (accounts s)) = map acc_id (accounts s)"
    by (simp add: map_upd_where f_def)
  have s1: "s1 = s\<lparr>accounts := upd_where p f (accounts s)\<rparr>" and d: "distinct (map acc_id (accounts s))"
    using put ids unfolding put_accounts_ok by simp_all
  have "\<And>r. p r \<Longrightarrow> acc_id r = i" by (simp add: p_def)
  from rowcount_by_key [OF d this] have "rowcount p (accounts s) = (if p row then 1 else 0)"
    using row(1) unfolding get_account_def by simp
  with cnt have prow: "p row" by (metis zero_neq_one)
  have ri: "row \<in> set (accounts s)" "acc_id row = i"
    using row(1) find_Some_in unfolding get_account_def by fastforce+
  have only: "r = row" if "r \<in> set (accounts s)" "acc_id r = i" for r
    using find_key_unique [OF d that(1)] find_key_unique [OF d ri(1)] that(2) ri(2) by simp
  have acc: "upd_where p f (accounts s) = upd_where (\<lambda>r. acc_id r = i) f (accounts s)"
    using only prow unfolding upd_where_def p_def by (auto intro!: map_cong)
  have s': "accounts s' = upd_where p f (accounts s)"
    using rec s1 record_audit_frame(1) [of x now "audit\<lparr>ev_account := Some i\<rparr>" s1] by simp
  show thesis
  proof (rule that [OF row _ rate d])
    show "acc_thumbprint row = Some old" using prow by (simp add: p_def)
    show "idx_accounts_thumbprint s \<longrightarrow> distinct (filter (\<lambda>t. t \<noteq> None) (map acc_thumbprint (accounts s')))"
      using put s' unfolding put_accounts_ok by simp
    show "accounts s' = upd_where (\<lambda>r. acc_id r = i) (\<lambda>r. r\<lparr>acc_jwk := Some jwk, acc_thumbprint := Some t\<rparr>) (accounts s)"
      using s' acc by (simp add: f_def)
    show "s' = snd (record_audit_in_conn x now (audit\<lparr>ev_account := Some i\<rparr>) (s\<lparr>accounts := accounts s'\<rparr>))"
      "ev = fst (record_audit_in_conn x now (audit\<lparr>ev_account := Some i\<rparr>) (s\<lparr>accounts := accounts s'\<rparr>))"
      using rec s1 s' by simp_all
  qed
qed

lemma rotate_with_audit_cases:
  assumes "update_account_key_with_audit x now i jwk old audit window per_kid s = (r, s')"
  obtains (rotated) ev t where "r = Inr ev" "thumbprint_of x jwk = Inr t"
      "rotate_key_txn x now i jwk t old audit window per_kid s = Inr (ev, s')"
  | (refused) e where "r = Inl e" "s' = s"
proof (cases r)
  case (Inl e)
  with assms have "s' = s"
    by (auto simp: update_account_key_with_audit_def dest: with_conn_rollback
        split: if_splits sum.splits)
  with Inl show thesis by (rule refused)
next
  case (Inr ev)
  with assms obtain t where "thumbprint_of x jwk = Inr t"
    "rotate_key_txn x now i jwk t old audit window per_kid s = Inr (ev, s')"
    by (auto simp: update_account_key_with_audit_def with_conn_commit split: if_splits sum.splits)
  with Inr show thesis by (rule rotated)
qed

lemma upd_account_key_row:
  "get_account j (s\<lparr>accounts := upd_where (\<lambda>r. acc_id r = i) (\<lambda>r. r\<lparr>acc_jwk := k, acc_thumbprint := t\<rparr>) (accounts s)\<rparr>)
     = map_option (\<lambda>r. if j = i then r\<lparr>acc_jwk := k, acc_thumbprint := t\<rparr> else r) (get_account j s)"
  unfolding get_account_def by (simp add: find_upd_where) (auto simp: map_option_case dest: find_Some_in split: option.splits)

section \<open>Well-formedness\<close>

lemma wf_accounts_upd:
  assumes "wf_db s" "distinct (map acc_id rows)"
    "idx_accounts_thumbprint s \<longrightarrow> distinct (filter (\<lambda>t. t \<noteq> None) (map acc_thumbprint rows))"
  shows "wf_db (s\<lparr>accounts := rows\<rparr>)"
  using assms by (simp add: wf_db_def)

lemma put_accounts_wf: "wf_db s \<Longrightarrow> put_accounts rows s = Inr s' \<Longrightarrow> wf_db s'"
  unfolding put_accounts_ok by (auto intro: wf_accounts_upd)

lemma wf_create_account: "wf_db s \<Longrightarrow> wf_db (snd (create_account x now i jwk kid st contact s))"
  by (auto simp: create_account_def with_conn_def insert_account_def Let_def put_accounts_wf
      split: sum.split dest: put_accounts_wf)

lemma wf_create_account_with_audit:
  assumes "wf_db s"
  shows "wf_db (snd (create_account_with_audit x now i jwk kid st contact audit m s))"
proof (cases "create_account_with_audit x now i jwk kid st contact audit m s")
  case (Pair r s')
  show ?thesis
  proof (cases r)
    case (Inl e)
    with Pair assms show ?thesis using create_account_with_audit_fails by (metis snd_conv)
  next
    case (Inr re)
    obtain row ev where re: "re = (row, ev)" by fastforce
    from create_account_with_audit_ok [of x now i jwk kid st contact audit m s row ev s'] Pair Inr re
    obtain s1 where s1: "insert_account x now i jwk kid st contact s = Inr (row, s1)"
      "(ev, s') = record_audit_in_conn x now (audit\<lparr>ev_account := Some (acc_id row)\<rparr>) s1" by blast
    have "wf_db s1"
      using insert_account_ok [OF s1(1)] assms by (auto intro: wf_accounts_upd)
    then show ?thesis using s1(2) Pair wf_record_audit by (metis snd_conv)
  qed
qed

lemma wf_update_account_status: "wf_db s \<Longrightarrow> wf_db (snd (update_account_status i st s))"
  by (simp add: update_account_status_def Let_def wf_db_def map_upd_where)

lemma wf_update_account_key: "wf_db s \<Longrightarrow> wf_db (snd (update_account_key x i jwk s))"
  by (auto simp: update_account_key_def with_conn_def update_account_key_in_conn_def
      split: sum.split dest: put_accounts_wf)

lemma wf_update_account_key_with_audit:
  assumes "wf_db s"
  shows "wf_db (snd (update_account_key_with_audit x now i jwk old audit window per_kid s))"
proof -
  obtain r s' where eq: "update_account_key_with_audit x now i jwk old audit window per_kid s = (r, s')"
    by fastforce
  from eq show ?thesis
  proof (cases rule: rotate_with_audit_cases)
    case (rotated ev t)
    from rotated(3) show ?thesis
    proof (cases rule: rotate_key_txn_ok)
      case (1 row)
      have "map acc_id (accounts s') = map acc_id (accounts s)"
        unfolding 1(7) by (simp add: map_upd_where)
      then have "wf_db (s\<lparr>accounts := accounts s'\<rparr>)"
        using 1 assms by (intro wf_accounts_upd) simp_all
      then show ?thesis using 1(8) eq wf_record_audit by (metis snd_conv)
    qed
  next
    case (refused e)
    with eq assms show ?thesis by simp
  qed
qed

section \<open>Properties\<close>

text \<open>
  Account creation is all or nothing: on success exactly one account row and exactly
  one audit row naming that account are added and nothing else changes; on any failure,
  the quota included, the database is untouched.
\<close>

theorem create_account_atomic:
  "case create_account_with_audit x now i jwk kid st contact audit m s of
     (Inr (row, ev), s') \<Rightarrow>
        accounts s' = accounts s @ [row] \<and> audit_log s' = audit_log s @ [ev]
        \<and> aud_account_id ev = Some (acc_id row) \<and> acc_id row = i \<and> acc_eab_kid row = kid
        \<and> orders s' = orders s \<and> certificates s' = certificates s \<and> nonces s' = nonces s
   | (Inl e, s') \<Rightarrow> s' = s"
proof (cases "create_account_with_audit x now i jwk kid st contact audit m s")
  case (Pair r s')
  show ?thesis
  proof (cases r)
    case (Inl e)
    then show ?thesis
      using Pair create_account_with_audit_fails [of x now i jwk kid st contact audit m s e s'] by simp
  next
    case (Inr re)
    obtain row ev where re: "re = (row, ev)" by fastforce
    from create_account_with_audit_ok [of x now i jwk kid st contact audit m s row ev s'] Pair Inr re
    obtain s1 where s1: "insert_account x now i jwk kid st contact s = Inr (row, s1)"
      "(ev, s') = record_audit_in_conn x now (audit\<lparr>ev_account := Some (acc_id row)\<rparr>) s1" by blast
    then have "ev = fst (record_audit_in_conn x now (audit\<lparr>ev_account := Some (acc_id row)\<rparr>) s1)"
      "s' = snd (record_audit_in_conn x now (audit\<lparr>ev_account := Some (acc_id row)\<rparr>) s1)"
      by (metis fst_conv, metis snd_conv)
    with insert_account_ok [OF s1(1)] Pair Inr re show ?thesis by simp
  qed
qed

lemma kid_accounts_append:
  "kid_accounts kid (s\<lparr>accounts := accounts s @ [row]\<rparr>) =
     kid_accounts kid s + (if acc_eab_kid row = kid then 1 else 0)"
  by (simp add: kid_accounts_def)

text \<open>
  The lifetime quota holds: a creation never takes the number of accounts under any
  credential past the larger of the quota and what it already was, and a credential at its
  quota gets no further account.
\<close>

theorem account_quota:
  "kid_accounts k (snd (create_account_with_audit x now i jwk kid st contact audit m s))
     \<le> max m (kid_accounts k s)
   \<and> (kid_accounts kid s < m
        \<or> snd (create_account_with_audit x now i jwk kid st contact audit m s) = s)"
proof (cases "create_account_with_audit x now i jwk kid st contact audit m s")
  case (Pair r s')
  show ?thesis
  proof (cases r)
    case (Inl e)
    then show ?thesis
      using Pair create_account_with_audit_fails [of x now i jwk kid st contact audit m s e s'] by simp
  next
    case (Inr re)
    obtain row ev where re: "re = (row, ev)" by fastforce
    from create_account_with_audit_ok [of x now i jwk kid st contact audit m s row ev s'] Pair Inr re
    obtain s1 where lt: "kid_accounts kid s < m"
      and s1: "insert_account x now i jwk kid st contact s = Inr (row, s1)"
      "(ev, s') = record_audit_in_conn x now (audit\<lparr>ev_account := Some (acc_id row)\<rparr>) s1" by blast
    have "s' = snd (record_audit_in_conn x now (audit\<lparr>ev_account := Some (acc_id row)\<rparr>) s1)"
      using s1(2) by (metis snd_conv)
    then have "kid_accounts k s' = kid_accounts k s + (if kid = k then 1 else 0)"
      using insert_account_ok [OF s1(1)] by (simp add: kid_accounts_def)
    with lt Pair show ?thesis by auto
  qed
qed

text \<open>
  A key rollover succeeds only for an account that is valid and whose stored key is
  still the one the request was signed with, and only under the credential's rate limit;
  it then replaces the key of that account alone and adds one audit row. Anything else
  leaves the database as it was. Unless the new key has the old thumbprint, the old key is
  dead: a second rollover that expects it is refused as stale.
\<close>

theorem key_rollover:
  "case update_account_key_with_audit x now i jwk old audit window per_kid s of
     (Inr ev, s') \<Rightarrow>
       (\<exists>row t. get_account i s = Some row \<and> acc_status row = AcctVALID \<and> acc_thumbprint row = Some old
         \<and> thumbprint_of x jwk = Inr t
         \<and> (per_kid = 0 \<or> (\<exists>w. window = Some w \<and> 1 \<le> w \<and>
                count_key_changes (acc_eab_kid row) (cutoff_before now w) s < per_kid))
         \<and> (\<forall>j. get_account j s' = map_option (\<lambda>r. if j = i then r\<lparr>acc_jwk := Some jwk, acc_thumbprint := Some t\<rparr>
                                                      else r) (get_account j s))
         \<and> audit_log s' = audit_log s @ [ev] \<and> aud_account_id ev = Some i
         \<and> (t = old \<or> rotate_key_txn x now' i jwk' t' old audit' window' per_kid' s' = Inl AccountKeyStale))
   | (Inl e, s') \<Rightarrow> s' = s"
proof -
  obtain r s' where eq: "update_account_key_with_audit x now i jwk old audit window per_kid s = (r, s')"
    by fastforce
  from eq show ?thesis
  proof (cases rule: rotate_with_audit_cases)
    case (rotated ev t)
    from rotated(3) show ?thesis
    proof (cases rule: rotate_key_txn_ok)
      case (1 row)
      have get: "get_account j s' = map_option (\<lambda>r. if j = i then r\<lparr>acc_jwk := Some jwk, acc_thumbprint := Some t\<rparr>
                                                      else r) (get_account j s)" for j
        using upd_account_key_row [where j = j and s = s and i = i and k = "Some jwk" and t = "Some t"] 1(7) by (simp add: get_account_def)
      have log: "audit_log s' = audit_log s @ [ev]" "aud_account_id ev = Some i"
        by (subst 1(8), simp add: 1(9) [symmetric]) (simp add: 1(9))
      have "t = old \<or> rotate_key_txn x now' i jwk' t' old audit' window' per_kid' s' = Inl AccountKeyStale"
        using get [of i] 1(1) by (auto simp: rotate_key_txn_def)
      with 1(1-4) rotated get log eq show ?thesis by auto
    qed
  next
    case (refused e)
    with eq show ?thesis by simp
  qed
qed

end
