(* ===== verification/StoreOrders.thy ===== *)
theory StoreOrders
  imports StoreAccounts
begin

text \<open>
  Orders, authorizations and challenges of \<open>src/src/acme_adcs_ra/store.py\<close>: the processing
  lease, the compare-and-swap transitions of the order status, the rate-limited creation
  of an order with its authorizations, and the expiry sweep. Each transition is one
  conditional \<open>UPDATE\<close>; it answers whether exactly one row changed.
\<close>

section \<open>Operations\<close>

definition upd_orders :: "(OrderRow \<Rightarrow> bool) \<Rightarrow> (OrderRow \<Rightarrow> OrderRow) \<Rightarrow> db \<Rightarrow> db" where
  "upd_orders p f s = s\<lparr>orders := upd_where p f (orders s)\<rparr>"

definition cas_orders :: "(OrderRow \<Rightarrow> bool) \<Rightarrow> (OrderRow \<Rightarrow> OrderRow) \<Rightarrow> db \<Rightarrow> bool \<times> db" where
  "cas_orders p f s = (rowcount p (orders s) = 1, upd_orders p f s)"

definition processing_cas :: "nat option \<Rightarrow> OrderRow \<Rightarrow> bool" where
  "processing_cas expected_generation r =
     (case expected_generation of None \<Rightarrow> True | Some g \<Rightarrow> ord_processing_generation r = g)"

definition get_order :: "string \<Rightarrow> db \<Rightarrow> OrderRow option" where
  "get_order order_id s = find (\<lambda>r. ord_id r = order_id) (orders s)"

definition acquire_processing_lease :: "clock \<Rightarrow> string \<Rightarrow> db \<Rightarrow> nat option \<times> db" where
  "acquire_processing_lease now order_id s =
     (let (won, s') = cas_orders (\<lambda>r. ord_id r = order_id \<and> ord_status r = READY)
            (\<lambda>r. r\<lparr>ord_status := PROCESSING, ord_updated_at := now_iso now,
                   ord_processing_started_at := Some (now_iso now),
                   ord_processing_generation := Suc (ord_processing_generation r)\<rparr>) s
      in if \<not> won then (None, s')
         else (map_option ord_processing_generation (get_order order_id s'), s'))"

definition holds_processing_lease :: "string \<Rightarrow> nat \<Rightarrow> db \<Rightarrow> bool" where
  "holds_processing_lease order_id generation s =
     (case get_order order_id s of
        None \<Rightarrow> False
      | Some r \<Rightarrow> ord_status r = PROCESSING \<and> ord_processing_generation r = generation)"

definition transition_pending_to_ready :: "clock \<Rightarrow> string \<Rightarrow> db \<Rightarrow> bool \<times> db" where
  "transition_pending_to_ready now order_id =
     cas_orders (\<lambda>r. ord_id r = order_id \<and> ord_status r = PENDING)
       (\<lambda>r. r\<lparr>ord_status := READY, ord_processing_started_at := None, ord_updated_at := now_iso now\<rparr>)"

definition transition_processing_to_ready :: "clock \<Rightarrow> string \<Rightarrow> nat option \<Rightarrow> db \<Rightarrow> bool \<times> db" where
  "transition_processing_to_ready now order_id gen =
     cas_orders (\<lambda>r. ord_id r = order_id \<and> ord_status r = PROCESSING \<and> processing_cas gen r)
       (\<lambda>r. r\<lparr>ord_status := READY, ord_processing_started_at := None, ord_updated_at := now_iso now\<rparr>)"

definition transition_processing_to_valid :: "clock \<Rightarrow> string \<Rightarrow> string \<Rightarrow> nat option \<Rightarrow> db \<Rightarrow> bool \<times> db" where
  "transition_processing_to_valid now order_id url gen =
     cas_orders (\<lambda>r. ord_id r = order_id \<and> ord_status r = PROCESSING \<and> processing_cas gen r)
       (\<lambda>r. r\<lparr>ord_status := VALID, ord_certificate_url := Some url,
              ord_processing_started_at := None, ord_updated_at := now_iso now\<rparr>)"

definition reclaim_processing_order ::
  "ext \<Rightarrow> clock \<Rightarrow> string \<Rightarrow> string option \<Rightarrow> nat option \<Rightarrow> string option \<Rightarrow> audit_args
     \<Rightarrow> db \<Rightarrow> (bool \<times> AuditRow option) \<times> db" where
  "reclaim_processing_order x now order_id to_valid gen pending_req audit s =
     (let (won, s1) = (case to_valid of
              Some url \<Rightarrow> transition_processing_to_valid now order_id url gen s
            | None \<Rightarrow> transition_processing_to_ready now order_id gen s)
      in if \<not> won then ((False, None), s1)
         else
           let s2 = (case pending_req of
                Some req \<Rightarrow> if req \<noteq> [] then
                    upd_orders (\<lambda>r. ord_id r = order_id \<and> ord_pending_ca_request_id r = Some req)
                      (\<lambda>r. r\<lparr>ord_pending_ca_request_id := None, ord_updated_at := now_iso now\<rparr>) s1
                  else s1
              | None \<Rightarrow> s1);
               (event, s3) = record_audit_in_conn x now (audit\<lparr>ev_order := Some order_id\<rparr>) s2
           in ((True, Some event), s3))"

definition transition_active_to_invalid :: "clock \<Rightarrow> string \<Rightarrow> db \<Rightarrow> bool \<times> db" where
  "transition_active_to_invalid now order_id =
     cas_orders (\<lambda>r. ord_id r = order_id \<and> ord_status r \<in> {PENDING, READY})
       (\<lambda>r. r\<lparr>ord_status := INVALID, ord_updated_at := now_iso now\<rparr>)"

text \<open>The age in microseconds; the column is in whole seconds.\<close>

definition processing_age_seconds :: "clock \<Rightarrow> string \<Rightarrow> db \<Rightarrow> int option" where
  "processing_age_seconds now order_id s =
     (case get_order order_id s of
        None \<Rightarrow> None
      | Some r \<Rightarrow> map_option (\<lambda>t. now - t * micros) (ord_processing_started_at r))"

definition transition_processing_to_invalid :: "clock \<Rightarrow> string \<Rightarrow> nat option \<Rightarrow> db \<Rightarrow> bool \<times> db" where
  "transition_processing_to_invalid now order_id gen =
     cas_orders (\<lambda>r. ord_id r = order_id \<and> ord_status r = PROCESSING \<and> processing_cas gen r)
       (\<lambda>r. r\<lparr>ord_status := INVALID, ord_updated_at := now_iso now\<rparr>)"

definition transition_to_revoked :: "clock \<Rightarrow> string \<Rightarrow> db \<Rightarrow> bool \<times> db" where
  "transition_to_revoked now order_id =
     cas_orders (\<lambda>r. ord_id r = order_id \<and> ord_status r \<in> {VALID, PROCESSING})
       (\<lambda>r. r\<lparr>ord_status := REVOKED, ord_updated_at := now_iso now\<rparr>)"

definition record_pending_ca_request :: "clock \<Rightarrow> string \<Rightarrow> string \<Rightarrow> nat \<Rightarrow> db \<Rightarrow> bool \<times> db" where
  "record_pending_ca_request now order_id req_id gen =
     cas_orders (\<lambda>r. ord_id r = order_id \<and> ord_processing_generation r = gen)
       (\<lambda>r. r\<lparr>ord_pending_ca_request_id := Some req_id, ord_updated_at := now_iso now\<rparr>)"

definition clear_pending_ca_request :: "clock \<Rightarrow> string \<Rightarrow> string \<Rightarrow> db \<Rightarrow> bool \<times> db" where
  "clear_pending_ca_request now order_id req_id =
     cas_orders (\<lambda>r. ord_id r = order_id \<and> ord_pending_ca_request_id r = Some req_id)
       (\<lambda>r. r\<lparr>ord_pending_ca_request_id := None, ord_updated_at := now_iso now\<rparr>)"

text \<open>Newest first; \<open>sort_key\<close> is stable, so \<open>rev\<close> after it puts later rows of one second first.\<close>

definition list_orders_by_status :: "OrderStatus \<Rightarrow> nat \<Rightarrow> db \<Rightarrow> OrderRow list" where
  "list_orders_by_status status limit s =
     take limit (rev (sort_key ord_created_at (filter (\<lambda>r. ord_status r = status) (orders s))))"

text \<open>Newest first, then by descending id.\<close>

definition list_orders_by_account :: "string \<Rightarrow> nat \<Rightarrow> db \<Rightarrow> OrderRow list" where
  "list_orders_by_account account_id limit s =
     take limit (rev (sort_key ord_created_at (sort_key ord_id
       (filter (\<lambda>r. ord_account_id r = account_id) (orders s)))))"

definition kid_orders_since :: "string \<Rightarrow> timestamp \<Rightarrow> db \<Rightarrow> nat" where
  "kid_orders_since kid cutoff s =
     length (concat (map (\<lambda>ord. filter (\<lambda>a. ord_account_id ord = acc_id a \<and> acc_eab_kid a = kid) (accounts s))
               (filter (\<lambda>ord. cutoff \<le> ord_created_at ord) (orders s))))"

definition orders_since :: "timestamp \<Rightarrow> db \<Rightarrow> nat" where
  "orders_since cutoff s = rowcount (\<lambda>ord. cutoff \<le> ord_created_at ord) (orders s)"

definition count_recent_orders_by_kid :: "clock \<Rightarrow> string \<Rightarrow> nat \<Rightarrow> db \<Rightarrow> nat" where
  "count_recent_orders_by_kid now kid window s = kid_orders_since kid (cutoff_before now window) s"

definition count_all_recent_orders :: "clock \<Rightarrow> nat \<Rightarrow> db \<Rightarrow> nat" where
  "count_all_recent_orders now window s = orders_since (cutoff_before now window) s"

text \<open>The sweep: the ids read first, then updated in batches of at most 900.\<close>

fun batches :: "nat \<Rightarrow> 'a list \<Rightarrow> 'a list list" where
  "batches k [] = []"
| "batches k (x # xs) = (if k = 0 then [] else take k (x # xs) # batches k (drop k (x # xs)))"

definition sweep_batch :: "clock \<Rightarrow> string list \<Rightarrow> nat \<times> db \<Rightarrow> nat \<times> db" where
  "sweep_batch now batch = (\<lambda>(total, s).
     let p = (\<lambda>r. ord_id r \<in> set batch \<and> ord_status r \<in> {PENDING, READY}) in
     (total + rowcount p (orders s),
      upd_orders p (\<lambda>r. r\<lparr>ord_status := INVALID, ord_updated_at := now_iso now\<rparr>) s))"

definition sweep_expired_orders :: "clock \<Rightarrow> db \<Rightarrow> nat \<times> db" where
  "sweep_expired_orders now s =
     (let rows = filter (\<lambda>r. ord_status r \<in> {PENDING, READY}) (orders s);
          expired_ids = map ord_id (filter (\<lambda>r. is_expired (ord_expires r) now) rows)
      in fold (sweep_batch now) (batches 900 expired_ids) (0, s))"

text \<open>
  The creation. \<open>fresh i\<close> gives the authorization id, challenge id and token drawn for the
  \<open>i\<close>-th identifier; the three URL callbacks are arguments, as in the code.
\<close>

record url_fns =
  challenge_url_fn :: "string \<Rightarrow> string"
  authz_url_fn :: "string \<Rightarrow> string"
  finalize_url_fn :: "string \<Rightarrow> string"

definition check_order_limits ::
  "clock \<Rightarrow> string \<Rightarrow> nat option \<Rightarrow> nat \<Rightarrow> nat \<Rightarrow> db \<Rightarrow> store_error + unit" where
  "check_order_limits now account_id window per_kid global s =
     (if per_kid > 0 \<or> global > 0 then
        (case window of
           None \<Rightarrow> Inl ValueError
         | Some w \<Rightarrow>
             if w < 1 then Inl ValueError
             else
               let cutoff = cutoff_before now w in
               (case get_account account_id s of
                  None \<Rightarrow> Inl ValueError
                | Some acct \<Rightarrow>
                    rbind (if per_kid > 0 then
                             let count = kid_orders_since (acc_eab_kid acct) cutoff s in
                             if count \<ge> per_kid
                             then Inl (OrderRateLimitExceeded ''per-account'' per_kid count w (Some (acc_eab_kid acct)))
                             else Inr ()
                           else Inr ())
                      (\<lambda>_. if global > 0 then
                             let count = orders_since cutoff s in
                             if count \<ge> global then Inl (OrderRateLimitExceeded ''global'' global count w None)
                             else Inr ()
                           else Inr ())))
      else Inr ())"

definition put_order :: "OrderRow \<Rightarrow> db \<Rightarrow> store_error + db" where
  "put_order row s = (if ord_id row \<in> ord_id ` set (orders s) then Inl IntegrityError
                      else Inr (s\<lparr>orders := orders s @ [row]\<rparr>))"

definition put_challenge :: "ChallengeRow \<Rightarrow> db \<Rightarrow> store_error + db" where
  "put_challenge row s = (if ch_id row \<in> ch_id ` set (challenges s) then Inl IntegrityError
                          else Inr (s\<lparr>challenges := challenges s @ [row]\<rparr>))"

definition put_authz :: "AuthzRow \<Rightarrow> db \<Rightarrow> store_error + db" where
  "put_authz row s = (if az_id row \<in> az_id ` set (authorizations s) then Inl IntegrityError
                      else Inr (s\<lparr>authorizations := authorizations s @ [row]\<rparr>))"

fun insert_authzs ::
  "url_fns \<Rightarrow> (nat \<Rightarrow> string \<times> string \<times> string) \<Rightarrow> string \<Rightarrow> string \<Rightarrow> timestamp \<Rightarrow> nat
     \<Rightarrow> (string \<times> string) list \<Rightarrow> (db, store_error, string list) txn" where
  "insert_authzs u fresh account_id order_id expires i [] s = Inr ([], s)"
| "insert_authzs u fresh account_id order_id expires i (ident # idents) s =
     (let (authz_id, challenge_id, token) = fresh i in
      rbind (put_challenge \<lparr>ch_id = challenge_id, ch_authz_id = authz_id, ch_type = ''http-01'',
                ch_status = ''pending'', ch_token = token, ch_url = challenge_url_fn u challenge_id,
                ch_validated_at = None\<rparr> s) (\<lambda>s1.
      rbind (put_authz \<lparr>az_id = authz_id, az_account_id = account_id, az_order_id = order_id,
                az_identifier = ident, az_status = ''pending'', az_expires = expires\<rparr> s1) (\<lambda>s2.
      rbind (insert_authzs u fresh account_id order_id expires (Suc i) idents s2) (\<lambda>(urls, s3).
        Inr (authz_url_fn u authz_id # urls, s3)))))"

definition new_order_row :: "clock \<Rightarrow> nat \<Rightarrow> url_fns \<Rightarrow> string \<Rightarrow> string \<Rightarrow> (string \<times> string) list \<Rightarrow> OrderRow" where
  "new_order_row now expiry u order_id account_id idents =
     \<lparr>ord_id = order_id, ord_account_id = account_id, ord_status = PENDING,
      ord_identifiers = idents, ord_authorizations = [], ord_finalize_url = finalize_url_fn u order_id,
      ord_certificate_url = None, ord_expires = now_iso_plus now expiry,
      ord_created_at = now_iso now, ord_updated_at = now_iso now,
      ord_processing_started_at = None, ord_processing_generation = 0, ord_pending_ca_request_id = None\<rparr>"

definition create_order_with_authz ::
  "nat \<Rightarrow> clock \<Rightarrow> clock \<Rightarrow> url_fns \<Rightarrow> string \<Rightarrow> (nat \<Rightarrow> string \<times> string \<times> string) \<Rightarrow> string
     \<Rightarrow> (string \<times> string) list \<Rightarrow> nat option \<Rightarrow> nat \<Rightarrow> nat \<Rightarrow> db \<Rightarrow> (store_error + OrderRow) \<times> db" where
  "create_order_with_authz expiry now now_locked u order_id fresh account_id idents window per_kid global =
     with_conn (\<lambda>s.
       rbind (check_order_limits now_locked account_id window per_kid global s) (\<lambda>_.
       let row = new_order_row now expiry u order_id account_id idents in
       rbind (put_order row s) (\<lambda>s1.
       rbind (insert_authzs u fresh account_id order_id (ord_expires row) 0 idents s1) (\<lambda>(urls, s2).
         Inr (row\<lparr>ord_authorizations := urls\<rparr>,
              upd_orders (\<lambda>r. ord_id r = order_id) (\<lambda>r. r\<lparr>ord_authorizations := urls\<rparr>) s2)))))"

section \<open>Authorizations and challenges\<close>

definition get_authorization :: "string \<Rightarrow> db \<Rightarrow> (AuthzRow \<times> ChallengeRow list) option" where
  "get_authorization authz_id s =
     (case find (\<lambda>r. az_id r = authz_id) (authorizations s) of
        None \<Rightarrow> None
      | Some r \<Rightarrow> Some (r, filter (\<lambda>c. ch_authz_id c = authz_id) (challenges s)))"

definition get_challenge :: "string \<Rightarrow> db \<Rightarrow> ChallengeRow option" where
  "get_challenge challenge_id s = find (\<lambda>r. ch_id r = challenge_id) (challenges s)"

definition update_authorization_status :: "string \<Rightarrow> string \<Rightarrow> db \<Rightarrow> db" where
  "update_authorization_status authz_id status s =
     s\<lparr>authorizations := upd_where (\<lambda>r. az_id r = authz_id) (\<lambda>r. r\<lparr>az_status := status\<rparr>) (authorizations s)\<rparr>"

definition update_challenge_status :: "string \<Rightarrow> string \<Rightarrow> timestamp option \<Rightarrow> db \<Rightarrow> db" where
  "update_challenge_status challenge_id status validated_at s =
     s\<lparr>challenges := upd_where (\<lambda>r. ch_id r = challenge_id)
         (\<lambda>r. r\<lparr>ch_status := status, ch_validated_at := validated_at\<rparr>) (challenges s)\<rparr>"

section \<open>The order state machine\<close>

text \<open>
  The life of an order, read off the transitions: creation makes it pending; a lease is
  the only way into processing and mints the next generation; revoked and invalid are
  final. \<open>ord_step\<close> relates a row before and after one store operation.
\<close>

fun ord_trans :: "OrderStatus \<Rightarrow> OrderStatus \<Rightarrow> bool" where
  "ord_trans PENDING READY = True"
| "ord_trans PENDING INVALID = True"
| "ord_trans READY PROCESSING = True"
| "ord_trans READY INVALID = True"
| "ord_trans PROCESSING READY = True"
| "ord_trans PROCESSING VALID = True"
| "ord_trans PROCESSING INVALID = True"
| "ord_trans PROCESSING REVOKED = True"
| "ord_trans VALID REVOKED = True"
| "ord_trans _ _ = False"

definition ord_identity :: "OrderRow \<Rightarrow> string \<times> string \<times> (string \<times> string) list \<times> string \<times> timestamp \<times> timestamp" where
  "ord_identity r = (ord_id r, ord_account_id r, ord_identifiers r, ord_finalize_url r, ord_expires r, ord_created_at r)"

definition ord_step :: "OrderRow \<Rightarrow> OrderRow \<Rightarrow> bool" where
  "ord_step r r' \<longleftrightarrow> ord_identity r' = ord_identity r
     \<and> (if ord_status r = ord_status r' then ord_processing_generation r' = ord_processing_generation r
        else ord_trans (ord_status r) (ord_status r')
           \<and> ord_processing_generation r' =
               (if ord_status r' = PROCESSING then Suc (ord_processing_generation r)
                else ord_processing_generation r))"

definition orders_evolve :: "OrderRow list \<Rightarrow> OrderRow list \<Rightarrow> bool" where
  "orders_evolve rows rows' \<longleftrightarrow>
     list_all2 ord_step rows (take (length rows) rows')
     \<and> (\<forall>r \<in> set (drop (length rows) rows'). ord_status r = PENDING \<and> ord_processing_generation r = 0)"

lemma ord_trans_irrefl [simp]: "\<not> ord_trans a a"
  by (cases a) auto

lemma ord_step_refl [simp]: "ord_step r r"
  by (simp add: ord_step_def)

lemma ord_step_id: "ord_step r r' \<Longrightarrow> ord_id r' = ord_id r"
  by (simp add: ord_step_def ord_identity_def)

lemma ord_step_gen: "ord_step r r' \<Longrightarrow> ord_processing_generation r \<le> ord_processing_generation r'"
  by (auto simp: ord_step_def split: if_splits)

lemma ord_step_final:
  "ord_step r r' \<Longrightarrow> ord_status r \<in> {INVALID, REVOKED} \<Longrightarrow> ord_status r' = ord_status r"
  by (auto simp: ord_step_def split: if_splits elim: ord_trans.elims)

lemma list_all2_upd_where:
  "(\<And>r. p r \<Longrightarrow> ord_step r (f r)) \<Longrightarrow> list_all2 ord_step rows (upd_where p f rows)"
  by (induction rows) auto

lemma list_all2_ord_step_refl [simp]: "list_all2 ord_step rows rows"
  by (simp add: list_all2_refl)

lemma orders_evolve_refl [simp]: "orders_evolve rows rows"
  by (simp add: orders_evolve_def)

lemma orders_evolve_all2: "list_all2 ord_step rows rows' \<Longrightarrow> orders_evolve rows rows'"
  using list_all2_lengthD by (fastforce simp: orders_evolve_def)

lemma evolve_upd:
  "(\<And>r. p r \<Longrightarrow> ord_step r (f r)) \<Longrightarrow> orders_evolve rows (upd_where p f rows)"
  by (rule orders_evolve_all2, rule list_all2_upd_where)

lemma evolve_new:
  "ord_status r = PENDING \<Longrightarrow> ord_processing_generation r = 0 \<Longrightarrow> orders_evolve rows (rows @ [r])"
  by (simp add: orders_evolve_def)

lemma evolve_find:
  assumes "orders_evolve rows rows'" "find (\<lambda>r. ord_id r = i) rows = Some r"
  shows "\<exists>r'. find (\<lambda>r. ord_id r = i) rows' = Some r' \<and> ord_step r r'"
proof -
  have "list_all2 ord_step rows old \<Longrightarrow> find (\<lambda>r. ord_id r = i) rows = Some r \<Longrightarrow>
      \<exists>r'. find (\<lambda>r. ord_id r = i) old = Some r' \<and> ord_step r r'" for old
    by (induction rule: list_all2_induct) (auto split: if_splits dest: ord_step_id)
  then have "\<exists>r'. find (\<lambda>r. ord_id r = i) (take (length rows) rows') = Some r' \<and> ord_step r r'"
    using assms unfolding orders_evolve_def by blast
  moreover have "find (\<lambda>r. ord_id r = i) rows' =
      (case find (\<lambda>r. ord_id r = i) (take (length rows) rows') of
         None \<Rightarrow> find (\<lambda>r. ord_id r = i) (drop (length rows) rows') | Some r \<Rightarrow> Some r)"
    by (simp only: find_append [symmetric] append_take_drop_id)
  ultimately show ?thesis by auto
qed

lemma evolve_find_new:
  assumes "orders_evolve rows rows'" "find (\<lambda>r. ord_id r = i) rows = None"
    "find (\<lambda>r. ord_id r = i) rows' = Some r'"
  shows "ord_status r' = PENDING \<and> ord_processing_generation r' = 0"
proof -
  have "list_all2 ord_step rows old \<Longrightarrow> find (\<lambda>r. ord_id r = i) rows = None \<Longrightarrow>
      find (\<lambda>r. ord_id r = i) old = None" for old
    by (induction rule: list_all2_induct) (auto split: if_splits dest: ord_step_id)
  then have "find (\<lambda>r. ord_id r = i) (take (length rows) rows') = None"
    using assms unfolding orders_evolve_def by blast
  moreover have "find (\<lambda>r. ord_id r = i) rows' =
      (case find (\<lambda>r. ord_id r = i) (take (length rows) rows') of
         None \<Rightarrow> find (\<lambda>r. ord_id r = i) (drop (length rows) rows') | Some r \<Rightarrow> Some r)"
    by (simp only: find_append [symmetric] append_take_drop_id)
  ultimately have "find (\<lambda>r. ord_id r = i) (drop (length rows) rows') = Some r'"
    using assms(3) by simp
  then have "r' \<in> set (drop (length rows) rows')" using find_Some_in by fast
  then show ?thesis using assms(1) unfolding orders_evolve_def by blast
qed

section \<open>Each operation is a step of the machine\<close>

text \<open>
  \<open>order_op\<close>: what every operation of this theory that only updates orders keeps. The
  tables other than orders are untouched, the keys stay, and each row takes at most one step.
\<close>

definition order_op :: "db \<Rightarrow> db \<Rightarrow> bool" where
  "order_op s s' \<longleftrightarrow> s' = s\<lparr>orders := orders s'\<rparr> \<and> list_all2 ord_step (orders s) (orders s')"

lemma order_op_refl [simp]: "order_op s s"
  by (simp add: order_op_def)

lemma order_op_upd: "(\<And>r. p r \<Longrightarrow> ord_step r (f r)) \<Longrightarrow> order_op s (upd_orders p f s)"
  by (simp add: order_op_def upd_orders_def list_all2_upd_where)

lemma order_op_cas: "(\<And>r. p r \<Longrightarrow> ord_step r (f r)) \<Longrightarrow> order_op s (snd (cas_orders p f s))"
  by (simp add: cas_orders_def order_op_upd)

lemma all2_ids: "list_all2 ord_step rows rows' \<Longrightarrow> map ord_id rows' = map ord_id rows"
  by (induction rule: list_all2_induct) (auto dest: ord_step_id)

lemma order_op_wf: "order_op s s' \<Longrightarrow> wf_db s \<Longrightarrow> wf_db s'"
proof -
  assume op: "order_op s s'" and wf: "wf_db s"
  have "map ord_id (orders s') = map ord_id (orders s)" using op all2_ids unfolding order_op_def by blast
  then have "wf_db (s\<lparr>orders := orders s'\<rparr>)" using wf by (simp add: wf_db_def)
  then show ?thesis using op unfolding order_op_def by metis
qed

lemma order_op_frame:
  assumes "order_op s s'"
  shows "accounts s' = accounts s" "nonces s' = nonces s" "certificates s' = certificates s"
    "audit_log s' = audit_log s" "authorizations s' = authorizations s" "challenges s' = challenges s"
    "audit_seq s' = audit_seq s" "crl_watermark s' = crl_watermark s"
proof -
  obtain rows where s': "s' = s\<lparr>orders := rows\<rparr>" using assms unfolding order_op_def by blast
  show "accounts s' = accounts s" "nonces s' = nonces s" "certificates s' = certificates s"
    "audit_log s' = audit_log s" "authorizations s' = authorizations s" "challenges s' = challenges s"
    "audit_seq s' = audit_seq s" "crl_watermark s' = crl_watermark s"
    unfolding s' by simp_all
qed

lemma acquire_snd:
  "snd (acquire_processing_lease now i s) =
     snd (cas_orders (\<lambda>r. ord_id r = i \<and> ord_status r = READY)
            (\<lambda>r. r\<lparr>ord_status := PROCESSING, ord_updated_at := now_iso now,
                   ord_processing_started_at := Some (now_iso now),
                   ord_processing_generation := Suc (ord_processing_generation r)\<rparr>) s)"
  by (simp add: acquire_processing_lease_def case_prod_beta Let_def)

lemma order_ops:
  "order_op s (snd (acquire_processing_lease now i s))"
  "order_op s (snd (transition_pending_to_ready now i s))"
  "order_op s (snd (transition_processing_to_ready now i g s))"
  "order_op s (snd (transition_processing_to_valid now i url g s))"
  "order_op s (snd (transition_active_to_invalid now i s))"
  "order_op s (snd (transition_processing_to_invalid now i g s))"
  "order_op s (snd (transition_to_revoked now i s))"
  "order_op s (snd (record_pending_ca_request now i req n s))"
  "order_op s (snd (clear_pending_ca_request now i req s))"
  unfolding acquire_snd transition_pending_to_ready_def transition_processing_to_ready_def
    transition_processing_to_valid_def transition_active_to_invalid_def
    transition_processing_to_invalid_def transition_to_revoked_def
    record_pending_ca_request_def clear_pending_ca_request_def
  by (rule order_op_cas; auto simp: ord_step_def ord_identity_def)+

lemma cas_get_order:
  assumes wf: "wf_db s" and p: "\<And>r. p r \<Longrightarrow> ord_id r = i" "\<And>r. ord_id (f r) = ord_id r"
  shows "fst (cas_orders p f s) \<longleftrightarrow> (\<exists>r. get_order i s = Some r \<and> p r)"
    and "get_order j (snd (cas_orders p f s)) = map_option (\<lambda>r. if p r then f r else r) (get_order j s)"
proof -
  have d: "distinct (map ord_id (orders s))" using wf by (simp add: wf_db_def)
  show "fst (cas_orders p f s) \<longleftrightarrow> (\<exists>r. get_order i s = Some r \<and> p r)"
    using rowcount_by_key [OF d p(1)] unfolding cas_orders_def get_order_def
    by (auto split: option.splits)
  show "get_order j (snd (cas_orders p f s)) = map_option (\<lambda>r. if p r then f r else r) (get_order j s)"
    unfolding cas_orders_def upd_orders_def get_order_def using find_upd_where [of p ord_id f] p(2) by simp
qed

lemma cas_orders_lost: "rowcount p (orders s) = 0 \<Longrightarrow> snd (cas_orders p f s) = s"
  by (simp add: cas_orders_def upd_orders_def upd_where_rowcount_0)

lemma cas_orders_none:
  assumes "wf_db s" "\<And>r. p r \<Longrightarrow> ord_id r = i" "\<not> fst (cas_orders p f s)"
  shows "snd (cas_orders p f s) = s"
proof -
  have "distinct (map ord_id (orders s))" using assms(1) by (simp add: wf_db_def)
  then have "rowcount p (orders s) \<le> 1" using assms(2) by (rule rowcount_key_le1)
  then have "rowcount p (orders s) = 0" using assms(3) unfolding cas_orders_def by simp
  then show ?thesis by (rule cas_orders_lost)
qed

lemma acquire_cases:
  assumes wf: "wf_db s"
  obtains (won) r where "get_order i s = Some r" "ord_status r = READY"
      "fst (acquire_processing_lease now i s) = Some (Suc (ord_processing_generation r))"
      "\<And>j. get_order j (snd (acquire_processing_lease now i s)) =
         (if j = i then Some (r\<lparr>ord_status := PROCESSING, ord_updated_at := now_iso now,
                   ord_processing_started_at := Some (now_iso now),
                   ord_processing_generation := Suc (ord_processing_generation r)\<rparr>) else get_order j s)"
  | (lost) "acquire_processing_lease now i s = (None, s)" "\<nexists>r. get_order i s = Some r \<and> ord_status r = READY"
proof -
  define p where "p = (\<lambda>r :: OrderRow. ord_id r = i \<and> ord_status r = READY)"
  define f where "f = (\<lambda>r :: OrderRow. r\<lparr>ord_status := PROCESSING, ord_updated_at := now_iso now,
                   ord_processing_started_at := Some (now_iso now),
                   ord_processing_generation := Suc (ord_processing_generation r)\<rparr>)"
  have pf: "\<And>r. p r \<Longrightarrow> ord_id r = i" "\<And>r. ord_id (f r) = ord_id r" by (simp_all add: p_def f_def)
  have cas: "fst (cas_orders p f s) \<longleftrightarrow> (\<exists>r. get_order i s = Some r \<and> p r)"
    "\<And>j. get_order j (snd (cas_orders p f s)) = map_option (\<lambda>r. if p r then f r else r) (get_order j s)"
    by (rule cas_get_order [OF wf]; simp add: pf)+
  have acq: "acquire_processing_lease now i s =
      (if fst (cas_orders p f s) then map_option ord_processing_generation (get_order i (snd (cas_orders p f s)))
       else None, snd (cas_orders p f s))"
    by (simp add: acquire_processing_lease_def p_def f_def case_prod_beta Let_def)
  show thesis
  proof (cases "fst (cas_orders p f s)")
    case True
    then obtain r where r: "get_order i s = Some r" "p r" using cas(1) by blast
    have id: "ord_id r' = j" if "get_order j s = Some r'" for j r'
      using that find_Some_in unfolding get_order_def by fastforce
    show thesis
    proof (rule won [OF r(1)])
      show "ord_status r = READY" using r(2) by (simp add: p_def)
      show "fst (acquire_processing_lease now i s) = Some (Suc (ord_processing_generation r))"
        using True r cas(2) [of i] by (simp add: acq) (simp add: f_def)
      show "get_order j (snd (acquire_processing_lease now i s)) =
         (if j = i then Some (r\<lparr>ord_status := PROCESSING, ord_updated_at := now_iso now,
                   ord_processing_started_at := Some (now_iso now),
                   ord_processing_generation := Suc (ord_processing_generation r)\<rparr>) else get_order j s)" for j
      proof (cases "j = i")
        case True
        with r cas(2) [of i] show ?thesis by (simp add: acq) (simp add: f_def)
      next
        case False
        then have "map_option (\<lambda>r. if p r then f r else r) (get_order j s) = get_order j s"
          using id pf(1) by (cases "get_order j s") auto
        with False cas(2) [of j] show ?thesis by (simp add: acq)
      qed
    qed
  next
    case False
    then have "\<nexists>r. get_order i s = Some r \<and> ord_status r = READY"
      using cas(1) find_Some_in unfolding p_def get_order_def by fastforce
    moreover have "acquire_processing_lease now i s = (None, s)"
      using False cas_orders_none [OF wf pf(1) False] by (simp add: acq)
    ultimately show thesis by (rule lost [rotated])
  qed
qed

section \<open>The sweep\<close>

definition expired_active :: "clock \<Rightarrow> OrderRow \<Rightarrow> bool" where
  "expired_active now r \<longleftrightarrow> ord_status r \<in> {PENDING, READY} \<and> is_expired (ord_expires r) now"

definition invalidate :: "clock \<Rightarrow> OrderRow \<Rightarrow> OrderRow" where
  "invalidate now r = r\<lparr>ord_status := INVALID, ord_updated_at := now_iso now\<rparr>"

lemma concat_batches: "0 < k \<Longrightarrow> concat (batches k xs) = xs"
  by (induction k xs rule: batches.induct) simp_all

lemma length_batches: "b \<in> set (batches k xs) \<Longrightarrow> length b \<le> k"
  by (induction k xs rule: batches.induct) (auto split: if_splits)

lemma rowcount_upd_where_split:
  assumes "\<And>r. p r \<Longrightarrow> \<not> q (f r)"
  shows "rowcount q (upd_where p f rows) + rowcount p rows = rowcount (\<lambda>r. p r \<or> q r) rows"
  using assms by (induction rows) auto

lemma upd_where_twice:
  assumes "\<And>r. p r \<Longrightarrow> \<not> q (f r)"
  shows "upd_where q f (upd_where p f rows) = upd_where (\<lambda>r. p r \<or> q r) f rows"
  using assms by (induction rows) auto

lemma sweep_fold:
  "fold (sweep_batch now) bs (t, s) =
     (t + rowcount (\<lambda>r. ord_id r \<in> set (concat bs) \<and> ord_status r \<in> {PENDING, READY}) (orders s),
      upd_orders (\<lambda>r. ord_id r \<in> set (concat bs) \<and> ord_status r \<in> {PENDING, READY}) (invalidate now) s)"
proof (induction bs arbitrary: t s)
  case Nil
  have "rowcount (\<lambda>r. False) (orders s) = 0" by (simp add: rowcount_0)
  then show ?case by (simp add: upd_orders_def upd_where_rowcount_0)
next
  case (Cons b bs)
  let ?q = "\<lambda>r. ord_id r \<in> set (concat bs) \<and> ord_status r \<in> {PENDING, READY}"
  let ?p = "\<lambda>r. ord_id r \<in> set b \<and> ord_status r \<in> {PENDING, READY}"
  have or: "(\<lambda>r. ord_id r \<in> set (concat (b # bs)) \<and> ord_status r \<in> {PENDING, READY}) = (\<lambda>r. ?p r \<or> ?q r)"
    by auto
  have not: "\<And>r. ?p r \<Longrightarrow> \<not> ?q (invalidate now r)" by (simp add: invalidate_def)
  have step: "sweep_batch now b (t, s) =
      (t + rowcount ?p (orders s), upd_orders ?p (invalidate now) s)"
    by (simp add: sweep_batch_def Let_def invalidate_def [abs_def])
  have "fold (sweep_batch now) (b # bs) (t, s) =
      fold (sweep_batch now) bs (t + rowcount ?p (orders s), upd_orders ?p (invalidate now) s)"
    unfolding fold_simps step ..
  also have "\<dots> = (t + rowcount ?p (orders s) + rowcount ?q (upd_where ?p (invalidate now) (orders s)),
      s\<lparr>orders := upd_where ?q (invalidate now) (upd_where ?p (invalidate now) (orders s))\<rparr>)"
    unfolding Cons.IH by (simp add: upd_orders_def)
  also have "\<dots> = (t + rowcount (\<lambda>r. ?p r \<or> ?q r) (orders s),
      s\<lparr>orders := upd_where (\<lambda>r. ?p r \<or> ?q r) (invalidate now) (orders s)\<rparr>)"
    by (simp only: upd_where_twice [of ?p ?q "invalidate now", OF not]
        rowcount_upd_where_split [of ?p ?q "invalidate now" "orders s", OF not, symmetric] ac_simps)
  finally show ?case unfolding or by (simp add: upd_orders_def)
qed

lemma rowcount_cong: "(\<And>r. r \<in> set rows \<Longrightarrow> p r = q r) \<Longrightarrow> rowcount p rows = rowcount q rows"
  by (simp add: rowcount_def cong: filter_cong)

lemma upd_where_cong: "(\<And>r. r \<in> set rows \<Longrightarrow> p r = q r) \<Longrightarrow> upd_where p f rows = upd_where q f rows"
  by (simp add: upd_where_def)

lemma sweep_eq:
  assumes wf: "wf_db s"
  shows "sweep_expired_orders now s =
     (rowcount (expired_active now) (orders s), upd_orders (expired_active now) (invalidate now) s)"
proof -
  let ?ids = "map ord_id (filter (\<lambda>r. is_expired (ord_expires r) now)
      (filter (\<lambda>r. ord_status r \<in> {PENDING, READY}) (orders s)))"
  let ?q = "\<lambda>r. ord_id r \<in> set (concat (batches 900 ?ids)) \<and> ord_status r \<in> {PENDING, READY}"
  have inj: "inj_on ord_id (set (orders s))" using wf unfolding wf_db_def distinct_map by blast
  have "?q r = expired_active now r" if "r \<in> set (orders s)" for r
  proof -
    have "ord_id r \<in> set ?ids \<longleftrightarrow> expired_active now r"
      using that inj unfolding inj_on_def by (auto simp: expired_active_def)
    then show ?thesis by (auto simp: concat_batches expired_active_def)
  qed
  then show ?thesis
    using rowcount_cong [of "orders s" ?q] upd_where_cong [of "orders s" ?q]
    by (simp add: sweep_expired_orders_def Let_def sweep_fold upd_orders_def)
qed

lemma sweep_order_op: "order_op s (snd (sweep_expired_orders now s))"
  unfolding sweep_expired_orders_def Let_def sweep_fold snd_conv
  by (rule order_op_upd) (auto simp: invalidate_def ord_step_def ord_identity_def)

section \<open>Creation\<close>

lemma insert_authzs_ok:
  assumes "insert_authzs u fresh a oid ex i idents s = Inr (urls, s')"
  shows "\<exists>azs chs. s' = s\<lparr>authorizations := authorizations s @ azs, challenges := challenges s @ chs\<rparr>
    \<and> urls = map (\<lambda>z. authz_url_fn u (az_id z)) azs \<and> map az_identifier azs = idents
    \<and> map ch_authz_id chs = map az_id azs
    \<and> (\<forall>z \<in> set azs. az_account_id z = a \<and> az_order_id z = oid \<and> az_status z = ''pending'' \<and> az_expires z = ex)
    \<and> (\<forall>c \<in> set chs. ch_status c = ''pending'' \<and> ch_url c = challenge_url_fn u (ch_id c))
    \<and> (distinct (map az_id (authorizations s)) \<longrightarrow> distinct (map az_id (authorizations s')))
    \<and> (distinct (map ch_id (challenges s)) \<longrightarrow> distinct (map ch_id (challenges s')))"
  using assms
proof (induction idents arbitrary: i s urls)
  case Nil
  then show ?case by (intro exI [of _ "[]"]) simp
next
  case (Cons ident idents)
  obtain az ch tok where f: "fresh i = (az, ch, tok)" by (metis prod_cases3)
  let ?ch = "\<lparr>ch_id = ch, ch_authz_id = az, ch_type = ''http-01'', ch_status = ''pending'', ch_token = tok,
      ch_url = challenge_url_fn u ch, ch_validated_at = None\<rparr>"
  let ?az = "\<lparr>az_id = az, az_account_id = a, az_order_id = oid, az_identifier = ident,
      az_status = ''pending'', az_expires = ex\<rparr>"
  let ?s = "s\<lparr>challenges := challenges s @ [?ch], authorizations := authorizations s @ [?az]\<rparr>"
  from Cons.prems f obtain urls' where u: "urls = authz_url_fn u az # urls'"
    and rec: "insert_authzs u fresh a oid ex (Suc i) idents ?s = Inr (urls', s')"
    and new: "ch \<notin> ch_id ` set (challenges s)" "az \<notin> az_id ` set (authorizations s)"
    by (auto simp: put_challenge_def put_authz_def split: if_splits)
  from Cons.IH [OF rec] obtain azs chs where IH:
    "s' = ?s\<lparr>authorizations := authorizations ?s @ azs, challenges := challenges ?s @ chs\<rparr>"
    "urls' = map (\<lambda>z. authz_url_fn u (az_id z)) azs" "map az_identifier azs = idents"
    "map ch_authz_id chs = map az_id azs"
    "\<forall>z \<in> set azs. az_account_id z = a \<and> az_order_id z = oid \<and> az_status z = ''pending'' \<and> az_expires z = ex"
    "\<forall>c \<in> set chs. ch_status c = ''pending'' \<and> ch_url c = challenge_url_fn u (ch_id c)"
    "distinct (map az_id (authorizations ?s)) \<longrightarrow> distinct (map az_id (authorizations s'))"
    "distinct (map ch_id (challenges ?s)) \<longrightarrow> distinct (map ch_id (challenges s'))" by blast
  show ?case
    by (rule exI [of _ "?az # azs"], rule exI [of _ "?ch # chs"]) (use IH u new in simp)
qed

lemma create_order_ok:
  assumes "create_order_with_authz expiry now now' u oid fresh a idents w pk gl s = (Inr row, s')"
  obtains azs chs where "check_order_limits now' a w pk gl s = Inr ()"
    "oid \<notin> ord_id ` set (orders s)"
    "row = (new_order_row now expiry u oid a idents)\<lparr>ord_authorizations := map (\<lambda>z. authz_url_fn u (az_id z)) azs\<rparr>"
    "s' = s\<lparr>orders := orders s @ [row], authorizations := authorizations s @ azs, challenges := challenges s @ chs\<rparr>"
    "map az_identifier azs = idents" "map ch_authz_id chs = map az_id azs"
    "\<forall>z \<in> set azs. az_account_id z = a \<and> az_order_id z = oid \<and> az_status z = ''pending''
       \<and> az_expires z = ord_expires row"
    "\<forall>c \<in> set chs. ch_status c = ''pending'' \<and> ch_url c = challenge_url_fn u (ch_id c)"
    "distinct (map az_id (authorizations s)) \<longrightarrow> distinct (map az_id (authorizations s'))"
    "distinct (map ch_id (challenges s)) \<longrightarrow> distinct (map ch_id (challenges s'))"
proof -
  let ?row = "new_order_row now expiry u oid a idents"
  let ?s1 = "s\<lparr>orders := orders s @ [?row]\<rparr>"
  have oid: "ord_id ?row = oid" by (simp add: new_order_row_def)
  from assms obtain urls s2 where lim: "check_order_limits now' a w pk gl s = Inr ()"
    and new: "oid \<notin> ord_id ` set (orders s)"
    and ins: "insert_authzs u fresh a oid (ord_expires ?row) 0 idents ?s1 = Inr (urls, s2)"
    and row: "row = ?row\<lparr>ord_authorizations := urls\<rparr>"
    and s': "s' = upd_orders (\<lambda>r. ord_id r = oid) (\<lambda>r. r\<lparr>ord_authorizations := urls\<rparr>) s2"
    by (auto simp: create_order_with_authz_def with_conn_commit Let_def put_order_def oid split: if_splits)
  from insert_authzs_ok [OF ins] obtain azs chs where A:
    "s2 = ?s1\<lparr>authorizations := authorizations s @ azs, challenges := challenges s @ chs\<rparr>"
    "urls = map (\<lambda>z. authz_url_fn u (az_id z)) azs" "map az_identifier azs = idents"
    "map ch_authz_id chs = map az_id azs"
    "\<forall>z \<in> set azs. az_account_id z = a \<and> az_order_id z = oid \<and> az_status z = ''pending''
       \<and> az_expires z = ord_expires ?row"
    "\<forall>c \<in> set chs. ch_status c = ''pending'' \<and> ch_url c = challenge_url_fn u (ch_id c)"
    "distinct (map az_id (authorizations s)) \<longrightarrow> distinct (map az_id (authorizations s2))"
    "distinct (map ch_id (challenges s)) \<longrightarrow> distinct (map ch_id (challenges s2))" by auto
  have "rowcount (\<lambda>r. ord_id r = oid) (orders s) = 0" using new by (auto simp: rowcount_0)
  then have upd: "upd_where (\<lambda>r. ord_id r = oid) (\<lambda>r. r\<lparr>ord_authorizations := urls\<rparr>) (orders s) = orders s"
    by (rule upd_where_rowcount_0)
  have s'eq: "s' = s\<lparr>orders := orders s @ [row], authorizations := authorizations s @ azs,
      challenges := challenges s @ chs\<rparr>"
    unfolding s' A(1) upd_orders_def row using upd oid by simp
  show thesis
    by (rule that [OF lim new _ s'eq A(3,4) _ A(6)]) (use A row s'eq in simp_all)
qed

lemma create_order_fails:
  "create_order_with_authz expiry now now' u oid fresh a idents w pk gl s = (Inl e, s') \<Longrightarrow> s' = s"
  unfolding create_order_with_authz_def by (rule with_conn_rollback)

lemma wf_create_order:
  assumes wf: "wf_db s"
  shows "wf_db (snd (create_order_with_authz expiry now now' u oid fresh a idents w pk gl s))"
proof (cases "create_order_with_authz expiry now now' u oid fresh a idents w pk gl s")
  case (Pair r s')
  show ?thesis
  proof (cases r)
    case (Inl e)
    with Pair create_order_fails wf show ?thesis by fastforce
  next
    case (Inr row)
    from Pair [unfolded Inr] show ?thesis
    proof (cases rule: create_order_ok)
      case (1 azs chs)
      have "ord_id row = oid" unfolding 1(3) by (simp add: new_order_row_def)
      with 1(2,4,9,10) wf Pair show ?thesis by (simp add: wf_db_def)
    qed
  qed
qed

lemma evolve_create_order:
  "orders_evolve (orders s) (orders (snd (create_order_with_authz expiry now now' u oid fresh a idents w pk gl s)))"
proof (cases "create_order_with_authz expiry now now' u oid fresh a idents w pk gl s")
  case (Pair r s')
  show ?thesis
  proof (cases r)
    case (Inl e)
    with Pair create_order_fails show ?thesis by fastforce
  next
    case (Inr row)
    from Pair [unfolded Inr] show ?thesis
    proof (cases rule: create_order_ok)
      case (1 azs chs)
      have "ord_status row = PENDING" "ord_processing_generation row = 0"
        unfolding 1(3) by (simp_all add: new_order_row_def)
      with 1(4) Pair show ?thesis by (simp add: evolve_new)
    qed
  qed
qed

lemma check_order_limits_ok:
  assumes "check_order_limits now a w pk gl s = Inr ()"
  shows "(pk = 0 \<and> gl = 0) \<or> (\<exists>win acct. w = Some win \<and> 1 \<le> win \<and> get_account a s = Some acct
     \<and> (pk = 0 \<or> kid_orders_since (acc_eab_kid acct) (cutoff_before now win) s < pk)
     \<and> (gl = 0 \<or> orders_since (cutoff_before now win) s < gl))"
  using assms by (auto simp: check_order_limits_def Let_def not_le split: if_splits option.splits)

lemma filter_key_le1: "distinct (map key rows) \<Longrightarrow> length (filter (\<lambda>r. k = key r \<and> q r) rows) \<le> 1"
  using rowcount_key_le1 [of key rows "\<lambda>r. k = key r \<and> q r" k] by (simp add: rowcount_def)

lemma kid_orders_since_add:
  assumes "wf_db s"
  shows "kid_orders_since kid c (s\<lparr>orders := orders s @ [row], authorizations := az, challenges := ch\<rparr>)
     \<le> Suc (kid_orders_since kid c s)"
proof -
  have "distinct (map acc_id (accounts s))" using assms by (simp add: wf_db_def)
  from filter_key_le1 [OF this, of "ord_account_id row" "\<lambda>a. acc_eab_kid a = kid"]
  show ?thesis by (simp add: kid_orders_since_def)
qed

section \<open>Reclaim\<close>

lemma list_all2_ord_step_marker:
  assumes "list_all2 ord_step rows (upd_where p f rows)"
  shows "list_all2 ord_step rows
    (upd_where q (\<lambda>r. r\<lparr>ord_pending_ca_request_id := None, ord_updated_at := t\<rparr>) (upd_where p f rows))"
  using assms by (induction rows) (auto simp: ord_step_def ord_identity_def)

lemma reclaim_cases:
  obtains (lost) "fst (reclaim_processing_order x now i to_valid g req audit s) = (False, None)"
      "order_op s (snd (reclaim_processing_order x now i to_valid g req audit s))"
  | (won) s2 where "order_op s s2"
      "reclaim_processing_order x now i to_valid g req audit s =
         ((True, Some (fst (record_audit_in_conn x now (audit\<lparr>ev_order := Some i\<rparr>) s2))),
          snd (record_audit_in_conn x now (audit\<lparr>ev_order := Some i\<rparr>) s2))"
proof -
  define p where "p = (\<lambda>r. ord_id r = i \<and> ord_status r = PROCESSING \<and> processing_cas g r)"
  define f where "f = (case to_valid of
        Some url \<Rightarrow> (\<lambda>r. r\<lparr>ord_status := VALID, ord_certificate_url := Some url,
              ord_processing_started_at := None, ord_updated_at := now_iso now\<rparr>)
      | None \<Rightarrow> (\<lambda>r :: OrderRow. r\<lparr>ord_status := READY, ord_processing_started_at := None,
              ord_updated_at := now_iso now\<rparr>))"
  have t: "(case to_valid of
              Some url \<Rightarrow> transition_processing_to_valid now i url g s
            | None \<Rightarrow> transition_processing_to_ready now i g s) = cas_orders p f s"
    by (simp add: p_def f_def transition_processing_to_valid_def transition_processing_to_ready_def
        split: option.split)
  have op: "list_all2 ord_step (orders s) (upd_where p f (orders s))"
    by (rule list_all2_upd_where)
       (auto simp: p_def f_def ord_step_def ord_identity_def split: option.split)
  define s2 where "s2 = (case req of
                Some req \<Rightarrow> if req \<noteq> [] then
                    upd_orders (\<lambda>r. ord_id r = i \<and> ord_pending_ca_request_id r = Some req)
                      (\<lambda>r. r\<lparr>ord_pending_ca_request_id := None, ord_updated_at := now_iso now\<rparr>)
                      (snd (cas_orders p f s))
                  else snd (cas_orders p f s)
              | None \<Rightarrow> snd (cas_orders p f s))"
  have op2: "order_op s s2"
    using op list_all2_ord_step_marker [OF op]
    by (auto simp: s2_def order_op_def cas_orders_def upd_orders_def split: option.split)
  have "reclaim_processing_order x now i to_valid g req audit s =
      (if fst (cas_orders p f s)
       then ((True, Some (fst (record_audit_in_conn x now (audit\<lparr>ev_order := Some i\<rparr>) s2))),
             snd (record_audit_in_conn x now (audit\<lparr>ev_order := Some i\<rparr>) s2))
       else ((False, None), snd (cas_orders p f s)))"
    unfolding reclaim_processing_order_def t Let_def case_prod_beta s2_def by simp
  moreover have "order_op s (snd (cas_orders p f s))"
    using op by (simp add: order_op_def cas_orders_def upd_orders_def)
  ultimately show thesis using lost won op2 by (cases "fst (cas_orders p f s)") auto
qed

section \<open>Properties\<close>

text \<open>
  The lease: it is granted exactly when the order is ready; the generation returned is
  one more than the stored one, the caller then holds it, and no other order changes. A
  caller that is refused has changed nothing.
\<close>

theorem acquire_lease_correct:
  assumes "wf_db s"
  shows "case acquire_processing_lease now i s of
      (Some g, s') \<Rightarrow> (\<exists>r. get_order i s = Some r \<and> ord_status r = READY \<and> g = Suc (ord_processing_generation r))
         \<and> holds_processing_lease i g s' \<and> (\<forall>j. j = i \<or> get_order j s' = get_order j s)
    | (None, s') \<Rightarrow> s' = s \<and> (\<nexists>r. get_order i s = Some r \<and> ord_status r = READY)"
  using assms
proof (cases rule: acquire_cases [of s i now])
  case (won r)
  obtain s' where eq: "acquire_processing_lease now i s = (Some (Suc (ord_processing_generation r)), s')"
    using won(3) by (metis prod.collapse)
  have g: "\<And>j. get_order j s' = (if j = i then Some (r\<lparr>ord_status := PROCESSING, ord_updated_at := now_iso now,
                   ord_processing_started_at := Some (now_iso now),
                   ord_processing_generation := Suc (ord_processing_generation r)\<rparr>) else get_order j s)"
    using won(4) eq by simp
  then have "holds_processing_lease i (Suc (ord_processing_generation r)) s'"
    by (simp add: holds_processing_lease_def)
  with won(1,2) g eq show ?thesis by simp
next
  case lost
  then show ?thesis by simp
qed

text \<open>
  The sweep, although it updates in batches, is one conditional update: exactly the
  pending and ready orders whose expiry has passed become invalid, their number is
  returned, and each batch stays within the 999 host parameters of one statement.
\<close>

theorem sweep_expired_orders_correct:
  assumes "wf_db s"
  shows "sweep_expired_orders now s =
      (rowcount (expired_active now) (orders s), upd_orders (expired_active now) (invalidate now) s)
    \<and> list_all (\<lambda>b. length b + 4 \<le> 999) (batches 900 (ids :: string list))"
proof
  show "sweep_expired_orders now s =
      (rowcount (expired_active now) (orders s), upd_orders (expired_active now) (invalidate now) s)"
    by (rule sweep_eq) (rule assms)
  show "list_all (\<lambda>b. length b + 4 \<le> 999) (batches 900 ids)"
    unfolding list_all_iff using length_batches by fastforce
qed

text \<open>
  Creating an order is all or nothing. On success one pending order is added, with one
  pending authorization and one pending challenge per identifier, in order, and the order
  lists exactly the URLs of its authorizations; on failure nothing changes.
\<close>

theorem create_order_atomic:
  "case create_order_with_authz expiry now now' u oid fresh a idents w pk gl s of
     (Inr row, s') \<Rightarrow>
       (\<exists>azs chs. orders s' = orders s @ [row] \<and> authorizations s' = authorizations s @ azs
          \<and> challenges s' = challenges s @ chs \<and> map az_identifier azs = idents
          \<and> map ch_authz_id chs = map az_id azs
          \<and> ord_authorizations row = map (\<lambda>z. authz_url_fn u (az_id z)) azs
          \<and> list_all (\<lambda>z. az_account_id z = a \<and> az_order_id z = oid \<and> az_status z = ''pending'') azs
          \<and> list_all (\<lambda>c. ch_status c = ''pending'') chs)
       \<and> ord_status row = PENDING \<and> ord_identifiers row = idents \<and> ord_account_id row = a
       \<and> ord_expires row = now_iso now + int expiry
       \<and> accounts s' = accounts s \<and> certificates s' = certificates s \<and> audit_log s' = audit_log s
   | (Inl e, s') \<Rightarrow> s' = s"
proof (cases "create_order_with_authz expiry now now' u oid fresh a idents w pk gl s")
  case (Pair r s')
  show ?thesis
  proof (cases r)
    case (Inl e)
    with Pair create_order_fails show ?thesis by fastforce
  next
    case (Inr row)
    from Pair [unfolded Inr] show ?thesis
    proof (cases rule: create_order_ok)
      case (1 azs chs)
      have "\<exists>azs chs. orders s' = orders s @ [row] \<and> authorizations s' = authorizations s @ azs
          \<and> challenges s' = challenges s @ chs \<and> map az_identifier azs = idents
          \<and> map ch_authz_id chs = map az_id azs
          \<and> ord_authorizations row = map (\<lambda>z. authz_url_fn u (az_id z)) azs
          \<and> list_all (\<lambda>z. az_account_id z = a \<and> az_order_id z = oid \<and> az_status z = ''pending'') azs
          \<and> list_all (\<lambda>c. ch_status c = ''pending'') chs"
        by (rule exI [of _ azs], rule exI [of _ chs]) (use 1 in \<open>simp add: list_all_iff\<close>)
      with 1(3,4) Pair Inr show ?thesis by (simp add: new_order_row_def now_iso_plus_eq)
    qed
  qed
qed

text \<open>
  The rate limits hold after the insert: when an order was created under a positive
  per-credential or global limit, the orders in the window, the new one included, do not
  exceed it.
\<close>

theorem order_rate_limit:
  assumes "wf_db s"
  shows "case create_order_with_authz expiry now now' u oid fresh a idents w pk gl s of
     (Inr row, s') \<Rightarrow> (pk = 0 \<and> gl = 0) \<or>
       (\<exists>win acct. w = Some win \<and> get_account a s' = Some acct
          \<and> (pk = 0 \<or> count_recent_orders_by_kid now' (acc_eab_kid acct) win s' \<le> pk)
          \<and> (gl = 0 \<or> count_all_recent_orders now' win s' \<le> gl))
   | (Inl e, s') \<Rightarrow> s' = s"
proof (cases "create_order_with_authz expiry now now' u oid fresh a idents w pk gl s")
  case (Pair r s')
  show ?thesis
  proof (cases r)
    case (Inl e)
    with Pair create_order_fails show ?thesis by fastforce
  next
    case (Inr row)
    from Pair [unfolded Inr] show ?thesis
    proof (cases rule: create_order_ok)
      case (1 azs chs)
      have acc: "get_account a s' = get_account a s" by (simp add: 1(4) get_account_def)
      have kid: "kid_orders_since k c s' \<le> Suc (kid_orders_since k c s)" for k c
        unfolding 1(4) by (rule kid_orders_since_add) (rule assms)
      have all: "orders_since c s' \<le> Suc (orders_since c s)" for c
        unfolding 1(4) by (simp add: orders_since_def)
      from check_order_limits_ok [OF 1(1)] show ?thesis
      proof
        assume "pk = 0 \<and> gl = 0"
        with Pair Inr show ?thesis by simp
      next
        assume "\<exists>win acct. w = Some win \<and> 1 \<le> win \<and> get_account a s = Some acct
           \<and> (pk = 0 \<or> kid_orders_since (acc_eab_kid acct) (cutoff_before now' win) s < pk)
           \<and> (gl = 0 \<or> orders_since (cutoff_before now' win) s < gl)"
        then obtain win acct where L: "w = Some win" "get_account a s = Some acct"
          "pk = 0 \<or> kid_orders_since (acc_eab_kid acct) (cutoff_before now' win) s < pk"
          "gl = 0 \<or> orders_since (cutoff_before now' win) s < gl" by blast
        have "pk = 0 \<or> count_recent_orders_by_kid now' (acc_eab_kid acct) win s' \<le> pk"
          using L(3) kid [of "acc_eab_kid acct" "cutoff_before now' win"]
          unfolding count_recent_orders_by_kid_def by linarith
        moreover have "gl = 0 \<or> count_all_recent_orders now' win s' \<le> gl"
          using L(4) all [of "cutoff_before now' win"] unfolding count_all_recent_orders_def by linarith
        ultimately show ?thesis using L(1,2) acc Pair Inr by auto
      qed
    qed
  qed
qed

section \<open>Witnesses\<close>

definition sample_order :: "string \<Rightarrow> OrderStatus \<Rightarrow> timestamp \<Rightarrow> OrderRow" where
  "sample_order i st expires = \<lparr>ord_id = i, ord_account_id = ''a'', ord_status = st,
     ord_identifiers = [(''dns'', ''h.example'')], ord_authorizations = [], ord_finalize_url = ''f'',
     ord_certificate_url = None, ord_expires = expires, ord_created_at = 0, ord_updated_at = 0,
     ord_processing_started_at = None, ord_processing_generation = 0, ord_pending_ca_request_id = None\<rparr>"

definition sample_account :: AccountRow where
  "sample_account = \<lparr>acc_id = ''a'', acc_status = AcctVALID, acc_jwk = None, acc_eab_kid = ''k'',
     acc_contact = [], acc_created_at = 0, acc_thumbprint = None\<rparr>"

definition sample_db :: db where
  "sample_db = empty_db\<lparr>orders := [sample_order ''o1'' READY 10, sample_order ''o2'' PENDING 99],
     accounts := [sample_account]\<rparr>"

lemma wf_sample: "wf_db sample_db"
  by (simp add: wf_db_def sample_db_def empty_db_def sample_order_def sample_account_def)

theorem acquire_lease_correct_witness:
  "case acquire_processing_lease 0 ''o1'' sample_db of
      (Some g, s') \<Rightarrow> (\<exists>r. get_order ''o1'' sample_db = Some r \<and> ord_status r = READY
            \<and> g = Suc (ord_processing_generation r))
         \<and> holds_processing_lease ''o1'' g s' \<and> (\<forall>j. j = ''o1'' \<or> get_order j s' = get_order j sample_db)
    | (None, s') \<Rightarrow> s' = sample_db \<and> (\<nexists>r. get_order ''o1'' sample_db = Some r \<and> ord_status r = READY)"
  by (rule acquire_lease_correct [OF wf_sample])

theorem sweep_expired_orders_correct_witness:
  "sweep_expired_orders 20000000 sample_db =
      (1, sample_db\<lparr>orders := [(sample_order ''o1'' INVALID 10)\<lparr>ord_updated_at := 20\<rparr>, sample_order ''o2'' PENDING 99]\<rparr>)"
proof -
  have "sweep_expired_orders 20000000 sample_db =
      (rowcount (expired_active 20000000) (orders sample_db),
       upd_orders (expired_active 20000000) (invalidate 20000000) sample_db)"
    using sweep_expired_orders_correct [OF wf_sample] by (rule conjunct1)
  then show ?thesis
    by (simp add: sample_db_def upd_orders_def expired_active_def invalidate_def is_expired_def micros_def
        now_iso_def sample_order_def)
qed

theorem order_rate_limit_witness:
  "case create_order_with_authz 60 0 0 \<lparr>challenge_url_fn = id, authz_url_fn = id, finalize_url_fn = id\<rparr>
       ''new'' (\<lambda>_. (''z'', ''c'', ''t'')) ''a'' [(''dns'', ''h'')] (Some 3600) 5 0 sample_db of
     (Inr row, s') \<Rightarrow> (5 = (0 :: nat) \<and> (0 :: nat) = 0) \<or>
       (\<exists>win acct. Some 3600 = Some win \<and> get_account ''a'' s' = Some acct
          \<and> (5 = (0 :: nat) \<or> count_recent_orders_by_kid 0 (acc_eab_kid acct) win s' \<le> 5)
          \<and> ((0 :: nat) = 0 \<or> count_all_recent_orders 0 win s' \<le> 0))
   | (Inl e, s') \<Rightarrow> s' = sample_db"
  by (rule order_rate_limit [OF wf_sample])

end
