(* ===== verification/CrlWatermark.thy ===== *)
theory CrlWatermark
  imports StoreBase
begin

text \<open>
  The comparison of a freshly verified CRL with the newest one acted on
  (\<open>compare_to_watermark\<close> of \<open>src/src/acme_adcs_ra/crl_evidence.py\<close>) and the compare-and-set
  that moves the stored watermark (\<open>_advance_crl_watermark_in_conn\<close> of
  \<open>src/src/acme_adcs_ra/store.py\<close>). The comments in both say that the two orders must not
  disagree; that is proved here. A CRL number is decimal text read by \<open>int\<close>; an update
  time is a timestamp.
\<close>

section \<open>Reading a number\<close>

text \<open>
  \<open>int(text)\<close> on decimal text: surrounding white space, a sign, digits with single
  underscores between them; \<open>None\<close> is \<open>ValueError\<close>.
\<close>

fun dec_body :: "bool \<Rightarrow> int \<Rightarrow> string \<Rightarrow> int option" where
  "dec_body after_digit acc [] = (if after_digit then Some acc else None)"
| "dec_body after_digit acc (c # cs) =
     (let n = (of_char c :: nat) in
      if 48 \<le> n \<and> n \<le> 57 then dec_body True (acc * 10 + int (n - 48)) cs
      else if c = CHR ''_'' \<and> after_digit then dec_body False acc cs
      else None)"

definition py_int :: "string \<Rightarrow> int option" where
  "py_int s = (case strip_space s of
       [] \<Rightarrow> None
     | c # cs \<Rightarrow> if c = CHR ''-'' then map_option uminus (dec_body False 0 cs)
                 else if c = CHR ''+'' then dec_body False 0 cs
                 else dec_body False 0 (c # cs))"

section \<open>The comparison\<close>

datatype watermark_verdict = WATERMARK_FIRST | WATERMARK_NEWER | WATERMARK_EQUAL | WATERMARK_OLDER
  | WATERMARK_INDETERMINATE

record CrlWatermark =
  cw_issuer_key :: string
  cw_crl_number :: "string option"
  cw_this_update :: "timestamp option"

definition verdict_of :: "int \<Rightarrow> int \<Rightarrow> watermark_verdict" where
  "verdict_of seen served =
     (if served > seen then WATERMARK_NEWER else if served = seen then WATERMARK_EQUAL else WATERMARK_OLDER)"

definition compare_to_watermark ::
  "CrlWatermark option \<Rightarrow> string option \<Rightarrow> timestamp option \<Rightarrow> watermark_verdict" where
  "compare_to_watermark watermark crl_number this_update =
     (case watermark of
        None \<Rightarrow> WATERMARK_FIRST
      | Some wm \<Rightarrow>
          let by_time = (case (this_update, cw_this_update wm) of
                           (Some served_at, Some seen_at) \<Rightarrow> verdict_of seen_at served_at
                         | _ \<Rightarrow> WATERMARK_INDETERMINATE)
          in (case (crl_number, cw_crl_number wm) of
                (Some served_text, Some seen_text) \<Rightarrow>
                  (case (py_int seen_text, py_int served_text) of
                     (Some seen, Some served) \<Rightarrow> verdict_of seen served
                   | _ \<Rightarrow> by_time)
              | _ \<Rightarrow> by_time))"

section \<open>The stored watermark\<close>

definition find_watermark :: "string \<Rightarrow> db \<Rightarrow> WatermarkRow option" where
  "find_watermark issuer_key s = find (\<lambda>r. wm_issuer_key r = issuer_key) (crl_watermark s)"

definition read_crl_watermark :: "string \<Rightarrow> db \<Rightarrow> CrlWatermark option" where
  "read_crl_watermark issuer_key s =
     map_option (\<lambda>r. \<lparr>cw_issuer_key = wm_issuer_key r, cw_crl_number = wm_crl_number r,
                      cw_this_update = Some (wm_this_update r)\<rparr>) (find_watermark issuer_key s)"

definition reset_crl_watermark :: "string \<Rightarrow> db \<Rightarrow> bool \<times> db" where
  "reset_crl_watermark issuer_key s =
     (rowcount (\<lambda>r. wm_issuer_key r = issuer_key) (crl_watermark s) > 0,
      s\<lparr>crl_watermark := filter (\<lambda>r. wm_issuer_key r \<noteq> issuer_key) (crl_watermark s)\<rparr>)"

text \<open>\<open>INSERT ... ON CONFLICT(issuer_key) DO UPDATE\<close>.\<close>

definition upsert_watermark :: "WatermarkRow \<Rightarrow> db \<Rightarrow> db" where
  "upsert_watermark row s =
     (if wm_issuer_key row \<in> wm_issuer_key ` set (crl_watermark s)
      then s\<lparr>crl_watermark := upd_where (\<lambda>r. wm_issuer_key r = wm_issuer_key row) (\<lambda>_. row) (crl_watermark s)\<rparr>
      else s\<lparr>crl_watermark := crl_watermark s @ [row]\<rparr>)"

definition advance_crl_watermark_in_conn ::
  "clock \<Rightarrow> string \<Rightarrow> string option \<Rightarrow> timestamp \<Rightarrow> string option \<Rightarrow> db \<Rightarrow> bool \<times> db" where
  "advance_crl_watermark_in_conn now issuer_key crl_number this_update source_url s =
     (let row = \<lparr>wm_issuer_key = issuer_key, wm_crl_number = crl_number, wm_this_update = this_update,
                 wm_observed_at = now_iso now, wm_source_url = source_url\<rparr> in
      case find_watermark issuer_key s of
        None \<Rightarrow> (True, upsert_watermark row s)
      | Some existing \<Rightarrow>
          let advances =
            (case (crl_number, wm_crl_number existing) of
               (Some new, Some old) \<Rightarrow>
                 (case (py_int new, py_int old) of
                    (Some n, Some m) \<Rightarrow> n > m
                  | _ \<Rightarrow> this_update > wm_this_update existing)
             | _ \<Rightarrow> this_update > wm_this_update existing)
          in if \<not> advances then (False, s) else (True, upsert_watermark row s))"

section \<open>Lemmas\<close>

abbreviation is_digit :: "char \<Rightarrow> bool" where
  "is_digit c \<equiv> 48 \<le> (of_char c :: nat) \<and> (of_char c :: nat) \<le> 57"

lemma dec_body_append_digit:
  assumes "n < 10"
  shows "\<forall>c \<in> set s. is_digit c \<Longrightarrow>
     dec_body True acc (s @ [char_of (48 + n)]) = map_option (\<lambda>v. v * 10 + int n) (dec_body True acc s)"
  by (induction s arbitrary: acc) (use assms in \<open>auto simp: Let_def\<close>)

lemma dec_body_flag: "s \<noteq> [] \<Longrightarrow> \<forall>c \<in> set s. is_digit c \<Longrightarrow> dec_body b acc s = dec_body True acc s"
  by (cases s) (auto simp: Let_def)

lemma show_nat_digits: "c \<in> set (show_nat n) \<Longrightarrow> 48 \<le> (of_char c :: nat) \<and> (of_char c :: nat) \<le> 57"
proof (induction n rule: show_nat.induct)
  case (1 n)
  have "n mod 10 < 10" by simp
  then show ?case using 1 by (subst (asm) (2) show_nat.simps) (auto split: if_splits)
qed

lemma show_nat_ne: "show_nat n \<noteq> []"
  by (subst show_nat.simps) simp

lemma dec_body_show_nat: "dec_body True 0 (show_nat n) = Some (int n)"
proof (induction n rule: show_nat.induct)
  case (1 n)
  show ?case
  proof (cases "n < 10")
    case True
    then show ?thesis by (subst show_nat.simps) simp
  next
    case False
    have "\<forall>c \<in> set (show_nat (n div 10)). is_digit c" using show_nat_digits by blast
    then have "dec_body True 0 (show_nat (n div 10) @ [char_of (48 + n mod 10)]) = Some (int (n div 10) * 10 + int (n mod 10))"
      using 1 [OF False] by (subst dec_body_append_digit) simp_all
    also have "int (n div 10) * 10 + int (n mod 10) = int n"
      by (metis div_mult_mod_eq of_nat_add of_nat_mult of_nat_numeral)
    finally show ?thesis using False by (subst show_nat.simps) simp
  qed
qed

lemma dropWhile_none: "\<forall>c \<in> set s. \<not> p c \<Longrightarrow> dropWhile p s = s"
  by (cases s) auto

lemma strip_space_id: "\<forall>c \<in> set s. \<not> is_space c \<Longrightarrow> strip_space s = s"
  by (simp add: strip_space_def dropWhile_none)

lemma py_int_show_int: "py_int (show_int i) = Some i"
proof -
  have digits: "\<forall>c \<in> set (show_nat n). is_digit c" for n using show_nat_digits by blast
  have dig: "dec_body False 0 (show_nat n) = Some (int n)" for n
    by (rule trans [OF dec_body_flag [OF show_nat_ne digits] dec_body_show_nat])
  have sp: "\<not> is_space c" if "is_digit c" for c
    using that by (auto simp: is_space_def Let_def)
  have minus: "\<not> is_space CHR ''-''" by (simp add: is_space_def)
  show ?thesis
  proof (cases "i < 0")
    case True
    have "strip_space (CHR ''-'' # show_nat (nat (- i))) = CHR ''-'' # show_nat (nat (- i))"
      by (rule strip_space_id) (use digits sp minus in auto)
    with True dig show ?thesis by (simp add: py_int_def show_int_def)
  next
    case False
    obtain c cs where c: "show_nat (nat i) = c # cs" using show_nat_ne by (metis neq_Nil_conv)
    have "strip_space (show_nat (nat i)) = show_nat (nat i)"
      by (rule strip_space_id) (use digits sp in blast)
    moreover have "is_digit c" using digits [of "nat i"] c by simp
    then have "c \<noteq> CHR ''-''" "c \<noteq> CHR ''+''" by auto
    ultimately show ?thesis using False dig [of "nat i"] c by (simp add: py_int_def show_int_def)
  qed
qed

lemma find_upsert:
  "find_watermark k (upsert_watermark row s) =
     (if k = wm_issuer_key row then Some row else find_watermark k s)"
proof (cases "wm_issuer_key row \<in> wm_issuer_key ` set (crl_watermark s)")
  case True
  then have f: "find (\<lambda>r. wm_issuer_key r = wm_issuer_key row) (crl_watermark s) \<noteq> None"
    by (auto simp: find_None)
  have "find (\<lambda>r. wm_issuer_key r = k) (upd_where (\<lambda>r. wm_issuer_key r = wm_issuer_key row) (\<lambda>_. row) (crl_watermark s))
      = map_option (\<lambda>r. if wm_issuer_key r = wm_issuer_key row then row else r)
          (find (\<lambda>r. wm_issuer_key r = k) (crl_watermark s))"
    by (rule find_upd_where) simp
  with True f show ?thesis
    by (cases "find (\<lambda>r. wm_issuer_key r = k) (crl_watermark s)")
       (auto simp: find_watermark_def upsert_watermark_def dest: find_Some_in)
next
  case False
  then have "find (\<lambda>r. wm_issuer_key r = wm_issuer_key row) (crl_watermark s) = None"
    unfolding find_None by (metis image_eqI)
  with False show ?thesis
    by (auto simp: find_watermark_def upsert_watermark_def find_append split: option.split)
qed

lemma wf_upsert: "wf_db s \<Longrightarrow> wf_db (upsert_watermark row s)"
  by (auto simp: wf_db_def upsert_watermark_def map_upd_where)

lemma wf_advance: "wf_db s \<Longrightarrow> wf_db (snd (advance_crl_watermark_in_conn now k n t u s))"
  by (auto simp: advance_crl_watermark_in_conn_def Let_def wf_upsert split: option.split)

lemma wf_reset_watermark: "wf_db s \<Longrightarrow> wf_db (snd (reset_crl_watermark k s))"
  by (simp add: wf_db_def reset_crl_watermark_def distinct_map_filter)

lemma advance_frame [simp]:
  "accounts (snd (advance_crl_watermark_in_conn now k n t u s)) = accounts s"
  "orders (snd (advance_crl_watermark_in_conn now k n t u s)) = orders s"
  "certificates (snd (advance_crl_watermark_in_conn now k n t u s)) = certificates s"
  "audit_log (snd (advance_crl_watermark_in_conn now k n t u s)) = audit_log s"
  "audit_seq (snd (advance_crl_watermark_in_conn now k n t u s)) = audit_seq s"
  by (auto simp: advance_crl_watermark_in_conn_def upsert_watermark_def Let_def split: option.split)

section \<open>Properties\<close>

text \<open>
  The two comparisons agree: the stored watermark moves exactly when
  \<open>compare_to_watermark\<close>, asked about the stored watermark, answers that the document is
  the first seen or newer. When it moves, the document becomes the watermark of that
  issuer and of no other; when it does not, nothing changes.
\<close>

theorem watermark_agreement:
  "case advance_crl_watermark_in_conn now k num upd url s of (moved, s') \<Rightarrow>
     (moved \<longleftrightarrow> compare_to_watermark (read_crl_watermark k s) num (Some upd) \<in> {WATERMARK_FIRST, WATERMARK_NEWER})
     \<and> (if moved
        then (\<forall>j. read_crl_watermark j s' =
               (if j = k then Some \<lparr>cw_issuer_key = k, cw_crl_number = num, cw_this_update = Some upd\<rparr>
                else read_crl_watermark j s))
        else s' = s)"
proof -
  let ?row = "\<lparr>wm_issuer_key = k, wm_crl_number = num, wm_this_update = upd,
                 wm_observed_at = now_iso now, wm_source_url = url\<rparr>"
  have read: "read_crl_watermark j (upsert_watermark ?row s) =
      (if j = k then Some \<lparr>cw_issuer_key = k, cw_crl_number = num, cw_this_update = Some upd\<rparr>
       else read_crl_watermark j s)" for j
    by (simp add: read_crl_watermark_def find_upsert)
  show ?thesis
  proof (cases "find_watermark k s")
    case None
    then show ?thesis using read
      by (simp add: advance_crl_watermark_in_conn_def compare_to_watermark_def read_crl_watermark_def Let_def)
  next
    case (Some old)
    then show ?thesis using read
      by (auto simp: advance_crl_watermark_in_conn_def compare_to_watermark_def read_crl_watermark_def
          verdict_of_def Let_def split: option.splits)
  qed
qed

text \<open>
  Text and number agree: a CRL number written as decimal text is read back as the same
  number, so for two documents that carry numbers the verdict is the numeric order.
\<close>

theorem compare_by_number:
  "compare_to_watermark (Some \<lparr>cw_issuer_key = k, cw_crl_number = Some (show_int m), cw_this_update = t\<rparr>)
     (Some (show_int n)) t'
   = (if n > m then WATERMARK_NEWER else if n = m then WATERMARK_EQUAL else WATERMARK_OLDER)"
  by (simp add: compare_to_watermark_def py_int_show_int verdict_of_def)

end
