(* ===== verification/StoreCertificates.thy ===== *)
theory StoreCertificates
  imports StoreOrders CrlWatermark "HOL-Library.Option_ord"
begin

text \<open>
  Certificates of \<open>src/src/acme_adcs_ra/store.py\<close>: issuance, quarantine and revocation,
  each one transaction with its audit row; the CA-side confirmation and the feed that drives
  it; the recovered chain; the validity summary the audit retention floor rests on.
  \<open>certificate_url_fn\<close> and the fresh \<open>uuid4\<close> are arguments. The chain column holds the
  decoded list, so a chain that does not parse has no counterpart.
\<close>

section \<open>Operations\<close>

definition get_certificate_by_order :: "string \<Rightarrow> db \<Rightarrow> CertRow option" where
  "get_certificate_by_order order_id s =
     find (\<lambda>r. cert_order_id r = order_id \<and> cert_status r \<noteq> CertQUARANTINED) (certificates s)"

definition put_certificate :: "CertRow \<Rightarrow> db \<Rightarrow> store_error + db" where
  "put_certificate row s =
     (if cert_id row \<in> cert_id ` set (certificates s)
         \<or> idx_certificates_order s \<and> cert_order_id row \<in> cert_order_id ` set (certificates s)
      then Inl IntegrityError
      else Inr (s\<lparr>certificates := certificates s @ [row]\<rparr>))"

record issued =
  is_order_id :: string
  is_account_id :: string
  is_cert_pem :: string
  is_chain_pem :: "string list"
  is_template :: string
  is_requester :: string
  is_metadata :: "(string \<times> string) list"

definition new_cert_row ::
  "string \<Rightarrow> issued \<Rightarrow> timestamp \<Rightarrow> string \<Rightarrow> timestamp \<times> timestamp \<Rightarrow> CertRow" where
  "new_cert_row cid i issued_at serial validity =
     \<lparr>cert_id = cid, cert_order_id = is_order_id i, cert_account_id = is_account_id i,
      cert_pem = is_cert_pem i, cert_chain_pem = is_chain_pem i, cert_template = is_template i,
      cert_requester = is_requester i, cert_issued_at = issued_at, cert_metadata = is_metadata i,
      cert_serial = Some serial, cert_status = CertVALID, cert_revocation_reason = None,
      cert_revoked_at = None, cert_ca_crl_updated = False,
      cert_not_before = Some (fst validity), cert_not_after = Some (snd validity)\<rparr>"

definition create_certificate ::
  "ext \<Rightarrow> clock \<Rightarrow> string \<Rightarrow> issued \<Rightarrow> db \<Rightarrow> (store_error + CertRow) \<times> db" where
  "create_certificate x now cid i s =
     (case serial_from_pem x (is_cert_pem i) of
        Inl e \<Rightarrow> (Inl e, s)
      | Inr serial \<Rightarrow>
          (case validity_from_pem x (is_cert_pem i) of
             Inl e \<Rightarrow> (Inl e, s)
           | Inr validity \<Rightarrow>
               let row = new_cert_row cid i (now_iso now) serial validity in
               with_conn (\<lambda>s. rbind (put_certificate row s) (\<lambda>s'. Inr (row, s'))) s))"

text \<open>\<open>url.rsplit('/', 1)[-1]\<close>\<close>

definition last_segment :: "string \<Rightarrow> string" where
  "last_segment url = last (split_on CHR ''/'' url)"

definition issuance_audit ::
  "string \<Rightarrow> issued \<Rightarrow> string list \<Rightarrow> string \<Rightarrow> details \<Rightarrow> audit_args" where
  "issuance_audit event i sans outcome d =
     \<lparr>ev_type = event, ev_account = Some (is_account_id i), ev_order = Some (is_order_id i),
      ev_sans = sans, ev_template = Some (is_template i), ev_requester = Some (is_requester i),
      ev_outcome = outcome, ev_details = Some d\<rparr>"

definition json_opt :: "string option \<Rightarrow> json" where
  "json_opt t = (case t of None \<Rightarrow> JNull | Some s \<Rightarrow> JStr s)"

definition winner_certificate_id :: "string \<Rightarrow> db \<Rightarrow> string option" where
  "winner_certificate_id order_id s =
     (case get_order order_id s of
        None \<Rightarrow> None
      | Some r \<Rightarrow> (case ord_certificate_url r of
                     None \<Rightarrow> None
                   | Some u \<Rightarrow> if u = [] then None else Some (last_segment u)))"

definition issuance_event ::
  "CertRow \<Rightarrow> issued \<Rightarrow> string list \<Rightarrow> string \<Rightarrow> bool \<Rightarrow> string option \<Rightarrow> audit_args" where
  "issuance_event row i sans csr_subject applied winner =
     (if applied
      then issuance_audit ''certificate-issued'' i sans ''success''
             [(''certificate_id'', JStr (cert_id row)), (''serial'', json_opt (cert_serial row)),
              (''csr_subject'', JStr csr_subject)]
      else issuance_audit ''finalize-enrollment-race'' i sans ''failed''
             [(''certificate_id'', JStr (cert_id row)), (''serial'', json_opt (cert_serial row)),
              (''winner_certificate_id'', json_opt winner), (''reason'', JStr ''lost-processing-cas'')])"

definition issue_where :: "string \<Rightarrow> nat option \<Rightarrow> OrderRow \<Rightarrow> bool" where
  "issue_where order_id gen r \<longleftrightarrow> ord_id r = order_id \<and> ord_status r = PROCESSING \<and> processing_cas gen r"

definition issue_set :: "string \<Rightarrow> OrderRow \<Rightarrow> OrderRow" where
  "issue_set url r = r\<lparr>ord_status := VALID, ord_certificate_url := Some url\<rparr>"

text \<open>
  The transaction of \<open>record_issuance\<close>, after the read of an existing certificate, which is
  a connection of its own.
\<close>

definition issuance_txn ::
  "ext \<Rightarrow> clock \<Rightarrow> CertRow option \<Rightarrow> CertRow \<Rightarrow> string \<Rightarrow> issued \<Rightarrow> string list \<Rightarrow> string \<Rightarrow> nat option
     \<Rightarrow> (db, store_error, bool \<times> AuditRow) txn" where
  "issuance_txn x now existing row url i sans csr_subject gen s =
     rbind (if existing = None then put_certificate row s else Inr s) (\<lambda>s1.
       let (applied, s2) = cas_orders (issue_where (is_order_id i) gen) (issue_set url) s1;
           (event, s3) = record_audit_in_conn x now
             (issuance_event row i sans csr_subject applied (winner_certificate_id (is_order_id i) s2)) s2
       in Inr ((applied, event), s3))"

definition record_issuance ::
  "ext \<Rightarrow> clock \<Rightarrow> string \<Rightarrow> issued \<Rightarrow> (string \<Rightarrow> string) \<Rightarrow> string list \<Rightarrow> string \<Rightarrow> nat option
     \<Rightarrow> db \<Rightarrow> (store_error + CertRow \<times> bool \<times> AuditRow) \<times> db" where
  "record_issuance x now cid i url_fn sans csr_subject gen s =
     (let existing = get_certificate_by_order (is_order_id i) s;
          cid' = (case existing of None \<Rightarrow> cid | Some c \<Rightarrow> cert_id c);
          issued_at = (case existing of None \<Rightarrow> now_iso now | Some c \<Rightarrow> cert_issued_at c)
      in case serial_from_pem x (is_cert_pem i) of
           Inl e \<Rightarrow> (Inl e, s)
         | Inr serial \<Rightarrow>
             (case validity_from_pem x (is_cert_pem i) of
                Inl e \<Rightarrow> (Inl e, s)
              | Inr validity \<Rightarrow>
                  let row = new_cert_row cid' i issued_at serial validity in
                  case with_conn (issuance_txn x now existing row (url_fn cid') i sans csr_subject gen) s of
                    (Inl e, s') \<Rightarrow> (Inl e, s')
                  | (Inr (applied, event), s') \<Rightarrow> (Inr (row, applied, event), s')))"

definition quarantine_certificate ::
  "ext \<Rightarrow> clock \<Rightarrow> string \<Rightarrow> issued \<Rightarrow> string \<Rightarrow> string list \<Rightarrow> string \<Rightarrow> string list \<Rightarrow> details
     \<Rightarrow> db \<Rightarrow> (store_error + CertRow \<times> AuditRow) \<times> db" where
  "quarantine_certificate x now cid i event_type violations reason sans extra s =
     (case serial_from_pem x (is_cert_pem i) of
        Inl e \<Rightarrow> (Inl e, s)
      | Inr serial \<Rightarrow>
          (case validity_from_pem x (is_cert_pem i) of
             Inl e \<Rightarrow> (Inl e, s)
           | Inr validity \<Rightarrow>
               let row = (new_cert_row cid i (now_iso now) serial validity)
                     \<lparr>cert_status := CertQUARANTINED, cert_revocation_reason := Some 0,
                      cert_revoked_at := Some (now_iso now)\<rparr>;
                   req_id = (case map_of (is_metadata i) ''req_id'' of None \<Rightarrow> [] | Some r \<Rightarrow> r);
                   d = fold (\<lambda>(k, v). dict_set k v) extra
                     [(''certificate_id'', JStr cid), (''serial'', JStr serial), (''req_id'', JStr req_id),
                      (''violations'', JList (map JStr violations)), (''reason'', JStr reason),
                      (''quarantined'', JBool True), (''pending_ca_revocation'', JBool True)]
               in with_conn (\<lambda>s.
                    rbind (put_certificate row s) (\<lambda>s1.
                      let s2 = upd_orders
                            (\<lambda>r. ord_id r = is_order_id i \<and> ord_status r \<in> {PROCESSING, READY})
                            (\<lambda>r. r\<lparr>ord_status := INVALID\<rparr>) s1;
                          (event, s3) = record_audit_in_conn x now (issuance_audit event_type i sans ''failed'' d) s2
                      in Inr ((row, event), s3))) s))"

definition get_certificate :: "string \<Rightarrow> db \<Rightarrow> CertRow option" where
  "get_certificate cid s = find (\<lambda>r. cert_id r = cid) (certificates s)"

definition get_certificate_by_serial :: "string \<Rightarrow> string option \<Rightarrow> db \<Rightarrow> CertRow option" where
  "get_certificate_by_serial serial_hex account_id s =
     (let lookup = canonical_serial serial_hex in
      case account_id of
        Some a \<Rightarrow> find (\<lambda>r. cert_serial r = Some lookup \<and> cert_account_id r = a) (certificates s)
      | None \<Rightarrow> find (\<lambda>r. cert_serial r = Some lookup) (certificates s))"

record RevocationUpdate =
  rv_record :: "CertRow option"
  won_cas :: bool

definition revoke_where :: "string \<Rightarrow> CertRow \<Rightarrow> bool" where
  "revoke_where cid r \<longleftrightarrow> cert_id r = cid \<and> cert_status r = CertVALID"

definition revoke_set :: "int option \<Rightarrow> timestamp \<Rightarrow> CertRow \<Rightarrow> CertRow" where
  "revoke_set reason timestamp r =
     r\<lparr>cert_status := CertREVOKED, cert_revocation_reason := reason, cert_revoked_at := Some timestamp\<rparr>"

definition record_revocation ::
  "ext \<Rightarrow> clock \<Rightarrow> string \<Rightarrow> string \<Rightarrow> string \<Rightarrow> int option \<Rightarrow> timestamp option \<Rightarrow> string list \<Rightarrow> details
     \<Rightarrow> db \<Rightarrow> (RevocationUpdate \<times> AuditRow option) \<times> db" where
  "record_revocation x now cid order_id account_id reason revoked_at sans d s =
     (let timestamp = (case revoked_at of None \<Rightarrow> now_iso now | Some t \<Rightarrow> t);
          won = (rowcount (revoke_where cid) (certificates s) = 1);
          s1 = s\<lparr>certificates := upd_where (revoke_where cid) (revoke_set reason timestamp) (certificates s)\<rparr>
      in case get_certificate cid s1 of
           None \<Rightarrow> ((\<lparr>rv_record = None, won_cas = False\<rparr>, None), s1)
         | Some row \<Rightarrow>
             if \<not> won then ((\<lparr>rv_record = Some row, won_cas = False\<rparr>, None), s1)
             else
               let s2 = snd (transition_to_revoked now order_id s1);
                   (event, s3) = record_audit_in_conn x now
                     \<lparr>ev_type = ''certificate-revoked'', ev_account = Some account_id,
                      ev_order = Some order_id, ev_sans = sans, ev_template = None, ev_requester = None,
                      ev_outcome = ''success'', ev_details = Some d\<rparr> s2
               in ((\<lparr>rv_record = Some row, won_cas = True\<rparr>, Some event), s3))"

definition revoke_certificate ::
  "clock \<Rightarrow> string \<Rightarrow> int option \<Rightarrow> timestamp option \<Rightarrow> db \<Rightarrow> RevocationUpdate \<times> db" where
  "revoke_certificate now cid reason revoked_at s =
     (let timestamp = (case revoked_at of None \<Rightarrow> now_iso now | Some t \<Rightarrow> t);
          s1 = s\<lparr>certificates := upd_where (revoke_where cid) (revoke_set reason timestamp) (certificates s)\<rparr>
      in if rowcount (revoke_where cid) (certificates s) = 1
         then (case get_certificate cid s1 of
                 None \<Rightarrow> (\<lparr>rv_record = None, won_cas = False\<rparr>, s1)
               | Some row \<Rightarrow> (\<lparr>rv_record = Some row, won_cas = True\<rparr>, s1))
         else (\<lparr>rv_record = get_certificate cid s1, won_cas = False\<rparr>, s1))"

definition awaiting_ca :: "CertRow \<Rightarrow> bool" where
  "awaiting_ca r \<longleftrightarrow> cert_status r \<in> {CertREVOKED, CertQUARANTINED} \<and> \<not> cert_ca_crl_updated r"

definition list_revoked_certificates :: "nat \<Rightarrow> db \<Rightarrow> CertRow list" where
  "list_revoked_certificates limit s =
     take limit (rev (sort_key cert_revoked_at (filter awaiting_ca (certificates s))))"

definition list_certificate_chains :: "nat \<Rightarrow> db \<Rightarrow> (string \<times> string list) list" where
  "list_certificate_chains limit s =
     map (\<lambda>r. (cert_id r, cert_chain_pem r))
       (take limit (rev (sort_key cert_issued_at (sort_key cert_id
          (filter (\<lambda>r. cert_chain_pem r \<noteq> []) (certificates s))))))"

definition attach_recovered_chain_with_audit ::
  "ext \<Rightarrow> clock \<Rightarrow> string \<Rightarrow> string list \<Rightarrow> audit_args \<Rightarrow> db \<Rightarrow> (CertRow option \<times> AuditRow option) \<times> db" where
  "attach_recovered_chain_with_audit x now cid chain audit s =
     (let p = (\<lambda>r. cert_id r = cid \<and> cert_chain_pem r = []);
          s1 = s\<lparr>certificates := upd_where p (\<lambda>r. r\<lparr>cert_chain_pem := chain\<rparr>) (certificates s)\<rparr>
      in if rowcount p (certificates s) \<noteq> 1 then ((None, None), s1)
         else case get_certificate cid s1 of
                None \<Rightarrow> ((None, None), s1)
              | Some row \<Rightarrow>
                  let (event, s2) = record_audit_in_conn x now audit s1
                  in ((Some row, Some event), s2))"

definition confirm_where :: "string \<Rightarrow> CertRow \<Rightarrow> bool" where
  "confirm_where serial_hex r \<longleftrightarrow> cert_serial r = Some (canonical_serial serial_hex) \<and> awaiting_ca r"

definition confirm_ca_revocation :: "string \<Rightarrow> db \<Rightarrow> bool \<times> db" where
  "confirm_ca_revocation serial_hex s =
     (rowcount (confirm_where serial_hex) (certificates s) = 1,
      s\<lparr>certificates := upd_where (confirm_where serial_hex) (\<lambda>r. r\<lparr>cert_ca_crl_updated := True\<rparr>)
          (certificates s)\<rparr>)"

definition confirm_ca_revocation_with_audit ::
  "ext \<Rightarrow> clock \<Rightarrow> string \<Rightarrow> audit_args \<Rightarrow> CrlWatermark option \<Rightarrow> string option
     \<Rightarrow> db \<Rightarrow> (bool \<times> AuditRow option) \<times> db" where
  "confirm_ca_revocation_with_audit x now serial_hex audit watermark_advance source_url s =
     (let (won, s1) = confirm_ca_revocation serial_hex s in
      if \<not> won then ((False, None), s1)
      else
        let s2 = (case watermark_advance of
              None \<Rightarrow> s1
            | Some w \<Rightarrow> (case cw_this_update w of
                          None \<Rightarrow> s1
                        | Some t \<Rightarrow> snd (advance_crl_watermark_in_conn now (cw_issuer_key w)
                                           (cw_crl_number w) t source_url s1)));
            (event, s3) = record_audit_in_conn x now audit s2
        in ((True, Some event), s3))"

text \<open>
  The validity in days, rounded up: the largest over all certificates, and how many rows
  have no validity. The difference of two whole-second instants is taken exactly.
\<close>

definition validity_days :: "CertRow \<Rightarrow> int" where
  "validity_days r = - ((the (cert_not_before r) - the (cert_not_after r)) div 86400)"

definition validity_unknown :: "CertRow \<Rightarrow> bool" where
  "validity_unknown r \<longleftrightarrow> cert_not_before r = None \<or> cert_not_after r = None"

definition certificate_validity_summary :: "db \<Rightarrow> int option \<times> nat" where
  "certificate_validity_summary s =
     (let unknown = rowcount validity_unknown (certificates s) in
      if certificates s = [] \<or> unknown \<noteq> 0 then (None, unknown)
      else (Some (Max (set (map validity_days (certificates s)))), unknown))"

section \<open>The life of a certificate row\<close>

text \<open>
  What an operation may do to a row: the certificate itself never changes, an empty chain
  may be filled, a valid certificate may become revoked, and the CA confirmation is set
  once, on a row that awaits it. Rows are never removed.
\<close>

definition cert_identity ::
  "CertRow \<Rightarrow> string \<times> string \<times> string \<times> string \<times> string \<times> string \<times> timestamp \<times> string option
     \<times> timestamp option \<times> timestamp option" where
  "cert_identity r = (cert_id r, cert_order_id r, cert_account_id r, cert_pem r, cert_template r,
     cert_requester r, cert_issued_at r, cert_serial r, cert_not_before r, cert_not_after r)"

definition cert_step :: "CertRow \<Rightarrow> CertRow \<Rightarrow> bool" where
  "cert_step r r' \<longleftrightarrow> cert_identity r' = cert_identity r
     \<and> (cert_chain_pem r' = cert_chain_pem r \<or> cert_chain_pem r = [])
     \<and> (if cert_status r = cert_status r'
        then cert_revocation_reason r' = cert_revocation_reason r \<and> cert_revoked_at r' = cert_revoked_at r
        else cert_status r = CertVALID \<and> cert_status r' = CertREVOKED)
     \<and> (cert_ca_crl_updated r' = cert_ca_crl_updated r \<or> awaiting_ca r \<and> cert_ca_crl_updated r')"

definition certs_evolve :: "CertRow list \<Rightarrow> CertRow list \<Rightarrow> bool" where
  "certs_evolve rows rows' \<longleftrightarrow>
     list_all2 cert_step rows (take (length rows) rows')
     \<and> (\<forall>r \<in> set (drop (length rows) rows').
          cert_serial r \<noteq> None \<and> \<not> validity_unknown r \<and> \<not> cert_ca_crl_updated r \<and> cert_status r \<noteq> CertREVOKED)"

lemma cert_step_refl [simp]: "cert_step r r"
  by (simp add: cert_step_def)

lemma cert_step_id: "cert_step r r' \<Longrightarrow> cert_id r' = cert_id r"
  by (simp add: cert_step_def cert_identity_def)

lemma all2_cert_refl [simp]: "list_all2 cert_step rows rows"
  by (simp add: list_all2_refl)

lemma certs_evolve_refl [simp]: "certs_evolve rows rows"
  by (simp add: certs_evolve_def)

lemma certs_evolve_upd:
  assumes "\<And>r. p r \<Longrightarrow> cert_step r (f r)"
  shows "certs_evolve rows (upd_where p f rows)"
proof -
  have "list_all2 cert_step rows (upd_where p f rows)"
    using assms by (induction rows) auto
  then show ?thesis by (simp add: certs_evolve_def)
qed

lemma certs_evolve_new:
  "cert_serial r \<noteq> None \<Longrightarrow> \<not> validity_unknown r \<Longrightarrow> \<not> cert_ca_crl_updated r \<Longrightarrow> cert_status r \<noteq> CertREVOKED
   \<Longrightarrow> certs_evolve rows (rows @ [r])"
  by (simp add: certs_evolve_def)

lemma certs_evolve_find:
  assumes "certs_evolve rows rows'" "find (\<lambda>r. cert_id r = i) rows = Some r"
  shows "\<exists>r'. find (\<lambda>r. cert_id r = i) rows' = Some r' \<and> cert_step r r'"
proof -
  have "list_all2 cert_step rows old \<Longrightarrow> find (\<lambda>r. cert_id r = i) rows = Some r \<Longrightarrow>
      \<exists>r'. find (\<lambda>r. cert_id r = i) old = Some r' \<and> cert_step r r'" for old
    by (induction rule: list_all2_induct) (auto split: if_splits dest: cert_step_id)
  then have "\<exists>r'. find (\<lambda>r. cert_id r = i) (take (length rows) rows') = Some r' \<and> cert_step r r'"
    using assms unfolding certs_evolve_def by blast
  moreover have "find (\<lambda>r. cert_id r = i) rows' =
      (case find (\<lambda>r. cert_id r = i) (take (length rows) rows') of
         None \<Rightarrow> find (\<lambda>r. cert_id r = i) (drop (length rows) rows') | Some r \<Rightarrow> Some r)"
    by (simp only: find_append [symmetric] append_take_drop_id)
  ultimately show ?thesis by auto
qed

section \<open>Well-formedness\<close>

lemma put_certificate_ok:
  "put_certificate row s = Inr s' \<longleftrightarrow>
     s' = s\<lparr>certificates := certificates s @ [row]\<rparr> \<and> cert_id row \<notin> cert_id ` set (certificates s)
     \<and> (idx_certificates_order s \<longrightarrow> cert_order_id row \<notin> cert_order_id ` set (certificates s))"
  by (auto simp: put_certificate_def)

lemma wf_put_certificate: "wf_db s \<Longrightarrow> put_certificate row s = Inr s' \<Longrightarrow> wf_db s'"
  unfolding put_certificate_ok by (auto simp: wf_db_def)

lemma wf_upd_certificates:
  assumes "wf_db s" "\<And>r. p r \<Longrightarrow> cert_id (f r) = cert_id r" "\<And>r. p r \<Longrightarrow> cert_order_id (f r) = cert_order_id r"
  shows "wf_db (s\<lparr>certificates := upd_where p f (certificates s)\<rparr>)"
  using assms by (simp add: wf_db_def map_upd_where)

lemma wf_cas_orders:
  assumes "wf_db s" "\<And>r. p r \<Longrightarrow> ord_id (f r) = ord_id r"
  shows "wf_db (snd (cas_orders p f s))"
  using assms by (simp add: wf_db_def cas_orders_def upd_orders_def map_upd_where)

lemma cas_orders_frame [simp]:
  "certificates (snd (cas_orders p f s)) = certificates s"
  "audit_log (snd (cas_orders p f s)) = audit_log s"
  "accounts (snd (cas_orders p f s)) = accounts s"
  "audit_seq (snd (cas_orders p f s)) = audit_seq s"
  "orders (snd (cas_orders p f s)) = upd_where p f (orders s)"
  by (simp_all add: cas_orders_def upd_orders_def)

lemma issuance_event_simps [simp]:
  "ev_type (issuance_event row i sans csr applied w) = (if applied then ''certificate-issued'' else ''finalize-enrollment-race'')"
  "ev_order (issuance_event row i sans csr applied w) = Some (is_order_id i)"
  "ev_account (issuance_event row i sans csr applied w) = Some (is_account_id i)"
  "ev_sans (issuance_event row i sans csr applied w) = sans"
  by (simp_all add: issuance_event_def issuance_audit_def)

lemma issuance_txn_ok:
  assumes "issuance_txn x now existing row url i sans csr gen s = Inr ((applied, ev), s')"
  obtains s1 s2 audit where "(if existing = None then put_certificate row s else Inr s) = Inr s1"
    "(applied, s2) = cas_orders (issue_where (is_order_id i) gen) (issue_set url) s1"
    "audit = issuance_event row i sans csr applied (winner_certificate_id (is_order_id i) s2)"
    "ev = fst (record_audit_in_conn x now audit s2)" "s' = snd (record_audit_in_conn x now audit s2)"
proof -
  from assms obtain s1 where s1: "(if existing = None then put_certificate row s else Inr s) = Inr s1"
    and eq: "(let (applied, s2) = cas_orders (issue_where (is_order_id i) gen) (issue_set url) s1;
           (event, s3) = record_audit_in_conn x now
             (issuance_event row i sans csr applied (winner_certificate_id (is_order_id i) s2)) s2
       in Inr ((applied, event), s3)) = (Inr ((applied, ev), s') :: store_error + _)"
    unfolding issuance_txn_def by (auto simp del: split_paired_Ex)
  obtain a2 s2 where cas: "cas_orders (issue_where (is_order_id i) gen) (issue_set url) s1 = (a2, s2)"
    by (metis prod.collapse)
  obtain e3 s3 where rec: "record_audit_in_conn x now
      (issuance_event row i sans csr a2 (winner_certificate_id (is_order_id i) s2)) s2 = (e3, s3)"
    by (metis prod.collapse)
  from eq have same: "a2 = applied" "e3 = ev" "s3 = s'" unfolding cas Let_def prod.case rec by simp_all
  show thesis
    by (rule that [OF s1 cas [symmetric, unfolded same] refl])
       (simp_all only: rec [unfolded same] fst_conv snd_conv)
qed

lemma record_issuance_cases:
  obtains (failed) e where "record_issuance x now cid i url sans csr gen s = (Inl e, s)"
  | (stored) row applied ev s' serial validity where
      "record_issuance x now cid i url sans csr gen s = (Inr (row, applied, ev), s')"
      "row = new_cert_row (case get_certificate_by_order (is_order_id i) s of None \<Rightarrow> cid | Some c \<Rightarrow> cert_id c) i
         (case get_certificate_by_order (is_order_id i) s of None \<Rightarrow> now_iso now | Some c \<Rightarrow> cert_issued_at c)
         serial validity"
      "issuance_txn x now (get_certificate_by_order (is_order_id i) s) row (url (cert_id row)) i sans csr gen s
         = Inr ((applied, ev), s')"
proof -
  define ex where "ex = get_certificate_by_order (is_order_id i) s"
  define cid' where "cid' = (case ex of None \<Rightarrow> cid | Some c \<Rightarrow> cert_id c)"
  define at where "at = (case ex of None \<Rightarrow> now_iso now | Some c \<Rightarrow> cert_issued_at c)"
  show thesis
  proof (cases "serial_from_pem x (is_cert_pem i)")
    case (Inl e)
    then show thesis by (intro failed) (simp add: record_issuance_def Let_def)
  next
    case (Inr serial)
    note ser = this
    show thesis
    proof (cases "validity_from_pem x (is_cert_pem i)")
      case (Inl e)
      with ser show thesis by (intro failed) (simp add: record_issuance_def Let_def)
    next
      case (Inr validity)
      define row where "row = new_cert_row cid' i at serial validity"
      have rid: "cert_id row = cid'" by (simp add: row_def new_cert_row_def)
      have eq: "record_issuance x now cid i url sans csr gen s =
          (case with_conn (issuance_txn x now ex row (url cid') i sans csr gen) s of
                    (Inl e, s') \<Rightarrow> (Inl e, s')
                  | (Inr (applied, event), s') \<Rightarrow> (Inr (row, applied, event), s'))"
        by (simp only: record_issuance_def Let_def ser Inr sum.case row_def cid'_def at_def ex_def)
      show thesis
      proof (cases "issuance_txn x now ex row (url cid') i sans csr gen s")
        case (Inl e)
        then show thesis by (intro failed) (simp add: eq)
      next
        case (Inr r)
        obtain applied ev s' where r: "r = ((applied, ev), s')" by (metis prod.collapse)
        show thesis
        proof (rule stored)
          show "record_issuance x now cid i url sans csr gen s = (Inr (row, applied, ev), s')"
            using Inr r by (simp add: eq)
        qed (use Inr r rid in \<open>simp_all add: row_def at_def cid'_def ex_def\<close>)
      qed
    qed
  qed
qed

lemma new_cert_row_simps [simp]:
  "cert_id (new_cert_row cid i t ser v) = cid" "cert_order_id (new_cert_row cid i t ser v) = is_order_id i"
  "cert_status (new_cert_row cid i t ser v) = CertVALID" "cert_pem (new_cert_row cid i t ser v) = is_cert_pem i"
  "cert_serial (new_cert_row cid i t ser v) = Some ser" "cert_ca_crl_updated (new_cert_row cid i t ser v) = False"
  "cert_account_id (new_cert_row cid i t ser v) = is_account_id i"
  "cert_not_before (new_cert_row cid i t ser v) = Some (fst v)"
  "cert_not_after (new_cert_row cid i t ser v) = Some (snd v)"
  by (simp_all add: new_cert_row_def)

lemma issuance_txn_effect:
  assumes "issuance_txn x now existing row url i sans csr gen s = Inr ((applied, ev), s')"
  shows "certificates s' = (if existing = None then certificates s @ [row] else certificates s)"
    and "existing \<noteq> None \<or> (\<exists>s1. put_certificate row s = Inr s1)"
    and "(applied, orders s') =
       (fst (cas_orders (issue_where (is_order_id i) gen) (issue_set url) s),
        orders (snd (cas_orders (issue_where (is_order_id i) gen) (issue_set url) s)))"
    and "audit_log s' = audit_log s @ [ev]" and "accounts s' = accounts s"
    and "aud_event_type ev = (if applied then ''certificate-issued'' else ''finalize-enrollment-race'')"
    and "aud_order_id ev = Some (is_order_id i) \<and> aud_account_id ev = Some (is_account_id i) \<and> aud_sans ev = sans"
    and "wf_db s \<longrightarrow> wf_db s'"
proof -
  from assms obtain s1 s2 audit where 1: "(if existing = None then put_certificate row s else Inr s) = Inr s1"
    "(applied, s2) = cas_orders (issue_where (is_order_id i) gen) (issue_set url) s1"
    "audit = issuance_event row i sans csr applied (winner_certificate_id (is_order_id i) s2)"
    "ev = fst (record_audit_in_conn x now audit s2)" "s' = snd (record_audit_in_conn x now audit s2)"
    by (rule issuance_txn_ok)
  have s1: "s1 = (if existing = None then s\<lparr>certificates := certificates s @ [row]\<rparr> else s)"
    using 1(1) by (auto simp: put_certificate_ok split: if_splits)
  have s2: "s2 = snd (cas_orders (issue_where (is_order_id i) gen) (issue_set url) s1)"
    and ap: "applied = fst (cas_orders (issue_where (is_order_id i) gen) (issue_set url) s1)"
    using 1(2) by (metis snd_conv, metis fst_conv)
  show "certificates s' = (if existing = None then certificates s @ [row] else certificates s)"
    "audit_log s' = audit_log s @ [ev]" "accounts s' = accounts s"
    by (simp_all add: 1(4,5) s2 s1)
  show "aud_event_type ev = (if applied then ''certificate-issued'' else ''finalize-enrollment-race'')"
    "aud_order_id ev = Some (is_order_id i) \<and> aud_account_id ev = Some (is_account_id i) \<and> aud_sans ev = sans"
    by (simp_all add: 1(3,4))
  show "existing \<noteq> None \<or> (\<exists>s1. put_certificate row s = Inr s1)"
    using 1(1) by (auto split: if_splits)
  show "(applied, orders s') =
       (fst (cas_orders (issue_where (is_order_id i) gen) (issue_set url) s),
        orders (snd (cas_orders (issue_where (is_order_id i) gen) (issue_set url) s)))"
    by (simp add: ap 1(5) s2 s1 cas_orders_def upd_orders_def)
  show "wf_db s \<longrightarrow> wf_db s'"
  proof
    assume "wf_db s"
    then have "wf_db s1" using 1(1) wf_put_certificate by (auto split: if_splits)
    then show "wf_db s'" unfolding 1(5) s2
      by (intro wf_record_audit wf_cas_orders) (simp_all add: issue_set_def)
  qed
qed

lemma issue_step: "issue_where i g r \<Longrightarrow> ord_step r (issue_set url r)"
  by (simp add: issue_where_def issue_set_def ord_step_def ord_identity_def)

lemma wf_record_issuance:
  assumes "wf_db s"
  shows "wf_db (snd (record_issuance x now cid i url sans csr gen s))"
proof (cases rule: record_issuance_cases [of x now cid i url sans csr gen s])
  case (failed e)
  with assms show ?thesis by simp
next
  case (stored row applied ev s' serial validity)
  with issuance_txn_effect(8) [OF stored(3)] assms show ?thesis by simp
qed

lemma evolve_record_issuance:
  "orders_evolve (orders s) (orders (snd (record_issuance x now cid i url sans csr gen s)))"
  "certs_evolve (certificates s) (certificates (snd (record_issuance x now cid i url sans csr gen s)))"
proof (atomize (full), cases rule: record_issuance_cases [of x now cid i url sans csr gen s])
  case (failed e)
  then show "orders_evolve (orders s) (orders (snd (record_issuance x now cid i url sans csr gen s))) \<and>
    certs_evolve (certificates s) (certificates (snd (record_issuance x now cid i url sans csr gen s)))" by simp
next
  case (stored row applied ev s' serial validity)
  have "orders s' = upd_where (issue_where (is_order_id i) gen) (issue_set (url (cert_id row))) (orders s)"
    using issuance_txn_effect(3) [OF stored(3)] by simp
  then have 1: "orders_evolve (orders s) (orders s')" by (simp add: evolve_upd issue_step)
  have "certs_evolve (certificates s) (certificates s @ [row])"
    unfolding stored(2) by (rule certs_evolve_new) (simp_all add: validity_unknown_def)
  then have 2: "certs_evolve (certificates s) (certificates s')"
    using issuance_txn_effect(1) [OF stored(3)] by simp
  show "orders_evolve (orders s) (orders (snd (record_issuance x now cid i url sans csr gen s))) \<and>
    certs_evolve (certificates s) (certificates (snd (record_issuance x now cid i url sans csr gen s)))"
    using 1 2 stored(1) by simp
qed

section \<open>Effects of the other operations\<close>

lemma create_certificate_effect:
  "snd (create_certificate x now cid i s) = s \<or>
   (\<exists>ser v. put_certificate (new_cert_row cid i (now_iso now) ser v) s = Inr (snd (create_certificate x now cid i s)))"
  by (auto simp: create_certificate_def Let_def with_conn_def split: sum.split)

lemma wf_create_certificate: "wf_db s \<Longrightarrow> wf_db (snd (create_certificate x now cid i s))"
  using create_certificate_effect [of x now cid i s] wf_put_certificate by metis

lemma evolve_create_certificate:
  "certs_evolve (certificates s) (certificates (snd (create_certificate x now cid i s)))"
  "orders (snd (create_certificate x now cid i s)) = orders s"
  using create_certificate_effect [of x now cid i s]
  by (auto simp: put_certificate_ok validity_unknown_def intro!: certs_evolve_new)

lemma quarantine_cases:
  obtains (failed) e where "quarantine_certificate x now cid i et viol reason sans extra s = (Inl e, s)"
  | (stored) row ev s1 s2 audit where
      "quarantine_certificate x now cid i et viol reason sans extra s =
         (Inr (row, ev), snd (record_audit_in_conn x now audit s2))"
      "put_certificate row s = Inr s1"
      "s2 = upd_orders (\<lambda>r. ord_id r = is_order_id i \<and> ord_status r \<in> {PROCESSING, READY})
              (\<lambda>r. r\<lparr>ord_status := INVALID\<rparr>) s1"
      "ev = fst (record_audit_in_conn x now audit s2)"
      "cert_status row = CertQUARANTINED" "cert_order_id row = is_order_id i" "cert_pem row = is_cert_pem i"
      "awaiting_ca row" "cert_serial row \<noteq> None" "\<not> validity_unknown row" "cert_id row = cid"
      "ev_type audit = et" "ev_order audit = Some (is_order_id i)" "ev_outcome audit = ''failed''"
proof -
  let ?thesis = thesis
  show ?thesis
  proof (cases "serial_from_pem x (is_cert_pem i)")
    case (Inl e)
    then show ?thesis by (intro failed) (simp add: quarantine_certificate_def)
  next
    case (Inr ser)
    note s = this
    show ?thesis
    proof (cases "validity_from_pem x (is_cert_pem i)")
      case (Inl e)
      with s show ?thesis by (intro failed) (simp add: quarantine_certificate_def)
    next
      case (Inr v)
      define row where "row = (new_cert_row cid i (now_iso now) ser v)
                     \<lparr>cert_status := CertQUARANTINED, cert_revocation_reason := Some 0,
                      cert_revoked_at := Some (now_iso now)\<rparr>"
      define d where "d = fold (\<lambda>(k, v). dict_set k v) extra
                     [(''certificate_id'', JStr cid), (''serial'', JStr ser),
                      (''req_id'', JStr (case map_of (is_metadata i) ''req_id'' of None \<Rightarrow> [] | Some r \<Rightarrow> r)),
                      (''violations'', JList (map JStr viol)), (''reason'', JStr reason),
                      (''quarantined'', JBool True), (''pending_ca_revocation'', JBool True)]"
      define audit where "audit = issuance_audit et i sans ''failed'' d"
      have eq: "quarantine_certificate x now cid i et viol reason sans extra s =
          with_conn (\<lambda>s. rbind (put_certificate row s) (\<lambda>s1.
            let s2 = upd_orders (\<lambda>r. ord_id r = is_order_id i \<and> ord_status r \<in> {PROCESSING, READY})
                       (\<lambda>r. r\<lparr>ord_status := INVALID\<rparr>) s1;
                (event, s3) = record_audit_in_conn x now audit s2
            in Inr ((row, event), s3))) s"
        unfolding quarantine_certificate_def s Inr sum.case Let_def row_def d_def audit_def ..
      show ?thesis
      proof (cases "put_certificate row s")
        case (Inl e)
        then show ?thesis by (intro failed) (simp add: eq)
      next
        case (Inr s1)
        show ?thesis
          by (rule stored [where row = row and ?s1.0 = s1 and audit = audit, OF _ Inr refl refl])
             (use Inr in \<open>simp_all add: eq Let_def case_prod_beta row_def audit_def issuance_audit_def
                awaiting_ca_def validity_unknown_def\<close>)
      qed
    qed
  qed
qed

lemma wf_quarantine:
  assumes "wf_db s"
  shows "wf_db (snd (quarantine_certificate x now cid i et viol reason sans extra s))"
proof (cases rule: quarantine_cases [of x now cid i et viol reason sans extra s])
  case (failed e)
  with assms show ?thesis by simp
next
  case (stored row ev s1 s2 audit)
  have "wf_db s1" using wf_put_certificate [OF assms stored(2)] .
  then have "wf_db s2" using stored(3) by (simp add: wf_db_def upd_orders_def map_upd_where)
  with stored(1) show ?thesis by simp
qed

lemma evolve_quarantine:
  "orders_evolve (orders s) (orders (snd (quarantine_certificate x now cid i et viol reason sans extra s)))
   \<and> certs_evolve (certificates s) (certificates (snd (quarantine_certificate x now cid i et viol reason sans extra s)))"
proof (cases rule: quarantine_cases [of x now cid i et viol reason sans extra s])
  case (failed e)
  then show ?thesis by simp
next
  case (stored row ev s1 s2 audit)
  have s1: "s1 = s\<lparr>certificates := certificates s @ [row]\<rparr>" using stored(2) by (simp add: put_certificate_ok)
  have "certs_evolve (certificates s) (certificates s @ [row])"
    by (rule certs_evolve_new) (use stored in \<open>auto simp: awaiting_ca_def\<close>)
  moreover have "orders_evolve (orders s) (orders s2)"
    unfolding stored(3) s1 upd_orders_def
    by (simp, rule evolve_upd) (auto simp: ord_step_def ord_identity_def)
  ultimately show ?thesis using stored(1,3) s1 by (simp add: upd_orders_def)
qed

lemma revoke_upd:
  "certs_evolve rows (upd_where (revoke_where cid) (revoke_set reason t) rows)"
  by (rule certs_evolve_upd) (auto simp: revoke_where_def revoke_set_def cert_step_def cert_identity_def)

lemma cert_rowcount:
  assumes "wf_db s"
  shows "rowcount (\<lambda>r. cert_id r = cid \<and> q r) (certificates s) = 1 \<longleftrightarrow> (\<exists>c. get_certificate cid s = Some c \<and> q c)"
proof -
  have "distinct (map cert_id (certificates s))" using assms by (simp add: wf_db_def)
  from rowcount_by_key [OF this, of "\<lambda>r. cert_id r = cid \<and> q r" cid]
  show ?thesis unfolding get_certificate_def by (auto dest: find_Some_in split: option.splits)
qed

lemma get_certificate_upd:
  assumes "\<And>r. p r \<Longrightarrow> cert_id (f r) = cert_id r"
  shows "get_certificate c (s\<lparr>certificates := upd_where p f (certificates s)\<rparr>) =
    map_option (\<lambda>r. if p r then f r else r) (get_certificate c s)"
  unfolding get_certificate_def using find_upd_where [of p cert_id f, OF assms] by simp

lemma upd_certs_none:
  assumes "wf_db s" "\<not> (\<exists>c. get_certificate cid s = Some c \<and> q c)"
  shows "upd_where (\<lambda>r. cert_id r = cid \<and> q r) f (certificates s) = certificates s"
proof -
  have d: "distinct (map cert_id (certificates s))" using assms by (simp add: wf_db_def)
  have "rowcount (\<lambda>r. cert_id r = cid \<and> q r) (certificates s) \<le> 1"
    by (rule rowcount_key_le1 [OF d, of _ cid]) simp
  moreover have "rowcount (\<lambda>r. cert_id r = cid \<and> q r) (certificates s) \<noteq> 1"
    using cert_rowcount [OF assms(1)] assms(2) by blast
  ultimately show ?thesis by (intro upd_where_rowcount_0) simp
qed

lemma record_revocation_cases:
  assumes wf: "wf_db s"
  obtains (lost) "\<not> (\<exists>c. get_certificate cid s = Some c \<and> cert_status c = CertVALID)"
      "record_revocation x now cid oid aid reason at sans d s =
         ((\<lparr>rv_record = get_certificate cid s, won_cas = False\<rparr>, None), s)"
  | (won) c ev s1 audit where "get_certificate cid s = Some c" "cert_status c = CertVALID"
      "s1 = s\<lparr>certificates := upd_where (revoke_where cid)
         (revoke_set reason (case at of None \<Rightarrow> now_iso now | Some t \<Rightarrow> t)) (certificates s)\<rparr>"
      "record_revocation x now cid oid aid reason at sans d s =
         ((\<lparr>rv_record = Some (revoke_set reason (case at of None \<Rightarrow> now_iso now | Some t \<Rightarrow> t) c), won_cas = True\<rparr>,
           Some ev), snd (record_audit_in_conn x now audit (snd (transition_to_revoked now oid s1))))"
      "ev = fst (record_audit_in_conn x now audit (snd (transition_to_revoked now oid s1)))"
      "ev_type audit = ''certificate-revoked''" "ev_account audit = Some aid" "ev_order audit = Some oid"
      "ev_outcome audit = ''success''"
proof (cases "\<exists>c. get_certificate cid s = Some c \<and> cert_status c = CertVALID")
  case True
  then obtain c where c: "get_certificate cid s = Some c" "cert_status c = CertVALID" by blast
  define t where "t = (case at of None \<Rightarrow> now_iso now | Some t \<Rightarrow> t)"
  define s1 where "s1 = s\<lparr>certificates := upd_where (revoke_where cid) (revoke_set reason t) (certificates s)\<rparr>"
  have cid: "cert_id c = cid" using c(1) find_Some_in unfolding get_certificate_def by fastforce
  have "rowcount (revoke_where cid) (certificates s) = 1"
    using True cert_rowcount [OF wf, of cid "\<lambda>r. cert_status r = CertVALID"]
    by (simp add: revoke_where_def [abs_def])
  moreover have "get_certificate cid s1 = Some (revoke_set reason t c)"
    unfolding s1_def using c cid by (subst get_certificate_upd) (simp_all add: revoke_set_def revoke_where_def)
  ultimately show thesis
    by (intro won [OF c s1_def [unfolded t_def] _ refl,
          where audit = "\<lparr>ev_type = ''certificate-revoked'', ev_account = Some aid,
                      ev_order = Some oid, ev_sans = sans, ev_template = None, ev_requester = None,
                      ev_outcome = ''success'', ev_details = Some d\<rparr>"])
       (simp_all add: record_revocation_def Let_def case_prod_beta t_def [symmetric] s1_def [symmetric])
next
  case False
  have "rowcount (revoke_where cid) (certificates s) \<noteq> 1"
    using False cert_rowcount [OF wf, of cid "\<lambda>r. cert_status r = CertVALID"]
    by (simp add: revoke_where_def [abs_def])
  moreover have "upd_where (revoke_where cid) f (certificates s) = certificates s" for f
    using upd_certs_none [OF wf False] by (simp add: revoke_where_def [abs_def])
  ultimately show thesis
    by (intro lost [OF False])
       (auto simp: record_revocation_def Let_def split: option.split)
qed

lemma record_revocation_tables:
  "certificates (snd (record_revocation x now cid oid aid reason at sans d s)) =
     upd_where (revoke_where cid) (revoke_set reason (case at of None \<Rightarrow> now_iso now | Some t \<Rightarrow> t)) (certificates s)"
  "list_all2 ord_step (orders s) (orders (snd (record_revocation x now cid oid aid reason at sans d s)))"
  using order_ops(7) [of "s\<lparr>certificates := upd_where (revoke_where cid)
     (revoke_set reason (case at of None \<Rightarrow> now_iso now | Some t \<Rightarrow> t)) (certificates s)\<rparr>" now oid]
  by (auto simp: record_revocation_def Let_def case_prod_beta order_op_def transition_to_revoked_def
      split: option.split)

lemma wf_record_revocation:
  assumes wf: "wf_db s"
  shows "wf_db (snd (record_revocation x now cid oid aid reason at sans d s))"
  using wf
proof (cases rule: record_revocation_cases
    [where cid = cid and x = x and now = now and oid = oid and aid = aid and reason = reason and at = at
       and sans = sans and d = d])
  case lost
  with wf show ?thesis by simp
next
  case (won c ev s1 audit)
  have "wf_db s1" unfolding won(3)
    by (rule wf_upd_certificates [OF wf]) (simp_all add: revoke_set_def)
  then show ?thesis using won(4) order_op_wf [OF order_ops(7)] by simp
qed

lemma revoke_certificate_tables:
  "snd (revoke_certificate now cid reason at s) =
     s\<lparr>certificates := upd_where (revoke_where cid)
        (revoke_set reason (case at of None \<Rightarrow> now_iso now | Some t \<Rightarrow> t)) (certificates s)\<rparr>"
  by (simp add: revoke_certificate_def Let_def split: option.split)

lemma wf_revoke_certificate: "wf_db s \<Longrightarrow> wf_db (snd (revoke_certificate now cid reason at s))"
  unfolding revoke_certificate_tables by (rule wf_upd_certificates) (simp_all add: revoke_set_def)

lemma attach_cases:
  obtains (none) "fst (attach_recovered_chain_with_audit x now cid chain audit s) = (None, None)"
      "snd (attach_recovered_chain_with_audit x now cid chain audit s) =
         s\<lparr>certificates := upd_where (\<lambda>r. cert_id r = cid \<and> cert_chain_pem r = [])
            (\<lambda>r. r\<lparr>cert_chain_pem := chain\<rparr>) (certificates s)\<rparr>"
  | (filled) row s1 where
      "s1 = s\<lparr>certificates := upd_where (\<lambda>r. cert_id r = cid \<and> cert_chain_pem r = [])
            (\<lambda>r. r\<lparr>cert_chain_pem := chain\<rparr>) (certificates s)\<rparr>"
      "attach_recovered_chain_with_audit x now cid chain audit s =
         ((Some row, Some (fst (record_audit_in_conn x now audit s1))), snd (record_audit_in_conn x now audit s1))"
proof -
  let ?p = "\<lambda>r. cert_id r = cid \<and> cert_chain_pem r = []"
  define s1 where "s1 = s\<lparr>certificates := upd_where ?p (\<lambda>r. r\<lparr>cert_chain_pem := chain\<rparr>) (certificates s)\<rparr>"
  have eq: "attach_recovered_chain_with_audit x now cid chain audit s =
      (if rowcount ?p (certificates s) \<noteq> 1 then ((None, None), s1)
       else case get_certificate cid s1 of
              None \<Rightarrow> ((None, None), s1)
            | Some row \<Rightarrow> ((Some row, Some (fst (record_audit_in_conn x now audit s1))),
                          snd (record_audit_in_conn x now audit s1)))"
    unfolding attach_recovered_chain_with_audit_def Let_def case_prod_beta s1_def ..
  show thesis
  proof (cases "rowcount ?p (certificates s) = 1 \<and> get_certificate cid s1 \<noteq> None")
    case True
    then show thesis using filled [OF s1_def] eq by auto
  next
    case False
    then show thesis using none eq unfolding s1_def by auto
  qed
qed

lemma chain_upd:
  "certs_evolve rows (upd_where (\<lambda>r. cert_id r = cid \<and> cert_chain_pem r = []) (\<lambda>r. r\<lparr>cert_chain_pem := chain\<rparr>) rows)"
  by (rule certs_evolve_upd) (auto simp: cert_step_def cert_identity_def)

lemma attach_effect:
  assumes wf: "wf_db s"
  shows "wf_db (snd (attach_recovered_chain_with_audit x now cid chain audit s))"
    "certs_evolve (certificates s) (certificates (snd (attach_recovered_chain_with_audit x now cid chain audit s)))"
    "orders (snd (attach_recovered_chain_with_audit x now cid chain audit s)) = orders s"
proof -
  let ?s1 = "s\<lparr>certificates := upd_where (\<lambda>r. cert_id r = cid \<and> cert_chain_pem r = [])
            (\<lambda>r. r\<lparr>cert_chain_pem := chain\<rparr>) (certificates s)\<rparr>"
  have "wf_db ?s1" by (rule wf_upd_certificates [OF wf]) simp_all
  moreover have "certs_evolve (certificates s) (certificates ?s1)" using chain_upd by simp
  moreover have "snd (attach_recovered_chain_with_audit x now cid chain audit s) \<in>
      {?s1, snd (record_audit_in_conn x now audit ?s1)}"
    by (cases rule: attach_cases [of x now cid chain audit s]) simp_all
  ultimately show "wf_db (snd (attach_recovered_chain_with_audit x now cid chain audit s))"
    "certs_evolve (certificates s) (certificates (snd (attach_recovered_chain_with_audit x now cid chain audit s)))"
    "orders (snd (attach_recovered_chain_with_audit x now cid chain audit s)) = orders s"
    by auto
qed

lemma confirm_upd:
  "certs_evolve rows (upd_where (confirm_where ser) (\<lambda>r. r\<lparr>cert_ca_crl_updated := True\<rparr>) rows)"
  by (rule certs_evolve_upd) (auto simp: cert_step_def cert_identity_def confirm_where_def)

lemma confirm_audit_cases:
  obtains (lost) "rowcount (confirm_where ser) (certificates s) \<noteq> 1"
      "confirm_ca_revocation_with_audit x now ser audit w url s = ((False, None), snd (confirm_ca_revocation ser s))"
  | (won) s2 where "rowcount (confirm_where ser) (certificates s) = 1"
      "certificates s2 = certificates (snd (confirm_ca_revocation ser s))" "orders s2 = orders s"
      "audit_log s2 = audit_log s" "accounts s2 = accounts s"
      "wf_db (snd (confirm_ca_revocation ser s)) \<longrightarrow> wf_db s2"
      "confirm_ca_revocation_with_audit x now ser audit w url s =
         ((True, Some (fst (record_audit_in_conn x now audit s2))), snd (record_audit_in_conn x now audit s2))"
proof (cases "rowcount (confirm_where ser) (certificates s) = 1")
  case True
  define s1 where "s1 = snd (confirm_ca_revocation ser s)"
  define s2 where "s2 = (case w of
              None \<Rightarrow> s1
            | Some w \<Rightarrow> (case cw_this_update w of
                          None \<Rightarrow> s1
                        | Some t \<Rightarrow> snd (advance_crl_watermark_in_conn now (cw_issuer_key w)
                                           (cw_crl_number w) t url s1)))"
  have keep: "orders s1 = orders s" "audit_log s1 = audit_log s" "accounts s1 = accounts s"
    by (simp_all add: s1_def confirm_ca_revocation_def)
  show thesis
  proof (rule won [OF True])
    show "certificates s2 = certificates (snd (confirm_ca_revocation ser s))" "orders s2 = orders s"
      "audit_log s2 = audit_log s" "accounts s2 = accounts s"
      "wf_db (snd (confirm_ca_revocation ser s)) \<longrightarrow> wf_db s2"
      using keep unfolding s2_def s1_def by (auto simp: wf_advance split: option.split)
    show "confirm_ca_revocation_with_audit x now ser audit w url s =
         ((True, Some (fst (record_audit_in_conn x now audit s2))), snd (record_audit_in_conn x now audit s2))"
    proof -
      have "confirm_ca_revocation ser s = (True, s1)"
        using True by (simp add: confirm_ca_revocation_def s1_def)
      then show ?thesis
        by (simp add: confirm_ca_revocation_with_audit_def Let_def case_prod_beta s2_def [symmetric])
    qed
  qed
next
  case False
  then show thesis
    by (intro lost) (simp_all add: confirm_ca_revocation_with_audit_def confirm_ca_revocation_def Let_def)
qed

lemma wf_confirm_ca_revocation: "wf_db s \<Longrightarrow> wf_db (snd (confirm_ca_revocation ser s))"
  unfolding confirm_ca_revocation_def snd_conv by (rule wf_upd_certificates) simp_all

lemma wf_confirm_with_audit:
  assumes "wf_db s"
  shows "wf_db (snd (confirm_ca_revocation_with_audit x now ser audit w url s))"
  by (cases rule: confirm_audit_cases [of ser s x now audit w url])
     (use wf_confirm_ca_revocation [OF assms] in simp_all)

lemma confirm_with_audit_tables:
  "certificates (snd (confirm_ca_revocation_with_audit x now ser audit w url s)) =
     upd_where (confirm_where ser) (\<lambda>r. r\<lparr>cert_ca_crl_updated := True\<rparr>) (certificates s)"
  "orders (snd (confirm_ca_revocation_with_audit x now ser audit w url s)) = orders s"
  by (cases rule: confirm_audit_cases [of ser s x now audit w url]; simp add: confirm_ca_revocation_def)+

section \<open>Properties\<close>

text \<open>
  C36. Issuance is one step: on success exactly one audit row is written, it says
  \<open>certificate-issued\<close> exactly when the caller won the order, the order then is valid and
  points at the certificate, and otherwise no order changes. A certificate row is added
  exactly when the order had no honoured certificate; with one already there, the new
  certificate is recorded only in the audit row. On any error nothing changes.
\<close>

theorem issuance_recorded:
  assumes "wf_db s"
  shows "case record_issuance x now cid i url sans csr gen s of
      (Inr (row, applied, ev), s') \<Rightarrow>
        audit_log s' = audit_log s @ [ev] \<and> aud_order_id ev = Some (is_order_id i)
        \<and> aud_event_type ev = (if applied then ''certificate-issued'' else ''finalize-enrollment-race'')
        \<and> cert_pem row = is_cert_pem i
        \<and> (case get_certificate_by_order (is_order_id i) s of
             None \<Rightarrow> certificates s' = certificates s @ [row] \<and> cert_id row = cid \<and> cert_status row = CertVALID
           | Some c \<Rightarrow> certificates s' = certificates s \<and> cert_id row = cert_id c)
        \<and> (applied \<longleftrightarrow> (\<exists>r. get_order (is_order_id i) s = Some r \<and> ord_status r = PROCESSING \<and> processing_cas gen r))
        \<and> (\<forall>j. get_order j s' = map_option (\<lambda>r. if applied \<and> j = is_order_id i
               then r\<lparr>ord_status := VALID, ord_certificate_url := Some (url (cert_id row))\<rparr> else r) (get_order j s))
    | (Inl e, s') \<Rightarrow> s' = s"
proof (cases rule: record_issuance_cases [of x now cid i url sans csr gen s])
  case (failed e)
  then show ?thesis by simp
next
  case (stored row applied ev s' serial validity)
  note eff = issuance_txn_effect [OF stored(3)]
  let ?p = "issue_where (is_order_id i) gen" and ?f = "issue_set (url (cert_id row))"
  have pid: "\<And>r. ?p r \<Longrightarrow> ord_id r = is_order_id i" by (simp add: issue_where_def)
  have fid: "\<And>r. ord_id (?f r) = ord_id r" by (simp add: issue_set_def)
  have won: "fst (cas_orders ?p ?f s) \<longleftrightarrow> (\<exists>r. get_order (is_order_id i) s = Some r \<and> ?p r)"
    by (rule cas_get_order(1) [OF assms]) (simp_all add: pid fid)
  have get: "get_order j (snd (cas_orders ?p ?f s)) = map_option (\<lambda>r. if ?p r then ?f r else r) (get_order j s)" for j
    by (rule cas_get_order(2) [OF assms]) (simp_all add: pid fid)
  have id: "ord_id r = j" if "get_order j s = Some r" for j r
    using that find_Some_in unfolding get_order_def by fastforce
  have applied: "applied \<longleftrightarrow> (\<exists>r. get_order (is_order_id i) s = Some r \<and> ?p r)" using eff(3) won by simp
  have get': "get_order j s' = map_option (\<lambda>r. if ?p r then ?f r else r) (get_order j s)" for j
    using eff(3) get [of j] by (simp add: get_order_def)
  have "map_option (\<lambda>r. if ?p r then ?f r else r) (get_order j s) =
     map_option (\<lambda>r. if applied \<and> j = is_order_id i then ?f r else r) (get_order j s)" for j
  proof (cases "get_order j s")
    case (Some r)
    have "?p r \<longleftrightarrow> applied \<and> j = is_order_id i"
      using id [OF Some] pid [of r] Some unfolding applied by auto
    with Some show ?thesis by simp
  qed simp
  then have ords: "get_order j s' = map_option (\<lambda>r. if applied \<and> j = is_order_id i
               then r\<lparr>ord_status := VALID, ord_certificate_url := Some (url (cert_id row))\<rparr> else r) (get_order j s)" for j
    unfolding get' issue_set_def .
  have ap: "applied \<longleftrightarrow> (\<exists>r. get_order (is_order_id i) s = Some r \<and> ord_status r = PROCESSING \<and> processing_cas gen r)"
    unfolding applied issue_where_def using id by blast
  have certs: "case get_certificate_by_order (is_order_id i) s of
             None \<Rightarrow> certificates s' = certificates s @ [row] \<and> cert_id row = cid \<and> cert_status row = CertVALID
           | Some c \<Rightarrow> certificates s' = certificates s \<and> cert_id row = cert_id c"
    using eff(1) stored(2) by (simp split: option.split)
  have "cert_pem row = is_cert_pem i" by (simp add: stored(2))
  with eff(4,6,7) ords ap certs stored(1) show ?thesis by simp
qed

text \<open>
  A certificate a verifier rejected is quarantined in one step: its row awaits
  revocation at the CA, the lookup that finalize and reclaim serve from does not return it,
  its order is neither ready nor processing any more, and one audit row is written. On any
  error nothing changes.
\<close>

theorem quarantine_not_honoured:
  "case quarantine_certificate x now cid i et viol reason sans extra s of
      (Inr (row, ev), s') \<Rightarrow>
        certificates s' = certificates s @ [row] \<and> cert_status row = CertQUARANTINED
        \<and> cert_pem row = is_cert_pem i \<and> awaiting_ca row
        \<and> get_certificate_by_order (is_order_id i) s' = get_certificate_by_order (is_order_id i) s
        \<and> list_all (\<lambda>r. \<not> (ord_id r = is_order_id i \<and> ord_status r \<in> {READY, PROCESSING})) (orders s')
        \<and> audit_log s' = audit_log s @ [ev] \<and> aud_event_type ev = et \<and> aud_order_id ev = Some (is_order_id i)
    | (Inl e, s') \<Rightarrow> s' = s"
proof (cases rule: quarantine_cases [of x now cid i et viol reason sans extra s])
  case (failed e)
  then show ?thesis by simp
next
  case (stored row ev s1 s2 audit)
  have s1: "s1 = s\<lparr>certificates := certificates s @ [row]\<rparr>" using stored(2) by (simp add: put_certificate_ok)
  have s2: "certificates s2 = certificates s @ [row]" "audit_log s2 = audit_log s"
    by (simp_all add: stored(3) s1 upd_orders_def)
  have "list_all (\<lambda>r. \<not> (ord_id r = is_order_id i \<and> ord_status r \<in> {READY, PROCESSING})) (orders s2)"
    by (auto simp: stored(3) upd_orders_def list_all_iff set_upd_where)
  moreover have "get_certificate_by_order (is_order_id i) (snd (record_audit_in_conn x now audit s2))
      = get_certificate_by_order (is_order_id i) s"
    using stored(5) by (simp add: get_certificate_by_order_def s2 find_append split: option.split)
  ultimately show ?thesis using stored s2 by simp
qed

text \<open>
  A revocation is recorded exactly once: the caller that finds the certificate valid
  wins, its reason and time are stored, its order, when valid or processing, becomes
  revoked, the certificate awaits the CA, and one \<open>certificate-revoked\<close> audit row is
  written; every other caller changes nothing, writes no audit row and gets the stored row.
\<close>

theorem revocation_exactly_once:
  assumes "wf_db s"
  shows "case record_revocation x now cid oid aid reason at sans d s of ((u, ev), s') \<Rightarrow>
      if (\<exists>c. get_certificate cid s = Some c \<and> cert_status c = CertVALID)
      then won_cas u \<and> rv_record u = get_certificate cid s'
         \<and> (\<exists>c. get_certificate cid s' = Some c \<and> cert_status c = CertREVOKED \<and> cert_revocation_reason c = reason
               \<and> cert_revoked_at c = Some (case at of None \<Rightarrow> now_iso now | Some t \<Rightarrow> t))
         \<and> list_all (\<lambda>r. ord_id r \<noteq> oid \<or> ord_status r \<notin> {VALID, PROCESSING}) (orders s')
         \<and> (\<exists>e. ev = Some e \<and> audit_log s' = audit_log s @ [e] \<and> aud_event_type e = ''certificate-revoked'')
      else \<not> won_cas u \<and> rv_record u = get_certificate cid s \<and> ev = None \<and> s' = s"
  using assms
proof (cases rule: record_revocation_cases
    [where cid = cid and x = x and now = now and oid = oid and aid = aid and reason = reason and at = at
       and sans = sans and d = d])
  case lost
  then show ?thesis by simp
next
  case (won c ev s1 audit)
  let ?t = "case at of None \<Rightarrow> now_iso now | Some t \<Rightarrow> t"
  let ?s' = "snd (record_audit_in_conn x now audit (snd (transition_to_revoked now oid s1)))"
  have cid: "cert_id c = cid" using won(1) find_Some_in unfolding get_certificate_def by fastforce
  have "get_certificate cid ?s' = get_certificate cid s1"
    by (simp add: get_certificate_def transition_to_revoked_def)
  also have "\<dots> = Some (revoke_set reason ?t c)"
    unfolding won(3) using won(1,2) cid by (subst get_certificate_upd) (simp_all add: revoke_set_def revoke_where_def)
  finally have get: "get_certificate cid ?s' = Some (revoke_set reason ?t c)" .
  have "list_all (\<lambda>r. ord_id r \<noteq> oid \<or> ord_status r \<notin> {VALID, PROCESSING})
      (upd_where (\<lambda>r. ord_id r = oid \<and> ord_status r \<in> {VALID, PROCESSING})
        (\<lambda>r. r\<lparr>ord_status := REVOKED, ord_updated_at := now_iso now\<rparr>) rows)" for rows
    by (induction rows) auto
  then have "list_all (\<lambda>r. ord_id r \<noteq> oid \<or> ord_status r \<notin> {VALID, PROCESSING}) (orders ?s')"
    by (simp only: transition_to_revoked_def record_audit_frame cas_orders_frame)
  moreover have "audit_log ?s' = audit_log s @ [ev]"
    by (simp add: won(3,5) transition_to_revoked_def)
  ultimately show ?thesis using won(1,2,4-6) get by (simp add: revoke_set_def)
qed

text \<open>
  The CA-side confirmation takes the serial's rows, and only those, out of the feed of
  certificates that await the CA; it answers yes exactly when one row did, and then, and
  only then, writes the audit row.
\<close>

theorem confirm_takes_off_feed:
  "case confirm_ca_revocation_with_audit x now ser audit w url s of ((won, ev), s') \<Rightarrow>
     filter awaiting_ca (certificates s') = filter (\<lambda>r. \<not> confirm_where ser r) (filter awaiting_ca (certificates s))
     \<and> (won \<longleftrightarrow> rowcount (confirm_where ser) (certificates s) = 1)
     \<and> (if won then \<exists>e. ev = Some e \<and> audit_log s' = audit_log s @ [e]
                    \<and> aud_event_type e = ev_type audit \<and> aud_outcome e = ev_outcome audit
        else ev = None \<and> audit_log s' = audit_log s)"
proof -
  have feed: "filter awaiting_ca (upd_where (confirm_where ser) (\<lambda>r. r\<lparr>cert_ca_crl_updated := True\<rparr>) rows)
      = filter (\<lambda>r. \<not> confirm_where ser r) (filter awaiting_ca rows)" for rows
    by (induction rows) (auto simp: awaiting_ca_def confirm_where_def)
  show ?thesis
    by (cases rule: confirm_audit_cases [of ser s x now audit w url])
       (simp_all add: confirm_ca_revocation_def feed)
qed

text \<open>
  Two rows of one serial that both await the CA are confirmed silently: the answer is
  no, no audit row is written, and yet neither row awaits the CA any more, so no retry can
  repair it.
\<close>

theorem confirm_twins_silent:
  assumes "2 \<le> rowcount (confirm_where ser) (certificates s)"
  shows "case confirm_ca_revocation_with_audit x now ser audit w url s of ((won, ev), s') \<Rightarrow>
     \<not> won \<and> ev = None \<and> audit_log s' = audit_log s \<and> rowcount (confirm_where ser) (certificates s') = 0"
proof -
  have "rowcount (confirm_where ser) (upd_where (confirm_where ser) (\<lambda>r. r\<lparr>cert_ca_crl_updated := True\<rparr>) rows) = 0" for rows
    by (induction rows) (auto simp: awaiting_ca_def confirm_where_def)
  then show ?thesis
    using assms
    by (cases rule: confirm_audit_cases [of ser s x now audit w url])
       (simp_all add: confirm_ca_revocation_def)
qed

text \<open>
  The summary the retention floor rests on is sound: when it gives a number of days,
  no certificate on record is valid for longer, and none has an unknown validity.
\<close>

theorem validity_summary_bound:
  "case certificate_validity_summary s of (longest, unknown) \<Rightarrow>
     longest = None \<or> unknown = 0 \<and> list_all (\<lambda>c. \<exists>nb na. cert_not_before c = Some nb \<and> cert_not_after c = Some na
        \<and> na \<le> nb + the longest * 86400) (certificates s)"
proof (cases "certificates s = [] \<or> rowcount validity_unknown (certificates s) \<noteq> 0")
  case True
  then show ?thesis by (auto simp: certificate_validity_summary_def Let_def)
next
  case False
  have known: "\<exists>nb na. cert_not_before c = Some nb \<and> cert_not_after c = Some na" if "c \<in> set (certificates s)" for c
    using False that by (auto simp: rowcount_0 validity_unknown_def)
  have "the (cert_not_after c) \<le> the (cert_not_before c) + Max (set (map validity_days (certificates s))) * 86400"
    if "c \<in> set (certificates s)" for c
  proof -
    have "validity_days c \<le> Max (set (map validity_days (certificates s)))" using that by simp
    moreover have "the (cert_not_after c) \<le> the (cert_not_before c) + validity_days c * 86400"
      unfolding validity_days_def by linarith
    ultimately show ?thesis by linarith
  qed
  with False known show ?thesis
    by (force simp: certificate_validity_summary_def Let_def list_all_iff)
qed

section \<open>Witnesses\<close>

definition sample_issued :: issued where
  "sample_issued = \<lparr>is_order_id = ''o1'', is_account_id = ''a'', is_cert_pem = ''pem'', is_chain_pem = [],
     is_template = ''WebServer'', is_requester = ''k'', is_metadata = []\<rparr>"

definition sample_cert :: "string \<Rightarrow> string \<Rightarrow> CertStatus \<Rightarrow> CertRow" where
  "sample_cert cid oid st = (new_cert_row cid sample_issued 0 ''12'' (0, 86400))
     \<lparr>cert_status := st, cert_order_id := oid\<rparr>"

definition certs_db :: db where
  "certs_db = sample_db\<lparr>certificates := [sample_cert ''c1'' ''o1'' CertVALID],
     orders := [sample_order ''o1'' VALID 10]\<rparr>"

definition twins_db :: db where
  "twins_db = sample_db\<lparr>certificates := [sample_cert ''c1'' ''o1'' CertREVOKED, sample_cert ''c2'' ''o2'' CertREVOKED]\<rparr>"

definition sample_processing_db :: db where
  "sample_processing_db = sample_db\<lparr>orders := [(sample_order ''o1'' PROCESSING 10)\<lparr>ord_processing_generation := 1\<rparr>]\<rparr>"

lemma wf_certs_db: "wf_db certs_db"
  by (simp add: wf_db_def certs_db_def sample_db_def empty_db_def sample_order_def sample_account_def sample_cert_def)

lemma wf_processing_db: "wf_db sample_processing_db"
  by (simp add: wf_db_def sample_processing_db_def sample_db_def empty_db_def sample_order_def sample_account_def)

theorem issuance_recorded_witness:
  "\<exists>row ev s'. record_issuance sample_ext 0 ''c1'' sample_issued (\<lambda>c. c) [''h.example''] ''CN=h'' (Some 1) sample_processing_db
      = (Inr (row, True, ev), s')
    \<and> certificates s' = [row] \<and> audit_log s' = [ev] \<and> aud_event_type ev = ''certificate-issued''"
proof -
  let ?r = "record_issuance sample_ext 0 ''c1'' sample_issued (\<lambda>c. c) [''h.example''] ''CN=h'' (Some 1) sample_processing_db"
  have none: "get_certificate_by_order (is_order_id sample_issued) sample_processing_db = None"
    by (simp add: get_certificate_by_order_def sample_processing_db_def sample_db_def empty_db_def)
  have "fst ?r \<noteq> Inl e" for e
    using none
    by (simp add: record_issuance_def Let_def serial_from_pem_def validity_from_pem_def sample_ext_def
        with_conn_def issuance_txn_def put_certificate_def case_prod_beta sample_processing_db_def sample_db_def empty_db_def)
  then obtain row applied ev s' where eq: "?r = (Inr (row, applied, ev), s')"
    by (metis fst_conv obj_sumE prod_cases3 surj_pair)
  from issuance_recorded [OF wf_processing_db, where x = sample_ext and now = 0 and cid = "''c1''" and i = sample_issued
      and url = "\<lambda>c. c" and sans = "[''h.example'']" and csr = "''CN=h''" and gen = "Some 1"]
  have "audit_log s' = audit_log sample_processing_db @ [ev]"
    "aud_event_type ev = (if applied then ''certificate-issued'' else ''finalize-enrollment-race'')"
    "certificates s' = certificates sample_processing_db @ [row]"
    "applied \<longleftrightarrow> (\<exists>r. get_order (is_order_id sample_issued) sample_processing_db = Some r
        \<and> ord_status r = PROCESSING \<and> processing_cas (Some 1) r)"
    unfolding eq prod.case sum.case none option.case by blast+
  then have "applied" "audit_log s' = [ev]" "certificates s' = [row]" "aud_event_type ev = ''certificate-issued''"
    by (simp_all add: get_order_def sample_processing_db_def sample_db_def empty_db_def sample_order_def
        sample_issued_def processing_cas_def)
  with eq show ?thesis by (intro exI [of _ row] exI [of _ ev] exI [of _ s']) simp
qed

theorem revocation_exactly_once_witness:
  "case record_revocation sample_ext 0 ''c1'' ''o1'' ''a'' (Some 1) None [] [] certs_db of ((u, ev), s') \<Rightarrow>
     won_cas u \<and> (\<exists>e. ev = Some e \<and> audit_log s' = [e])"
proof -
  have "get_certificate ''c1'' certs_db = Some (sample_cert ''c1'' ''o1'' CertVALID)"
    by (simp add: get_certificate_def certs_db_def sample_cert_def)
  moreover have "cert_status (sample_cert ''c1'' ''o1'' CertVALID) = CertVALID"
    by (simp add: sample_cert_def)
  moreover have "audit_log certs_db = []" by (simp add: certs_db_def sample_db_def empty_db_def)
  ultimately show ?thesis
    using revocation_exactly_once [OF wf_certs_db, where x = sample_ext and now = 0 and cid = "''c1''" and oid = "''o1''"
      and aid = "''a''" and reason = "Some 1" and at = None and sans = "[]" and d = "[]"]
    by (auto split: prod.splits)
qed

theorem confirm_twins_silent_witness:
  "case confirm_ca_revocation_with_audit sample_ext 0 ''12'' (audit_ev ''revocation-ca-confirmed'' None None ''success'' [])
      None None twins_db of ((won, ev), s') \<Rightarrow>
     \<not> won \<and> ev = None \<and> audit_log s' = audit_log twins_db \<and> rowcount (confirm_where ''12'') (certificates s') = 0"
  by (rule confirm_twins_silent)
     (simp add: twins_db_def sample_cert_def confirm_where_def awaiting_ca_def canonical_serial_def strip_space_def
        is_space_def upper_char_def remove_0X_def lstrip_def Let_def)

end
