(* ===== verification/StoreSteps.thy ===== *)
theory StoreSteps
  imports StoreNonces StoreCertificates
begin

text \<open>
  The store as a state machine: one step is one call of a public operation of \<open>Store\<close>
  (\<open>src/src/acme_adcs_ra/store.py\<close>) that can change the database, by any caller, with any
  arguments, in any order. SQLite serialises writers, so a run of the program is a
  sequence of such steps. The invariants and the life of orders, leases, accounts and
  certificates are proved over every such sequence.
\<close>

section \<open>Steps\<close>

inductive store_step :: "db \<Rightarrow> db \<Rightarrow> bool" where
  create_account: "store_step s (snd (create_account x now i jwk kid st contact s))"
| create_account_audited: "store_step s (snd (create_account_with_audit x now i jwk kid st contact audit m s))"
| account_status: "store_step s (snd (update_account_status i st s))"
| account_key: "store_step s (snd (update_account_key x i jwk s))"
| account_key_audited:
    "store_step s (snd (update_account_key_with_audit x now i jwk old audit window per_kid s))"
| create_nonce: "store_step s (snd (create_nonce now n collect s))"
| consume_nonce: "store_step s (snd (consume_nonce now n s))"
| cleanup_nonces: "store_step s (snd (cleanup_expired_nonces now s))"
| create_order:
    "store_step s (snd (create_order_with_authz expiry now now' u oid fresh a idents w pk gl s))"
| acquire_lease: "store_step s (snd (acquire_processing_lease now i s))"
| pending_to_ready: "store_step s (snd (transition_pending_to_ready now i s))"
| processing_to_ready: "store_step s (snd (transition_processing_to_ready now i g s))"
| processing_to_valid: "store_step s (snd (transition_processing_to_valid now i url g s))"
| reclaim: "store_step s (snd (reclaim_processing_order x now i to_valid g req audit s))"
| active_to_invalid: "store_step s (snd (transition_active_to_invalid now i s))"
| processing_to_invalid: "store_step s (snd (transition_processing_to_invalid now i g s))"
| to_revoked: "store_step s (snd (transition_to_revoked now i s))"
| record_pending: "store_step s (snd (record_pending_ca_request now i req n s))"
| clear_pending: "store_step s (snd (clear_pending_ca_request now i req s))"
| sweep_orders: "store_step s (snd (sweep_expired_orders now s))"
| authz_status: "store_step s (update_authorization_status i status s)"
| challenge_status: "store_step s (update_challenge_status i status at s)"
| create_certificate: "store_step s (snd (create_certificate x now cid iss s))"
| issuance: "store_step s (snd (record_issuance x now cid iss url_fn sans csr g s))"
| quarantine: "store_step s (snd (quarantine_certificate x now cid iss et viol reason sans extra s))"
| revocation: "store_step s (snd (record_revocation x now cid oid aid rsn at sans d s))"
| revoke: "store_step s (snd (revoke_certificate now cid rsn at s))"
| attach_chain: "store_step s (snd (attach_recovered_chain_with_audit x now cid chain audit s))"
| confirm: "store_step s (snd (confirm_ca_revocation ser s))"
| confirm_audited: "store_step s (snd (confirm_ca_revocation_with_audit x now ser audit wmark url s))"
| reset_watermark: "store_step s (snd (reset_crl_watermark k s))"
| audit: "store_step s (snd (record_audit x now a s))"
| audit_details: "store_step s (snd (update_audit_details x n d s))"
| delete_audit: "store_step s (snd (delete_audit_rows_before c s))"

section \<open>Well-formedness\<close>

lemma wf_authz_challenge:
  "wf_db s \<Longrightarrow> wf_db (update_authorization_status i status s)"
  "wf_db s \<Longrightarrow> wf_db (update_challenge_status i status at s)"
  by (simp_all add: wf_db_def update_authorization_status_def update_challenge_status_def map_upd_where)

lemma wf_reclaim: "wf_db s \<Longrightarrow> wf_db (snd (reclaim_processing_order x now i to_valid g req audit s))"
  by (cases rule: reclaim_cases [of x now i to_valid g req audit s]) (auto dest: order_op_wf)

lemmas wf_ops =
  wf_create_account wf_create_account_with_audit wf_update_account_status wf_update_account_key
  wf_update_account_key_with_audit wf_create_nonce wf_consume_nonce wf_cleanup_expired_nonces
  wf_create_order wf_reclaim wf_authz_challenge wf_create_certificate wf_record_issuance wf_quarantine
  wf_record_revocation wf_revoke_certificate attach_effect(1) wf_confirm_ca_revocation
  wf_confirm_with_audit wf_reset_watermark wf_update_audit wf_delete_audit

lemma wf_store_step: "store_step s s' \<Longrightarrow> wf_db s \<Longrightarrow> wf_db s'"
  by (induction rule: store_step.induct)
     (simp_all add: wf_ops order_op_wf [OF order_ops(1)] order_op_wf [OF order_ops(2)]
        order_op_wf [OF order_ops(3)] order_op_wf [OF order_ops(4)] order_op_wf [OF order_ops(5)]
        order_op_wf [OF order_ops(6)] order_op_wf [OF order_ops(7)] order_op_wf [OF order_ops(8)]
        order_op_wf [OF order_ops(9)] order_op_wf [OF sweep_order_op] record_audit_def)

lemma wf_reachable: "store_step\<^sup>*\<^sup>* s s' \<Longrightarrow> wf_db s \<Longrightarrow> wf_db s'"
  by (induction rule: rtranclp_induct) (auto intro: wf_store_step)

section \<open>Evolution\<close>

text \<open>Accounts keep their identity, and a deactivated account stays deactivated.\<close>

definition acct_step :: "AccountRow \<Rightarrow> AccountRow \<Rightarrow> bool" where
  "acct_step r r' \<longleftrightarrow> acc_id r' = acc_id r \<and> acc_eab_kid r' = acc_eab_kid r
     \<and> (acc_status r' = acc_status r \<or> acc_status r = AcctVALID)"

definition accts_evolve :: "AccountRow list \<Rightarrow> AccountRow list \<Rightarrow> bool" where
  "accts_evolve rows rows' \<longleftrightarrow> list_all2 acct_step rows (take (length rows) rows')"

definition db_evolve :: "db \<Rightarrow> db \<Rightarrow> bool" where
  "db_evolve s s' \<longleftrightarrow> orders_evolve (orders s) (orders s') \<and> certs_evolve (certificates s) (certificates s')
     \<and> accts_evolve (accounts s) (accounts s')"

lemma accts_evolve_refl [simp]: "accts_evolve rows rows"
  by (simp add: accts_evolve_def acct_step_def list_all2_refl)

lemma accts_evolve_add [simp]: "accts_evolve rows (rows @ new)"
  by (simp add: accts_evolve_def acct_step_def list_all2_refl)

lemma accts_evolve_upd:
  assumes "\<And>r. p r \<Longrightarrow> acct_step r (f r)"
  shows "accts_evolve rows (upd_where p f rows)"
proof -
  have "list_all2 acct_step rows (upd_where p f rows)"
    using assms by (induction rows) (auto simp: acct_step_def)
  then show ?thesis by (simp add: accts_evolve_def)
qed

lemma db_evolve_frame:
  "orders s' = orders s \<Longrightarrow> certificates s' = certificates s \<Longrightarrow> accounts s' = accounts s \<Longrightarrow> db_evolve s s'"
  by (simp add: db_evolve_def)

lemma db_evolve_order_op: "order_op s s' \<Longrightarrow> db_evolve s s'"
  by (simp add: db_evolve_def order_op_frame) (simp add: order_op_def orders_evolve_all2)

lemma db_evolve_accounts:
  "s' = s\<lparr>accounts := rows\<rparr> \<Longrightarrow> accts_evolve (accounts s) rows \<Longrightarrow> db_evolve s s'"
  by (simp add: db_evolve_def)

lemma db_evolve_audit:
  "db_evolve s s' \<Longrightarrow> db_evolve s (snd (record_audit_in_conn x now a s'))"
  by (simp add: db_evolve_def)

lemma evolve_create_account: "db_evolve s (snd (create_account x now i jwk kid st contact s))"
  by (auto simp: create_account_def with_conn_def insert_account_def Let_def put_accounts_def rbind_def db_evolve_def
      split: sum.split)

lemma evolve_create_account_audited:
  "db_evolve s (snd (create_account_with_audit x now i jwk kid st contact audit m s))"
proof (cases "create_account_with_audit x now i jwk kid st contact audit m s")
  case (Pair r s')
  show ?thesis
  proof (cases r)
    case (Inl e)
    with Pair create_account_with_audit_fails show ?thesis by (metis db_evolve_frame snd_conv)
  next
    case (Inr re)
    obtain row ev where re: "re = (row, ev)" by fastforce
    from create_account_with_audit_ok [of x now i jwk kid st contact audit m s row ev s'] Pair Inr re
    obtain s1 where s1: "insert_account x now i jwk kid st contact s = Inr (row, s1)"
      "(ev, s') = record_audit_in_conn x now (audit\<lparr>ev_account := Some (acc_id row)\<rparr>) s1" by blast
    have "db_evolve s s1" using insert_account_ok [OF s1(1)] by (simp add: db_evolve_def)
    then show ?thesis using s1(2) Pair db_evolve_audit by (metis snd_conv)
  qed
qed

lemma evolve_account_key: "db_evolve s (snd (update_account_key x i jwk s))"
proof -
  have "accts_evolve (accounts s) (upd_where (\<lambda>r. acc_id r = i) (\<lambda>r. r\<lparr>acc_jwk := j, acc_thumbprint := t\<rparr>) (accounts s))" for j t
    by (rule accts_evolve_upd) (simp add: acct_step_def)
  then show ?thesis
    by (auto simp: update_account_key_def with_conn_def update_account_key_in_conn_def put_accounts_def rbind_def
        db_evolve_def split: sum.split)
qed

lemma evolve_account_key_audited:
  "db_evolve s (snd (update_account_key_with_audit x now i jwk old audit window per_kid s))"
proof -
  obtain r s' where eq: "update_account_key_with_audit x now i jwk old audit window per_kid s = (r, s')"
    by fastforce
  from eq show ?thesis
  proof (cases rule: rotate_with_audit_cases)
    case (rotated ev t)
    from rotated(3) show ?thesis
    proof (cases rule: rotate_key_txn_ok)
      case (1 row)
      have "accts_evolve (accounts s) (accounts s')"
        unfolding 1(7) by (rule accts_evolve_upd) (simp add: acct_step_def)
      then have "db_evolve s (s\<lparr>accounts := accounts s'\<rparr>)" by (simp add: db_evolve_def)
      then show ?thesis using 1(8) eq db_evolve_audit by (metis snd_conv)
    qed
  next
    case (refused e)
    with eq show ?thesis by (simp add: db_evolve_def)
  qed
qed

lemma evolve_account_status: "db_evolve s (snd (update_account_status i st s))"
  unfolding db_evolve_def update_account_status_def Let_def
  by (simp, rule accts_evolve_upd) (simp add: acct_step_def)

lemma evolve_nonces:
  "db_evolve s (snd (create_nonce now n collect s))" "db_evolve s (snd (consume_nonce now n s))"
  "db_evolve s (snd (cleanup_expired_nonces now s))"
  by (auto simp: create_nonce_def with_conn_def consume_nonce_def delete_nonce_def cleanup_expired_nonces_def Let_def
      intro!: db_evolve_frame)

lemma create_order_frame:
  "accounts (snd (create_order_with_authz expiry now now' u oid fresh a idents w pk gl s)) = accounts s"
  "certificates (snd (create_order_with_authz expiry now now' u oid fresh a idents w pk gl s)) = certificates s"
proof -
  obtain r s' where eq: "create_order_with_authz expiry now now' u oid fresh a idents w pk gl s = (r, s')" by fastforce
  have "accounts s' = accounts s \<and> certificates s' = certificates s"
  proof (cases r)
    case (Inl e)
    with eq create_order_fails show ?thesis by fastforce
  next
    case (Inr row)
    from eq [unfolded Inr] show ?thesis by (cases rule: create_order_ok) simp
  qed
  then show "accounts (snd (create_order_with_authz expiry now now' u oid fresh a idents w pk gl s)) = accounts s"
    "certificates (snd (create_order_with_authz expiry now now' u oid fresh a idents w pk gl s)) = certificates s"
    by (simp_all add: eq)
qed

lemma evolve_orders_ops:
  "db_evolve s (snd (create_order_with_authz expiry now now' u oid fresh a idents w pk gl s))"
  "db_evolve s (snd (reclaim_processing_order x now i to_valid g req audit s))"
  "db_evolve s (snd (sweep_expired_orders now s))"
  "db_evolve s (update_authorization_status i status s)"
  "db_evolve s (update_challenge_status i status at s)"
  using evolve_create_order db_evolve_order_op [OF sweep_order_op]
  by (simp_all add: db_evolve_def create_order_frame update_authorization_status_def update_challenge_status_def)
     (cases rule: reclaim_cases [of x now i to_valid g req audit s],
      auto dest!: db_evolve_order_op simp: db_evolve_def)

lemma accounts_frame_certs:
  "accounts (snd (create_certificate x now cid iss s)) = accounts s"
  "accounts (snd (record_issuance x now cid iss url sans csr g s)) = accounts s"
  "accounts (snd (quarantine_certificate x now cid iss et viol reason sans extra s)) = accounts s"
  "accounts (snd (record_revocation x now cid oid aid rsn at sans d s)) = accounts s"
  "accounts (snd (attach_recovered_chain_with_audit x now cid chain audit s)) = accounts s"
  "accounts (snd (confirm_ca_revocation_with_audit x now ser audit wmark url' s)) = accounts s"
proof -
  show "accounts (snd (create_certificate x now cid iss s)) = accounts s"
    using create_certificate_effect [of x now cid iss s] by (auto simp: put_certificate_ok)
  show "accounts (snd (record_issuance x now cid iss url sans csr g s)) = accounts s"
    by (cases rule: record_issuance_cases [of x now cid iss url sans csr g s])
       (auto dest: issuance_txn_effect(5))
  show "accounts (snd (quarantine_certificate x now cid iss et viol reason sans extra s)) = accounts s"
    by (cases rule: quarantine_cases [of x now cid iss et viol reason sans extra s])
       (auto simp: put_certificate_ok upd_orders_def)
  show "accounts (snd (record_revocation x now cid oid aid rsn at sans d s)) = accounts s"
    by (auto simp: record_revocation_def Let_def case_prod_beta transition_to_revoked_def split: option.split)
  show "accounts (snd (attach_recovered_chain_with_audit x now cid chain audit s)) = accounts s"
    by (cases rule: attach_cases [of x now cid chain audit s]) simp_all
  show "accounts (snd (confirm_ca_revocation_with_audit x now ser audit wmark url' s)) = accounts s"
    by (cases rule: confirm_audit_cases [of ser s x now audit wmark url'])
       (simp_all add: confirm_ca_revocation_def)
qed

lemma evolve_cert_ops:
  "db_evolve s (snd (create_certificate x now cid iss s))"
  "db_evolve s (snd (record_issuance x now cid iss url sans csr g s))"
  "db_evolve s (snd (quarantine_certificate x now cid iss et viol reason sans extra s))"
  "db_evolve s (snd (record_revocation x now cid oid aid rsn at sans d s))"
  "db_evolve s (snd (revoke_certificate now cid rsn at s))"
  "wf_db s \<Longrightarrow> db_evolve s (snd (attach_recovered_chain_with_audit x now cid chain audit s))"
  "db_evolve s (snd (confirm_ca_revocation ser s))"
  "db_evolve s (snd (confirm_ca_revocation_with_audit x now ser audit wmark url' s))"
  "db_evolve s (snd (reset_crl_watermark k s))"
  "db_evolve s (snd (record_audit x now a s))"
  "db_evolve s (snd (update_audit_details x n d s))"
  "db_evolve s (snd (delete_audit_rows_before c s))"
  unfolding db_evolve_def
  by (simp_all add: accounts_frame_certs evolve_create_certificate evolve_record_issuance evolve_quarantine
      record_revocation_tables orders_evolve_all2 revoke_upd revoke_certificate_tables attach_effect
      confirm_ca_revocation_def confirm_upd confirm_with_audit_tables reset_crl_watermark_def record_audit_def
      update_audit_details_def delete_audit_rows_before_def Let_def)

lemma evolve_step: "store_step s s' \<Longrightarrow> wf_db s \<Longrightarrow> db_evolve s s'"
  by (induction rule: store_step.induct)
     (simp_all add: evolve_create_account evolve_create_account_audited evolve_account_key
        evolve_account_key_audited evolve_account_status evolve_nonces evolve_orders_ops evolve_cert_ops
        db_evolve_order_op [OF order_ops(1)] db_evolve_order_op [OF order_ops(2)]
        db_evolve_order_op [OF order_ops(3)] db_evolve_order_op [OF order_ops(4)]
        db_evolve_order_op [OF order_ops(5)] db_evolve_order_op [OF order_ops(6)]
        db_evolve_order_op [OF order_ops(7)] db_evolve_order_op [OF order_ops(8)]
        db_evolve_order_op [OF order_ops(9)])

section \<open>Leases\<close>

text \<open>
  What the finalize worker relies on: the generation of a key never falls, and the key
  becomes held only together with a higher generation. Then a lease that has lapsed is
  gone for good, whatever happens later, and a later holder has a higher generation.
\<close>

locale lease_machine =
  fixes step :: "'s \<Rightarrow> 's \<Rightarrow> bool"
    and inv :: "'s \<Rightarrow> bool"
    and gen :: "'k \<Rightarrow> 's \<Rightarrow> nat"
    and held :: "'k \<Rightarrow> 's \<Rightarrow> bool"
  assumes step_inv: "inv s \<Longrightarrow> step s s' \<Longrightarrow> inv s'"
    and gen_mono: "inv s \<Longrightarrow> step s s' \<Longrightarrow> gen k s \<le> gen k s'"
    and held_fresh: "inv s \<Longrightarrow> step s s' \<Longrightarrow> held k s' \<Longrightarrow> \<not> held k s \<Longrightarrow> gen k s < gen k s'"
begin

definition holds :: "'k \<Rightarrow> nat \<Rightarrow> 's \<Rightarrow> bool" where
  "holds k g s \<longleftrightarrow> held k s \<and> gen k s = g"

lemma run_inv: "step\<^sup>*\<^sup>* s s' \<Longrightarrow> inv s \<Longrightarrow> inv s'"
  by (induction rule: rtranclp_induct) (auto intro: step_inv)

lemma run_mono: "step\<^sup>*\<^sup>* s s' \<Longrightarrow> inv s \<Longrightarrow> gen k s \<le> gen k s'"
proof (induction rule: rtranclp_induct)
  case base
  then show ?case by simp
next
  case (step y z)
  then show ?case using gen_mono [of y z k] run_inv [of s y] by simp
qed

lemma lapsed_forever:
  assumes "step\<^sup>*\<^sup>* s s'" "inv s" "\<not> holds k g s" "g \<le> gen k s"
  shows "\<not> holds k g s'"
  using assms
proof (induction rule: rtranclp_induct)
  case base
  then show ?case by simp
next
  case (step y z)
  then have ny: "\<not> holds k g y" and inv: "inv y" using run_inv by blast+
  have le: "g \<le> gen k y" using run_mono [OF step.hyps(1) step.prems(1), of k] step.prems(3) by simp
  show ?case
  proof
    assume h: "holds k g z"
    show False
    proof (cases "held k y")
      case True
      with ny le have "g < gen k y" by (auto simp: holds_def)
      with gen_mono [OF inv step.hyps(2), of k] h show False by (simp add: holds_def)
    next
      case False
      with held_fresh [OF inv step.hyps(2), of k] h le show False by (simp add: holds_def)
    qed
  qed
qed

lemma later_holder:
  assumes "inv s" "holds k g s" "step\<^sup>*\<^sup>* s t" "\<not> holds k g t" "step\<^sup>*\<^sup>* t u" "holds k g' u"
  shows "g < g'"
proof -
  have "g \<le> gen k t" using run_mono [OF assms(3,1), of k] assms(2) by (simp add: holds_def)
  then have "\<not> holds k g u" using lapsed_forever [OF assms(5) run_inv [OF assms(3,1)] assms(4)] by simp
  moreover have "g \<le> gen k u"
    using \<open>g \<le> gen k t\<close> run_mono [OF assms(5) run_inv [OF assms(3,1)], of k] by simp
  ultimately show ?thesis using assms(6) by (auto simp: holds_def)
qed

end

definition lease_gen :: "string \<Rightarrow> db \<Rightarrow> nat" where
  "lease_gen i s = (case get_order i s of None \<Rightarrow> 0 | Some r \<Rightarrow> ord_processing_generation r)"

definition lease_held :: "string \<Rightarrow> db \<Rightarrow> bool" where
  "lease_held i s = (case get_order i s of None \<Rightarrow> False | Some r \<Rightarrow> ord_status r = PROCESSING)"

lemma evolve_order:
  assumes "db_evolve s s'"
  shows "get_order i s = Some r \<Longrightarrow> \<exists>r'. get_order i s' = Some r' \<and> ord_step r r'"
    and "get_order i s = None \<Longrightarrow> get_order i s' = Some r' \<Longrightarrow> ord_status r' = PENDING \<and> ord_processing_generation r' = 0"
  using assms evolve_find evolve_find_new unfolding db_evolve_def get_order_def by blast+

interpretation order_lease: lease_machine store_step wf_db lease_gen lease_held
proof unfold_locales
  fix s s' :: db and k :: string
  assume wf: "wf_db s" and st: "store_step s s'"
  show "wf_db s'" using wf_store_step [OF st wf] .
  have ev: "db_evolve s s'" using evolve_step [OF st wf] .
  show "lease_gen k s \<le> lease_gen k s'"
  proof (cases "get_order k s")
    case None
    then show ?thesis by (simp add: lease_gen_def)
  next
    case (Some r)
    then obtain r' where "get_order k s' = Some r'" "ord_step r r'" using evolve_order(1) [OF ev] by blast
    with Some show ?thesis using ord_step_gen by (simp add: lease_gen_def)
  qed
  show "lease_gen k s < lease_gen k s'" if h: "lease_held k s'" "\<not> lease_held k s"
  proof (cases "get_order k s")
    case None
    with h(1) evolve_order(2) [OF ev None] show ?thesis by (auto simp: lease_held_def split: option.splits)
  next
    case (Some r)
    then obtain r' where "get_order k s' = Some r'" "ord_step r r'" using evolve_order(1) [OF ev] by blast
    with Some h show ?thesis by (auto simp: lease_gen_def lease_held_def ord_step_def split: if_splits)
  qed
qed

lemma holds_iff: "holds_processing_lease i g s \<longleftrightarrow> order_lease.holds i g s"
  by (simp add: holds_processing_lease_def order_lease.holds_def lease_gen_def lease_held_def split: option.split)

section \<open>Lives over runs\<close>

lemma accts_evolve_find:
  assumes "accts_evolve rows rows'" "find (\<lambda>r. acc_id r = i) rows = Some r"
  shows "\<exists>r'. find (\<lambda>r. acc_id r = i) rows' = Some r' \<and> acct_step r r'"
proof -
  have "list_all2 acct_step rows old \<Longrightarrow> find (\<lambda>r. acc_id r = i) rows = Some r \<Longrightarrow>
      \<exists>r'. find (\<lambda>r. acc_id r = i) old = Some r' \<and> acct_step r r'" for old
    by (induction rule: list_all2_induct) (auto simp: acct_step_def split: if_splits)
  then have "\<exists>r'. find (\<lambda>r. acc_id r = i) (take (length rows) rows') = Some r' \<and> acct_step r r'"
    using assms unfolding accts_evolve_def by blast
  moreover have "find (\<lambda>r. acc_id r = i) rows' =
      (case find (\<lambda>r. acc_id r = i) (take (length rows) rows') of
         None \<Rightarrow> find (\<lambda>r. acc_id r = i) (drop (length rows) rows') | Some r \<Rightarrow> Some r)"
    by (simp only: find_append [symmetric] append_take_drop_id)
  ultimately show ?thesis by auto
qed

lemma run_order:
  assumes "store_step\<^sup>*\<^sup>* s s'" "wf_db s" "get_order i s = Some r"
  shows "\<exists>r'. get_order i s' = Some r' \<and> ord_step\<^sup>*\<^sup>* r r'"
  using assms
proof (induction rule: rtranclp_induct)
  case base
  then show ?case by simp
next
  case (step y z)
  then obtain r1 where r1: "get_order i y = Some r1" "ord_step\<^sup>*\<^sup>* r r1" by blast
  have "db_evolve y z" using evolve_step step.hyps(2) wf_reachable [OF step.hyps(1) step.prems(1)] by blast
  from evolve_order(1) [OF this r1(1)] r1(2) show ?case by (meson rtranclp.rtrancl_into_rtrancl)
qed

lemma run_certificate:
  assumes "store_step\<^sup>*\<^sup>* s s'" "wf_db s" "get_certificate i s = Some r"
  shows "\<exists>r'. get_certificate i s' = Some r' \<and> cert_step\<^sup>*\<^sup>* r r'"
  using assms
proof (induction rule: rtranclp_induct)
  case base
  then show ?case by simp
next
  case (step y z)
  then obtain r1 where r1: "get_certificate i y = Some r1" "cert_step\<^sup>*\<^sup>* r r1" by blast
  have "db_evolve y z" using evolve_step step.hyps(2) wf_reachable [OF step.hyps(1) step.prems(1)] by blast
  then obtain r2 where "get_certificate i z = Some r2" "cert_step r1 r2"
    using certs_evolve_find r1(1) unfolding db_evolve_def get_certificate_def by blast
  with r1(2) show ?case by (meson rtranclp.rtrancl_into_rtrancl)
qed

lemma run_account:
  assumes "store_step\<^sup>*\<^sup>* s s'" "wf_db s" "get_account i s = Some r"
  shows "\<exists>r'. get_account i s' = Some r' \<and> acct_step\<^sup>*\<^sup>* r r'"
  using assms
proof (induction rule: rtranclp_induct)
  case base
  then show ?case by simp
next
  case (step y z)
  then obtain r1 where r1: "get_account i y = Some r1" "acct_step\<^sup>*\<^sup>* r r1" by blast
  have "db_evolve y z" using evolve_step step.hyps(2) wf_reachable [OF step.hyps(1) step.prems(1)] by blast
  then obtain r2 where "get_account i z = Some r2" "acct_step r1 r2"
    using accts_evolve_find r1(1) unfolding db_evolve_def get_account_def by blast
  with r1(2) show ?case by (meson rtranclp.rtrancl_into_rtrancl)
qed

lemma ord_steps:
  "ord_step\<^sup>*\<^sup>* r r' \<Longrightarrow> ord_identity r' = ord_identity r
     \<and> (ord_status r \<in> {INVALID, REVOKED} \<longrightarrow> ord_status r' = ord_status r)
     \<and> (ord_status r = VALID \<longrightarrow> ord_status r' \<in> {VALID, REVOKED})"
proof (induction rule: rtranclp_induct)
  case base
  then show ?case by simp
next
  case (step y z)
  then have "ord_identity z = ord_identity y" by (simp add: ord_step_def)
  moreover have "ord_status y \<in> {INVALID, REVOKED} \<longrightarrow> ord_status z = ord_status y"
    using ord_step_final step.hyps(2) by blast
  moreover have "ord_status y = VALID \<longrightarrow> ord_status z \<in> {VALID, REVOKED}"
    using step.hyps(2) by (cases "ord_status z") (auto simp: ord_step_def)
  ultimately show ?case using step.IH by auto
qed

lemma cert_steps:
  "cert_step\<^sup>*\<^sup>* c c' \<Longrightarrow> cert_identity c' = cert_identity c
     \<and> (cert_status c \<noteq> CertVALID \<longrightarrow> cert_status c' = cert_status c
          \<and> cert_revocation_reason c' = cert_revocation_reason c \<and> cert_revoked_at c' = cert_revoked_at c)
     \<and> (cert_chain_pem c \<noteq> [] \<longrightarrow> cert_chain_pem c' = cert_chain_pem c)
     \<and> (cert_ca_crl_updated c \<longrightarrow> cert_ca_crl_updated c')"
proof (induction rule: rtranclp_induct)
  case base
  then show ?case by simp
next
  case (step y z)
  from step.hyps(2) have "cert_identity z = cert_identity y
     \<and> (cert_status y \<noteq> CertVALID \<longrightarrow> cert_status z = cert_status y
          \<and> cert_revocation_reason z = cert_revocation_reason y \<and> cert_revoked_at z = cert_revoked_at y)
     \<and> (cert_chain_pem y \<noteq> [] \<longrightarrow> cert_chain_pem z = cert_chain_pem y)
     \<and> (cert_ca_crl_updated y \<longrightarrow> cert_ca_crl_updated z)"
    by (auto simp: cert_step_def split: if_splits)
  with step.IH show ?case by auto
qed

lemma acct_steps:
  "acct_step\<^sup>*\<^sup>* r r' \<Longrightarrow> acc_eab_kid r' = acc_eab_kid r \<and> (acc_status r = AcctDEACTIVATED \<longrightarrow> acc_status r' = AcctDEACTIVATED)"
  by (induction rule: rtranclp_induct) (auto simp: acct_step_def)

section \<open>Properties\<close>

text \<open>
  C6. A lease never comes back: once a worker that acquired a lease no longer holds it, then
  after any further sequence of store operations it still does not, and whoever holds the
  order then holds a strictly later generation.
\<close>

theorem lease_lapses_for_good:
  assumes "wf_db s" "acquire_processing_lease now i s = (Some g, s1)"
    "store_step\<^sup>*\<^sup>* s1 s2" "\<not> holds_processing_lease i g s2" "store_step\<^sup>*\<^sup>* s2 s3"
  shows "\<not> holds_processing_lease i g s3 \<and> (\<forall>g'. holds_processing_lease i g' s3 \<longrightarrow> g < g')"
proof -
  have wf1: "wf_db s1" using wf_store_step [OF acquire_lease [of s now i] assms(1)] assms(2) by simp
  have h1: "holds_processing_lease i g s1"
    using assms(1)
  proof (cases rule: acquire_cases [of s i now])
    case (won r)
    then show ?thesis using assms(2) by (simp add: holds_processing_lease_def)
  next
    case lost
    then show ?thesis using assms(2) by simp
  qed
  have later: "g < g'" if "holds_processing_lease i g' s3" for g'
    using order_lease.later_holder [OF wf1 _ assms(3) _ assms(5)] h1 assms(4) that unfolding holds_iff by blast
  then show ?thesis by blast
qed

text \<open>
  C39. The life of an order over any sequence of store operations: it is never lost, its
  account, identifiers, expiry and creation time never change, a valid order can only be
  revoked, and invalid and revoked are final.
\<close>

theorem order_life:
  assumes "wf_db s" "store_step\<^sup>*\<^sup>* s s'" "get_order i s = Some r"
  shows "\<exists>r'. get_order i s' = Some r' \<and> ord_identity r' = ord_identity r
     \<and> (ord_status r \<in> {INVALID, REVOKED} \<longrightarrow> ord_status r' = ord_status r)
     \<and> (ord_status r = VALID \<longrightarrow> ord_status r' \<in> {VALID, REVOKED})"
  using run_order [OF assms(2,1,3)] ord_steps by blast

text \<open>
  C7. The life of a certificate over any sequence of store operations: its row is never lost
  and its identifier, order, account, PEM text, template, requester, serial number and dates never change; once revoked or quarantined it is never valid
  again and its reason and time stand; a chain the CA returned is never overwritten; a confirmation
  is never undone.
\<close>

theorem certificate_life:
  assumes "wf_db s" "store_step\<^sup>*\<^sup>* s s'" "get_certificate i s = Some c"
  shows "\<exists>c'. get_certificate i s' = Some c' \<and> cert_identity c' = cert_identity c
     \<and> (cert_status c \<noteq> CertVALID \<longrightarrow> cert_status c' = cert_status c
          \<and> cert_revocation_reason c' = cert_revocation_reason c \<and> cert_revoked_at c' = cert_revoked_at c)
     \<and> (cert_chain_pem c \<noteq> [] \<longrightarrow> cert_chain_pem c' = cert_chain_pem c)
     \<and> (cert_ca_crl_updated c \<longrightarrow> cert_ca_crl_updated c')"
  using run_certificate [OF assms(2,1,3)] cert_steps by blast

text \<open>
  Deactivation is final: over any sequence of store operations a deactivated account
  stays deactivated, and no account moves to another credential.
\<close>

theorem deactivation_final:
  assumes "wf_db s" "store_step\<^sup>*\<^sup>* s s'" "get_account i s = Some r"
  shows "\<exists>r'. get_account i s' = Some r' \<and> acc_eab_kid r' = acc_eab_kid r
     \<and> (acc_status r = AcctDEACTIVATED \<longrightarrow> acc_status r' = AcctDEACTIVATED)"
  using run_account [OF assms(2,1,3)] acct_steps by blast

text \<open>
  Every database the operations can reach from the empty one is well formed: primary
  keys are unique, audit identifiers increase, and the unique indexes hold: one account per
  key thumbprint and one certificate per order.
\<close>

theorem store_invariant:
  assumes "store_step\<^sup>*\<^sup>* empty_db s"
  shows "wf_db s"
  using wf_reachable [OF assms wf_empty] .

section \<open>Witnesses\<close>

lemma acquire_sample:
  "acquire_processing_lease 0 ''o1'' sample_db =
     (Some 1, sample_db\<lparr>orders := [(sample_order ''o1'' PROCESSING 10)
        \<lparr>ord_processing_started_at := Some 0, ord_processing_generation := 1\<rparr>, sample_order ''o2'' PENDING 99]\<rparr>)"
  by (simp add: acquire_processing_lease_def cas_orders_def upd_orders_def get_order_def sample_db_def
      sample_order_def now_iso_def)

theorem lease_lapses_for_good_witness:
  "let s1 = snd (acquire_processing_lease 0 ''o1'' sample_db);
       s2 = snd (transition_processing_to_ready 0 ''o1'' (Some 1) s1);
       s3 = snd (acquire_processing_lease 0 ''o1'' s2)
   in \<not> holds_processing_lease ''o1'' 1 s3 \<and> (\<forall>g'. holds_processing_lease ''o1'' g' s3 \<longrightarrow> 1 < g')"
proof -
  let ?s1 = "snd (acquire_processing_lease 0 ''o1'' sample_db)"
  let ?s2 = "snd (transition_processing_to_ready 0 ''o1'' (Some 1) ?s1)"
  let ?s3 = "snd (acquire_processing_lease 0 ''o1'' ?s2)"
  have "\<not> holds_processing_lease ''o1'' 1 ?s2"
    unfolding acquire_sample snd_conv
    by (simp add: transition_processing_to_ready_def cas_orders_def upd_orders_def
        holds_processing_lease_def get_order_def sample_db_def sample_order_def processing_cas_def)
  moreover have "store_step\<^sup>*\<^sup>* ?s1 ?s2" "store_step\<^sup>*\<^sup>* ?s2 ?s3"
    by (rule r_into_rtranclp, rule processing_to_ready) (rule r_into_rtranclp, rule acquire_lease)
  moreover have "acquire_processing_lease 0 ''o1'' sample_db = (Some 1, ?s1)" by (simp add: acquire_sample)
  ultimately show ?thesis unfolding Let_def using lease_lapses_for_good [OF wf_sample] by blast
qed

theorem order_life_witness:
  "\<exists>r'. get_order ''o1'' (snd (sweep_expired_orders 20000000 sample_db)) = Some r'
     \<and> ord_identity r' = ord_identity (sample_order ''o1'' READY 10)"
proof -
  have "store_step\<^sup>*\<^sup>* sample_db (snd (sweep_expired_orders 20000000 sample_db))"
    by (rule r_into_rtranclp, rule sweep_orders)
  moreover have "get_order ''o1'' sample_db = Some (sample_order ''o1'' READY 10)"
    by (simp add: get_order_def sample_db_def sample_order_def)
  ultimately show ?thesis using order_life [OF wf_sample] by blast
qed

definition revoked_db :: db where
  "revoked_db = certs_db\<lparr>certificates := [sample_cert ''c1'' ''o1'' CertREVOKED]\<rparr>"

theorem certificate_life_witness:
  "\<exists>c'. get_certificate ''c1'' (snd (revoke_certificate 0 ''c1'' (Some 4) None revoked_db)) = Some c'
     \<and> cert_status c' = CertREVOKED
     \<and> cert_revocation_reason c' = cert_revocation_reason (sample_cert ''c1'' ''o1'' CertREVOKED)"
proof -
  have "store_step\<^sup>*\<^sup>* revoked_db (snd (revoke_certificate 0 ''c1'' (Some 4) None revoked_db))"
    by (rule r_into_rtranclp, rule revoke)
  moreover have "get_certificate ''c1'' revoked_db = Some (sample_cert ''c1'' ''o1'' CertREVOKED)"
      "cert_status (sample_cert ''c1'' ''o1'' CertREVOKED) = CertREVOKED"
    by (simp_all add: get_certificate_def revoked_db_def sample_cert_def)
  moreover have "wf_db revoked_db"
    using wf_certs_db by (simp add: wf_db_def revoked_db_def certs_db_def sample_cert_def)
  ultimately show ?thesis using certificate_life [of revoked_db] by (metis CertStatus.distinct(1))
qed

theorem deactivation_final_witness:
  "\<exists>r'. get_account ''a'' (snd (update_account_status ''a'' AcctDEACTIVATED sample_db)) = Some r'
     \<and> acc_eab_kid r' = ''k''"
proof -
  have "store_step\<^sup>*\<^sup>* sample_db (snd (update_account_status ''a'' AcctDEACTIVATED sample_db))"
    by (rule r_into_rtranclp, rule account_status)
  moreover have "get_account ''a'' sample_db = Some sample_account" "acc_eab_kid sample_account = ''k''"
    by (simp_all add: get_account_def sample_db_def sample_account_def)
  ultimately show ?thesis using deactivation_final [OF wf_sample] by metis
qed

theorem store_invariant_witness:
  "wf_db (snd (create_nonce 0 ''n'' True (snd (create_nonce 0 ''m'' False empty_db))))"
proof -
  let ?s1 = "snd (create_nonce 0 ''m'' False empty_db)"
  have 1: "store_step empty_db ?s1" by (rule create_nonce)
  have "store_step ?s1 (snd (create_nonce 0 ''n'' True ?s1))" by (rule create_nonce)
  then have "store_step\<^sup>*\<^sup>* empty_db (snd (create_nonce 0 ''n'' True ?s1))"
    using converse_rtranclp_into_rtranclp [of store_step, OF 1] by blast
  then show ?thesis by (rule store_invariant)
qed

end
