(* ===== verification/AuditCoalesce.thy ===== *)
theory AuditCoalesce
  imports StoreBase "HOL-Library.Multiset"
begin

text \<open>
  The denial coalescer of \<open>src/src/acme_adcs_ra/audit_coalesce.py\<close>: within a time window,
  repeats of one kind of denial are folded into the audit row already on disk instead of
  adding a row each. The index of open windows is a dict, here the list of its entries in
  insertion order. The monotonic clock is a number of microseconds, the window a whole
  number of seconds, and a time inside a details object is a JSON number.
\<close>

section \<open>State\<close>

definition COALESCED_EVENT_TYPES :: "string list" where
  "COALESCED_EVENT_TYPES =
     [''account-creation-denied'', ''account-request-denied'', ''order-rate-limited'',
      ''key-change-rate-limited'', ''finalize-csr-mismatch'', ''finalize-policy-denied'',
      ''finalize-enrollment-admission-denied'', ''admin-order-reclaim-not-found'',
      ''admin-order-reclaim-denied'', ''admin-order-reclaim-noop'', ''admin-list-orders'',
      ''admin-revocation-confirm-denied'', ''admin-revocation-confirm-deferred'',
      ''admin-list-pending-revocations'', ''revocation-issuer-evidence-recovery'']"

definition GLOBAL_ADMIN_KEY_EVENT_TYPES :: "string list" where
  "GLOBAL_ADMIN_KEY_EVENT_TYPES =
     [''admin-order-reclaim-not-found'', ''admin-order-reclaim-denied'', ''admin-order-reclaim-noop'',
      ''admin-list-orders'', ''admin-revocation-confirm-denied'', ''admin-revocation-confirm-deferred'',
      ''admin-list-pending-revocations'']"

record Window =
  w_audit_id :: nat
  w_opened_at :: int
  w_last_touch :: int
  w_first_seen :: timestamp
  w_last_seen :: timestamp
  w_base_details :: details
  w_count :: nat
  w_kid_samples :: "string list"
  w_distinct_kids :: "string list"
  w_distinct_kids_truncated :: bool

type_synonym window_key = "string \<times> string \<times> string \<times> string"

record DenialCoalescer =
  c_window_seconds :: int
  c_max_kid_samples :: nat
  c_max_open_windows :: nat
  c_max_distinct_kids :: nat
  c_windows :: "(window_key \<times> Window) list"
  c_evicted :: nat

section \<open>Operations\<close>

definition kid_digest :: "ext \<Rightarrow> string \<Rightarrow> string" where
  "kid_digest x kid = ''sha256:'' @ x_digest x kid"

definition summary :: "Window \<Rightarrow> json" where
  "summary w = JObj [(''denial_count'', JInt (int (w_count w))), (''first_seen'', JInt (w_first_seen w)),
     (''last_seen'', JInt (w_last_seen w))]"

definition coalesce_enabled :: "DenialCoalescer \<Rightarrow> bool" where
  "coalesce_enabled c \<longleftrightarrow> c_window_seconds c > 0"

definition window_live :: "DenialCoalescer \<Rightarrow> int \<Rightarrow> Window \<Rightarrow> bool" where
  "window_live c tick w \<longleftrightarrow> tick - w_opened_at w < c_window_seconds c * micros"

definition evict_for_new_window :: "int \<Rightarrow> DenialCoalescer \<Rightarrow> DenialCoalescer" where
  "evict_for_new_window tick c =
     (if length (c_windows c) < c_max_open_windows c then c
      else
        let live = filter (\<lambda>(k, w). window_live c tick w) (c_windows c);
            c1 = c\<lparr>c_windows := live, c_evicted := c_evicted c + (length (c_windows c) - length live)\<rparr>
        in if length live < c_max_open_windows c then c1
           else
             let doomed = map fst (take (length live - c_max_open_windows c + 1)
                                     (sort_key (\<lambda>(k, w). w_last_touch w) live))
             in c1\<lparr>c_windows := filter (\<lambda>(k, w). k \<notin> set doomed) live,
                   c_evicted := c_evicted c1 + length doomed\<rparr>)"

text \<open>\<open>str(v)\<close> of a details value; the callers pass text.\<close>

definition py_str :: "json \<Rightarrow> string" where
  "py_str v = (case v of JStr s \<Rightarrow> s | JNull \<Rightarrow> ''None'' | JBool b \<Rightarrow> if b then ''True'' else ''False'' | w \<Rightarrow> dumps w)"

text \<open>The caller's details without the coalescer's own markers.\<close>

definition clean_details :: "audit_args \<Rightarrow> details" where
  "clean_details args = filter (\<lambda>(k, v). k \<notin> {''previous_window'', ''coalescer_evictions''})
     (case ev_details args of None \<Rightarrow> [] | Some d \<Rightarrow> d)"

definition window_key_of :: "audit_args \<Rightarrow> details \<Rightarrow> window_key" where
  "window_key_of args d =
     (let reason = (case map_of d ''reason'' of None \<Rightarrow> [] | Some v \<Rightarrow> py_str v);
          reason_key = (case map_of d ''reason_code'' of
                          None \<Rightarrow> reason | Some JNull \<Rightarrow> reason | Some v \<Rightarrow> py_str v);
          global_admin_key = ev_type args \<in> set GLOBAL_ADMIN_KEY_EVENT_TYPES
      in (ev_type args, reason_key,
          if global_admin_key then [] else (case ev_account args of None \<Rightarrow> [] | Some a \<Rightarrow> a),
          if global_admin_key then [] else (case ev_order args of None \<Rightarrow> [] | Some i \<Rightarrow> i)))"

definition note_kid :: "ext \<Rightarrow> DenialCoalescer \<Rightarrow> json option \<Rightarrow> Window \<Rightarrow> Window" where
  "note_kid x c kid w =
     (case kid of
        Some (JStr k) \<Rightarrow>
          let digest = kid_digest x k in
          if digest \<in> set (w_distinct_kids w) then w
          else if length (w_distinct_kids w) < c_max_distinct_kids c
            then w\<lparr>w_distinct_kids := w_distinct_kids w @ [digest],
                   w_kid_samples := (if length (w_kid_samples w) < c_max_kid_samples c
                                     then w_kid_samples w @ [digest] else w_kid_samples w)\<rparr>
            else w\<lparr>w_distinct_kids_truncated := True\<rparr>
      | _ \<Rightarrow> w)"

definition extend_details :: "DenialCoalescer \<Rightarrow> Window \<Rightarrow> details" where
  "extend_details c w =
     fold (\<lambda>(k, v). dict_set k v)
       [(''denial_count'', JInt (int (w_count w))), (''coalesce_window_seconds'', JInt (c_window_seconds c)),
        (''first_seen'', JInt (w_first_seen w)), (''last_seen'', JInt (w_last_seen w)),
        (''kid_digests'', JList (map JStr (w_kid_samples w))),
        (''distinct_kids'', JInt (int (length (w_distinct_kids w)))),
        (''distinct_kids_truncated'', JBool (w_distinct_kids_truncated w))]
       (w_base_details w)"

definition extend_window ::
  "ext \<Rightarrow> clock \<Rightarrow> int \<Rightarrow> DenialCoalescer \<Rightarrow> json option \<Rightarrow> Window \<Rightarrow> db \<Rightarrow> bool \<times> Window \<times> db" where
  "extend_window x now tick c kid w s =
     (let w1 = w\<lparr>w_count := Suc (w_count w), w_last_touch := tick, w_last_seen := now_iso now\<rparr>;
          w2 = note_kid x c kid w1;
          (ok, s') = update_audit_details x (w_audit_id w2) (extend_details c w2) s
      in (ok, w2, s'))"

definition put_window :: "window_key \<Rightarrow> Window \<Rightarrow> (window_key \<times> Window) list \<Rightarrow> (window_key \<times> Window) list" where
  "put_window k w ws =
     (if k \<in> fst ` set ws then map (\<lambda>(k', w'). if k' = k then (k, w) else (k', w')) ws else ws @ [(k, w)])"

definition open_window ::
  "ext \<Rightarrow> clock \<Rightarrow> int \<Rightarrow> audit_args \<Rightarrow> details \<Rightarrow> window_key \<Rightarrow> json option \<Rightarrow> DenialCoalescer \<Rightarrow> db
     \<Rightarrow> AuditRow \<times> DenialCoalescer \<times> db" where
  "open_window x now tick args d key closed c s =
     (let c1 = evict_for_new_window tick c;
          d1 = dict_set ''coalesce_window_seconds'' (JInt (c_window_seconds c)) (dict_set ''denial_count'' (JInt 1) d);
          d2 = (case closed of None \<Rightarrow> d1 | Some summ \<Rightarrow> dict_set ''previous_window'' summ d1);
          d3 = (if c_evicted c1 > 0 then dict_set ''coalescer_evictions'' (JInt (int (c_evicted c1))) d2 else d2);
          (event, s') = record_audit x now (args\<lparr>ev_details := Some d3\<rparr>) s;
          base = (if aud_details event = [] then d3 else aud_details event);
          fresh = \<lparr>w_audit_id = aud_id event, w_opened_at = tick, w_last_touch = tick,
                   w_first_seen = aud_timestamp event, w_last_seen = aud_timestamp event,
                   w_base_details = base, w_count = 1, w_kid_samples = [], w_distinct_kids = [],
                   w_distinct_kids_truncated = False\<rparr>
      in (event, c1\<lparr>c_windows := put_window key (note_kid x c (map_of d ''kid'') fresh) (c_windows c1)\<rparr>, s'))"

definition coalesce_record ::
  "ext \<Rightarrow> clock \<Rightarrow> int \<Rightarrow> audit_args \<Rightarrow> DenialCoalescer \<Rightarrow> db \<Rightarrow> AuditRow option \<times> DenialCoalescer \<times> db" where
  "coalesce_record x now tick args c s =
     (if \<not> coalesce_enabled c \<or> ev_type args \<notin> set COALESCED_EVENT_TYPES
      then (let (event, s') = record_audit x now args s in (Some event, c, s'))
      else
        let d = clean_details args;
            key = window_key_of args d;
            fold_in = (case map_of (c_windows c) key of
                None \<Rightarrow> None
              | Some w \<Rightarrow> if window_live c tick w then Some (extend_window x now tick c (map_of d ''kid'') w s) else None)
        in case fold_in of
             Some (True, w', s') \<Rightarrow> (None, c\<lparr>c_windows := put_window key w' (c_windows c)\<rparr>, s')
           | Some (False, w', s') \<Rightarrow>
               (let (event, c', s'') = open_window x now tick args d key None
                      (c\<lparr>c_windows := filter (\<lambda>(k, w). k \<noteq> key) (c_windows c)\<rparr>) s'
                in (Some event, c', s''))
           | None \<Rightarrow>
               (let (event, c', s') = open_window x now tick args d key
                      (map_option summary (map_of (c_windows c) key)) c s
                in (Some event, c', s')))"

definition close_windows :: "DenialCoalescer \<Rightarrow> DenialCoalescer" where
  "close_windows c = c\<lparr>c_windows := []\<rparr>"

definition open_window_count :: "DenialCoalescer \<Rightarrow> nat" where
  "open_window_count c = length (c_windows c)"

section \<open>Lemmas\<close>

text \<open>The coalescer writes audit rows and nothing else.\<close>

definition audit_only :: "db \<Rightarrow> db \<Rightarrow> bool" where
  "audit_only s s' \<longleftrightarrow> s' = s\<lparr>audit_log := audit_log s', audit_seq := audit_seq s'\<rparr>"

lemma audit_only_refl [simp]: "audit_only s s"
  by (simp add: audit_only_def)

lemma audit_only_frame:
  assumes "audit_only s s'"
  shows "accounts s' = accounts s" "orders s' = orders s" "certificates s' = certificates s"
    "authorizations s' = authorizations s" "challenges s' = challenges s" "nonces s' = nonces s"
    "crl_watermark s' = crl_watermark s"
proof -
  obtain l n where s': "s' = s\<lparr>audit_log := l, audit_seq := n\<rparr>" using assms unfolding audit_only_def by blast
  show "accounts s' = accounts s" "orders s' = orders s" "certificates s' = certificates s"
    "authorizations s' = authorizations s" "challenges s' = challenges s" "nonces s' = nonces s"
    "crl_watermark s' = crl_watermark s"
    unfolding s' by simp_all
qed

lemma audit_only_trans: "audit_only a b \<Longrightarrow> audit_only b c \<Longrightarrow> audit_only a c"
proof -
  assume ab: "audit_only a b" and bc: "audit_only b c"
  obtain l n where b: "b = a\<lparr>audit_log := l, audit_seq := n\<rparr>" using ab unfolding audit_only_def by blast
  obtain l' n' where c: "c = b\<lparr>audit_log := l', audit_seq := n'\<rparr>" using bc unfolding audit_only_def by blast
  show ?thesis unfolding c b audit_only_def by simp
qed

lemma audit_only_record: "audit_only s (snd (record_audit_in_conn x now a s))"
  by (simp add: record_audit_in_conn_def Let_def audit_only_def)

lemma audit_only_update: "audit_only s (snd (update_audit_details x i d s))"
  by (simp add: update_audit_details_def Let_def audit_only_def)

lemma open_window_audit:
  "audit_only s (snd (snd (open_window x now tick args d key closed c s)))"
  "audit_log (snd (snd (open_window x now tick args d key closed c s))) =
     audit_log s @ [fst (open_window x now tick args d key closed c s)]"
  "aud_event_type (fst (open_window x now tick args d key closed c s)) = ev_type args"
  by (simp_all add: open_window_def Let_def case_prod_beta record_audit_def audit_only_record)

lemma extend_window_audit:
  "audit_only s (snd (snd (extend_window x now tick c kid w s)))"
  "map aud_id (audit_log (snd (snd (extend_window x now tick c kid w s)))) = map aud_id (audit_log s)"
  by (simp_all add: extend_window_def Let_def case_prod_beta audit_only_update)
     (simp add: update_audit_details_def Let_def map_upd_where)

lemma coalesce_record_cases:
  obtains (plain) event s' where "coalesce_record x now tick args c s = (Some event, c, s')"
      "(event, s') = record_audit x now args s"
      "\<not> coalesce_enabled c \<or> ev_type args \<notin> set COALESCED_EVENT_TYPES"
  | (folded) d w where "d = clean_details args" "window_live c tick w" "map_of (c_windows c) (window_key_of args d) = Some w"
      "fst (extend_window x now tick c (map_of d ''kid'') w s)"
      "coalesce_record x now tick args c s =
         (None, c\<lparr>c_windows := put_window (window_key_of args d)
                    (fst (snd (extend_window x now tick c (map_of d ''kid'') w s))) (c_windows c)\<rparr>,
          snd (snd (extend_window x now tick c (map_of d ''kid'') w s)))"
  | (opened) d closed c0 s0 event c' s' where "d = clean_details args"
      "coalesce_record x now tick args c s = (Some event, c', s')"
      "open_window x now tick args d (window_key_of args d) closed c0 s0 = (event, c', s')"
      "audit_only s s0" "length (audit_log s0) = length (audit_log s)"
      "\<exists>p. c0 = c\<lparr>c_windows := filter p (c_windows c)\<rparr>"
      "\<forall>w. map_of (c_windows c) (window_key_of args d) = Some w \<longrightarrow> window_live c tick w \<longrightarrow>
         \<not> fst (extend_window x now tick c (map_of d ''kid'') w s)"
      "coalesce_enabled c" "ev_type args \<in> set COALESCED_EVENT_TYPES"
proof -
  define d where "d = clean_details args"
  define key where "key = window_key_of args d"
  define fold_in where "fold_in = (case map_of (c_windows c) key of
                None \<Rightarrow> None
              | Some w \<Rightarrow> if window_live c tick w then Some (extend_window x now tick c (map_of d ''kid'') w s) else None)"
  show thesis
  proof (cases "\<not> coalesce_enabled c \<or> ev_type args \<notin> set COALESCED_EVENT_TYPES")
    case True
    obtain event s' where r: "record_audit x now args s = (event, s')" by fastforce
    then show thesis using plain [of event s'] True by (auto simp: coalesce_record_def)
  next
    case False
    have eq: "coalesce_record x now tick args c s =
       (case fold_in of
             Some (True, w', s') \<Rightarrow> (None, c\<lparr>c_windows := put_window key w' (c_windows c)\<rparr>, s')
           | Some (False, w', s') \<Rightarrow>
               (let (event, c', s'') = open_window x now tick args d key None
                      (c\<lparr>c_windows := filter (\<lambda>(k, w). k \<noteq> key) (c_windows c)\<rparr>) s'
                in (Some event, c', s''))
           | None \<Rightarrow>
               (let (event, c', s') = open_window x now tick args d key
                      (map_option summary (map_of (c_windows c) key)) c s
                in (Some event, c', s')))"
      using False unfolding coalesce_record_def Let_def fold_in_def key_def d_def by (simp only: if_False)
    show thesis
    proof (cases fold_in)
      case None
      obtain event c' s' where o: "open_window x now tick args d key
          (map_option summary (map_of (c_windows c) key)) c s = (event, c', s')" by (metis prod_cases3)
      show thesis
      proof (rule opened)
        show "coalesce_record x now tick args c s = (Some event, c', s')" unfolding eq None by (simp add: o)
        show "open_window x now tick args d (window_key_of args d)
            (map_option summary (map_of (c_windows c) key)) c s = (event, c', s')"
          using o unfolding key_def .
        have "c = c\<lparr>c_windows := filter (\<lambda>_. True) (c_windows c)\<rparr>" by simp
        then show "\<exists>p. c = c\<lparr>c_windows := filter p (c_windows c)\<rparr>" by blast
        show "\<forall>w. map_of (c_windows c) (window_key_of args d) = Some w \<longrightarrow> window_live c tick w \<longrightarrow>
           \<not> fst (extend_window x now tick c (map_of d ''kid'') w s)"
          using None unfolding fold_in_def key_def by (auto split: option.splits if_splits)
      qed (use False in \<open>simp_all add: d_def\<close>)
    next
      case (Some r)
      then obtain w where w: "map_of (c_windows c) key = Some w" "window_live c tick w"
        and r: "r = extend_window x now tick c (map_of d ''kid'') w s"
        unfolding fold_in_def by (auto split: option.splits if_splits)
      obtain ok w' s0 where e: "extend_window x now tick c (map_of d ''kid'') w s = (ok, w', s0)" by (metis prod_cases3)
      show thesis
      proof (cases ok)
        case True
        show thesis
          by (rule folded [of d w]) (use w e True in \<open>simp_all add: d_def [symmetric] eq Some r key_def [symmetric]\<close>)
      next
        case False
        obtain event c' s' where o: "open_window x now tick args d key None
            (c\<lparr>c_windows := filter (\<lambda>(k, w). k \<noteq> key) (c_windows c)\<rparr>) s0 = (event, c', s')" by (metis prod_cases3)
        show thesis
        proof (rule opened)
          show "coalesce_record x now tick args c s = (Some event, c', s')"
            unfolding eq Some r e using False o by simp
          show "open_window x now tick args d (window_key_of args d) None
              (c\<lparr>c_windows := filter (\<lambda>(k, w). k \<noteq> key) (c_windows c)\<rparr>) s0 = (event, c', s')"
            using o unfolding key_def .
          show "audit_only s s0" using extend_window_audit(1) [of s x now tick c "map_of d ''kid''" w] e by simp
          show "length (audit_log s0) = length (audit_log s)"
            using arg_cong [OF extend_window_audit(2) [of x now tick c "map_of d ''kid''" w s], of length] e by simp
          show "\<forall>w. map_of (c_windows c) (window_key_of args d) = Some w \<longrightarrow> window_live c tick w \<longrightarrow>
             \<not> fst (extend_window x now tick c (map_of d ''kid'') w s)"
            using w e False unfolding key_def by simp
        qed (use \<open>\<not> (\<not> coalesce_enabled c \<or> _)\<close> in \<open>auto simp: d_def\<close>)
      qed
    qed
  qed
qed

lemma coalesce_audit_only: "audit_only s (snd (snd (coalesce_record x now tick args c s)))"
proof (cases rule: coalesce_record_cases [of x now tick args c s])
  case (plain event s')
  then show ?thesis using audit_only_record [of s x now args] unfolding record_audit_def by (metis snd_conv)
next
  case (folded d w)
  then show ?thesis using extend_window_audit(1) by simp
next
  case (opened d closed c0 s0 event c' s')
  have "audit_only s0 s'" using open_window_audit(1) [of s0 x now tick args d "window_key_of args d" closed c0] opened(3) by simp
  with opened show ?thesis using audit_only_trans by simp
qed

section \<open>The index of open windows\<close>

definition coalescer_ok :: "DenialCoalescer \<Rightarrow> bool" where
  "coalescer_ok c \<longleftrightarrow> 1 \<le> c_max_open_windows c \<and> distinct (map fst (c_windows c))
     \<and> length (c_windows c) \<le> c_max_open_windows c"

lemma put_window_keys:
  "fst ` set (put_window k w ws) = insert k (fst ` set ws)"
  "distinct (map fst ws) \<Longrightarrow> distinct (map fst (put_window k w ws))"
  "length (put_window k w ws) = (if k \<in> fst ` set ws then length ws else Suc (length ws))"
proof -
  have keys: "map fst (map (\<lambda>(k', w'). if k' = k then (k, w) else (k', w')) ws) = map fst ws"
    by (induction ws) auto
  then have "fst ` set (map (\<lambda>(k', w'). if k' = k then (k, w) else (k', w')) ws) = fst ` set ws"
    by (metis list.set_map)
  then show "fst ` set (put_window k w ws) = insert k (fst ` set ws)"
    unfolding put_window_def by auto
  show "distinct (map fst ws) \<Longrightarrow> distinct (map fst (put_window k w ws))"
  proof (cases "k \<in> fst ` set ws")
    case True
    assume "distinct (map fst ws)"
    with True keys show ?thesis unfolding put_window_def by (simp only: if_True)
  next
    case False
    assume d: "distinct (map fst ws)"
    have "k \<notin> set (map fst ws)" using False by (simp only: set_map not_False_eq_True)
    with d have "distinct (map fst ws @ [k])" by (simp only: distinct_append distinct.simps) simp
    with False show ?thesis unfolding put_window_def by (simp only: if_False map_append list.map fst_conv)
  qed
  show "length (put_window k w ws) = (if k \<in> fst ` set ws then length ws else Suc (length ws))"
    by (simp add: put_window_def)
qed

lemma distinct_fst_filter: "distinct (map fst ws) \<Longrightarrow> distinct (map fst (filter p ws))"
  by (induction ws) auto

lemma length_filter_keys:
  assumes "distinct (map fst ws)" "set ks \<subseteq> fst ` set ws" "distinct ks"
  shows "length (filter (\<lambda>(k, w). k \<notin> set ks) ws) = length ws - length ks"
proof -
  have d: "distinct ws" using assms(1) by (simp add: distinct_map)
  have "length (filter (\<lambda>(k, w). k \<in> set ks) ws) = card (set (filter (\<lambda>(k, w). k \<in> set ks) ws))"
    using d distinct_card [of "filter (\<lambda>(k, w). k \<in> set ks) ws"] by simp
  also have "\<dots> = card (fst ` set (filter (\<lambda>(k, w). k \<in> set ks) ws))"
    using assms(1) by (intro card_image [symmetric]) (auto simp: distinct_map inj_on_def)
  also have "fst ` set (filter (\<lambda>(k, w). k \<in> set ks) ws) = set ks" using assms(2) by force
  finally have "length (filter (\<lambda>(k, w). k \<in> set ks) ws) = length ks" using assms(3) by (simp add: distinct_card)
  moreover have "length (filter (\<lambda>(k, w). k \<in> set ks) ws) + length (filter (\<lambda>(k, w). k \<notin> set ks) ws) = length ws"
    using sum_length_filter_compl [of "\<lambda>(k, w). k \<in> set ks" ws] by (simp add: case_prod_beta')
  ultimately show ?thesis by simp
qed

lemma evict_ok:
  assumes "coalescer_ok c"
  shows "length (c_windows (evict_for_new_window tick c)) < c_max_open_windows c"
    "distinct (map fst (c_windows (evict_for_new_window tick c)))"
    "c_max_open_windows (evict_for_new_window tick c) = c_max_open_windows c"
proof -
  let ?live = "filter (\<lambda>(k, w). window_live c tick w) (c_windows c)"
  let ?n = "length ?live - c_max_open_windows c + 1"
  let ?doomed = "map fst (take ?n (sort_key (\<lambda>(k, w). w_last_touch w) ?live))"
  have d: "distinct (map fst (c_windows c))" and m: "1 \<le> c_max_open_windows c" using assms by (simp_all add: coalescer_ok_def)
  have dl: "distinct (map fst ?live)" using d by (rule distinct_fst_filter)
  have dk: "distinct ?doomed"
  proof -
    have "mset (map fst (sort_key (\<lambda>(k, w). w_last_touch w) ?live)) = mset (map fst ?live)" by (simp add: mset_map)
    then have "distinct (map fst (sort_key (\<lambda>(k, w). w_last_touch w) ?live))"
      using dl mset_eq_imp_distinct_iff by blast
    then show ?thesis by (simp add: take_map [symmetric] distinct_take)
  qed
  have sub: "set ?doomed \<subseteq> fst ` set ?live"
    using set_take_subset [of ?n "sort_key (\<lambda>(k, w). w_last_touch w) ?live"] by force
  have len: "length (filter (\<lambda>(k, w). k \<notin> set ?doomed) ?live) < c_max_open_windows c"
    if "\<not> length ?live < c_max_open_windows c"
  proof -
    have "length ?doomed = ?n" using that m by simp
    then show ?thesis using length_filter_keys [OF dl sub dk] that m by linarith
  qed
  show "length (c_windows (evict_for_new_window tick c)) < c_max_open_windows c"
    using len by (auto simp: evict_for_new_window_def Let_def)
  show "distinct (map fst (c_windows (evict_for_new_window tick c)))"
    using d dl distinct_fst_filter [OF dl] by (simp add: evict_for_new_window_def Let_def)
  show "c_max_open_windows (evict_for_new_window tick c) = c_max_open_windows c"
    by (simp add: evict_for_new_window_def Let_def)
qed

lemma coalescer_ok_record:
  assumes ok: "coalescer_ok c"
  shows "coalescer_ok (fst (snd (coalesce_record x now tick args c s)))"
proof (cases rule: coalesce_record_cases [of x now tick args c s])
  case (plain event s')
  with ok show ?thesis by simp
next
  case (folded d w)
  have "window_key_of args d \<in> fst ` set (c_windows c)"
    using map_of_SomeD [OF folded(3)] by force
  with folded(5) ok show ?thesis
    by (simp add: coalescer_ok_def put_window_keys)
next
  case (opened d closed c0 s0 event c' s')
  obtain p where c0: "c0 = c\<lparr>c_windows := filter p (c_windows c)\<rparr>" using opened(6) by blast
  have ok0: "coalescer_ok c0"
    using ok distinct_fst_filter [of "c_windows c" p] order_trans [OF length_filter_le [of p "c_windows c"]]
    by (simp add: coalescer_ok_def c0)
  note ev = evict_ok [OF ok0, of tick]
  have c': "\<exists>w. c' = (evict_for_new_window tick c0)
      \<lparr>c_windows := put_window (window_key_of args d) w (c_windows (evict_for_new_window tick c0))\<rparr>"
    using opened(3) unfolding open_window_def Let_def case_prod_beta by (auto simp: prod_eq_iff)
  then have "coalescer_ok c'"
    using ev ok0 by (auto simp: coalescer_ok_def put_window_keys)
  with opened(2) show ?thesis by simp
qed

section \<open>Growth\<close>

record denial =
  dn_args :: audit_args
  dn_now :: clock
  dn_tick :: int

definition coalesce_run :: "ext \<Rightarrow> denial list \<Rightarrow> DenialCoalescer \<times> db \<Rightarrow> DenialCoalescer \<times> db" where
  "coalesce_run x ds st = fold (\<lambda>dn (c, s). snd (coalesce_record x (dn_now dn) (dn_tick dn) (dn_args dn) c s)) ds st"

definition denial_key :: "audit_args \<Rightarrow> window_key" where
  "denial_key args = window_key_of args (clean_details args)"

text \<open>The window of one key and the row behind it, after \<open>rows\<close> rows since \<open>start\<close>.\<close>

definition growth_inv :: "int \<Rightarrow> window_key \<Rightarrow> nat \<Rightarrow> int \<Rightarrow> int \<Rightarrow> DenialCoalescer \<times> db \<Rightarrow> bool" where
  "growth_inv W k base start t st \<longleftrightarrow>
     c_window_seconds (fst st) = W \<and> 1 \<le> c_max_open_windows (fst st)
     \<and> (\<exists>w. c_windows (fst st) = [(k, w)] \<and> w_audit_id w \<in> aud_id ` set (audit_log (snd st))
           \<and> start \<le> w_opened_at w \<and> w_opened_at w \<le> t
           \<and> base < length (audit_log (snd st))
           \<and> (int (length (audit_log (snd st))) - int base - 1) * (W * micros) \<le> w_opened_at w - start)"

lemma note_kid_keeps:
  "w_audit_id (note_kid x c kid w) = w_audit_id w" "w_opened_at (note_kid x c kid w) = w_opened_at w"
  by (simp_all add: note_kid_def Let_def split: option.split json.split)

lemma extend_found:
  "w_audit_id w \<in> aud_id ` set (audit_log s) \<Longrightarrow> fst (extend_window x now tick c kid w s)"
proof -
  assume a: "w_audit_id w \<in> aud_id ` set (audit_log s)"
  from a have "rowcount (\<lambda>r. aud_id r = w_audit_id w) (audit_log s) \<noteq> 0" by (auto simp: rowcount_0)
  then show ?thesis
    by (simp add: extend_window_def Let_def case_prod_beta update_audit_details_def note_kid_keeps)
qed

lemma extend_id_opened:
  "w_audit_id (fst (snd (extend_window x now tick c kid w s))) = w_audit_id w"
  "w_opened_at (fst (snd (extend_window x now tick c kid w s))) = w_opened_at w"
  by (simp_all add: extend_window_def Let_def case_prod_beta note_kid_keeps)

lemma open_window_effect:
  "\<exists>w. fst (snd (open_window x now tick args d key closed c s)) =
       (evict_for_new_window tick c)\<lparr>c_windows := put_window key w (c_windows (evict_for_new_window tick c))\<rparr>
     \<and> w_opened_at w = tick \<and> w_audit_id w = aud_id (fst (open_window x now tick args d key closed c s))"
  unfolding open_window_def Let_def case_prod_beta fst_conv snd_conv
  by (intro exI conjI, rule refl) (simp_all add: note_kid_keeps)

lemma evict_keeps_config:
  "c_window_seconds (evict_for_new_window tick c) = c_window_seconds c"
  "c_max_open_windows (evict_for_new_window tick c) = c_max_open_windows c"
  by (simp_all add: evict_for_new_window_def Let_def)

lemma evict_subset: "set (c_windows (evict_for_new_window tick c)) \<subseteq> set (c_windows c)"
  by (auto simp: evict_for_new_window_def Let_def)

lemma evict_one:
  assumes "c_windows c = [] \<or> (\<exists>w. c_windows c = [(k, w)])"
  shows "\<exists>ws. c_windows (evict_for_new_window tick c) = ws \<and> put_window k w ws = [(k, w)]"
proof -
  have "c_windows (evict_for_new_window tick c) = [] \<or> (\<exists>v. c_windows (evict_for_new_window tick c) = [(k, v)])"
    using assms by (auto simp: evict_for_new_window_def Let_def)
  then show ?thesis by (auto simp: put_window_def)
qed

lemma growth_open:
  assumes o: "open_window x now tick args d k closed c0 s0 = (ev, c', s')"
    and c0: "c_windows c0 = [] \<or> (\<exists>w. c_windows c0 = [(k, w)])"
    and cfg: "c_window_seconds c0 = W" "1 \<le> c_max_open_windows c0" and t: "start \<le> tick"
    and grow: "(int (length (audit_log s0)) - int base) * (W * micros) \<le> tick - start"
    and b: "base \<le> length (audit_log s0)"
  shows "growth_inv W k base start tick (c', s')"
proof -
  obtain w where w: "c' = (evict_for_new_window tick c0)
      \<lparr>c_windows := put_window k w (c_windows (evict_for_new_window tick c0))\<rparr>"
    "w_opened_at w = tick" "w_audit_id w = aud_id ev"
    using open_window_effect [of x now tick args d k closed c0 s0] o by auto
  have log: "audit_log s' = audit_log s0 @ [ev]"
    using open_window_audit(2) [of x now tick args d k closed c0 s0] o by simp
  have "c_windows c' = [(k, w)]" using w(1) evict_one [OF c0, of tick w] by auto
  then show ?thesis
    using w log cfg t grow b by (simp add: growth_inv_def evict_keeps_config algebra_simps)
qed

lemma growth_step:
  assumes inv: "growth_inv W k base start t (c, s)" and W: "0 < W" and t: "t \<le> dn_tick dn"
    and ty: "ev_type (dn_args dn) \<in> set COALESCED_EVENT_TYPES" and key: "denial_key (dn_args dn) = k"
  shows "growth_inv W k base start (dn_tick dn)
     (snd (coalesce_record x (dn_now dn) (dn_tick dn) (dn_args dn) c s))"
proof -
  let ?tk = "dn_tick dn"
  from inv obtain w where w: "c_windows c = [(k, w)]" "w_audit_id w \<in> aud_id ` set (audit_log s)"
    "start \<le> w_opened_at w" "w_opened_at w \<le> t" "base < length (audit_log s)"
    "(int (length (audit_log s)) - int base - 1) * (W * micros) \<le> w_opened_at w - start"
    and cfg: "c_window_seconds c = W" "1 \<le> c_max_open_windows c"
    by (auto simp: growth_inv_def)
  have k: "window_key_of (dn_args dn) (clean_details (dn_args dn)) = k" using key by (simp add: denial_key_def)
  show ?thesis
  proof (cases rule: coalesce_record_cases [of x "dn_now dn" ?tk "dn_args dn" c s])
    case (plain event s')
    with cfg W ty show ?thesis by (simp add: coalesce_enabled_def)
  next
    case (folded d w')
    have w': "w' = w" using folded(1,3) k w(1) by simp
    let ?e = "extend_window x (dn_now dn) ?tk c (map_of d ''kid'') w s"
    have ids: "map aud_id (audit_log (snd (snd ?e))) = map aud_id (audit_log s)" by (rule extend_window_audit(2))
    have len: "length (audit_log (snd (snd ?e))) = length (audit_log s)" using ids by (metis length_map)
    have ids': "aud_id ` set (audit_log (snd (snd ?e))) = aud_id ` set (audit_log s)"
      using ids by (metis list.set_map)
    have ws: "put_window k (fst (snd ?e)) (c_windows c) = [(k, fst (snd ?e))]" using w(1) by (simp add: put_window_def)
    have eq: "snd (coalesce_record x (dn_now dn) ?tk (dn_args dn) c s) =
        (c\<lparr>c_windows := [(k, fst (snd ?e))]\<rparr>, snd (snd ?e))"
      using folded(5) ws by (simp add: w' folded(1) k)
    show ?thesis unfolding eq growth_inv_def
      using w cfg t by (simp add: ids' len extend_id_opened)
  next
    case (opened d closed c0 s0 event c' s')
    have "\<not> window_live c ?tk w"
      using opened(1,7) k w(1) extend_found [OF w(2)] by auto
    then have lapse: "w_opened_at w + W * micros \<le> ?tk" by (simp add: window_live_def cfg)
    obtain p where c0: "c0 = c\<lparr>c_windows := filter p (c_windows c)\<rparr>" using opened(6) by blast
    have "growth_inv W k base start ?tk (c', s')"
    proof (rule growth_open [OF opened(3) [unfolded opened(1) k]])
      show "c_windows c0 = [] \<or> (\<exists>w. c_windows c0 = [(k, w)])" using w(1) by (simp add: c0)
      show "c_window_seconds c0 = W" "1 \<le> c_max_open_windows c0" using cfg by (simp_all add: c0)
      show "start \<le> ?tk" using w(3,4) t by linarith
      show "base \<le> length (audit_log s0)" using w(5) opened(5) by simp
      have "(int (length (audit_log s)) - int base) * (W * micros)
          = (int (length (audit_log s)) - int base - 1) * (W * micros) + W * micros" by (simp add: algebra_simps)
      then show "(int (length (audit_log s0)) - int base) * (W * micros) \<le> ?tk - start"
        using w(6) lapse opened(5) by simp
    qed
    then show ?thesis using opened(2) by simp
  qed
qed

lemma growth_run:
  assumes "growth_inv W k base start t st" "0 < W" "sorted (t # map dn_tick ds)"
    "\<forall>dn \<in> set ds. ev_type (dn_args dn) \<in> set COALESCED_EVENT_TYPES \<and> denial_key (dn_args dn) = k"
  shows "growth_inv W k base start (last (t # map dn_tick ds)) (coalesce_run x ds st)"
  using assms(1,3,4)
proof (induction ds arbitrary: t st)
  case Nil
  then show ?case by (simp add: coalesce_run_def)
next
  case (Cons dn ds)
  obtain c s where st: "st = (c, s)" by fastforce
  have "growth_inv W k base start (dn_tick dn) (snd (coalesce_record x (dn_now dn) (dn_tick dn) (dn_args dn) c s))"
    using growth_step [of W k base start t c s dn x] Cons.prems assms(2) st by simp
  then have "growth_inv W k base start (last (dn_tick dn # map dn_tick ds))
      (coalesce_run x ds (snd (coalesce_record x (dn_now dn) (dn_tick dn) (dn_args dn) c s)))"
    using Cons.IH Cons.prems by simp
  then show ?case by (simp add: coalesce_run_def st)
qed

lemma growth_first:
  assumes "c_windows c = []" "c_window_seconds c = W" "0 < W" "1 \<le> c_max_open_windows c"
    "ev_type (dn_args dn) \<in> set COALESCED_EVENT_TYPES"
  shows "growth_inv W (denial_key (dn_args dn)) (length (audit_log s)) (dn_tick dn) (dn_tick dn)
     (snd (coalesce_record x (dn_now dn) (dn_tick dn) (dn_args dn) c s))"
proof (cases rule: coalesce_record_cases [of x "dn_now dn" "dn_tick dn" "dn_args dn" c s])
  case (plain event s')
  with assms show ?thesis by (simp add: coalesce_enabled_def)
next
  case (folded d w)
  with assms(1) show ?thesis by simp
next
  case (opened d closed c0 s0 event c' s')
  obtain p where c0: "c0 = c\<lparr>c_windows := filter p (c_windows c)\<rparr>" using opened(6) by blast
  have "growth_inv W (denial_key (dn_args dn)) (length (audit_log s)) (dn_tick dn) (dn_tick dn) (c', s')"
    by (rule growth_open [OF opened(3) [unfolded opened(1) denial_key_def [symmetric]]])
       (use assms opened(5) in \<open>simp_all add: c0\<close>)
  with opened(2) show ?thesis by simp
qed

section \<open>Properties\<close>

text \<open>
  Durable growth from a replayed denial is a function of time, not of the request rate:
  over any run of denials of one key, with any clock readings in order and whatever else
  the requests carry, the rows after the first number at most the elapsed time over the
  window.
\<close>

theorem denial_growth_bound:
  assumes "c_windows c = []" "0 < c_window_seconds c" "1 \<le> c_max_open_windows c"
    "sorted (map dn_tick (dn # ds))"
    "\<forall>e \<in> set (dn # ds). ev_type (dn_args e) \<in> set COALESCED_EVENT_TYPES \<and> denial_key (dn_args e) = k"
  shows "(int (length (audit_log (snd (coalesce_run x (dn # ds) (c, s))))) - int (length (audit_log s)) - 1)
       * (c_window_seconds c * micros) \<le> dn_tick (last (dn # ds)) - dn_tick dn"
proof -
  let ?W = "c_window_seconds c"
  let ?st = "snd (coalesce_record x (dn_now dn) (dn_tick dn) (dn_args dn) c s)"
  have 1: "growth_inv ?W k (length (audit_log s)) (dn_tick dn) (dn_tick dn) ?st"
    using growth_first [OF assms(1) refl assms(2,3), of dn s x] assms(5) by simp
  have "growth_inv ?W k (length (audit_log s)) (dn_tick dn) (last (dn_tick dn # map dn_tick ds)) (coalesce_run x ds ?st)"
    by (rule growth_run [OF 1 assms(2)]) (use assms(4,5) in simp_all)
  moreover have "last (dn_tick dn # map dn_tick ds) = dn_tick (last (dn # ds))"
    using last_map [of "dn # ds" dn_tick] by simp
  moreover have "coalesce_run x (dn # ds) (c, s) = coalesce_run x ds ?st" by (simp add: coalesce_run_def)
  ultimately have "growth_inv ?W k (length (audit_log s)) (dn_tick dn) (dn_tick (last (dn # ds)))
      (coalesce_run x (dn # ds) (c, s))" by simp
  then show ?thesis unfolding growth_inv_def by force
qed

definition sample_coalescer :: DenialCoalescer where
  "sample_coalescer = \<lparr>c_window_seconds = 60, c_max_kid_samples = 10, c_max_open_windows = 1024,
     c_max_distinct_kids = 4096, c_windows = [], c_evicted = 0\<rparr>"

definition sample_denial :: "int \<Rightarrow> denial" where
  "sample_denial t = \<lparr>dn_args = audit_ev ''order-rate-limited'' None None ''denied'' [], dn_now = 0, dn_tick = t\<rparr>"

theorem denial_growth_bound_witness:
  "(int (length (audit_log (snd (coalesce_run sample_ext [sample_denial 0, sample_denial 5, sample_denial 61000000]
        (sample_coalescer, empty_db))))) - int (length (audit_log empty_db)) - 1) * (60 * micros) \<le> 61000000 - 0"
proof -
  have "(int (length (audit_log (snd (coalesce_run sample_ext (sample_denial 0 # [sample_denial 5, sample_denial 61000000])
        (sample_coalescer, empty_db))))) - int (length (audit_log empty_db)) - 1) * (c_window_seconds sample_coalescer * micros)
      \<le> dn_tick (last (sample_denial 0 # [sample_denial 5, sample_denial 61000000])) - dn_tick (sample_denial 0)"
    by (rule denial_growth_bound [where k = "denial_key (dn_args (sample_denial 0))"])
       (simp_all add: sample_coalescer_def sample_denial_def COALESCED_EVENT_TYPES_def)
  then show ?thesis by (simp add: sample_coalescer_def sample_denial_def)
qed

text \<open>
  The index of open windows is bounded: whatever is recorded, it never holds more than
  its cap, and the coalescer touches nothing but audit rows.
\<close>

theorem open_windows_bounded:
  assumes "coalescer_ok c"
  shows "coalescer_ok (fst (snd (coalesce_record x now tick args c s)))
     \<and> accounts (snd (snd (coalesce_record x now tick args c s))) = accounts s
     \<and> orders (snd (snd (coalesce_record x now tick args c s))) = orders s
     \<and> certificates (snd (snd (coalesce_record x now tick args c s))) = certificates s"
  by (intro conjI coalescer_ok_record [OF assms] audit_only_frame(1-3) [OF coalesce_audit_only])

theorem open_windows_bounded_witness:
  "coalescer_ok (fst (snd (coalesce_record sample_ext 0 0 (audit_ev ''order-rate-limited'' None None ''denied'' []) sample_coalescer empty_db)))"
proof -
  have "coalescer_ok sample_coalescer" by (simp add: coalescer_ok_def sample_coalescer_def)
  from open_windows_bounded [OF this] show ?thesis by blast
qed

end
