(* ===== verification/AppState.thy ===== *)
theory AppState
  imports StoreSteps AuditCoalesce CsrValidation
begin

text \<open>
  The state every request shares (\<open>ServerContext\<close> of \<open>src/src/acme_adcs_ra/app_state.py\<close>):
  the store, the denial coalescer, the one-way issuance halt and the register of live
  enrollments. The configuration and the two parsers of the \<open>cryptography\<close> package are the
  fields of \<open>config\<close>. \<open>sv_ca\<close> is the history of calls of the enrollment leg, by order and
  lease; the code has no such variable, the CA has. \<open>sv_nonce_spent\<close> is
  \<open>request.state.acme_nonce_consumed\<close> of the request being served. The SIEM fan-out of an audit row that
  is already stored is not modelled.

  A handler is a state transformer with an exception: what it wrote before it raised stays
  written. The account lock makes a submission and a mutation of one account exclusive, so
  the checks and the CA call of a submission are one step here.
\<close>

section \<open>Context\<close>

record config =
  base_url :: string
  max_csr_size_bytes :: nat
  eab_allowlist :: "(string \<times> string) list"
  policy_of :: IssuancePolicy
  load_csr :: "bytes \<Rightarrow> csr option"
  load_cert :: "string \<Rightarrow> x509_cert option"
  rate_limit_window_seconds :: nat
  rate_limit_orders_per_window :: nat
  rate_limit_overrides :: "string \<rightharpoonup> nat"
  rate_limit_global_per_window :: nat
  max_identifiers_per_order :: nat
  order_expiry_seconds :: nat
  max_jws_body_size_bytes :: nat
  max_accounts_per_eab_kid :: nat
  rate_limit_key_changes_per_window :: nat
  terms_of_service :: string
  max_admin_body_size_bytes :: nat
  admin_token :: string
  revocation_confirm_token :: string
  reclaim_minimum_processing_age_seconds :: nat
  revocation_confirm_require_crl_evidence :: bool
  revocation_confirm_crl_require_monotonic :: bool
  revocation_confirm_crl_url :: string

text \<open>\<open>eab_keys_by_kid\<close> as a list of its keys, and \<open>eab_key_bytes\<close>: the first entry of a kid wins there.\<close>

definition eab_kids :: "config \<Rightarrow> string list" where
  "eab_kids cfg = map fst (eab_allowlist cfg)"

definition eab_key_bytes :: "config \<Rightarrow> string \<Rightarrow> b64_error + bytes option" where
  "eab_key_bytes cfg kid =
     (case map_of (eab_allowlist cfg) kid of
        None \<Rightarrow> Inr None
      | Some mac_key \<Rightarrow> rbind (base64url_decode mac_key) (\<lambda>b. Inr (Some b)))"

record server =
  sv_db :: db
  sv_coalescer :: "DenialCoalescer option"
  sv_halt :: "string option"
  sv_active :: "string \<rightharpoonup> nat"
  sv_ca :: "(string \<times> nat) list"
  sv_nonce_spent :: bool

text \<open>
  What a handler can raise: a problem document, an error of the store, the two ways the
  disk reports itself, through \<open>sqlite3\<close> and through the file system, and any other Python
  exception, which the framework answers with a bare status 500.
\<close>

datatype fault = Acme AcmeError | StoreFault store_error | OperationalError string | OSError string | Uncaught string

text \<open>
  What a request reads from outside: the wall clock, the monotonic clock, the libraries, the
  text of an exception they raise, and what the disk raises, if it does, when finalize
  quarantines a certificate and when it writes the audit row that stands in for the quarantine.
\<close>

record env =
  en_ext :: ext
  en_now :: clock
  en_tick :: int
  en_text :: "store_error \<Rightarrow> string"
  en_quarantine_fault :: "fault option"
  en_audit_fault :: "fault option"

type_synonym 'a handler = "server \<Rightarrow> (fault + 'a) \<times> server"

definition hbind :: "'a handler \<Rightarrow> ('a \<Rightarrow> 'b handler) \<Rightarrow> 'b handler" where
  "hbind m f sv = (case m sv of (Inl e, sv') \<Rightarrow> (Inl e, sv') | (Inr a, sv') \<Rightarrow> f a sv')"

definition ret :: "'a \<Rightarrow> 'a handler" where
  "ret a sv = (Inr a, sv)"

definition raising :: "AcmeError \<Rightarrow> 'a handler" where
  "raising e sv = (Inl (Acme e), sv)"

definition lift :: "AcmeError + 'a \<Rightarrow> 'a handler" where
  "lift r sv = (case r of Inl e \<Rightarrow> (Inl (Acme e), sv) | Inr a \<Rightarrow> (Inr a, sv))"

section \<open>Audit, halt and marks\<close>

definition audit :: "env \<Rightarrow> audit_args \<Rightarrow> server \<Rightarrow> server" where
  "audit en args sv =
     (case sv_coalescer sv of
        None \<Rightarrow> sv\<lparr>sv_db := snd (record_audit (en_ext en) (en_now en) args (sv_db sv))\<rparr>
      | Some c \<Rightarrow>
          let (event, c', s') = coalesce_record (en_ext en) (en_now en) (en_tick en) args c (sv_db sv)
          in sv\<lparr>sv_coalescer := Some c', sv_db := s'\<rparr>)"

definition halt :: "string \<Rightarrow> server \<Rightarrow> server" where
  "halt why sv = (if sv_halt sv = None then sv\<lparr>sv_halt := Some why\<rparr> else sv)"

definition is_active :: "string \<Rightarrow> server \<Rightarrow> bool" where
  "is_active order_id sv = (case sv_active sv order_id of None \<Rightarrow> False | Some n \<Rightarrow> n > 0)"

definition mark_enter :: "string \<Rightarrow> server \<Rightarrow> server" where
  "mark_enter order_id sv =
     sv\<lparr>sv_active := (sv_active sv)(order_id \<mapsto> (case sv_active sv order_id of None \<Rightarrow> 0 | Some n \<Rightarrow> n) + 1)\<rparr>"

definition mark_exit :: "string \<Rightarrow> server \<Rightarrow> server" where
  "mark_exit order_id sv =
     (let remaining = (case sv_active sv order_id of None \<Rightarrow> 0 | Some n \<Rightarrow> n) - 1 in
      if remaining > 0 then sv\<lparr>sv_active := (sv_active sv)(order_id \<mapsto> remaining)\<rparr>
      else sv\<lparr>sv_active := (sv_active sv)(order_id := None)\<rparr>)"

text \<open>\<open>with ctx.active_enrollments.enrolling(order_id)\<close>: the exit also runs on an exception.\<close>

definition enrolling :: "string \<Rightarrow> 'a handler \<Rightarrow> 'a handler" where
  "enrolling order_id m sv = (let (r, sv') = m (mark_enter order_id sv) in (r, mark_exit order_id sv'))"

definition on_db :: "(db \<Rightarrow> 'a \<times> db) \<Rightarrow> 'a handler" where
  "on_db f sv = (let (a, s') = f (sv_db sv) in (Inr a, sv\<lparr>sv_db := s'\<rparr>))"

definition audited :: "env \<Rightarrow> audit_args \<Rightarrow> unit handler" where
  "audited en args sv = (Inr (), audit en args sv)"

section \<open>URLs\<close>

definition url :: "config \<Rightarrow> string \<Rightarrow> string" where
  "url cfg path = rstrip CHR ''/'' (base_url cfg) @ path"

definition order_url :: "config \<Rightarrow> string \<Rightarrow> string" where
  "order_url cfg order_id = url cfg (''/acme/order/'' @ order_id)"

definition authz_url :: "config \<Rightarrow> string \<Rightarrow> string" where
  "authz_url cfg authz_id = url cfg (''/acme/authz/'' @ authz_id)"

definition challenge_url :: "config \<Rightarrow> string \<Rightarrow> string" where
  "challenge_url cfg challenge_id = url cfg (''/acme/challenge/'' @ challenge_id)"

definition finalize_url :: "config \<Rightarrow> string \<Rightarrow> string" where
  "finalize_url cfg order_id = url cfg (''/acme/finalize/'' @ order_id)"

definition certificate_url :: "config \<Rightarrow> string \<Rightarrow> string" where
  "certificate_url cfg cid = url cfg (''/acme/cert/'' @ cid)"

section \<open>Account checks\<close>

definition status_text :: "AccountStatus \<Rightarrow> string" where
  "status_text st = (case st of AcctVALID \<Rightarrow> ''valid'' | AcctDEACTIVATED \<Rightarrow> ''deactivated'')"

definition enforce_account_usable :: "env \<Rightarrow> config \<Rightarrow> AccountRow \<Rightarrow> unit handler" where
  "enforce_account_usable en cfg account sv =
     (if acc_status account \<noteq> AcctVALID then
        raising unauthorized (audit en (audit_ev ''account-request-denied'' (Some (acc_id account)) None ''denied''
          [(''reason'', JStr ''account-not-valid''), (''account_status'', JStr (status_text (acc_status account)))]) sv)
      else if acc_eab_kid account \<notin> set (eab_kids cfg) then
        raising unauthorized (audit en (audit_ev ''account-request-denied'' (Some (acc_id account)) None ''denied''
          [(''reason'', JStr ''eab-kid-not-allowlisted''), (''kid'', JStr (acc_eab_kid account))]) sv)
      else ret () sv)"

section \<open>Lemmas\<close>

lemma hbind_Inr [simp]: "m sv = (Inr a, sv') \<Longrightarrow> hbind m f sv = f a sv'"
  by (simp add: hbind_def)

lemma hbind_Inl [simp]: "m sv = (Inl e, sv') \<Longrightarrow> hbind m f sv = (Inl e, sv')"
  by (simp add: hbind_def)

lemma ret_simp [simp]: "ret a sv = (Inr a, sv)"
  by (simp add: ret_def)

lemma raising_simp [simp]: "raising e sv = (Inl (Acme e), sv)"
  by (simp add: raising_def)

lemma audit_frame [simp]:
  "sv_halt (audit en args sv) = sv_halt sv" "sv_active (audit en args sv) = sv_active sv"
  "sv_ca (audit en args sv) = sv_ca sv" "sv_nonce_spent (audit en args sv) = sv_nonce_spent sv"
  by (simp_all add: audit_def Let_def case_prod_beta split: option.split)

lemma audit_db: "audit_only (sv_db sv) (sv_db (audit en args sv))"
  using coalesce_audit_only [where s = "sv_db sv" and x = "en_ext en" and now = "en_now en" and tick = "en_tick en" and args = args]
  by (auto simp: audit_def Let_def case_prod_beta record_audit_def audit_only_record split: option.split)

lemma audit_tables [simp]:
  "accounts (sv_db (audit en args sv)) = accounts (sv_db sv)"
  "orders (sv_db (audit en args sv)) = orders (sv_db sv)"
  "certificates (sv_db (audit en args sv)) = certificates (sv_db sv)"
  "challenges (sv_db (audit en args sv)) = challenges (sv_db sv)"
  "authorizations (sv_db (audit en args sv)) = authorizations (sv_db sv)"
  using audit_only_frame [OF audit_db] by metis+

text \<open>An audit is a run of store operations.\<close>

lemma extend_is_step: "store_step\<^sup>*\<^sup>* s (snd (snd (extend_window x now tick c kid w s)))"
  by (auto simp: extend_window_def Let_def case_prod_beta intro: r_into_rtranclp audit_details)

lemma open_is_step: "store_step\<^sup>*\<^sup>* s (snd (snd (open_window x now tick args d key closed c s)))"
  by (auto simp: open_window_def Let_def case_prod_beta intro: r_into_rtranclp store_step.audit)

lemma coalesce_is_run: "store_step\<^sup>*\<^sup>* s (snd (snd (coalesce_record x now tick args c s)))"
proof -
  have "store_step\<^sup>*\<^sup>* s (snd (record_audit x now args s))" by (rule r_into_rtranclp, rule store_step.audit)
  then show ?thesis
    by (auto simp: coalesce_record_def Let_def case_prod_beta split: option.split bool.split prod.split
        intro: extend_is_step open_is_step rtranclp_trans [OF extend_is_step open_is_step]
        dest!: arg_cong [where f = "\<lambda>p. snd (snd p)"])
qed

lemma audit_is_run: "store_step\<^sup>*\<^sup>* (sv_db sv) (sv_db (audit en args sv))"
  using coalesce_is_run [where s = "sv_db sv" and x = "en_ext en" and now = "en_now en" and tick = "en_tick en" and args = args]
  by (auto simp: audit_def Let_def case_prod_beta split: option.split intro: r_into_rtranclp store_step.audit)

lemma wf_audit: "wf_db (sv_db sv) \<Longrightarrow> wf_db (sv_db (audit en args sv))"
  using wf_reachable audit_is_run by blast

lemma get_order_audit [simp]: "get_order i (sv_db (audit en args sv)) = get_order i (sv_db sv)"
  by (simp add: get_order_def)

lemma get_account_audit [simp]: "get_account i (sv_db (audit en args sv)) = get_account i (sv_db sv)"
  by (simp add: get_account_def)

lemma audit_plain:
  assumes "ev_type args \<notin> set COALESCED_EVENT_TYPES"
  shows "sv_db (audit en args sv) = snd (record_audit (en_ext en) (en_now en) args (sv_db sv))"
  using assms by (simp add: audit_def coalesce_record_def Let_def case_prod_beta split: option.split)

lemma mark_frame [simp]:
  "sv_db (mark_enter i sv) = sv_db sv" "sv_ca (mark_enter i sv) = sv_ca sv" "sv_halt (mark_enter i sv) = sv_halt sv"
  "sv_db (mark_exit i sv) = sv_db sv" "sv_ca (mark_exit i sv) = sv_ca sv" "sv_halt (mark_exit i sv) = sv_halt sv"
  by (simp_all add: mark_enter_def mark_exit_def Let_def)

lemma halt_frame [simp]:
  "sv_db (halt why sv) = sv_db sv" "sv_ca (halt why sv) = sv_ca sv" "sv_active (halt why sv) = sv_active sv"
  by (simp_all add: halt_def)

lemma halt_latched: "sv_halt (halt why sv) \<noteq> None" "sv_halt sv \<noteq> None \<Longrightarrow> sv_halt (halt why sv) = sv_halt sv"
  by (auto simp: halt_def)

section \<open>Frames of handlers\<close>

lemma hbind_lift [simp]: "hbind (lift (Inl e)) f sv = (Inl (Acme e), sv)" "hbind (lift (Inr a)) f sv = f a sv"
  by (simp_all add: hbind_def lift_def)

lemma hbind_audited [simp]: "hbind (audited en args) f sv = f () (audit en args sv)"
  by (simp add: hbind_def audited_def)

text \<open>
  A handler keeps a relation of server states when every run of it, raising or not, ends in
  a related state. For a reflexive and transitive relation that allows audit rows this is
  closed under the combinators the handlers are built from.
\<close>

locale handler_frame =
  fixes R :: "server \<Rightarrow> server \<Rightarrow> bool"
  assumes refl: "R sv sv"
    and trans: "R a b \<Longrightarrow> R b c \<Longrightarrow> R a c"
    and audit_ok: "R sv (audit en args sv)"
begin

definition keeps :: "'a handler \<Rightarrow> bool" where
  "keeps m \<longleftrightarrow> (\<forall>sv. R sv (snd (m sv)))"

lemma keepsI: "(\<And>sv. R sv (snd (m sv))) \<Longrightarrow> keeps m"
  by (simp add: keeps_def)

lemma keepsD: "keeps m \<Longrightarrow> R sv (snd (m sv))"
  by (simp add: keeps_def)

lemma keeps_basic [intro]: "keeps (ret a)" "keeps (raising e)" "keeps (lift r)" "keeps (audited en args)"
  by (simp_all add: keeps_def refl lift_def audited_def audit_ok split: sum.split)

lemma keeps_hbind [intro]: "keeps m \<Longrightarrow> (\<And>a. keeps (f a)) \<Longrightarrow> keeps (hbind m f)"
  unfolding keeps_def hbind_def
  by (auto split: prod.split sum.split) (metis refl snd_conv, metis snd_conv trans)

lemma keeps_if [intro]: "keeps m \<Longrightarrow> keeps n \<Longrightarrow> keeps (if b then m else n)"
  by simp

lemma keeps_option [intro]: "keeps n \<Longrightarrow> (\<And>a. keeps (f a)) \<Longrightarrow> keeps (case v of None \<Rightarrow> n | Some a \<Rightarrow> f a)"
  by (simp split: option.split)

lemma keeps_sum [intro]: "(\<And>a. keeps (f a)) \<Longrightarrow> (\<And>a. keeps (g a)) \<Longrightarrow> keeps (case v of Inl a \<Rightarrow> f a | Inr a \<Rightarrow> g a)"
  by (simp split: sum.split)

lemma keeps_pair [intro]: "(\<And>a b. keeps (f a b)) \<Longrightarrow> keeps (case v of (a, b) \<Rightarrow> f a b)"
  by (simp split: prod.split)

lemma keeps_get [intro]: "keeps n \<Longrightarrow> (\<And>a. keeps (f a)) \<Longrightarrow> keeps (\<lambda>sv. case g sv of None \<Rightarrow> n sv | Some a \<Rightarrow> f a sv)"
  unfolding keeps_def by (simp split: option.split)

lemma keeps_if_at [intro]: "keeps m \<Longrightarrow> keeps n \<Longrightarrow> keeps (\<lambda>sv. if b sv then m sv else n sv)"
  unfolding keeps_def by simp

lemmas keeps_intros = keeps_basic keeps_hbind keeps_if keeps_option keeps_sum keeps_pair keeps_get keeps_if_at

end

definition db_run :: "server \<Rightarrow> server \<Rightarrow> bool" where
  "db_run a b \<longleftrightarrow> store_step\<^sup>*\<^sup>* (sv_db a) (sv_db b) \<and> sv_ca b = sv_ca a"

definition rows_kept :: "server \<Rightarrow> server \<Rightarrow> bool" where
  "rows_kept a b \<longleftrightarrow> accounts (sv_db b) = accounts (sv_db a) \<and> orders (sv_db b) = orders (sv_db a)
     \<and> certificates (sv_db b) = certificates (sv_db a) \<and> sv_ca b = sv_ca a \<and> sv_halt b = sv_halt a"

interpretation runs: handler_frame db_run
  by unfold_locales (auto simp: db_run_def audit_is_run)

interpretation rows: handler_frame rows_kept
  by unfold_locales (auto simp: rows_kept_def)

lemma runs_on_db: "(\<And>s. store_step s (snd (f s))) \<Longrightarrow> runs.keeps (on_db f)"
  by (auto simp: runs.keeps_def db_run_def on_db_def case_prod_beta Let_def)

end
