(* ===== verification/Finalize.thy ===== *)
theory Finalize
  imports AppState
begin

text \<open>
  Finalize (\<open>src/src/acme_adcs_ra/finalize.py\<close> and \<open>finalize_order\<close> of
  \<open>src/src/acme_adcs_ra/routes/orders.py\<close>): the request checks, the enrollment lease, the
  submission to the CA, and the recording or the quarantine of what the CA issued.

  The CA's answer to \<open>submit_csr\<close> is an argument, as are the fresh \<open>uuid4\<close> of a certificate
  row, whether the bounded gate is full, and the input/output failures of the store at the
  writes that follow an issuance: its record (\<open>disk\<close>), the quarantine and the audit row that is
  the fallback of the quarantine (fields of the environment). A response is its status, the order row it serializes and
  its \<open>Retry-After\<close>.
\<close>

section \<open>Replies and the CA's answer\<close>

record reply =
  rp_status :: nat
  rp_order :: OrderRow
  rp_retry_after :: "nat option"

definition json_reply :: "OrderRow \<Rightarrow> reply" where
  "json_reply r = \<lparr>rp_status = 200, rp_order = r, rp_retry_after = None\<rparr>"

definition json_retry :: "nat \<Rightarrow> OrderRow \<Rightarrow> reply" where
  "json_retry n r = \<lparr>rp_status = 200, rp_order = r, rp_retry_after = Some n\<rparr>"

record EnrollmentResult =
  er_cert_pem :: string
  er_chain_pem :: "string list"
  er_template :: string
  er_requester :: string
  er_metadata :: "(string \<times> string) list"

record transport_error =
  te_text :: string
  te_ca_issued :: bool
  te_cert_pem :: "string option"
  te_chain_pem :: "string list"
  te_req_id :: "string option"

datatype enroll_answer =
    CaIssued EnrollmentResult
  | CaDenied string
  | CaPending string string
  | CaTransport transport_error
  | CaError string

record approved =
  ap_subject :: string
  ap_sans :: "string list"
  ap_decision :: PolicyDecision

section \<open>Before the lease\<close>

definition refresh_order_or_500 :: "string \<Rightarrow> OrderRow handler" where
  "refresh_order_or_500 order_id sv =
     (case get_order order_id (sv_db sv) of
        None \<Rightarrow> raising server_internal sv
      | Some r \<Rightarrow> ret r sv)"

definition order_status_text :: "OrderStatus \<Rightarrow> string" where
  "order_status_text st = (case st of PENDING \<Rightarrow> ''pending'' | READY \<Rightarrow> ''ready'' | PROCESSING \<Rightarrow> ''processing''
     | VALID \<Rightarrow> ''valid'' | INVALID \<Rightarrow> ''invalid'' | REVOKED \<Rightarrow> ''revoked'')"

definition finalize_existing_cert :: "env \<Rightarrow> config \<Rightarrow> string \<Rightarrow> string \<Rightarrow> CertRow \<Rightarrow> reply handler" where
  "finalize_existing_cert en cfg order_id account_id existing_cert =
     hbind (refresh_order_or_500 order_id) (\<lambda>refreshed.
       if ord_status refreshed = PROCESSING then
         hbind (on_db (transition_processing_to_valid (en_now en) order_id
                  (certificate_url cfg (cert_id existing_cert)) (Some (ord_processing_generation refreshed)))) (\<lambda>applied.
         hbind (if applied
                then audited en (audit_ev ''finalize-order-reconciled'' (Some account_id) (Some order_id) ''success''
                       [(''certificate_id'', JStr (cert_id existing_cert)),
                        (''prior_status'', JStr (order_status_text (ord_status refreshed)))])
                else ret ()) (\<lambda>_.
         hbind (refresh_order_or_500 order_id) (\<lambda>r. ret (json_reply r))))
       else ret (json_reply refreshed))"

definition finalize_expired_order :: "env \<Rightarrow> string \<Rightarrow> string \<Rightarrow> OrderRow \<Rightarrow> reply option handler" where
  "finalize_expired_order en order_id account_id order =
     (if \<not> is_expired (ord_expires order) (en_now en) then ret None
      else
        hbind (on_db (transition_active_to_invalid (en_now en) order_id)) (\<lambda>applied.
          if applied then
            hbind (audited en (audit_ev ''finalize-expired-order'' (Some account_id) (Some order_id) ''denied''
                     [(''expires'', JInt (ord_expires order))])) (\<lambda>_. raising order_not_ready)
          else
            hbind (refresh_order_or_500 order_id) (\<lambda>refreshed.
              if ord_status refreshed = VALID then ret (Some (json_reply refreshed))
              else if ord_status refreshed = PROCESSING then ret (Some (json_retry 3 refreshed))
              else raising order_not_ready)))"

definition parse_csr :: "config \<Rightarrow> (string \<times> json) list \<Rightarrow> AcmeError + csr" where
  "parse_csr cfg payload =
     (case map_of payload ''csr'' of
        Some (JStr csr_b64) \<Rightarrow>
          if csr_b64 = [] then Inl bad_csr
          else (case base64url_decode csr_b64 of
                  Inl e \<Rightarrow> Inl bad_csr
                | Inr csr_der \<Rightarrow>
                    if length csr_der > max_csr_size_bytes cfg then Inl bad_csr
                    else (case load_csr cfg csr_der of
                            None \<Rightarrow> Inl bad_csr
                          | Some c \<Rightarrow> if \<not> csr_signature_valid c then Inl bad_csr else Inr c))
      | _ \<Rightarrow> Inl bad_csr)"

definition csr_requested_sans :: "csr \<Rightarrow> AcmeError + string list" where
  "csr_requested_sans c =
     (case csr_san c of
        None \<Rightarrow> Inr []
      | Some gns \<Rightarrow>
          rbind (reject_non_dns_sans gns) (\<lambda>_.
          let san_values = dns_values gns in
          rbind (reject_wildcard_sans san_values) (\<lambda>_.
          rbind (reject_invalid_dns_sans san_values) (\<lambda>_. Inr san_values))))"

definition validated_sans :: "config \<Rightarrow> (string \<times> json) list \<Rightarrow> AcmeError + (csr \<times> string list)" where
  "validated_sans cfg payload =
     rbind (parse_csr cfg payload) (\<lambda>c.
     rbind (validate_csr_key_strength c) (\<lambda>_.
     rbind (csr_requested_sans c) (\<lambda>sans.
     rbind (reject_ca_capable_csr_extensions c) (\<lambda>_. Inr (c, sans)))))"

definition order_dns :: "OrderRow \<Rightarrow> string list" where
  "order_dns order = map (lower \<circ> snd) (filter (\<lambda>i. fst i = ''dns'') (ord_identifiers order))"

definition out_of_order :: "OrderRow \<Rightarrow> string list \<Rightarrow> string list" where
  "out_of_order order sans = sort (filter (\<lambda>s. lower s \<notin> set (order_dns order)) sans)"

definition finalize_audit :: "string \<Rightarrow> string \<Rightarrow> string \<Rightarrow> string list \<Rightarrow> string option \<Rightarrow> string \<Rightarrow> details \<Rightarrow> audit_args" where
  "finalize_audit event account_id order_id sans tmpl outcome d =
     \<lparr>ev_type = event, ev_account = Some account_id, ev_order = Some order_id, ev_sans = sans,
      ev_template = tmpl, ev_requester = None, ev_outcome = outcome, ev_details = Some d\<rparr>"

definition finalize_parse_and_validate_csr ::
  "env \<Rightarrow> config \<Rightarrow> (string \<times> json) list \<Rightarrow> OrderRow \<Rightarrow> string \<Rightarrow> string \<Rightarrow> approved handler" where
  "finalize_parse_and_validate_csr en cfg payload order account_id order_id =
     hbind (lift (validated_sans cfg payload)) (\<lambda>(c, sans).
       if out_of_order order sans \<noteq> [] then
         hbind (audited en (finalize_audit ''finalize-csr-mismatch'' account_id order_id sans None ''denied''
                  [(''reason'', JStr ''CSR SANs not in order identifiers''), (''reason_code'', JStr ''csr-san-mismatch''),
                   (''out_of_order'', JList (map JStr (out_of_order order sans)))]))
           (\<lambda>_. raising rejected_identifier)
       else (\<lambda>sv.
         (case get_account account_id (sv_db sv) of
            None \<Rightarrow> raising unauthorized sv
          | Some account \<Rightarrow>
              let decision = evaluate (policy_of cfg) (acc_eab_kid account) (csr_rfc4514 c) sans in
              if \<not> allowed decision then
                hbind (audited en (finalize_audit ''finalize-policy-denied'' account_id order_id sans None ''denied''
                         [(''reason'', JStr (reason decision)), (''reason_code'', JStr (reason_code decision))]))
                  (\<lambda>_. if contains ''out of scope'' (reason decision) \<or> contains ''no SANs'' (reason decision)
                       then raising rejected_identifier else raising bad_csr) sv
              else
                hbind (lift (reject_unrequested_common_names c sans))
                  (\<lambda>_. ret \<lparr>ap_subject = csr_rfc4514 c, ap_sans = sans, ap_decision = decision\<rparr>) sv)))"

definition finalize_transition_to_processing :: "env \<Rightarrow> string \<Rightarrow> (nat + reply) handler" where
  "finalize_transition_to_processing en order_id =
     hbind (on_db (acquire_processing_lease (en_now en) order_id)) (\<lambda>generation.
       case generation of
         Some g \<Rightarrow> ret (Inl g)
       | None \<Rightarrow> hbind (refresh_order_or_500 order_id) (\<lambda>refreshed.
           if ord_status refreshed = PROCESSING then ret (Inr (json_retry 3 refreshed))
           else ret (Inr (json_reply refreshed))))"

section \<open>The submission\<close>

definition abandon_if_lease_lapsed ::
  "env \<Rightarrow> string \<Rightarrow> string \<Rightarrow> approved \<Rightarrow> nat \<Rightarrow> reply option handler" where
  "abandon_if_lease_lapsed en order_id account_id ap generation sv =
     (if holds_processing_lease order_id generation (sv_db sv) then (Inr None, sv)
      else
        hbind (refresh_order_or_500 order_id) (\<lambda>order.
        hbind (audited en (finalize_audit ''finalize-enrollment-abandoned'' account_id order_id (ap_sans ap)
                 (template (ap_decision ap)) ''denied''
                 [(''reason'', JStr ''processing-lease-lapsed''), (''stage'', JStr ''before-submit''),
                  (''held_generation'', JInt (int generation)),
                  (''current_generation'', JInt (int (ord_processing_generation order))),
                  (''current_status'', JStr (order_status_text (ord_status order)))]))
          (\<lambda>_. ret (Some (json_retry 3 order)))) sv)"

text \<open>
  The audit row of a certificate that is live at the CA and not tracked. A store that cannot be
  written raises here too; the transaction leaves nothing.
\<close>

definition audit_orphan :: "env \<Rightarrow> audit_args \<Rightarrow> unit handler" where
  "audit_orphan en args sv = (case en_audit_fault en of Some e \<Rightarrow> (Inl e, sv) | None \<Rightarrow> audited en args sv)"

definition quarantine_or_audit ::
  "env \<Rightarrow> string \<Rightarrow> issued \<Rightarrow> string \<Rightarrow> string list \<Rightarrow> string \<Rightarrow> string list \<Rightarrow> details \<Rightarrow> audit_args \<Rightarrow> unit handler" where
  "quarantine_or_audit en cid i event_type violations why sans extra fallback sv =
     (case en_quarantine_fault en of
        Some e \<Rightarrow> audit_orphan en fallback sv
      | None \<Rightarrow>
          (case quarantine_certificate (en_ext en) (en_now en) cid i event_type violations why sans extra (sv_db sv) of
             (Inl e, s') \<Rightarrow> audit_orphan en fallback (sv\<lparr>sv_db := s'\<rparr>)
           | (Inr (record, event), s') \<Rightarrow> (Inr (), sv\<lparr>sv_db := s'\<rparr>)))"

definition quarantine_transport_orphan ::
  "env \<Rightarrow> string \<Rightarrow> string \<Rightarrow> string \<Rightarrow> approved \<Rightarrow> transport_error \<Rightarrow> nat \<Rightarrow> reply handler" where
  "quarantine_transport_orphan en cid order_id account_id ap te generation =
     (let tmpl = template (ap_decision ap);
          event = ''finalize-enrollment-transport-orphan'';
          ev = finalize_audit event account_id order_id (ap_sans ap) tmpl ''failed'';
          base = [(''error'', JStr (te_text te)), (''ca_issued'', JBool True), (''req_id'', json_opt (te_req_id te)),
                  (''quarantined'', JBool False)]
      in hbind
        (case te_cert_pem te of
           Some pem \<Rightarrow> quarantine_or_audit en cid
             \<lparr>is_order_id = order_id, is_account_id = account_id, is_cert_pem = pem, is_chain_pem = te_chain_pem te,
              is_template = (case tmpl of None \<Rightarrow> [] | Some t \<Rightarrow> t), is_requester = [],
              is_metadata = [(''req_id'', case te_req_id te of None \<Rightarrow> [] | Some r \<Rightarrow> r)]\<rparr>
             event [te_text te] ''the CA issued this certificate, but the RA could not complete enrollment (chain fetch or chain validation failed), so it was never honoured'' (ap_sans ap)
             [(''ca_issued'', JBool True), (''transport_error'', JStr (te_text te))]
             (ev (base @ [(''quarantine_error'', JStr ''see logs'')]))
         | None \<Rightarrow> audit_orphan en (ev (base @ [(''reason'', JStr ''the CA issued but the RA never received the certificate bytes; revoke by ReqID at the CA manually'')])))
        (\<lambda>_. hbind (on_db (transition_processing_to_invalid (en_now en) order_id (Some generation)))
        (\<lambda>_. hbind (refresh_order_or_500 order_id)
        (\<lambda>order. ret \<lparr>rp_status = 500, rp_order = order, rp_retry_after = None\<rparr>))))"

definition submit_enrollment_inner ::
  "env \<Rightarrow> string \<Rightarrow> string \<Rightarrow> string \<Rightarrow> approved \<Rightarrow> nat \<Rightarrow> enroll_answer \<Rightarrow> (EnrollmentResult + reply) handler" where
  "submit_enrollment_inner en cid order_id account_id ap generation answer sv0 =
     (let sv = sv0\<lparr>sv_ca := sv_ca sv0 @ [(order_id, generation)]\<rparr>;
          ev = (\<lambda>event outcome d. finalize_audit event account_id order_id (ap_sans ap)
                                    (template (ap_decision ap)) outcome d)
      in case answer of
        CaIssued result \<Rightarrow> ret (Inl result) sv
      | CaDenied text \<Rightarrow>
          hbind (on_db (transition_processing_to_ready (en_now en) order_id (Some generation))) (\<lambda>applied.
          hbind (audited en (ev ''finalize-enrollment-denied'' ''denied''
                   [(''error'', JStr text), (''revert_applied'', JBool applied)])) (\<lambda>_.
            if \<not> applied then hbind (refresh_order_or_500 order_id) (\<lambda>r. ret (Inr (json_reply r)))
            else raising rejected_identifier)) sv
      | CaPending req_id text \<Rightarrow>
          hbind (on_db (record_pending_ca_request (en_now en) order_id req_id generation)) (\<lambda>recorded.
          hbind (audited en (ev ''finalize-enrollment-pending'' ''failed''
                   [(''error'', JStr text), (''ca_issued'', JBool False), (''req_id'', JStr req_id),
                    (''pending_recorded'', JBool recorded)])) (\<lambda>_.
          hbind (refresh_order_or_500 order_id) (\<lambda>r.
            ret (Inr \<lparr>rp_status = 503, rp_order = r, rp_retry_after = Some 300\<rparr>)))) sv
      | CaTransport te \<Rightarrow>
          if te_ca_issued te
          then hbind (quarantine_transport_orphan en cid order_id account_id ap te generation)
                 (\<lambda>r. ret (Inr r)) sv
          else
            hbind (audited en (ev ''finalize-enrollment-transport-failed'' ''failed''
                     [(''error'', JStr (te_text te)), (''ca_issued'', JBool False)])) (\<lambda>_.
            hbind (refresh_order_or_500 order_id) (\<lambda>r.
              ret (Inr \<lparr>rp_status = 503, rp_order = r, rp_retry_after = Some 30\<rparr>))) sv
      | CaError text \<Rightarrow>
          hbind (audited en (ev ''finalize-enrollment-failed'' ''failed'' [(''error'', JStr text)]))
            (\<lambda>_. raising server_internal) sv)"

text \<open>\<open>jwk_thumbprint(json.loads(account.jwk_json))\<close>, or \<open>None\<close> without an account.\<close>

definition current_thumbprint :: "env \<Rightarrow> AccountRow option \<Rightarrow> store_error + string option" where
  "current_thumbprint en account =
     (case account of
        None \<Rightarrow> Inr None
      | Some a \<Rightarrow> (case acc_jwk a of
                     None \<Rightarrow> Inl ValueError
                   | Some j \<Rightarrow> rbind (thumbprint_of (en_ext en) j) (\<lambda>t. Inr (Some t))))"

definition finalize_submit_enrollment ::
  "env \<Rightarrow> config \<Rightarrow> string \<Rightarrow> string \<Rightarrow> string \<Rightarrow> string \<Rightarrow> approved \<Rightarrow> nat \<Rightarrow> enroll_answer
     \<Rightarrow> (EnrollmentResult + reply) handler" where
  "finalize_submit_enrollment en cfg cid order_id account_id authenticated_thumbprint ap generation answer sv =
     (let account = get_account account_id (sv_db sv) in
      case current_thumbprint en account of
        Inl e \<Rightarrow> (Inl (StoreFault e), sv)
      | Inr current \<Rightarrow>
          let eab_allowlisted = (case account of None \<Rightarrow> False | Some a \<Rightarrow> acc_eab_kid a \<in> set (eab_kids cfg)) in
          if (case account of None \<Rightarrow> True | Some a \<Rightarrow> acc_status a \<noteq> AcctVALID)
             \<or> current \<noteq> Some authenticated_thumbprint \<or> \<not> eab_allowlisted
          then
            hbind (on_db (transition_processing_to_ready (en_now en) order_id (Some generation))) (\<lambda>applied.
            hbind (audited en (finalize_audit ''finalize-enrollment-abandoned'' account_id order_id (ap_sans ap)
                     (template (ap_decision ap)) ''denied''
                     [(''reason'', JStr ''account-authorization-changed''), (''stage'', JStr ''before-submit''),
                      (''account_status'', JStr (case account of None \<Rightarrow> ''missing'' | Some a \<Rightarrow> status_text (acc_status a))),
                      (''key_matches_authenticated_request'', JBool (current = Some authenticated_thumbprint)),
                      (''eab_kid_allowlisted'', JBool eab_allowlisted), (''revert_applied'', JBool applied)]))
              (\<lambda>_. raising unauthorized)) sv
          else
            hbind (abandon_if_lease_lapsed en order_id account_id ap generation) (\<lambda>stale.
              case stale of
                Some r \<Rightarrow> ret (Inr r)
              | None \<Rightarrow> submit_enrollment_inner en cid order_id account_id ap generation answer) sv)"

section \<open>Messages\<close>

text \<open>\<open>repr\<close> of a string and of a list of strings.\<close>

definition repr_char :: "char \<Rightarrow> char \<Rightarrow> string" where
  "repr_char q c =
     (let n = (of_char c :: nat) in
      if c = q \<or> n = 92 then [CHR 0x5C, c]
      else if n = 10 then [CHR 0x5C, CHR ''n'']
      else if n = 13 then [CHR 0x5C, CHR ''r'']
      else if n = 9 then [CHR 0x5C, CHR ''t'']
      else if n < 32 \<or> (127 \<le> n \<and> n \<le> 160) \<or> n = 173
        then [CHR 0x5C, CHR ''x'', hex_digit (n div 16), hex_digit (n mod 16)]
      else [c])"

definition py_repr :: "string \<Rightarrow> string" where
  "py_repr s =
     (let q = (if CHR 0x27 \<in> set s \<and> CHR 0x22 \<notin> set s then CHR 0x22 else CHR 0x27)
      in q # concat (map (repr_char q) s) @ [q])"

fun repr_items :: "string list \<Rightarrow> string" where
  "repr_items [] = []"
| "repr_items [s] = py_repr s"
| "repr_items (s # t # rest) = py_repr s @ '', '' @ repr_items (t # rest)"

definition repr_list :: "string list \<Rightarrow> string" where
  "repr_list ss = ''['' @ repr_items ss @ '']''"

definition eku_oid_labels :: "(string \<times> string) list" where
  "eku_oid_labels =
     [(''1.3.6.1.5.5.7.3.2'', ''clientAuth''), (''2.5.29.37.0'', ''anyExtendedKeyUsage''),
      (''1.3.6.1.5.5.7.3.3'', ''codeSigning''), (''1.3.6.1.5.5.7.3.4'', ''emailProtection''),
      (''1.3.6.1.5.5.7.3.8'', ''timeStamping''), (''1.3.6.1.4.1.311.20.2.2'', ''smartcardLogon''),
      (''1.3.6.1.5.2.3.3'', ''pkinitKDC''), (''1.3.6.1.5.2.3.4'', ''pkinitClientAuth''),
      (''1.3.6.1.5.2.3.5'', ''pkinitServerAuth'')]"

definition eku_label :: "string \<Rightarrow> string" where
  "eku_label oid = (case map_of eku_oid_labels oid of None \<Rightarrow> oid | Some l \<Rightarrow> l @ '' ('' @ oid @ '')'')"

fun violation_text :: "violation \<Rightarrow> string" where
  "violation_text NoEku = ''no Extended Key Usage extension (certificate is all-purpose)''"
| "violation_text (EkuBeyondServerAuth oids) = ''EKU beyond serverAuth: '' @ repr_list (map eku_label oids)"
| "violation_text ServerAuthAbsent = ''serverAuth EKU (1.3.6.1.5.5.7.3.1) absent''"
| "violation_text CaTrue = ''BasicConstraints CA=true''"
| "violation_text KeyCertSign = ''KeyUsage keyCertSign=true''"
| "violation_text CrlSign = ''KeyUsage cRLSign=true''"
| "violation_text (UnauthorizedDns names authorized) =
     ''unauthorized DNS SANs: '' @ repr_list names @ '' (authorized='' @ repr_list authorized @ '')''"
| "violation_text (NonDnsSanTypes types) =
     ''non-DNS SAN types present: '' @ repr_list types @ '' (only DNS SANs are permitted)''"

section \<open>Completion\<close>

definition unwritable_store_markers :: "string list" where
  "unwritable_store_markers =
     [''disk is full'', ''database or disk is full'', ''readonly database'', ''read-only database'',
      ''attempt to write a readonly database'', ''disk i/o error'', ''unable to open database file'',
      ''database disk image is malformed'', ''no space left'']"

text \<open>\<open>str(exc)\<close>; the text of an error raised inside a library is a field of the environment.\<close>

definition fault_text :: "env \<Rightarrow> fault \<Rightarrow> string" where
  "fault_text en exc =
     (case exc of OperationalError t \<Rightarrow> t | OSError t \<Rightarrow> t | StoreFault e \<Rightarrow> en_text en e | Acme e \<Rightarrow> err_type e
      | Uncaught t \<Rightarrow> t)"

definition store_is_unwritable :: "env \<Rightarrow> fault \<Rightarrow> bool" where
  "store_is_unwritable en exc =
     (if exc = StoreFault IntegrityError then False
      else if (case exc of OSError _ \<Rightarrow> True | _ \<Rightarrow> False) then True
      else list_ex (\<lambda>marker. contains marker (lower (fault_text en exc))) unwritable_store_markers)"

definition emergency_issuance_orphan :: "env \<Rightarrow> string \<Rightarrow> EnrollmentResult \<Rightarrow> fault \<Rightarrow> server \<Rightarrow> server" where
  "emergency_issuance_orphan en order_id result exc sv =
     (let serial = (case serial_from_pem (en_ext en) (er_cert_pem result) of Inl _ \<Rightarrow> [] | Inr t \<Rightarrow> t) in
      if store_is_unwritable en exc
      then halt (''post-issuance store failure on order '' @ order_id @ '' (serial ''
                  @ (if serial = [] then ''unknown'' else serial) @ ''): '' @ fault_text en exc) sv
      else sv)"

definition issued_of :: "string \<Rightarrow> string \<Rightarrow> EnrollmentResult \<Rightarrow> issued" where
  "issued_of order_id account_id result =
     \<lparr>is_order_id = order_id, is_account_id = account_id, is_cert_pem = er_cert_pem result,
      is_chain_pem = er_chain_pem result, is_template = er_template result, is_requester = er_requester result,
      is_metadata = er_metadata result\<rparr>"

definition quarantine_and_fail ::
  "env \<Rightarrow> string \<Rightarrow> string \<Rightarrow> string \<Rightarrow> string list \<Rightarrow> EnrollmentResult \<Rightarrow> string \<Rightarrow> violation list \<Rightarrow> string \<Rightarrow> details
     \<Rightarrow> 'a handler" where
  "quarantine_and_fail en cid order_id account_id sans result event_type vs why extra =
     hbind (quarantine_or_audit en cid (issued_of order_id account_id result) event_type (map violation_text vs) why sans extra
       \<lparr>ev_type = event_type, ev_account = Some account_id, ev_order = Some order_id, ev_sans = sans,
        ev_template = Some (er_template result), ev_requester = Some (er_requester result), ev_outcome = ''failed'',
        ev_details = Some (fold (\<lambda>(k, v). dict_set k v) extra
          [(''violations'', JList (map (JStr \<circ> violation_text) vs)), (''reason'', JStr why),
           (''quarantined'', JBool False), (''quarantine_error'', JStr ''see logs'')])\<rparr>)
       (\<lambda>_. raising server_internal)"

text \<open>The three verifiers in the order they run; the first that objects quarantines.\<close>

definition verify_issued ::
  "env \<Rightarrow> config \<Rightarrow> string \<Rightarrow> string \<Rightarrow> string \<Rightarrow> string list \<Rightarrow> EnrollmentResult \<Rightarrow> unit handler" where
  "verify_issued en cfg cid order_id account_id sans result =
     hbind (lift (issued_cert_san_violations (load_cert cfg) (er_cert_pem result) sans)) (\<lambda>(issued_dns, unauth, non_dns).
     hbind (if unauth \<noteq> [] \<or> non_dns \<noteq> []
       then quarantine_and_fail en cid order_id account_id sans result ''finalize-issued-cert-san-mismatch''
              ((if unauth \<noteq> [] then [UnauthorizedDns unauth sans] else [])
               @ (if non_dns \<noteq> [] then [NonDnsSanTypes non_dns] else []))
              ''issued cert SANs outside order scope - ADCS template likely misconfigured (it must take only DNS SANs from the request)''
              [(''issued_dns_sans'', JList (map JStr issued_dns)), (''unauthorized_dns_sans'', JList (map JStr unauth)),
               (''non_dns_san_types'', JList (map JStr non_dns))]
       else ret ()) (\<lambda>_.
     hbind (lift (issued_cert_eku_violations (load_cert cfg) (er_cert_pem result))) (\<lambda>eku.
     hbind (if eku \<noteq> []
       then quarantine_and_fail en cid order_id account_id sans result ''finalize-issued-cert-eku-mismatch'' eku
              ''issued cert is not serverAuth-only - the ADCS template must issue the serverAuth EKU and nothing else'' []
       else ret ()) (\<lambda>_.
     hbind (lift (issued_cert_ca_capability_violations (load_cert cfg) (er_cert_pem result))) (\<lambda>ca.
       if ca \<noteq> []
       then quarantine_and_fail en cid order_id account_id sans result ''finalize-issued-cert-ca-capability'' ca
              ''issued cert is CA-capable - the ADCS template is dangerously misconfigured'' []
       else ret ())))))"

text \<open>\<open>record_issuance\<close> under its guard; \<open>disk\<close> is what the disk raises from this transaction, if it
  does, and then the transaction has rolled back.\<close>

definition record_or_orphan ::
  "env \<Rightarrow> config \<Rightarrow> string \<Rightarrow> string \<Rightarrow> string \<Rightarrow> approved \<Rightarrow> EnrollmentResult \<Rightarrow> nat \<Rightarrow> fault option \<Rightarrow> bool handler" where
  "record_or_orphan en cfg cid order_id account_id ap result generation disk sv =
     (case (case disk of
              Some e \<Rightarrow> (Inl e, sv_db sv)
            | None \<Rightarrow>
                (case record_issuance (en_ext en) (en_now en) cid (issued_of order_id account_id result) (certificate_url cfg)
                        (ap_sans ap) (ap_subject ap) (Some generation) (sv_db sv) of
                   (Inl e, s') \<Rightarrow> (Inl (StoreFault e), s')
                 | (Inr (row, applied, event), s') \<Rightarrow> (Inr applied, s'))) of
        (Inl e, s') \<Rightarrow> (Inl e, emergency_issuance_orphan en order_id result e (sv\<lparr>sv_db := s'\<rparr>))
      | (Inr applied, s') \<Rightarrow> (Inr applied, sv\<lparr>sv_db := s'\<rparr>))"

definition finalize_complete ::
  "env \<Rightarrow> config \<Rightarrow> string \<Rightarrow> string \<Rightarrow> string \<Rightarrow> approved \<Rightarrow> EnrollmentResult \<Rightarrow> nat \<Rightarrow> fault option \<Rightarrow> reply handler" where
  "finalize_complete en cfg cid order_id account_id ap result generation disk =
     hbind (verify_issued en cfg cid order_id account_id (ap_sans ap) result) (\<lambda>_.
     hbind (record_or_orphan en cfg cid order_id account_id ap result generation disk) (\<lambda>applied.
     hbind (refresh_order_or_500 order_id) (\<lambda>r. ret (json_reply r))))"

section \<open>The handler\<close>

text \<open>
  \<open>finalize_order\<close> after \<open>authenticate_account\<close>. Its part before the lease decides
  between a reply and an approved request; the part under the mark is cut where the code
  awaits the worker: \<open>finalize_admit\<close> on the event loop, \<open>finalize_submit_enrollment\<close> on
  the worker thread, \<open>finalize_complete\<close> on the event loop again.
\<close>

definition finalize_check ::
  "env \<Rightarrow> config \<Rightarrow> string \<Rightarrow> (string \<times> json) list \<Rightarrow> string \<Rightarrow> (approved + reply) handler" where
  "finalize_check en cfg account_id payload order_id sv =
     (case get_order order_id (sv_db sv) of
        None \<Rightarrow> raising unauthorized sv
      | Some order \<Rightarrow>
          if ord_account_id order \<noteq> account_id then raising unauthorized sv
          else if ord_status order = VALID then ret (Inr (json_reply order)) sv
          else (case get_certificate_by_order order_id (sv_db sv) of
              Some c \<Rightarrow> hbind (finalize_existing_cert en cfg order_id account_id c) (\<lambda>r. ret (Inr r)) sv
            | None \<Rightarrow>
                if ord_status order = PROCESSING then ret (Inr (json_retry 3 order)) sv
                else
                  hbind (finalize_expired_order en order_id account_id order) (\<lambda>expired_resp.
                    case expired_resp of
                      Some r \<Rightarrow> ret (Inr r)
                    | None \<Rightarrow>
                        if ord_status order \<noteq> READY then raising order_not_ready
                        else hbind (finalize_parse_and_validate_csr en cfg payload order account_id order_id)
                               (\<lambda>ap. ret (Inl ap))) sv))"

definition finalize_admit :: "env \<Rightarrow> string \<Rightarrow> (nat + reply) handler" where
  "finalize_admit en order_id =
     hbind (finalize_transition_to_processing en order_id) (\<lambda>transition.
       case transition of
         Inr r \<Rightarrow> ret (Inr r)
       | Inl generation \<Rightarrow> (\<lambda>sv. if sv_halt sv \<noteq> None then raising issuance_halted sv else ret (Inl generation) sv))"

definition admission_denied :: "env \<Rightarrow> string \<Rightarrow> string \<Rightarrow> approved \<Rightarrow> nat \<Rightarrow> 'a handler" where
  "admission_denied en order_id account_id ap generation =
     hbind (on_db (transition_processing_to_ready (en_now en) order_id (Some generation))) (\<lambda>reverted.
     hbind (audited en (finalize_audit ''finalize-enrollment-admission-denied'' account_id order_id (ap_sans ap)
              (template (ap_decision ap)) ''denied''
              [(''reason'', JStr ''enrollment-capacity''), (''reason_code'', JStr ''enrollment-capacity''),
               (''revert_applied'', JBool reverted)]))
       (\<lambda>_. raising (rate_limited (Some 3))))"

definition finalize_enroll ::
  "env \<Rightarrow> config \<Rightarrow> string \<Rightarrow> string \<Rightarrow> string \<Rightarrow> string \<Rightarrow> approved \<Rightarrow> bool \<Rightarrow> enroll_answer \<Rightarrow> fault option \<Rightarrow> reply handler" where
  "finalize_enroll en cfg cid order_id account_id authenticated_thumbprint ap gate_busy answer disk =
     hbind (finalize_admit en order_id) (\<lambda>admitted.
       case admitted of
         Inr r \<Rightarrow> ret r
       | Inl generation \<Rightarrow>
           if gate_busy then admission_denied en order_id account_id ap generation
           else
             hbind (finalize_submit_enrollment en cfg cid order_id account_id authenticated_thumbprint ap generation answer)
               (\<lambda>outcome. case outcome of
                  Inr r \<Rightarrow> ret r
                | Inl result \<Rightarrow> finalize_complete en cfg cid order_id account_id ap result generation disk))"

definition finalize_order ::
  "env \<Rightarrow> config \<Rightarrow> string \<Rightarrow> string \<Rightarrow> string \<Rightarrow> (string \<times> json) list \<Rightarrow> string \<Rightarrow> bool \<Rightarrow> enroll_answer
     \<Rightarrow> fault option \<Rightarrow> reply handler" where
  "finalize_order en cfg cid account_id authenticated_thumbprint payload order_id gate_busy answer disk =
     hbind (finalize_check en cfg account_id payload order_id) (\<lambda>checked.
       case checked of
         Inr r \<Rightarrow> ret r
       | Inl ap \<Rightarrow> enrolling order_id
           (finalize_enroll en cfg cid order_id account_id authenticated_thumbprint ap gate_busy answer disk))"

section \<open>Frames\<close>

context handler_frame begin

lemma keeps_refresh [intro]: "keeps (refresh_order_or_500 i)"
  by (simp add: keeps_def refl refresh_order_or_500_def split: option.split)

lemma keeps_parse: "keeps (finalize_parse_and_validate_csr en cfg payload order aid oid)"
  unfolding finalize_parse_and_validate_csr_def Let_def by (intro keeps_intros keeps_refresh)

end

lemmas runs_ops =
  runs_on_db [OF processing_to_ready] runs_on_db [OF processing_to_valid] runs_on_db [OF processing_to_invalid]
  runs_on_db [OF active_to_invalid] runs_on_db [OF store_step.acquire_lease] runs_on_db [OF record_pending]

lemma runs_audit_orphan: "runs.keeps (audit_orphan en args)"
  using runs.keeps_basic(4) [of en args]
  by (auto simp: runs.keeps_def audit_orphan_def runs.refl split: option.split)

lemma runs_quarantine: "runs.keeps (quarantine_or_audit en cid i et vs why sans extra fb)"
proof (rule runs.keepsI)
  fix sv :: server
  let ?q = "quarantine_certificate (en_ext en) (en_now en) cid i et vs why sans extra (sv_db sv)"
  have q: "store_step\<^sup>*\<^sup>* (sv_db sv) (snd ?q)" by (rule r_into_rtranclp) (rule store_step.quarantine)
  have stored: "db_run sv (sv\<lparr>sv_db := snd ?q\<rparr>)" using q by (simp add: db_run_def)
  have audit: "db_run a (snd (audit_orphan en fb a))" for a by (rule runs.keepsD [OF runs_audit_orphan])
  show "db_run sv (snd (quarantine_or_audit en cid i et vs why sans extra fb sv))"
    using stored audit runs.trans [OF stored audit]
    by (auto simp: quarantine_or_audit_def split: option.split prod.split sum.split dest!: arg_cong [where f = snd])
qed

lemma runs_before_lease:
  "runs.keeps (finalize_existing_cert en cfg oid aid c)" "runs.keeps (finalize_expired_order en oid aid order)"
  "runs.keeps (finalize_transition_to_processing en oid)" "runs.keeps (quarantine_transport_orphan en cid oid aid ap te g)"
  "runs.keeps (admission_denied en oid aid ap g)" "runs.keeps (quarantine_and_fail en cid oid aid sans res et vs why extra)"
  unfolding finalize_existing_cert_def finalize_expired_order_def finalize_transition_to_processing_def
    quarantine_transport_orphan_def admission_denied_def quarantine_and_fail_def Let_def
  by (intro runs.keeps_hbind runs.keeps_if runs.keeps_option runs.keeps_basic runs.keeps_refresh runs_ops runs_quarantine runs_audit_orphan)+

text \<open>What the certificate request of an approved finalize says.\<close>

definition csr_in_scope :: "config \<Rightarrow> OrderRow \<Rightarrow> string \<Rightarrow> csr \<Rightarrow> string list \<Rightarrow> bool" where
  "csr_in_scope cfg order kid c sans \<longleftrightarrow>
     csr_signature_valid c \<and> validate_csr_key_strength c = Inr ()
     \<and> sans \<noteq> [] \<and> csr_san c = Some (map DNSName sans)
     \<and> list_all (\<lambda>n. validate_dns_name n = Inr () \<and> CHR ''*'' \<notin> set n \<and> lower n \<in> set (order_dns order)
          \<and> list_ex (match_dns_pattern n) (kid_patterns (policy_of cfg) kid)) sans
     \<and> kid \<in> allowed_kids (policy_of cfg)
     \<and> reject_unrequested_common_names c sans = Inr () \<and> reject_ca_capable_csr_extensions c = Inr ()"

lemma parse_csr_signed: "parse_csr cfg payload = Inr c \<Longrightarrow> csr_signature_valid c"
  by (auto simp: parse_csr_def split: option.splits json.splits if_splits sum.splits)

lemma csr_requested_sans_ok:
  assumes "csr_requested_sans c = Inr sans" "sans \<noteq> []"
  shows "csr_san c = Some (map DNSName sans) \<and> list_all (\<lambda>n. validate_dns_name n = Inr ()) sans"
proof -
  from assms obtain gns where g: "csr_san c = Some gns" by (auto simp: csr_requested_sans_def split: option.splits)
  have r: "reject_non_dns_sans gns = Inr ()" "reject_invalid_dns_sans (dns_values gns) = Inr ()" "sans = dns_values gns"
    using assms g by (auto simp: csr_requested_sans_def Let_def rbind_def split: sum.splits)
  then show ?thesis
    using g dns_values_all reject_non_dns_sans_ok [of gns] reject_invalid_dns_sans_ok [of sans]
    by (simp add: list_all_iff)
qed

lemma validated_sans_ok:
  assumes "validated_sans cfg payload = Inr (c, sans)"
  shows "parse_csr cfg payload = Inr c" "validate_csr_key_strength c = Inr ()" "csr_requested_sans c = Inr sans"
    "reject_ca_capable_csr_extensions c = Inr ()"
  using assms by (auto simp: validated_sans_def rbind_def split: sum.splits)

lemma approved_in_scope:
  assumes "finalize_parse_and_validate_csr en cfg payload order aid oid sv = (Inr ap, sv')"
  shows "sv' = sv \<and> (\<exists>c a. parse_csr cfg payload = Inr c \<and> get_account aid (sv_db sv) = Some a
            \<and> csr_in_scope cfg order (acc_eab_kid a) c (ap_sans ap))"
proof (cases "validated_sans cfg payload")
  case (Inl e)
  with assms show ?thesis by (simp add: finalize_parse_and_validate_csr_def)
next
  case (Inr p)
  obtain c sans where p: "p = (c, sans)" by force
  note v = validated_sans_ok [OF Inr [unfolded p]]
  note A = assms [unfolded finalize_parse_and_validate_csr_def Inr p Let_def, simplified]
  from A have oo: "out_of_order order sans = []" by (auto split: if_splits)
  note A = A [unfolded oo, simplified]
  from A obtain a where a: "get_account aid (sv_db sv) = Some a" by (auto split: option.splits)
  note A = A [unfolded a, simplified]
  let ?d = "evaluate (policy_of cfg) (acc_eab_kid a) (csr_rfc4514 c) sans"
  from A have al: "allowed ?d" by (auto split: if_splits)
  note A = A [simplified al, simplified]
  have cn: "reject_unrequested_common_names c sans = Inr ()" and ap: "ap_sans ap = sans" and sv: "sv' = sv"
    using A by (cases "reject_unrequested_common_names c sans"; auto)+
  have ne: "sans \<noteq> []" using evaluate_allowed_not_empty [OF al] .
  note s = csr_requested_sans_ok [OF v(3) ne]
  have "lower n \<in> set (order_dns order)" if "n \<in> set sans" for n
    using arg_cong [OF oo, of set] that by (auto simp: out_of_order_def)
  then have "csr_in_scope cfg order (acc_eab_kid a) c sans"
    using s ne v parse_csr_signed [OF v(1)] cn evaluate_allowed_kid [OF al] evaluate_allowed_scope [OF al]
      evaluate_allowed_no_star [OF al] by (simp add: csr_in_scope_def list_all_iff)
  with v(1) a ap sv show ?thesis by blast
qed

end
