(* ===== verification/Samples.thy ===== *)
theory Samples
  imports AppState
begin

text \<open>
  A small concrete configuration, server and account, on which the theorems about handlers
  are instantiated.
\<close>

definition sample_csr :: csr where
  "sample_csr = \<lparr>csr_public_key = RSAPublicKey 2048, csr_signature_valid = True, csr_rfc4514 = ''CN=h.example'',
     csr_common_names = [TextAttr ''h.example''], csr_san = Some [DNSName ''h.example''], csr_basic_constraints_ca = None,
     csr_key_usage = None, csr_eku = None, csr_application_policies = False\<rparr>"

definition sample_crt :: x509_cert where
  "sample_crt = \<lparr>crt_san = Some [DNSName ''h.example''], crt_eku = Some [server_auth_oid],
     crt_basic_constraints_ca = Some False, crt_key_usage = Some (False, False)\<rparr>"

definition sample_cfg :: config where
  "sample_cfg = \<lparr>base_url = ''https://ra/'', max_csr_size_bytes = 100, eab_allowlist = [(''k'', ''AAAA'')],
     policy_of = \<lparr>allowed_kids = {''k''}, san_scopes = (\<lambda>k. if k = ''k'' then Some [''*.example''] else None), policy_template = ''WebServer''\<rparr>,
     load_csr = (\<lambda>_. Some sample_csr), load_cert = (\<lambda>p. if p = ''pem'' then Some sample_crt else if p = ''ca'' then Some (sample_crt\<lparr>crt_basic_constraints_ca := Some True\<rparr>) else None), rate_limit_window_seconds = 60,
     rate_limit_orders_per_window = 10, rate_limit_overrides = (\<lambda>_. None), rate_limit_global_per_window = 0,
     max_identifiers_per_order = 10, order_expiry_seconds = 3600,
     max_jws_body_size_bytes = 99, max_accounts_per_eab_kid = 10, rate_limit_key_changes_per_window = 5,
     terms_of_service = [], max_admin_body_size_bytes = 99, admin_token = ''admin'', revocation_confirm_token = ''confirm'',
     reclaim_minimum_processing_age_seconds = 60, revocation_confirm_require_crl_evidence = True,
     revocation_confirm_crl_require_monotonic = True, revocation_confirm_crl_url = ''http://crl/''\<rparr>"

definition sample_env :: env where
  "sample_env = \<lparr>en_ext = sample_ext, en_now = 0, en_tick = 0, en_text = (\<lambda>_. ''''),
     en_quarantine_fault = None, en_audit_fault = None\<rparr>"

definition sample_server :: server where
  "sample_server = \<lparr>sv_db = sample_db, sv_coalescer = None, sv_halt = None, sv_active = (\<lambda>_. None), sv_ca = [],
     sv_nonce_spent = True\<rparr>"

definition signed_account :: AccountRow where
  "signed_account = sample_account\<lparr>acc_jwk := Some (ec_jwk [] (replicate 32 1) (replicate 32 2))\<rparr>"

definition signed_server :: server where
  "signed_server = sample_server\<lparr>sv_db := sample_db\<lparr>accounts := [signed_account]\<rparr>\<rparr>"

lemma wf_signed: "wf_db (sv_db signed_server)"
  by (simp add: wf_db_def signed_server_def sample_server_def sample_db_def empty_db_def sample_order_def
      signed_account_def sample_account_def)

lemma signed_key:
  "public_key_from_jwk (ec_jwk [] (replicate 32 1) (replicate 32 2))
     = Inr (ECPublicNumbers 256 (from_bytes (replicate 32 1)) (from_bytes (replicate 32 2)))"
  by (intro ec_jwk_key) (simp_all add: list_all_iff)

lemma signed_thumbprint:
  "jwk_thumbprint (x_sha256 (en_ext sample_env)) (ec_jwk [] (replicate 32 1) (replicate 32 2)) = Inr []"
  using public_key_validates [OF signed_key]
  by (simp add: sample_env_def sample_ext_def jwk_thumbprint_def ec_jwk_def Let_def)

lemma signed_row: "get_account ''a'' (sv_db signed_server) = Some signed_account"
  by (simp add: get_account_def signed_server_def sample_server_def signed_account_def sample_account_def)

end
