(* ===== verification/FinalizeSafety.thy ===== *)
theory FinalizeSafety
  imports Finalize Samples
begin

text \<open>
  What finalize guarantees: the CA is called only for an authorized request under a lease
  that is still held, what the CA returns is served only when it is honourable, a
  certificate that cannot be recorded stops issuance, and a halted server calls no CA.
\<close>

section \<open>The submission\<close>

lemma inner_effect:
  "db_run (sv\<lparr>sv_ca := sv_ca sv @ [(oid, g)]\<rparr>) (snd (submit_enrollment_inner en cid oid aid ap g answer sv))"
proof (cases answer)
  case (CaIssued result)
  then show ?thesis by (simp add: submit_enrollment_inner_def runs.refl)
next
  case (CaDenied t)
  show ?thesis unfolding submit_enrollment_inner_def CaDenied Let_def enroll_answer.case
    by (rule runs.keepsD) (intro runs.keeps_intros runs.keeps_refresh runs_ops)
next
  case (CaPending r t)
  show ?thesis unfolding submit_enrollment_inner_def CaPending Let_def enroll_answer.case
    by (rule runs.keepsD) (intro runs.keeps_intros runs.keeps_refresh runs_ops)
next
  case (CaTransport te)
  show ?thesis unfolding submit_enrollment_inner_def CaTransport Let_def enroll_answer.case
    by (cases "te_ca_issued te"; simp only: if_True if_False; rule runs.keepsD;
        intro runs.keeps_intros runs.keeps_refresh runs_before_lease)
next
  case (CaError t)
  show ?thesis unfolding submit_enrollment_inner_def CaError Let_def enroll_answer.case
    by (rule runs.keepsD) (intro runs.keeps_intros)
qed

lemma keeps_abandon: "runs.keeps (abandon_if_lease_lapsed en oid aid ap g)"
proof (rule runs.keepsI)
  fix sv :: server
  show "db_run sv (snd (abandon_if_lease_lapsed en oid aid ap g sv))"
  proof (cases "holds_processing_lease oid g (sv_db sv)")
    case True
    then show ?thesis by (simp add: abandon_if_lease_lapsed_def runs.refl)
  next
    case False
    then show ?thesis unfolding abandon_if_lease_lapsed_def by (simp, intro runs.keepsD runs.keeps_intros runs.keeps_refresh)
  qed
qed

text \<open>The account may submit under this lease: what is read again just before the CA is called.\<close>

definition may_submit :: "env \<Rightarrow> config \<Rightarrow> string \<Rightarrow> string \<Rightarrow> string \<Rightarrow> nat \<Rightarrow> db \<Rightarrow> bool" where
  "may_submit en cfg oid aid tp g s \<longleftrightarrow>
     (\<exists>a. get_account aid s = Some a \<and> acc_status a = AcctVALID \<and> acc_eab_kid a \<in> set (eab_kids cfg)
        \<and> current_thumbprint en (Some a) = Inr (Some tp)) \<and> holds_processing_lease oid g s"

lemma submit_cases:
  obtains (called) "may_submit en cfg oid aid tp g (sv_db sv)"
      "finalize_submit_enrollment en cfg cid oid aid tp ap g answer sv = submit_enrollment_inner en cid oid aid ap g answer sv"
  | (refused) "\<not> may_submit en cfg oid aid tp g (sv_db sv)"
      "db_run sv (snd (finalize_submit_enrollment en cfg cid oid aid tp ap g answer sv))"
      "\<nexists>result. fst (finalize_submit_enrollment en cfg cid oid aid tp ap g answer sv) = Inr (Inl result)"
proof (cases "may_submit en cfg oid aid tp g (sv_db sv)")
  case True
  then obtain a where a: "get_account aid (sv_db sv) = Some a" "acc_status a = AcctVALID"
    "acc_eab_kid a \<in> set (eab_kids cfg)" "current_thumbprint en (Some a) = Inr (Some tp)"
    and lease: "holds_processing_lease oid g (sv_db sv)"
    unfolding may_submit_def by blast
  have "finalize_submit_enrollment en cfg cid oid aid tp ap g answer sv = submit_enrollment_inner en cid oid aid ap g answer sv"
    using a by (simp add: finalize_submit_enrollment_def hbind_def abandon_if_lease_lapsed_def lease)
  with True show ?thesis by (rule called)
next
  case False
  let ?m = "finalize_submit_enrollment en cfg cid oid aid tp ap g answer"
  define acct where "acct = get_account aid (sv_db sv)"
  show ?thesis
  proof (cases "current_thumbprint en acct")
    case (Inl e)
    then have "?m sv = (Inl (StoreFault e), sv)" by (simp add: finalize_submit_enrollment_def acct_def)
    then show ?thesis using False by (intro refused) (simp_all add: runs.refl)
  next
    case (Inr current)
    let ?bad = "(case acct of None \<Rightarrow> True | Some a \<Rightarrow> acc_status a \<noteq> AcctVALID) \<or> current \<noteq> Some tp
       \<or> \<not> (case acct of None \<Rightarrow> False | Some a \<Rightarrow> acc_eab_kid a \<in> set (eab_kids cfg))"
    show ?thesis
    proof (cases ?bad)
      case True
      then obtain args where m: "?m sv = hbind (on_db (transition_processing_to_ready (en_now en) oid (Some g)))
           (\<lambda>applied. hbind (audited en (args applied)) (\<lambda>_. raising unauthorized)) sv"
        using Inr that by (simp add: finalize_submit_enrollment_def Let_def acct_def [symmetric])
      have "db_run sv (snd (?m sv))" unfolding m by (rule runs.keepsD) (intro runs.keeps_intros runs_ops)
      moreover have "\<nexists>r. fst (?m sv) = Inr (Inl r)" unfolding m by (simp add: hbind_def on_db_def case_prod_beta Let_def audited_def)
      ultimately show ?thesis using False by (intro refused)
    next
      case nb: False
      then obtain a where a: "acct = Some a" by (cases acct) auto
      have lease: "\<not> holds_processing_lease oid g (sv_db sv)"
        using False nb Inr a unfolding may_submit_def acct_def [symmetric] by auto
      have m: "?m sv = hbind (abandon_if_lease_lapsed en oid aid ap g) (\<lambda>stale. case stale of Some r \<Rightarrow> ret (Inr r)
              | None \<Rightarrow> submit_enrollment_inner en cid oid aid ap g answer) sv"
        using nb Inr a by (simp add: finalize_submit_enrollment_def acct_def [symmetric] Let_def)
      have st: "fst (abandon_if_lease_lapsed en oid aid ap g sv) \<noteq> Inr None"
        using lease by (simp add: abandon_if_lease_lapsed_def hbind_def refresh_order_or_500_def audited_def split: option.split)
      have "snd (?m sv) = snd (abandon_if_lease_lapsed en oid aid ap g sv) \<and> (\<nexists>r. fst (?m sv) = Inr (Inl r))"
        using st unfolding m by (auto simp: hbind_def split: prod.split sum.split option.split)
      then show ?thesis using False runs.keepsD [OF keeps_abandon] by (intro refused) simp_all
    qed
  qed
qed

lemma hbind_quarantine_and_fail [simp]:
  "hbind (quarantine_and_fail en cid oid aid sans res et vs why extra) f sv =
     quarantine_and_fail en cid oid aid sans res et vs why extra sv"
  by (simp add: quarantine_and_fail_def hbind_def split: prod.split sum.split)

text \<open>The quarantine transaction raises: the disk fails, or the transaction itself does.\<close>

definition quarantine_fails :: "env \<Rightarrow> string \<Rightarrow> issued \<Rightarrow> db \<Rightarrow> bool" where
  "quarantine_fails en cid i s \<longleftrightarrow> en_quarantine_fault en \<noteq> None
     \<or> (\<exists>et vs why sans extra e. fst (quarantine_certificate (en_ext en) (en_now en) cid i et vs why sans extra s) = Inl e)"

lemma quarantine_and_fail_cases:
  obtains (stored) row ev s' where
      "quarantine_certificate (en_ext en) (en_now en) cid (issued_of oid aid res) et (map violation_text vs) why sans extra
          (sv_db sv) = (Inr (row, ev), s')"
      "(quarantine_and_fail en cid oid aid sans res et vs why extra :: unit handler) sv = (Inl (Acme server_internal), sv\<lparr>sv_db := s'\<rparr>)"
  | (fallback) args where
      "ev_type args = et" "ev_order args = Some oid" "ev_outcome args = ''failed''"
      "quarantine_fails en cid (issued_of oid aid res) (sv_db sv)"
      "(quarantine_and_fail en cid oid aid sans res et vs why extra :: unit handler) sv =
         (case en_audit_fault en of None \<Rightarrow> (Inl (Acme server_internal), audit en args sv) | Some e \<Rightarrow> (Inl e, sv))"
proof (cases "en_quarantine_fault en")
  case (Some f)
  then show ?thesis
    by (intro fallback) (auto simp: quarantine_and_fail_def quarantine_or_audit_def quarantine_fails_def hbind_def audit_orphan_def
        audited_def split: option.split)
next
  case None
  then show ?thesis
  proof (cases rule: quarantine_cases [of "en_ext en" "en_now en" cid "issued_of oid aid res" et "map violation_text vs" why sans extra "sv_db sv"])
    case (failed e)
    then have "quarantine_fails en cid (issued_of oid aid res) (sv_db sv)" by (auto simp: quarantine_fails_def) (metis fst_conv)
    then show ?thesis
      using None failed by (intro fallback) (auto simp: quarantine_and_fail_def quarantine_or_audit_def hbind_def audit_orphan_def
        audited_def split: option.split)
  next
    case (stored row ev s1 s2 au)
    then show ?thesis
      using None by (intro that(1)) (auto simp: quarantine_and_fail_def quarantine_or_audit_def hbind_def)
  qed
qed

lemma verify_cases:
  obtains (passed) crt where "load_cert cfg (er_cert_pem res) = Some crt" "honourable crt sans"
      "verify_issued en cfg cid oid aid sans res sv = (Inr (), sv)"
  | (unparsed) "load_cert cfg (er_cert_pem res) = None"
      "verify_issued en cfg cid oid aid sans res sv = (Inl (Acme server_internal), sv)"
  | (rejected) crt et vs why extra where "load_cert cfg (er_cert_pem res) = Some crt" "\<not> honourable crt sans"
      "et \<notin> set COALESCED_EVENT_TYPES"
      "verify_issued en cfg cid oid aid sans res sv = quarantine_and_fail en cid oid aid sans res et vs why extra sv"
proof (cases "load_cert cfg (er_cert_pem res)")
  case None
  then show ?thesis
    by (intro unparsed) (simp_all add: verify_issued_def issued_cert_san_violations_def)
next
  case (Some crt)
  let ?L = "load_cert cfg" and ?p = "er_cert_pem res"
  have "\<exists>dns un nd. issued_cert_san_violations ?L ?p sans = Inr (dns, un, nd)"
    using Some by (cases "crt_san crt") (simp_all add: issued_cert_san_violations_def Let_def)
  then obtain dns un nd where san: "issued_cert_san_violations ?L ?p sans = Inr (dns, un, nd)" by blast
  have "\<exists>eku. issued_cert_eku_violations ?L ?p = Inr eku"
    using Some by (cases "crt_eku crt") (simp_all add: issued_cert_eku_violations_def Let_def)
  then obtain eku where eku: "issued_cert_eku_violations ?L ?p = Inr eku" by blast
  have "\<exists>ca. issued_cert_ca_capability_violations ?L ?p = Inr ca"
    using Some by (cases "crt_key_usage crt") (simp_all add: issued_cert_ca_capability_violations_def Let_def case_prod_beta)
  then obtain ca where ca: "issued_cert_ca_capability_violations ?L ?p = Inr ca" by blast
  have iff: "honourable crt sans \<longleftrightarrow> un = [] \<and> nd = [] \<and> eku = [] \<and> ca = []"
    using san_violations_clean [of ?L ?p sans] eku_violations_clean [of ?L ?p] ca_violations_clean [of ?L ?p]
    unfolding san eku ca Some honourable_def by auto
  show ?thesis
  proof (cases "honourable crt sans")
    case True
    then show ?thesis using Some iff by (intro passed) (simp_all add: verify_issued_def san eku ca)
  next
    case False
    consider "un \<noteq> [] \<or> nd \<noteq> []" | "un = []" "nd = []" "eku \<noteq> []" | "un = []" "nd = []" "eku = []" "ca \<noteq> []"
      using False iff by blast
    then show ?thesis
    proof cases
      case 1
      then show ?thesis by (intro rejected [OF Some False]) (auto simp: verify_issued_def san COALESCED_EVENT_TYPES_def)
    next
      case 2
      then show ?thesis by (intro rejected [OF Some False]) (auto simp: verify_issued_def san eku COALESCED_EVENT_TYPES_def)
    next
      case 3
      then show ?thesis by (intro rejected [OF Some False]) (auto simp: verify_issued_def san eku ca COALESCED_EVENT_TYPES_def)
    qed
  qed
qed

lemma record_or_orphan_cases:
  obtains (raised) e where "record_or_orphan en cfg cid oid aid ap res g disk sv =
        (Inl e, emergency_issuance_orphan en oid res e sv)"
  | (recorded) row applied ev s' where "disk = None"
      "record_issuance (en_ext en) (en_now en) cid (issued_of oid aid res) (certificate_url cfg) (ap_sans ap)
         (ap_subject ap) (Some g) (sv_db sv) = (Inr (row, applied, ev), s')"
      "record_or_orphan en cfg cid oid aid ap res g disk sv = (Inr applied, sv\<lparr>sv_db := s'\<rparr>)"
proof (cases disk)
  case (Some e)
  then show ?thesis by (intro raised) (simp add: record_or_orphan_def)
next
  case None
  then show ?thesis
  proof (cases rule: record_issuance_cases [of "en_ext en" "en_now en" cid "issued_of oid aid res" "certificate_url cfg"
        "ap_sans ap" "ap_subject ap" "Some g" "sv_db sv"])
    case (failed e)
    with None show ?thesis by (intro raised) (simp add: record_or_orphan_def)
  next
    case (stored row applied ev s' ser v)
    with None show ?thesis by (intro recorded) (simp_all add: record_or_orphan_def)
  qed
qed

lemma orphan_frame [simp]:
  "sv_db (emergency_issuance_orphan en oid res e sv) = sv_db sv"
  "sv_ca (emergency_issuance_orphan en oid res e sv) = sv_ca sv"
  by (simp_all add: emergency_issuance_orphan_def Let_def)

lemma keeps_verify: "runs.keeps (verify_issued en cfg cid oid aid sans res)"
  unfolding verify_issued_def by (intro runs.keeps_intros runs_before_lease)

lemma keeps_record: "runs.keeps (record_or_orphan en cfg cid oid aid ap res g disk)"
proof (rule runs.keepsI)
  fix sv :: server
  show "db_run sv (snd (record_or_orphan en cfg cid oid aid ap res g disk sv))"
  proof (cases rule: record_or_orphan_cases [of en cfg cid oid aid ap res g disk sv])
    case (raised e)
    then show ?thesis by (simp add: db_run_def)
  next
    case (recorded row applied ev s')
    have "store_step (sv_db sv) s'"
      using store_step.issuance [of "sv_db sv" "en_ext en" "en_now en" cid "issued_of oid aid res" "certificate_url cfg"
          "ap_sans ap" "ap_subject ap" "Some g"] recorded(2) by simp
    with recorded(3) show ?thesis by (simp add: db_run_def)
  qed
qed

lemma keeps_complete: "runs.keeps (finalize_complete en cfg cid oid aid ap res g disk)"
  unfolding finalize_complete_def by (intro runs.keeps_intros runs.keeps_refresh keeps_verify keeps_record)

lemma keeps_enrolling: "runs.keeps m \<Longrightarrow> runs.keeps (enrolling i m)"
proof (rule runs.keepsI)
  fix sv assume "runs.keeps m"
  from runs.keepsD [OF this, of "mark_enter i sv"] show "db_run sv (snd (enrolling i m sv))"
    by (simp add: enrolling_def case_prod_beta Let_def db_run_def)
qed

lemma keeps_check: "runs.keeps (finalize_check en cfg aid payload oid)"
  unfolding finalize_check_def
  by (intro runs.keeps_intros runs.keeps_refresh runs_before_lease runs.keeps_parse)

lemma keeps_admit: "runs.keeps (finalize_admit en oid)"
  unfolding finalize_admit_def by (intro runs.keeps_intros runs_before_lease)

lemma hbind_eq_Inr:
  "hbind m f sv = (Inr b, sv2) \<longleftrightarrow> (\<exists>a sv1. m sv = (Inr a, sv1) \<and> f a sv1 = (Inr b, sv2))"
  by (cases "m sv"; cases "fst (m sv)") (auto simp: hbind_def)

lemma check_approved:
  assumes "finalize_check en cfg aid payload oid sv = (Inr (Inl ap), sv')"
  shows "sv' = sv \<and> (\<exists>order c a. get_order oid (sv_db sv) = Some order \<and> ord_account_id order = aid
     \<and> ord_status order = READY \<and> \<not> is_expired (ord_expires order) (en_now en)
     \<and> get_certificate_by_order oid (sv_db sv) = None
     \<and> parse_csr cfg payload = Inr c \<and> get_account aid (sv_db sv) = Some a
     \<and> csr_in_scope cfg order (acc_eab_kid a) c (ap_sans ap))"
proof -
  from assms obtain order where o: "get_order oid (sv_db sv) = Some order"
    by (auto simp: finalize_check_def split: option.splits)
  note A = assms [unfolded finalize_check_def o, simplified]
  have own: "ord_account_id order = aid" and nv: "ord_status order \<noteq> VALID" using A by (auto split: if_splits)
  have nc: "get_certificate_by_order oid (sv_db sv) = None"
    using A own nv by (cases "get_certificate_by_order oid (sv_db sv)") (auto simp: hbind_eq_Inr)
  note A = A [unfolded nc, simplified own nv, simplified]
  have np: "ord_status order \<noteq> PROCESSING" using A by (auto split: if_splits)
  note A = A [simplified np, simplified]
  have ne: "\<not> is_expired (ord_expires order) (en_now en)"
  proof
    assume ex: "is_expired (ord_expires order) (en_now en)"
    have "fst (finalize_expired_order en oid aid order sv) \<noteq> Inr None"
      using ex by (auto simp: finalize_expired_order_def hbind_def on_db_def case_prod_beta Let_def refresh_order_or_500_def audited_def
          split: option.splits)
    with A show False by (auto simp: hbind_eq_Inr split: option.splits)
  qed
  have ex: "finalize_expired_order en oid aid order sv = (Inr None, sv)" using ne by (simp add: finalize_expired_order_def)
  note A = A [simplified hbind_def [of "finalize_expired_order en oid aid order"] ex, simplified]
  have rd: "ord_status order = READY" using A by (auto split: if_splits)
  then have "finalize_parse_and_validate_csr en cfg payload order aid oid sv = (Inr ap, sv')"
    using A by (auto simp: hbind_eq_Inr)
  from approved_in_scope [OF this] o own nc ne rd show ?thesis by blast
qed

lemma admit_cases:
  assumes "wf_db (sv_db sv)"
  obtains (admitted) r where "get_order oid (sv_db sv) = Some r" "ord_status r = READY" "sv_halt sv = None"
      "finalize_admit en oid sv = (Inr (Inl (Suc (ord_processing_generation r))),
         sv\<lparr>sv_db := snd (acquire_processing_lease (en_now en) oid (sv_db sv))\<rparr>)"
  | (halted) r where "get_order oid (sv_db sv) = Some r" "ord_status r = READY" "sv_halt sv \<noteq> None"
      "finalize_admit en oid sv = (Inl (Acme issuance_halted),
         sv\<lparr>sv_db := snd (acquire_processing_lease (en_now en) oid (sv_db sv))\<rparr>)"
  | (busy) "\<nexists>r. get_order oid (sv_db sv) = Some r \<and> ord_status r = READY"
      "snd (finalize_admit en oid sv) = sv" "\<nexists>g. fst (finalize_admit en oid sv) = Inr (Inl g)"
  using assms
proof (cases rule: acquire_cases [of "sv_db sv" oid "en_now en"])
  case (won r)
  obtain s' where acq: "acquire_processing_lease (en_now en) oid (sv_db sv) = (Some (Suc (ord_processing_generation r)), s')"
    using won(3) by (metis prod.collapse)
  show ?thesis
    using won(1,2) acq that(1,2) [of r]
    by (cases "sv_halt sv") (simp_all add: finalize_admit_def finalize_transition_to_processing_def hbind_def on_db_def)
next
  case lost
  then show ?thesis
    by (intro that(3)) (auto simp: finalize_admit_def finalize_transition_to_processing_def hbind_def on_db_def
        refresh_order_or_500_def split: option.splits if_splits)
qed

lemma hbind_runs_ca:
  assumes "runs.keeps m" "\<And>a. fst (m sv) = Inr a \<Longrightarrow> sv_ca (snd (f a (snd (m sv)))) = sv_ca (snd (m sv))"
  shows "sv_ca (snd (hbind m f sv)) = sv_ca sv"
  using assms(2) runs.keepsD [OF assms(1), of sv]
  by (cases "m sv"; cases "fst (m sv)") (auto simp: hbind_def db_run_def)

lemma runs_ca: "runs.keeps m \<Longrightarrow> sv_ca (snd (m sv)) = sv_ca sv"
  using runs.keepsD [of m sv] by (simp add: db_run_def)

lemma submit_then_complete_ca:
  "sv_ca (snd (hbind (finalize_submit_enrollment en cfg cid oid aid tp ap g answer)
      (\<lambda>outcome. case outcome of Inr r \<Rightarrow> ret r | Inl result \<Rightarrow> finalize_complete en cfg cid oid aid ap result g disk) sv))
   = (if may_submit en cfg oid aid tp g (sv_db sv) then sv_ca sv @ [(oid, g)] else sv_ca sv)"
proof -
  let ?m = "finalize_submit_enrollment en cfg cid oid aid tp ap g answer"
  have tail: "sv_ca (snd ((case outcome of Inr r \<Rightarrow> ret r | Inl result \<Rightarrow> finalize_complete en cfg cid oid aid ap result g disk) sv'))
      = sv_ca sv'" for outcome sv'
    by (rule runs_ca) (intro runs.keeps_intros keeps_complete)
  have "sv_ca (snd (hbind ?m (\<lambda>outcome. case outcome of Inr r \<Rightarrow> ret r
            | Inl result \<Rightarrow> finalize_complete en cfg cid oid aid ap result g disk) sv)) = sv_ca (snd (?m sv))"
    using tail by (cases "?m sv"; cases "fst (?m sv)") (simp_all add: hbind_def)
  also have "\<dots> = (if may_submit en cfg oid aid tp g (sv_db sv) then sv_ca sv @ [(oid, g)] else sv_ca sv)"
  proof (cases rule: submit_cases [of en cfg oid aid tp g sv cid ap answer])
    case called
    then show ?thesis using inner_effect [of sv oid g en cid aid ap answer] by (simp add: db_run_def)
  next
    case refused
    then show ?thesis by (simp add: db_run_def)
  qed
  finally show ?thesis .
qed

lemma enroll_ca:
  assumes wf: "wf_db (sv_db sv)"
    and ca: "sv_ca (snd (finalize_enroll en cfg cid oid aid tp ap gate answer disk sv)) \<noteq> sv_ca sv"
  obtains r where "\<not> gate" "sv_halt sv = None" "get_order oid (sv_db sv) = Some r"
    "may_submit en cfg oid aid tp (Suc (ord_processing_generation r)) (snd (acquire_processing_lease (en_now en) oid (sv_db sv)))"
    "sv_ca (snd (finalize_enroll en cfg cid oid aid tp ap gate answer disk sv))
       = sv_ca sv @ [(oid, Suc (ord_processing_generation r))]"
  using wf
proof (cases rule: admit_cases [of sv oid en])
  case (admitted r)
  let ?g = "Suc (ord_processing_generation r)"
  let ?s2 = "snd (acquire_processing_lease (en_now en) oid (sv_db sv))"
  note E = finalize_enroll_def hbind_def [of "finalize_admit en oid"] admitted(4)
  have ng: "\<not> gate"
  proof
    assume gate
    then have "sv_ca (snd (finalize_enroll en cfg cid oid aid tp ap gate answer disk sv)) = sv_ca (sv\<lparr>sv_db := ?s2\<rparr>)"
      by (simp add: E runs_ca [OF runs_before_lease(5)])
    with ca show False by simp
  qed
  then have "sv_ca (snd (finalize_enroll en cfg cid oid aid tp ap gate answer disk sv))
      = (if may_submit en cfg oid aid tp ?g ?s2 then sv_ca sv @ [(oid, ?g)] else sv_ca sv)"
    by (simp add: E submit_then_complete_ca)
  then show ?thesis
    by (intro that [OF ng]) (use admitted ca in \<open>simp_all split: if_splits\<close>)
next
  case (halted r)
  then show ?thesis using ca by (simp add: finalize_enroll_def hbind_def)
next
  case busy
  then have "sv_ca (snd (finalize_enroll en cfg cid oid aid tp ap gate answer disk sv)) = sv_ca sv"
    by (cases "finalize_admit en oid sv"; cases "fst (finalize_admit en oid sv)")
       (auto simp: hbind_def finalize_enroll_def split: sum.splits)
  then show ?thesis using ca by simp
qed

lemma finalize_order_ca:
  assumes wf: "wf_db (sv_db sv)"
    and ca: "sv_ca (snd (finalize_order en cfg cid aid tp payload oid gate answer disk sv)) \<noteq> sv_ca sv"
  obtains ap where "finalize_check en cfg aid payload oid sv = (Inr (Inl ap), sv)"
    "sv_ca (snd (finalize_order en cfg cid aid tp payload oid gate answer disk sv))
       = sv_ca (snd (finalize_enroll en cfg cid oid aid tp ap gate answer disk (mark_enter oid sv)))"
proof (cases "finalize_check en cfg aid payload oid sv")
  case (Pair r sv')
  have kc: "sv_ca sv' = sv_ca sv" using runs_ca [OF keeps_check, of en cfg aid payload oid sv] Pair by simp
  consider e where "r = Inl e" | rep where "r = Inr (Inr rep)" | ap where "r = Inr (Inl ap)"
    by (metis sum.exhaust_sel)
  then show thesis
  proof cases
    case 3
    then have "sv' = sv" using check_approved Pair by blast
    with 3 Pair show thesis
      by (intro that) (simp_all add: finalize_order_def hbind_def enrolling_def case_prod_beta Let_def)
  qed (use ca Pair kc in \<open>simp_all add: finalize_order_def hbind_def\<close>)
qed

text \<open>
  The CA is called by a finalize only for an order of the authenticated account that is
  ready, unexpired and without a certificate, for a request that is signed, strong, names only
  DNS names of the order in the credential's scope, has no other subject name and asks for
  no CA power; and only while the account is valid, still has the key that signed the
  request and an allowlisted credential, issuance is not halted, and the gate has room. It is
  called once, under the order's next lease.
\<close>

lemma ca_call_sound:
  assumes "wf_db (sv_db sv)"
    "sv_ca (snd (finalize_order en cfg cid aid tp payload oid gate answer disk sv)) \<noteq> sv_ca sv"
  shows "\<exists>order a c sans. get_order oid (sv_db sv) = Some order \<and> ord_account_id order = aid
     \<and> ord_status order = READY \<and> \<not> is_expired (ord_expires order) (en_now en)
     \<and> get_certificate_by_order oid (sv_db sv) = None
     \<and> get_account aid (sv_db sv) = Some a \<and> acc_status a = AcctVALID \<and> acc_eab_kid a \<in> set (eab_kids cfg)
     \<and> current_thumbprint en (Some a) = Inr (Some tp)
     \<and> parse_csr cfg payload = Inr c \<and> csr_in_scope cfg order (acc_eab_kid a) c sans
     \<and> sv_halt sv = None \<and> \<not> gate
     \<and> sv_ca (snd (finalize_order en cfg cid aid tp payload oid gate answer disk sv))
         = sv_ca sv @ [(oid, Suc (ord_processing_generation order))]"
proof -
  obtain ap where ap: "finalize_check en cfg aid payload oid sv = (Inr (Inl ap), sv)"
    "sv_ca (snd (finalize_order en cfg cid aid tp payload oid gate answer disk sv))
       = sv_ca (snd (finalize_enroll en cfg cid oid aid tp ap gate answer disk (mark_enter oid sv)))"
    by (rule finalize_order_ca [OF assms])
  have "sv_ca (snd (finalize_enroll en cfg cid oid aid tp ap gate answer disk (mark_enter oid sv)))
      \<noteq> sv_ca (mark_enter oid sv)" using assms(2) ap(2) by simp
  from enroll_ca [OF _ this] assms(1) obtain r where r: "\<not> gate" "sv_halt sv = None" "get_order oid (sv_db sv) = Some r"
    "may_submit en cfg oid aid tp (Suc (ord_processing_generation r)) (snd (acquire_processing_lease (en_now en) oid (sv_db sv)))"
    "sv_ca (snd (finalize_enroll en cfg cid oid aid tp ap gate answer disk (mark_enter oid sv)))
       = sv_ca sv @ [(oid, Suc (ord_processing_generation r))]" by auto
  have acc: "get_account aid (snd (acquire_processing_lease (en_now en) oid (sv_db sv))) = get_account aid (sv_db sv)"
    by (simp add: get_account_def order_op_frame(1) [OF order_ops(1)])
  from check_approved [OF ap(1)] r ap(2) show ?thesis unfolding may_submit_def acc by auto
qed

text \<open>What a rejected certificate leaves behind: a quarantine row queued for revocation, or an audit row.\<close>

definition left_a_trace :: "string \<Rightarrow> EnrollmentResult \<Rightarrow> db \<Rightarrow> db \<Rightarrow> bool" where
  "left_a_trace oid res s s' \<longleftrightarrow>
     (\<exists>row. certificates s' = certificates s @ [row] \<and> cert_pem row = er_cert_pem res
        \<and> cert_status row = CertQUARANTINED \<and> awaiting_ca row)
     \<or> (\<exists>ev. audit_log s' = audit_log s @ [ev] \<and> aud_order_id ev = Some oid \<and> aud_outcome ev = ''failed'')"

lemma quarantine_keeps_valid:
  assumes "quarantine_certificate x now cid i et vs why sans extra s = (Inr (row, ev), s')"
  shows "filter (\<lambda>c. cert_status c = CertVALID) (certificates s') = filter (\<lambda>c. cert_status c = CertVALID) (certificates s)"
    "filter (\<lambda>r. ord_status r = VALID) (orders s') = filter (\<lambda>r. ord_status r = VALID) (orders s)"
    "certificates s' = certificates s @ [row]" "cert_pem row = is_cert_pem i" "cert_status row = CertQUARANTINED"
    "awaiting_ca row" "get_certificate_by_order j s' = get_certificate_by_order j s"
proof -
  obtain s1 s2 au where st: "s' = snd (record_audit_in_conn x now au s2)" "put_certificate row s = Inr s1"
      "s2 = upd_orders (\<lambda>r. ord_id r = is_order_id i \<and> ord_status r \<in> {PROCESSING, READY}) (\<lambda>r. r\<lparr>ord_status := INVALID\<rparr>) s1"
    and row: "cert_status row = CertQUARANTINED" "cert_pem row = is_cert_pem i" "awaiting_ca row"
    using assms by (cases rule: quarantine_cases [of x now cid i et vs why sans extra s]) auto
  have s1: "s1 = s\<lparr>certificates := certificates s @ [row]\<rparr>" using st(2) by (simp add: put_certificate_ok)
  have "filter (\<lambda>r. ord_status r = VALID) (upd_where (\<lambda>r. ord_id r = is_order_id i \<and> ord_status r \<in> {PROCESSING, READY})
              (\<lambda>r. r\<lparr>ord_status := INVALID\<rparr>) rows) = filter (\<lambda>r. ord_status r = VALID) rows" for rows :: "OrderRow list"
    by (induction rows) (auto simp: upd_where_def)
  then show "filter (\<lambda>r. ord_status r = VALID) (orders s') = filter (\<lambda>r. ord_status r = VALID) (orders s)"
    by (simp add: st s1 upd_orders_def)
  show "filter (\<lambda>c. cert_status c = CertVALID) (certificates s') = filter (\<lambda>c. cert_status c = CertVALID) (certificates s)"
    "certificates s' = certificates s @ [row]" "get_certificate_by_order j s' = get_certificate_by_order j s"
    using row by (simp_all add: st s1 upd_orders_def get_certificate_by_order_def find_append split: option.split)
qed (use assms in \<open>cases rule: quarantine_cases [of x now cid i et vs why sans extra s]; simp\<close>)+

text \<open>
  C4. A certificate of the CA that is out of scope, not serverAuth-only or CA-capable is never
  honoured, whichever of the store's writes fail: the client gets an error, no certificate or order
  becomes valid, and the order's served certificate does not change. It is quarantined for
  revocation or, when the quarantine fails, at least leaves an audit row, with one exception: when
  the quarantine fails and the audit row cannot be written either, that error replaces the
  finding and the server is as it was.
\<close>

theorem dishonourable_never_served:
  assumes "load_cert cfg (er_cert_pem res) = Some crt" "\<not> honourable crt (ap_sans ap)"
    "finalize_complete en cfg cid oid aid ap res g disk sv = (r, sv')"
  shows "(\<exists>e. r = Inl e)
     \<and> filter (\<lambda>c. cert_status c = CertVALID) (certificates (sv_db sv')) = filter (\<lambda>c. cert_status c = CertVALID) (certificates (sv_db sv))
     \<and> filter (\<lambda>r. ord_status r = VALID) (orders (sv_db sv')) = filter (\<lambda>r. ord_status r = VALID) (orders (sv_db sv))
     \<and> get_certificate_by_order oid (sv_db sv') = get_certificate_by_order oid (sv_db sv)
     \<and> (r = Inl (Acme server_internal) \<and> left_a_trace oid res (sv_db sv) (sv_db sv')
        \<or> (\<exists>e. quarantine_fails en cid (issued_of oid aid res) (sv_db sv) \<and> en_audit_fault en = Some e \<and> r = Inl e \<and> sv' = sv))"
proof -
  obtain et vs why extra where et: "et \<notin> set COALESCED_EVENT_TYPES" and
    v: "verify_issued en cfg cid oid aid (ap_sans ap) res sv = quarantine_and_fail en cid oid aid (ap_sans ap) res et vs why extra sv"
    using assms(1,2) by (cases rule: verify_cases [of cfg res "ap_sans ap" en cid oid aid sv]) auto
  show ?thesis
  proof (cases rule: quarantine_and_fail_cases [where en = en and cid = cid and oid = oid and aid = aid and res = res and et = et
        and vs = vs and why = why and sans = "ap_sans ap" and extra = extra and sv = sv])
    case (stored row ev s')
    then have "r = Inl (Acme server_internal)" "sv' = sv\<lparr>sv_db := s'\<rparr>"
      using assms(3) v by (simp_all add: finalize_complete_def hbind_def)
    with quarantine_keeps_valid [OF stored(1)] show ?thesis by (simp add: left_a_trace_def issued_of_def)
  next
    case (fallback args)
    show ?thesis
    proof (cases "en_audit_fault en")
      case (Some e)
      then have "r = Inl e" "sv' = sv" using assms(3) v fallback(5) by (simp_all add: finalize_complete_def hbind_def)
      with Some fallback(4) show ?thesis by simp
    next
      case None
      then have eq: "r = Inl (Acme server_internal)" "sv' = audit en args sv"
        using assms(3) v fallback(5) by (simp_all add: finalize_complete_def hbind_def)
      have "audit_log (sv_db sv') = audit_log (sv_db sv) @ [fst (record_audit (en_ext en) (en_now en) args (sv_db sv))]"
        unfolding eq using audit_plain et fallback(1) by (simp add: record_audit_def)
      moreover have "aud_order_id (fst (record_audit (en_ext en) (en_now en) args (sv_db sv))) = Some oid"
        "aud_outcome (fst (record_audit (en_ext en) (en_now en) args (sv_db sv))) = ''failed''"
        using fallback(2,3) by (simp_all add: record_audit_def record_audit_in_conn_def Let_def)
      ultimately show ?thesis using eq by (simp add: left_a_trace_def get_certificate_by_order_def)
    qed
  qed
qed

text \<open>
  C5. A certificate that passed the checks and cannot be recorded because the disk fails is
  not reported to the client: the error is re-raised, the database is as it was, and when
  the failure says the store cannot be written, issuance is halted, once for all.
\<close>

theorem unrecorded_issuance_halts:
  assumes "load_cert cfg (er_cert_pem res) = Some crt" "honourable crt (ap_sans ap)"
  shows "case finalize_complete en cfg cid oid aid ap res g (Some e) sv of
      (r, sv') \<Rightarrow> r = Inl e \<and> sv_db sv' = sv_db sv
         \<and> (sv_halt sv' = None \<longleftrightarrow> sv_halt sv = None \<and> \<not> store_is_unwritable en e)"
proof -
  have "verify_issued en cfg cid oid aid (ap_sans ap) res sv = (Inr (), sv)"
    using assms by (cases rule: verify_cases [of cfg res "ap_sans ap" en cid oid aid sv]) auto
  then show ?thesis
    by (simp add: finalize_complete_def hbind_def record_or_orphan_def)
       (simp add: emergency_issuance_orphan_def Let_def halt_def)
qed

text \<open>
  While issuance is halted a finalize that would have been submitted calls no CA and is
  answered 503, but the order has already been moved to processing and stays there: the
  same request after a restart, which clears the halt, is told to poll, and no request
  brings the order to the CA again.
\<close>

theorem halted_order_stuck:
  assumes "wf_db (sv_db sv)" "finalize_check en cfg aid payload oid sv = (Inr (Inl ap), sv)" "sv_halt sv \<noteq> None"
    "finalize_order en cfg cid aid tp payload oid gate answer disk sv = (r, sv')"
  shows "r = Inl (Acme issuance_halted) \<and> sv_ca sv' = sv_ca sv
     \<and> (\<exists>order. get_order oid (sv_db sv') = Some order \<and> ord_status order = PROCESSING
          \<and> finalize_order en' cfg' cid' aid tp' payload' oid gate' answer' disk' (sv'\<lparr>sv_halt := None\<rparr>)
              = (Inr (json_retry 3 order), sv'\<lparr>sv_halt := None\<rparr>))"
proof -
  let ?sv1 = "mark_enter oid sv"
  from check_approved [OF assms(2)] obtain order where o: "get_order oid (sv_db sv) = Some order" "ord_status order = READY"
    "ord_account_id order = aid" "get_certificate_by_order oid (sv_db sv) = None" by auto
  let ?s2 = "snd (acquire_processing_lease (en_now en) oid (sv_db sv))"
  have adm: "finalize_admit en oid ?sv1 = (Inl (Acme issuance_halted), ?sv1\<lparr>sv_db := ?s2\<rparr>)"
  proof -
    have "wf_db (sv_db ?sv1)" using assms(1) by simp
    then show ?thesis using assms(3) o by (cases rule: admit_cases [of ?sv1 oid en]) auto
  qed
  have res: "r = Inl (Acme issuance_halted)" "sv' = mark_exit oid (?sv1\<lparr>sv_db := ?s2\<rparr>)"
    using assms(4) adm by (simp_all add: finalize_order_def hbind_def assms(2) enrolling_def finalize_enroll_def)
  obtain order' where o': "get_order oid ?s2 = Some order'" "ord_status order' = PROCESSING" "ord_account_id order' = aid"
    using assms(1) o by (cases rule: acquire_cases [of "sv_db sv" oid "en_now en"]) auto
  have "get_certificate_by_order oid ?s2 = None"
    using o(4) by (simp add: get_certificate_by_order_def order_op_frame(3) [OF order_ops(1)])
  with o' have "finalize_check en' cfg' aid payload' oid (sv'\<lparr>sv_halt := None\<rparr>) = (Inr (Inr (json_retry 3 order')), sv'\<lparr>sv_halt := None\<rparr>)"
    by (simp add: finalize_check_def res)
  then show ?thesis using res o' by (simp add: finalize_order_def hbind_def)
qed

section \<open>Witnesses\<close>

definition sample_result :: "string \<Rightarrow> EnrollmentResult" where
  "sample_result pem = \<lparr>er_cert_pem = pem, er_chain_pem = [], er_template = ''WebServer'', er_requester = ''ra'', er_metadata = []\<rparr>"

definition sample_payload :: "(string \<times> json) list" where
  "sample_payload = [(''csr'', JStr ''AA'')]"

definition sample_ap :: approved where
  "sample_ap = \<lparr>ap_subject = ''CN=h.example'', ap_sans = [''h.example''],
     ap_decision = \<lparr>allowed = True, template = Some ''WebServer'', reason = ''allowed'', reason_code = ''allowed''\<rparr>\<rparr>"

lemma check_sample: "finalize_check sample_env sample_cfg ''a'' sample_payload ''o1'' signed_server = (Inr (Inl sample_ap), signed_server)"
proof -
  have "fst (finalize_check sample_env sample_cfg ''a'' sample_payload ''o1'' signed_server) = Inr (Inl sample_ap)"
    by code_simp
  then show ?thesis using check_approved by (metis prod.collapse)
qed

lemma thumb_sample: "current_thumbprint sample_env (Some signed_account) = Inr (Some [])"
  using signed_thumbprint by (simp add: current_thumbprint_def signed_account_def thumbprint_of_def)

lemma order_sample: "get_order ''o1'' (sv_db signed_server) = Some (sample_order ''o1'' READY 10)"
  by (simp add: get_order_def signed_server_def sample_server_def sample_db_def sample_order_def)

lemma may_submit_sample:
  "may_submit sample_env sample_cfg ''o1'' ''a'' [] 1 (snd (acquire_processing_lease 0 ''o1'' (sv_db signed_server)))"
proof -
  have "get_account ''a'' (snd (acquire_processing_lease 0 ''o1'' (sv_db signed_server))) = Some signed_account"
    by (simp add: get_account_def order_op_frame(1) [OF order_ops(1)] signed_server_def sample_server_def
        signed_account_def sample_account_def)
  moreover have "holds_processing_lease ''o1'' 1 (snd (acquire_processing_lease 0 ''o1'' (sv_db signed_server)))"
    by (cases rule: acquire_cases [OF wf_signed, of "''o1''" 0])
       (simp_all add: order_sample holds_processing_lease_def, simp_all add: sample_order_def)
  ultimately show ?thesis
    using thumb_sample by (simp add: may_submit_def signed_account_def sample_account_def sample_cfg_def eab_kids_def)
qed

lemma ca_call_sample:
  assumes "sv_db sv = sv_db signed_server" "sv_halt sv = None" "sv_ca sv = []"
    "fst (finalize_check sample_env sample_cfg ''a'' sample_payload ''o1'' sv) = Inr (Inl sample_ap)"
  shows "sv_ca (snd (finalize_order sample_env sample_cfg ''c'' ''a'' [] sample_payload ''o1'' False
      (CaIssued (sample_result ''pem'')) None sv)) = [(''o1'', 1)]"
proof -
  let ?sv = "mark_enter ''o1'' sv"
  have now: "en_now sample_env = 0" by (simp add: sample_env_def)
  have g: "ord_processing_generation (sample_order ''o1'' READY 10) = 0" "ord_status (sample_order ''o1'' READY 10) = READY"
    by (simp_all add: sample_order_def)
  have check: "finalize_check sample_env sample_cfg ''a'' sample_payload ''o1'' sv = (Inr (Inl sample_ap), sv)"
    using assms(4) check_approved by (metis prod.collapse)
  have "wf_db (sv_db ?sv)" using wf_signed assms(1) by simp
  then have "finalize_admit sample_env ''o1'' ?sv =
      (Inr (Inl 1), ?sv\<lparr>sv_db := snd (acquire_processing_lease 0 ''o1'' (sv_db signed_server))\<rparr>)"
    by (cases rule: admit_cases [of ?sv "''o1''" sample_env]) (use order_sample g assms(1,2) now in auto)
  then show ?thesis
    using may_submit_sample assms(1,3)
    by (simp add: finalize_order_def hbind_def [of "finalize_check _ _ _ _ _"] check enrolling_def case_prod_beta Let_def
        finalize_enroll_def hbind_def [of "finalize_admit _ _"] submit_then_complete_ca)
qed

theorem dishonourable_never_served_witness:
  "(case finalize_complete sample_env sample_cfg ''c'' ''o1'' ''a'' sample_ap (sample_result ''ca'') 1 None sample_server of
     (r, sv') \<Rightarrow> r = Inl (Acme server_internal) \<and> left_a_trace ''o1'' (sample_result ''ca'') sample_db (sv_db sv'))
   \<and> (let en = sample_env\<lparr>en_quarantine_fault := Some (OSError ''full''), en_audit_fault := Some (OSError ''full'')\<rparr>;
          (r, sv') = finalize_complete en sample_cfg ''c'' ''o1'' ''a'' sample_ap (sample_result ''ca'') 1 None sample_server
      in (\<exists>e. r = Inl e) \<and> get_certificate_by_order ''o1'' (sv_db sv') = get_certificate_by_order ''o1'' sample_db)"
proof -
  have "load_cert sample_cfg (er_cert_pem (sample_result ''ca'')) = Some (sample_crt\<lparr>crt_basic_constraints_ca := Some True\<rparr>)"
    by (simp add: sample_cfg_def sample_result_def)
  moreover have "\<not> honourable (sample_crt\<lparr>crt_basic_constraints_ca := Some True\<rparr>) (ap_sans sample_ap)"
    by (simp add: honourable_def)
  moreover have "en_audit_fault sample_env = None" "sv_db sample_server = sample_db" by (simp_all add: sample_env_def sample_server_def)
  ultimately show ?thesis
    using dishonourable_never_served [where sv = sample_server and cfg = sample_cfg and res = "sample_result ''ca''" and ap = sample_ap
        and cid = "''c''" and oid = "''o1''" and aid = "''a''" and g = 1 and disk = None, OF _ _ prod.collapse [symmetric]]
    unfolding Let_def case_prod_beta by (metis option.distinct(1))
qed

theorem unrecorded_issuance_halts_witness:
  "case finalize_complete sample_env sample_cfg ''c'' ''o1'' ''a'' sample_ap (sample_result ''pem'') 1 (Some (OSError ''full'')) sample_server of
     (r, sv') \<Rightarrow> r = Inl (OSError ''full'') \<and> sv_db sv' = sample_db \<and> sv_halt sv' \<noteq> None"
proof -
  have "load_cert sample_cfg (er_cert_pem (sample_result ''pem'')) = Some sample_crt"
    by (simp add: sample_cfg_def sample_result_def)
  moreover have "honourable sample_crt (ap_sans sample_ap)" by (simp add: honourable_def sample_crt_def sample_ap_def)
  ultimately show ?thesis
    using unrecorded_issuance_halts [where sv = sample_server and cfg = sample_cfg and en = sample_env and ap = sample_ap
      and res = "sample_result ''pem''" and e = "OSError ''full''" and cid = "''c''" and oid = "''o1''" and aid = "''a''" and g = 1]
    by (simp add: store_is_unwritable_def sample_server_def case_prod_beta)
qed

theorem halted_order_stuck_witness:
  "let sv = signed_server\<lparr>sv_halt := Some ''disk''\<rparr>;
       (r, sv') = finalize_order sample_env sample_cfg ''c'' ''a'' [] sample_payload ''o1'' False (CaError []) None sv
   in r = Inl (Acme issuance_halted) \<and>
      (\<exists>order. finalize_order sample_env sample_cfg ''c'' ''a'' [] sample_payload ''o1'' False (CaError []) None (sv'\<lparr>sv_halt := None\<rparr>)
         = (Inr (json_retry 3 order), sv'\<lparr>sv_halt := None\<rparr>))"
proof -
  let ?sv = "signed_server\<lparr>sv_halt := Some ''disk''\<rparr>"
  let ?run = "finalize_order sample_env sample_cfg ''c'' ''a'' [] sample_payload ''o1'' False (CaError []) None ?sv"
  have "fst (finalize_check sample_env sample_cfg ''a'' sample_payload ''o1'' ?sv) = Inr (Inl sample_ap)" by code_simp
  then have "finalize_check sample_env sample_cfg ''a'' sample_payload ''o1'' ?sv = (Inr (Inl sample_ap), ?sv)"
    using check_approved by (metis prod.collapse)
  from halted_order_stuck [OF _ this, where cid = "''c''" and tp = "[]" and gate = False and answer = "CaError []" and disk = None
      and r = "fst ?run" and sv' = "snd ?run"]
  show ?thesis using wf_signed by (simp add: Let_def case_prod_beta) blast
qed

end
