(* ===== verification/EnrollmentPool.thy ===== *)
theory EnrollmentPool
  imports FinalizeSafety
begin

text \<open>
  The finalize handler under concurrency (\<open>finalize_order\<close> of
  \<open>src/src/acme_adcs_ra/routes/orders.py\<close> with the worker gate it awaits). An admitted
  request is a job; between its admission, its submission on a worker thread and its
  completion any number of other requests run, administrative reclaims included, and the
  process may restart, which loses the jobs and keeps the database. The generations under
  which one order is submitted to the CA strictly increase over every such run.
\<close>

section \<open>The pool\<close>

record job =
  jb_order :: string
  jb_account :: string
  jb_thumbprint :: string
  jb_approved :: approved
  jb_generation :: nat

record pool =
  pl_server :: server
  pl_queue :: "job list"
  pl_issued :: "(job \<times> EnrollmentResult) list"

definition job_key :: "job \<Rightarrow> string \<times> nat" where
  "job_key j = (jb_order j, jb_generation j)"

inductive pool_step :: "config \<Rightarrow> pool \<Rightarrow> pool \<Rightarrow> bool" for cfg where
  elsewhere: "store_step (sv_db (pl_server p)) s \<Longrightarrow>
    pool_step cfg p (p\<lparr>pl_server := (pl_server p)\<lparr>sv_db := s\<rparr>\<rparr>)"
| enqueue: "finalize_check en cfg aid payload oid (pl_server p) = (Inr (Inl ap), sv) \<Longrightarrow>
    finalize_admit en oid sv = (Inr (Inl g), sv') \<Longrightarrow>
    pool_step cfg p (p\<lparr>pl_server := sv', pl_queue := pl_queue p @
      [\<lparr>jb_order = oid, jb_account = aid, jb_thumbprint = tp, jb_approved = ap, jb_generation = g\<rparr>]\<rparr>)"
| refuse: "pl_queue p = js @ j # js' \<Longrightarrow>
    pool_step cfg p (p\<lparr>pl_queue := js @ js', pl_server :=
      snd ((admission_denied en (jb_order j) (jb_account j) (jb_approved j) (jb_generation j) :: unit handler) (pl_server p))\<rparr>)"
| submit: "pl_queue p = js @ j # js' \<Longrightarrow>
    finalize_submit_enrollment en cfg cid (jb_order j) (jb_account j) (jb_thumbprint j) (jb_approved j)
      (jb_generation j) answer (pl_server p) = (r, sv) \<Longrightarrow>
    pool_step cfg p (p\<lparr>pl_queue := js @ js', pl_server := sv,
      pl_issued := pl_issued p @ (case r of Inr (Inl result) \<Rightarrow> [(j, result)] | _ \<Rightarrow> [])\<rparr>)"
| complete: "pl_issued p = js @ (j, result) # js' \<Longrightarrow>
    pool_step cfg p (p\<lparr>pl_issued := js @ js', pl_server :=
      snd (finalize_complete en cfg cid (jb_order j) (jb_account j) (jb_approved j) result (jb_generation j) disk (pl_server p))\<rparr>)"
| restart: "pool_step cfg p (p\<lparr>pl_queue := [], pl_issued := [], pl_server :=
      (pl_server p)\<lparr>sv_halt := None, sv_active := (\<lambda>_. None)\<rparr>\<rparr>)"

inductive_cases pool_stepE: "pool_step cfg p p'"

section \<open>The invariant\<close>

definition submissions :: "string \<Rightarrow> server \<Rightarrow> nat list" where
  "submissions i sv = map snd (filter (\<lambda>p. fst p = i) (sv_ca sv))"

definition pool_inv :: "pool \<Rightarrow> bool" where
  "pool_inv p \<longleftrightarrow> wf_db (sv_db (pl_server p))
     \<and> (\<forall>(i, g) \<in> set (sv_ca (pl_server p)) \<union> job_key ` set (pl_queue p). g \<le> lease_gen i (sv_db (pl_server p)))
     \<and> distinct (map job_key (pl_queue p)) \<and> set (sv_ca (pl_server p)) \<inter> job_key ` set (pl_queue p) = {}
     \<and> (\<forall>i. sorted_wrt (<) (submissions i (pl_server p)))"

lemma subseq_subset: "subseq xs ys \<Longrightarrow> set xs \<subseteq> set ys"
  by (induction rule: list_emb.induct) auto

lemma subseq_distinct_map: "subseq xs ys \<Longrightarrow> distinct (map f ys) \<Longrightarrow> distinct (map f xs)"
proof (induction rule: list_emb.induct)
  case (list_emb_Cons2 x y xs ys)
  then show ?case using subseq_subset [OF list_emb_Cons2(2)] by auto
qed auto

lemma subseq_drop [simp]: "subseq (js @ js') (js @ j # js')"
  by (induction js) (auto simp: list_emb_Cons)

lemma pool_inv_gen:
  "pool_inv p \<Longrightarrow> (i, g) \<in> set (sv_ca (pl_server p)) \<union> job_key ` set (pl_queue p) \<Longrightarrow> g \<le> lease_gen i (sv_db (pl_server p))"
  unfolding pool_inv_def by blast

lemma run_lease_gen: "db_run sv sv' \<Longrightarrow> wf_db (sv_db sv) \<Longrightarrow> lease_gen i (sv_db sv) \<le> lease_gen i (sv_db sv')"
  using order_lease.run_mono by (simp add: db_run_def)

lemma run_wf: "db_run sv sv' \<Longrightarrow> wf_db (sv_db sv) \<Longrightarrow> wf_db (sv_db sv')"
  using wf_reachable by (auto simp: db_run_def)

lemma pool_inv_frame:
  assumes "pool_inv p" "db_run (pl_server p) (pl_server p')" "subseq (pl_queue p') (pl_queue p)"
  shows "pool_inv p'"
proof -
  have ca: "sv_ca (pl_server p') = sv_ca (pl_server p)" using assms(2) by (simp add: db_run_def)
  have sub: "set (pl_queue p') \<subseteq> set (pl_queue p)" using assms(3) by (rule subseq_subset)
  have wf: "wf_db (sv_db (pl_server p))" using assms(1) by (simp add: pool_inv_def)
  have "g \<le> lease_gen i (sv_db (pl_server p'))"
    if "(i, g) \<in> set (sv_ca (pl_server p')) \<union> job_key ` set (pl_queue p')" for i g
  proof -
    have "(i, g) \<in> set (sv_ca (pl_server p)) \<union> job_key ` set (pl_queue p)" using that ca sub by auto
    then have "g \<le> lease_gen i (sv_db (pl_server p))" using assms(1) unfolding pool_inv_def by blast
    with run_lease_gen [OF assms(2) wf, of i] show ?thesis by simp
  qed
  moreover have "distinct (map job_key (pl_queue p'))"
    using assms(1) subseq_distinct_map [OF assms(3), of job_key] by (simp add: pool_inv_def)
  moreover have "set (sv_ca (pl_server p')) \<inter> job_key ` set (pl_queue p') = {}"
    using assms(1) ca sub unfolding pool_inv_def by auto
  ultimately show ?thesis
    using assms(1) run_wf [OF assms(2) wf] ca by (auto simp: pool_inv_def submissions_def)
qed

lemma pool_inv_enqueue:
  assumes inv: "pool_inv p" and chk: "finalize_check en cfg aid payload oid (pl_server p) = (Inr (Inl ap), sv)"
    and adm: "finalize_admit en oid sv = (Inr (Inl g), sv')" and j: "jb_order j = oid" "jb_generation j = g"
  shows "pool_inv (p\<lparr>pl_server := sv', pl_queue := pl_queue p @ [j]\<rparr>)"
proof -
  have sv: "sv = pl_server p" using check_approved [OF chk] by simp
  have wf: "wf_db (sv_db sv)" using inv sv by (simp add: pool_inv_def)
  let ?s = "snd (acquire_processing_lease (en_now en) oid (sv_db sv))"
  obtain r where r: "get_order oid (sv_db sv) = Some r" "ord_status r = READY" "g = Suc (ord_processing_generation r)" "sv' = sv\<lparr>sv_db := ?s\<rparr>"
    using wf adm by (cases rule: admit_cases [of sv oid en]) auto
  have run: "db_run sv sv'" using r(4) store_step.acquire_lease by (auto simp: db_run_def)
  have mid: "pool_inv (p\<lparr>pl_server := sv'\<rparr>)" by (rule pool_inv_frame [OF inv]) (use run sv in simp_all)
  have old: "lease_gen oid (sv_db sv) < g" using r by (simp add: lease_gen_def)
  have new: "g \<le> lease_gen oid ?s"
    using wf r(1,2,3) by (cases rule: acquire_cases [of "sv_db sv" oid "en_now en"]) (auto simp: lease_gen_def)
  have "(oid, g) \<notin> set (sv_ca (pl_server p)) \<union> job_key ` set (pl_queue p)"
    using pool_inv_gen [OF inv, of oid g] old unfolding sv by linarith
  moreover have key: "job_key j = (oid, g)" using j by (simp add: job_key_def)
  ultimately show ?thesis
    using mid new r(4) sv unfolding pool_inv_def by (auto simp: submissions_def)
qed

lemma pool_inv_submit:
  assumes inv: "pool_inv p" and q: "pl_queue p = js @ j # js'"
    and sub: "finalize_submit_enrollment en cfg cid (jb_order j) (jb_account j) (jb_thumbprint j) (jb_approved j)
      (jb_generation j) answer (pl_server p) = (r, sv)"
  shows "pool_inv (p\<lparr>pl_queue := js @ js', pl_server := sv, pl_issued := iss\<rparr>)"
proof (cases rule: submit_cases [of en cfg "jb_order j" "jb_account j" "jb_thumbprint j" "jb_generation j" "pl_server p" cid
      "jb_approved j" answer])
  case called
  let ?i = "jb_order j" and ?g = "jb_generation j"
  let ?mid = "(pl_server p)\<lparr>sv_ca := sv_ca (pl_server p) @ [(?i, ?g)]\<rparr>"
  have run: "db_run ?mid sv" using inner_effect [of "pl_server p" ?i ?g en cid "jb_account j" "jb_approved j" answer] called sub by (metis snd_conv)
  have gen: "lease_gen ?i (sv_db (pl_server p)) = ?g"
    using called(1) by (auto simp: may_submit_def holds_processing_lease_def lease_gen_def split: option.splits)
  have fresh: "(?i, ?g) \<notin> set (sv_ca (pl_server p))" using inv q by (auto simp: pool_inv_def job_key_def)
  have lt: "g' < ?g" if mem: "(?i, g') \<in> set (sv_ca (pl_server p))" for g'
  proof -
    have "g' \<le> ?g" using pool_inv_gen [OF inv, of ?i g'] gen mem by simp
    with mem fresh show ?thesis by (cases "g' = ?g") auto
  qed
  have "sorted_wrt (<) (submissions i ?mid)" for i
    using inv lt by (auto simp: pool_inv_def submissions_def sorted_wrt_append)
  then have "pool_inv (p\<lparr>pl_queue := js @ js', pl_server := ?mid, pl_issued := iss\<rparr>)"
    using inv gen unfolding pool_inv_def q by (auto simp: job_key_def)
  then show ?thesis by (rule pool_inv_frame) (use run in simp_all)
next
  case refused
  then show ?thesis using sub q by (intro pool_inv_frame [OF inv]) simp_all
qed

lemma pool_inv_step: "pool_step cfg p p' \<Longrightarrow> pool_inv p \<Longrightarrow> pool_inv p'"
proof (induction rule: pool_step.induct)
  case (elsewhere p s)
  show ?case by (rule pool_inv_frame [OF elsewhere(2)]) (use elsewhere(1) in \<open>simp_all add: db_run_def r_into_rtranclp\<close>)
next
  case (enqueue en aid payload oid p ap sv g sv' tp)
  show ?case by (rule pool_inv_enqueue [OF enqueue(3,1,2)]) simp_all
next
  case (refuse p js j js' en)
  show ?case
    by (rule pool_inv_frame [OF refuse(2)]) (simp_all add: runs.keepsD [OF runs_before_lease(5)] refuse(1))
next
  case (submit p js j js' en cid answer r sv)
  show ?case by (rule pool_inv_submit [OF submit(3,1,2)])
next
  case (complete p js j result js' en cid disk)
  show ?case by (rule pool_inv_frame [OF complete(2)]) (simp_all add: runs.keepsD [OF keeps_complete])
next
  case (restart p)
  show ?case by (rule pool_inv_frame [OF restart]) (simp_all add: db_run_def)
qed

lemma pool_inv_run: "(pool_step cfg)\<^sup>*\<^sup>* p p' \<Longrightarrow> pool_inv p \<Longrightarrow> pool_inv p'"
  by (induction rule: rtranclp_induct) (auto intro: pool_inv_step)

text \<open>
  C2. Over every interleaving of admissions, refusals, submissions and completions with any
  store operations of other requests and with restarts, no lease is submitted to the CA
  twice, and the submissions of one order are made under strictly increasing generations: a
  worker that was overtaken by a reclaim and a newer finalize never reaches the CA.
\<close>

theorem submissions_increase:
  assumes "wf_db (sv_db (pl_server p))" "pl_queue p = []" "sv_ca (pl_server p) = []" "(pool_step cfg)\<^sup>*\<^sup>* p p'"
  shows "sorted_wrt (<) (submissions i (pl_server p')) \<and> distinct (sv_ca (pl_server p'))"
proof -
  have "pool_inv p" using assms(1-3) by (simp add: pool_inv_def submissions_def)
  from pool_inv_run [OF assms(4) this] have s: "\<And>i. sorted_wrt (<) (submissions i (pl_server p'))"
    by (simp add: pool_inv_def)
  moreover have "distinct xs" if "\<And>i. sorted_wrt (<) (map snd (filter (\<lambda>p. fst p = i) xs))" for xs :: "(string \<times> nat) list"
    using that
  proof (induction xs)
    case (Cons x xs)
    have "sorted_wrt (<) (map snd (filter (\<lambda>p. fst p = i) xs))" for i
      using Cons.prems [of i] by (auto split: if_splits)
    moreover have "x \<notin> set xs" using Cons.prems [of "fst x"] by force
    ultimately show ?case using Cons.IH by simp
  qed simp
  ultimately show ?thesis unfolding submissions_def by blast
qed

section \<open>Witness\<close>

definition idle_pool :: pool where
  "idle_pool = \<lparr>pl_server = signed_server, pl_queue = [], pl_issued = []\<rparr>"

definition sample_job :: job where
  "sample_job = \<lparr>jb_order = ''o1'', jb_account = ''a'', jb_thumbprint = [], jb_approved = sample_ap, jb_generation = 1\<rparr>"

definition queued_pool :: pool where
  "queued_pool = idle_pool\<lparr>pl_server := signed_server\<lparr>sv_db := snd (acquire_processing_lease 0 ''o1'' (sv_db signed_server))\<rparr>,
     pl_queue := [sample_job]\<rparr>"

lemma sample_enqueue: "pool_step sample_cfg idle_pool queued_pool"
proof -
  have "finalize_admit sample_env ''o1'' signed_server =
      (Inr (Inl 1), signed_server\<lparr>sv_db := snd (acquire_processing_lease 0 ''o1'' (sv_db signed_server))\<rparr>)"
    using wf_signed
    by (cases rule: admit_cases [of signed_server "''o1''" sample_env])
       (use order_sample in \<open>auto simp: sample_env_def sample_order_def signed_server_def sample_server_def\<close>)
  from enqueue [of sample_env sample_cfg "''a''" sample_payload "''o1''" idle_pool, OF _ this, of sample_ap "[]"] check_sample
  show ?thesis by (simp add: idle_pool_def queued_pool_def sample_job_def)
qed

theorem submissions_increase_witness:
  "\<exists>p'. (pool_step sample_cfg)\<^sup>*\<^sup>* idle_pool p' \<and> sv_ca (pl_server p') = [(''o1'', 1)] \<and> pl_queue p' = []
     \<and> sorted_wrt (<) (submissions ''o1'' (pl_server p'))"
proof -
  obtain r sv where run: "finalize_submit_enrollment sample_env sample_cfg ''c'' ''o1'' ''a'' [] sample_ap 1 (CaError [])
      (pl_server queued_pool) = (r, sv)" by fastforce
  define p' where "p' = queued_pool\<lparr>pl_queue := [], pl_server := sv,
      pl_issued := pl_issued queued_pool @ (case r of Inr (Inl result) \<Rightarrow> [(sample_job, result)] | _ \<Rightarrow> [])\<rparr>"
  have "pool_step sample_cfg queued_pool p'"
    using submit [of queued_pool "[]" sample_job "[]" sample_env sample_cfg "''c''" "CaError []" r sv] run
    by (simp add: p'_def queued_pool_def sample_job_def)
  with sample_enqueue have path: "(pool_step sample_cfg)\<^sup>*\<^sup>* idle_pool p'" by auto
  have "sv_ca sv = [(''o1'', 1)]"
  proof (cases rule: submit_cases [of sample_env sample_cfg "''o1''" "''a''" "[]" 1 "pl_server queued_pool" "''c''" sample_ap "CaError []"])
    case called
    then show ?thesis using run inner_effect [of "pl_server queued_pool" "''o1''" 1 sample_env "''c''" "''a''" sample_ap "CaError []"]
      by (simp add: db_run_def queued_pool_def signed_server_def sample_server_def)
  next
    case refused
    then show ?thesis using may_submit_sample by (simp add: queued_pool_def)
  qed
  moreover have "wf_db (sv_db (pl_server idle_pool))" "pl_queue idle_pool = []" "sv_ca (pl_server idle_pool) = []"
    using wf_signed by (simp_all add: idle_pool_def signed_server_def sample_server_def)
  ultimately show ?thesis
    using path submissions_increase [OF _ _ _ path, of "''o1''"] by (intro exI [of _ p']) (simp add: p'_def)
qed

end
