(* ===== verification/Jws.thy ===== *)
theory Jws
  imports Jwk
begin

text \<open>
  Verification of flattened JWS objects, the second half of \<open>src/src/acme_adcs_ra/jws.py\<close>:
  the ASN.1 form of a raw ECDSA signature, the account-key signature check and the
  external-account-binding MAC check.

  The \<open>cryptography\<close> primitives, \<open>hmac\<close>, \<open>json.loads\<close> and the IP-literal test of
  \<open>urllib.parse\<close> are the fields of the record \<open>crypto\<close>, and the theorems hold for every choice of them. \<open>json.loads\<close> raises
  \<open>JSONDecodeError\<close> or \<open>UnicodeDecodeError\<close> on a text that is not JSON, and \<open>RecursionError\<close>
  or a plain \<open>ValueError\<close> on one whose nesting or integers exceed the interpreter's limits;
  handlers that name only the first two let the others through.
\<close>

section \<open>Primitives\<close>

datatype loads_error = DecodeError | LimitError

record crypto =
  c_loads :: "bytes \<Rightarrow> loads_error + json"
  c_public_key :: "public_numbers \<Rightarrow> bool"
  c_verify :: "public_numbers \<Rightarrow> nat \<Rightarrow> bytes \<Rightarrow> bytes \<Rightarrow> bool"
  c_hmac :: "nat \<Rightarrow> bytes \<Rightarrow> bytes \<Rightarrow> bytes"
  c_ip_literal :: "string \<Rightarrow> bool"

text \<open>Python's truth value, and its equality: \<open>True == 1\<close>, and dictionaries compare without order.\<close>

fun truthy :: "json \<Rightarrow> bool" where
  "truthy JNull = False"
| "truthy (JBool b) = b"
| "truthy (JInt i) = (i \<noteq> 0)"
| "truthy (JStr s) = (s \<noteq> [])"
| "truthy (JList xs) = (xs \<noteq> [])"
| "truthy (JObj d) = (d \<noteq> [])"

fun py_norm :: "json \<Rightarrow> json" where
  "py_norm (JBool b) = JInt (if b then 1 else 0)"
| "py_norm (JList xs) = JList (map py_norm xs)"
| "py_norm (JObj d) = JObj (sort_key fst (map (\<lambda>kv. (fst kv, py_norm (snd kv))) d))"
| "py_norm v = v"

definition py_eq :: "json option \<Rightarrow> json option \<Rightarrow> bool" where
  "py_eq a b = (let v = (\<lambda>x. case x of None \<Rightarrow> JNull | Some j \<Rightarrow> py_norm j) in v a = v b)"

section \<open>Raw signatures as DER\<close>

fun to_bytes :: "nat \<Rightarrow> nat \<Rightarrow> bytes" where
  "to_bytes 0 value = []"
| "to_bytes (Suc k) value = to_bytes k (value div 256) @ [value mod 256]"

fun length_octets :: "nat \<Rightarrow> bytes" where
  "length_octets temp = (if temp = 0 then [] else length_octets (temp div 256) @ [temp mod 256])"

declare length_octets.simps [simp del]

definition length_bytes :: "nat \<Rightarrow> bytes" where
  "length_bytes len = (if len < 128 then [len] else (128 + length (length_octets len)) # length_octets len)"

definition integer_to_der_bytes :: "nat \<Rightarrow> bytes" where
  "integer_to_der_bytes value =
     (let byte_length = (bit_length value + 8) div 8;
          byte_length = (if byte_length = 0 then 1 else byte_length);
          raw = to_bytes byte_length value;
          raw = (if hd raw \<ge> 128 then 0 # raw else raw)
      in 2 # length_bytes (length raw) @ raw)"

definition raw_ecdsa_to_der :: "bytes \<Rightarrow> nat \<Rightarrow> jws_error + bytes" where
  "raw_ecdsa_to_der signature coordinate_byte_length =
     (if length signature \<noteq> 2 * coordinate_byte_length then Inl JWSValidationError
      else
        let r = from_bytes (take coordinate_byte_length signature);
            s = from_bytes (drop coordinate_byte_length signature);
            seq_body = integer_to_der_bytes r @ integer_to_der_bytes s
        in Inr (48 # length_bytes (length seq_body) @ seq_body))"

section \<open>Flattened JWS\<close>

definition ends_with :: "string \<Rightarrow> string \<Rightarrow> bool" where
  "ends_with s t \<longleftrightarrow> suffix t s"

definition hash_for_alg :: "string \<Rightarrow> nat option" where
  "hash_for_alg alg =
     (if ends_with alg ''256'' then Some 256 else if ends_with alg ''384'' then Some 384
      else if ends_with alg ''512'' then Some 512 else None)"

definition SUPPORTED_JWS_ALGORITHMS :: "string list" where
  "SUPPORTED_JWS_ALGORITHMS = [''ES256'', ''ES384'', ''ES512'', ''RS256'', ''RS384'', ''RS512'']"

definition require_flattened_without_unprotected_header :: "details \<Rightarrow> jws_error + unit" where
  "require_flattened_without_unprotected_header jws =
     (if map_of jws ''header'' \<noteq> None then Inl JWSValidationError
      else if map_of jws ''signatures'' \<noteq> None then Inl JWSValidationError
      else Inr ())"

definition ascii_bytes :: "string \<Rightarrow> bytes" where
  "ascii_bytes s = map of_char s"

definition signing_input :: "string \<Rightarrow> string \<Rightarrow> bytes" where
  "signing_input protected_b64 payload_b64 = ascii_bytes (protected_b64 @ ''.'' @ payload_b64)"

definition jws_parts :: "details \<Rightarrow> jws_error + (string \<times> string \<times> string)" where
  "jws_parts jws =
     (case (map_of jws ''protected'', map_of jws ''payload'', map_of jws ''signature'') of
        (Some (JStr p), Some (JStr q), Some (JStr s)) \<Rightarrow> Inr (p, q, s)
      | _ \<Rightarrow> Inl JWSValidationError)"

definition jws_decoded :: "string \<Rightarrow> jws_error + bytes" where
  "jws_decoded t = (case base64url_decode t of Inl _ \<Rightarrow> Inl JWSValidationError | Inr b \<Rightarrow> Inr b)"

definition public_key :: "crypto \<Rightarrow> json \<Rightarrow> jws_error + public_numbers" where
  "public_key cr jwk = rbind (public_key_from_jwk jwk) (\<lambda>k. if c_public_key cr k then Inr k else Inl JWSValidationError)"

definition expected_ec_alg :: "nat \<Rightarrow> string option" where
  "expected_ec_alg curve =
     (if curve = 256 then Some ''ES256'' else if curve = 384 then Some ''ES384''
      else if curve = 521 then Some ''ES512'' else None)"

text \<open>The signature check proper; \<open>InvalidSignature\<close> and any other failure of the primitive are one error.\<close>

definition check_signature :: "crypto \<Rightarrow> public_numbers \<Rightarrow> string \<Rightarrow> bytes \<Rightarrow> bytes \<Rightarrow> jws_error + unit" where
  "check_signature cr key alg message signature =
     (let verified = (\<lambda>sig. case hash_for_alg alg of
            None \<Rightarrow> Inl UnsupportedAlgorithmError
          | Some h \<Rightarrow> if c_verify cr key h message sig then Inr () else Inl JWSValidationError)
      in if alg \<in> {''RS256'', ''RS384'', ''RS512''} then
           (case key of RSAPublicNumbers e n \<Rightarrow> verified signature | _ \<Rightarrow> Inl JWSValidationError)
         else if alg \<in> {''ES256'', ''ES384'', ''ES512''} then
           (case key of
              ECPublicNumbers curve x y \<Rightarrow>
                if Some alg \<noteq> expected_ec_alg curve then Inl JWSValidationError
                else rbind (raw_ecdsa_to_der signature (coordinate_length_for_curve curve)) verified
            | _ \<Rightarrow> Inl JWSValidationError)
         else Inl UnsupportedSignatureAlgorithmError)"

text \<open>The outcome of \<open>verify_flattened_jws\<close>: an error of its own, or one \<open>json.loads\<close> lets escape.\<close>

datatype jws_fault = JwsError jws_error | JwsLimit

definition jws_lift :: "jws_error + 'a \<Rightarrow> jws_fault + 'a" where
  "jws_lift r = (case r of Inl e \<Rightarrow> Inl (JwsError e) | Inr a \<Rightarrow> Inr a)"

definition verify_flattened_jws :: "crypto \<Rightarrow> details \<Rightarrow> public_numbers \<Rightarrow> jws_fault + bytes" where
  "verify_flattened_jws cr jws key =
     rbind (jws_lift (require_flattened_without_unprotected_header jws)) (\<lambda>_.
     rbind (jws_lift (jws_parts jws)) (\<lambda>(protected_b64, payload_b64, signature_b64).
     rbind (jws_lift (jws_decoded protected_b64)) (\<lambda>protected_bytes.
     rbind (jws_lift (jws_decoded signature_b64)) (\<lambda>signature.
     rbind (jws_lift (jws_decoded payload_b64)) (\<lambda>payload.
     case c_loads cr protected_bytes of
       Inl DecodeError \<Rightarrow> Inl (JwsError JWSValidationError)
     | Inl LimitError \<Rightarrow> Inl JwsLimit
     | Inr (JObj header) \<Rightarrow>
         (case map_of header ''alg'' of
            Some (JStr alg) \<Rightarrow>
              rbind (jws_lift (check_signature cr key alg (signing_input protected_b64 payload_b64) signature)) (\<lambda>_. Inr payload)
          | _ \<Rightarrow> Inl (JwsError JWSValidationError))
     | Inr _ \<Rightarrow> Inl (JwsError JWSValidationError))))))"

section \<open>External account binding\<close>

definition canonical_members :: "details \<Rightarrow> json" where
  "canonical_members jwk = py_norm (JObj (filter (\<lambda>kv. fst kv \<noteq> ''alg'') jwk))"

definition verify_hmac :: "crypto \<Rightarrow> string \<Rightarrow> string \<Rightarrow> bytes \<Rightarrow> bytes \<Rightarrow> string \<Rightarrow> bool" where
  "verify_hmac cr protected_b64 payload_b64 signature mac_key alg =
     (case hash_for_alg alg of
        None \<Rightarrow> False
      | Some h \<Rightarrow> c_hmac cr h mac_key (signing_input protected_b64 payload_b64) = signature)"

definition loaded_obj :: "loads_error + json \<Rightarrow> jws_fault + details" where
  "loaded_obj r =
     (case r of
        Inl DecodeError \<Rightarrow> Inl (JwsError JWSValidationError)
      | Inl LimitError \<Rightarrow> Inl JwsLimit
      | Inr (JObj d) \<Rightarrow> Inr d
      | Inr _ \<Rightarrow> Inl (JwsError JWSValidationError))"

text \<open>The header is parsed under \<open>except Exception\<close>, the payload under the two named errors only.\<close>

definition verify_eab_jws :: "crypto \<Rightarrow> details \<Rightarrow> details \<Rightarrow> bytes \<Rightarrow> string option \<Rightarrow> jws_fault + json" where
  "verify_eab_jws cr eab_jws account_jwk mac_key expected_url =
     rbind (jws_lift (require_flattened_without_unprotected_header eab_jws)) (\<lambda>_.
     rbind (jws_lift (jws_parts eab_jws)) (\<lambda>(protected_b64, payload_b64, signature_b64).
     rbind (jws_lift (jws_decoded protected_b64)) (\<lambda>protected_bytes.
     case c_loads cr protected_bytes of
       Inr (JObj header) \<Rightarrow>
         (case map_of header ''alg'' of
            Some (JStr alg) \<Rightarrow>
              if alg \<notin> {''HS256'', ''HS384'', ''HS512''} then Inl (JwsError JWSValidationError)
              else (case map_of header ''kid'' of
                      None \<Rightarrow> Inl (JwsError JWSValidationError)
                    | Some kid \<Rightarrow>
                        if \<not> truthy kid then Inl (JwsError JWSValidationError)
                        else if expected_url \<noteq> None \<and> map_of header ''url'' \<noteq> map_option JStr expected_url
                        then Inl (JwsError JWSValidationError)
                        else
                          rbind (jws_lift (jws_decoded payload_b64)) (\<lambda>eab_payload.
                          rbind (loaded_obj (c_loads cr eab_payload)) (\<lambda>decoded_jwk.
                          if canonical_members decoded_jwk \<noteq> canonical_members account_jwk
                          then Inl (JwsError JWSValidationError)
                          else rbind (jws_lift (jws_decoded signature_b64)) (\<lambda>signature.
                            if \<not> verify_hmac cr protected_b64 payload_b64 signature mac_key alg
                            then Inl (JwsError JWSValidationError)
                            else Inr kid))))
          | _ \<Rightarrow> Inl (JwsError JWSValidationError))
     | _ \<Rightarrow> Inl (JwsError JWSValidationError))))"

section \<open>The DER form decodes to the raw pair\<close>

text \<open>A strict DER reader: definite lengths in their shortest form, integers minimal and non-negative.\<close>

definition der_length :: "bytes \<Rightarrow> (nat \<times> bytes) option" where
  "der_length bs =
     (case bs of
        [] \<Rightarrow> None
      | b # rest \<Rightarrow>
          if b < 128 then Some (b, rest)
          else
            let k = b - 128; n = from_bytes (take k rest) in
            if k = 0 \<or> length rest < k \<or> hd rest = 0 \<or> n < 128 then None else Some (n, drop k rest))"

definition der_value :: "nat \<Rightarrow> bytes \<Rightarrow> (bytes \<times> bytes) option" where
  "der_value tag bs =
     (case bs of
        [] \<Rightarrow> None
      | t # rest \<Rightarrow>
          if t \<noteq> tag then None
          else (case der_length rest of
                  None \<Rightarrow> None
                | Some (n, body) \<Rightarrow> if length body < n then None else Some (take n body, drop n body)))"

definition der_integer :: "bytes \<Rightarrow> (nat \<times> bytes) option" where
  "der_integer bs =
     (case der_value 2 bs of
        None \<Rightarrow> None
      | Some (c, rest) \<Rightarrow>
          if c = [] \<or> hd c \<ge> 128 \<or> (length c \<ge> 2 \<and> from_bytes (take 2 c) < 128) then None
          else Some (from_bytes c, rest))"

definition der_signature :: "bytes \<Rightarrow> (nat \<times> nat) option" where
  "der_signature bs =
     (case der_value 48 bs of
        Some (body, []) \<Rightarrow>
          (case der_integer body of
             Some (r, rest) \<Rightarrow> (case der_integer rest of Some (s, []) \<Rightarrow> Some (r, s) | _ \<Rightarrow> None)
           | None \<Rightarrow> None)
      | _ \<Rightarrow> None)"

lemma length_to_bytes [simp]: "length (to_bytes k v) = k"
  by (induction k arbitrary: v) auto

lemma from_to_bytes: "from_bytes (to_bytes k v) = v mod 256 ^ k"
  by (induction k arbitrary: v) (simp_all add: from_bytes_snoc mod_mult2_eq mult.commute)

lemma take_to_bytes: "j \<le> k \<Longrightarrow> take j (to_bytes k v) = to_bytes j (v div 256 ^ (k - j))"
proof (induction k arbitrary: v)
  case (Suc k)
  show ?case
  proof (cases "j = Suc k")
    case False
    with Suc.prems have j: "j \<le> k" by simp
    with Suc.IH have "take j (to_bytes (Suc k) v) = to_bytes j (v div 256 div 256 ^ (k - j))" by simp
    with j show ?thesis by (simp add: div_mult2_eq Suc_diff_le)
  qed simp
qed simp

lemma bit_length_bounds: "v < 2 ^ bit_length v \<and> (v \<noteq> 0 \<longrightarrow> 2 ^ (bit_length v - 1) \<le> v)"
proof (induction v rule: bit_length.induct)
  case (1 n)
  show ?case
  proof (cases "n = 0")
    case True
    then show ?thesis by simp
  next
    case False
    note IH = "1.IH" [OF False]
    have e: "bit_length n = Suc (bit_length (n div 2))" using False by (simp add: bit_length.simps [of n])
    have "2 ^ bit_length (n div 2) \<le> n"
    proof (cases "n div 2 = 0")
      case True
      with False show ?thesis by (simp add: bit_length.simps [of 0])
    next
      case h: False
      then have "bit_length (n div 2) = Suc (bit_length (n div 2) - 1)"
        by (subst (1 2) bit_length.simps) simp
      then have "2 ^ bit_length (n div 2) = 2 * (2::nat) ^ (bit_length (n div 2) - 1)" by (metis power_Suc)
      with IH h show ?thesis by linarith
    qed
    moreover have "n < 2 * 2 ^ bit_length (n div 2)" using IH by linarith
    ultimately show ?thesis by (simp add: e)
  qed
qed

lemma bit_length_le: "v < 2 ^ k \<Longrightarrow> bit_length v \<le> k"
proof (cases "v = 0")
  case False
  assume "v < 2 ^ k"
  with bit_length_bounds [of v] False have "(2::nat) ^ (bit_length v - 1) < 2 ^ k" by linarith
  then have "bit_length v - 1 < k" by simp
  then show ?thesis by linarith
qed (simp add: bit_length.simps)

text \<open>The width \<open>(bit_length + 8) // 8\<close> leaves the top bit clear and wastes no octet.\<close>

lemma der_width:
  fixes v :: nat
  defines "w \<equiv> (bit_length v + 8) div 8"
  shows "w \<ge> 1" "v < 256 ^ w" "v div 256 ^ (w - 1) < 128" "w \<ge> 2 \<longrightarrow> 128 \<le> v div 256 ^ (w - 2)"
proof -
  have b: "8 * w \<le> bit_length v + 8" "bit_length v < 8 * w" by (simp_all add: w_def)
  show w1: "w \<ge> 1" using b by linarith
  have p: "(256::nat) ^ k = 2 ^ (8 * k)" for k by (simp add: power_mult)
  have "v < 2 ^ bit_length v" using bit_length_bounds [of v] by simp
  also have "\<dots> \<le> 2 ^ (8 * w - 1)" using b by (intro power_increasing) auto
  finally have v: "v < 2 ^ (8 * w - 1)" .
  also have "(2::nat) ^ (8 * w - 1) \<le> 2 ^ (8 * w)" by (intro power_increasing) auto
  finally show "v < 256 ^ w" by (simp add: p)
  have "8 * w - 1 = 7 + 8 * (w - 1)" using w1 by linarith
  with v have "v < 2 ^ 7 * 256 ^ (w - 1)" by (simp add: p power_add)
  then show "v div 256 ^ (w - 1) < 128" by (simp add: less_mult_imp_div_less)
  show "w \<ge> 2 \<longrightarrow> 128 \<le> v div 256 ^ (w - 2)"
  proof
    assume w2: "w \<ge> 2"
    then have "bit_length v \<noteq> 0" using b by linarith
    then have "v \<noteq> 0" by (cases "v = 0") (simp_all add: bit_length.simps [of 0])
    with bit_length_bounds [of v] have "2 ^ (bit_length v - 1) \<le> v" by simp
    moreover have "(2::nat) ^ (7 + 8 * (w - 2)) \<le> 2 ^ (bit_length v - 1)"
      using b w2 by (intro power_increasing) auto
    ultimately have "128 * 256 ^ (w - 2) \<le> v" by (simp add: p power_add)
    then show "128 \<le> v div 256 ^ (w - 2)" by (simp add: less_eq_div_iff_mult_less_eq)
  qed
qed

lemma der_length_short: "n < 128 \<Longrightarrow> der_length (length_bytes n @ bs) = Some (n, bs)"
  by (simp add: der_length_def length_bytes_def)

lemma der_length_octet: "128 \<le> n \<Longrightarrow> n < 256 \<Longrightarrow> der_length (length_bytes n @ bs) = Some (n, bs)"
  by (simp add: der_length_def length_bytes_def length_octets.simps [of n] length_octets.simps [of 0] from_bytes_def)

lemma der_length_ok: "n < 256 \<Longrightarrow> der_length (length_bytes n @ bs) = Some (n, bs)"
  using der_length_short der_length_octet by (cases "n < 128") auto

lemma der_value_ok: "length c < 256 \<Longrightarrow> der_value t (t # length_bytes (length c) @ c @ bs) = Some (c, bs)"
  by (simp add: der_value_def der_length_ok)

lemma integer_to_der_bytes_eq:
  "integer_to_der_bytes v = (let c = to_bytes ((bit_length v + 8) div 8) v in 2 # length_bytes (length c) @ c)"
proof -
  let ?w = "(bit_length v + 8) div 8"
  note d = der_width [of v]
  have "take 1 (to_bytes ?w v) = [v div 256 ^ (?w - 1) mod 256]"
    using take_to_bytes [OF d(1), of v] by simp
  with d(3) have "hd (to_bytes ?w v) < 128"
    by (cases "to_bytes ?w v") auto
  with d(1) show ?thesis by (simp add: integer_to_der_bytes_def Let_def)
qed

lemma der_integer_ok:
  assumes "bit_length v < 1024"
  shows "der_integer (integer_to_der_bytes v @ bs) = Some (v, bs)"
proof -
  let ?w = "(bit_length v + 8) div 8"
  note d = der_width [of v]
  have t: "take j (to_bytes ?w v) = to_bytes j (v div 256 ^ (?w - j))" if "j \<le> ?w" for j
    using take_to_bytes [OF that] .
  have ne: "to_bytes ?w v \<noteq> []" using d(1) by (metis length_to_bytes list.size(3) not_one_le_zero)
  have "hd (to_bytes ?w v) < 128"
    using t [OF d(1)] d(3) by (cases "to_bytes ?w v") auto
  moreover have "128 \<le> from_bytes (take 2 (to_bytes ?w v))" if "?w \<ge> 2"
  proof -
    have "v div 256 ^ (?w - 2) < 256 ^ 2"
    proof -
      have "(256::nat) ^ ?w = 256 ^ 2 * 256 ^ (?w - 2)" by (metis le_add_diff_inverse power_add that)
      with d(2) have "v < 256 ^ 2 * 256 ^ (?w - 2)" by metis
      then show ?thesis by (simp add: less_mult_imp_div_less)
    qed
    then have "from_bytes (take 2 (to_bytes ?w v)) = v div 256 ^ (?w - 2)"
      by (simp add: t [OF that] from_to_bytes)
    with d(4) that show ?thesis by simp
  qed
  moreover have "from_bytes (to_bytes ?w v) = v" using d(2) by (simp add: from_to_bytes)
  moreover have "?w < 256" using assms by linarith
  ultimately show ?thesis
    using ne der_value_ok [of "to_bytes ?w v" 2 bs]
    by (auto simp: der_integer_def integer_to_der_bytes_eq Let_def)
qed

lemma length_der_integer: "bit_length v \<le> 8 * n \<Longrightarrow> n < 127 \<Longrightarrow> length (integer_to_der_bytes v) \<le> n + 3"
proof -
  assume "bit_length v \<le> 8 * n" "n < 127"
  then have "(bit_length v + 8) div 8 \<le> n + 1" by linarith
  with \<open>n < 127\<close> show ?thesis by (simp add: integer_to_der_bytes_eq Let_def length_bytes_def)
qed

text \<open>The ASN.1 signature handed to the verifier is strict DER of exactly the two halves of the raw one.\<close>

theorem raw_ecdsa_to_der_strict:
  assumes "octets sig" "n \<le> 66" "length sig = 2 * n"
  shows "\<exists>der. raw_ecdsa_to_der sig n = Inr der
    \<and> der_signature der = Some (from_bytes (take n sig), from_bytes (drop n sig))"
proof -
  let ?r = "from_bytes (take n sig)" and ?s = "from_bytes (drop n sig)"
  let ?body = "integer_to_der_bytes ?r @ integer_to_der_bytes ?s"
  have oct: "octets (take n sig)" "octets (drop n sig)"
    using assms(1) by (auto simp: list_all_iff dest: in_set_takeD in_set_dropD)
  have "?r < 256 ^ n" "?s < 256 ^ n"
    using from_bytes_less [OF oct(1)] from_bytes_less [OF oct(2)] assms(3) by auto
  then have b: "bit_length ?r \<le> 8 * n" "bit_length ?s \<le> 8 * n"
    by (auto intro!: bit_length_le simp: power_mult)
  have "length ?body \<le> (n + 3) + (n + 3)"
    using length_der_integer [OF b(1)] length_der_integer [OF b(2)] assms(2) by simp
  then have "length ?body < 256" using assms(2) by linarith
  then have "der_value 48 (48 # length_bytes (length ?body) @ ?body) = Some (?body, [])"
    using der_value_ok [of ?body 48 "[]"] by simp
  moreover have "der_integer ?body = Some (?r, integer_to_der_bytes ?s)"
    using der_integer_ok [of ?r] b(1) assms(2) by simp
  moreover have "der_integer (integer_to_der_bytes ?s) = Some (?s, [])"
    using der_integer_ok [of ?s "[]"] b(2) assms(2) by simp
  ultimately have "der_signature (48 # length_bytes (length ?body) @ ?body) = Some (?r, ?s)"
    by (simp add: der_signature_def)
  with assms(3) show ?thesis by (simp add: raw_ecdsa_to_der_def Let_def)
qed

theorem raw_ecdsa_to_der_strict_witness:
  "\<exists>der. raw_ecdsa_to_der [200, 5] 1 = Inr der \<and> der_signature der = Some (200, 5)"
  using raw_ecdsa_to_der_strict [of "[200, 5]" 1] by (simp add: from_bytes_def)

section \<open>What a verified JWS says\<close>

text \<open>
  The specification: the three members, nothing outside the protected header, and a
  signature over the transmitted text with the one algorithm family of the key. For an
  elliptic curve the raw signature has the width of the curve and goes to the primitive as
  DER.
\<close>

definition ec_alg :: "nat \<Rightarrow> nat \<Rightarrow> string \<Rightarrow> bool" where
  "ec_alg curve h alg \<longleftrightarrow> (curve, h) \<in> {(256, 256), (384, 384), (521, 512)} \<and> alg = ''ES'' @ show_nat h"

definition signed_with :: "crypto \<Rightarrow> public_numbers \<Rightarrow> string \<Rightarrow> bytes \<Rightarrow> bytes \<Rightarrow> bool" where
  "signed_with cr key alg message sig \<longleftrightarrow>
     (case key of
        RSAPublicNumbers e n \<Rightarrow>
          (\<exists>h \<in> {256, 384, 512}. alg = ''RS'' @ show_nat h \<and> c_verify cr key h message sig)
      | ECPublicNumbers curve x y \<Rightarrow>
          (\<exists>h der. ec_alg curve h alg
             \<and> raw_ecdsa_to_der sig (coordinate_length_for_curve curve) = Inr der \<and> c_verify cr key h message der))"

definition jws_verified :: "crypto \<Rightarrow> details \<Rightarrow> public_numbers \<Rightarrow> bytes \<Rightarrow> bool" where
  "jws_verified cr jws key payload \<longleftrightarrow>
     map_of jws ''header'' = None \<and> map_of jws ''signatures'' = None
     \<and> (\<exists>p q s pb sig header alg.
          map_of jws ''protected'' = Some (JStr p) \<and> map_of jws ''payload'' = Some (JStr q)
          \<and> map_of jws ''signature'' = Some (JStr s)
          \<and> base64url_decode p = Inr pb \<and> base64url_decode q = Inr payload \<and> base64url_decode s = Inr sig
          \<and> c_loads cr pb = Inr (JObj header) \<and> map_of header ''alg'' = Some (JStr alg)
          \<and> signed_with cr key alg (signing_input p q) sig)"

lemma show_hash: "show_nat 256 = ''256''" "show_nat 384 = ''384''" "show_nat 512 = ''512''"
  by code_simp+

lemma suffix_lists: "suffix t s \<longleftrightarrow> length t \<le> length s \<and> drop (length s - length t) s = t"
  by (auto simp: suffix_def) (metis append_take_drop_id)

lemma hash_for_algs:
  "hash_for_alg ''RS256'' = Some 256" "hash_for_alg ''RS384'' = Some 384" "hash_for_alg ''RS512'' = Some 512"
  "hash_for_alg ''ES256'' = Some 256" "hash_for_alg ''ES384'' = Some 384" "hash_for_alg ''ES512'' = Some 512"
  "hash_for_alg ''HS256'' = Some 256" "hash_for_alg ''HS384'' = Some 384" "hash_for_alg ''HS512'' = Some 512"
  by (simp_all add: hash_for_alg_def ends_with_def suffix_lists)

lemma check_signature_rsa:
  "check_signature cr (RSAPublicNumbers e n) alg m sig = Inr () \<longleftrightarrow> signed_with cr (RSAPublicNumbers e n) alg m sig"
proof -
  consider "alg = ''RS256''" | "alg = ''RS384''" | "alg = ''RS512''" | "alg \<notin> {''RS256'', ''RS384'', ''RS512''}" by blast
  then show ?thesis
    by cases (simp_all add: check_signature_def signed_with_def show_hash hash_for_algs Let_def)
qed

lemma check_signature_ec:
  "check_signature cr (ECPublicNumbers c x y) alg m sig = Inr () \<longleftrightarrow> signed_with cr (ECPublicNumbers c x y) alg m sig"
proof -
  have e: "expected_ec_alg c = Some alg \<longleftrightarrow> (\<exists>h. ec_alg c h alg)"
    by (auto simp: expected_ec_alg_def ec_alg_def show_hash)
  show ?thesis
  proof (cases "expected_ec_alg c = Some alg")
    case True
    then obtain h where h: "ec_alg c h alg" using e by blast
    then have "hash_for_alg alg = Some h" "alg \<in> {''ES256'', ''ES384'', ''ES512''}" "alg \<notin> {''RS256'', ''RS384'', ''RS512''}"
      by (auto simp: ec_alg_def show_hash hash_for_algs)
    with True have "check_signature cr (ECPublicNumbers c x y) alg m sig = Inr () \<longleftrightarrow>
        (\<exists>der. raw_ecdsa_to_der sig (coordinate_length_for_curve c) = Inr der
           \<and> c_verify cr (ECPublicNumbers c x y) h m der)"
      by (simp add: check_signature_def Let_def del: insert_iff) blast
    moreover have "ec_alg c h' alg \<longleftrightarrow> h' = h" for h' using h by (auto simp: ec_alg_def)
    ultimately show ?thesis by (simp add: signed_with_def)
  next
    case False
    then have "check_signature cr (ECPublicNumbers c x y) alg m sig \<noteq> Inr ()"
      by (simp add: check_signature_def Let_def del: insert_iff)
    with False e show ?thesis by (simp add: signed_with_def)
  qed
qed

lemma check_signature_iff: "check_signature cr key alg m sig = Inr () \<longleftrightarrow> signed_with cr key alg m sig"
  using check_signature_rsa check_signature_ec by (cases key) auto

lemma jws_lift_Inr [simp]: "jws_lift r = Inr a \<longleftrightarrow> r = Inr a"
  by (simp add: jws_lift_def split: sum.split)

lemma jws_parts_Inr: "jws_parts jws = Inr (p, q, s) \<longleftrightarrow> map_of jws ''protected'' = Some (JStr p)
    \<and> map_of jws ''payload'' = Some (JStr q) \<and> map_of jws ''signature'' = Some (JStr s)"
  by (auto simp: jws_parts_def split: option.split json.split)

lemma jws_decoded_Inr [simp]: "jws_decoded t = Inr b \<longleftrightarrow> base64url_decode t = Inr b"
  by (simp add: jws_decoded_def split: sum.split)

lemma flattened_Inr [simp]: "require_flattened_without_unprotected_header jws = Inr u \<longleftrightarrow>
    map_of jws ''header'' = None \<and> map_of jws ''signatures'' = None"
  by (auto simp: require_flattened_without_unprotected_header_def)

lemma loads_obj_case:
  "(case r of Inl DecodeError \<Rightarrow> Inl a | Inl LimitError \<Rightarrow> Inl b | Inr (JObj h) \<Rightarrow> f h | Inr _ \<Rightarrow> Inl c) = Inr y
     \<longleftrightarrow> (\<exists>h. r = Inr (JObj h) \<and> f h = Inr y)"
  by (auto split: sum.split loads_error.split json.split)

lemma alg_str_case: "(case v of Some (JStr s) \<Rightarrow> f s | _ \<Rightarrow> Inl c) = Inr y \<longleftrightarrow> (\<exists>s. v = Some (JStr s) \<and> f s = Inr y)"
  by (auto split: option.split json.split)

text \<open>
  C35. A JWS is accepted, with its decoded payload, exactly when it is signed by the key with an
  algorithm of the key's own family, curve and digest; no HMAC or unsigned algorithm, no
  other curve's algorithm and no unprotected header is ever accepted.
\<close>

theorem verify_flattened_jws_iff: "verify_flattened_jws cr jws key = Inr payload \<longleftrightarrow> jws_verified cr jws key payload"
  unfolding verify_flattened_jws_def jws_verified_def
  by (auto simp: loads_obj_case alg_str_case jws_parts_Inr check_signature_iff)

text \<open>
  An external account binding is accepted, with its key identifier, only when its MAC under
  the given key covers the transmitted header and payload, its payload is the account key,
  and its \<open>url\<close> is the expected one.
\<close>

definition eab_verified :: "crypto \<Rightarrow> details \<Rightarrow> details \<Rightarrow> bytes \<Rightarrow> string \<Rightarrow> json \<Rightarrow> bool" where
  "eab_verified cr eab_jws account_jwk mac_key url kid \<longleftrightarrow>
     map_of eab_jws ''header'' = None \<and> map_of eab_jws ''signatures'' = None
     \<and> (\<exists>p q s pb qb header h bound_jwk.
          map_of eab_jws ''protected'' = Some (JStr p) \<and> map_of eab_jws ''payload'' = Some (JStr q)
          \<and> map_of eab_jws ''signature'' = Some (JStr s)
          \<and> base64url_decode p = Inr pb \<and> base64url_decode q = Inr qb
          \<and> c_loads cr pb = Inr (JObj header) \<and> c_loads cr qb = Inr (JObj bound_jwk)
          \<and> map_of header ''kid'' = Some kid \<and> truthy kid \<and> map_of header ''url'' = Some (JStr url)
          \<and> canonical_members bound_jwk = canonical_members account_jwk
          \<and> h \<in> {256, 384, 512} \<and> map_of header ''alg'' = Some (JStr (''HS'' @ show_nat h))
          \<and> base64url_decode s = Inr (c_hmac cr h mac_key (signing_input p q)))"

lemma obj_case: "(case r of Inr (JObj h) \<Rightarrow> f h | _ \<Rightarrow> Inl c) = Inr y \<longleftrightarrow> (\<exists>h. r = Inr (JObj h) \<and> f h = Inr y)"
  by (auto split: sum.split json.split)

lemma kid_case: "(case v of None \<Rightarrow> Inl c | Some k \<Rightarrow> f k) = Inr y \<longleftrightarrow> (\<exists>k. v = Some k \<and> f k = Inr y)"
  by (auto split: option.split)

lemma jstr_case: "(case v of JStr s \<Rightarrow> f s | _ \<Rightarrow> Inl c) = Inr y \<longleftrightarrow> (\<exists>s. v = JStr s \<and> f s = Inr y)"
  by (auto split: json.split)

lemma loaded_obj_Inr [simp]: "loaded_obj r = Inr d \<longleftrightarrow> r = Inr (JObj d)"
  by (auto simp: loaded_obj_def split: sum.split loads_error.split json.split)

lemma verify_hmac_iff:
  "alg \<in> {''HS256'', ''HS384'', ''HS512''} \<and> verify_hmac cr p q sig key alg
     \<longleftrightarrow> (\<exists>h \<in> {256, 384, 512}. alg = ''HS'' @ show_nat h \<and> c_hmac cr h key (signing_input p q) = sig)"
proof -
  consider "alg = ''HS256''" | "alg = ''HS384''" | "alg = ''HS512''" | "alg \<notin> {''HS256'', ''HS384'', ''HS512''}" by blast
  then show ?thesis by cases (simp_all add: verify_hmac_def hash_for_algs show_hash)
qed

lemma check_Inr: "(if b then Inl e else r) = Inr y \<longleftrightarrow> \<not> b \<and> r = Inr y"
  by simp

text \<open>
  The external account binding is accepted exactly when it is a flattened JWS over the
  account's own key, addressed to the newAccount URL, under a named credential, with an HMAC
  of the MAC key over its own header and payload.
\<close>

theorem verify_eab_jws_iff:
  "verify_eab_jws cr eab_jws account_jwk mac_key (Some url) = Inr kid \<longleftrightarrow> eab_verified cr eab_jws account_jwk mac_key url kid"
proof -
  have "verify_eab_jws cr eab_jws account_jwk mac_key (Some url) = Inr kid \<longleftrightarrow>
      map_of eab_jws ''header'' = None \<and> map_of eab_jws ''signatures'' = None
      \<and> (\<exists>p q s pb qb header bound_jwk alg sig.
           map_of eab_jws ''protected'' = Some (JStr p) \<and> map_of eab_jws ''payload'' = Some (JStr q)
           \<and> map_of eab_jws ''signature'' = Some (JStr s)
           \<and> base64url_decode p = Inr pb \<and> base64url_decode q = Inr qb
           \<and> c_loads cr pb = Inr (JObj header) \<and> c_loads cr qb = Inr (JObj bound_jwk)
           \<and> map_of header ''kid'' = Some kid \<and> truthy kid \<and> map_of header ''url'' = Some (JStr url)
           \<and> canonical_members bound_jwk = canonical_members account_jwk
           \<and> map_of header ''alg'' = Some (JStr alg) \<and> base64url_decode s = Inr sig
           \<and> (alg \<in> {''HS256'', ''HS384'', ''HS512''} \<and> verify_hmac cr p q sig mac_key alg))"
    unfolding verify_eab_jws_def
    by (auto simp: obj_case kid_case jstr_case jws_parts_Inr check_Inr simp del: insert_iff)
  also have "\<dots> \<longleftrightarrow> eab_verified cr eab_jws account_jwk mac_key url kid"
    unfolding verify_hmac_iff eab_verified_def by blast
  finally show ?thesis .
qed

end
