(* ===== verification/HttpRequest.thy ===== *)
theory HttpRequest
  imports AppState Jws
begin

text \<open>
  What the server reads of an HTTP request before it trusts anything: the bounded body of
  \<open>src/src/acme_adcs_ra/http_body.py\<close>, and the \<open>Content-Type\<close> check and the URL comparison of
  \<open>src/src/acme_adcs_ra/server_jws.py\<close> with the parts of \<open>re\<close> and \<open>urllib.parse\<close> they use.

  A body is the list of its chunks with the time each arrives, in microseconds after the
  read starts, and the time its end arrives, or \<open>None\<close> when the peer stalls.
\<close>

section \<open>Requests\<close>

record request =
  rq_content_types :: "string list"
  rq_content_length :: "string option"
  rq_chunks :: "(int \<times> bytes) list"
  rq_end :: "int option"

section \<open>Bounded bodies\<close>

definition DEFAULT_BODY_TOTAL_TIMEOUT :: int where "DEFAULT_BODY_TOTAL_TIMEOUT = 30000000"

text \<open>The loop of \<open>read_body_limited\<close>; \<open>received\<close> counts the octets in \<open>chunks\<close>.\<close>

fun read_chunks :: "int \<Rightarrow> nat \<Rightarrow> int \<Rightarrow> nat \<Rightarrow> bytes \<Rightarrow> (int \<times> bytes) list \<Rightarrow> int option \<Rightarrow> AcmeError + bytes" where
  "read_chunks deadline max_bytes now received chunks [] fin =
     (if deadline - now \<le> 0 then Inl malformed
      else (case fin of
              None \<Rightarrow> Inl malformed
            | Some t \<Rightarrow> if deadline \<le> t then Inl malformed else Inr chunks))"
| "read_chunks deadline max_bytes now received chunks ((t, chunk) # rest) fin =
     (if deadline - now \<le> 0 then Inl malformed
      else if deadline \<le> t then Inl malformed
      else if received + length chunk > max_bytes then Inl malformed
      else read_chunks deadline max_bytes (max now t) (received + length chunk) (chunks @ chunk) rest fin)"

definition read_body_limited :: "nat \<Rightarrow> request \<Rightarrow> AcmeError + bytes" where
  "read_body_limited max_bytes rq =
     (if max_bytes < 1 then Inl malformed
      else
        let loop = read_chunks DEFAULT_BODY_TOTAL_TIMEOUT max_bytes 0 0 [] (rq_chunks rq) (rq_end rq) in
        (case rq_content_length rq of
           None \<Rightarrow> loop
         | Some text \<Rightarrow>
             (case py_int text of
                None \<Rightarrow> Inl malformed
              | Some declared_length \<Rightarrow>
                  if declared_length < 0 \<or> declared_length > int max_bytes then Inl malformed else loop)))"

lemma read_chunks_ok:
  assumes "now < deadline"
  shows "read_chunks deadline limit now received acc chunks fin = Inr body \<longleftrightarrow>
     body = acc @ concat (map snd chunks) \<and> list_all (\<lambda>c. fst c < deadline) chunks
     \<and> (\<exists>t < deadline. fin = Some t)
     \<and> (chunks = [] \<or> received + length (concat (map snd chunks)) \<le> limit)"
  using assms
proof (induction deadline limit now received acc chunks fin rule: read_chunks.induct)
  case (1 deadline limit now received acc fin)
  then show ?case by (auto split: option.splits)
next
  case (2 deadline limit now received acc t chunk rest fin)
  then show ?case by (auto simp: not_le max_def split: if_splits)
qed

text \<open>
  The body is returned exactly when every chunk and the end arrive before the deadline,
  all of it fits the limit and a declared length, if any, is a number within the limit;
  it is then the concatenation of the chunks.
\<close>

theorem read_body_limited_iff:
  "read_body_limited limit rq = Inr body \<longleftrightarrow>
     limit \<ge> 1 \<and> body = concat (map snd (rq_chunks rq)) \<and> length body \<le> limit
     \<and> list_all (\<lambda>c. fst c < DEFAULT_BODY_TOTAL_TIMEOUT) (rq_chunks rq)
     \<and> (case rq_end rq of None \<Rightarrow> False | Some t \<Rightarrow> t < DEFAULT_BODY_TOTAL_TIMEOUT)
     \<and> (case rq_content_length rq of None \<Rightarrow> True
          | Some text \<Rightarrow> (case py_int text of None \<Rightarrow> False | Some n \<Rightarrow> 0 \<le> n \<and> n \<le> int limit))"
proof -
  have "(0::int) < DEFAULT_BODY_TOTAL_TIMEOUT" by (simp add: DEFAULT_BODY_TOTAL_TIMEOUT_def)
  note loop = read_chunks_ok [OF this, of limit 0 "[]" "rq_chunks rq" "rq_end rq" body]
  then show ?thesis
    by (cases "rq_chunks rq") (auto simp: read_body_limited_def Let_def split: option.splits)
qed

section \<open>Media types\<close>

definition JOSE_JSON :: string where "JOSE_JSON = ''application/jose+json''"
definition MAX_CONTENT_TYPE_CHARS :: nat where "MAX_CONTENT_TYPE_CHARS = 256"

definition is_ows :: "char \<Rightarrow> bool" where
  "is_ows c \<longleftrightarrow> c = CHR '' '' \<or> c = CHR 0x09"

definition is_tchar :: "char \<Rightarrow> bool" where
  "is_tchar c =
     (let n = (of_char c :: nat) in
      (48 \<le> n \<and> n \<le> 57) \<or> (65 \<le> n \<and> n \<le> 90) \<or> (97 \<le> n \<and> n \<le> 122)
      \<or> n \<in> {33, 35, 36, 37, 38, 39, 42, 43, 45, 46, 94, 95, 96, 124, 126})"

definition is_qdtext :: "char \<Rightarrow> bool" where
  "is_qdtext c =
     (let n = (of_char c :: nat) in
      n = 9 \<or> n = 32 \<or> n = 33 \<or> (35 \<le> n \<and> n \<le> 91) \<or> (93 \<le> n \<and> n \<le> 126) \<or> (128 \<le> n \<and> n \<le> 255))"

definition is_quotable :: "char \<Rightarrow> bool" where
  "is_quotable c =
     (let n = (of_char c :: nat) in n = 9 \<or> n = 32 \<or> (33 \<le> n \<and> n \<le> 126) \<or> (128 \<le> n \<and> n \<le> 255))"

text \<open>
  The pattern \<open>_MEDIA_TYPE\<close> under \<open>re.fullmatch\<close>. White space is matched possessively and
  no token character starts what may follow a token, so the match is this left-to-right
  scan: \<open>quoted_rest\<close> is what follows a quoted string whose opening quote has been read, and
  \<open>params_match\<close> the repeated parameter group and the trailing white space.
\<close>

fun quoted_rest :: "string \<Rightarrow> string option" where
  "quoted_rest [] = None"
| "quoted_rest (c # cs) =
     (if c = CHR 0x22 then Some cs
      else if c = CHR 0x5C then
        (case cs of [] \<Rightarrow> None | d # ds \<Rightarrow> if is_quotable d then quoted_rest ds else None)
      else if is_qdtext c then quoted_rest cs else None)"

definition value_rest :: "string \<Rightarrow> string option" where
  "value_rest v =
     (case v of
        [] \<Rightarrow> None
      | c # cs \<Rightarrow> if c = CHR 0x22 then quoted_rest cs else if is_tchar c then Some (dropWhile is_tchar cs) else None)"

lemma quoted_rest_shorter: "quoted_rest s = Some r \<Longrightarrow> length r < length s"
  by (induction s arbitrary: r rule: quoted_rest.induct) (force split: if_splits list.splits)+

lemma value_rest_shorter: "value_rest s = Some r \<Longrightarrow> length r < length s"
  by (auto simp: value_rest_def le_imp_less_Suc length_dropWhile_le dest!: quoted_rest_shorter split: list.splits if_splits)

lemma drop_shorter: "dropWhile p s = c # cs \<Longrightarrow> length cs < length s"
  using length_dropWhile_le [of p s] by simp

function params_match :: "string \<Rightarrow> bool" where
  "params_match s =
     (case dropWhile is_ows s of
        [] \<Rightarrow> True
      | c # cs \<Rightarrow>
          if c \<noteq> CHR '';'' then False
          else (case dropWhile is_ows cs of
                  [] \<Rightarrow> True
                | d # ds \<Rightarrow>
                    if is_tchar d then
                      (case dropWhile is_tchar ds of
                         [] \<Rightarrow> False
                       | e # v \<Rightarrow> if e \<noteq> CHR ''='' then False
                                  else (case value_rest v of None \<Rightarrow> False | Some r \<Rightarrow> params_match r))
                    else params_match (d # ds)))"
  by auto
termination
proof (relation "measure length", goal_cases)
  case 1
  then show ?case by simp
next
  case (2 s c cs d ds e v r)
  then show ?case using drop_shorter [of is_ows s] drop_shorter [of is_ows cs] drop_shorter [of is_tchar ds] value_rest_shorter [of v r]
    by auto
next
  case (3 s c cs d ds)
  then show ?case using drop_shorter [of is_ows s] drop_shorter [of is_ows cs] by auto
qed

declare params_match.simps [simp del]

definition media_type_match :: "string \<Rightarrow> string option" where
  "media_type_match raw =
     (let s = dropWhile is_ows raw; t = takeWhile is_tchar s in
      case dropWhile is_tchar s of
        [] \<Rightarrow> None
      | c # cs \<Rightarrow>
          let sub = takeWhile is_tchar cs in
          if t = [] \<or> c \<noteq> CHR ''/'' \<or> sub = [] \<or> \<not> params_match (dropWhile is_tchar cs) then None
          else Some (t @ ''/'' @ sub))"

definition require_jose_json :: "request \<Rightarrow> AcmeError + unit" where
  "require_jose_json rq =
     (if length (rq_content_types rq) > 1 then Inl unsupported_media_type
      else
        let raw = (case rq_content_types rq of [] \<Rightarrow> [] | f # _ \<Rightarrow> f);
            m = (if length raw \<le> MAX_CONTENT_TYPE_CHARS then media_type_match raw else None)
        in case m of
             None \<Rightarrow> Inl unsupported_media_type
           | Some t \<Rightarrow> if lower t \<noteq> JOSE_JSON then Inl unsupported_media_type else Inr ())"

section \<open>The scan is the grammar\<close>

text \<open>
  The grammar of RFC 9110 as the pattern writes it, read as a language: white space may be
  split between neighbouring repetitions in any way.
\<close>

inductive quoted_lang :: "string \<Rightarrow> bool" where
  q_end: "quoted_lang [CHR 0x22]"
| q_text: "is_qdtext c \<Longrightarrow> quoted_lang q \<Longrightarrow> quoted_lang (c # q)"
| q_pair: "is_quotable d \<Longrightarrow> quoted_lang q \<Longrightarrow> quoted_lang (CHR 0x5C # d # q)"

definition token_lang :: "string \<Rightarrow> bool" where
  "token_lang t \<longleftrightarrow> t \<noteq> [] \<and> list_all is_tchar t"

inductive value_lang :: "string \<Rightarrow> bool" where
  v_token: "token_lang t \<Longrightarrow> value_lang t"
| v_quoted: "quoted_lang q \<Longrightarrow> value_lang (CHR 0x22 # q)"

inductive params_lang :: "string \<Rightarrow> bool" where
  p_end: "list_all is_ows w \<Longrightarrow> params_lang w"
| p_empty: "list_all is_ows a \<Longrightarrow> list_all is_ows b \<Longrightarrow> params_lang s \<Longrightarrow> params_lang (a @ CHR '';'' # b @ s)"
| p_param: "list_all is_ows a \<Longrightarrow> list_all is_ows b \<Longrightarrow> token_lang n \<Longrightarrow> value_lang v \<Longrightarrow> params_lang s
    \<Longrightarrow> params_lang (a @ CHR '';'' # b @ n @ CHR ''='' # v @ s)"

inductive media_type_lang :: "string \<Rightarrow> string \<Rightarrow> bool" where
  "list_all is_ows a \<Longrightarrow> token_lang t \<Longrightarrow> token_lang u \<Longrightarrow> params_lang s
    \<Longrightarrow> media_type_lang (t @ CHR ''/'' # u) (a @ t @ CHR ''/'' # u @ s)"

lemma tchar_facts [simp]:
  "\<not> is_tchar CHR '';''" "\<not> is_tchar CHR ''=''" "\<not> is_tchar CHR ''/''" "\<not> is_tchar CHR 0x22" "\<not> is_ows CHR '';''"
  by (simp_all add: is_tchar_def is_ows_def)

lemma ows_not_tchar: "is_ows c \<Longrightarrow> \<not> is_tchar c"
  by (auto simp: is_ows_def is_tchar_def)

lemma tchar_not_ows: "is_tchar c \<Longrightarrow> \<not> is_ows c"
  using ows_not_tchar by blast

lemma qdtext_facts [simp]: "\<not> is_qdtext CHR 0x22" "\<not> is_qdtext CHR 0x5C"
  by (simp_all add: is_qdtext_def)

lemma split_span: "s = takeWhile p s @ dropWhile p s \<and> list_all p (takeWhile p s)"
  by (auto simp: list_all_iff dest: set_takeWhileD)

lemma dropWhile_all_append: "list_all p a \<Longrightarrow> dropWhile p (a @ s) = dropWhile p s"
  by (simp add: list_all_iff)

lemma quoted_rest_sound: "quoted_rest s = Some r \<Longrightarrow> \<exists>q. quoted_lang q \<and> s = q @ r"
proof (induction s arbitrary: r rule: quoted_rest.induct)
  case (2 c cs)
  show ?case
  proof (cases "c = CHR 0x22")
    case True
    with 2 show ?thesis using q_end by (intro exI [of _ "[CHR 0x22]"]) simp
  next
    case nq: False
    show ?thesis
    proof (cases "c = CHR 0x5C")
      case True
      with nq 2(3) obtain d ds where d: "cs = d # ds" "is_quotable d" "quoted_rest ds = Some r"
        by (auto split: list.splits if_splits)
      with 2(1) nq True obtain q where "quoted_lang q" "ds = q @ r" by blast
      with d True show ?thesis using q_pair by (intro exI [of _ "CHR 0x5C # d # q"]) simp
    next
      case False
      with nq 2(3) have d: "is_qdtext c" "quoted_rest cs = Some r" by (auto split: if_splits)
      with 2(2) nq False obtain q where "quoted_lang q" "cs = q @ r" by blast
      with d show ?thesis using q_text by (intro exI [of _ "c # q"]) simp
    qed
  qed
qed simp

lemma quoted_rest_complete: "quoted_lang q \<Longrightarrow> quoted_rest (q @ r) = Some r"
  by (induction rule: quoted_lang.induct) auto

lemma value_rest_sound:
  assumes "value_rest v = Some r"
  shows "\<exists>w. value_lang w \<and> v = w @ r"
proof -
  obtain c cs where v: "v = c # cs" using assms by (auto simp: value_rest_def split: list.splits)
  show ?thesis
  proof (cases "c = CHR 0x22")
    case True
    with assms v obtain q where "quoted_lang q" "cs = q @ r" by (auto simp: value_rest_def dest: quoted_rest_sound)
    with v True show ?thesis using v_quoted by (intro exI [of _ "CHR 0x22 # q"]) simp
  next
    case False
    with assms v have c: "is_tchar c" "r = dropWhile is_tchar cs" by (auto simp: value_rest_def split: if_splits)
    with v show ?thesis using v_token [of "c # takeWhile is_tchar cs"] split_span [of cs is_tchar]
      by (intro exI [of _ "c # takeWhile is_tchar cs"]) (simp add: token_lang_def)
  qed
qed

text \<open>What may follow a token: nothing that could lengthen it.\<close>

lemma params_head: "params_lang s \<Longrightarrow> s = [] \<or> \<not> is_tchar (hd s)"
proof (induction rule: params_lang.cases)
  case (p_end w)
  then show ?case by (cases w) (auto simp: ows_not_tchar)
next
  case (p_empty a b s)
  then show ?case by (cases a) (auto simp: ows_not_tchar)
next
  case (p_param a b n v s)
  then show ?case by (cases a) (auto simp: ows_not_tchar)
qed

lemma params_semicolon: "params_lang s \<Longrightarrow> dropWhile is_ows s = d # ds \<Longrightarrow> d = CHR '';''"
proof (erule params_lang.cases)
  fix w
  assume "dropWhile is_ows s = d # ds" "s = w" "list_all is_ows w"
  then show ?thesis by (metis dropWhile_eq_Nil_conv list.distinct(1) list_all_iff)
qed (auto simp: dropWhile_all_append)

lemma token_span:
  assumes "list_all is_tchar t" "s = [] \<or> \<not> is_tchar (hd s)"
  shows "takeWhile is_tchar (t @ s) = t" "dropWhile is_tchar (t @ s) = s"
  using assms by (cases s; simp add: list_all_iff)+

lemma value_rest_complete: "value_lang v \<Longrightarrow> params_lang s \<Longrightarrow> value_rest (v @ s) = Some s"
proof (induction rule: value_lang.cases)
  case (v_token t)
  then obtain c cs where "t = c # cs" "is_tchar c" "list_all is_tchar cs" by (cases t) (auto simp: token_lang_def)
  with v_token show ?case using token_span [of cs s] params_head by (auto simp: value_rest_def)
next
  case (v_quoted q)
  then show ?case by (simp add: value_rest_def quoted_rest_complete)
qed

lemma params_match_sound: "params_match s \<Longrightarrow> params_lang s"
proof (induction s rule: params_match.induct)
  case (1 s)
  let ?a = "takeWhile is_ows s"
  note P = 1(3) [unfolded params_match.simps [of s]]
  have a: "list_all is_ows ?a" "s = ?a @ dropWhile is_ows s" using split_span [of s is_ows] by auto
  show ?case
  proof (cases "dropWhile is_ows s")
    case Nil
    with a show ?thesis using p_end [of s] by simp
  next
    case (Cons c cs)
    with P have c: "c = CHR '';''" by (auto split: if_splits)
    let ?b = "takeWhile is_ows cs"
    have b: "list_all is_ows ?b" "cs = ?b @ dropWhile is_ows cs" using split_span [of cs is_ows] by auto
    show ?thesis
    proof (cases "dropWhile is_ows cs")
      case Nil
      with b have "list_all is_ows cs" by simp
      then show ?thesis using p_empty [OF a(1), of cs "[]"] p_end [of "[]"] a(2) Cons c by simp
    next
      case (Cons d ds)
      note ds = this
      show ?thesis
      proof (cases "is_tchar d")
        case False
        with P c ds \<open>dropWhile is_ows s = c # cs\<close> have "params_match (d # ds)" by simp
        with 1(2) c ds False \<open>dropWhile is_ows s = c # cs\<close> have "params_lang (d # ds)" by simp
        then show ?thesis using p_empty [OF a(1) b(1)] a(2) b(2) c ds \<open>dropWhile is_ows s = c # cs\<close> by metis
      next
        case True
        let ?n = "takeWhile is_tchar ds"
        from True P c ds \<open>dropWhile is_ows s = c # cs\<close> obtain v r where
          v: "dropWhile is_tchar ds = CHR ''='' # v" and r: "value_rest v = Some r" "params_match r"
          by (auto split: list.splits if_splits option.splits)
        with 1(1) c ds True \<open>dropWhile is_ows s = c # cs\<close> have r': "params_lang r" by simp
        obtain w where w: "value_lang w" "v = w @ r" using value_rest_sound [OF r(1)] by blast
        have n: "token_lang (d # ?n)" "d # ds = (d # ?n) @ CHR ''='' # w @ r"
          using True split_span [of ds is_tchar] v w by (auto simp: token_lang_def)
        have "s = ?a @ CHR '';'' # ?b @ (d # ?n) @ CHR ''='' # w @ r"
          using a(2) b(2) c ds n(2) \<open>dropWhile is_ows s = c # cs\<close> by metis
        then show ?thesis using p_param [OF a(1) b(1) n(1) w(1) r'] by metis
      qed
    qed
  qed
qed

lemma params_match_skip: "params_match (dropWhile is_ows s) = params_match s"
  by (subst (1 2) params_match.simps) simp

lemma params_match_complete: "params_lang s \<Longrightarrow> params_match s"
proof (induction rule: params_lang.induct)
  case (p_end w)
  have "dropWhile is_ows w = []" using p_end by (simp add: list_all_iff)
  then show ?case unfolding params_match.simps [of w] by (simp only: list.case)
next
  case (p_empty a b s)
  have "params_match (dropWhile is_ows (b @ s))"
    using p_empty by (simp add: dropWhile_all_append params_match_skip)
  then show ?case
    using p_empty by (subst params_match.simps) (auto simp: dropWhile_all_append split: list.split dest: params_semicolon)
next
  case (p_param a b n v s)
  then obtain d ds where n: "n = d # ds" "is_tchar d" "list_all is_tchar ds" by (cases n) (auto simp: token_lang_def)
  have "dropWhile is_tchar (ds @ CHR ''='' # v @ s) = CHR ''='' # v @ s" using token_span(2) n(3) by simp
  with p_param n value_rest_complete show ?case
    by (subst params_match.simps) (simp add: dropWhile_all_append tchar_not_ows)
qed

lemma media_type_match_iff: "media_type_match raw = Some t \<longleftrightarrow> media_type_lang t raw"
proof
  assume m: "media_type_match raw = Some t"
  let ?s = "dropWhile is_ows raw"
  obtain c cs where c: "dropWhile is_tchar ?s = c # cs" using m by (auto simp: media_type_match_def Let_def split: list.splits)
  with m have p: "takeWhile is_tchar ?s \<noteq> []" "c = CHR ''/''" "takeWhile is_tchar cs \<noteq> []"
    "params_match (dropWhile is_tchar cs)" "t = takeWhile is_tchar ?s @ ''/'' @ takeWhile is_tchar cs"
    by (auto simp: media_type_match_def Let_def split: if_splits)
  have "raw = takeWhile is_ows raw @ takeWhile is_tchar ?s @ CHR ''/'' # takeWhile is_tchar cs @ dropWhile is_tchar cs"
    using c p(2) by (metis append_Cons takeWhile_dropWhile_id)
  then show "media_type_lang t raw"
    using media_type_lang.intros [of "takeWhile is_ows raw" "takeWhile is_tchar ?s" "takeWhile is_tchar cs"
        "dropWhile is_tchar cs"] p params_match_sound split_span
    by (auto simp: token_lang_def)
next
  assume "media_type_lang t raw"
  then show "media_type_match raw = Some t"
  proof cases
    case (1 a ty u s)
    have "dropWhile is_ows raw = ty @ CHR ''/'' # u @ s"
      using 1 by (cases ty) (auto simp: dropWhile_all_append token_lang_def tchar_not_ows)
    moreover have "params_match s" using 1 params_match_complete by blast
    ultimately show ?thesis
      using 1 token_span [of ty "CHR ''/'' # u @ s"] token_span [of u s] params_head [of s]
      by (simp add: media_type_match_def Let_def token_lang_def)
  qed
qed

text \<open>
  A request passes the media-type gate exactly when it carries one \<open>Content-Type\<close> field of at
  most 256 characters that is one media type of the grammar, and that type is
  \<open>application/jose+json\<close> up to case.
\<close>

theorem require_jose_json_iff:
  "require_jose_json rq = Inr () \<longleftrightarrow>
     (\<exists>raw t. rq_content_types rq = [raw] \<and> length raw \<le> 256 \<and> media_type_lang t raw \<and> lower t = ''application/jose+json'')"
proof -
  have "\<not> media_type_lang t []" for t by (auto elim: media_type_lang.cases)
  then have none: "media_type_match [] = None" using media_type_match_iff by (metis not_None_eq)
  show ?thesis
  proof (cases "rq_content_types rq")
    case Nil
    then show ?thesis by (simp add: require_jose_json_def none)
  next
    case (Cons raw rest)
    then show ?thesis
      by (cases rest)
        (auto simp: require_jose_json_def Let_def MAX_CONTENT_TYPE_CHARS_def JOSE_JSON_def media_type_match_iff
          split: option.splits if_splits simp flip: media_type_match_iff)
  qed
qed

end
