(* ===== verification/UrlBinding.thy ===== *)
theory UrlBinding
  imports AppState Jws
begin

text \<open>
  The URL comparison of \<open>src/src/acme_adcs_ra/server_jws.py\<close> on Python's \<open>urlparse\<close>, which
  raises \<open>ValueError\<close> on unbalanced brackets in the host and on a bracketed host that is not
  an IP literal; \<open>ip_literal\<close> is that last test of \<open>urllib.parse\<close>.
\<close>

section \<open>urlparse\<close>

record ParseResult =
  u_scheme :: string
  u_netloc :: string
  u_path :: string
  u_params :: string
  u_query :: string
  u_fragment :: string

definition is_c0_or_space :: "char \<Rightarrow> bool" where
  "is_c0_or_space c \<longleftrightarrow> (of_char c :: nat) \<le> 32"

definition is_unsafe :: "char \<Rightarrow> bool" where
  "is_unsafe c \<longleftrightarrow> (of_char c :: nat) \<in> {9, 10, 13}"

definition is_alpha :: "char \<Rightarrow> bool" where
  "is_alpha c = (let n = (of_char c :: nat) in (65 \<le> n \<and> n \<le> 90) \<or> (97 \<le> n \<and> n \<le> 122))"

definition is_scheme_char :: "char \<Rightarrow> bool" where
  "is_scheme_char c =
     (is_alpha c \<or> (48 \<le> (of_char c :: nat) \<and> (of_char c :: nat) \<le> 57) \<or> c \<in> {CHR ''+'', CHR ''-'', CHR ''.''})"

text \<open>\<open>s.split(c, 1)\<close> when \<open>c\<close> occurs, and \<open>(s, '')\<close> when it does not.\<close>

definition cut :: "char \<Rightarrow> string \<Rightarrow> string \<times> string" where
  "cut c s = (takeWhile (\<lambda>x. x \<noteq> c) s, drop 1 (dropWhile (\<lambda>x. x \<noteq> c) s))"

definition split_scheme :: "string \<Rightarrow> string \<times> string" where
  "split_scheme s =
     (let p = takeWhile (\<lambda>x. x \<noteq> CHR '':'') s in
      if CHR '':'' \<in> set s \<and> p \<noteq> [] \<and> is_alpha (hd s) \<and> list_all is_scheme_char p
      then (lower p, drop (Suc (length p)) s) else ([], s))"

definition not_delim :: "char \<Rightarrow> bool" where
  "not_delim c \<longleftrightarrow> c \<notin> {CHR ''/'', CHR ''?'', CHR ''#''}"

definition splitnetloc :: "string \<Rightarrow> string \<times> string" where
  "splitnetloc s =
     (if take 2 s = ''//'' then (takeWhile not_delim (drop 2 s), dropWhile not_delim (drop 2 s)) else ([], s))"

text \<open>\<open>_splitparams\<close>: the first semicolon from the last slash on.\<close>

definition splitparams :: "string \<Rightarrow> string \<times> string" where
  "splitparams s =
     (let tail = rev (takeWhile (\<lambda>c. c \<noteq> CHR ''/'') (rev s));
          front = take (length s - length tail) s
      in (front @ fst (cut CHR '';'' tail), snd (cut CHR '';'' tail)))"

definition uses_params :: "string list" where
  "uses_params = [[], ''ftp'', ''hdl'', ''prospero'', ''http'', ''imap'', ''https'', ''shttp'', ''rtsp'', ''rtsps'', ''rtspu'',
     ''sip'', ''sips'', ''mms'', ''sftp'', ''tel'']"

definition bad_brackets :: "(string \<Rightarrow> bool) \<Rightarrow> string \<Rightarrow> bool" where
  "bad_brackets ip_literal netloc =
     (let l = CHR ''['' \<in> set netloc; r = CHR '']'' \<in> set netloc in
      l \<noteq> r \<or> (l \<and> r \<and> \<not> ip_literal (fst (cut CHR '']'' (snd (cut CHR ''['' netloc))))))"

definition urlparse :: "(string \<Rightarrow> bool) \<Rightarrow> string \<Rightarrow> ParseResult option" where
  "urlparse ip_literal raw =
     (let clean = filter (\<lambda>c. \<not> is_unsafe c) (dropWhile is_c0_or_space raw);
          (scheme, rest) = split_scheme clean;
          (netloc, rest) = splitnetloc rest;
          (rest, fragment) = cut CHR ''#'' rest;
          (path, query) = cut CHR ''?'' rest;
          (path, params) = (if scheme \<in> set uses_params \<and> CHR '';'' \<in> set path then splitparams path else (path, []))
      in if bad_brackets ip_literal netloc then None
         else Some \<lparr>u_scheme = scheme, u_netloc = netloc, u_path = path, u_params = params, u_query = query,
                     u_fragment = fragment\<rparr>)"

section \<open>The check\<close>

text \<open>
  \<open>str(header_url)\<close> of a JSON value that is not a string has no scheme followed by a host
  (it starts with a digit, a sign, a bracket or a brace, or is \<open>True\<close>), so such a header is refused
  like a relative URL.
\<close>

definition verify_url :: "(string \<Rightarrow> bool) \<Rightarrow> details \<Rightarrow> string \<Rightarrow> fault + unit" where
  "verify_url ip_literal header expected_url =
     (case map_of header ''url'' of
        None \<Rightarrow> Inl (Acme malformed)
      | Some v \<Rightarrow>
          if \<not> truthy v then Inl (Acme malformed)
          else case v of
            JStr header_url \<Rightarrow>
              (case (urlparse ip_literal header_url, urlparse ip_literal expected_url) of
                 (Some h, Some e) \<Rightarrow>
                   if u_scheme h = [] \<or> u_netloc h = [] then Inl (Acme malformed)
                   else if u_scheme h \<noteq> u_scheme e then Inl (Acme malformed)
                   else if u_netloc h \<noteq> u_netloc e then Inl (Acme malformed)
                   else if u_path h \<noteq> u_path e then Inl (Acme malformed)
                   else if u_query h \<noteq> u_query e then Inl (Acme malformed)
                   else Inr ()
               | _ \<Rightarrow> Inl (Uncaught ''ValueError''))
          | _ \<Rightarrow> if urlparse ip_literal expected_url = None then Inl (Uncaught ''ValueError'') else Inl (Acme malformed))"

section \<open>Binding\<close>

text \<open>The URLs the server publishes: scheme, host without delimiters, path without parameters or query.\<close>

definition plain_url :: "string \<Rightarrow> string \<Rightarrow> string \<Rightarrow> bool" where
  "plain_url scheme host path \<longleftrightarrow>
     scheme \<in> {''http'', ''https''} \<and> host \<noteq> []
     \<and> list_all (\<lambda>c. \<not> is_c0_or_space c \<and> not_delim c \<and> c \<notin> {CHR ''['', CHR '']''}) host
     \<and> prefix ''/'' path
     \<and> list_all (\<lambda>c. \<not> is_c0_or_space c \<and> c \<notin> {CHR ''?'', CHR ''#'', CHR '';''}) path"

abbreviation absolute :: "string \<Rightarrow> string \<Rightarrow> string \<Rightarrow> string" where
  "absolute scheme host path \<equiv> scheme @ ''://'' @ host @ path"

lemma cut_none: "c \<notin> set s \<Longrightarrow> cut c s = (s, [])"
  by (induction s) (auto simp: cut_def)

lemma unsafe_c0: "is_unsafe c \<Longrightarrow> is_c0_or_space c"
  by (auto simp: is_unsafe_def is_c0_or_space_def)

lemma filter_safe: "list_all (\<lambda>c. \<not> is_c0_or_space c) s \<Longrightarrow> filter (\<lambda>c. \<not> is_unsafe c) (dropWhile is_c0_or_space s) = s"
  by (cases s) (auto simp: list_all_iff filter_id_conv dest: unsafe_c0)

lemma split_scheme_http:
  "split_scheme (''http'' @ CHR '':'' # r) = (''http'', r)" "split_scheme (''https'' @ CHR '':'' # r) = (''https'', r)"
  by (simp_all add: split_scheme_def Let_def is_alpha_def is_scheme_char_def lower_def lower_char_def)

lemma splitnetloc_host:
  assumes "list_all not_delim host" "prefix ''/'' path"
  shows "splitnetloc (''//'' @ host @ path) = (host, path)"
proof -
  obtain p where "path = CHR ''/'' # p" using assms(2) by (cases path) auto
  with assms(1) show ?thesis by (simp add: splitnetloc_def list_all_iff not_delim_def)
qed

lemma urlparse_plain:
  assumes "plain_url scheme host path"
  shows "urlparse ip (absolute scheme host path) =
    Some \<lparr>u_scheme = scheme, u_netloc = host, u_path = path, u_params = [], u_query = [], u_fragment = []\<rparr>"
proof -
  have "list_all (\<lambda>c. \<not> is_c0_or_space c) host" "list_all (\<lambda>c. \<not> is_c0_or_space c) path"
    using assms by (auto simp: plain_url_def list_all_iff)
  moreover have "list_all (\<lambda>c. \<not> is_c0_or_space c) (scheme @ ''://'')"
    using assms by (auto simp: plain_url_def is_c0_or_space_def)
  ultimately have "list_all (\<lambda>c. \<not> is_c0_or_space c) (absolute scheme host path)" by simp
  note f = filter_safe [OF this]
  have s: "split_scheme (absolute scheme host path) = (scheme, ''//'' @ host @ path)"
    using assms split_scheme_http [of "''//'' @ host @ path"] by (auto simp: plain_url_def)
  have n: "splitnetloc (''//'' @ host @ path) = (host, path)"
    using assms splitnetloc_host by (auto simp: plain_url_def list_all_iff)
  have p: "CHR ''#'' \<notin> set path" "CHR ''?'' \<notin> set path" "CHR '';'' \<notin> set path" "CHR ''['' \<notin> set host" "CHR '']'' \<notin> set host"
    using assms unfolding plain_url_def list_all_iff by blast+
  show ?thesis unfolding urlparse_def f s n Let_def prod.case cut_none [OF p(1)] cut_none [OF p(2)] using p by (simp add: bad_brackets_def)
qed

text \<open>
  Full-URL binding: between URLs of the published form, a protected header is accepted
  exactly when its \<open>url\<close> is, character by character, the URL of the endpoint.
\<close>

theorem verify_url_binds:
  assumes "plain_url s h p" "plain_url s' h' p'"
  shows "verify_url ip [(''url'', JStr (absolute s' h' p'))] (absolute s h p) = Inr ()
     \<longleftrightarrow> absolute s' h' p' = absolute s h p"
proof -
  note u = urlparse_plain [OF assms(1), of ip] urlparse_plain [OF assms(2), of ip]
  have ne: "absolute s' h' p' \<noteq> []" by simp
  have "verify_url ip [(''url'', JStr (absolute s' h' p'))] (absolute s h p) = Inr () \<longleftrightarrow> s' = s \<and> h' = h \<and> p' = p"
    unfolding verify_url_def using u ne assms by (auto simp: plain_url_def)
  moreover have "absolute s' h' p' = absolute s h p \<longleftrightarrow> s' = s \<and> h' = h \<and> p' = p"
    using u by (metis ParseResult.ext_inject option.inject)
  ultimately show ?thesis by blast
qed

theorem verify_url_binds_witness:
  "verify_url (\<lambda>_. False) [(''url'', JStr (absolute ''https'' ''ra.test'' ''/acme/new-order''))]
      (absolute ''https'' ''ra.test'' ''/acme/new-order'') = Inr ()
   \<and> verify_url (\<lambda>_. False) [(''url'', JStr (absolute ''https'' ''evil.test'' ''/acme/new-order''))]
      (absolute ''https'' ''ra.test'' ''/acme/new-order'') \<noteq> Inr ()"
proof -
  have p: "plain_url ''https'' ''ra.test'' ''/acme/new-order''" "plain_url ''https'' ''evil.test'' ''/acme/new-order''"
    by code_simp+
  show ?thesis using verify_url_binds [OF p(1) p(1)] verify_url_binds [OF p(1) p(2)] by simp
qed

text \<open>Outside the published form the binding is of scheme, host, path and query only.\<close>

lemma verify_url_ok:
  assumes "verify_url ip header expected = Inr ()"
  obtains u h e where "map_of header ''url'' = Some (JStr u)" "urlparse ip u = Some h" "urlparse ip expected = Some e"
    "u_scheme h \<noteq> []" "u_netloc h \<noteq> []" "u_scheme h = u_scheme e" "u_netloc h = u_netloc e" "u_path h = u_path e"
    "u_query h = u_query e"
  using assms by (auto simp: verify_url_def split: option.splits json.splits if_splits)

text \<open>
  A \<open>url\<close> that carries path parameters or a fragment the endpoint's URL does not have passes
  the check, and so does one with leading control characters or embedded line breaks.
\<close>

theorem verify_url_ignores_params_and_fragment:
  "verify_url ip [(''url'', JStr ''https://ra.test/acme/new-order;x=1#frag'')] ''https://ra.test/acme/new-order'' = Inr ()"
proof -
  have "bad_brackets ip ''ra.test'' = bad_brackets (\<lambda>_. False) ''ra.test''" by (simp add: bad_brackets_def Let_def)
  moreover have "\<not> bad_brackets (\<lambda>_. False) ''ra.test''" by code_simp
  ultimately show ?thesis
    by (simp add: verify_url_def urlparse_def Let_def split_scheme_def splitnetloc_def cut_def splitparams_def uses_params_def
        is_c0_or_space_def is_unsafe_def is_alpha_def is_scheme_char_def not_delim_def lower_def lower_char_def)
qed

text \<open>
  An unbalanced bracket in the host makes \<open>urlparse\<close> raise, and the check lets the exception
  escape instead of answering with a problem document.
\<close>

lemma verify_url_crashes:
  assumes "map_of header ''url'' = Some (JStr ''https://['')"
  shows "verify_url ip header expected = Inl (Uncaught ''ValueError'')"
  using assms
  by (simp add: verify_url_def urlparse_def Let_def split_scheme_def splitnetloc_def cut_def bad_brackets_def
      is_c0_or_space_def is_unsafe_def is_alpha_def is_scheme_char_def not_delim_def lower_def lower_char_def)

end
