(* ===== verification/ServerJws.thy ===== *)
theory ServerJws
  imports HttpRequest UrlBinding Samples
begin

text \<open>
  Authentication of ACME requests: \<open>src/src/acme_adcs_ra/server_jws.py\<close> and
  \<open>authenticate_account\<close> of \<open>src/src/acme_adcs_ra/app_state.py\<close>.
\<close>

section \<open>The envelope\<close>

definition lift_fault :: "fault + 'a \<Rightarrow> 'a handler" where
  "lift_fault r sv = (r, sv)"

text \<open>\<open>raise problem(...) from exc\<close> around a call of the JWS layer that lets limit errors through.\<close>

definition acme :: "AcmeError + 'a \<Rightarrow> fault + 'a" where
  "acme r = (case r of Inl e \<Rightarrow> Inl (Acme e) | Inr a \<Rightarrow> Inr a)"

definition loads_or_malformed :: "loads_error + json \<Rightarrow> fault + details" where
  "loads_or_malformed r =
     (case r of
        Inl DecodeError \<Rightarrow> Inl (Acme malformed)
      | Inl LimitError \<Rightarrow> Inl (Uncaught ''json limit'')
      | Inr (JObj d) \<Rightarrow> Inr d
      | Inr _ \<Rightarrow> Inl (Acme malformed))"

definition parse_jws_body :: "crypto \<Rightarrow> nat \<Rightarrow> request \<Rightarrow> fault + details" where
  "parse_jws_body cr max_body_size_bytes rq =
     rbind (acme (require_jose_json rq)) (\<lambda>_.
     rbind (acme (read_body_limited max_body_size_bytes rq)) (\<lambda>body.
       if body = [] then Inl (Acme malformed) else loads_or_malformed (c_loads cr body)))"

text \<open>The protected header is decoded under \<open>except Exception\<close>: every failure is \<open>malformed\<close>.\<close>

definition protected_header :: "crypto \<Rightarrow> details \<Rightarrow> AcmeError + details" where
  "protected_header cr jws =
     (case map_of jws ''protected'' of
        Some (JStr protected_b64) \<Rightarrow>
          (case base64url_decode protected_b64 of
             Inl _ \<Rightarrow> Inl malformed
           | Inr b \<Rightarrow> (case c_loads cr b of Inr (JObj header) \<Rightarrow> Inr header | _ \<Rightarrow> Inl malformed))
      | _ \<Rightarrow> Inl malformed)"

definition jws_and_header :: "crypto \<Rightarrow> nat \<Rightarrow> request \<Rightarrow> fault + (details \<times> details)" where
  "jws_and_header cr max_body_size_bytes rq =
     rbind (parse_jws_body cr max_body_size_bytes rq) (\<lambda>jws.
       case require_flattened_without_unprotected_header jws of
         Inl _ \<Rightarrow> Inl (Acme malformed)
       | Inr _ \<Rightarrow> rbind (acme (protected_header cr jws)) (\<lambda>header. Inr (header, jws)))"

definition consume_request_nonce :: "env \<Rightarrow> details \<Rightarrow> unit handler" where
  "consume_request_nonce en header sv =
     (case map_of header ''nonce'' of
        Some (JStr nonce) \<Rightarrow>
          if nonce = [] then raising bad_nonce sv
          else
            let (ok, s') = consume_nonce (en_now en) nonce (sv_db sv); sv' = sv\<lparr>sv_db := s'\<rparr>
            in if ok then ret () sv' else raising bad_nonce sv'
      | _ \<Rightarrow> raising bad_nonce sv)"

definition nonce_spent :: "unit handler" where
  "nonce_spent sv = (Inr (), sv\<lparr>sv_nonce_spent := True\<rparr>)"

definition parse_jws_header ::
  "crypto \<Rightarrow> env \<Rightarrow> nat \<Rightarrow> request \<Rightarrow> string \<Rightarrow> (details \<times> details) handler" where
  "parse_jws_header cr en max_body_size_bytes rq expected_url =
     hbind (lift_fault (jws_and_header cr max_body_size_bytes rq)) (\<lambda>(header, jws).
     hbind (consume_request_nonce en header) (\<lambda>_.
     hbind nonce_spent (\<lambda>_.
     hbind (lift_fault (verify_url (c_ip_literal cr) header expected_url)) (\<lambda>_.
     ret (header, jws)))))"

section \<open>Signatures\<close>

definition verify_jws_signature :: "crypto \<Rightarrow> details \<Rightarrow> public_numbers \<Rightarrow> fault + details" where
  "verify_jws_signature cr jws key =
     (case verify_flattened_jws cr jws key of
        Inl (JwsError UnsupportedSignatureAlgorithmError) \<Rightarrow> Inl (Acme (bad_signature_algorithm SUPPORTED_JWS_ALGORITHMS))
      | Inl (JwsError _) \<Rightarrow> Inl (Acme unauthorized)
      | Inl JwsLimit \<Rightarrow> Inl (Uncaught ''json limit'')
      | Inr payload \<Rightarrow> if payload = [] then Inr [] else loads_or_malformed (c_loads cr payload))"

definition kid_to_account_id :: "string \<Rightarrow> string \<Rightarrow> AcmeError + string" where
  "kid_to_account_id kid account_url_prefix =
     (let pre = rstrip CHR ''/'' account_url_prefix @ ''/'' in
      if \<not> prefix pre kid then Inl malformed
      else Inr (takeWhile (\<lambda>c. c \<noteq> CHR ''/'') (drop (length pre) kid)))"

definition account_key :: "crypto \<Rightarrow> env \<Rightarrow> AccountRow \<Rightarrow> AcmeError + (public_numbers \<times> string)" where
  "account_key cr en account =
     (case acc_jwk account of
        None \<Rightarrow> Inl bad_public_key
      | Some jwk \<Rightarrow>
          (case (public_key cr jwk, jwk_thumbprint (x_sha256 (en_ext en)) jwk) of
             (Inr key, Inr t) \<Rightarrow> Inr (key, t)
           | _ \<Rightarrow> Inl bad_public_key))"

definition verify_existing_account_jws ::
  "crypto \<Rightarrow> env \<Rightarrow> nat \<Rightarrow> request \<Rightarrow> string \<Rightarrow> string \<Rightarrow> (details \<times> details \<times> string \<times> string) handler" where
  "verify_existing_account_jws cr en max_body_size_bytes rq expected_url account_url_prefix =
     hbind (parse_jws_header cr en max_body_size_bytes rq expected_url) (\<lambda>(header, jws).
       case map_of header ''kid'' of
         Some (JStr kid) \<Rightarrow>
           if kid = [] then raising malformed
           else if map_of header ''jwk'' \<noteq> None then raising malformed
           else hbind (lift (kid_to_account_id kid account_url_prefix)) (\<lambda>account_id sv.
             case get_account account_id (sv_db sv) of
               None \<Rightarrow> raising unauthorized sv
             | Some account \<Rightarrow>
                 hbind (lift (account_key cr en account)) (\<lambda>(key, thumbprint).
                 hbind (lift_fault (verify_jws_signature cr jws key)) (\<lambda>payload.
                 ret (header, payload, account_id, thumbprint))) sv)
       | _ \<Rightarrow> raising malformed)"

definition verify_new_account_jws ::
  "crypto \<Rightarrow> env \<Rightarrow> nat \<Rightarrow> request \<Rightarrow> string \<Rightarrow> (details \<times> details \<times> details) handler" where
  "verify_new_account_jws cr en max_body_size_bytes rq expected_url =
     hbind (parse_jws_header cr en max_body_size_bytes rq expected_url) (\<lambda>(header, jws).
       case map_of header ''jwk'' of
         Some (JObj account_jwk) \<Rightarrow>
           if map_of header ''kid'' \<noteq> None then raising malformed
           else (case public_key cr (JObj account_jwk) of
                   Inl _ \<Rightarrow> raising bad_public_key
                 | Inr key \<Rightarrow>
                     hbind (lift_fault (verify_jws_signature cr jws key)) (\<lambda>payload.
                     ret (header, payload, account_jwk)))
       | _ \<Rightarrow> raising malformed)"

definition account_url_prefix :: "config \<Rightarrow> string" where
  "account_url_prefix cfg = url cfg ''/acme/acct''"

definition authenticate_account ::
  "crypto \<Rightarrow> env \<Rightarrow> config \<Rightarrow> request \<Rightarrow> string \<Rightarrow> (details \<times> details \<times> AccountRow \<times> string) handler" where
  "authenticate_account cr en cfg rq path =
     hbind (verify_existing_account_jws cr en (max_jws_body_size_bytes cfg) rq (url cfg path) (account_url_prefix cfg))
       (\<lambda>(header, payload, account_id, thumbprint) sv.
          case get_account account_id (sv_db sv) of
            None \<Rightarrow> raising unauthorized sv
          | Some account \<Rightarrow>
              hbind (enforce_account_usable en cfg account) (\<lambda>_. ret (header, payload, account, thumbprint)) sv)"

section \<open>Frames\<close>

lemma hbind_Inr_iff:
  "hbind m f sv = (Inr b, sv'') \<longleftrightarrow> (\<exists>a sv'. m sv = (Inr a, sv') \<and> f a sv' = (Inr b, sv''))"
  by (cases "m sv"; cases "fst (m sv)") (auto simp: hbind_def)

lemma lift_fault_Inr [simp]: "lift_fault r sv = (Inr a, sv') \<longleftrightarrow> r = Inr a \<and> sv' = sv"
  by (auto simp: lift_fault_def)

lemma lift_Inr [simp]: "lift r sv = (Inr a, sv') \<longleftrightarrow> r = Inr a \<and> sv' = sv"
  by (auto simp: lift_def split: sum.split)

lemma nonce_spent_Inr [simp]: "nonce_spent sv = (Inr u, sv') \<longleftrightarrow> sv' = sv\<lparr>sv_nonce_spent := True\<rparr>"
  by (auto simp: nonce_spent_def)

lemma acme_Inr [simp]: "acme r = Inr a \<longleftrightarrow> r = Inr a"
  by (simp add: acme_def split: sum.split)

lemma raising_not_Inr [simp]: "raising e sv \<noteq> (Inr a, sv')"
  by simp

text \<open>A handler that returns went through every guard: the inversions of the guards, as rewrite rules.\<close>

lemma guard_Inr [simp]: "(if c then raising e else m) sv = (Inr b, sv') \<longleftrightarrow> \<not> c \<and> m sv = (Inr b, sv')"
  by simp

lemma some_Inr [simp]:
  "(case v of None \<Rightarrow> raising e sv | Some a \<Rightarrow> g a) = (Inr b, sv') \<longleftrightarrow> (\<exists>a. v = Some a \<and> g a = (Inr b, sv'))"
  "(case v of None \<Rightarrow> raising e | Some a \<Rightarrow> f a) sv = (Inr b, sv') \<longleftrightarrow> (\<exists>a. v = Some a \<and> f a sv = (Inr b, sv'))"
  by (auto split: option.split)

lemma json_Inr [simp]:
  "(case j of JStr s \<Rightarrow> f s | _ \<Rightarrow> raising e) sv = (Inr b, sv') \<longleftrightarrow> (\<exists>s. j = JStr s \<and> f s sv = (Inr b, sv'))"
  "(case j of JObj d \<Rightarrow> g d | _ \<Rightarrow> raising e) sv = (Inr b, sv') \<longleftrightarrow> (\<exists>d. j = JObj d \<and> g d sv = (Inr b, sv'))"
  "(case j of JStr s \<Rightarrow> h s | _ \<Rightarrow> raising e sv) = (Inr b, sv') \<longleftrightarrow> (\<exists>s. j = JStr s \<and> h s = (Inr b, sv'))"
  by (cases j; simp)+

lemma sum_Inr [simp]:
  "(case r of Inl x \<Rightarrow> raising e | Inr a \<Rightarrow> f a) sv = (Inr b, sv') \<longleftrightarrow> (\<exists>a. r = Inr a \<and> f a sv = (Inr b, sv'))"
  by (auto split: sum.split)

context handler_frame begin

lemma keeps_fault [intro]: "keeps (lift_fault r)"
  by (simp add: keeps_def lift_fault_def refl)

lemma keeps_json [intro]:
  assumes "keeps a" "\<And>x. keeps (fb x)" "\<And>x. keeps (fi x)" "\<And>x. keeps (fs x)" "\<And>x. keeps (fl x)" "\<And>x. keeps (fd x)"
  shows "keeps (case v of JNull \<Rightarrow> a | JBool x \<Rightarrow> fb x | JInt x \<Rightarrow> fi x | JStr x \<Rightarrow> fs x | JList x \<Rightarrow> fl x | JObj x \<Rightarrow> fd x)"
  using assms by (cases v) auto

lemmas keeps_rules = keeps_intros keeps_fault keeps_json

end

lemma runs_nonce: "runs.keeps (consume_request_nonce en header)" "runs.keeps nonce_spent"
  by (auto simp: runs.keeps_def consume_request_nonce_def nonce_spent_def db_run_def Let_def case_prod_beta
      split: option.split json.split intro: r_into_rtranclp store_step.consume_nonce)

lemma consume_tables [simp]:
  "accounts (snd (consume_nonce now n s)) = accounts s" "orders (snd (consume_nonce now n s)) = orders s"
  "certificates (snd (consume_nonce now n s)) = certificates s"
  by (simp_all add: consume_nonce_def delete_nonce_def)

lemma rows_nonce: "rows.keeps (consume_request_nonce en header)" "rows.keeps nonce_spent"
  by (auto simp: rows.keeps_def consume_request_nonce_def nonce_spent_def rows_kept_def Let_def case_prod_beta
      split: option.split json.split)

lemma enforce_account_usable_keeps:
  "runs.keeps (enforce_account_usable en cfg account)" "rows.keeps (enforce_account_usable en cfg account)"
  by (auto simp: runs.keeps_def rows.keeps_def enforce_account_usable_def runs.refl rows.refl runs.audit_ok rows.audit_ok)

lemma authenticate_keeps:
  "runs.keeps (authenticate_account cr en cfg rq path)" "rows.keeps (authenticate_account cr en cfg rq path)"
  unfolding authenticate_account_def verify_existing_account_jws_def parse_jws_header_def
  by (intro runs.keeps_rules runs_nonce enforce_account_usable_keeps)
     (intro rows.keeps_rules rows_nonce enforce_account_usable_keeps)

lemma new_account_jws_keeps:
  "runs.keeps (verify_new_account_jws cr en n rq u)" "rows.keeps (verify_new_account_jws cr en n rq u)"
  unfolding verify_new_account_jws_def parse_jws_header_def
  by (intro runs.keeps_rules runs_nonce) (intro rows.keeps_rules rows_nonce)

section \<open>What authentication establishes\<close>

text \<open>The envelope of a request: its protected header and its JWS object, as the server reads them.\<close>

definition enveloped :: "crypto \<Rightarrow> nat \<Rightarrow> request \<Rightarrow> details \<Rightarrow> details \<Rightarrow> bool" where
  "enveloped cr limit rq header jws \<longleftrightarrow>
     require_jose_json rq = Inr ()
     \<and> (\<exists>body p pb. read_body_limited limit rq = Inr body \<and> c_loads cr body = Inr (JObj jws)
          \<and> map_of jws ''protected'' = Some (JStr p) \<and> base64url_decode p = Inr pb \<and> c_loads cr pb = Inr (JObj header))"

definition fresh_nonce :: "env \<Rightarrow> details \<Rightarrow> server \<Rightarrow> server \<Rightarrow> bool" where
  "fresh_nonce en header sv sv' \<longleftrightarrow>
     (\<exists>nonce. map_of header ''nonce'' = Some (JStr nonce)
        \<and> (\<exists>r \<in> set (nonces (sv_db sv)). nonce_text r = nonce \<and> nonce_cutoff (en_now en) \<le> nonce_created_at r)
        \<and> \<not> nonce_present nonce (sv_db sv')
        \<and> sv' = sv\<lparr>sv_db := snd (consume_nonce (en_now en) nonce (sv_db sv)), sv_nonce_spent := True\<rparr>)"

definition payload_of :: "crypto \<Rightarrow> bytes \<Rightarrow> details \<Rightarrow> bool" where
  "payload_of cr b payload \<longleftrightarrow> (if b = [] then payload = [] else c_loads cr b = Inr (JObj payload))"

lemma loads_or_malformed_Inr [simp]: "loads_or_malformed r = Inr d \<longleftrightarrow> r = Inr (JObj d)"
  by (auto simp: loads_or_malformed_def split: sum.split loads_error.split json.split)

lemma protected_header_Inr: "protected_header cr jws = Inr header \<longleftrightarrow>
    (\<exists>p pb. map_of jws ''protected'' = Some (JStr p) \<and> base64url_decode p = Inr pb \<and> c_loads cr pb = Inr (JObj header))"
  by (auto simp: protected_header_def split: option.splits json.splits sum.splits)

lemma jws_and_header_ok: "jws_and_header cr limit rq = Inr (header, jws) \<Longrightarrow> enveloped cr limit rq header jws"
  by (auto simp: jws_and_header_def parse_jws_body_def enveloped_def protected_header_Inr
      require_flattened_without_unprotected_header_def split: sum.splits if_splits)

lemma consume_request_nonce_ok:
  assumes "wf_db (sv_db sv)" "consume_request_nonce en header sv = (Inr u, sv')"
  shows "fresh_nonce en header sv (sv'\<lparr>sv_nonce_spent := True\<rparr>)"
proof -
  obtain n where n: "map_of header ''nonce'' = Some (JStr n)"
    using assms(2) by (auto simp: consume_request_nonce_def)
  with assms(2) have ok: "fst (consume_nonce (en_now en) n (sv_db sv))"
    and sv': "sv' = sv\<lparr>sv_db := snd (consume_nonce (en_now en) n (sv_db sv))\<rparr>"
    by (auto simp: consume_request_nonce_def Let_def case_prod_beta split: if_splits)
  have "\<not> nonce_present n (snd (consume_nonce (en_now en) n (sv_db sv)))"
    using nonce_use.redeem_gone [OF assms(1), of "(en_now en, n)"] ok by simp
  moreover have "\<exists>r \<in> set (nonces (sv_db sv)). nonce_text r = n \<and> nonce_cutoff (en_now en) \<le> nonce_created_at r"
    using ok consume_nonce_iff [OF assms(1)] by (auto simp: nonce_live_def)
  ultimately show ?thesis using n sv' by (auto simp: fresh_nonce_def)
qed

lemma parse_jws_header_ok:
  assumes "wf_db (sv_db sv)" "parse_jws_header cr en limit rq u sv = (Inr (header, jws), sv')"
  shows "enveloped cr limit rq header jws" "fresh_nonce en header sv sv'" "verify_url (c_ip_literal cr) header u = Inr ()"
proof -
  from assms(2) obtain sv1 where j: "jws_and_header cr limit rq = Inr (header, jws)"
    and c: "consume_request_nonce en header sv = (Inr (), sv1)" "sv' = sv1\<lparr>sv_nonce_spent := True\<rparr>"
    and "verify_url (c_ip_literal cr) header u = Inr ()"
    unfolding parse_jws_header_def by (auto simp: hbind_Inr_iff)
  then show "verify_url (c_ip_literal cr) header u = Inr ()" by simp
  show "enveloped cr limit rq header jws" using jws_and_header_ok [OF j] .
  show "fresh_nonce en header sv sv'" using consume_request_nonce_ok [OF assms(1) c(1)] c(2) by simp
qed

lemma verify_jws_signature_ok:
  "verify_jws_signature cr jws key = Inr payload \<longleftrightarrow> (\<exists>b. jws_verified cr jws key b \<and> payload_of cr b payload)"
  unfolding verify_jws_signature_def payload_of_def
  by (auto split: sum.split jws_fault.split jws_error.split simp flip: verify_flattened_jws_iff)

lemma account_key_ok:
  "account_key cr en account = Inr (key, t) \<longleftrightarrow>
     (\<exists>jwk. acc_jwk account = Some jwk \<and> public_key cr jwk = Inr key \<and> jwk_thumbprint (x_sha256 (en_ext en)) jwk = Inr t)"
  by (auto simp: account_key_def split: option.splits sum.splits)

lemma enforce_account_usable_ok:
  "enforce_account_usable en cfg account sv = (Inr u, sv') \<longleftrightarrow>
     sv' = sv \<and> acc_status account = AcctVALID \<and> acc_eab_kid account \<in> set (eab_kids cfg)"
  by (auto simp: enforce_account_usable_def)

lemma get_account_fresh: "fresh_nonce en header sv sv' \<Longrightarrow> get_account i (sv_db sv') = get_account i (sv_db sv)"
  by (auto simp: fresh_nonce_def get_account_def)

lemma authenticate_sound:
  assumes "wf_db (sv_db sv)" "authenticate_account cr en cfg rq path sv = (Inr (header, payload, account, thumbprint), sv')"
  shows "\<exists>jws kid jwk key b.
      enveloped cr (max_jws_body_size_bytes cfg) rq header jws \<and> fresh_nonce en header sv sv'
      \<and> verify_url (c_ip_literal cr) header (url cfg path) = Inr ()
      \<and> map_of header ''kid'' = Some (JStr kid) \<and> kid_to_account_id kid (account_url_prefix cfg) = Inr (acc_id account)
      \<and> get_account (acc_id account) (sv_db sv) = Some account
      \<and> acc_status account = AcctVALID \<and> acc_eab_kid account \<in> set (eab_kids cfg)
      \<and> acc_jwk account = Some jwk \<and> public_key cr jwk = Inr key \<and> jwk_thumbprint (x_sha256 (en_ext en)) jwk = Inr thumbprint
      \<and> jws_verified cr jws key b \<and> payload_of cr b payload"
proof -
  from assms(2) obtain aid sv1 where
    v: "verify_existing_account_jws cr en (max_jws_body_size_bytes cfg) rq (url cfg path) (account_url_prefix cfg) sv
          = (Inr (header, payload, aid, thumbprint), sv1)"
    and a: "get_account aid (sv_db sv1) = Some account" "sv' = sv1" "acc_status account = AcctVALID"
      "acc_eab_kid account \<in> set (eab_kids cfg)"
    unfolding authenticate_account_def
    by (auto simp: hbind_Inr_iff enforce_account_usable_ok split: option.splits)
  from v obtain jws kid key acct where
    p: "parse_jws_header cr en (max_jws_body_size_bytes cfg) rq (url cfg path) sv = (Inr (header, jws), sv1)"
    and k: "map_of header ''kid'' = Some (JStr kid)" "kid_to_account_id kid (account_url_prefix cfg) = Inr aid"
      "get_account aid (sv_db sv1) = Some acct" "account_key cr en acct = Inr (key, thumbprint)"
      "verify_jws_signature cr jws key = Inr payload"
    unfolding verify_existing_account_jws_def by (auto simp: hbind_Inr_iff)
  note h = parse_jws_header_ok [OF assms(1) p]
  have acct: "acct = account" using a(1) k(3) by simp
  have id: "acc_id account = aid" using a(1) by (auto simp: get_account_def dest: find_Some_in)
  have row: "get_account aid (sv_db sv) = Some account" using a(1) get_account_fresh [OF h(2)] by simp
  obtain b where b: "jws_verified cr jws key b" "payload_of cr b payload"
    using k(5) verify_jws_signature_ok by blast
  obtain jwk where jwk: "acc_jwk account = Some jwk" "public_key cr jwk = Inr key"
      "jwk_thumbprint (x_sha256 (en_ext en)) jwk = Inr thumbprint"
    using k(4) account_key_ok unfolding acct by blast
  show ?thesis
    by (rule exI [of _ jws], rule exI [of _ kid], rule exI [of _ jwk], rule exI [of _ key], rule exI [of _ b])
       (use h k(1,2) a(2,3,4) b jwk row id in simp)
qed

text \<open>
  C8. A request is admitted to an account route only if its one JSON body of bounded size, sent
  as \<open>application/jose+json\<close>, is a JWS that verifies under the key stored for the account its
  \<open>kid\<close> names, its protected header names this endpoint's scheme, host, path and query and
  carries a nonce this server issued within the nonce lifetime and has never accepted,
  and the account is valid and bound to a credential still on the allowlist. The nonce is
  gone afterwards and nothing else has changed.
\<close>

theorem authenticated_request:
  assumes "wf_db (sv_db sv)" "authenticate_account cr en cfg rq path sv = (Inr (header, payload, account, thumbprint), sv')"
  shows "\<exists>jws kid jwk key b.
      enveloped cr (max_jws_body_size_bytes cfg) rq header jws \<and> fresh_nonce en header sv sv'
      \<and> verify_url (c_ip_literal cr) header (url cfg path) = Inr ()
      \<and> map_of header ''kid'' = Some (JStr kid) \<and> kid_to_account_id kid (account_url_prefix cfg) = Inr (acc_id account)
      \<and> get_account (acc_id account) (sv_db sv) = Some account
      \<and> acc_status account = AcctVALID \<and> acc_eab_kid account \<in> set (eab_kids cfg)
      \<and> acc_jwk account = Some jwk \<and> public_key cr jwk = Inr key \<and> jwk_thumbprint (x_sha256 (en_ext en)) jwk = Inr thumbprint
      \<and> jws_verified cr jws key b \<and> payload_of cr b payload"
  using authenticate_sound [OF assms] .

section \<open>A request is accepted once\<close>

text \<open>
  The nonce a request presents, and authentication as a redemption of it: over any sequence
  of requests, to any endpoints, in any order, at most one that presents a given nonce is
  authenticated.
\<close>

definition request_nonce :: "crypto \<Rightarrow> nat \<Rightarrow> request \<Rightarrow> string" where
  "request_nonce cr limit rq =
     (case jws_and_header cr limit rq of
        Inr (header, jws) \<Rightarrow> (case map_of header ''nonce'' of Some (JStr n) \<Rightarrow> n | _ \<Rightarrow> [])
      | Inl _ \<Rightarrow> [])"

definition authenticates :: "crypto \<Rightarrow> config \<Rightarrow> env \<times> request \<times> string \<Rightarrow> server \<Rightarrow> bool \<times> server" where
  "authenticates cr cfg = (\<lambda>(en, rq, path) sv.
     (let (r, sv') = authenticate_account cr en cfg rq path sv in (case r of Inl _ \<Rightarrow> False | Inr _ \<Rightarrow> True, sv')))"

definition shrinks :: "server \<Rightarrow> server \<Rightarrow> bool" where
  "shrinks a b \<longleftrightarrow> set (nonces (sv_db b)) \<subseteq> set (nonces (sv_db a))"

lemma audit_nonces [simp]: "nonces (sv_db (audit en args sv)) = nonces (sv_db sv)"
  using audit_only_frame [OF audit_db] by metis

interpretation nonces_shrink: handler_frame shrinks
  by unfold_locales (auto simp: shrinks_def)

lemma shrink_nonce: "nonces_shrink.keeps (consume_request_nonce en header)" "nonces_shrink.keeps nonce_spent"
  by (auto simp: nonces_shrink.keeps_def consume_request_nonce_def nonce_spent_def shrinks_def consume_nonce_def delete_nonce_def
      Let_def case_prod_beta split: option.split json.split)

lemma shrink_usable: "nonces_shrink.keeps (enforce_account_usable en cfg account)"
  by (auto simp: nonces_shrink.keeps_def enforce_account_usable_def nonces_shrink.refl nonces_shrink.audit_ok)

lemma authenticate_shrinks: "nonces_shrink.keeps (authenticate_account cr en cfg rq path)"
  unfolding authenticate_account_def verify_existing_account_jws_def parse_jws_header_def
  by (intro nonces_shrink.keeps_rules shrink_nonce shrink_usable)

lemma authenticated_nonce:
  assumes "wf_db (sv_db sv)" "fst (authenticates cr cfg (en, rq, path) sv)"
  obtains header where "fresh_nonce en header sv (snd (authenticates cr cfg (en, rq, path) sv))"
    "map_of header ''nonce'' = Some (JStr (request_nonce cr (max_jws_body_size_bytes cfg) rq))"
proof -
  let ?limit = "max_jws_body_size_bytes cfg"
  obtain header payload account t sv' where
    r: "authenticate_account cr en cfg rq path sv = (Inr (header, payload, account, t), sv')"
    using assms(2) by (auto simp: authenticates_def split: sum.splits prod.splits)
  obtain jws sv1 where "parse_jws_header cr en ?limit rq (url cfg path) sv = (Inr (header, jws), sv1)"
    using r unfolding authenticate_account_def verify_existing_account_jws_def
    by (auto simp: hbind_Inr_iff enforce_account_usable_ok)
  then have "jws_and_header cr ?limit rq = Inr (header, jws)" by (auto simp: parse_jws_header_def hbind_Inr_iff)
  moreover have f: "fresh_nonce en header sv sv'" using authenticate_sound [OF assms(1) r] by blast
  ultimately have "map_of header ''nonce'' = Some (JStr (request_nonce cr ?limit rq))"
    by (auto simp: request_nonce_def fresh_nonce_def)
  with f r that show thesis by (simp add: authenticates_def)
qed

lemma fresh_nonce_present:
  assumes "fresh_nonce en header sv sv'" "map_of header ''nonce'' = Some (JStr n)"
  shows "nonce_present n (sv_db sv)" "\<not> nonce_present n (sv_db sv')"
  using assms by (auto simp: fresh_nonce_def nonce_present_def)

interpretation request_use: single_use "authenticates cr cfg" "\<lambda>(en, rq, path). request_nonce cr (max_jws_body_size_bytes cfg) rq"
  "\<lambda>n sv. nonce_present n (sv_db sv)" "\<lambda>sv. wf_db (sv_db sv)"
  for cr :: crypto and cfg :: config
proof unfold_locales
  fix sv :: server and r :: "env \<times> request \<times> string" and n
  obtain en rq path where r: "r = (en, rq, path)" using prod_cases3 by blast
  assume wf: "wf_db (sv_db sv)"
  show "wf_db (sv_db (snd (authenticates cr cfg r sv)))"
    using wf_reachable runs.keepsD [OF authenticate_keeps(1) [of cr en cfg rq path], of sv] wf
    by (auto simp: authenticates_def r db_run_def Let_def case_prod_beta)
  have t: "(case r of (en, rq, path) \<Rightarrow> request_nonce cr (max_jws_body_size_bytes cfg) rq)
      = request_nonce cr (max_jws_body_size_bytes cfg) rq" by (simp add: r)
  show "nonce_present (case r of (en, rq, path) \<Rightarrow> request_nonce cr (max_jws_body_size_bytes cfg) rq) (sv_db sv)"
    "\<not> nonce_present (case r of (en, rq, path) \<Rightarrow> request_nonce cr (max_jws_body_size_bytes cfg) rq)
        (sv_db (snd (authenticates cr cfg r sv)))" if ok: "fst (authenticates cr cfg r sv)"
    unfolding t using authenticated_nonce [OF wf ok [unfolded r]] by (metis fresh_nonce_present r)+
  show "nonce_present n (sv_db sv)" if "nonce_present n (sv_db (snd (authenticates cr cfg r sv)))"
    using that nonces_shrink.keepsD [OF authenticate_shrinks [of cr en cfg rq path], of sv]
    by (auto simp: authenticates_def r shrinks_def nonce_present_def Let_def case_prod_beta)
qed

primrec authenticate_all :: "crypto \<Rightarrow> config \<Rightarrow> (env \<times> request \<times> string) list \<Rightarrow> server \<Rightarrow> bool list" where
  "authenticate_all cr cfg [] sv = []"
| "authenticate_all cr cfg (r # rs) sv = fst (authenticates cr cfg r sv) # authenticate_all cr cfg rs (snd (authenticates cr cfg r sv))"

lemma authenticate_all_redeem: "authenticate_all cr cfg rs sv = request_use.redeem_all cr cfg rs sv"
  by (induction rs arbitrary: sv) simp_all

text \<open>C9. Over any sequence of authentication attempts at most one request that presents a given nonce is accepted.\<close>

theorem request_accepted_once:
  assumes "wf_db (sv_db sv)"
  shows "length (filter (\<lambda>(r, ok). request_nonce cr (max_jws_body_size_bytes cfg) (fst (snd r)) = n \<and> ok)
     (zip rs (authenticate_all cr cfg rs sv))) \<le> 1"
  using request_use.at_most_one_win [OF assms, of cr cfg n rs]
  unfolding request_use.wins_def authenticate_all_redeem by (simp add: case_prod_beta)

text \<open>
  A request whose protected \<open>url\<close> has an unbalanced bracket in its host, with any live nonce,
  is answered by an uncaught exception: no problem document, before any signature is
  checked, and its nonce is spent.
\<close>

theorem bracket_url_uncaught:
  assumes "wf_db (sv_db sv)" "jws_and_header cr (max_jws_body_size_bytes cfg) rq = Inr (header, jws)"
    "map_of header ''nonce'' = Some (JStr n)" "n \<noteq> []" "fst (consume_nonce (en_now en) n (sv_db sv))"
    "map_of header ''url'' = Some (JStr ''https://['')"
  shows "authenticate_account cr en cfg rq path sv =
     (Inl (Uncaught ''ValueError''), sv\<lparr>sv_db := snd (consume_nonce (en_now en) n (sv_db sv)), sv_nonce_spent := True\<rparr>)"
proof -
  have "consume_request_nonce en header sv = (Inr (), sv\<lparr>sv_db := snd (consume_nonce (en_now en) n (sv_db sv))\<rparr>)"
    using assms(3-5) by (simp add: consume_request_nonce_def Let_def case_prod_beta)
  with assms(2) verify_url_crashes [OF assms(6)] show ?thesis
    by (simp add: authenticate_account_def verify_existing_account_jws_def parse_jws_header_def hbind_def lift_fault_def
        nonce_spent_def)
qed

section \<open>Witnesses\<close>

text \<open>A request as a client of the sample account sends it.\<close>

definition sample_header :: "string \<Rightarrow> details" where
  "sample_header u = [(''alg'', JStr ''ES256''), (''kid'', JStr ''https://ra/acme/acct/a''), (''nonce'', JStr ''n''), (''url'', JStr u)]"

definition sample_jws :: details where
  "sample_jws = [(''protected'', JStr ''AA''), (''payload'', JStr ''AQ''), (''signature'', JStr (base64url_encode (replicate 64 7)))]"

definition sample_crypto :: "(bytes \<Rightarrow> loads_error + json) \<Rightarrow> details \<Rightarrow> details \<Rightarrow> crypto" where
  "sample_crypto rest header payload =
     \<lparr>c_loads = (\<lambda>b. if b = [3] then Inr (JObj sample_jws) else if b = [0] then Inr (JObj header)
                     else if b = [1] then Inr (JObj payload) else rest b),
      c_public_key = (\<lambda>_. True), c_verify = (\<lambda>_ _ _ _. True), c_hmac = (\<lambda>_ _ _. []), c_ip_literal = (\<lambda>_. False)\<rparr>"

definition nothing :: "bytes \<Rightarrow> loads_error + json" where
  "nothing b = Inl DecodeError"

definition sample_request :: request where
  "sample_request = \<lparr>rq_content_types = [''application/jose+json''], rq_content_length = None, rq_chunks = [(0, [3])], rq_end = Some 1\<rparr>"

definition nonce_server :: server where
  "nonce_server = signed_server\<lparr>sv_db := (sv_db signed_server)\<lparr>nonces := [\<lparr>nonce_text = ''n'', nonce_created_at = 0\<rparr>]\<rparr>, sv_nonce_spent := False\<rparr>"

definition spent_server :: server where
  "spent_server = signed_server\<lparr>sv_db := (sv_db signed_server)\<lparr>nonces := []\<rparr>, sv_nonce_spent := True\<rparr>"

lemma wf_nonce_server: "wf_db (sv_db nonce_server)" "wf_db (sv_db spent_server)"
  using wf_signed by (simp_all add: nonce_server_def spent_server_def wf_db_def)

definition spend :: "server \<Rightarrow> server" where
  "spend sv = sv\<lparr>sv_db := (sv_db sv)\<lparr>nonces := []\<rparr>, sv_nonce_spent := True\<rparr>"

lemma spend_server: "spend nonce_server = spent_server"
  by (simp add: spend_def nonce_server_def spent_server_def)

lemma spend_account [simp]: "get_account i (sv_db (spend sv)) = get_account i (sv_db sv)"
  by (simp add: spend_def get_account_def)

lemma consume_sample:
  assumes "nonces s = [\<lparr>nonce_text = ''n'', nonce_created_at = 0\<rparr>]"
  shows "consume_nonce 0 ''n'' s = (True, s\<lparr>nonces := []\<rparr>)"
  using assms by (simp add: consume_nonce_def select_nonce_def delete_nonce_def nonce_live_def nonce_cutoff_def
      cutoff_before_def NONCE_TTL_SECONDS_def micros_def)

lemma nonces_sample: "nonces (sv_db nonce_server) = [\<lparr>nonce_text = ''n'', nonce_created_at = 0\<rparr>]" "en_now sample_env = 0"
  by (simp_all add: nonce_server_def sample_env_def)

lemma decode_sample: "base64url_decode ''AA'' = Inr [0]" "base64url_decode ''AQ'' = Inr [1]"
  by code_simp+

lemma envelope_sample: "jws_and_header (sample_crypto rest header payload) 99 sample_request = Inr (header, sample_jws)"
proof -
  have "require_jose_json sample_request = Inr ()" by code_simp
  moreover have "read_body_limited 99 sample_request = Inr [3]"
    by (simp add: read_body_limited_def sample_request_def DEFAULT_BODY_TOTAL_TIMEOUT_def Let_def)
  ultimately have "parse_jws_body (sample_crypto rest header payload) 99 sample_request = Inr sample_jws"
    by (simp add: parse_jws_body_def acme_def sample_crypto_def)
  moreover have "require_flattened_without_unprotected_header sample_jws = Inr ()"
    by (simp add: require_flattened_without_unprotected_header_def sample_jws_def)
  moreover have "protected_header (sample_crypto rest header payload) sample_jws = Inr header"
    by (simp add: protected_header_def sample_jws_def decode_sample sample_crypto_def)
  ultimately show ?thesis by (simp add: jws_and_header_def acme_def del: flattened_Inr)
qed

lemma signature_sample:
  assumes "map_of header ''alg'' = Some (JStr ''ES256'')"
  shows "verify_jws_signature (sample_crypto rest header payload) sample_jws (ECPublicNumbers 256 x y) = Inr payload"
proof -
  have o: "octets (replicate 64 7)" by (simp add: list_all_iff)
  obtain der where "raw_ecdsa_to_der (replicate 64 7) 32 = Inr der"
    by (simp add: raw_ecdsa_to_der_def Let_def)
  moreover have "ec_alg 256 256 ''ES256''" by (simp add: ec_alg_def show_hash)
  moreover have "base64url_decode (base64url_encode (replicate 64 7)) = Inr (replicate 64 7)" using decode_encode [OF o] .
  ultimately have "jws_verified (sample_crypto rest header payload) sample_jws (ECPublicNumbers 256 x y) [1]"
    using assms
    by (simp add: jws_verified_def sample_jws_def decode_sample sample_crypto_def signed_with_def coordinate_length_for_curve_def) blast
  moreover have "payload_of (sample_crypto rest header payload) [1] payload" by (simp add: payload_of_def sample_crypto_def)
  ultimately show ?thesis using verify_jws_signature_ok by blast
qed

lemma parse_sample:
  assumes "map_of header ''nonce'' = Some (JStr ''n'')" "verify_url (\<lambda>_. False) header u = Inr ()"
    "nonces (sv_db sv) = [\<lparr>nonce_text = ''n'', nonce_created_at = 0\<rparr>]" "en_now en = 0"
  shows "parse_jws_header (sample_crypto rest header payload) en 99 sample_request u sv = (Inr (header, sample_jws), spend sv)"
proof -
  have "consume_request_nonce en header sv = (Inr (), sv\<lparr>sv_db := (sv_db sv)\<lparr>nonces := []\<rparr>\<rparr>)"
    using assms(1,4) consume_sample [OF assms(3)] by (simp add: consume_request_nonce_def)
  moreover have "c_ip_literal (sample_crypto rest header payload) = (\<lambda>_. False)" by (simp add: sample_crypto_def)
  ultimately show ?thesis
    using assms(2) by (simp add: parse_jws_header_def hbind_def lift_fault_def envelope_sample nonce_spent_def spend_def)
qed

lemma limit_sample: "max_jws_body_size_bytes sample_cfg = 99"
  by (simp add: sample_cfg_def)

abbreviation sample_key :: json where
  "sample_key \<equiv> ec_jwk [] (replicate 32 1) (replicate 32 2)"

lemma authenticate_sample_at:
  assumes "verify_url (\<lambda>_. False) (sample_header u) (url sample_cfg path) = Inr ()"
    "nonces (sv_db sv) = [\<lparr>nonce_text = ''n'', nonce_created_at = 0\<rparr>]" "en_now en = 0"
    "get_account ''a'' (sv_db sv) = Some row" "acc_jwk row = Some sample_key" "acc_status row = AcctVALID" "acc_eab_kid row = ''k''"
    "jwk_thumbprint (x_sha256 (en_ext en)) sample_key = Inr tp"
  shows "authenticate_account (sample_crypto rest (sample_header u) payload) en sample_cfg sample_request path sv
     = (Inr (sample_header u, payload, row, tp), spend sv)"
proof -
  let ?cr = "sample_crypto rest (sample_header u) payload"
  let ?key = "ECPublicNumbers 256 (from_bytes (replicate 32 1)) (from_bytes (replicate 32 2))"
  have p: "parse_jws_header ?cr en 99 sample_request (url sample_cfg path) sv = (Inr (sample_header u, sample_jws), spend sv)"
    using assms(1-3) by (intro parse_sample) (simp_all add: sample_header_def)
  have k: "kid_to_account_id ''https://ra/acme/acct/a'' (account_url_prefix sample_cfg) = Inr ''a''"
    by (simp add: kid_to_account_id_def account_url_prefix_def url_def sample_cfg_def rstrip_def)
  have "public_key ?cr sample_key = Inr ?key"
    unfolding public_key_def signed_key by (simp add: sample_crypto_def)
  then have a: "account_key ?cr en row = Inr (?key, tp)"
    using assms(5,8) by (simp add: account_key_def)
  have "verify_jws_signature ?cr sample_jws ?key = Inr payload" by (rule signature_sample) (simp add: sample_header_def)
  with p k a have v: "verify_existing_account_jws ?cr en 99 sample_request (url sample_cfg path)
      (account_url_prefix sample_cfg) sv = (Inr (sample_header u, payload, ''a'', tp), spend sv)"
    using assms(4) by (simp add: verify_existing_account_jws_def hbind_def lift_def lift_fault_def sample_header_def)
  have "enforce_account_usable en sample_cfg row (spend sv) = (Inr (), spend sv)"
    using assms(6,7) by (simp add: enforce_account_usable_def sample_cfg_def eab_kids_def)
  with v assms(4) show ?thesis by (simp add: authenticate_account_def hbind_def limit_sample)
qed

lemma authenticate_sample:
  assumes "verify_url (\<lambda>_. False) (sample_header u) (url sample_cfg path) = Inr ()"
  shows "authenticate_account (sample_crypto rest (sample_header u) payload) sample_env sample_cfg sample_request path nonce_server
     = (Inr (sample_header u, payload, signed_account, []), spent_server)"
  unfolding spend_server [symmetric]
  using assms nonces_sample signed_row signed_thumbprint
  by (intro authenticate_sample_at) (simp_all add: signed_account_def sample_account_def nonce_server_def get_account_def)

lemma url_sample: "verify_url (\<lambda>_. False) (sample_header ''https://ra/acme/new-order'') (url sample_cfg ''/acme/new-order'') = Inr ()"
  by code_simp

theorem authenticated_request_witness:
  "fresh_nonce sample_env (sample_header ''https://ra/acme/new-order'') nonce_server spent_server
   \<and> acc_status signed_account = AcctVALID"
  using authenticated_request [OF wf_nonce_server(1) authenticate_sample [OF url_sample, of nothing "[]"]] by blast

theorem request_accepted_once_witness:
  "let cr = sample_crypto nothing (sample_header ''https://ra/acme/new-order'') [];
       r = (sample_env, sample_request, ''/acme/new-order'')
   in authenticate_all cr sample_cfg [r, r] nonce_server = [True, False]"
proof -
  let ?cr = "sample_crypto nothing (sample_header ''https://ra/acme/new-order'') []"
  let ?r = "(sample_env, sample_request, ''/acme/new-order'')"
  have n: "request_nonce ?cr (max_jws_body_size_bytes sample_cfg) sample_request = ''n''"
    using envelope_sample [of nothing "sample_header ''https://ra/acme/new-order''" "[]"]
    by (simp add: request_nonce_def sample_cfg_def) (simp add: sample_header_def)
  have "fst (authenticates ?cr sample_cfg ?r nonce_server)"
    using authenticate_sample [OF url_sample, of nothing "[]"] by (simp add: authenticates_def)
  then show ?thesis
    using request_accepted_once [OF wf_nonce_server(1), of ?cr sample_cfg "''n''" "[?r, ?r]"] n
    by (auto simp: Let_def split: if_splits)
qed

theorem bracket_url_uncaught_witness:
  "fst (authenticate_account (sample_crypto nothing (sample_header ''https://['') []) sample_env sample_cfg sample_request
     ''/acme/new-order'' nonce_server) = Inl (Uncaught ''ValueError'')"
proof -
  have e: "jws_and_header (sample_crypto nothing (sample_header ''https://['') []) (max_jws_body_size_bytes sample_cfg) sample_request
      = Inr (sample_header ''https://['', sample_jws)"
    using envelope_sample by (simp add: sample_cfg_def)
  show ?thesis
    using bracket_url_uncaught [OF wf_nonce_server(1) e, of "''n''" sample_env "''/acme/new-order''"] consume_sample [OF nonces_sample(1)]
    by (simp add: sample_header_def sample_env_def)
qed

end
