(* ===== verification/AccountRoutes.thy ===== *)
theory AccountRoutes
  imports ServerJws
begin

text \<open>
  The account routes: \<open>new_account\<close>, \<open>account_resource\<close> and \<open>account_orders\<close> of
  \<open>src/src/acme_adcs_ra/routes/accounts.py\<close>, \<open>key_change\<close> of
  \<open>src/src/acme_adcs_ra/routes/key_change.py\<close>, and the JSON documents of
  \<open>src/src/acme_adcs_ra/serializers.py\<close>. What runs under the account's issuance lock is a
  definition of its own, so that it can be read from any state an interleaving leaves it
  in. A timestamp in a document is its number of seconds. The timing-equalising dummy HMAC
  is not modelled.
\<close>

section \<open>Documents\<close>

record response =
  rs_status :: nat
  rs_headers :: "(string \<times> string) list"
  rs_body :: json

definition json_response :: "nat \<Rightarrow> json \<Rightarrow> response" where
  "json_response status body = \<lparr>rs_status = status, rs_headers = [], rs_body = body\<rparr>"

definition account_url :: "config \<Rightarrow> string \<Rightarrow> string" where
  "account_url cfg account_id = url cfg (''/acme/acct/'' @ account_id)"

definition account_to_json :: "config \<Rightarrow> AccountRow \<Rightarrow> details" where
  "account_to_json cfg account =
     [(''status'', JStr (status_text (acc_status account))), (''contact'', JList (acc_contact account)),
      (''orders'', JStr (url cfg (''/acme/acct/'' @ acc_id account @ ''/orders'')))]"

definition account_reply :: "config \<Rightarrow> nat \<Rightarrow> AccountRow \<Rightarrow> details \<Rightarrow> response" where
  "account_reply cfg status account extra =
     (json_response status (JObj (account_to_json cfg account @ extra)))
       \<lparr>rs_headers := [(''Location'', account_url cfg (acc_id account))]\<rparr>"

section \<open>newAccount\<close>

definition deny_binding :: "env \<Rightarrow> details \<Rightarrow> 'a handler" where
  "deny_binding en details =
     hbind (audited en (audit_ev ''account-creation-denied'' None None ''failed'' details))
       (\<lambda>_. raising bad_external_account_binding)"

definition lookup_by_jwk :: "env \<Rightarrow> json \<Rightarrow> AccountRow option handler" where
  "lookup_by_jwk en jwk sv =
     (case get_account_by_jwk (en_ext en) jwk (sv_db sv) of
        Inl e \<Rightarrow> (Inl (StoreFault e), sv)
      | Inr a \<Rightarrow> (Inr a, sv))"

text \<open>The binding's header, read before the MAC is checked, and the key it names.\<close>

definition binding_header :: "crypto \<Rightarrow> env \<Rightarrow> details \<Rightarrow> (details \<times> string) handler" where
  "binding_header cr en eab_jws =
     (case jws_parts eab_jws of
        Inl _ \<Rightarrow> deny_binding en [(''reason'', JStr ''EAB protected/payload/signature must be strings'')]
      | Inr (protected_b64, payload_b64, signature_b64) \<Rightarrow>
          (case rbind (map_sum (\<lambda>_. ()) id (base64url_decode protected_b64)) (\<lambda>b. map_sum (\<lambda>_. ()) id (c_loads cr b)) of
             Inl _ \<Rightarrow> deny_binding en [(''reason'', JStr ''invalid EAB protected header'')]
           | Inr (JObj eab_header) \<Rightarrow>
               (case map_of eab_header ''kid'' of
                  Some (JStr eab_kid) \<Rightarrow>
                    if eab_kid = [] then deny_binding en [(''reason'', JStr ''EAB protected header missing kid'')]
                    else ret (eab_header, eab_kid)
                | None \<Rightarrow> deny_binding en [(''reason'', JStr ''EAB protected header missing kid'')]
                | Some JNull \<Rightarrow> deny_binding en [(''reason'', JStr ''EAB protected header missing kid'')]
                | Some _ \<Rightarrow> deny_binding en [(''reason'', JStr ''EAB kid must be a string'')])
           | Inr _ \<Rightarrow> deny_binding en [(''reason'', JStr ''EAB protected header is not a JSON object'')]))"

text \<open>The kid whose configured key the binding's MAC verifies under.\<close>

definition verified_binding ::
  "crypto \<Rightarrow> env \<Rightarrow> config \<Rightarrow> string \<Rightarrow> details \<Rightarrow> details \<Rightarrow> (details \<times> string) handler" where
  "verified_binding cr en cfg new_account_url eab_jws account_jwk =
     hbind (binding_header cr en eab_jws) (\<lambda>(eab_header, eab_kid).
       case eab_key_bytes cfg eab_kid of
         Inl _ \<Rightarrow> lift_fault (Inl (Uncaught ''binascii.Error''))
       | Inr mac_key \<Rightarrow>
           if mac_key = None \<or> mac_key = Some []
           then deny_binding en [(''reason'', JStr ''unknown EAB kid''), (''kid'', JStr eab_kid)]
           else (case verify_eab_jws cr eab_jws account_jwk (the mac_key) (Some new_account_url) of
                   Inl (JwsError _) \<Rightarrow>
                     deny_binding en [(''reason'', JStr ''EAB MAC verification failed''), (''kid'', JStr eab_kid)]
                 | Inl JwsLimit \<Rightarrow> lift_fault (Inl (Uncaught ''json limit''))
                 | Inr (JStr verified_kid) \<Rightarrow> ret (eab_header, verified_kid)
                 | Inr _ \<Rightarrow> lift_fault (Inl (Uncaught ''TypeError''))))"

text \<open>The idempotent answer to a request that lost a race for its own key.\<close>

definition winner_or :: "env \<Rightarrow> config \<Rightarrow> json \<Rightarrow> response handler \<Rightarrow> response handler" where
  "winner_or en cfg account_jwk otherwise =
     hbind (lookup_by_jwk en account_jwk) (\<lambda>winner.
       case winner of None \<Rightarrow> otherwise | Some a \<Rightarrow> ret (account_reply cfg 200 a []))"

definition register_account ::
  "env \<Rightarrow> config \<Rightarrow> string \<Rightarrow> json \<Rightarrow> details \<Rightarrow> details \<Rightarrow> details \<Rightarrow> string \<Rightarrow> response handler" where
  "register_account en cfg account_id account_jwk payload eab_jws eab_header verified_kid =
     (case (case map_of payload ''contact'' of None \<Rightarrow> JList [] | Some c \<Rightarrow> c) of
        JList contact \<Rightarrow>
          hbind (on_db (create_account_with_audit (en_ext en) (en_now en) account_id account_jwk verified_kid AcctVALID contact
                   (audit_ev ''account-created'' None None ''success''
                      [(''eab_kid'', JStr verified_kid), (''alg'', get_member eab_header ''alg'')])
                   (max_accounts_per_eab_kid cfg))) (\<lambda>created.
            case created of
              Inr (account, event) \<Rightarrow>
                ret (account_reply cfg 201 account
                  ([(''externalAccountBinding'', JObj eab_jws)]
                   @ (if terms_of_service cfg \<noteq> []
                      then [(''termsOfServiceAgreed'',
                             case map_of payload ''termsOfServiceAgreed'' of None \<Rightarrow> JBool False | Some v \<Rightarrow> v)]
                      else [])))
            | Inl (EabAccountLimitExceeded kid limit n) \<Rightarrow>
                winner_or en cfg account_jwk (deny_binding en [(''reason'', JStr ''eab-account-limit''), (''kid'', JStr kid),
                  (''limit'', JInt (int limit)), (''count'', JInt (int n))])
            | Inl IntegrityError \<Rightarrow>
                winner_or en cfg account_jwk (lift_fault (Inl (StoreFault IntegrityError)))
            | Inl e \<Rightarrow> lift_fault (Inl (StoreFault e)))
      | _ \<Rightarrow> raising malformed)"

text \<open>\<open>new_account\<close> after the JWS is verified, and the handler.\<close>

definition admit_account ::
  "crypto \<Rightarrow> env \<Rightarrow> config \<Rightarrow> string \<Rightarrow> string \<Rightarrow> details \<Rightarrow> details \<Rightarrow> response handler" where
  "admit_account cr en cfg new_account_url account_id payload account_jwk =
     hbind (lookup_by_jwk en (JObj account_jwk)) (\<lambda>existing.
       case existing of
         Some a \<Rightarrow> ret (account_reply cfg 200 a [])
       | None \<Rightarrow>
           if map_of payload ''onlyReturnExisting'' = Some (JBool True) then raising account_does_not_exist
           else (case map_of payload ''externalAccountBinding'' of
                   Some (JObj eab_jws) \<Rightarrow>
                     hbind (verified_binding cr en cfg new_account_url eab_jws account_jwk) (\<lambda>(eab_header, verified_kid).
                       register_account en cfg account_id (JObj account_jwk) payload eab_jws eab_header verified_kid)
                 | _ \<Rightarrow> deny_binding en [(''reason'', JStr ''missing externalAccountBinding'')]))"

definition new_account :: "crypto \<Rightarrow> env \<Rightarrow> config \<Rightarrow> request \<Rightarrow> string \<Rightarrow> response handler" where
  "new_account cr en cfg rq account_id =
     (let new_account_url = url cfg ''/acme/new-acct'' in
      hbind (verify_new_account_jws cr en (max_jws_body_size_bytes cfg) rq new_account_url) (\<lambda>(header, payload, account_jwk).
        admit_account cr en cfg new_account_url account_id payload account_jwk))"

section \<open>The account resource\<close>

text \<open>The deactivation under the account lock; \<open>account\<close> is the row the request was authenticated with.\<close>

definition row_thumbprint :: "env \<Rightarrow> AccountRow \<Rightarrow> fault + string" where
  "row_thumbprint en account =
     (case acc_jwk account of
        None \<Rightarrow> Inl (Uncaught ''JSONDecodeError'')
      | Some jwk \<Rightarrow> (case thumbprint_of (en_ext en) jwk of Inl e \<Rightarrow> Inl (StoreFault e) | Inr t \<Rightarrow> Inr t))"

definition deactivate_locked :: "env \<Rightarrow> config \<Rightarrow> AccountRow \<Rightarrow> string \<Rightarrow> unit handler" where
  "deactivate_locked en cfg account authenticated_thumbprint sv =
     (case get_account (acc_id account) (sv_db sv) of
        None \<Rightarrow> raising unauthorized sv
      | Some current \<Rightarrow>
          hbind (enforce_account_usable en cfg current) (\<lambda>_.
          hbind (lift_fault (row_thumbprint en current)) (\<lambda>t.
            if t \<noteq> authenticated_thumbprint then
              hbind (audited en (audit_ev ''account-deactivation-stale'' (Some (acc_id account)) None ''denied''
                       [(''reason'', JStr ''account-key-changed'')])) (\<lambda>_. raising unauthorized)
            else
              hbind (on_db (update_account_status (acc_id account) AcctDEACTIVATED)) (\<lambda>applied.
              audited en (audit_ev ''account-deactivated'' (Some (acc_id account)) None ''success''
                [(''eab_kid'', JStr (acc_eab_kid account)), (''applied'', JBool applied)])))) sv)"

definition account_resource :: "crypto \<Rightarrow> env \<Rightarrow> config \<Rightarrow> request \<Rightarrow> string \<Rightarrow> response handler" where
  "account_resource cr en cfg rq account_id =
     hbind (authenticate_account cr en cfg rq (''/acme/acct/'' @ account_id)) (\<lambda>(header, payload, account, thumbprint).
       if acc_id account \<noteq> account_id then raising unauthorized
       else (case map_of payload ''status'' of
               None \<Rightarrow> ret (json_response 200 (JObj (account_to_json cfg account)))
             | Some JNull \<Rightarrow> ret (json_response 200 (JObj (account_to_json cfg account)))
             | Some requested_status \<Rightarrow>
                 if requested_status \<noteq> JStr ''deactivated'' then raising malformed
                 else hbind (deactivate_locked en cfg account thumbprint) (\<lambda>_ sv.
                   case get_account (acc_id account) (sv_db sv) of
                     None \<Rightarrow> raising unauthorized sv
                   | Some refreshed \<Rightarrow> ret (json_response 200 (JObj (account_to_json cfg refreshed))) sv)))"

definition account_orders :: "crypto \<Rightarrow> env \<Rightarrow> config \<Rightarrow> request \<Rightarrow> string \<Rightarrow> response handler" where
  "account_orders cr en cfg rq account_id =
     hbind (authenticate_account cr en cfg rq (''/acme/acct/'' @ account_id @ ''/orders'')) (\<lambda>(header, payload, account, thumbprint).
       if acc_id account \<noteq> account_id then raising unauthorized
       else if payload \<noteq> [] then raising malformed
       else (\<lambda>sv. ret (json_response 200 (JObj [(''orders'',
               JList (map (\<lambda>r. JStr (order_url cfg (ord_id r))) (list_orders_by_account (acc_id account) 500 (sv_db sv))))])) sv))"

section \<open>keyChange\<close>

text \<open>The inner JWS: its header is bound to the outer one and its signature proves the new key.\<close>

definition inner_header :: "crypto \<Rightarrow> details \<Rightarrow> details \<Rightarrow> AcmeError + (details \<times> details)" where
  "inner_header cr outer_header inner_jws =
     (if map_of inner_jws ''protected'' = None then Inl malformed
      else case require_flattened_without_unprotected_header inner_jws of
          Inl _ \<Rightarrow> Inl malformed
        | Inr _ \<Rightarrow>
            rbind (protected_header cr inner_jws) (\<lambda>header.
              case map_of header ''jwk'' of
                Some (JObj new_jwk) \<Rightarrow>
                  if \<not> py_eq (map_of header ''url'') (map_of outer_header ''url'') then Inl malformed
                  else if map_of header ''nonce'' \<noteq> None then Inl malformed
                  else if map_of header ''kid'' \<noteq> None then Inl malformed
                  else Inr (header, new_jwk)
              | _ \<Rightarrow> Inl malformed))"

definition inner_payload :: "crypto \<Rightarrow> details \<Rightarrow> public_numbers \<Rightarrow> fault + details" where
  "inner_payload cr inner_jws new_key =
     (case verify_flattened_jws cr inner_jws new_key of
        Inl (JwsError UnsupportedSignatureAlgorithmError) \<Rightarrow> Inl (Acme (bad_signature_algorithm SUPPORTED_JWS_ALGORITHMS))
      | Inl (JwsError _) \<Rightarrow> Inl (Acme unauthorized)
      | Inl JwsLimit \<Rightarrow> Inl (Uncaught ''json limit'')
      | Inr b \<Rightarrow> loads_or_malformed (c_loads cr b))"

text \<open>Both keys named by the inner JWS, as thumbprints: the old one is the account's, the new one differs.\<close>

definition rollover_thumbprints ::
  "env \<Rightarrow> details \<Rightarrow> AccountRow \<Rightarrow> details \<Rightarrow> details \<Rightarrow> fault + (string \<times> string)" where
  "rollover_thumbprints en outer_header account payload new_jwk =
     (let thumb = jwk_thumbprint (x_sha256 (en_ext en)) in
      if \<not> py_eq (map_of payload ''account'') (map_of outer_header ''kid'') then Inl (Acme malformed)
      else case map_of payload ''oldKey'' of
          Some (JObj old_key) \<Rightarrow>
            (case thumb (JObj old_key) of
               Inl _ \<Rightarrow> Inl (Acme malformed)
             | Inr old_t \<Rightarrow>
                 rbind (row_thumbprint en account) (\<lambda>t.
                   if old_t \<noteq> t then Inl (Acme unauthorized)
                   else case thumb (JObj new_jwk) of
                       Inl _ \<Rightarrow> Inl (Acme malformed)
                     | Inr new_t \<Rightarrow> if new_t = old_t then Inl (Acme malformed) else Inr (old_t, new_t)))
        | _ \<Rightarrow> Inl (Acme malformed))"

definition key_change_stale :: "env \<Rightarrow> string \<Rightarrow> 'a handler" where
  "key_change_stale en account_id =
     hbind (audited en (audit_ev ''key-change-stale'' (Some account_id) None ''denied''
              [(''reason'', JStr ''account-key-or-status-changed'')])) (\<lambda>_. raising unauthorized)"

text \<open>The unique index refused the key: another account claimed it first, or the error is passed on.\<close>

definition key_taken :: "env \<Rightarrow> string \<Rightarrow> json \<Rightarrow> response handler" where
  "key_taken en account_id new_jwk =
     hbind (lookup_by_jwk en new_jwk) (\<lambda>existing.
       case existing of
         None \<Rightarrow> lift_fault (Inl (StoreFault IntegrityError))
       | Some a \<Rightarrow> if acc_id a \<noteq> account_id then raising bad_public_key else lift_fault (Inl (StoreFault IntegrityError)))"

text \<open>The rotation under the account lock, with the errors it is called under.\<close>

definition rotate_locked ::
  "env \<Rightarrow> config \<Rightarrow> AccountRow \<Rightarrow> string \<Rightarrow> json \<Rightarrow> string \<Rightarrow> response handler" where
  "rotate_locked en cfg account authenticated_thumbprint new_jwk new_key_thumbprint sv =
     (let account_id = acc_id account in
      case get_account account_id (sv_db sv) of
        None \<Rightarrow> key_change_stale en account_id sv
      | Some current \<Rightarrow>
          hbind (enforce_account_usable en cfg current) (\<lambda>_.
          hbind (lift_fault (row_thumbprint en current)) (\<lambda>t.
            if t \<noteq> authenticated_thumbprint then key_change_stale en account_id
            else
              hbind (on_db (update_account_key_with_audit (en_ext en) (en_now en) account_id new_jwk authenticated_thumbprint
                       (audit_ev ''account-key-changed'' None None ''success''
                          [(''eab_kid'', JStr (acc_eab_kid account)), (''new_key_thumbprint'', JStr new_key_thumbprint)])
                       (Some (rate_limit_window_seconds cfg)) (rate_limit_key_changes_per_window cfg))) (\<lambda>rotated.
                case rotated of
                  Inr event \<Rightarrow> ret (json_response 200 (JObj (account_to_json cfg current)))
                | Inl AccountKeyStale \<Rightarrow> key_change_stale en account_id
                | Inl (KeyChangeRateLimitExceeded kid limit n window) \<Rightarrow>
                    hbind (audited en (audit_ev ''key-change-rate-limited'' (Some account_id) None ''denied''
                             [(''reason'', JStr ''per-account-limit''), (''limit'', JInt (int limit)),
                              (''window_seconds'', JInt (int window)), (''count'', JInt (int n)),
                              (''scope'', JStr ''per-account''), (''kid'', JStr kid)]))
                      (\<lambda>_. raising (rate_limited (Some (int window))))
                | Inl IntegrityError \<Rightarrow>
                    key_taken en account_id new_jwk
                | Inl e \<Rightarrow> lift_fault (Inl (StoreFault e))))) sv)"

text \<open>The checks of the inner JWS, in their order: its header, the new key, its signature and its payload.\<close>

definition rollover_request ::
  "crypto \<Rightarrow> env \<Rightarrow> details \<Rightarrow> details \<Rightarrow> AccountRow \<Rightarrow> fault + (details \<times> string)" where
  "rollover_request cr en outer_header inner_jws account =
     rbind (acme (inner_header cr outer_header inner_jws)) (\<lambda>(header, new_jwk).
     rbind (case public_key cr (JObj new_jwk) of Inl _ \<Rightarrow> Inl (Acme bad_public_key) | Inr k \<Rightarrow> Inr k) (\<lambda>new_key.
     rbind (inner_payload cr inner_jws new_key) (\<lambda>payload.
     rbind (rollover_thumbprints en outer_header account payload new_jwk) (\<lambda>(old_t, new_t).
     Inr (new_jwk, new_t)))))"

definition key_change :: "crypto \<Rightarrow> env \<Rightarrow> config \<Rightarrow> request \<Rightarrow> response handler" where
  "key_change cr en cfg rq =
     hbind (authenticate_account cr en cfg rq ''/acme/key-change'') (\<lambda>(outer_header, inner_jws, account, thumbprint).
     hbind (lift_fault (rollover_request cr en outer_header inner_jws account)) (\<lambda>(new_jwk, new_t).
     hbind (lookup_by_jwk en (JObj new_jwk)) (\<lambda>existing.
       case existing of
         Some _ \<Rightarrow> raising bad_public_key
       | None \<Rightarrow> rotate_locked en cfg account thumbprint (JObj new_jwk) new_t)))"

section \<open>Frames\<close>

context handler_frame begin

lemma keeps_deny [intro]: "keeps (deny_binding en d)"
  unfolding deny_binding_def by (intro keeps_rules)

lemma keeps_lookup [intro]: "keeps (lookup_by_jwk en jwk)"
  by (simp add: keeps_def lookup_by_jwk_def refl split: sum.split)

lemma keeps_winner [intro]: "keeps m \<Longrightarrow> keeps (winner_or en cfg jwk m)"
  unfolding winner_or_def by (intro keeps_rules keeps_lookup)

lemma keeps_json_kid [intro]:
  assumes "keeps a" "keeps b" "\<And>s. keeps (f s)"
  shows "keeps (case v of None \<Rightarrow> a | Some JNull \<Rightarrow> a | Some (JStr s) \<Rightarrow> f s | Some _ \<Rightarrow> b)"
  using assms by (auto split: option.split json.split)

lemma keeps_binding_header [intro]: "keeps (binding_header cr en eab_jws)"
  unfolding binding_header_def by (intro keeps_rules keeps_deny)

lemma keeps_verified_binding [intro]: "keeps (verified_binding cr en cfg u eab_jws jwk)"
proof -
  have k: "keeps (case r of Inl (JwsError x) \<Rightarrow> a | Inl JwsLimit \<Rightarrow> b | Inr (JStr v) \<Rightarrow> f v | Inr _ \<Rightarrow> c)"
    if "keeps a" "keeps b" "\<And>v. keeps (f v)" "keeps c"
    for r and a b c :: "(details \<times> string) handler" and f
    using that by (auto split: sum.split jws_fault.split json.split)
  show ?thesis unfolding verified_binding_def by (intro keeps_rules keeps_binding_header keeps_deny k)
qed

lemma keeps_stale [intro]: "keeps (key_change_stale en aid)"
  unfolding key_change_stale_def by (intro keeps_rules)

lemma keeps_taken [intro]: "keeps (key_taken en aid jwk)"
  unfolding key_taken_def by (intro keeps_rules keeps_lookup)

lemma keeps_usable [intro]: "keeps (enforce_account_usable en cfg account)"
  by (auto simp: keeps_def enforce_account_usable_def refl audit_ok)

end

text \<open>A change of state by a sequence comes from its second part, when the first keeps the rows.\<close>

lemma hbind_changes:
  assumes "rows.keeps m" "\<not> rows_kept sv (snd (hbind m f sv))"
  obtains a sv' where "m sv = (Inr a, sv')" "rows_kept sv sv'" "\<not> rows_kept sv' (snd (f a sv'))"
proof -
  obtain r sv' where m: "m sv = (r, sv')" by force
  then have k: "rows_kept sv sv'" using rows.keepsD [OF assms(1), of sv] by simp
  show thesis
  proof (cases r)
    case (Inl e)
    with m k assms(2) show thesis by (simp add: hbind_def)
  next
    case (Inr a)
    moreover have "\<not> rows_kept sv' (snd (f a sv'))"
      using assms(2) m Inr k rows.trans by (auto simp: hbind_def)
    ultimately show thesis using that m k by blast
  qed
qed

end
