(* ===== verification/OrderRoutes.thy ===== *)
theory OrderRoutes
  imports AccountRoutes Finalize
begin

text \<open>
  The order, authorization, challenge and certificate routes of
  \<open>src/src/acme_adcs_ra/routes/orders.py\<close>, \<open>routes/authorizations.py\<close> and
  \<open>routes/certificates.py\<close>, with their documents from \<open>serializers.py\<close>. \<open>finalize_order\<close> is
  in \<open>Finalize\<close>; here it gets its authentication. The fresh identifiers of an order and of
  its authorizations are arguments.
\<close>

section \<open>Documents\<close>

definition order_to_json :: "OrderRow \<Rightarrow> details" where
  "order_to_json order =
     [(''status'', JStr (order_status_text (ord_status order))), (''expires'', JInt (ord_expires order)),
      (''identifiers'', JList (map (\<lambda>i. JObj [(''type'', JStr (fst i)), (''value'', JStr (snd i))]) (ord_identifiers order))),
      (''authorizations'', JList (map JStr (ord_authorizations order))), (''finalize'', JStr (ord_finalize_url order))]
     @ (case ord_certificate_url order of None \<Rightarrow> [] | Some u \<Rightarrow> if u = [] then [] else [(''certificate'', JStr u)])
     @ (case ord_processing_started_at order of None \<Rightarrow> [] | Some t \<Rightarrow> [(''processing_started_at'', JInt t)])"

definition challenge_to_json :: "ChallengeRow \<Rightarrow> details" where
  "challenge_to_json challenge =
     [(''type'', JStr (ch_type challenge)), (''status'', JStr (ch_status challenge)), (''url'', JStr (ch_url challenge)),
      (''token'', JStr (ch_token challenge))]
     @ (case ch_validated_at challenge of None \<Rightarrow> [] | Some t \<Rightarrow> [(''validated'', JInt t)])"

definition authz_to_json :: "AuthzRow \<Rightarrow> ChallengeRow list \<Rightarrow> details" where
  "authz_to_json authz chs =
     [(''status'', JStr (az_status authz)),
      (''identifier'', JObj [(''type'', JStr (fst (az_identifier authz))), (''value'', JStr (snd (az_identifier authz)))]),
      (''expires'', JInt (az_expires authz)), (''challenges'', JList (map (\<lambda>c. JObj (challenge_to_json c)) chs))]"

section \<open>newOrder\<close>

definition order_rate_limited :: "env \<Rightarrow> string \<Rightarrow> details \<Rightarrow> nat \<Rightarrow> 'a handler" where
  "order_rate_limited en account_id details window =
     hbind (audited en (audit_ev ''order-rate-limited'' (Some account_id) None ''denied'' details))
       (\<lambda>_. raising (rate_limited (Some (int window))))"

definition check_kid_limit :: "env \<Rightarrow> config \<Rightarrow> string \<Rightarrow> unit handler" where
  "check_kid_limit en cfg account_id sv =
     (let window = rate_limit_window_seconds cfg; per_kid_limit = rate_limit_orders_per_window cfg in
      if per_kid_limit = 0 then ret () sv
      else case get_account account_id (sv_db sv) of
          None \<Rightarrow> raising unauthorized sv
        | Some account \<Rightarrow>
            let kid = acc_eab_kid account;
                limit = (case rate_limit_overrides cfg kid of None \<Rightarrow> per_kid_limit | Some l \<Rightarrow> l);
                n = count_recent_orders_by_kid (en_now en) kid window (sv_db sv)
            in if limit > 0 \<and> n \<ge> limit then
                 order_rate_limited en account_id
                   [(''reason'', JStr ''per-account-limit''), (''limit'', JInt (int limit)), (''window_seconds'', JInt (int window)),
                    (''count'', JInt (int n)), (''scope'', JStr ''per-account''), (''kid'', JStr kid)] window sv
               else ret () sv)"

definition check_global_limit :: "env \<Rightarrow> config \<Rightarrow> string \<Rightarrow> unit handler" where
  "check_global_limit en cfg account_id sv =
     (let window = rate_limit_window_seconds cfg; limit = rate_limit_global_per_window cfg;
          n = count_all_recent_orders (en_now en) window (sv_db sv)
      in if limit > 0 \<and> n \<ge> limit then
           order_rate_limited en account_id
             [(''reason'', JStr ''global-limit''), (''limit'', JInt (int limit)), (''window_seconds'', JInt (int window)),
              (''count'', JInt (int n)), (''scope'', JStr ''global'')] window sv
         else ret () sv)"

definition check_rate_limit :: "env \<Rightarrow> config \<Rightarrow> string \<Rightarrow> unit handler" where
  "check_rate_limit en cfg account_id =
     hbind (check_kid_limit en cfg account_id) (\<lambda>_. check_global_limit en cfg account_id)"

text \<open>The identifiers of the payload, checked one by one.\<close>

definition parse_identifier :: "json \<Rightarrow> AcmeError + (string \<times> string)" where
  "parse_identifier item =
     (case item of
        JObj d \<Rightarrow>
          (case (map_of d ''type'', map_of d ''value'') of
             (Some (JStr t), Some (JStr v)) \<Rightarrow>
               if t \<noteq> ''dns'' \<or> v = [] then Inl unsupported_identifier
               else if CHR ''*'' \<in> set v then Inl rejected_identifier
               else (case validate_dns_name v of Inl _ \<Rightarrow> Inl rejected_identifier | Inr _ \<Rightarrow> Inr (''dns'', v))
           | _ \<Rightarrow> Inl unsupported_identifier)
      | _ \<Rightarrow> Inl malformed)"

fun parse_identifiers :: "json list \<Rightarrow> AcmeError + (string \<times> string) list" where
  "parse_identifiers [] = Inr []"
| "parse_identifiers (item # items) =
     rbind (parse_identifier item) (\<lambda>i. rbind (parse_identifiers items) (\<lambda>is. Inr (i # is)))"

definition requested_identifiers :: "config \<Rightarrow> details \<Rightarrow> AcmeError + (string \<times> string) list" where
  "requested_identifiers cfg payload =
     (case map_of payload ''identifiers'' of
        Some (JList items) \<Rightarrow>
          if items = [] then Inl malformed
          else if length items > max_identifiers_per_order cfg then Inl malformed
          else parse_identifiers items
      | _ \<Rightarrow> Inl malformed)"

definition order_urls :: "config \<Rightarrow> url_fns" where
  "order_urls cfg = \<lparr>challenge_url_fn = challenge_url cfg, authz_url_fn = authz_url cfg, finalize_url_fn = finalize_url cfg\<rparr>"

definition order_limit :: "config \<Rightarrow> string \<Rightarrow> nat" where
  "order_limit cfg kid = (case rate_limit_overrides cfg kid of None \<Rightarrow> rate_limit_orders_per_window cfg | Some l \<Rightarrow> l)"

definition place_order ::
  "env \<Rightarrow> config \<Rightarrow> string \<Rightarrow> (nat \<Rightarrow> string \<times> string \<times> string) \<Rightarrow> AccountRow \<Rightarrow> (string \<times> string) list \<Rightarrow> response handler" where
  "place_order en cfg order_id fresh account identifiers =
     hbind (on_db (create_order_with_authz (order_expiry_seconds cfg) (en_now en) (en_now en) (order_urls cfg) order_id fresh
              (acc_id account) identifiers (Some (rate_limit_window_seconds cfg)) (order_limit cfg (acc_eab_kid account))
              (rate_limit_global_per_window cfg))) (\<lambda>created.
       case created of
         Inl (OrderRateLimitExceeded scope limit n window kid) \<Rightarrow>
           order_rate_limited en (acc_id account)
             ([(''reason'', JStr (scope @ ''-limit'')), (''reason_code'', JStr scope), (''limit'', JInt (int limit)),
               (''window_seconds'', JInt (int window)), (''count'', JInt (int n)), (''scope'', JStr scope)]
              @ (case kid of None \<Rightarrow> [] | Some k \<Rightarrow> [(''kid'', JStr k)])) window
       | Inl e \<Rightarrow> lift_fault (Inl (StoreFault e))
       | Inr order \<Rightarrow>
           hbind (audited en ((audit_ev ''order-created'' (Some (acc_id account)) (Some (ord_id order)) ''success''
                    [(''identifier_count'', JInt (int (length identifiers)))])\<lparr>ev_sans := map snd identifiers\<rparr>)) (\<lambda>_.
           ret ((json_response 201 (JObj (order_to_json order)))\<lparr>rs_headers := [(''Location'', order_url cfg (ord_id order))]\<rparr>)))"

definition new_order ::
  "crypto \<Rightarrow> env \<Rightarrow> config \<Rightarrow> request \<Rightarrow> string \<Rightarrow> (nat \<Rightarrow> string \<times> string \<times> string) \<Rightarrow> response handler" where
  "new_order cr en cfg rq order_id fresh =
     hbind (authenticate_account cr en cfg rq ''/acme/new-order'') (\<lambda>(header, payload, account, thumbprint).
     hbind (check_rate_limit en cfg (acc_id account)) (\<lambda>_.
     hbind (lift (requested_identifiers cfg payload)) (\<lambda>identifiers.
     place_order en cfg order_id fresh account identifiers)))"

section \<open>Reads\<close>

definition get_order_route :: "crypto \<Rightarrow> env \<Rightarrow> config \<Rightarrow> request \<Rightarrow> string \<Rightarrow> response handler" where
  "get_order_route cr en cfg rq order_id =
     hbind (authenticate_account cr en cfg rq (''/acme/order/'' @ order_id)) (\<lambda>(header, payload, account, thumbprint).
       if payload \<noteq> [] then raising malformed
       else (\<lambda>sv. case get_order order_id (sv_db sv) of
               None \<Rightarrow> raising unauthorized sv
             | Some order \<Rightarrow> if ord_account_id order \<noteq> acc_id account then raising unauthorized sv
                             else ret (json_response 200 (JObj (order_to_json order))) sv))"

definition post_authorization :: "crypto \<Rightarrow> env \<Rightarrow> config \<Rightarrow> request \<Rightarrow> string \<Rightarrow> response handler" where
  "post_authorization cr en cfg rq authz_id =
     hbind (authenticate_account cr en cfg rq (''/acme/authz/'' @ authz_id)) (\<lambda>(header, payload, account, thumbprint).
       if payload \<noteq> [] then raising malformed
       else (\<lambda>sv. case get_authorization authz_id (sv_db sv) of
               None \<Rightarrow> raising unauthorized sv
             | Some (authz, chs) \<Rightarrow> if az_account_id authz \<noteq> acc_id account then raising unauthorized sv
                                    else ret (json_response 200 (JObj (authz_to_json authz chs))) sv))"

definition certificate_response :: "CertRow \<Rightarrow> response" where
  "certificate_response cert =
     (if cert_status cert = CertREVOKED then \<lparr>rs_status = 410, rs_headers = [], rs_body = JNull\<rparr>
      else if cert_status cert \<noteq> CertVALID then \<lparr>rs_status = 410, rs_headers = [], rs_body = JNull\<rparr>
      else \<lparr>rs_status = 200, rs_headers = [(''Content-Type'', ''application/pem-certificate-chain'')],
            rs_body = JStr (cert_pem cert @ concat (cert_chain_pem cert))\<rparr>)"

definition post_certificate :: "crypto \<Rightarrow> env \<Rightarrow> config \<Rightarrow> request \<Rightarrow> string \<Rightarrow> response handler" where
  "post_certificate cr en cfg rq certificate_id =
     hbind (authenticate_account cr en cfg rq (''/acme/cert/'' @ certificate_id)) (\<lambda>(header, payload, account, thumbprint).
       if payload \<noteq> [] then raising malformed
       else (\<lambda>sv. case get_certificate certificate_id (sv_db sv) of
               None \<Rightarrow> raising unauthorized sv
             | Some cert \<Rightarrow> if cert_account_id cert \<noteq> acc_id account then raising unauthorized sv
                            else ret (certificate_response cert) sv))"

section \<open>Challenges\<close>

definition authz_valid :: "db \<Rightarrow> string \<Rightarrow> bool" where
  "authz_valid s link =
     (case get_authorization (last_segment link) s of None \<Rightarrow> False | Some (authz, chs) \<Rightarrow> az_status authz = ''valid'')"

definition maybe_ready_order :: "env \<Rightarrow> string \<Rightarrow> unit handler" where
  "maybe_ready_order en order_id sv =
     (case get_order order_id (sv_db sv) of
        None \<Rightarrow> ret () sv
      | Some order \<Rightarrow>
          if ord_status order \<noteq> PENDING then ret () sv
          else if is_expired (ord_expires order) (en_now en) then ret () sv
          else if \<not> list_all (authz_valid (sv_db sv)) (ord_authorizations order) then ret () sv
          else hbind (on_db (transition_pending_to_ready (en_now en) order_id)) (\<lambda>_. ret ()) sv)"

definition challenge_response :: "config \<Rightarrow> ChallengeRow \<Rightarrow> AuthzRow \<Rightarrow> response" where
  "challenge_response cfg challenge authz =
     (json_response 200 (JObj (challenge_to_json challenge)))
       \<lparr>rs_headers := [(''Link'', ''<'' @ url cfg (''/acme/authz/'' @ az_id authz) @ ''>;rel=\"up\"'')]\<rparr>"

definition write_db :: "(db \<Rightarrow> db) \<Rightarrow> unit handler" where
  "write_db f sv = (Inr (), sv\<lparr>sv_db := f (sv_db sv)\<rparr>)"

text \<open>The enterprise trust decision: the challenge and its authorization become valid.\<close>

definition validate_challenge :: "env \<Rightarrow> config \<Rightarrow> AccountRow \<Rightarrow> ChallengeRow \<Rightarrow> AuthzRow \<Rightarrow> response handler" where
  "validate_challenge en cfg account challenge authz =
     hbind (write_db (update_challenge_status (ch_id challenge) ''valid'' (Some (now_iso (en_now en))))) (\<lambda>_.
     hbind (write_db (update_authorization_status (ch_authz_id challenge) ''valid'')) (\<lambda>_.
     hbind (maybe_ready_order en (az_order_id authz)) (\<lambda>_ sv.
       case get_challenge (ch_id challenge) (sv_db sv) of
         None \<Rightarrow> raising server_internal sv
       | Some refreshed \<Rightarrow>
           hbind (audited en (audit_ev ''challenge-validated'' (Some (acc_id account)) (Some (az_order_id authz)) ''success''
                    [(''challenge_id'', JStr (ch_id challenge)), (''authz_id'', JStr (az_id authz))])) (\<lambda>_.
           ret (challenge_response cfg refreshed authz)) sv)))"

definition post_challenge :: "crypto \<Rightarrow> env \<Rightarrow> config \<Rightarrow> request \<Rightarrow> string \<Rightarrow> response handler" where
  "post_challenge cr en cfg rq challenge_id =
     hbind (authenticate_account cr en cfg rq (''/acme/challenge/'' @ challenge_id)) (\<lambda>(header, payload, account, thumbprint) sv.
       case get_challenge challenge_id (sv_db sv) of
         None \<Rightarrow> raising unauthorized sv
       | Some challenge \<Rightarrow>
           (case get_authorization (ch_authz_id challenge) (sv_db sv) of
              None \<Rightarrow> raising unauthorized sv
            | Some (authz, chs) \<Rightarrow>
                if az_account_id authz \<noteq> acc_id account then raising unauthorized sv
                else if payload \<noteq> [] then raising malformed sv
                else if ch_status challenge = ''valid'' then ret (challenge_response cfg challenge authz) sv
                else validate_challenge en cfg account challenge authz sv))"

section \<open>Finalize\<close>

definition finalize_route ::
  "crypto \<Rightarrow> env \<Rightarrow> config \<Rightarrow> request \<Rightarrow> string \<Rightarrow> string \<Rightarrow> bool \<Rightarrow> enroll_answer \<Rightarrow> fault option \<Rightarrow> reply handler" where
  "finalize_route cr en cfg rq cid order_id gate_busy answer disk =
     hbind (authenticate_account cr en cfg rq (''/acme/finalize/'' @ order_id)) (\<lambda>(header, payload, account, thumbprint).
       finalize_order en cfg cid (acc_id account) thumbprint payload order_id gate_busy answer disk)"

end
