(* ===== verification/AccountSafety.thy ===== *)
theory AccountSafety
  imports AccountRoutes
begin

text \<open>
  What the account routes guarantee: an account exists only under a verified external
  account binding, its key changes only when both keys have signed, and a deactivated
  account is never authenticated again. Every account route is a run of store operations.
\<close>

section \<open>Accounts are bound to credentials\<close>

lemma deny_not_Inr [simp]: "deny_binding en d sv \<noteq> (Inr a, sv')"
  by (simp add: deny_binding_def hbind_def audited_def)

lemma lookup_Inr [simp]: "lookup_by_jwk en jwk sv = (Inr a, sv') \<longleftrightarrow> sv' = sv \<and> get_account_by_jwk (en_ext en) jwk (sv_db sv) = Inr a"
  by (auto simp: lookup_by_jwk_def split: sum.split)

lemma map_sum_Inr [simp]: "map_sum f id r = Inr a \<longleftrightarrow> r = Inr a"
  by (cases r) auto

lemma create_account_created:
  assumes "create_account_with_audit x now i jwk kid st contact ev m s = (Inr (account, event), s')"
  shows "accounts s' = accounts s @ [account] \<and> acc_id account = i \<and> acc_eab_kid account = kid \<and> acc_jwk account = Some jwk
    \<and> acc_status account = st \<and> kid_accounts kid s < m"
proof -
  from create_account_with_audit_ok [OF assms] obtain s1 where q: "kid_accounts kid s < m"
    and s1: "insert_account x now i jwk kid st contact s = Inr (account, s1)"
    and r: "(event, s') = record_audit_in_conn x now (ev\<lparr>ev_account := Some (acc_id account)\<rparr>) s1" by blast
  have "accounts s' = accounts s1" using record_audit_frame(1) r by (metis snd_conv)
  with insert_account_ok [OF s1] q show ?thesis by simp
qed

lemma binding_header_ok:
  assumes "binding_header cr en eab_jws sv = (Inr (h, kid), sv')"
  shows "sv' = sv" "\<exists>p b. map_of eab_jws ''protected'' = Some (JStr p) \<and> base64url_decode p = Inr b \<and> c_loads cr b = Inr (JObj h)"
    "map_of h ''kid'' = Some (JStr kid)"
proof -
  obtain p q s where parts: "jws_parts eab_jws = Inr (p, q, s)"
    using assms by (auto simp: binding_header_def split: sum.splits)
  let ?r = "rbind (map_sum (\<lambda>_. ()) id (base64url_decode p)) (\<lambda>b. map_sum (\<lambda>_. ()) id (c_loads cr b))"
  obtain j where j: "?r = Inr j" using assms parts by (auto simp: binding_header_def split: sum.splits)
  obtain d where d: "j = JObj d" using assms parts j by (auto simp: binding_header_def split: json.splits)
  obtain k where k: "map_of d ''kid'' = Some (JStr k)"
    using assms parts j d by (auto simp: binding_header_def split: option.splits json.splits)
  with assms parts j d have "h = d" "kid = k" "sv' = sv" by (auto simp: binding_header_def split: if_splits)
  with k d j parts show "sv' = sv" "map_of h ''kid'' = Some (JStr kid)"
    "\<exists>p b. map_of eab_jws ''protected'' = Some (JStr p) \<and> base64url_decode p = Inr b \<and> c_loads cr b = Inr (JObj h)"
    by (auto simp: jws_parts_Inr)
qed

lemma verified_binding_ok:
  assumes "verified_binding cr en cfg u eab_jws jwk sv = (Inr (h, kid), sv')"
  shows "sv' = sv \<and> (\<exists>mac. eab_key_bytes cfg kid = Inr (Some mac) \<and> mac \<noteq> [] \<and> eab_verified cr eab_jws jwk mac u (JStr kid))"
proof -
  from assms obtain h' k sv1 where b: "binding_header cr en eab_jws sv = (Inr (h', k), sv1)"
    and r: "(case eab_key_bytes cfg k of
         Inl _ \<Rightarrow> lift_fault (Inl (Uncaught ''binascii.Error''))
       | Inr mac_key \<Rightarrow>
           if mac_key = None \<or> mac_key = Some []
           then deny_binding en [(''reason'', JStr ''unknown EAB kid''), (''kid'', JStr k)]
           else (case verify_eab_jws cr eab_jws jwk (the mac_key) (Some u) of
                   Inl (JwsError _) \<Rightarrow>
                     deny_binding en [(''reason'', JStr ''EAB MAC verification failed''), (''kid'', JStr k)]
                 | Inl JwsLimit \<Rightarrow> lift_fault (Inl (Uncaught ''json limit''))
                 | Inr (JStr verified_kid) \<Rightarrow> ret (h', verified_kid)
                 | Inr _ \<Rightarrow> lift_fault (Inl (Uncaught ''TypeError'')))) sv1 = (Inr (h, kid), sv')"
    unfolding verified_binding_def by (auto simp: hbind_Inr_iff)
  note bh = binding_header_ok [OF b]
  from r obtain mac where m: "eab_key_bytes cfg k = Inr (Some mac)" "mac \<noteq> []"
    by (auto simp: lift_fault_def split: sum.splits option.splits if_splits)
  with r obtain j where j: "verify_eab_jws cr eab_jws jwk mac (Some u) = Inr j"
    by (auto simp: lift_fault_def split: sum.splits jws_fault.splits)
  with r m have v: "j = JStr kid" "sv' = sv1" by (auto simp: lift_fault_def split: json.splits)
  have e: "eab_verified cr eab_jws jwk mac u (JStr kid)" using j v verify_eab_jws_iff by simp
  then have "kid = k" using bh(2,3) by (auto simp: eab_verified_def)
  with m e v bh(1) show ?thesis by blast
qed

lemma register_changes:
  assumes "\<not> rows_kept sv (snd (register_account en cfg i jwk payload eab h kid sv))"
  obtains contact ev account event s' where
    "create_account_with_audit (en_ext en) (en_now en) i jwk kid AcctVALID contact ev (max_accounts_per_eab_kid cfg) (sv_db sv)
       = (Inr (account, event), s')"
    "snd (register_account en cfg i jwk payload eab h kid sv) = sv\<lparr>sv_db := s'\<rparr>"
proof -
  let ?contact = "case map_of payload ''contact'' of None \<Rightarrow> JList [] | Some c \<Rightarrow> c"
  obtain contact where c: "?contact = JList contact"
    using assms by (cases ?contact) (simp_all add: register_account_def rows.refl)
  let ?ev = "audit_ev ''account-created'' None None ''success'' [(''eab_kid'', JStr kid), (''alg'', get_member h ''alg'')]"
  let ?run = "create_account_with_audit (en_ext en) (en_now en) i jwk kid AcctVALID contact ?ev (max_accounts_per_eab_kid cfg) (sv_db sv)"
  obtain r s' where run: "?run = (r, s')" by force
  show thesis
  proof (cases r)
    case (Inr re)
    then obtain account event where "r = Inr (account, event)" by (cases re) auto
    with run c show thesis
      by (intro that [of contact ?ev account event s']) (simp_all add: register_account_def hbind_def on_db_def)
  next
    case (Inl e)
    then have "s' = sv_db sv" using run create_account_with_audit_fails by blast
    then have "rows_kept sv (snd (register_account en cfg i jwk payload eab h kid sv))"
      using Inl run c rows.refl [of sv]
      by (cases e) (simp_all add: register_account_def hbind_def [of "on_db _"] on_db_def lift_fault_def
          rows.keepsD [OF rows.keeps_winner [OF rows.keeps_deny]] rows.keepsD [OF rows.keeps_winner [OF rows.keeps_fault]])
    with assms show thesis by blast
  qed
qed

lemma admit_account_changes:
  assumes "\<not> rows_kept sv (snd (admit_account cr en cfg u i payload jwk sv))"
  obtains eab_jws h kid where "map_of payload ''externalAccountBinding'' = Some (JObj eab_jws)"
    "get_account_by_jwk (en_ext en) (JObj jwk) (sv_db sv) = Inr None"
    "verified_binding cr en cfg u eab_jws jwk sv = (Inr (h, kid), sv)"
    "admit_account cr en cfg u i payload jwk sv = register_account en cfg i (JObj jwk) payload eab_jws h kid sv"
proof -
  have kept: "rows_kept sv (snd (deny_binding en d sv))" for d using rows.keepsD [OF rows.keeps_deny] .
  obtain x where x: "lookup_by_jwk en (JObj jwk) sv = (Inr x, sv)"
    using assms unfolding admit_account_def by (rule hbind_changes [OF rows.keeps_lookup]) auto
  have "x = None"
    using assms x rows.refl by (cases x) (simp_all add: admit_account_def hbind_def)
  moreover obtain eab where e: "map_of payload ''externalAccountBinding'' = Some (JObj eab)"
    using assms x \<open>x = None\<close> rows.refl kept
    by (auto simp: admit_account_def hbind_def split: option.splits json.splits if_splits)
  moreover have "admit_account cr en cfg u i payload jwk sv
      = hbind (verified_binding cr en cfg u eab jwk) (\<lambda>(h, kid). register_account en cfg i (JObj jwk) payload eab h kid) sv"
    using assms x \<open>x = None\<close> e rows.refl
    by (simp add: admit_account_def hbind_def [of "lookup_by_jwk _ _"] lookup_by_jwk_def split: if_splits)
  moreover from this assms obtain y sv' where y: "verified_binding cr en cfg u eab jwk sv = (Inr y, sv')"
    using hbind_changes [OF rows.keeps_verified_binding] by metis
  moreover have "sv' = sv" using y verified_binding_ok by (metis prod.collapse)
  ultimately show thesis using x that by (cases y) (simp add: hbind_def)
qed

text \<open>
  C14. An account appears only through a request that proves possession of the new account key
  and carries an external account binding whose MAC, under the configured non-empty key of
  an allowlisted credential, covers exactly that account key and this server's newAccount
  URL. The new row is that key under that credential, its key is new to the server, and
  the credential was below its quota.
\<close>

theorem account_needs_binding:
  assumes "wf_db (sv_db sv)" "\<not> rows_kept sv (snd (new_account cr en cfg rq i sv))"
  shows "\<exists>header payload jwk jws key b eab_jws kid mac account.
      enveloped cr (max_jws_body_size_bytes cfg) rq header jws
      \<and> verify_url (c_ip_literal cr) header (url cfg ''/acme/new-acct'') = Inr ()
      \<and> map_of header ''jwk'' = Some (JObj jwk) \<and> public_key cr (JObj jwk) = Inr key
      \<and> jws_verified cr jws key b \<and> payload_of cr b payload
      \<and> map_of payload ''externalAccountBinding'' = Some (JObj eab_jws)
      \<and> eab_key_bytes cfg kid = Inr (Some mac) \<and> mac \<noteq> []
      \<and> eab_verified cr eab_jws jwk mac (url cfg ''/acme/new-acct'') (JStr kid)
      \<and> get_account_by_jwk (en_ext en) (JObj jwk) (sv_db sv) = Inr None
      \<and> kid_accounts kid (sv_db sv) < max_accounts_per_eab_kid cfg
      \<and> accounts (sv_db (snd (new_account cr en cfg rq i sv))) = accounts (sv_db sv) @ [account]
      \<and> acc_id account = i \<and> acc_eab_kid account = kid \<and> acc_jwk account = Some (JObj jwk) \<and> acc_status account = AcctVALID"
proof -
  let ?u = "url cfg ''/acme/new-acct''" and ?sv' = "snd (new_account cr en cfg rq i sv)"
  from assms(2) obtain a sv1 where v: "verify_new_account_jws cr en (max_jws_body_size_bytes cfg) rq ?u sv = (Inr a, sv1)"
    "rows_kept sv sv1"
    unfolding new_account_def Let_def by (rule hbind_changes [OF new_account_jws_keeps(2)])
  obtain header payload jwk where a: "a = (header, payload, jwk)" using prod_cases3 by blast
  from v(1) a obtain jws key where p: "parse_jws_header cr en (max_jws_body_size_bytes cfg) rq ?u sv = (Inr (header, jws), sv1)"
    and k: "map_of header ''jwk'' = Some (JObj jwk)" "public_key cr (JObj jwk) = Inr key" "verify_jws_signature cr jws key = Inr payload"
    unfolding verify_new_account_jws_def by (auto simp: hbind_Inr_iff)
  note h = parse_jws_header_ok [OF assms(1) p]
  obtain b where b: "jws_verified cr jws key b" "payload_of cr b payload" using k(3) verify_jws_signature_ok by blast
  have same: "accounts (sv_db sv1) = accounts (sv_db sv)" using v(2) by (simp add: rows_kept_def)
  have run: "new_account cr en cfg rq i sv = admit_account cr en cfg ?u i payload jwk sv1"
    using v(1) a by (simp add: new_account_def Let_def hbind_def)
  have ch: "\<not> rows_kept sv1 (snd (admit_account cr en cfg ?u i payload jwk sv1))"
    using assms(2) v(2) rows.trans unfolding run by blast
  from ch obtain eab_jws eh kid where e: "map_of payload ''externalAccountBinding'' = Some (JObj eab_jws)"
    "get_account_by_jwk (en_ext en) (JObj jwk) (sv_db sv1) = Inr None"
    "verified_binding cr en cfg ?u eab_jws jwk sv1 = (Inr (eh, kid), sv1)"
    and adm: "admit_account cr en cfg ?u i payload jwk sv1 = register_account en cfg i (JObj jwk) payload eab_jws eh kid sv1"
    by (rule admit_account_changes)
  from ch [unfolded adm] obtain contact ev account event s' where
    c: "create_account_with_audit (en_ext en) (en_now en) i (JObj jwk) kid AcctVALID contact ev (max_accounts_per_eab_kid cfg) (sv_db sv1)
       = (Inr (account, event), s')" and s': "sv_db ?sv' = s'"
    unfolding run adm by (rule register_changes) simp
  have acc: "accounts s' = accounts (sv_db sv1) @ [account]" "acc_id account = i" "acc_eab_kid account = kid"
      "acc_jwk account = Some (JObj jwk)" "acc_status account = AcctVALID" "kid_accounts kid (sv_db sv1) < max_accounts_per_eab_kid cfg"
    using create_account_created [OF c] by simp_all
  obtain mac where mac: "eab_key_bytes cfg kid = Inr (Some mac)" "mac \<noteq> []" "eab_verified cr eab_jws jwk mac ?u (JStr kid)"
    using verified_binding_ok [OF e(3)] by blast
  show ?thesis
    by (rule exI [of _ header], rule exI [of _ payload], rule exI [of _ jwk], rule exI [of _ jws], rule exI [of _ key],
        rule exI [of _ b], rule exI [of _ eab_jws], rule exI [of _ kid], rule exI [of _ mac], rule exI [of _ account])
       (use h k b e mac acc s' same in \<open>simp add: get_account_by_jwk_def kid_accounts_def\<close>)
qed

section \<open>Key rollover\<close>

text \<open>Outside the store's own transaction the locked section only writes audit rows.\<close>

lemma rotate_changes:
  assumes "\<not> rows_kept sv (snd (rotate_locked en cfg account tp jwk new_t sv))"
  obtains current ev event s' where "get_account (acc_id account) (sv_db sv) = Some current"
    "acc_status current = AcctVALID" "acc_eab_kid current \<in> set (eab_kids cfg)" "row_thumbprint en current = Inr tp"
    "update_account_key_with_audit (en_ext en) (en_now en) (acc_id account) jwk tp ev (Some (rate_limit_window_seconds cfg))
       (rate_limit_key_changes_per_window cfg) (sv_db sv) = (Inr event, s')"
    "sv_db (snd (rotate_locked en cfg account tp jwk new_t sv)) = s'"
proof -
  let ?i = "acc_id account"
  let ?ev = "audit_ev ''account-key-changed'' None None ''success''
      [(''eab_kid'', JStr (acc_eab_kid account)), (''new_key_thumbprint'', JStr new_t)]"
  let ?rot = "update_account_key_with_audit (en_ext en) (en_now en) ?i jwk tp ?ev (Some (rate_limit_window_seconds cfg))
       (rate_limit_key_changes_per_window cfg)"
  note kept = rows.keepsD [OF rows.keeps_stale] rows.keepsD [OF rows.keeps_taken] rows.refl rows.audit_ok
  obtain current where c: "get_account ?i (sv_db sv) = Some current"
    using assms by (cases "get_account ?i (sv_db sv)") (simp_all add: rotate_locked_def Let_def kept)
  obtain u sv1 where "enforce_account_usable en cfg current sv = (Inr u, sv1)"
    using assms unfolding rotate_locked_def Let_def c option.case by (rule hbind_changes [OF rows.keeps_usable])
  then have us: "enforce_account_usable en cfg current sv = (Inr (), sv)" "acc_status current = AcctVALID"
    "acc_eab_kid current \<in> set (eab_kids cfg)" by (simp_all add: enforce_account_usable_ok)
  have t: "row_thumbprint en current = Inr tp"
    using assms us
    by (cases "row_thumbprint en current") (simp_all add: rotate_locked_def Let_def c hbind_def lift_fault_def kept split: if_splits)
  obtain r s' where run: "?rot (sv_db sv) = (r, s')" by force
  have ex: "\<exists>event. r = Inr event"
  proof (rule ccontr)
    assume "\<nexists>event. r = Inr event"
    then obtain e where e: "r = Inl e" by (cases r) auto
    then have "s' = sv_db sv" using run by (cases rule: rotate_with_audit_cases [OF run]) auto
    then have "rows_kept sv (snd (rotate_locked en cfg account tp jwk new_t sv))"
      using run e us t c
      by (cases e) (simp_all add: rotate_locked_def Let_def hbind_def [of "on_db _"] hbind_def [of "enforce_account_usable _ _ _"]
          hbind_def [of "lift_fault _"] on_db_def lift_fault_def kept)
    with assms show False by blast
  qed
  then obtain event where ev: "r = Inr event" by blast
  show thesis
    using run us t c by (intro that [OF c us(2,3) t, of ?ev event s'])
      (simp_all add: ev rotate_locked_def Let_def hbind_def on_db_def lift_fault_def)
qed

lemma inner_header_ok:
  assumes "inner_header cr outer_header inner_jws = Inr (header, new_jwk)"
  shows "protected_header cr inner_jws = Inr header" "map_of header ''jwk'' = Some (JObj new_jwk)"
    "py_eq (map_of header ''url'') (map_of outer_header ''url'')" "map_of header ''nonce'' = None" "map_of header ''kid'' = None"
proof -
  let ?rest = "rbind (protected_header cr inner_jws) (\<lambda>header.
      case map_of header ''jwk'' of
        Some (JObj new_jwk) \<Rightarrow>
          if \<not> py_eq (map_of header ''url'') (map_of outer_header ''url'') then Inl malformed
          else if map_of header ''nonce'' \<noteq> None then Inl malformed
          else if map_of header ''kid'' \<noteq> None then Inl malformed
          else Inr (header, new_jwk)
      | _ \<Rightarrow> Inl malformed)"
  have "?rest = Inr (header, new_jwk)"
    using assms unfolding inner_header_def
    by (cases "require_flattened_without_unprotected_header inner_jws") (simp_all del: flattened_Inr split: if_splits)
  then obtain h where h: "protected_header cr inner_jws = Inr h"
    and r: "(case map_of h ''jwk'' of
        Some (JObj new_jwk) \<Rightarrow>
          if \<not> py_eq (map_of h ''url'') (map_of outer_header ''url'') then Inl malformed
          else if map_of h ''nonce'' \<noteq> None then Inl malformed
          else if map_of h ''kid'' \<noteq> None then Inl malformed
          else Inr (h, new_jwk)
      | _ \<Rightarrow> Inl malformed) = Inr (header, new_jwk)" by auto
  from r obtain d where d: "map_of h ''jwk'' = Some (JObj d)" by (auto split: option.splits json.splits)
  with r have "h = header" "d = new_jwk" "py_eq (map_of h ''url'') (map_of outer_header ''url'')" "map_of h ''nonce'' = None"
    "map_of h ''kid'' = None" by (auto split: if_splits)
  with h d show "protected_header cr inner_jws = Inr header" "map_of header ''jwk'' = Some (JObj new_jwk)"
    "py_eq (map_of header ''url'') (map_of outer_header ''url'')" "map_of header ''nonce'' = None" "map_of header ''kid'' = None"
    by simp_all
qed

lemma inner_payload_ok:
  "inner_payload cr jws key = Inr payload \<longleftrightarrow> (\<exists>b. jws_verified cr jws key b \<and> c_loads cr b = Inr (JObj payload))"
  unfolding inner_payload_def
  by (auto split: sum.split jws_fault.split jws_error.split simp flip: verify_flattened_jws_iff)

lemma rollover_thumbprints_ok:
  assumes "rollover_thumbprints en outer_header account payload new_jwk = Inr (old_t, new_t)"
  shows "py_eq (map_of payload ''account'') (map_of outer_header ''kid'')" "row_thumbprint en account = Inr old_t"
    "\<exists>old_key. map_of payload ''oldKey'' = Some (JObj old_key) \<and> jwk_thumbprint (x_sha256 (en_ext en)) (JObj old_key) = Inr old_t"
    "jwk_thumbprint (x_sha256 (en_ext en)) (JObj new_jwk) = Inr new_t" "new_t \<noteq> old_t"
  using assms by (auto simp: rollover_thumbprints_def Let_def split: if_splits option.splits json.splits sum.splits)

text \<open>What the inner JWS of an accepted rollover says.\<close>

definition rollover_signed ::
  "crypto \<Rightarrow> env \<Rightarrow> details \<Rightarrow> details \<Rightarrow> details \<Rightarrow> string \<Rightarrow> string \<Rightarrow> bool" where
  "rollover_signed cr en outer inner new_jwk old_t new_t \<longleftrightarrow>
     (\<exists>header new_key b payload old_key.
        protected_header cr inner = Inr header \<and> map_of header ''jwk'' = Some (JObj new_jwk)
        \<and> py_eq (map_of header ''url'') (map_of outer ''url'') \<and> map_of header ''nonce'' = None \<and> map_of header ''kid'' = None
        \<and> public_key cr (JObj new_jwk) = Inr new_key \<and> jws_verified cr inner new_key b \<and> c_loads cr b = Inr (JObj payload)
        \<and> py_eq (map_of payload ''account'') (map_of outer ''kid'')
        \<and> map_of payload ''oldKey'' = Some (JObj old_key) \<and> jwk_thumbprint (x_sha256 (en_ext en)) (JObj old_key) = Inr old_t
        \<and> jwk_thumbprint (x_sha256 (en_ext en)) (JObj new_jwk) = Inr new_t \<and> new_t \<noteq> old_t)"

lemma resum_Inr [simp]: "(case r of Inl x \<Rightarrow> Inl e | Inr k \<Rightarrow> Inr k) = Inr a \<longleftrightarrow> r = Inr a"
  by (simp split: sum.split)

lemma rollover_request_ok:
  assumes "rollover_request cr en outer inner account = Inr (new_jwk, new_t)"
  obtains old_t where "row_thumbprint en account = Inr old_t" "rollover_signed cr en outer inner new_jwk old_t new_t"
proof -
  from assms obtain header key payload old_t where
    i: "inner_header cr outer inner = Inr (header, new_jwk)" and k: "public_key cr (JObj new_jwk) = Inr key"
    and p: "inner_payload cr inner key = Inr payload" and t: "rollover_thumbprints en outer account payload new_jwk = Inr (old_t, new_t)"
    unfolding rollover_request_def by auto
  obtain b where "jws_verified cr inner key b" "c_loads cr b = Inr (JObj payload)" using p inner_payload_ok by blast
  with inner_header_ok [OF i] k rollover_thumbprints_ok [OF t] show thesis
    by (intro that [of old_t]) (auto simp: rollover_signed_def)
qed

text \<open>
  C15. A key changes only when both keys have signed: the request is authenticated under the
  account's current key, and its payload is a JWS that verifies under the new key, is
  addressed to the same URL, carries no nonce or kid of its own, and names this account
  and the account's current key. The new key is a different, valid one that no account
  uses, and the only change is that key in that account's row.
\<close>

theorem key_change_signed_by_both:
  assumes "wf_db (sv_db sv)" "\<not> rows_kept sv (snd (key_change cr en cfg rq sv))"
  shows "\<exists>outer inner account tp sv1 new_jwk t.
      authenticate_account cr en cfg rq ''/acme/key-change'' sv = (Inr (outer, inner, account, tp), sv1)
      \<and> rollover_signed cr en outer inner new_jwk tp t
      \<and> get_account_by_jwk (en_ext en) (JObj new_jwk) (sv_db sv) = Inr None
      \<and> accounts (sv_db (snd (key_change cr en cfg rq sv))) =
          upd_where (\<lambda>r. acc_id r = acc_id account) (\<lambda>r. r\<lparr>acc_jwk := Some (JObj new_jwk), acc_thumbprint := Some t\<rparr>)
            (accounts (sv_db sv))"
proof -
  let ?sv' = "snd (key_change cr en cfg rq sv)"
  from assms(2) obtain a sv1 where a: "authenticate_account cr en cfg rq ''/acme/key-change'' sv = (Inr a, sv1)" "rows_kept sv sv1"
    unfolding key_change_def by (rule hbind_changes [OF authenticate_keeps(2)])
  obtain outer inner account tp where a4: "a = (outer, inner, account, tp)" using prod_cases4 by blast
  have same: "accounts (sv_db sv1) = accounts (sv_db sv)" using a(2) by (simp add: rows_kept_def)
  have ch: "\<not> rows_kept sv1 ?sv'" using assms(2) a(2) rows.trans by blast
  note run1 = key_change_def [of cr en cfg rq, THEN fun_cong, of sv, unfolded hbind_def [of "authenticate_account _ _ _ _ _"] a(1) a4,
      simplified]
  obtain new_jwk new_t where rr: "rollover_request cr en outer inner account = Inr (new_jwk, new_t)"
    using ch rows.refl unfolding run1
    by (cases "rollover_request cr en outer inner account") (auto simp: hbind_def lift_fault_def)
  note run2 = run1 [unfolded rr, simplified hbind_def [of "lift_fault _"] lift_fault_def, simplified]
  obtain ex where ex: "get_account_by_jwk (en_ext en) (JObj new_jwk) (sv_db sv1) = Inr ex"
    using ch rows.refl unfolding run2
    by (cases "get_account_by_jwk (en_ext en) (JObj new_jwk) (sv_db sv1)") (auto simp: hbind_def lookup_by_jwk_def)
  have none: "ex = None"
    using ch rows.refl unfolding run2 by (cases ex) (auto simp: hbind_def lookup_by_jwk_def ex)
  have run: "key_change cr en cfg rq sv = rotate_locked en cfg account tp (JObj new_jwk) new_t sv1"
    unfolding run2 by (simp add: hbind_def lookup_by_jwk_def ex none)
  from ch [unfolded run] obtain current ev event s' where
    c: "get_account (acc_id account) (sv_db sv1) = Some current" "row_thumbprint en current = Inr tp"
    and upd: "update_account_key_with_audit (en_ext en) (en_now en) (acc_id account) (JObj new_jwk) tp ev (Some (rate_limit_window_seconds cfg))
       (rate_limit_key_changes_per_window cfg) (sv_db sv1) = (Inr event, s')" "sv_db ?sv' = s'"
    unfolding run by (rule rotate_changes)
  obtain old_t where r: "row_thumbprint en account = Inr old_t" "rollover_signed cr en outer inner new_jwk old_t new_t"
    using rollover_request_ok [OF rr] .
  have "get_account (acc_id account) (sv_db sv) = Some account"
    using authenticate_sound [OF assms(1) a(1) [unfolded a4]] by blast
  then have tp: "old_t = tp" using c same r(1) by (simp add: get_account_def)
  have acc: "accounts s' = upd_where (\<lambda>r. acc_id r = acc_id account) (\<lambda>r. r\<lparr>acc_jwk := Some (JObj new_jwk), acc_thumbprint := Some new_t\<rparr>)
      (accounts (sv_db sv1))"
  proof (cases rule: rotate_with_audit_cases [OF upd(1)])
    case (1 ev' t')
    then have "t' = new_t" using r(2) by (auto simp: thumbprint_of_def rollover_signed_def)
    from 1(3) show ?thesis unfolding \<open>t' = new_t\<close> by (rule rotate_key_txn_ok) simp
  qed simp
  show ?thesis
    by (rule exI [of _ outer], rule exI [of _ inner], rule exI [of _ account], rule exI [of _ tp], rule exI [of _ sv1],
        rule exI [of _ new_jwk], rule exI [of _ new_t])
       (use a a4 r(2) tp acc upd(2) same ex none in \<open>simp add: get_account_by_jwk_def\<close>)
qed

section \<open>Every account route is a run of store operations\<close>

lemma runs_deactivate: "runs.keeps (deactivate_locked en cfg account tp)"
  unfolding deactivate_locked_def
  by (intro runs.keeps_rules runs.keeps_usable runs_on_db store_step.account_status)

lemma runs_rotate: "runs.keeps (rotate_locked en cfg account tp jwk t)"
proof -
  have o: "runs.keeps (case r of
                  Inr event \<Rightarrow> ret a
                | Inl AccountKeyStale \<Rightarrow> key_change_stale en i
                | Inl (KeyChangeRateLimitExceeded kid limit n window) \<Rightarrow>
                    hbind (audited en (f kid limit n window)) (\<lambda>_. raising (rate_limited (Some (int window))))
                | Inl IntegrityError \<Rightarrow> key_taken en i jwk
                | Inl e \<Rightarrow> lift_fault (Inl (StoreFault e)))" for r :: "store_error + AuditRow" and a :: response and i f
    by (auto split: sum.split store_error.split intro!: runs.keeps_rules runs.keeps_stale runs.keeps_taken)
  show ?thesis unfolding rotate_locked_def Let_def
    by (intro runs.keeps_rules runs.keeps_usable runs.keeps_stale runs_on_db store_step.account_key_audited o)
qed

lemma runs_register: "runs.keeps (register_account en cfg i jwk payload eab h kid)"
proof -
  have o: "runs.keeps (case r of
              Inr (account, event) \<Rightarrow> ret (f account)
            | Inl (EabAccountLimitExceeded kid limit n) \<Rightarrow> winner_or en cfg jwk (deny_binding en (d kid limit n))
            | Inl IntegrityError \<Rightarrow> winner_or en cfg jwk (lift_fault (Inl (StoreFault IntegrityError)))
            | Inl e \<Rightarrow> lift_fault (Inl (StoreFault e)))" for r :: "store_error + AccountRow \<times> AuditRow" and f d
    by (auto split: sum.split store_error.split intro!: runs.keeps_rules runs.keeps_winner runs.keeps_deny)
  show ?thesis unfolding register_account_def
    by (intro runs.keeps_rules runs_on_db store_step.create_account_audited o)
qed

lemma runs_account_routes:
  "runs.keeps (new_account cr en cfg rq i)" "runs.keeps (account_resource cr en cfg rq i)"
  "runs.keeps (account_orders cr en cfg rq i)" "runs.keeps (key_change cr en cfg rq)"
proof -
  show "runs.keeps (new_account cr en cfg rq i)" unfolding new_account_def admit_account_def Let_def
    by (intro runs.keeps_rules new_account_jws_keeps runs.keeps_lookup runs.keeps_deny runs.keeps_verified_binding runs_register)
  show "runs.keeps (account_resource cr en cfg rq i)" unfolding account_resource_def
    by (intro runs.keeps_rules authenticate_keeps runs_deactivate)
  show "runs.keeps (account_orders cr en cfg rq i)" unfolding account_orders_def
    by (intro runs.keeps_rules authenticate_keeps) (simp add: runs.keeps_def runs.refl)
  show "runs.keeps (key_change cr en cfg rq)" unfolding key_change_def
    by (intro runs.keeps_rules authenticate_keeps runs.keeps_lookup runs_rotate)
qed

section \<open>Deactivation\<close>

lemma deactivate_locked_ok:
  assumes "deactivate_locked en cfg account tp sv = (Inr u, sv')"
  shows "\<exists>r. get_account (acc_id account) (sv_db sv') = Some r \<and> acc_status r = AcctDEACTIVATED"
proof -
  let ?i = "acc_id account"
  from assms obtain current where c: "get_account ?i (sv_db sv) = Some current" "acc_status current = AcctVALID"
    and sv': "\<exists>args. sv' = audit en args (sv\<lparr>sv_db := snd (update_account_status ?i AcctDEACTIVATED (sv_db sv))\<rparr>)"
    unfolding deactivate_locked_def
    by (auto simp: hbind_Inr_iff enforce_account_usable_ok audited_def on_db_def Let_def case_prod_beta split: if_splits)
  then have "accounts (sv_db sv') = upd_where (\<lambda>r. acc_id r = ?i \<and> acc_status r = AcctVALID)
      (\<lambda>r. r\<lparr>acc_status := AcctDEACTIVATED\<rparr>) (accounts (sv_db sv))"
    by (auto simp: update_account_status_def Let_def)
  with c show ?thesis
    by (auto simp: get_account_def find_upd_where split: option.split dest: find_Some_in)
qed

text \<open>
  Deactivation evicts: once the account resource has changed an account, no later request,
  after any sequence of store operations, from any client, at any endpoint and under any
  configuration, is authenticated as that account.
\<close>

theorem deactivated_evicted:
  assumes "wf_db (sv_db sv)" "account_resource cr en cfg rq i sv = (Inr rsp, sv1)"
    "accounts (sv_db sv1) \<noteq> accounts (sv_db sv)"
    "store_step\<^sup>*\<^sup>* (sv_db sv1) (sv_db sv2)"
    "acc_id account = i"
  shows "fst (authenticate_account cr' en' cfg' rq' path' sv2) \<noteq> Inr (h, p, account, t)"
proof
  assume "fst (authenticate_account cr' en' cfg' rq' path' sv2) = Inr (h, p, account, t)"
  then obtain sv3 where auth: "authenticate_account cr' en' cfg' rq' path' sv2 = (Inr (h, p, account, t), sv3)" by (metis prod.collapse)
  from assms(2) obtain header payload acct tp sv0 where
    a: "authenticate_account cr en cfg rq (''/acme/acct/'' @ i) sv = (Inr (header, payload, acct, tp), sv0)" and id: "acc_id acct = i"
    and r: "(case map_of payload ''status'' of
               None \<Rightarrow> ret (json_response 200 (JObj (account_to_json cfg acct)))
             | Some JNull \<Rightarrow> ret (json_response 200 (JObj (account_to_json cfg acct)))
             | Some requested_status \<Rightarrow>
                 if requested_status \<noteq> JStr ''deactivated'' then raising malformed
                 else hbind (deactivate_locked en cfg acct tp) (\<lambda>_ sv.
                   case get_account (acc_id acct) (sv_db sv) of
                     None \<Rightarrow> raising unauthorized sv
                   | Some refreshed \<Rightarrow> ret (json_response 200 (JObj (account_to_json cfg refreshed))) sv)) sv0 = (Inr rsp, sv1)"
    unfolding account_resource_def by (auto simp: hbind_Inr_iff)
  have "accounts (sv_db sv0) = accounts (sv_db sv)"
    using rows.keepsD [OF authenticate_keeps(2) [of cr en cfg rq "''/acme/acct/'' @ i"], of sv] a by (simp add: rows_kept_def)
  with assms(3) r obtain u where d: "deactivate_locked en cfg acct tp sv0 = (Inr u, sv1)"
    by (auto simp: hbind_Inr_iff split: option.splits json.splits if_splits)
  obtain row where row: "get_account i (sv_db sv1) = Some row" "acc_status row = AcctDEACTIVATED"
    using deactivate_locked_ok [OF d] id by blast
  have wf1: "wf_db (sv_db sv1)"
    using runs.keepsD [OF runs_account_routes(2) [of cr en cfg rq i], of sv] assms(1,2) by (auto simp: db_run_def intro: wf_reachable)
  obtain row' where row': "get_account i (sv_db sv2) = Some row'" "acc_status row' = AcctDEACTIVATED"
    using run_account [OF assms(4) wf1 row(1)] acct_steps row(2) by blast
  have "wf_db (sv_db sv2)" using wf_reachable [OF assms(4) wf1] .
  from authenticate_sound [OF this auth] row' assms(5) show False by auto
qed

section \<open>Witnesses\<close>

text \<open>A second key, and a newAccount request of it with a binding under the credential \<open>k\<close>.\<close>

abbreviation other_key :: json where
  "other_key \<equiv> ec_jwk [] (replicate 32 3) (replicate 32 4)"

definition other_members :: details where
  "other_members = [(''kty'', JStr ''EC''), (''crv'', JStr ''P-256''),
     (''x'', JStr (base64url_encode (replicate 32 3))), (''y'', JStr (base64url_encode (replicate 32 4)))]"

lemma other_key_members: "other_key = JObj other_members"
  by (simp add: ec_jwk_def other_members_def)

lemma other_public: "public_key_from_jwk other_key = Inr (ECPublicNumbers 256 (from_bytes (replicate 32 3)) (from_bytes (replicate 32 4)))"
  by (intro ec_jwk_key) (simp_all add: list_all_iff)

definition binding_jws :: details where
  "binding_jws = [(''protected'', JStr ''Ag''), (''payload'', JStr ''BA''), (''signature'', JStr [])]"

definition binding_loads :: "bytes \<Rightarrow> loads_error + json" where
  "binding_loads b =
     (if b = [2] then Inr (JObj [(''alg'', JStr ''HS256''), (''kid'', JStr ''k''), (''url'', JStr ''https://ra/acme/new-acct'')])
      else if b = [4] then Inr (JObj other_members) else Inl DecodeError)"

definition new_header :: details where
  "new_header = [(''alg'', JStr ''ES256''), (''jwk'', JObj other_members), (''nonce'', JStr ''n''), (''url'', JStr ''https://ra/acme/new-acct'')]"

definition binding_crypto :: crypto where
  "binding_crypto = sample_crypto binding_loads new_header [(''externalAccountBinding'', JObj binding_jws)]"

lemma decode_more: "base64url_decode ''Ag'' = Inr [2]" "base64url_decode ''BA'' = Inr [4]" "base64url_decode [] = Inr []"
  "base64url_decode ''AAAA'' = Inr [0, 0, 0]"
  by code_simp+

lemma new_url: "url sample_cfg ''/acme/new-acct'' = ''https://ra/acme/new-acct''"
  by (simp add: url_def sample_cfg_def rstrip_def)

lemma new_account_jws_sample:
  "verify_new_account_jws binding_crypto sample_env 99 sample_request ''https://ra/acme/new-acct'' nonce_server
     = (Inr (new_header, [(''externalAccountBinding'', JObj binding_jws)], other_members), spent_server)"
proof -
  have u: "verify_url (\<lambda>_. False) [(''url'', JStr ''https://ra/acme/new-acct'')] ''https://ra/acme/new-acct'' = Inr ()" by code_simp
  then have "verify_url (\<lambda>_. False) new_header ''https://ra/acme/new-acct'' = Inr ()"
    by (simp add: verify_url_def new_header_def)
  then have p: "parse_jws_header binding_crypto sample_env 99 sample_request ''https://ra/acme/new-acct'' nonce_server
      = (Inr (new_header, sample_jws), spent_server)"
    unfolding binding_crypto_def spend_server [symmetric] using nonces_sample by (intro parse_sample) (simp_all add: new_header_def)
  have "public_key binding_crypto (JObj other_members)
      = Inr (ECPublicNumbers 256 (from_bytes (replicate 32 3)) (from_bytes (replicate 32 4)))"
    unfolding public_key_def other_key_members [symmetric] other_public by (simp add: binding_crypto_def sample_crypto_def)
  moreover have "verify_jws_signature binding_crypto sample_jws (ECPublicNumbers 256 x y) = Inr [(''externalAccountBinding'', JObj binding_jws)]" for x y
    unfolding binding_crypto_def by (rule signature_sample) (simp add: new_header_def)
  ultimately show ?thesis using p by (simp add: verify_new_account_jws_def hbind_def lift_fault_def new_header_def)
qed

lemma binding_loads_sample:
  "c_loads binding_crypto [2] = Inr (JObj [(''alg'', JStr ''HS256''), (''kid'', JStr ''k''), (''url'', JStr ''https://ra/acme/new-acct'')])"
  "c_loads binding_crypto [4] = Inr (JObj other_members)" "c_hmac binding_crypto h key m = []"
  by (simp_all add: binding_crypto_def sample_crypto_def binding_loads_def)

lemma eab_sample: "eab_verified binding_crypto binding_jws other_members [0, 0, 0] ''https://ra/acme/new-acct'' (JStr ''k'')"
  unfolding eab_verified_def
  by (intro conjI, simp add: binding_jws_def, simp add: binding_jws_def,
      rule exI [of _ "''Ag''"], rule exI [of _ "''BA''"], rule exI [of _ "[]"], rule exI [of _ "[2]"], rule exI [of _ "[4]"],
      rule exI [of _ "[(''alg'', JStr ''HS256''), (''kid'', JStr ''k''), (''url'', JStr ''https://ra/acme/new-acct'')]"],
      rule exI [of _ 256], rule exI [of _ other_members])
     (simp add: binding_jws_def decode_more binding_loads_sample show_hash)

lemma verified_binding_sample:
  "\<exists>h. verified_binding binding_crypto sample_env sample_cfg ''https://ra/acme/new-acct'' binding_jws other_members sv = (Inr (h, ''k''), sv)"
proof -
  have "\<exists>h. binding_header binding_crypto sample_env binding_jws sv = (Inr (h, ''k''), sv)"
    by (simp add: binding_header_def jws_parts_def binding_jws_def decode_more binding_loads_sample)
  then obtain h where "binding_header binding_crypto sample_env binding_jws sv = (Inr (h, ''k''), sv)" by blast
  moreover have "eab_key_bytes sample_cfg ''k'' = Inr (Some [0, 0, 0])"
    by (simp add: eab_key_bytes_def sample_cfg_def decode_more)
  moreover have "verify_eab_jws binding_crypto binding_jws other_members [0, 0, 0] (Some ''https://ra/acme/new-acct'') = Inr (JStr ''k'')"
    using eab_sample verify_eab_jws_iff by blast
  ultimately show ?thesis by (simp add: verified_binding_def hbind_def)
qed

theorem account_needs_binding_witness:
  "\<exists>account mac. accounts (sv_db (snd (new_account binding_crypto sample_env sample_cfg sample_request ''b'' nonce_server)))
     = accounts (sv_db nonce_server) @ [account] \<and> acc_id account = ''b''
     \<and> eab_key_bytes sample_cfg (acc_eab_kid account) = Inr (Some mac) \<and> mac \<noteq> []"
proof -
  let ?run = "new_account binding_crypto sample_env sample_cfg sample_request ''b'' nonce_server"
  have th: "thumbprint_of sample_ext (JObj other_members) = Inr []"
    using public_key_validates [OF other_public]
    by (simp add: thumbprint_of_def jwk_thumbprint_def sample_ext_def ec_jwk_def other_members_def Let_def)
  have acc: "accounts (sv_db spent_server) = [signed_account]" "accounts (sv_db nonce_server) = [signed_account]"
    by (simp_all add: spent_server_def nonce_server_def signed_server_def)
  obtain h where h: "verified_binding binding_crypto sample_env sample_cfg ''https://ra/acme/new-acct'' binding_jws other_members spent_server
      = (Inr (h, ''k''), spent_server)" using verified_binding_sample by blast
  have "accounts (sv_db (snd (register_account sample_env sample_cfg ''b'' (JObj other_members)
      [(''externalAccountBinding'', JObj binding_jws)] binding_jws h ''k'' spent_server))) \<noteq> [signed_account]"
    by (simp add: register_account_def hbind_def on_db_def create_account_with_audit_def audit_ev_def create_account_txn_def
        kid_accounts_def acc insert_account_def th put_accounts_def sample_env_def sample_cfg_def Let_def case_prod_beta
        signed_account_def sample_account_def)
  then have "accounts (sv_db (snd ?run)) \<noteq> [signed_account]"
    using new_account_jws_sample h th acc
    by (simp add: new_account_def new_url limit_sample Let_def hbind_def admit_account_def lookup_by_jwk_def get_account_by_jwk_def
        sample_env_def signed_account_def sample_account_def)
  then have "\<not> rows_kept nonce_server (snd ?run)" using acc by (simp add: rows_kept_def)
  from account_needs_binding [OF wf_nonce_server(1) this] show ?thesis by blast
qed

text \<open>A rollover of the sample account to the second key, with a digest that tells the two keys apart.\<close>

definition digest_env :: env where
  "digest_env = sample_env\<lparr>en_ext := sample_ext\<lparr>x_sha256 := map of_char\<rparr>\<rparr>"

definition old_digest :: string where "old_digest = base64url_encode (map of_char (thumbprint_text sample_key))"
definition new_digest :: string where "new_digest = base64url_encode (map of_char (thumbprint_text other_key))"

definition digest_account :: AccountRow where
  "digest_account = signed_account\<lparr>acc_thumbprint := Some old_digest\<rparr>"

definition digest_server :: server where
  "digest_server = nonce_server\<lparr>sv_db := (sv_db nonce_server)\<lparr>accounts := [digest_account]\<rparr>\<rparr>"

definition inner_sample :: details where
  "inner_sample = [(''protected'', JStr ''Ag''), (''payload'', JStr ''BA''), (''signature'', JStr (base64url_encode (replicate 64 7)))]"

definition sample_members :: details where
  "sample_members = [(''kty'', JStr ''EC''), (''crv'', JStr ''P-256''),
     (''x'', JStr (base64url_encode (replicate 32 1))), (''y'', JStr (base64url_encode (replicate 32 2)))]"

definition inner_sample_header :: details where
  "inner_sample_header = [(''alg'', JStr ''ES256''), (''jwk'', JObj other_members), (''url'', JStr ''https://ra/acme/key-change'')]"

definition inner_sample_payload :: details where
  "inner_sample_payload = [(''account'', JStr ''https://ra/acme/acct/a''), (''oldKey'', JObj sample_members)]"

definition rollover_loads :: "bytes \<Rightarrow> loads_error + json" where
  "rollover_loads b =
     (if b = [2] then Inr (JObj inner_sample_header) else if b = [4] then Inr (JObj inner_sample_payload) else Inl DecodeError)"

definition rollover_crypto :: crypto where
  "rollover_crypto = sample_crypto rollover_loads (sample_header ''https://ra/acme/key-change'') inner_sample"

lemma key_digests:
  "jwk_thumbprint (x_sha256 (en_ext digest_env)) sample_key = Inr old_digest"
  "jwk_thumbprint (x_sha256 (en_ext digest_env)) other_key = Inr new_digest"
  "new_digest \<noteq> old_digest"
proof -
  have k: "x_sha256 (en_ext digest_env) = map of_char" by (simp add: digest_env_def)
  show "jwk_thumbprint (x_sha256 (en_ext digest_env)) sample_key = Inr old_digest"
    "jwk_thumbprint (x_sha256 (en_ext digest_env)) other_key = Inr new_digest"
    unfolding k old_digest_def new_digest_def by (rule jwk_thumbprint_text [OF signed_key]) (rule jwk_thumbprint_text [OF other_public])
  have "from_bytes (replicate 32 1) \<noteq> from_bytes (replicate 32 3)"
    using from_bytes_inj_length [of "replicate 32 1" "replicate 32 3"] by (auto simp: list_all_iff)
  then have "thumbprint_text other_key \<noteq> thumbprint_text sample_key"
    using thumbprint_text_identity [OF other_public signed_key] by auto
  then have ne: "map of_char (thumbprint_text other_key) \<noteq> (map of_char (thumbprint_text sample_key) :: nat list)"
    by (simp add: inj_map_eq_map [OF inj_of_char])
  have "octets (map of_char s)" for s :: string by (simp add: list_all_iff)
  with encode_inj ne show "new_digest \<noteq> old_digest" unfolding old_digest_def new_digest_def by blast
qed

lemma rollover_loads_sample:
  "c_loads rollover_crypto [2] = Inr (JObj inner_sample_header)" "c_loads rollover_crypto [4] = Inr (JObj inner_sample_payload)"
  "c_verify rollover_crypto k h m d" "c_public_key rollover_crypto k"
  by (simp_all add: rollover_crypto_def sample_crypto_def rollover_loads_def)

lemma inner_signature_sample: "jws_verified rollover_crypto inner_sample (ECPublicNumbers 256 x y) [4]"
proof -
  have o: "octets (replicate 64 7)" by (simp add: list_all_iff)
  obtain der where "raw_ecdsa_to_der (replicate 64 7) 32 = Inr der"
    by (simp add: raw_ecdsa_to_der_def Let_def)
  moreover have "ec_alg 256 256 ''ES256''" by (simp add: ec_alg_def show_hash)
  moreover have "base64url_decode (base64url_encode (replicate 64 7)) = Inr (replicate 64 7)" using decode_encode [OF o] .
  ultimately show ?thesis
    by (simp add: jws_verified_def inner_sample_def decode_more rollover_loads_sample inner_sample_header_def signed_with_def
        coordinate_length_for_curve_def) blast
qed

lemma inner_header_sample:
  "inner_header rollover_crypto (sample_header ''https://ra/acme/key-change'') inner_sample = Inr (inner_sample_header, other_members)"
proof -
  have "require_flattened_without_unprotected_header inner_sample = Inr ()"
    by (simp add: require_flattened_without_unprotected_header_def inner_sample_def)
  moreover have "protected_header rollover_crypto inner_sample = Inr inner_sample_header"
    by (simp add: protected_header_def inner_sample_def decode_more rollover_loads_sample)
  moreover have "map_of inner_sample ''protected'' \<noteq> None" by (simp add: inner_sample_def)
  ultimately show ?thesis
    by (simp add: inner_header_def del: flattened_Inr) (simp add: inner_sample_header_def sample_header_def py_eq_def)
qed

lemma rollover_request_sample:
  assumes "row_thumbprint digest_env account = Inr old_digest"
  shows "rollover_request rollover_crypto digest_env (sample_header ''https://ra/acme/key-change'') inner_sample account
     = Inr (other_members, new_digest)"
proof -
  have k: "public_key rollover_crypto (JObj other_members)
      = Inr (ECPublicNumbers 256 (from_bytes (replicate 32 3)) (from_bytes (replicate 32 4)))"
    unfolding public_key_def other_key_members [symmetric] other_public by (simp add: rollover_loads_sample)
  have p: "inner_payload rollover_crypto inner_sample (ECPublicNumbers 256 x y) = Inr inner_sample_payload" for x y
    unfolding inner_payload_ok using inner_signature_sample rollover_loads_sample(2) by blast
  have s: "sample_key = JObj sample_members" by (simp add: ec_jwk_def sample_members_def)
  have t: "rollover_thumbprints digest_env (sample_header ''https://ra/acme/key-change'') account inner_sample_payload other_members
      = Inr (old_digest, new_digest)"
    using assms key_digests unfolding other_key_members s
    by (simp add: rollover_thumbprints_def Let_def inner_sample_payload_def sample_header_def py_eq_def)
  show ?thesis by (simp add: rollover_request_def acme_def inner_header_sample k p t)
qed

lemma url_key_change:
  "verify_url (\<lambda>_. False) (sample_header ''https://ra/acme/key-change'') (url sample_cfg ''/acme/key-change'') = Inr ()"
  by code_simp

lemma digest_accounts: "accounts (sv_db digest_server) = [digest_account]" "accounts (sv_db (spend digest_server)) = [digest_account]"
  "audit_log (sv_db (spend digest_server)) = []" "wf_db (sv_db digest_server)" "acc_id digest_account = ''a''"
  "acc_jwk digest_account = Some sample_key" "acc_status digest_account = AcctVALID" "acc_eab_kid digest_account = ''k''"
  "acc_thumbprint digest_account = Some old_digest"
  using wf_nonce_server(1)
  by (simp_all add: digest_server_def spend_def nonce_server_def signed_server_def sample_server_def sample_db_def empty_db_def wf_db_def
      digest_account_def signed_account_def sample_account_def)

lemma rotate_sample:
  "accounts (sv_db (snd (rotate_locked digest_env sample_cfg digest_account old_digest (JObj other_members)
      new_digest (spend digest_server)))) \<noteq> [digest_account]"
proof -
  have t: "thumbprint_of (en_ext digest_env) (JObj other_members) = Inr new_digest"
    "row_thumbprint digest_env digest_account = Inr old_digest"
    using key_digests digest_accounts(6) by (simp_all add: thumbprint_of_def row_thumbprint_def other_key_members)
  have r: "get_account ''a'' (sv_db (spend digest_server)) = Some digest_account" using digest_accounts by (simp add: get_account_def del: spend_account)
  have u: "enforce_account_usable digest_env sample_cfg digest_account (spend digest_server) = (Inr (), spend digest_server)"
    by (simp add: enforce_account_usable_def digest_accounts sample_cfg_def eab_kids_def)
  have c: "rate_limit_window_seconds sample_cfg = 60" "rate_limit_key_changes_per_window sample_cfg = 5" by (simp_all add: sample_cfg_def)
  let ?s = "sv_db (spend digest_server)"
  let ?row = "digest_account\<lparr>acc_jwk := Some (JObj other_members), acc_thumbprint := Some new_digest\<rparr>"
  let ?ev = "audit_ev ''account-key-changed'' None None ''success'' [(''eab_kid'', JStr ''k''), (''new_key_thumbprint'', JStr new_digest)]"
  have "rotate_key_txn (en_ext digest_env) (en_now digest_env) ''a'' (JObj other_members) new_digest old_digest ?ev (Some 60) 5 ?s
      = Inr (record_audit_in_conn (en_ext digest_env) (en_now digest_env) (?ev\<lparr>ev_account := Some ''a''\<rparr>) (?s\<lparr>accounts := [?row]\<rparr>))"
    by (simp add: rotate_key_txn_def r digest_accounts count_key_changes_def put_accounts_def Let_def del: spend_account)
  then have "\<exists>ev s'. update_account_key_with_audit (en_ext digest_env) (en_now digest_env) ''a'' (JObj other_members) old_digest ?ev (Some 60) 5 ?s
      = (Inr ev, s') \<and> accounts s' = [?row]"
    using t(1) by (simp add: update_account_key_with_audit_def with_conn_def audit_ev_def case_prod_beta)
  moreover have "?row \<noteq> digest_account"
    using digest_accounts(9) key_digests(3) by (metis AccountRow.select_convs(7) AccountRow.surjective AccountRow.update_convs(7) option.inject)
  ultimately show ?thesis
    using t r u c digest_accounts by (auto simp: rotate_locked_def Let_def hbind_def lift_fault_def on_db_def simp del: spend_account)
qed

theorem key_change_signed_by_both_witness:
  "\<exists>outer inner new_jwk tp t. rollover_signed rollover_crypto digest_env outer inner new_jwk tp t"
proof -
  let ?run = "key_change rollover_crypto digest_env sample_cfg sample_request digest_server"
  have a: "authenticate_account rollover_crypto digest_env sample_cfg sample_request ''/acme/key-change'' digest_server
      = (Inr (sample_header ''https://ra/acme/key-change'', inner_sample, digest_account, old_digest), spend digest_server)"
    unfolding rollover_crypto_def using url_key_change key_digests(1) digest_accounts
    by (intro authenticate_sample_at)
       (simp_all add: get_account_def digest_env_def sample_env_def digest_server_def nonce_server_def)
  have "row_thumbprint digest_env digest_account = Inr old_digest"
    using key_digests(1) digest_accounts(6) by (simp add: thumbprint_of_def row_thumbprint_def)
  note rr = rollover_request_sample [OF this]
  have "get_account_by_jwk (en_ext digest_env) (JObj other_members) (sv_db (spend digest_server)) = Inr None"
    using key_digests(2,3) digest_accounts(2,9) by (simp add: get_account_by_jwk_def thumbprint_of_def other_key_members)
  with a rr have "?run = rotate_locked digest_env sample_cfg digest_account old_digest (JObj other_members) new_digest (spend digest_server)"
    by (simp add: key_change_def hbind_def lift_fault_def lookup_by_jwk_def)
  then have "\<not> rows_kept digest_server (snd ?run)" using rotate_sample digest_accounts(1) by (simp add: rows_kept_def)
  from key_change_signed_by_both [OF digest_accounts(4) this] show ?thesis by blast
qed

theorem deactivated_evicted_witness:
  "let cr = sample_crypto nothing (sample_header ''https://ra/acme/acct/a'') [(''status'', JStr ''deactivated'')];
       sv1 = snd (account_resource cr sample_env sample_cfg sample_request ''a'' nonce_server)
   in fst (authenticate_account cr sample_env sample_cfg sample_request ''/acme/acct/a''
        (sv1\<lparr>sv_db := snd (create_nonce 0 ''n'' False (sv_db sv1))\<rparr>)) \<noteq> Inr (sample_header ''https://ra/acme/acct/a'', [], signed_account, [])"
proof -
  let ?cr = "sample_crypto nothing (sample_header ''https://ra/acme/acct/a'') [(''status'', JStr ''deactivated'')]"
  let ?run = "account_resource ?cr sample_env sample_cfg sample_request ''a'' nonce_server"
  have "verify_url (\<lambda>_. False) (sample_header ''https://ra/acme/acct/a'') (url sample_cfg ''/acme/acct/a'') = Inr ()" by code_simp
  note a = authenticate_sample [OF this, of nothing "[(''status'', JStr ''deactivated'')]"]
  have row: "get_account ''a'' (sv_db spent_server) = Some signed_account" "acc_id signed_account = ''a''"
    using signed_row by (simp_all add: spent_server_def get_account_def signed_account_def sample_account_def)
  have "row_thumbprint sample_env signed_account = Inr []"
    using signed_thumbprint by (simp add: row_thumbprint_def thumbprint_of_def signed_account_def)
  moreover have "enforce_account_usable sample_env sample_cfg signed_account spent_server = (Inr (), spent_server)"
    by (simp add: enforce_account_usable_def signed_account_def sample_account_def sample_cfg_def eab_kids_def)
  ultimately obtain args where d: "deactivate_locked sample_env sample_cfg signed_account [] spent_server
      = (Inr (), audit sample_env args (spent_server\<lparr>sv_db := snd (update_account_status ''a'' AcctDEACTIVATED (sv_db spent_server))\<rparr>))"
    using row by (auto simp: deactivate_locked_def hbind_def lift_fault_def on_db_def audited_def Let_def case_prod_beta)
  obtain r where "get_account ''a'' (sv_db (audit sample_env args (spent_server\<lparr>sv_db := snd (update_account_status ''a'' AcctDEACTIVATED (sv_db spent_server))\<rparr>)))
      = Some r" "acc_status r = AcctDEACTIVATED"
    using deactivate_locked_ok [OF d] row(2) by auto
  then obtain rsp sv1 where run: "?run = (Inr rsp, sv1)" "get_account ''a'' (sv_db sv1) = Some r" "acc_status r = AcctDEACTIVATED"
    using a d row by (auto simp: account_resource_def hbind_def)
  have "get_account ''a'' (sv_db nonce_server) = Some signed_account" "acc_status signed_account = AcctVALID"
    using row(1) by (simp_all add: spent_server_def nonce_server_def get_account_def signed_account_def sample_account_def)
  with run(2,3) have "accounts (sv_db sv1) \<noteq> accounts (sv_db nonce_server)" by (auto simp: get_account_def)
  moreover have "store_step\<^sup>*\<^sup>* (sv_db sv1) (sv_db (sv1\<lparr>sv_db := snd (create_nonce 0 ''n'' False (sv_db sv1))\<rparr>))"
    using store_step.create_nonce by (simp add: r_into_rtranclp)
  ultimately show ?thesis
    using deactivated_evicted [OF wf_nonce_server(1) run(1)] run(1) row(2) by (simp add: Let_def)
qed

end
