(* ===== verification/OrderSafety.thy ===== *)
theory OrderSafety
  imports OrderRoutes FinalizeSafety AccountSafety
begin

text \<open>
  What the order, authorization, challenge and certificate routes promise: an order is placed
  and made ready only by an authenticated account, for names in the DNS syntax, within the
  limits; a certificate leaves the server only while it is honoured and only to its account;
  a read tells a client nothing about rows of other accounts; and the CA is called only for
  an authenticated finalize request.
\<close>

section \<open>Frames\<close>

context handler_frame begin

lemma keeps_pair_at [intro]: "(\<And>a b. keeps (f a b)) \<Longrightarrow> keeps (\<lambda>sv. case v of (a, b) \<Rightarrow> f a b sv)"
  by (cases v) (simp add: keeps_def)

lemma keeps_order_rate_limited [intro]: "keeps (order_rate_limited en i d w)"
  unfolding order_rate_limited_def by (intro keeps_rules)

lemma keeps_check_rate_limit [intro]: "keeps (check_rate_limit en cfg i)"
proof -
  have "keeps (check_kid_limit en cfg i)"
    unfolding check_kid_limit_def Let_def
    by (intro keeps_rules keeps_order_rate_limited keepsI)
       (auto simp: refl keepsD [OF keeps_order_rate_limited] split: option.split)
  moreover have "keeps (check_global_limit en cfg i)"
    by (rule keepsI) (simp add: check_global_limit_def Let_def refl keepsD [OF keeps_order_rate_limited])
  ultimately show ?thesis unfolding check_rate_limit_def by (intro keeps_rules)
qed

end

lemma runs_write_db: "(\<And>s. store_step s (f s)) \<Longrightarrow> runs.keeps (write_db f)"
  by (auto simp: runs.keeps_def db_run_def write_db_def)

lemma runs_maybe_ready: "runs.keeps (maybe_ready_order en i)"
proof -
  have "runs.keeps (hbind (on_db (transition_pending_to_ready (en_now en) i)) (\<lambda>_. ret ()))"
    by (intro runs.keeps_rules runs_on_db store_step.pending_to_ready)
  then show ?thesis
    by (intro runs.keepsI) (auto simp: maybe_ready_order_def runs.refl runs.keepsD split: option.split)
qed

lemma runs_validate: "runs.keeps (validate_challenge en cfg account challenge authz)"
  unfolding validate_challenge_def
  by (intro runs.keeps_rules runs_write_db runs_maybe_ready store_step.challenge_status store_step.authz_status)

lemma runs_place_order: "runs.keeps (place_order en cfg i fresh account ids)"
proof -
  have o: "runs.keeps (case r of
         Inl (OrderRateLimitExceeded scope limit n window kid) \<Rightarrow> order_rate_limited en j (d scope limit n window kid) window
       | Inl e \<Rightarrow> lift_fault (Inl (StoreFault e))
       | Inr order \<Rightarrow> hbind (audited en (f order)) (\<lambda>_. ret (g order)))" for r j d f and g :: "OrderRow \<Rightarrow> response"
    by (auto split: sum.split store_error.split intro!: runs.keeps_rules runs.keeps_order_rate_limited)
  show ?thesis unfolding place_order_def
    by (intro runs.keeps_rules runs_on_db store_step.create_order o)
qed

lemma runs_order_routes:
  "runs.keeps (new_order cr en cfg rq i fresh)" "runs.keeps (get_order_route cr en cfg rq i)"
  "runs.keeps (post_authorization cr en cfg rq i)" "runs.keeps (post_certificate cr en cfg rq i)"
  "runs.keeps (post_challenge cr en cfg rq i)"
proof -
  show "runs.keeps (new_order cr en cfg rq i fresh)" unfolding new_order_def
    by (intro runs.keeps_rules authenticate_keeps runs.keeps_check_rate_limit runs_place_order)
  show "runs.keeps (get_order_route cr en cfg rq i)" unfolding get_order_route_def
    by (intro runs.keeps_rules authenticate_keeps)
  show "runs.keeps (post_authorization cr en cfg rq i)" unfolding post_authorization_def
    by (intro runs.keeps_rules runs.keeps_pair_at authenticate_keeps)
  show "runs.keeps (post_certificate cr en cfg rq i)" unfolding post_certificate_def
    by (intro runs.keeps_rules runs.keeps_pair_at authenticate_keeps)
  show "runs.keeps (post_challenge cr en cfg rq i)" unfolding post_challenge_def
    by (intro runs.keeps_rules runs.keeps_pair_at authenticate_keeps runs_validate)
qed


section \<open>newOrder\<close>

text \<open>An identifier the routes accept: a DNS name in its syntax, without a wildcard.\<close>

definition dns_identifier :: "string \<times> string \<Rightarrow> bool" where
  "dns_identifier i \<longleftrightarrow> fst i = ''dns'' \<and> CHR ''*'' \<notin> set (snd i) \<and> validate_dns_name (snd i) = Inr ()"

lemma parse_identifier_ok: "parse_identifier item = Inr i \<Longrightarrow> dns_identifier i"
  by (auto simp: parse_identifier_def dns_identifier_def split: json.splits option.splits if_splits sum.splits)

lemma parse_identifiers_ok:
  "parse_identifiers items = Inr ids \<Longrightarrow> length ids = length items \<and> list_all dns_identifier ids"
  by (induction items arbitrary: ids) (auto dest: parse_identifier_ok)

lemma requested_identifiers_ok:
  assumes "requested_identifiers cfg payload = Inr ids"
  shows "ids \<noteq> [] \<and> length ids \<le> max_identifiers_per_order cfg \<and> list_all dns_identifier ids"
proof -
  obtain items where "items \<noteq> []" "length items \<le> max_identifiers_per_order cfg" "parse_identifiers items = Inr ids"
    using assms by (auto simp: requested_identifiers_def not_less split: option.splits json.splits if_splits)
  with parse_identifiers_ok [of items ids] show ?thesis by auto
qed

lemma place_order_changes:
  assumes "\<not> rows_kept sv (snd (place_order en cfg i fresh account ids sv))"
  obtains row s' where
    "create_order_with_authz (order_expiry_seconds cfg) (en_now en) (en_now en) (order_urls cfg) i fresh (acc_id account) ids
       (Some (rate_limit_window_seconds cfg)) (order_limit cfg (acc_eab_kid account)) (rate_limit_global_per_window cfg) (sv_db sv)
       = (Inr row, s')"
    "orders (sv_db (snd (place_order en cfg i fresh account ids sv))) = orders s'"
proof -
  let ?create = "create_order_with_authz (order_expiry_seconds cfg) (en_now en) (en_now en) (order_urls cfg) i fresh (acc_id account) ids
       (Some (rate_limit_window_seconds cfg)) (order_limit cfg (acc_eab_kid account)) (rate_limit_global_per_window cfg)"
  obtain r s' where c: "?create (sv_db sv) = (r, s')" by force
  show thesis
  proof (cases r)
    case (Inr row)
    then have "orders (sv_db (snd (place_order en cfg i fresh account ids sv))) = orders s'"
      using c by (simp add: place_order_def hbind_def on_db_def audited_def)
    then show thesis using that c Inr by simp
  next
    case (Inl e)
    then have "s' = sv_db sv" using c create_order_fails by blast
    then have "rows_kept sv (snd (place_order en cfg i fresh account ids sv))"
      using c Inl rows.refl [of sv]
      by (cases e) (simp_all add: place_order_def hbind_def [of "on_db _"] on_db_def lift_fault_def
          rows.keepsD [OF rows.keeps_order_rate_limited])
    with assms show thesis by blast
  qed
qed

lemma check_rate_limit_ok: "check_rate_limit en cfg i sv = (Inr u, sv') \<Longrightarrow> sv' = sv"
  by (auto simp: check_rate_limit_def check_kid_limit_def check_global_limit_def Let_def hbind_Inr_iff
      order_rate_limited_def split: if_splits option.splits)

text \<open>
  C16. An order is placed only by an authenticated account. It is pending, belongs to that
  account, asks for between one and the configured number of identifiers, all of them DNS names in
  their syntax without a wildcard, has one authorization of that account per identifier, and was
  within the credential's and the server's limits.
\<close>

theorem order_placed:
  assumes "wf_db (sv_db sv)" "\<not> rows_kept sv (snd (new_order cr en cfg rq i fresh sv))"
  shows "\<exists>header payload account tp sv1 ids row.
      authenticate_account cr en cfg rq ''/acme/new-order'' sv = (Inr (header, payload, account, tp), sv1)
      \<and> requested_identifiers cfg payload = Inr ids
      \<and> ids \<noteq> [] \<and> length ids \<le> max_identifiers_per_order cfg \<and> list_all dns_identifier ids
      \<and> orders (sv_db (snd (new_order cr en cfg rq i fresh sv))) = orders (sv_db sv) @ [row]
      \<and> ord_id row = i \<and> ord_status row = PENDING \<and> ord_account_id row = acc_id account \<and> ord_identifiers row = ids
      \<and> length (ord_authorizations row) = length ids
      \<and> (order_limit cfg (acc_eab_kid account) = 0 \<or>
           count_recent_orders_by_kid (en_now en) (acc_eab_kid account) (rate_limit_window_seconds cfg) (sv_db sv)
             < order_limit cfg (acc_eab_kid account))
      \<and> (rate_limit_global_per_window cfg = 0 \<or>
           count_all_recent_orders (en_now en) (rate_limit_window_seconds cfg) (sv_db sv) < rate_limit_global_per_window cfg)"
proof -
  let ?path = "''/acme/new-order''" and ?sv' = "snd (new_order cr en cfg rq i fresh sv)"
  from assms(2) obtain a sv1 where a: "authenticate_account cr en cfg rq ?path sv = (Inr a, sv1)" "rows_kept sv sv1"
    unfolding new_order_def by (rule hbind_changes [OF authenticate_keeps(2)])
  obtain header payload account tp where a4: "a = (header, payload, account, tp)" using prod_cases4 by blast
  let ?m = "hbind (check_rate_limit en cfg (acc_id account)) (\<lambda>_. hbind (lift (requested_identifiers cfg payload))
       (place_order en cfg i fresh account)) :: response handler"
  have run: "new_order cr en cfg rq i fresh sv = ?m sv1"
    using a a4 by (simp add: new_order_def hbind_def [of "authenticate_account _ _ _ _ _"])
  have "\<not> rows_kept sv1 (snd (?m sv1))" using assms(2) a(2) rows.trans unfolding run by blast
  then obtain u sv2 where l: "check_rate_limit en cfg (acc_id account) sv1 = (Inr u, sv2)"
    and ch: "\<not> rows_kept sv2 (snd (hbind (lift (requested_identifiers cfg payload)) (place_order en cfg i fresh account) sv2))"
    by (rule hbind_changes [OF rows.keeps_check_rate_limit])
  have "sv2 = sv1" using check_rate_limit_ok [OF l] .
  from ch obtain ids sv3 where ids: "lift (requested_identifiers cfg payload) sv2 = (Inr ids, sv3)"
    and ch3: "\<not> rows_kept sv3 (snd (place_order en cfg i fresh account ids sv3))"
    by (rule hbind_changes [OF rows.keeps_basic(3)])
  have q: "requested_identifiers cfg payload = Inr ids" "sv3 = sv1" using ids \<open>sv2 = sv1\<close> by (auto simp: lift_Inr)
  have same: "orders (sv_db sv1) = orders (sv_db sv)" "accounts (sv_db sv1) = accounts (sv_db sv)"
    using a(2) by (simp_all add: rows_kept_def)
  have fin: "new_order cr en cfg rq i fresh sv = place_order en cfg i fresh account ids sv1"
    using run l ids q \<open>sv2 = sv1\<close> by (simp add: hbind_def lift_def)
  from ch3 [unfolded q(2)] obtain row s' where
    c: "create_order_with_authz (order_expiry_seconds cfg) (en_now en) (en_now en) (order_urls cfg) i fresh (acc_id account) ids
       (Some (rate_limit_window_seconds cfg)) (order_limit cfg (acc_eab_kid account)) (rate_limit_global_per_window cfg) (sv_db sv1)
       = (Inr row, s')" "orders (sv_db ?sv') = orders s'"
    unfolding fin by (rule place_order_changes)
  show ?thesis
  proof (cases rule: create_order_ok [OF c(1)])
    case (1 azs chs)
    have acct: "get_account (acc_id account) (sv_db sv1) = Some account"
      using authenticate_sound [OF assms(1) a(1) [unfolded a4]] same by (auto simp: get_account_def)
    have limits: "order_limit cfg (acc_eab_kid account) = 0 \<or>
           count_recent_orders_by_kid (en_now en) (acc_eab_kid account) (rate_limit_window_seconds cfg) (sv_db sv)
             < order_limit cfg (acc_eab_kid account)"
      "rate_limit_global_per_window cfg = 0 \<or>
           count_all_recent_orders (en_now en) (rate_limit_window_seconds cfg) (sv_db sv) < rate_limit_global_per_window cfg"
      using check_order_limits_ok [OF 1(1)] acct same
      by (auto simp: count_recent_orders_by_kid_def count_all_recent_orders_def kid_orders_since_def orders_since_def)
    have "orders s' = orders (sv_db sv) @ [row]" "length azs = length ids" using 1(4) same 1(5) by (auto dest: map_eq_imp_length_eq)
    then show ?thesis
      by (intro exI [of _ header] exI [of _ payload] exI [of _ account] exI [of _ tp] exI [of _ sv1] exI [of _ ids] exI [of _ row])
         (use a(1) a4 q(1) requested_identifiers_ok [OF q(1)] c(2) 1(3) limits in \<open>simp add: new_order_row_def\<close>)
  qed
qed


section \<open>Challenges\<close>

lemma write_db_run [simp]: "write_db f sv = (Inr (), sv\<lparr>sv_db := f (sv_db sv)\<rparr>)"
  by (simp add: write_db_def)

lemma consume_authz_tables [simp]:
  "authorizations (snd (consume_nonce now n s)) = authorizations s" "challenges (snd (consume_nonce now n s)) = challenges s"
  by (simp_all add: consume_nonce_def delete_nonce_def Let_def case_prod_beta)

lemma status_tables [simp]:
  "orders (update_challenge_status i st at s) = orders s" "orders (update_authorization_status i st s) = orders s"
  by (simp_all add: update_challenge_status_def update_authorization_status_def)

lemma maybe_ready_cases:
  obtains (kept) "maybe_ready_order en i sv = (Inr (), sv)"
  | (ready) order where "get_order i (sv_db sv) = Some order" "ord_status order = PENDING"
      "\<not> is_expired (ord_expires order) (en_now en)" "list_all (authz_valid (sv_db sv)) (ord_authorizations order)"
      "maybe_ready_order en i sv = (Inr (), sv\<lparr>sv_db := snd (transition_pending_to_ready (en_now en) i (sv_db sv))\<rparr>)"
proof (cases "get_order i (sv_db sv)")
  case None
  then show thesis using kept by (simp add: maybe_ready_order_def)
next
  case (Some order)
  show thesis
  proof (cases "ord_status order = PENDING \<and> \<not> is_expired (ord_expires order) (en_now en)
      \<and> list_all (authz_valid (sv_db sv)) (ord_authorizations order)")
    case True
    with Some ready show thesis by (simp add: maybe_ready_order_def hbind_def on_db_def case_prod_beta Let_def)
  next
    case False
    with Some kept show thesis by (auto simp: maybe_ready_order_def)
  qed
qed

lemma authz_valid_cong: "authorizations s' = authorizations s \<Longrightarrow> authz_valid s' = authz_valid s"
  by (rule ext) (auto simp: authz_valid_def get_authorization_def split: option.split)

lemma transition_ready_orders:
  assumes "wf_db s" "get_order i s = Some order" "ord_status order = PENDING"
  shows "orders (snd (transition_pending_to_ready now i s)) =
      upd_where (\<lambda>r. ord_id r = i) (\<lambda>r. r\<lparr>ord_status := READY, ord_processing_started_at := None, ord_updated_at := now_iso now\<rparr>) (orders s)"
    "authorizations (snd (transition_pending_to_ready now i s)) = authorizations s"
proof -
  have "r = order" if "r \<in> set (orders s)" "ord_id r = i" for r
    using find_key_unique [of ord_id "orders s" r] assms(1,2) that by (auto simp: wf_db_def get_order_def)
  then have "upd_where (\<lambda>r. ord_id r = i \<and> ord_status r = PENDING) f (orders s) = upd_where (\<lambda>r. ord_id r = i) f (orders s)" for f
    using assms(3) by (intro upd_where_cong) auto
  then show "orders (snd (transition_pending_to_ready now i s)) =
      upd_where (\<lambda>r. ord_id r = i) (\<lambda>r. r\<lparr>ord_status := READY, ord_processing_started_at := None, ord_updated_at := now_iso now\<rparr>) (orders s)"
    "authorizations (snd (transition_pending_to_ready now i s)) = authorizations s"
    by (simp_all add: transition_pending_to_ready_def cas_orders_def upd_orders_def)
qed

text \<open>
  An order becomes ready only by an authenticated request of the account that owns the
  challenge, with an empty payload; the order was pending and not expired, and all its
  authorizations are valid in the resulting state. Nothing else happens to any order.
\<close>

theorem order_readied:
  assumes "wf_db (sv_db sv)" "orders (sv_db (snd (post_challenge cr en cfg rq i sv))) \<noteq> orders (sv_db sv)"
  shows "\<exists>header account tp sv1 challenge authz chs order.
      authenticate_account cr en cfg rq (''/acme/challenge/'' @ i) sv = (Inr (header, [], account, tp), sv1)
      \<and> get_challenge i (sv_db sv) = Some challenge
      \<and> get_authorization (ch_authz_id challenge) (sv_db sv) = Some (authz, chs) \<and> az_account_id authz = acc_id account
      \<and> get_order (az_order_id authz) (sv_db sv) = Some order \<and> ord_status order = PENDING
      \<and> \<not> is_expired (ord_expires order) (en_now en)
      \<and> list_all (authz_valid (sv_db (snd (post_challenge cr en cfg rq i sv)))) (ord_authorizations order)
      \<and> orders (sv_db (snd (post_challenge cr en cfg rq i sv))) =
          upd_where (\<lambda>r. ord_id r = az_order_id authz)
            (\<lambda>r. r\<lparr>ord_status := READY, ord_processing_started_at := None, ord_updated_at := now_iso (en_now en)\<rparr>)
            (orders (sv_db sv))"
proof -
  let ?path = "''/acme/challenge/'' @ i" and ?sv' = "snd (post_challenge cr en cfg rq i sv)"
  let ?ready = "\<lambda>r. r\<lparr>ord_status := READY, ord_processing_started_at := None, ord_updated_at := now_iso (en_now en)\<rparr>"
  have "\<not> rows_kept sv ?sv'" using assms(2) by (simp add: rows_kept_def)
  then obtain a sv1 where a: "authenticate_account cr en cfg rq ?path sv = (Inr a, sv1)" "rows_kept sv sv1"
    unfolding post_challenge_def by (rule hbind_changes [OF authenticate_keeps(2)])
  obtain header payload account tp where a4: "a = (header, payload, account, tp)" using prod_cases4 by blast
  have fresh: "fresh_nonce en header sv sv1" using authenticate_sound [OF assms(1) a(1) [unfolded a4]] by blast
  have tables: "orders (sv_db sv1) = orders (sv_db sv)" "authorizations (sv_db sv1) = authorizations (sv_db sv)"
      "challenges (sv_db sv1) = challenges (sv_db sv)" "wf_db (sv_db sv1)"
    using fresh wf_consume_nonce [OF assms(1)] by (auto simp: fresh_nonce_def)
  have run: "post_challenge cr en cfg rq i sv = (case get_challenge i (sv_db sv1) of
         None \<Rightarrow> raising unauthorized sv1
       | Some challenge \<Rightarrow>
           (case get_authorization (ch_authz_id challenge) (sv_db sv1) of
              None \<Rightarrow> raising unauthorized sv1
            | Some (authz, chs) \<Rightarrow>
                if az_account_id authz \<noteq> acc_id account then raising unauthorized sv1
                else if payload \<noteq> [] then raising malformed sv1
                else if ch_status challenge = ''valid'' then ret (challenge_response cfg challenge authz) sv1
                else validate_challenge en cfg account challenge authz sv1))"
    using a a4 by (simp add: post_challenge_def hbind_def)
  with assms(2) tables(1) obtain challenge authz chs where
    c: "get_challenge i (sv_db sv1) = Some challenge" "get_authorization (ch_authz_id challenge) (sv_db sv1) = Some (authz, chs)"
      "az_account_id authz = acc_id account" "payload = []"
    and run1: "post_challenge cr en cfg rq i sv = validate_challenge en cfg account challenge authz sv1"
    by (auto split: option.splits if_splits)
  define sv2 where "sv2 = sv1\<lparr>sv_db := update_authorization_status (ch_authz_id challenge) ''valid''
      (update_challenge_status (ch_id challenge) ''valid'' (Some (now_iso (en_now en))) (sv_db sv1))\<rparr>"
  have o2: "orders (sv_db sv2) = orders (sv_db sv)" "wf_db (sv_db sv2)" using tables by (simp_all add: sv2_def wf_authz_challenge)
  have last: "orders (sv_db ?sv') = orders (sv_db (snd (maybe_ready_order en (az_order_id authz) sv2)))
      \<and> authorizations (sv_db ?sv') = authorizations (sv_db (snd (maybe_ready_order en (az_order_id authz) sv2)))"
    unfolding run1 validate_challenge_def
    by (cases rule: maybe_ready_cases [of en "az_order_id authz" sv2])
       (simp_all add: hbind_def sv2_def audited_def split: option.split)
  from c have c': "get_challenge i (sv_db sv) = Some challenge" "get_authorization (ch_authz_id challenge) (sv_db sv) = Some (authz, chs)"
    using tables by (simp_all add: get_challenge_def get_authorization_def cong: option.case_cong)
  show ?thesis
  proof (cases rule: maybe_ready_cases [of en "az_order_id authz" sv2])
    case kept
    with last o2 assms(2) show ?thesis by simp
  next
    case (ready order)
    note t = transition_ready_orders [OF o2(2) ready(1,2), of "en_now en"]
    have "authz_valid (sv_db ?sv') = authz_valid (sv_db sv2)" using last ready(5) t(2) by (intro authz_valid_cong) simp
    moreover have "get_order (az_order_id authz) (sv_db sv) = Some order" using ready(1) o2(1) by (simp add: get_order_def)
    ultimately show ?thesis
      by (intro exI [of _ header] exI [of _ account] exI [of _ tp] exI [of _ sv1] exI [of _ challenge] exI [of _ authz] exI [of _ chs]
          exI [of _ order])
         (use a(1) a4 c c' ready last t(1) o2(1) in simp)
  qed
qed

section \<open>Certificates\<close>

text \<open>
  C17. A certificate leaves the server only in answer to an authenticated request of the
  account it was issued to, and only while its row is valid: a revoked or quarantined
  certificate is answered with 410 and no body.
\<close>

theorem certificate_served:
  assumes "wf_db (sv_db sv)" "post_certificate cr en cfg rq i sv = (Inr rsp, sv')"
  shows "\<exists>header account tp cert.
      authenticate_account cr en cfg rq (''/acme/cert/'' @ i) sv = (Inr (header, [], account, tp), sv')
      \<and> get_certificate i (sv_db sv) = Some cert \<and> cert_account_id cert = acc_id account
      \<and> (if cert_status cert = CertVALID
         then rs_status rsp = 200 \<and> rs_body rsp = JStr (cert_pem cert @ concat (cert_chain_pem cert))
         else rs_status rsp = 410 \<and> rs_body rsp = JNull)"
proof -
  from assms(2) obtain header payload account tp sv1 where
    a: "authenticate_account cr en cfg rq (''/acme/cert/'' @ i) sv = (Inr (header, payload, account, tp), sv1)"
    and r: "payload = []" "sv' = sv1"
      "case get_certificate i (sv_db sv1) of None \<Rightarrow> False
       | Some cert \<Rightarrow> cert_account_id cert = acc_id account \<and> rsp = certificate_response cert"
    unfolding post_certificate_def by (auto simp: hbind_Inr_iff split: option.splits if_splits)
  have "certificates (sv_db sv1) = certificates (sv_db sv)"
    using rows.keepsD [OF authenticate_keeps(2) [of cr en cfg rq "''/acme/cert/'' @ i"], of sv] a by (simp add: rows_kept_def)
  then show ?thesis
    using a r by (auto simp: get_certificate_def certificate_response_def split: option.splits)
qed

section \<open>Reads\<close>

text \<open>The rows an account may see.\<close>

definition own :: "('a \<Rightarrow> string) \<Rightarrow> AccountRow \<Rightarrow> 'a option \<Rightarrow> 'a option" where
  "own owner account row = (case row of None \<Rightarrow> None | Some r \<Rightarrow> if owner r = acc_id account then Some r else None)"

lemma read_answer:
  "fst (case v of None \<Rightarrow> raising e sv | Some r \<Rightarrow> if owner r \<noteq> acc_id account then raising e sv else ret (f r) sv)
     = (case own owner account v of None \<Rightarrow> Inl (Acme e) | Some r \<Rightarrow> Inr (f r))"
  by (simp add: own_def split: option.split)

lemma read_authz_answer:
  "fst (case v of None \<Rightarrow> raising e sv
        | Some (authz, chs) \<Rightarrow> if az_account_id authz \<noteq> acc_id account then raising e sv else ret (f authz chs) sv)
     = (case own (\<lambda>r. az_account_id (fst r)) account v of None \<Rightarrow> Inl (Acme e) | Some r \<Rightarrow> Inr (f (fst r) (snd r)))"
  by (simp add: own_def split: option.split prod.split)

text \<open>
  Reads do not leak: when two servers authenticate a request alike and agree on the row it
  names as far as the authenticated account owns it, they answer alike. So the row of
  another account cannot be told from a missing one, by status, body or headers.
\<close>

theorem reads_scoped:
  assumes "authenticate_account cr en cfg rq path a = (Inr (header, payload, account, tp), a1)"
    "authenticate_account cr en cfg rq path b = (Inr (header, payload, account, tp), b1)"
  shows "(path = ''/acme/order/'' @ i \<longrightarrow>
        own ord_account_id account (get_order i (sv_db a1)) = own ord_account_id account (get_order i (sv_db b1)) \<longrightarrow>
        fst (get_order_route cr en cfg rq i a) = fst (get_order_route cr en cfg rq i b))
    \<and> (path = ''/acme/authz/'' @ i \<longrightarrow>
        own (\<lambda>r. az_account_id (fst r)) account (get_authorization i (sv_db a1))
          = own (\<lambda>r. az_account_id (fst r)) account (get_authorization i (sv_db b1)) \<longrightarrow>
        fst (post_authorization cr en cfg rq i a) = fst (post_authorization cr en cfg rq i b))
    \<and> (path = ''/acme/cert/'' @ i \<longrightarrow>
        own cert_account_id account (get_certificate i (sv_db a1)) = own cert_account_id account (get_certificate i (sv_db b1)) \<longrightarrow>
        fst (post_certificate cr en cfg rq i a) = fst (post_certificate cr en cfg rq i b))"
  using assms
  by (intro conjI impI) (simp_all add: get_order_route_def post_authorization_def post_certificate_def hbind_def [of "authenticate_account _ _ _ _ _"]
      read_answer read_authz_answer)


section \<open>Finalize\<close>

text \<open>
  C1. From the wire to the CA: the finalize route calls the CA only for a request that authenticates
  an account, and then only for an order of that account that is ready, unexpired and without a
  certificate, for a certificate request that is signed, strong, names only DNS names of the
  order in the credential's scope, has no other subject name and asks for no CA power; the
  account's stored key is still the one that signed the request, issuance is not halted
  and the gate has room. It is called once, under the order's next lease.
\<close>

theorem issuance_authorized:
  assumes "wf_db (sv_db sv)"
    "sv_ca (snd (finalize_route cr en cfg rq cid oid gate answer disk sv)) \<noteq> sv_ca sv"
  shows "\<exists>header payload account tp sv1 order c sans.
      authenticate_account cr en cfg rq (''/acme/finalize/'' @ oid) sv = (Inr (header, payload, account, tp), sv1)
      \<and> get_order oid (sv_db sv) = Some order \<and> ord_account_id order = acc_id account
      \<and> ord_status order = READY \<and> \<not> is_expired (ord_expires order) (en_now en)
      \<and> get_certificate_by_order oid (sv_db sv) = None
      \<and> get_account (acc_id account) (sv_db sv) = Some account \<and> acc_status account = AcctVALID
      \<and> acc_eab_kid account \<in> set (eab_kids cfg) \<and> current_thumbprint en (Some account) = Inr (Some tp)
      \<and> parse_csr cfg payload = Inr c \<and> csr_in_scope cfg order (acc_eab_kid account) c sans
      \<and> sv_halt sv = None \<and> \<not> gate
      \<and> sv_ca (snd (finalize_route cr en cfg rq cid oid gate answer disk sv))
          = sv_ca sv @ [(oid, Suc (ord_processing_generation order))]"
proof -
  let ?path = "''/acme/finalize/'' @ oid"
  have "\<not> rows_kept sv (snd (finalize_route cr en cfg rq cid oid gate answer disk sv))"
    using assms(2) by (simp add: rows_kept_def)
  then obtain a sv1 where a: "authenticate_account cr en cfg rq ?path sv = (Inr a, sv1)" "rows_kept sv sv1"
    unfolding finalize_route_def by (rule hbind_changes [OF authenticate_keeps(2)])
  obtain header payload account tp where a4: "a = (header, payload, account, tp)" using prod_cases4 by blast
  have run: "finalize_route cr en cfg rq cid oid gate answer disk sv
      = finalize_order en cfg cid (acc_id account) tp payload oid gate answer disk sv1"
    using a(1) a4 by (simp add: finalize_route_def hbind_def)
  have wf1: "wf_db (sv_db sv1)"
    using runs.keepsD [OF authenticate_keeps(1) [of cr en cfg rq ?path], of sv] a(1) assms(1)
    by (auto simp: db_run_def intro: wf_reachable)
  have acct: "get_account (acc_id account) (sv_db sv) = Some account"
    using authenticate_sound [OF assms(1) a(1) [unfolded a4]] by blast
  have same: "orders (sv_db sv1) = orders (sv_db sv)" "accounts (sv_db sv1) = accounts (sv_db sv)"
      "certificates (sv_db sv1) = certificates (sv_db sv)" "sv_ca sv1 = sv_ca sv" "sv_halt sv1 = sv_halt sv"
    using a(2) by (simp_all add: rows_kept_def)
  obtain order row c sans where q: "get_order oid (sv_db sv1) = Some order" "ord_account_id order = acc_id account"
      "ord_status order = READY" "\<not> is_expired (ord_expires order) (en_now en)" "get_certificate_by_order oid (sv_db sv1) = None"
      "get_account (acc_id account) (sv_db sv1) = Some row" "acc_status row = AcctVALID" "acc_eab_kid row \<in> set (eab_kids cfg)"
      "current_thumbprint en (Some row) = Inr (Some tp)" "parse_csr cfg payload = Inr c"
      "csr_in_scope cfg order (acc_eab_kid row) c sans" "sv_halt sv1 = None" "\<not> gate"
    and ca: "sv_ca (snd (finalize_route cr en cfg rq cid oid gate answer disk sv))
          = sv_ca sv1 @ [(oid, Suc (ord_processing_generation order))]"
    using ca_call_sound [OF wf1, of en cfg cid "acc_id account" tp payload oid gate answer disk] assms(2) same(4)
    unfolding run by auto
  have "row = account" using acct q(6) same(2) by (simp add: get_account_def)
  then show ?thesis
    by (intro exI [of _ header] exI [of _ payload] exI [of _ account] exI [of _ tp] exI [of _ sv1] exI [of _ order] exI [of _ c]
        exI [of _ sans])
       (use a(1) a4 acct q ca same in \<open>simp add: get_order_def get_certificate_by_order_def\<close>)
qed

section \<open>Witnesses\<close>

definition finalize_crypto :: crypto where
  "finalize_crypto = sample_crypto nothing (sample_header ''https://ra/acme/finalize/o1'') sample_payload"

lemma url_finalize:
  "verify_url (\<lambda>_. False) (sample_header ''https://ra/acme/finalize/o1'') (url sample_cfg (''/acme/finalize/'' @ ''o1'')) = Inr ()"
  by code_simp

lemma spent_is_signed: "spent_server = signed_server"
  by (simp add: spent_server_def signed_server_def sample_server_def sample_db_def empty_db_def)

lemma spent_parts: "sv_db spent_server = sv_db signed_server" "sv_halt spent_server = None" "sv_ca spent_server = []"
  by (simp_all add: spent_server_def signed_server_def sample_server_def sample_db_def empty_db_def)

lemma kids_sample: "set (eab_kids sample_cfg) = {''k''}"
  by (simp add: sample_cfg_def eab_kids_def)

theorem issuance_authorized_witness:
  "sv_ca (snd (finalize_route finalize_crypto sample_env sample_cfg sample_request ''c'' ''o1'' False (CaIssued (sample_result ''pem''))
     None nonce_server)) = [(''o1'', 1)] \<and> (\<exists>(order :: OrderRow) (c :: csr) sans. csr_in_scope sample_cfg order ''k'' c sans)"
proof -
  let ?run = "finalize_route finalize_crypto sample_env sample_cfg sample_request ''c'' ''o1'' False (CaIssued (sample_result ''pem''))
     None nonce_server"
  note auth = authenticate_sample [OF url_finalize, of nothing sample_payload, folded finalize_crypto_def]
  have "fst (finalize_check sample_env sample_cfg ''a'' sample_payload ''o1'' spent_server) = Inr (Inl sample_ap)"
    by (simp add: spent_is_signed check_sample)
  moreover have "acc_id signed_account = ''a''" by (simp add: signed_account_def sample_account_def)
  ultimately have ca: "sv_ca (snd ?run) = [(''o1'', 1)]"
    using auth ca_call_sample [OF spent_parts] by (simp add: finalize_route_def hbind_def)
  moreover have "sv_ca nonce_server = []" by (simp add: nonce_server_def signed_server_def sample_server_def)
  ultimately have "sv_ca (snd ?run) \<noteq> sv_ca nonce_server" by simp
  from issuance_authorized [OF wf_nonce_server(1) this]
  obtain account :: AccountRow and order :: OrderRow and c :: csr and sans where
    k: "acc_eab_kid account \<in> set (eab_kids sample_cfg)" "csr_in_scope sample_cfg order (acc_eab_kid account) c sans"
    by blast
  have "acc_eab_kid account = ''k''" using k(1) unfolding kids_sample by simp
  with k(2) have "csr_in_scope sample_cfg order ''k'' c sans" by simp
  with ca show ?thesis by blast
qed


text \<open>A pending order with one authorization and its challenge, a certificate, and requests on them.\<close>

definition order_payload :: details where
  "order_payload = [(''identifiers'', JList [JObj [(''type'', JStr ''dns''), (''value'', JStr ''h.example'')]])]"

definition fresh_ids :: "nat \<Rightarrow> string \<times> string \<times> string" where
  "fresh_ids n = (''z9'', ''x9'', ''t9'')"

definition order_crypto :: "string \<Rightarrow> details \<Rightarrow> crypto" where
  "order_crypto path payload = sample_crypto nothing (sample_header (''https://ra'' @ path)) payload"

lemma place_sample:
  "map ord_id (orders (sv_db (snd (place_order sample_env sample_cfg ''o9'' fresh_ids signed_account [(''dns'', ''h.example'')] spent_server))))
     = [''o1'', ''o2'', ''o9'']"
  by (simp add: place_order_def hbind_def on_db_def create_order_with_authz_def with_conn_def check_order_limits_def Let_def
      get_account_def kid_orders_since_def put_order_def put_challenge_def put_authz_def fresh_ids_def new_order_row_def order_urls_def
      audited_def upd_orders_def spent_is_signed signed_server_def sample_server_def sample_db_def sample_order_def empty_db_def
      signed_account_def sample_account_def order_limit_def sample_cfg_def sample_env_def cutoff_before_def now_iso_def upd_where_def
      micros_def orders_since_def)

lemma admit_order_sample:
  "fst (check_rate_limit sample_env sample_cfg ''a'' spent_server) = Inr ()"
  "requested_identifiers sample_cfg order_payload = Inr [(''dns'', ''h.example'')]"
proof -
  show "fst (check_rate_limit sample_env sample_cfg ''a'' spent_server) = Inr ()"
    by (simp add: check_rate_limit_def check_kid_limit_def check_global_limit_def hbind_def Let_def spent_is_signed
        get_account_def signed_server_def sample_server_def sample_db_def sample_order_def empty_db_def
        signed_account_def sample_account_def sample_cfg_def sample_env_def count_recent_orders_by_kid_def kid_orders_since_def)
  have "validate_dns_name ''h.example'' = Inr ()" by code_simp
  then show "requested_identifiers sample_cfg order_payload = Inr [(''dns'', ''h.example'')]"
    by (simp add: requested_identifiers_def order_payload_def sample_cfg_def parse_identifier_def)
qed

lemma new_order_sample:
  "map ord_id (orders (sv_db (snd (new_order (order_crypto ''/acme/new-order'' order_payload) sample_env sample_cfg sample_request
     ''o9'' fresh_ids nonce_server)))) = [''o1'', ''o2'', ''o9'']"
proof -
  have "authenticate_account (order_crypto ''/acme/new-order'' order_payload) sample_env sample_cfg sample_request ''/acme/new-order'' nonce_server
     = (Inr (sample_header ''https://ra/acme/new-order'', order_payload, signed_account, []), spent_server)"
    using authenticate_sample [OF url_sample] by (simp add: order_crypto_def)
  moreover have "check_rate_limit sample_env sample_cfg ''a'' spent_server = (Inr (), spent_server)"
    using check_rate_limit_ok admit_order_sample(1) by (metis prod.collapse)
  moreover have "acc_id signed_account = ''a''" by (simp add: signed_account_def sample_account_def)
  ultimately show ?thesis
    using place_sample admit_order_sample(2) by (simp add: new_order_def hbind_def lift_def)
qed

theorem order_placed_witness:
  "\<exists>row. orders (sv_db (snd (new_order (order_crypto ''/acme/new-order'' order_payload) sample_env sample_cfg sample_request
        ''o9'' fresh_ids nonce_server))) = orders (sv_db nonce_server) @ [row]
      \<and> ord_id row = ''o9'' \<and> ord_status row = PENDING \<and> list_all dns_identifier (ord_identifiers row)"
proof -
  let ?sv' = "snd (new_order (order_crypto ''/acme/new-order'' order_payload) sample_env sample_cfg sample_request ''o9'' fresh_ids nonce_server)"
  have "map ord_id (orders (sv_db nonce_server)) = [''o1'', ''o2'']"
    by (simp add: nonce_server_def signed_server_def sample_server_def sample_db_def sample_order_def)
  then have "\<not> rows_kept nonce_server ?sv'" using new_order_sample by (auto simp: rows_kept_def)
  from order_placed [OF wf_nonce_server(1) this] show ?thesis by blast
qed

definition pending_db :: db where
  "pending_db = (sv_db nonce_server)\<lparr>
     orders := [(sample_order ''o2'' PENDING 99)\<lparr>ord_authorizations := [''https://ra/acme/authz/z1'']\<rparr>],
     authorizations := [\<lparr>az_id = ''z1'', az_account_id = ''a'', az_order_id = ''o2'', az_identifier = (''dns'', ''h.example''),
        az_status = ''pending'', az_expires = 99\<rparr>],
     challenges := [\<lparr>ch_id = ''x1'', ch_authz_id = ''z1'', ch_type = ''http-01'', ch_status = ''pending'', ch_token = ''t'',
        ch_url = ''u'', ch_validated_at = None\<rparr>],
     certificates := [sample_cert ''c1'' ''o1'' CertVALID]\<rparr>"

definition pending_server :: server where
  "pending_server = nonce_server\<lparr>sv_db := pending_db\<rparr>"

lemma wf_pending: "wf_db (sv_db pending_server)"
  using wf_nonce_server(1)
  by (simp add: wf_db_def pending_server_def pending_db_def sample_order_def sample_cert_def)

lemma authenticate_pending:
  assumes "verify_url (\<lambda>_. False) (sample_header (''https://ra'' @ path)) (url sample_cfg path) = Inr ()"
  shows "authenticate_account (order_crypto path payload) sample_env sample_cfg sample_request path pending_server
     = (Inr (sample_header (''https://ra'' @ path), payload, signed_account, []), spend pending_server)"
  unfolding order_crypto_def using assms nonces_sample signed_row signed_thumbprint
  by (intro authenticate_sample_at)
     (simp_all add: signed_account_def sample_account_def nonce_server_def get_account_def pending_server_def pending_db_def)

lemma urls_pending:
  "verify_url (\<lambda>_. False) (sample_header (''https://ra'' @ ''/acme/new-order'')) (url sample_cfg ''/acme/new-order'') = Inr ()"
  "verify_url (\<lambda>_. False) (sample_header (''https://ra'' @ ''/acme/challenge/'' @ ''x1'')) (url sample_cfg (''/acme/challenge/'' @ ''x1'')) = Inr ()"
  "verify_url (\<lambda>_. False) (sample_header (''https://ra'' @ ''/acme/cert/'' @ ''c1'')) (url sample_cfg (''/acme/cert/'' @ ''c1'')) = Inr ()"
  "verify_url (\<lambda>_. False) (sample_header (''https://ra'' @ ''/acme/order/'' @ ''o7'')) (url sample_cfg (''/acme/order/'' @ ''o7'')) = Inr ()"
  by code_simp+

lemma validate_sample:
  "map ord_status (orders (sv_db (snd (validate_challenge sample_env sample_cfg signed_account
     \<lparr>ch_id = ''x1'', ch_authz_id = ''z1'', ch_type = ''http-01'', ch_status = ''pending'', ch_token = ''t'', ch_url = ''u'', ch_validated_at = None\<rparr>
     \<lparr>az_id = ''z1'', az_account_id = ''a'', az_order_id = ''o2'', az_identifier = (''dns'', ''h.example''), az_status = ''pending'', az_expires = 99\<rparr>
     (spend pending_server))))) = [READY]"
  by (simp add: validate_challenge_def hbind_def spend_def pending_server_def pending_db_def update_challenge_status_def
      update_authorization_status_def upd_where_def maybe_ready_order_def get_order_def sample_order_def is_expired_def sample_env_def
      authz_valid_def last_segment_def get_authorization_def on_db_def transition_pending_to_ready_def cas_orders_def upd_orders_def
      rowcount_def get_challenge_def audited_def micros_def)


theorem order_readied_witness:
  "let sv' = snd (post_challenge (order_crypto ''/acme/challenge/x1'' []) sample_env sample_cfg sample_request ''x1'' pending_server)
   in map ord_status (orders (sv_db sv')) = [READY] \<and> authz_valid (sv_db sv') ''https://ra/acme/authz/z1''"
proof -
  let ?sv' = "snd (post_challenge (order_crypto ''/acme/challenge/x1'' []) sample_env sample_cfg sample_request ''x1'' pending_server)"
  note auth = authenticate_pending [OF urls_pending(2), of "[]", simplified]
  have o: "get_challenge ''x1'' (sv_db (spend pending_server)) = Some \<lparr>ch_id = ''x1'', ch_authz_id = ''z1'', ch_type = ''http-01'',
       ch_status = ''pending'', ch_token = ''t'', ch_url = ''u'', ch_validated_at = None\<rparr>"
    "map_option fst (get_authorization ''z1'' (sv_db (spend pending_server))) = Some \<lparr>az_id = ''z1'', az_account_id = ''a'',
       az_order_id = ''o2'', az_identifier = (''dns'', ''h.example''), az_status = ''pending'', az_expires = 99\<rparr>"
    by (simp_all add: get_challenge_def get_authorization_def spend_def pending_server_def pending_db_def)
  have "acc_id signed_account = ''a''" by (simp add: signed_account_def sample_account_def)
  with auth o have r: "map ord_status (orders (sv_db ?sv')) = [READY]"
    using validate_sample by (auto simp: post_challenge_def hbind_def)
  moreover have p: "map ord_status (orders (sv_db pending_server)) = [PENDING]"
    by (simp add: pending_server_def pending_db_def sample_order_def)
  ultimately have "orders (sv_db ?sv') \<noteq> orders (sv_db pending_server)" by auto
  from order_readied [OF wf_pending this] obtain order where
    "order \<in> set (orders (sv_db pending_server))" "list_all (authz_valid (sv_db ?sv')) (ord_authorizations order)"
    by (auto simp: get_order_def dest: find_Some_in)
  then have "authz_valid (sv_db ?sv') ''https://ra/acme/authz/z1''" by (auto simp: pending_server_def pending_db_def)
  with r show ?thesis by (simp add: Let_def)
qed

theorem certificate_served_witness:
  "case fst (post_certificate (order_crypto ''/acme/cert/c1'' []) sample_env sample_cfg sample_request ''c1'' pending_server) of
     Inl e \<Rightarrow> False | Inr rsp \<Rightarrow> rs_status rsp = 200"
proof -
  let ?run = "post_certificate (order_crypto ''/acme/cert/c1'' []) sample_env sample_cfg sample_request ''c1'' pending_server"
  note auth = authenticate_pending [OF urls_pending(3), of "[]", simplified]
  have c: "get_certificate ''c1'' (sv_db (spend pending_server)) = Some (sample_cert ''c1'' ''o1'' CertVALID)"
      "get_certificate ''c1'' (sv_db pending_server) = Some (sample_cert ''c1'' ''o1'' CertVALID)"
    by (simp_all add: get_certificate_def spend_def pending_server_def pending_db_def sample_cert_def)
  then obtain rsp where r: "?run = (Inr rsp, spend pending_server)"
    using auth by (simp add: post_certificate_def hbind_def signed_account_def sample_account_def sample_cert_def sample_issued_def)
  from certificate_served [OF wf_pending r] c(2) have "rs_status rsp = 200" by (auto simp: sample_cert_def)
  with r show ?thesis by simp
qed

text \<open>An order of another account beside no order at all.\<close>

definition foreign_server :: server where
  "foreign_server = pending_server\<lparr>sv_db := pending_db\<lparr>orders := [(sample_order ''o7'' READY 10)\<lparr>ord_account_id := ''b''\<rparr>]\<rparr>\<rparr>"

theorem reads_scoped_witness:
  "fst (get_order_route (order_crypto ''/acme/order/o7'' []) sample_env sample_cfg sample_request ''o7'' foreign_server)
     = fst (get_order_route (order_crypto ''/acme/order/o7'' []) sample_env sample_cfg sample_request ''o7'' pending_server)"
proof -
  note auth = authenticate_pending [OF urls_pending(4), of "[]", simplified]
  have "authenticate_account (order_crypto ''/acme/order/o7'' []) sample_env sample_cfg sample_request ''/acme/order/o7'' foreign_server
     = (Inr (sample_header ''https://ra/acme/order/o7'', [], signed_account, []), spend foreign_server)"
    using urls_pending(4) nonces_sample signed_row signed_thumbprint
      authenticate_sample_at [of "''https://ra/acme/order/o7''" "''/acme/order/o7''" foreign_server sample_env signed_account "[]" nothing "[]"]
    by (simp add: order_crypto_def signed_account_def sample_account_def nonce_server_def get_account_def foreign_server_def pending_server_def pending_db_def)
  from reads_scoped [OF this auth, THEN conjunct1, of "''o7''"] show ?thesis
    by (simp add: own_def spend_def foreign_server_def pending_server_def pending_db_def get_order_def sample_order_def
        signed_account_def sample_account_def)
qed

end
