(* ===== verification/RevocationRoutes.thy ===== *)
theory RevocationRoutes
  imports AccountRoutes
begin

text \<open>
  Revocation: the legs of \<open>src/src/acme_adcs_ra/revocation.py\<close> and the route of
  \<open>src/src/acme_adcs_ra/routes/revocation.py\<close>. X.509 parsing is a parameter: a reader of DER
  and of PEM that gives the serial number, the re-encoded DER and the DNS names of a
  certificate. The backend the route calls is an argument, and the interface both backends
  of the repository satisfy is the locale \<open>revocation_leg\<close>.
\<close>

section \<open>Backends\<close>

record RevocationResult =
  rr_revoked :: bool
  rr_reason :: "int option"
  rr_revoked_at :: "timestamp option"
  rr_metadata :: "(string \<times> string) list"

type_synonym leg = "string \<Rightarrow> int option \<Rightarrow> string + RevocationResult"

definition SCOPE_RA_STORE_ONLY :: string where "SCOPE_RA_STORE_ONLY = ''ra-store-only''"

definition fake_revoke :: "clock \<Rightarrow> leg" where
  "fake_revoke now pem rsn =
     Inr \<lparr>rr_revoked = True, rr_reason = rsn, rr_revoked_at = Some (now_iso now),
          rr_metadata = [(''source'', ''fake''), (''revocation_scope'', ''ca-crl''), (''ca_crl_updated'', ''true'')]\<rparr>"

definition pem_serial :: "ext \<Rightarrow> string \<Rightarrow> string option" where
  "pem_serial x pem = map_option (\<lambda>n. map upper_char (hex_nat n)) (x_serial x pem)"

definition certsrv_revoke :: "ext \<Rightarrow> clock \<Rightarrow> leg" where
  "certsrv_revoke x now pem rsn =
     (case pem_serial x pem of
        None \<Rightarrow> Inl ''ValueError''
      | Some serial_hex \<Rightarrow>
          Inr \<lparr>rr_revoked = True, rr_reason = rsn, rr_revoked_at = Some (now_iso now),
               rr_metadata = [(''revocation_scope'', SCOPE_RA_STORE_ONLY), (''ca_crl_updated'', ''false''), (''serial'', serial_hex)]\<rparr>)"

section \<open>The request\<close>

record leaf =
  leaf_serial :: nat
  leaf_der :: bytes
  leaf_dns_sans :: "string list"

record leaf_reader =
  read_der :: "bytes \<Rightarrow> leaf option"
  read_pem :: "string \<Rightarrow> leaf option"

definition VALID_REVOCATION_REASONS :: "int set" where
  "VALID_REVOCATION_REASONS = {0, 1, 2, 3, 4, 5, 6, 9, 10}"

definition submitted_certificate :: "leaf_reader \<Rightarrow> details \<Rightarrow> AcmeError + leaf" where
  "submitted_certificate lr payload =
     (let cert_b64 = (case map_of payload ''certificate'' of
                        None \<Rightarrow> map_of payload ''cert'' | Some JNull \<Rightarrow> map_of payload ''cert'' | v \<Rightarrow> v)
      in case cert_b64 of
           Some (JStr text) \<Rightarrow>
             if text = [] then Inl malformed
             else (case base64url_decode text of
                     Inl _ \<Rightarrow> Inl malformed
                   | Inr der \<Rightarrow> (case read_der lr der of None \<Rightarrow> Inl malformed | Some cert \<Rightarrow> Inr cert))
         | _ \<Rightarrow> Inl malformed)"

definition requested_reason :: "details \<Rightarrow> AcmeError + int option" where
  "requested_reason payload =
     (case map_of payload ''reason'' of
        None \<Rightarrow> Inr None
      | Some JNull \<Rightarrow> Inr None
      | Some (JInt n) \<Rightarrow> if n \<in> VALID_REVOCATION_REASONS then Inr (Some n) else Inl bad_revocation_reason
      | Some _ \<Rightarrow> Inl bad_revocation_reason)"

definition metadata_or :: "(string \<times> string) list \<Rightarrow> string \<Rightarrow> string \<Rightarrow> string" where
  "metadata_or m k d = (case map_of m k of None \<Rightarrow> d | Some v \<Rightarrow> v)"

definition revocation_details :: "CertRow \<Rightarrow> string \<Rightarrow> int option \<Rightarrow> RevocationResult \<Rightarrow> details" where
  "revocation_details crow serial_hex rsn result =
     (let req_id = metadata_or (cert_metadata crow) ''req_id'' [] in
      [(''certificate_id'', JStr (cert_id crow)), (''serial'', JStr serial_hex),
       (''reason'', case rsn of None \<Rightarrow> JNull | Some n \<Rightarrow> JInt n),
       (''revocation_scope'', JStr (metadata_or (rr_metadata result) ''revocation_scope'' ''ra-store-only'')),
       (''ca_crl_updated'', JStr (metadata_or (rr_metadata result) ''ca_crl_updated'' ''false''))]
      @ (if req_id \<noteq> [] then [(''req_id'', JStr req_id)] else []))"

definition runbook :: string where
  "runbook = ''scripts/Revoke-Cert.ps1 (run by a CA officer; see docs/threat-model.md '' @ [CHR 0xA7] @ ''E)''"

definition out_of_band_headers :: "CertRow \<Rightarrow> string \<Rightarrow> RevocationResult \<Rightarrow> (string \<times> string) list" where
  "out_of_band_headers crow serial_hex result =
     (let req_id = metadata_or (cert_metadata crow) ''req_id'' [] in
      if metadata_or (rr_metadata result) ''ca_crl_updated'' ''false'' = ''false''
      then [(''X-Acme-Ra-Out-Of-Band-Revocation'',
             dumps (JObj ([(''ca_crl_updated'', JBool False),
                (''revocation_scope'', JStr (metadata_or (rr_metadata result) ''revocation_scope'' ''ra-store-only'')),
                (''serial'', JStr serial_hex), (''runbook'', JStr runbook)]
                @ (if req_id \<noteq> [] then [(''req_id'', JStr req_id)] else []))))]
      else [])"

definition ok_empty :: "(string \<times> string) list \<Rightarrow> response" where
  "ok_empty headers = \<lparr>rs_status = 200, rs_headers = headers, rs_body = JNull\<rparr>"

text \<open>The certificate row the request names: found by serial and account, equal to the submitted bytes.\<close>

definition named_certificate :: "leaf_reader \<Rightarrow> AccountRow \<Rightarrow> leaf \<Rightarrow> db \<Rightarrow> AcmeError + (CertRow \<times> leaf)" where
  "named_certificate lr account cert s =
     (case get_certificate_by_serial (canonical_serial (hex_nat (leaf_serial cert))) (Some (acc_id account)) s of
        None \<Rightarrow> Inl not_found
      | Some crow \<Rightarrow>
          (case read_pem lr (cert_pem crow) of
             None \<Rightarrow> Inl server_internal
           | Some stored \<Rightarrow> if leaf_der cert \<noteq> leaf_der stored then Inl malformed else Inr (crow, stored)))"

definition revoke_recorded ::
  "leg \<Rightarrow> env \<Rightarrow> AccountRow \<Rightarrow> string \<Rightarrow> int option \<Rightarrow> CertRow \<Rightarrow> leaf \<Rightarrow> response handler" where
  "revoke_recorded revoke en account serial_hex rsn crow stored =
     (case revoke (cert_pem crow) rsn of
        Inl text \<Rightarrow>
          hbind (audited en ((audit_ev ''certificate-revoked'' (Some (acc_id account)) (Some (cert_order_id crow)) ''failed''
                   [(''certificate_id'', JStr (cert_id crow)), (''serial'', JStr serial_hex), (''error'', JStr text)])
                   \<lparr>ev_sans := leaf_dns_sans stored\<rparr>)) (\<lambda>_. raising server_internal)
      | Inr result \<Rightarrow>
          hbind (on_db (record_revocation (en_ext en) (en_now en) (cert_id crow) (cert_order_id crow) (acc_id account)
                   (case rr_reason result of None \<Rightarrow> rsn | Some n \<Rightarrow> Some n)
                   (Some (case rr_revoked_at result of None \<Rightarrow> now_iso (en_now en) | Some t \<Rightarrow> t))
                   (leaf_dns_sans stored) (revocation_details crow serial_hex rsn result))) (\<lambda>(update, event).
            if rv_record update = None then raising not_found
            else if \<not> won_cas update then ret (ok_empty [])
            else ret (ok_empty (out_of_band_headers crow serial_hex result))))"

definition revoke_cert :: "leg \<Rightarrow> leaf_reader \<Rightarrow> crypto \<Rightarrow> env \<Rightarrow> config \<Rightarrow> request \<Rightarrow> response handler" where
  "revoke_cert revoke lr cr en cfg rq =
     hbind (authenticate_account cr en cfg rq ''/acme/revoke-cert'') (\<lambda>(header, payload, account, thumbprint).
     hbind (lift (submitted_certificate lr payload)) (\<lambda>cert.
     hbind (lift (requested_reason payload)) (\<lambda>rsn.
     hbind (\<lambda>sv. lift (named_certificate lr account cert (sv_db sv)) sv) (\<lambda>(crow, stored).
       if cert_status crow = CertREVOKED then ret (ok_empty [])
       else revoke_recorded revoke en account (canonical_serial (hex_nat (leaf_serial cert))) rsn crow stored))))"


section \<open>Store operations\<close>

lemma runs_revoke: "runs.keeps (revoke_cert revoke lr cr en cfg rq)"
proof -
  have n: "runs.keeps (\<lambda>sv. lift (f (sv_db sv)) sv)" for f :: "db \<Rightarrow> AcmeError + CertRow \<times> leaf"
    by (auto simp: runs.keeps_def runs.refl lift_def split: sum.split)
  have "runs.keeps (revoke_recorded revoke en account ser rsn crow stored)" for account ser rsn crow stored
    unfolding revoke_recorded_def by (intro runs.keeps_rules runs_on_db store_step.revocation)
  then show ?thesis unfolding revoke_cert_def
    by (intro runs.keeps_rules authenticate_keeps n)
qed

section \<open>What a revocation promises\<close>

lemma get_certificate_member: "wf_db s \<Longrightarrow> c \<in> set (certificates s) \<Longrightarrow> get_certificate (cert_id c) s = Some c"
  using find_key_unique [of cert_id "certificates s" c] by (simp add: get_certificate_def wf_db_def)

text \<open>A backend reports the revocation it was asked for, and says honestly whether the CA's CRL was written.\<close>

locale revocation_leg =
  fixes revoke :: leg
  assumes dated: "revoke pem rsn = Inr result \<Longrightarrow> rr_revoked result \<and> rr_revoked_at result \<noteq> None"
    and reason_kept: "revoke pem rsn = Inr result \<Longrightarrow> rr_reason result = rsn"
    and scope: "revoke pem rsn = Inr result \<Longrightarrow>
      metadata_or (rr_metadata result) ''ca_crl_updated'' ''false'' = ''false''
        \<longleftrightarrow> metadata_or (rr_metadata result) ''revocation_scope'' ''ra-store-only'' = ''ra-store-only''"
begin

lemma revoke_recorded_ok:
  assumes "wf_db (sv_db sv)" "crow \<in> set (certificates (sv_db sv))" "cert_status crow \<noteq> CertREVOKED"
    "revoke_recorded revoke en account ser rsn crow stored sv = (Inr rsp, sv')"
  obtains t result r where "revoke (cert_pem crow) rsn = Inr result"
    "certificates (sv_db sv') = upd_where (revoke_where (cert_id crow)) (revoke_set rsn t) (certificates (sv_db sv))"
    "get_certificate (cert_id crow) (sv_db sv') = Some r" "cert_status r \<noteq> CertVALID"
    "cert_status crow = CertVALID \<Longrightarrow> r = revoke_set rsn t crow \<and> rsp = ok_empty (out_of_band_headers crow ser result)"
    "rs_status rsp = 200" "rs_body rsp = JNull"
proof -
  let ?cid = "cert_id crow"
  from assms(4) obtain result where r: "revoke (cert_pem crow) rsn = Inr result"
    by (auto simp: revoke_recorded_def hbind_Inr_iff split: sum.splits)
  define t where "t = (case rr_revoked_at result of None \<Rightarrow> now_iso (en_now en) | Some t \<Rightarrow> t)"
  have rs: "(case rr_reason result of None \<Rightarrow> rsn | Some n \<Rightarrow> Some n) = rsn"
    using reason_kept [OF r] by (simp split: option.split)
  let ?run = "record_revocation (en_ext en) (en_now en) ?cid (cert_order_id crow) (acc_id account) rsn (Some t)
      (leaf_dns_sans stored) (revocation_details crow ser rsn result) (sv_db sv)"
  obtain u ev s' where run: "?run = ((u, ev), s')" by (metis prod.collapse)
  from assms(4) have step: "(if rv_record u = None then raising not_found
            else if \<not> won_cas u then ret (ok_empty [])
            else ret (ok_empty (out_of_band_headers crow ser result))) (sv\<lparr>sv_db := s'\<rparr>) = (Inr rsp, sv')"
    using run by (simp add: revoke_recorded_def r rs hbind_def on_db_def t_def)
  have row: "get_certificate ?cid (sv_db sv) = Some crow"
    using get_certificate_member [OF assms(1,2)] .
  have certs: "certificates s' = upd_where (revoke_where ?cid) (revoke_set rsn t) (certificates (sv_db sv))"
    using record_revocation_tables(1) [of "en_ext en" "en_now en" ?cid "cert_order_id crow" "acc_id account" rsn "Some t"
        "leaf_dns_sans stored" "revocation_details crow ser rsn result" "sv_db sv"] run by simp
  have sv': "sv_db sv' = s'" using step by (auto split: if_splits)
  have row': "get_certificate ?cid s' = Some (if cert_status crow = CertVALID then revoke_set rsn t crow else crow)"
    using row certs by (simp add: get_certificate_def find_upd_where revoke_where_def revoke_set_def)
  have "(won_cas u \<longleftrightarrow> cert_status crow = CertVALID) \<and> rv_record u \<noteq> None"
    by (cases rule: record_revocation_cases [OF assms(1), of ?cid "en_ext en" "en_now en" "cert_order_id crow" "acc_id account" rsn "Some t"
          "leaf_dns_sans stored" "revocation_details crow ser rsn result"])
       (use run row in auto)
  then have "cert_status crow = CertVALID \<Longrightarrow> rsp = ok_empty (out_of_band_headers crow ser result)"
      "rs_status rsp = 200" "rs_body rsp = JNull"
    using step by (auto simp: ok_empty_def split: if_splits)
  then show thesis
    using that [OF r] certs row' sv' by (auto simp: revoke_set_def)
qed

end

interpretation fake_leg: revocation_leg "fake_revoke now"
  by unfold_locales (auto simp: fake_revoke_def metadata_or_def)

interpretation certsrv_leg: revocation_leg "certsrv_revoke x now"
  by unfold_locales (auto simp: certsrv_revoke_def metadata_or_def SCOPE_RA_STORE_ONLY_def split: option.splits)


lemma requested_reason_valid: "requested_reason payload = Inr rsn \<Longrightarrow> rsn = None \<or> (\<exists>n. rsn = Some n \<and> n \<in> VALID_REVOCATION_REASONS)"
  by (auto simp: requested_reason_def split: option.splits json.splits if_splits)

lemma named_certificate_ok:
  "named_certificate lr account cert s = Inr (crow, stored) \<Longrightarrow>
     crow \<in> set (certificates s) \<and> cert_account_id crow = acc_id account
     \<and> read_pem lr (cert_pem crow) = Some stored \<and> leaf_der stored = leaf_der cert"
  by (auto simp: named_certificate_def get_certificate_by_serial_def Let_def split: option.splits if_splits dest: find_Some_in)

text \<open>
  C18. A revocation request that is answered with success came from the account the
  certificate was issued to and submitted exactly the stored bytes; afterwards the certificate
  is not valid, so it is not served; no other certificate was touched. When it was
  valid it is now revoked with the requested reason, which is never 7 or 8, and the
  client is told that the CA still has to publish it.
\<close>

theorem revocation_contained:
  assumes "wf_db (sv_db sv)" "revoke_cert (certsrv_revoke x now) lr cr en cfg rq sv = (Inr rsp, sv')"
  shows "\<exists>header payload account tp sv1 cert rsn crow stored r t.
      authenticate_account cr en cfg rq ''/acme/revoke-cert'' sv = (Inr (header, payload, account, tp), sv1)
      \<and> submitted_certificate lr payload = Inr cert
      \<and> requested_reason payload = Inr rsn \<and> rsn \<notin> {Some 7, Some 8}
      \<and> crow \<in> set (certificates (sv_db sv)) \<and> cert_account_id crow = acc_id account
      \<and> read_pem lr (cert_pem crow) = Some stored \<and> leaf_der stored = leaf_der cert
      \<and> get_certificate (cert_id crow) (sv_db sv') = Some r \<and> cert_status r \<noteq> CertVALID
      \<and> (if cert_status crow = CertVALID then r = revoke_set rsn t crow \<and> rs_headers rsp \<noteq> [] else r = crow)
      \<and> certificates (sv_db sv') = upd_where (revoke_where (cert_id crow)) (revoke_set rsn t) (certificates (sv_db sv))
      \<and> rs_status rsp = 200 \<and> rs_body rsp = JNull"
proof -
  let ?leg = "certsrv_revoke x now" and ?path = "''/acme/revoke-cert''"
  from assms(2) obtain header payload account tp sv1 cert rsn crow stored where
    a: "authenticate_account cr en cfg rq ?path sv = (Inr (header, payload, account, tp), sv1)"
    and q: "submitted_certificate lr payload = Inr cert" "requested_reason payload = Inr rsn"
      "named_certificate lr account cert (sv_db sv1) = Inr (crow, stored)"
    and run: "(if cert_status crow = CertREVOKED then ret (ok_empty [])
       else revoke_recorded ?leg en account (canonical_serial (hex_nat (leaf_serial cert))) rsn crow stored) sv1 = (Inr rsp, sv')"
    unfolding revoke_cert_def by (auto simp: hbind_Inr_iff lift_Inr)
  have certs: "certificates (sv_db sv1) = certificates (sv_db sv)" and wf1: "wf_db (sv_db sv1)"
    using rows.keepsD [OF authenticate_keeps(2) [of cr en cfg rq ?path], of sv] a assms(1)
      runs.keepsD [OF authenticate_keeps(1) [of cr en cfg rq ?path], of sv]
    by (auto simp: rows_kept_def db_run_def intro: wf_reachable)
  note n = named_certificate_ok [OF q(3)]
  have row: "get_certificate (cert_id crow) (sv_db sv1) = Some crow"
    using get_certificate_member [OF wf1] n by blast
  have bad: "rsn \<notin> {Some 7, Some 8}"
    using requested_reason_valid [OF q(2)] by (auto simp: VALID_REVOCATION_REASONS_def)
  show ?thesis
  proof (cases "cert_status crow = CertREVOKED")
    case True
    then have "sv' = sv1" "rsp = ok_empty []" using run by simp_all
    moreover have "upd_where (revoke_where (cert_id crow)) (revoke_set rsn 0) (certificates (sv_db sv1)) = certificates (sv_db sv1)"
      unfolding revoke_where_def [abs_def] using row True wf1 by (intro upd_certs_none) auto
    ultimately show ?thesis
      by (intro exI [of _ header] exI [of _ payload] exI [of _ account] exI [of _ tp] exI [of _ sv1] exI [of _ cert] exI [of _ rsn]
          exI [of _ crow] exI [of _ stored] exI [of _ crow] exI [of _ 0])
         (use a q n row True certs bad in \<open>simp add: ok_empty_def\<close>)
  next
    case False
    with run have rec: "revoke_recorded ?leg en account (canonical_serial (hex_nat (leaf_serial cert))) rsn crow stored sv1 = (Inr rsp, sv')"
      by simp
    from n have "crow \<in> set (certificates (sv_db sv1))" by simp
    from certsrv_leg.revoke_recorded_ok [OF wf1 this False rec] obtain t result r where e:
      "?leg (cert_pem crow) rsn = Inr result"
      "certificates (sv_db sv') = upd_where (revoke_where (cert_id crow)) (revoke_set rsn t) (certificates (sv_db sv1))"
      "get_certificate (cert_id crow) (sv_db sv') = Some r" "cert_status r \<noteq> CertVALID"
      "cert_status crow = CertVALID \<Longrightarrow> r = revoke_set rsn t crow
         \<and> rsp = ok_empty (out_of_band_headers crow (canonical_serial (hex_nat (leaf_serial cert))) result)"
      "rs_status rsp = 200" "rs_body rsp = JNull" by metis
    have "get_certificate (cert_id crow) (sv_db sv') = Some (if cert_status crow = CertVALID then revoke_set rsn t crow else crow)"
      using row unfolding get_certificate_def e(2) by (simp add: find_upd_where revoke_where_def revoke_set_def)
    then have "cert_status crow \<noteq> CertVALID \<Longrightarrow> r = crow" using e(3) by simp
    moreover have "out_of_band_headers crow ser result \<noteq> []" for ser
      using e(1) by (auto simp: out_of_band_headers_def certsrv_revoke_def metadata_or_def Let_def split: option.splits)
    ultimately show ?thesis
      by (intro exI [of _ header] exI [of _ payload] exI [of _ account] exI [of _ tp] exI [of _ sv1] exI [of _ cert] exI [of _ rsn]
          exI [of _ crow] exI [of _ stored] exI [of _ r] exI [of _ t])
         (use a q n certs bad e in \<open>simp add: ok_empty_def\<close>)
  qed
qed


section \<open>Witness\<close>

definition sample_leaf :: leaf where
  "sample_leaf = \<lparr>leaf_serial = 18, leaf_der = [9], leaf_dns_sans = [''h.example'']\<rparr>"

definition sample_reader :: leaf_reader where
  "sample_reader = \<lparr>read_der = (\<lambda>_. Some sample_leaf), read_pem = (\<lambda>_. Some sample_leaf)\<rparr>"

definition revoke_payload :: details where
  "revoke_payload = [(''certificate'', JStr ''AA''), (''reason'', JInt 1)]"

definition revoke_crypto :: crypto where
  "revoke_crypto = sample_crypto nothing (sample_header ''https://ra/acme/revoke-cert'') revoke_payload"

definition issued_server :: server where
  "issued_server = nonce_server\<lparr>sv_db := (sv_db nonce_server)\<lparr>certificates := [sample_cert ''c1'' ''o1'' CertVALID]\<rparr>\<rparr>"

lemma wf_issued: "wf_db (sv_db issued_server)"
  using wf_nonce_server(1) by (simp add: wf_db_def issued_server_def sample_cert_def)

lemma url_revoke: "verify_url (\<lambda>_. False) (sample_header ''https://ra/acme/revoke-cert'') (url sample_cfg ''/acme/revoke-cert'') = Inr ()"
  by code_simp

lemma sample_serial: "canonical_serial (hex_nat 18) = ''12''" "canonical_serial ''12'' = ''12''"
  by code_simp+

lemma revoke_auth: "authenticate_account revoke_crypto sample_env sample_cfg sample_request ''/acme/revoke-cert'' issued_server
    = (Inr (sample_header ''https://ra/acme/revoke-cert'', revoke_payload, signed_account, []), spend issued_server)"
  unfolding revoke_crypto_def using url_revoke nonces_sample signed_row signed_thumbprint
  by (intro authenticate_sample_at)
     (simp_all add: signed_account_def sample_account_def nonce_server_def get_account_def issued_server_def)

lemma revoke_requested: "submitted_certificate sample_reader revoke_payload = Inr sample_leaf" "requested_reason revoke_payload = Inr (Some 1)"
  by (simp_all add: submitted_certificate_def requested_reason_def revoke_payload_def decode_sample sample_reader_def
      VALID_REVOCATION_REASONS_def)

lemma revoke_sample:
  "\<exists>rsp sv'. revoke_cert (certsrv_revoke sample_ext 0) sample_reader revoke_crypto sample_env sample_cfg sample_request issued_server = (Inr rsp, sv')"
proof -
  let ?leg = "certsrv_revoke sample_ext 0" and ?row = "sample_cert ''c1'' ''o1'' CertVALID"
  have wf2: "wf_db (sv_db (spend issued_server))" using wf_issued by (simp add: spend_def wf_db_def)
  note auth = revoke_auth and q = revoke_requested
  have n: "named_certificate sample_reader signed_account sample_leaf (sv_db (spend issued_server)) = Inr (?row, sample_leaf)"
    by (simp add: named_certificate_def get_certificate_by_serial_def sample_leaf_def sample_serial spend_def issued_server_def sample_cert_def
        sample_reader_def signed_account_def sample_account_def sample_issued_def)
  have "get_certificate ''c1'' (sv_db (spend issued_server)) = Some ?row"
    by (simp add: get_certificate_def spend_def issued_server_def sample_cert_def)
  then have rv: "rv_record (fst (fst (record_revocation x now ''c1'' oid aid rsn at sans d (sv_db (spend issued_server))))) \<noteq> None"
    for x now oid aid rsn at sans d
    by (cases rule: record_revocation_cases [OF wf2, of "''c1''" x now oid aid rsn at sans d]) simp_all
  have "\<exists>rsp sv'. revoke_recorded ?leg sample_env signed_account ''12'' (Some 1) ?row sample_leaf (spend issued_server) = (Inr rsp, sv')"
    using rv
    by (simp add: revoke_recorded_def certsrv_revoke_def pem_serial_def sample_ext_def hbind_def on_db_def case_prod_beta Let_def)
       (simp add: sample_cert_def)
  then show ?thesis
    using auth q n by (simp add: revoke_cert_def hbind_def lift_def) (simp add: sample_cert_def sample_leaf_def sample_serial)
qed

theorem revocation_contained_witness:
  "case revoke_cert (certsrv_revoke sample_ext 0) sample_reader revoke_crypto sample_env sample_cfg sample_request issued_server of
     (r, sv') \<Rightarrow> map cert_status (certificates (sv_db sv')) = [CertREVOKED] \<and> map cert_revocation_reason (certificates (sv_db sv')) = [Some 1]"
proof -
  obtain rsp sv' where r: "revoke_cert (certsrv_revoke sample_ext 0) sample_reader revoke_crypto sample_env sample_cfg sample_request issued_server
      = (Inr rsp, sv')" using revoke_sample by blast
  have c: "certificates (sv_db issued_server) = [sample_cert ''c1'' ''o1'' CertVALID]" by (simp add: issued_server_def)
  from revocation_contained [OF wf_issued r] obtain payload rsn crow t where
    "requested_reason payload = Inr rsn" "payload = revoke_payload" "crow \<in> set (certificates (sv_db issued_server))"
    "certificates (sv_db sv') = upd_where (revoke_where (cert_id crow)) (revoke_set rsn t) (certificates (sv_db issued_server))"
    unfolding revoke_auth by auto
  then show ?thesis
    using r c revoke_requested(2) by (simp add: upd_where_def revoke_where_def revoke_set_def sample_cert_def)
qed

end
