(* ===== verification/RateLimit.thy ===== *)
theory RateLimit
  imports Complex_Main
begin

text \<open>
  The token bucket of \<open>src/src/acme_adcs_ra/rate_limit.py\<close>, which bounds what an
  unauthenticated client can make the server write. Clock readings, token counts and the
  refill rate are rationals: the rounding of floating-point arithmetic is not modelled. The
  bucket's lock makes each operation atomic.
\<close>

section \<open>Operations\<close>

record TokenBucket =
  tb_capacity :: rat
  tb_refill :: rat
  tb_tokens :: rat
  tb_updated :: rat

definition new_bucket :: "int \<Rightarrow> rat \<Rightarrow> rat \<Rightarrow> TokenBucket option" where
  "new_bucket capacity refill_per_second now =
     (if capacity < 1 then None
      else if refill_per_second \<le> 0 then None
      else Some \<lparr>tb_capacity = of_int capacity, tb_refill = refill_per_second, tb_tokens = of_int capacity, tb_updated = now\<rparr>)"

definition refilled :: "rat \<Rightarrow> TokenBucket \<Rightarrow> TokenBucket" where
  "refilled now b =
     (let elapsed = now - tb_updated b in
      if elapsed > 0 then b\<lparr>tb_tokens := min (tb_capacity b) (tb_tokens b + elapsed * tb_refill b), tb_updated := now\<rparr> else b)"

definition take_tokens :: "rat \<Rightarrow> rat \<Rightarrow> TokenBucket \<Rightarrow> bool \<times> TokenBucket" where
  "take_tokens tokens now b =
     (let b = refilled now b in
      if tb_tokens b < tokens then (False, b) else (True, b\<lparr>tb_tokens := tb_tokens b - tokens\<rparr>))"

definition retry_after_seconds :: "rat \<Rightarrow> TokenBucket \<Rightarrow> int" where
  "retry_after_seconds tokens b = max 1 (\<lfloor>max 0 (tokens - tb_tokens b) / tb_refill b\<rfloor> + 1)"

section \<open>The bucket's state\<close>

definition bucket_ok :: "TokenBucket \<Rightarrow> bool" where
  "bucket_ok b \<longleftrightarrow> 1 \<le> tb_capacity b \<and> 0 < tb_refill b \<and> 0 \<le> tb_tokens b \<and> tb_tokens b \<le> tb_capacity b"

lemma new_bucket_ok: "new_bucket c r now = Some b \<Longrightarrow> bucket_ok b"
  by (auto simp: new_bucket_def bucket_ok_def split: if_splits)

lemma refilled_ok: "bucket_ok b \<Longrightarrow> bucket_ok (refilled now b)"
  by (auto simp: bucket_ok_def refilled_def Let_def)

lemma take_ok: "bucket_ok b \<Longrightarrow> 0 \<le> n \<Longrightarrow> bucket_ok (snd (take_tokens n now b))"
  using refilled_ok [of b now] by (auto simp: take_tokens_def bucket_ok_def Let_def)

lemma take_config [simp]:
  "tb_capacity (snd (take_tokens n now b)) = tb_capacity b" "tb_refill (snd (take_tokens n now b)) = tb_refill b"
  by (simp_all add: take_tokens_def refilled_def Let_def)

lemma take_updated: "tb_updated (snd (take_tokens n now b)) = max now (tb_updated b)"
  by (simp add: take_tokens_def refilled_def Let_def max_def)

lemma refilled_tokens:
  assumes "bucket_ok b"
  shows "tb_tokens (refilled now b) \<le> tb_tokens b + tb_refill b * (max now (tb_updated b) - tb_updated b)"
  by (simp add: refilled_def Let_def max_def mult.commute)

section \<open>The rate\<close>

text \<open>How many of a sequence of requests, at given clock readings, the bucket grants.\<close>

primrec granted :: "rat list \<Rightarrow> TokenBucket \<Rightarrow> nat" where
  "granted [] b = 0"
| "granted (t # ts) b = (let (ok, b') = take_tokens 1 t b in (if ok then 1 else 0) + granted ts b')"

text \<open>The tokens a bucket can have given out by an instant: what it holds and what flows in.\<close>

definition budget :: "rat \<Rightarrow> TokenBucket \<Rightarrow> rat" where
  "budget t b = tb_tokens b + tb_refill b * (t - tb_updated b)"

lemma take_budget:
  assumes "bucket_ok b"
  shows "(if fst (take_tokens 1 now b) then 1 else 0) + budget t (snd (take_tokens 1 now b)) \<le> budget t b"
  using refilled_tokens [OF assms, of now]
  by (auto simp: budget_def take_tokens_def Let_def refilled_def max_def algebra_simps split: if_splits)

lemma granted_budget:
  assumes "bucket_ok b" "tb_updated b \<le> t" "list_all (\<lambda>u. u \<le> t) ts"
  shows "of_nat (granted ts b) \<le> budget t b"
  using assms
proof (induction ts arbitrary: b)
  case Nil
  then show ?case by (simp add: budget_def bucket_ok_def)
next
  case (Cons u us)
  let ?b = "snd (take_tokens 1 u b)"
  have "of_nat (granted us ?b) \<le> budget t ?b"
    using Cons.prems by (intro Cons.IH take_ok) (simp_all add: take_updated)
  with take_budget [OF Cons.prems(1), of u t] show ?case
    by (auto simp: case_prod_beta Let_def split: if_splits)
qed

text \<open>
  However requests arrive, a bucket grants between two instants at most its capacity plus
  what the refill rate allows for the time between them.
\<close>

theorem bucket_rate_bound:
  assumes "new_bucket capacity refill start = Some b" "start \<le> t" "list_all (\<lambda>u. u \<le> t) ts"
  shows "of_nat (granted ts b) \<le> of_int capacity + refill * (t - start)"
  using granted_budget [OF new_bucket_ok [OF assms(1)], of t ts] assms
  by (auto simp: new_bucket_def budget_def split: if_splits)

theorem bucket_rate_bound_witness:
  "of_nat (granted [0, 0, 0, 1] \<lparr>tb_capacity = 2, tb_refill = 1, tb_tokens = 2, tb_updated = 0\<rparr>) \<le> (2 + 1 * (1 - 0) :: rat)"
  using bucket_rate_bound [of 2 1 0 "\<lparr>tb_capacity = 2, tb_refill = 1, tb_tokens = 2, tb_updated = 0\<rparr>" 1 "[0, 0, 0, 1]"]
  by (simp add: new_bucket_def)

text \<open>
  The bucket recovers: a client that is refused and waits for the announced number of
  seconds is granted its token, if nobody else has taken one.
\<close>

theorem bucket_recovers:
  assumes "bucket_ok b" "take_tokens 1 now b = (False, b')" "tb_updated b' + of_int (retry_after_seconds 1 b') \<le> later"
  shows "fst (take_tokens 1 later b')"
proof -
  have ok: "bucket_ok b'" using take_ok [OF assms(1), of 1 now] assms(2) by simp
  then have pos: "0 < tb_refill b'" "1 \<le> tb_capacity b'" by (simp_all add: bucket_ok_def)
  have low: "tb_tokens b' < 1" using assms(2) by (auto simp: take_tokens_def Let_def split: if_splits)
  have "(1 - tb_tokens b') / tb_refill b' < of_int (retry_after_seconds 1 b')"
    using low pos by (simp add: retry_after_seconds_def) linarith
  also have "\<dots> \<le> later - tb_updated b'" using assms(3) by simp
  finally have "1 - tb_tokens b' < (later - tb_updated b') * tb_refill b'"
    using pos by (simp add: divide_less_eq)
  moreover from this low pos have "0 < later - tb_updated b'"
    by (metis diff_gt_0_iff_gt less_trans zero_less_mult_pos2)
  ultimately show ?thesis using pos by (simp add: take_tokens_def refilled_def Let_def)
qed

theorem bucket_recovers_witness:
  "fst (take_tokens 1 1 \<lparr>tb_capacity = 1, tb_refill = 2, tb_tokens = 0, tb_updated = 0\<rparr>)"
proof -
  let ?b = "\<lparr>tb_capacity = 1, tb_refill = 2, tb_tokens = 0, tb_updated = 0\<rparr> :: TokenBucket"
  have "bucket_ok ?b" by (simp add: bucket_ok_def)
  moreover have "take_tokens 1 0 ?b = (False, ?b)" by (simp add: take_tokens_def refilled_def)
  moreover have "retry_after_seconds 1 ?b = 1" by (simp add: retry_after_seconds_def floor_eq_iff)
  ultimately show ?thesis using bucket_recovers [of ?b 0 ?b 1] by simp
qed

end
