(* ===== verification/NonceServer.thy ===== *)
theory NonceServer
  imports AccountRoutes RateLimit
begin

text \<open>
  Nonces on the wire: the directory and new-nonce routes of
  \<open>src/src/acme_adcs_ra/routes/directory.py\<close>, and from \<open>src/src/acme_adcs_ra/server.py\<close> the
  handler that turns a raised problem into a response and the middleware that attaches a
  \<open>Replay-Nonce\<close>. The state adds the nonce bucket to the server's. The text of a new nonce,
  whether its creation collects garbage and whether the write fails are arguments; the flag
  \<open>sv_nonce_spent\<close> is the request state the JWS layer sets. An exception nothing catches
  leaves through the framework's outermost handler, past the middleware, as a bare 500.
\<close>

section \<open>State\<close>

record frontend =
  fe_server :: server
  fe_bucket :: "TokenBucket option"

datatype mint = MintText string bool | MintFault

type_synonym endpoint = "frontend \<Rightarrow> (fault + response) \<times> frontend"

definition mint_nonce :: "env \<Rightarrow> mint \<Rightarrow> frontend \<Rightarrow> string option \<times> frontend" where
  "mint_nonce en m fe =
     (case m of
        MintFault \<Rightarrow> (None, fe)
      | MintText n collect \<Rightarrow>
          (case create_nonce (en_now en) n collect (sv_db (fe_server fe)) of
             (Inl e, s) \<Rightarrow> (None, fe\<lparr>fe_server := (fe_server fe)\<lparr>sv_db := s\<rparr>\<rparr>)
           | (Inr nonce, s) \<Rightarrow> (Some nonce, fe\<lparr>fe_server := (fe_server fe)\<lparr>sv_db := s\<rparr>\<rparr>)))"

definition default_nonce_bucket :: "rat \<Rightarrow> int \<Rightarrow> rat \<Rightarrow> TokenBucket option" where
  "default_nonce_bucket nonce_rate_limit_per_second nonce_rate_limit_burst now =
     (if nonce_rate_limit_per_second \<le> 0 \<or> nonce_rate_limit_burst < 1 then None
      else new_bucket nonce_rate_limit_burst nonce_rate_limit_per_second now)"

definition take_bucket :: "rat \<Rightarrow> frontend \<Rightarrow> bool \<times> frontend" where
  "take_bucket t fe =
     (case fe_bucket fe of
        None \<Rightarrow> (True, fe)
      | Some b \<Rightarrow> (let (ok, b') = take_tokens 1 t b in (ok, fe\<lparr>fe_bucket := Some b'\<rparr>)))"

definition retry_seconds :: "frontend \<Rightarrow> int" where
  "retry_seconds fe = (case fe_bucket fe of None \<Rightarrow> 1 | Some b \<Rightarrow> retry_after_seconds 1 b)"

section \<open>Routes\<close>

definition directory :: "config \<Rightarrow> response" where
  "directory cfg =
     json_response 200 (JObj
       [(''newNonce'', JStr (url cfg ''/acme/new-nonce'')), (''newAccount'', JStr (url cfg ''/acme/new-acct'')),
        (''newOrder'', JStr (url cfg ''/acme/new-order'')), (''revokeCert'', JStr (url cfg ''/acme/revoke-cert'')),
        (''keyChange'', JStr (url cfg ''/acme/key-change'')),
        (''meta'', JObj ([(''externalAccountRequired'', JBool True)]
           @ (if terms_of_service cfg \<noteq> [] then [(''termsOfService'', JStr (terms_of_service cfg))] else [])))])"

definition nonce_response :: "rat \<Rightarrow> env \<Rightarrow> mint \<Rightarrow> endpoint" where
  "nonce_response t en m fe =
     (let (ok, fe1) = take_bucket t fe in
      if \<not> ok then (Inl (Acme (rate_limited (Some (retry_seconds fe1)))), fe1)
      else case mint_nonce en m fe1 of
          (None, fe2) \<Rightarrow> (Inl (Uncaught ''sqlite3.Error''), fe2)
        | (Some nonce, fe2) \<Rightarrow>
            (Inr \<lparr>rs_status = 204, rs_headers = [(''Replay-Nonce'', nonce), (''Cache-Control'', ''no-store'')], rs_body = JNull\<rparr>, fe2))"

text \<open>A route of the ACME layer, and the request state every request starts with.\<close>

definition acme_endpoint :: "response handler \<Rightarrow> endpoint" where
  "acme_endpoint route fe = (let (r, sv) = route (fe_server fe) in (r, fe\<lparr>fe_server := sv\<rparr>))"

definition fresh_request :: "frontend \<Rightarrow> frontend" where
  "fresh_request fe = fe\<lparr>fe_server := (fe_server fe)\<lparr>sv_nonce_spent := False\<rparr>\<rparr>"

section \<open>Responses\<close>

definition BAD_NONCE_TYPE :: string where "BAD_NONCE_TYPE = ''urn:ietf:params:acme:error:badNonce''"

definition problem :: "AcmeError \<Rightarrow> (string \<times> string) list \<Rightarrow> response" where
  "problem e extra =
     \<lparr>rs_status = status_code e,
      rs_headers = [(''Content-Type'', ''application/problem+json'')]
        @ (case retry_after e of None \<Rightarrow> [] | Some s \<Rightarrow> [(''Retry-After'', show_int s)]) @ extra,
      rs_body = JObj ((if algorithms e = [] then [] else [(''algorithms'', JList (map JStr (algorithms e)))])
        @ [(''type'', JStr (err_type e)), (''status'', JInt (int (status_code e)))])\<rparr>"

definition acme_exception_handler :: "rat \<Rightarrow> env \<Rightarrow> mint \<Rightarrow> AcmeError \<Rightarrow> frontend \<Rightarrow> response \<times> frontend" where
  "acme_exception_handler t en m e fe =
     (if err_type e \<noteq> BAD_NONCE_TYPE then (problem e [], fe)
      else
        let (ok, fe1) = take_bucket t fe; (nonce, fe2) = (if ok then mint_nonce en m fe1 else (None, fe1))
        in case nonce of
             None \<Rightarrow> (problem (rate_limited (Some (retry_seconds fe2))) [], fe2)
           | Some n \<Rightarrow> (problem e [(''Replay-Nonce'', n)], fe2))"

definition has_nonce :: "response \<Rightarrow> bool" where
  "has_nonce rsp \<longleftrightarrow> (\<exists>h \<in> set (rs_headers rsp). lower (fst h) = ''replay-nonce'')"

definition owed_nonce :: "rat \<Rightarrow> response \<Rightarrow> frontend \<Rightarrow> bool \<times> frontend" where
  "owed_nonce t rsp fe =
     (if has_nonce rsp then (False, fe)
      else
        let consumed = sv_nonce_spent (fe_server fe) in
        if rs_status rsp < 400 then (consumed, fe)
        else if \<not> consumed then (False, fe)
        else take_bucket t fe)"

definition send_with_nonce :: "rat \<Rightarrow> env \<Rightarrow> mint \<Rightarrow> response \<Rightarrow> frontend \<Rightarrow> response \<times> frontend" where
  "send_with_nonce t en m rsp fe =
     (let (owed, fe1) = owed_nonce t rsp fe in
      if \<not> owed then (rsp, fe1)
      else case mint_nonce en m fe1 of
          (None, fe2) \<Rightarrow> (rsp, fe2)
        | (Some nonce, fe2) \<Rightarrow> (rsp\<lparr>rs_headers := rs_headers rsp @ [(''replay-nonce'', nonce)]\<rparr>, fe2))"

definition server_error :: response where
  "server_error = \<lparr>rs_status = 500, rs_headers = [], rs_body = JNull\<rparr>"

definition serve :: "rat \<Rightarrow> env \<Rightarrow> mint \<Rightarrow> mint \<Rightarrow> endpoint \<Rightarrow> frontend \<Rightarrow> response \<times> frontend" where
  "serve t en m m' endpoint fe =
     (case endpoint (fresh_request fe) of
        (Inr rsp, fe1) \<Rightarrow> send_with_nonce t en m' rsp fe1
      | (Inl (Acme e), fe1) \<Rightarrow> (let (rsp, fe2) = acme_exception_handler t en m e fe1 in send_with_nonce t en m' rsp fe2)
      | (Inl _, fe1) \<Rightarrow> (server_error, fe1))"


section \<open>A nonce for a nonce\<close>

lemma mint_cases:
  obtains (none) "mint_nonce en m fe = (None, fe)"
  | (made) n collect s where "m = MintText n collect" "create_nonce (en_now en) n collect (sv_db (fe_server fe)) = (Inr n, s)"
      "mint_nonce en m fe = (Some n, fe\<lparr>fe_server := (fe_server fe)\<lparr>sv_db := s\<rparr>\<rparr>)"
proof (cases m)
  case (MintText n collect)
  show thesis
    by (cases rule: create_nonce_cases [of n "sv_db (fe_server fe)" "en_now en" collect])
       (use MintText none made in \<open>simp_all add: mint_nonce_def\<close>)
qed (use none in \<open>simp add: mint_nonce_def\<close>)

lemma mint_fresh:
  "n \<notin> nonce_text ` set (nonces (sv_db (fe_server fe))) \<Longrightarrow> fst (mint_nonce en (MintText n collect) fe) = Some n"
  by (cases rule: create_nonce_cases [of n "sv_db (fe_server fe)" "en_now en" collect]) (simp_all add: mint_nonce_def)

lemma minted_accepted:
  assumes "wf_db (sv_db (fe_server fe))" "mint_nonce en m fe = (Some n, fe')" "now_iso later \<le> now_iso (en_now en) + 1800"
  shows "fst (consume_nonce later n (sv_db (fe_server fe')))"
  using assms
proof (cases rule: mint_cases [of en m fe])
  case (made k collect s)
  with assms nonce_lifecycle [OF assms(1), where now = "en_now en" and n = k and collect = collect and now' = later] show ?thesis by auto
qed simp

lemma lowered [simp]: "lower ''Content-Type'' = ''content-type''" "lower ''Retry-After'' = ''retry-after''"
    "lower ''Replay-Nonce'' = ''replay-nonce''" "lower ''replay-nonce'' = ''replay-nonce''" "lower ''Cache-Control'' = ''cache-control''"
  by code_simp+

lemma problem_nonce [simp]: "has_nonce (problem e []) = False" "has_nonce (problem e [(''Replay-Nonce'', n)])"
  by (auto simp: has_nonce_def problem_def split: option.split)

lemma take_bucket_server [simp]: "fe_server (snd (take_bucket t fe)) = fe_server fe"
  by (simp add: take_bucket_def case_prod_beta Let_def split: option.split)

text \<open>
  C34. When an endpoint answers without an error, the answer gets a new nonce exactly when the request spent one, the answer has
  none yet, and the new nonce can be stored: it is then accepted in any request within its lifetime of 30 minutes. A mint
  that fails leaves the answer as it is, without the header. A request that spent no nonce, such as a plain GET, gets its
  answer unchanged, and the bucket of nonces is not touched in any of these cases.
\<close>

theorem nonce_returned:
  assumes "endpoint (fresh_request fe) = (Inr rsp, fe1)" "wf_db (sv_db (fe_server fe1))" "rs_status rsp < 400"
  shows "case serve t en m m' endpoint fe of (rsp', fe') \<Rightarrow>
     fe_bucket fe' = fe_bucket fe1
     \<and> (if sv_nonce_spent (fe_server fe1) \<and> \<not> has_nonce rsp
         then (case m' of
                 MintFault \<Rightarrow> rsp' = rsp \<and> fe' = fe1
               | MintText n collect \<Rightarrow> n \<notin> nonce_text ` set (nonces (sv_db (fe_server fe1))) \<longrightarrow>
                   rsp' = rsp\<lparr>rs_headers := rs_headers rsp @ [(''replay-nonce'', n)]\<rparr>
                   \<and> (\<forall>later. now_iso later \<le> now_iso (en_now en) + 1800 \<longrightarrow> fst (consume_nonce later n (sv_db (fe_server fe')))))
         else rsp' = rsp \<and> fe' = fe1)"
proof (cases "sv_nonce_spent (fe_server fe1) \<and> \<not> has_nonce rsp")
  case False
  then show ?thesis using assms(1,3) by (auto simp: serve_def send_with_nonce_def owed_nonce_def Let_def)
next
  case True
  have bucket: "fe_bucket (snd (mint_nonce en m' fe1)) = fe_bucket fe1"
    by (cases rule: mint_cases [of en m' fe1]) simp_all
  have served: "serve t en m m' endpoint fe = (case mint_nonce en m' fe1 of
      (None, fe2) \<Rightarrow> (rsp, fe2) | (Some n, fe2) \<Rightarrow> (rsp\<lparr>rs_headers := rs_headers rsp @ [(''replay-nonce'', n)]\<rparr>, fe2))"
    using True assms(1,3) by (simp add: serve_def send_with_nonce_def owed_nonce_def Let_def)
  show ?thesis
  proof (cases m')
    case MintFault
    then show ?thesis using True served by (simp add: mint_nonce_def)
  next
    case (MintText n collect)
    obtain k fe2 where m: "mint_nonce en m' fe1 = (k, fe2)" by (cases "mint_nonce en m' fe1")
    have "k = Some n" if "n \<notin> nonce_text ` set (nonces (sv_db (fe_server fe1)))"
      using mint_fresh [OF that, of en collect] m MintText by simp
    with True MintText bucket m minted_accepted [OF assms(2), of en m' n fe2]
    show ?thesis unfolding served by (auto split: option.split)
  qed
qed

text \<open>
  A request refused for its nonce is told so only together with a nonce the server will
  accept; when none can be issued, the answer is instead a rate limit with a positive delay.
\<close>

theorem bad_nonce_retryable:
  assumes "endpoint (fresh_request fe) = (Inl (Acme bad_nonce), fe1)" "wf_db (sv_db (fe_server fe1))"
    "\<not> sv_nonce_spent (fe_server fe1)" "now_iso later \<le> now_iso (en_now en) + 1800"
  shows "case serve t en m m' endpoint fe of (rsp, fe') \<Rightarrow>
     (\<exists>n. rsp = problem bad_nonce [(''Replay-Nonce'', n)] \<and> fst (consume_nonce later n (sv_db (fe_server fe'))))
     \<or> (\<exists>seconds. rsp = problem (rate_limited (Some seconds)) [] \<and> 1 \<le> seconds)"
proof -
  define fe2 where "fe2 = snd (take_bucket t fe1)"
  have type: "err_type bad_nonce = BAD_NONCE_TYPE" by (simp add: bad_nonce_def acme_error_def BAD_NONCE_TYPE_def)
  have status: "\<not> status_code (rate_limited (Some s)) < 400" for s by (simp add: rate_limited_def acme_error_def)
  have s2: "fe_server fe2 = fe_server fe1" by (simp add: fe2_def)
  have pos: "1 \<le> retry_seconds f" for f by (simp add: retry_seconds_def retry_after_seconds_def split: option.split)
  show ?thesis
  proof (cases "fst (take_bucket t fe1) \<and> fst (mint_nonce en m fe2) \<noteq> None")
    case True
    then obtain n fe3 where m: "mint_nonce en m fe2 = (Some n, fe3)" by (metis not_Some_eq prod.collapse)
    have "acme_exception_handler t en m bad_nonce fe1 = (problem bad_nonce [(''Replay-Nonce'', n)], fe3)"
      using True m type by (simp add: acme_exception_handler_def fe2_def case_prod_beta Let_def)
    then have "serve t en m m' endpoint fe = (problem bad_nonce [(''Replay-Nonce'', n)], fe3)"
      using assms(1) by (simp add: serve_def send_with_nonce_def owed_nonce_def)
    moreover have "fst (consume_nonce later n (sv_db (fe_server fe3)))"
      using minted_accepted [OF _ m assms(4)] assms(2) s2 by simp
    ultimately show ?thesis by auto
  next
    case False
    define fe3 where "fe3 = (if fst (take_bucket t fe1) then snd (mint_nonce en m fe2) else fe2)"
    have "acme_exception_handler t en m bad_nonce fe1 = (problem (rate_limited (Some (retry_seconds fe3))) [], fe3)"
      using False type by (auto simp: acme_exception_handler_def fe2_def fe3_def case_prod_beta Let_def)
    moreover have "\<not> sv_nonce_spent (fe_server fe3)"
      by (cases rule: mint_cases [of en m fe2]) (use False s2 assms(3) in \<open>auto simp: fe3_def\<close>)
    ultimately have "serve t en m m' endpoint fe = (problem (rate_limited (Some (retry_seconds fe3))) [], fe3)"
      using assms(1) status by (simp add: serve_def send_with_nonce_def owed_nonce_def)
    then show ?thesis using pos by auto
  qed
qed


section \<open>The bound on nonces\<close>

text \<open>
  What an unauthenticated client can obtain: the nonce of a new-nonce response, and the nonce of
  an error. A route must not attach a nonce by itself.
\<close>

datatype wire_request = NewNonce | Route "response handler"

definition plain_route :: "response handler \<Rightarrow> bool" where
  "plain_route h \<longleftrightarrow> (\<forall>sv. case fst (h sv) of Inl e \<Rightarrow> True | Inr rsp \<Rightarrow> \<not> has_nonce rsp)"

fun endpoint_of :: "rat \<Rightarrow> env \<Rightarrow> mint \<Rightarrow> wire_request \<Rightarrow> endpoint" where
  "endpoint_of t en m NewNonce = nonce_response t en m"
| "endpoint_of t en m (Route h) = acme_endpoint h"

fun open_nonce :: "wire_request \<Rightarrow> response \<Rightarrow> bool" where
  "open_nonce NewNonce rsp = has_nonce rsp"
| "open_nonce (Route h) rsp = (has_nonce rsp \<and> 400 \<le> rs_status rsp)"

primrec open_nonces :: "(rat \<times> env \<times> mint \<times> mint \<times> wire_request) list \<Rightarrow> frontend \<Rightarrow> nat" where
  "open_nonces [] fe = 0"
| "open_nonces (q # qs) fe =
     (let (t, en, m, m', r) = q; (rsp, fe') = serve t en m m' (endpoint_of t en m r) fe
      in (if open_nonce r rsp then 1 else 0) + open_nonces qs fe')"

text \<open>A bucket that spends its budget and stays in order.\<close>

definition spends :: "rat \<Rightarrow> rat \<Rightarrow> frontend \<Rightarrow> frontend \<Rightarrow> bool" where
  "spends T n fe fe' \<longleftrightarrow> (case (fe_bucket fe, fe_bucket fe') of
      (Some b, Some b') \<Rightarrow> bucket_ok b \<and> tb_updated b \<le> T \<longrightarrow> bucket_ok b' \<and> tb_updated b' \<le> T \<and> n + budget T b' \<le> budget T b
    | (None, None) \<Rightarrow> True
    | _ \<Rightarrow> False)"

lemma spends_refl: "spends T 0 fe fe"
  by (simp add: spends_def split: option.split)

lemma spends_trans: "spends T n a b \<Longrightarrow> spends T k b c \<Longrightarrow> spends T (n + k) a c"
  by (auto simp: spends_def split: option.splits)

lemma spends_mono: "spends T n a b \<Longrightarrow> k \<le> n \<Longrightarrow> spends T k a b"
  by (auto simp: spends_def split: option.splits)

lemma spends_frame: "fe_bucket b = fe_bucket a \<Longrightarrow> spends T 0 a b"
  by (simp add: spends_def split: option.split)

lemma take_spends: "t \<le> T \<Longrightarrow> spends T (if fst (take_bucket t fe) then 1 else 0) fe (snd (take_bucket t fe))"
  using take_budget [of "the (fe_bucket fe)" t T] take_ok [of "the (fe_bucket fe)" 1 t]
  by (auto simp: spends_def take_bucket_def case_prod_beta Let_def take_updated split: option.split)

lemma mint_bucket [simp]: "fe_bucket (snd (mint_nonce en m fe)) = fe_bucket fe"
  by (cases rule: mint_cases [of en m fe]) simp_all

lemma send_spends:
  assumes "t \<le> T" "send_with_nonce t en m rsp fe = (rsp', fe')"
  shows "rs_status rsp' = rs_status rsp"
    and "spends T (if has_nonce rsp' \<and> \<not> has_nonce rsp \<and> 400 \<le> rs_status rsp then 1 else 0) fe fe'"
proof -
  show st: "rs_status rsp' = rs_status rsp"
    using assms(2) by (auto simp: send_with_nonce_def case_prod_beta Let_def split: if_splits option.splits prod.splits)
  show "spends T (if has_nonce rsp' \<and> \<not> has_nonce rsp \<and> 400 \<le> rs_status rsp then 1 else 0) fe fe'"
  proof (cases "\<not> has_nonce rsp \<and> 400 \<le> rs_status rsp \<and> sv_nonce_spent (fe_server fe)")
    case True
    then have o: "owed_nonce t rsp fe = take_bucket t fe" by (simp add: owed_nonce_def)
    then have b: "fe_bucket fe' = fe_bucket (snd (take_bucket t fe))"
      using assms(2) mint_bucket [of en m "snd (take_bucket t fe)"]
      by (auto simp: send_with_nonce_def case_prod_beta Let_def split: if_splits prod.splits option.splits)
    have "has_nonce rsp' \<longrightarrow> fst (take_bucket t fe)"
      using True o assms(2) by (auto simp: send_with_nonce_def case_prod_beta Let_def split: if_splits)
    then show ?thesis
      using spends_mono [OF spends_trans [OF take_spends [OF assms(1), of fe] spends_frame [OF b]]] by simp
  next
    case False
    then have "snd (owed_nonce t rsp fe) = fe" by (auto simp: owed_nonce_def)
    then have "fe_bucket fe' = fe_bucket fe"
      using assms(2) mint_bucket [of en m fe]
      by (auto simp: send_with_nonce_def case_prod_beta Let_def split: if_splits prod.splits option.splits)
    moreover have "has_nonce rsp' \<and> \<not> has_nonce rsp \<and> 400 \<le> rs_status rsp \<longrightarrow> False"
      using False assms(2) by (auto simp: send_with_nonce_def owed_nonce_def split: if_splits)
    ultimately show ?thesis using spends_frame by auto
  qed
qed


lemma handler_spends:
  assumes "t \<le> T" "acme_exception_handler t en m e fe = (rsp, fe')"
  shows "spends T (if has_nonce rsp then 1 else 0) fe fe'"
proof (cases "err_type e = BAD_NONCE_TYPE")
  case True
  let ?fe = "snd (take_bucket t fe)"
  have b: "fe_bucket fe' = fe_bucket ?fe"
    using assms(2) True mint_bucket [of en m ?fe]
    by (auto simp: acme_exception_handler_def case_prod_beta Let_def split: if_splits option.splits)
  have "has_nonce rsp \<longrightarrow> fst (take_bucket t fe)"
    using assms(2) True by (auto simp: acme_exception_handler_def case_prod_beta Let_def split: if_splits option.splits)
  then show ?thesis
    using spends_mono [OF spends_trans [OF take_spends [OF assms(1), of fe] spends_frame [OF b]]] by simp
qed (use assms spends_refl in \<open>auto simp: acme_exception_handler_def\<close>)

lemma new_nonce_spends:
  assumes "t \<le> T" "nonce_response t en m fe = (r, fe')"
  shows "spends T (if isl r then 0 else 1) fe fe'" "sv_nonce_spent (fe_server fe') = sv_nonce_spent (fe_server fe)"
    "r = Inr rsp \<Longrightarrow> has_nonce rsp" "r = Inl (Acme e) \<Longrightarrow> err_type e \<noteq> BAD_NONCE_TYPE"
proof -
  let ?fe = "snd (take_bucket t fe)"
  have "fe_bucket fe' = fe_bucket ?fe \<and> (isl r \<or> fst (take_bucket t fe))"
    using assms(2) mint_bucket [of en m ?fe]
    by (auto simp: nonce_response_def case_prod_beta Let_def split: if_splits option.splits prod.splits)
  then show "spends T (if isl r then 0 else 1) fe fe'"
    using spends_mono [OF spends_trans [OF take_spends [OF assms(1), of fe] spends_frame [of fe' ?fe]]] by auto
  show "sv_nonce_spent (fe_server fe') = sv_nonce_spent (fe_server fe)"
    using assms(2) by (cases rule: mint_cases [of en m ?fe]) (auto simp: nonce_response_def case_prod_beta Let_def split: if_splits)
  show "r = Inr rsp \<Longrightarrow> has_nonce rsp"
    using assms(2) by (auto simp: nonce_response_def case_prod_beta Let_def has_nonce_def split: if_splits option.splits prod.splits)
  show "r = Inl (Acme e) \<Longrightarrow> err_type e \<noteq> BAD_NONCE_TYPE"
    using assms(2) by (auto simp: nonce_response_def case_prod_beta Let_def BAD_NONCE_TYPE_def rate_limited_def acme_error_def
        split: if_splits option.splits prod.splits)
qed

lemma endpoint_spends:
  assumes "t \<le> T" "endpoint_of t en m r (fresh_request fe) = (x, fe1)"
  shows "spends T (if r = NewNonce \<and> \<not> isl x then 1 else 0) fe fe1"
proof (cases r)
  case NewNonce
  have "spends T 0 fe (fresh_request fe)" by (rule spends_frame) (simp add: fresh_request_def)
  from spends_trans [OF this new_nonce_spends(1) [OF assms(1), of en m "fresh_request fe" x fe1]] assms(2) NewNonce
  show ?thesis by (auto split: if_splits)
next
  case (Route h)
  then have "fe_bucket fe1 = fe_bucket fe" using assms(2) by (auto simp: acme_endpoint_def fresh_request_def case_prod_beta Let_def)
  with Route show ?thesis using spends_frame by simp
qed

lemma send_quiet: "has_nonce rsp \<or> \<not> sv_nonce_spent (fe_server fe) \<Longrightarrow> send_with_nonce t en m rsp fe = (rsp, fe)"
  by (auto simp: send_with_nonce_def owed_nonce_def)

lemma serve_spends:
  assumes "t \<le> T" "case r of NewNonce \<Rightarrow> True | Route h \<Rightarrow> plain_route h"
    "serve t en m m' (endpoint_of t en m r) fe = (rsp, fe')"
  shows "spends T (if open_nonce r rsp then 1 else 0) fe fe'"
proof -
  obtain x fe1 where e: "endpoint_of t en m r (fresh_request fe) = (x, fe1)" by force
  note spent = endpoint_spends [OF assms(1) e]
  show ?thesis
  proof (cases x)
    case (Inr rsp0)
    with e assms(3) have send: "send_with_nonce t en m' rsp0 fe1 = (rsp, fe')" by (simp add: serve_def)
    show ?thesis
    proof (cases r)
      case NewNonce
      with e Inr have "has_nonce rsp0" using new_nonce_spends(3) [OF assms(1)] by auto
      with send send_quiet have "rsp = rsp0" "fe' = fe1" by auto
      with spent Inr NewNonce show ?thesis using spends_mono [of T 1 fe fe1] by auto
    next
      case (Route h)
      have "\<not> has_nonce rsp0"
        using assms(2) e Inr unfolding Route plain_route_def
        by (auto simp: acme_endpoint_def case_prod_beta Let_def dest!: spec [where x = "fe_server (fresh_request fe)"])
      with spends_trans [OF spent send_spends(2) [OF assms(1) send]] send_spends(1) [OF assms(1) send] Route show ?thesis by simp
    qed
  next
    case (Inl f)
    show ?thesis
    proof (cases "\<exists>p. f = Acme p")
      case True
      then obtain p where p: "f = Acme p" by blast
      obtain rsp1 fe2 where h: "acme_exception_handler t en m p fe1 = (rsp1, fe2)" by force
      with e Inl p assms(3) have send: "send_with_nonce t en m' rsp1 fe2 = (rsp, fe')" by (simp add: serve_def)
      have sum: "spends T ((if has_nonce rsp1 then 1 else 0)
          + (if has_nonce rsp \<and> \<not> has_nonce rsp1 \<and> 400 \<le> rs_status rsp1 then 1 else 0)) fe fe'"
        using spends_trans [OF spent spends_trans [OF handler_spends [OF assms(1) h] send_spends(2) [OF assms(1) send]]] Inl by simp
      have "open_nonce r rsp \<Longrightarrow> has_nonce rsp1 \<or> (has_nonce rsp \<and> 400 \<le> rs_status rsp1)"
      proof (cases r)
        case NewNonce
        then have q: "nonce_response t en m (fresh_request fe) = (Inl (Acme p), fe1)" using e Inl p by simp
        then have "rsp1 = problem p []" "fe2 = fe1" using h new_nonce_spends(4) [OF assms(1) q] by (auto simp: acme_exception_handler_def)
        moreover have "\<not> sv_nonce_spent (fe_server fe1)"
          using new_nonce_spends(2) [OF assms(1) q] by (simp add: fresh_request_def)
        ultimately have "rsp = problem p []" using send send_quiet by auto
        then show "open_nonce r rsp \<Longrightarrow> ?thesis" using NewNonce by simp
      qed (use send_spends(1) [OF assms(1) send] in auto)
      then show ?thesis using spends_mono [OF sum] by auto
    next
      case False
      then have "rsp = server_error" "fe' = fe1" using assms(3) e Inl by (auto simp: serve_def split: fault.splits)
      moreover have "\<not> open_nonce r server_error" by (cases r) (simp_all add: has_nonce_def server_error_def)
      ultimately show ?thesis using spent Inl by simp
    qed
  qed
qed

text \<open>
  The nonces an unauthenticated client can draw are bounded: over any sequence of requests,
  the new-nonce responses and the error responses together carry at most as many nonces as
  the bucket's capacity and its refill over the elapsed time.
\<close>

theorem open_nonces_bounded:
  assumes "default_nonce_bucket rate burst start = Some b" "fe_bucket fe = Some b" "start \<le> T"
    "list_all (\<lambda>(t, en, m, m', r). t \<le> T \<and> (case r of NewNonce \<Rightarrow> True | Route h \<Rightarrow> plain_route h)) qs"
  shows "of_nat (open_nonces qs fe) \<le> of_int burst + rate * (T - start)"
proof -
  have "of_nat (open_nonces qs fe) \<le> budget T b"
    if "fe_bucket fe = Some b" "bucket_ok b" "tb_updated b \<le> T" "list_all (\<lambda>(t, en, m, m', r). t \<le> T
        \<and> (case r of NewNonce \<Rightarrow> True | Route h \<Rightarrow> plain_route h)) qs" for fe b
    using that
  proof (induction qs arbitrary: fe b)
    case Nil
    then show ?case by (simp add: budget_def bucket_ok_def)
  next
    case (Cons q qs)
    obtain t en m m' r where q: "q = (t, en, m, m', r)" using prod_cases5 by blast
    obtain rsp fe' where s: "serve t en m m' (endpoint_of t en m r) fe = (rsp, fe')" by force
    have "spends T (if open_nonce r rsp then 1 else 0) fe fe'"
      using Cons.prems(4) q by (intro serve_spends [OF _ _ s]) auto
    with Cons.prems(1-3) obtain b' where b': "fe_bucket fe' = Some b'" "bucket_ok b'" "tb_updated b' \<le> T"
      "(if open_nonce r rsp then 1 else 0) + budget T b' \<le> budget T b"
      by (auto simp: spends_def split: option.splits)
    have "of_nat (open_nonces qs fe') \<le> budget T b'" using Cons.IH [OF b'(1-3)] Cons.prems(4) by simp
    with b'(4) q s show ?case by (auto split: if_splits)
  qed
  moreover have "new_bucket burst rate start = Some b" using assms(1) by (simp add: default_nonce_bucket_def split: if_splits)
  ultimately show ?thesis
    using assms new_bucket_ok [of burst rate start b] by (force simp: new_bucket_def budget_def split: if_splits)
qed


section \<open>Witnesses\<close>

definition account_crypto :: crypto where
  "account_crypto = sample_crypto nothing (sample_header ''https://ra/acme/acct/a'') []"

definition account_route :: "response handler" where
  "account_route = account_resource account_crypto sample_env sample_cfg sample_request ''a''"

definition sample_frontend :: "server \<Rightarrow> frontend" where
  "sample_frontend sv = \<lparr>fe_server = sv, fe_bucket = Some \<lparr>tb_capacity = 1, tb_refill = 1, tb_tokens = 1, tb_updated = 0\<rparr>\<rparr>"

lemma url_account: "verify_url (\<lambda>_. False) (sample_header ''https://ra/acme/acct/a'') (url sample_cfg (''/acme/acct/'' @ ''a'')) = Inr ()"
  by code_simp

lemma account_route_ok:
  "account_route nonce_server = (Inr (json_response 200 (JObj (account_to_json sample_cfg signed_account))), spent_server)"
  using authenticate_sample [OF url_account, of nothing "[]", folded account_crypto_def]
  by (simp add: account_route_def account_resource_def hbind_def signed_account_def sample_account_def)

theorem nonce_returned_witness:
  "case serve 0 sample_env MintFault (MintText ''m'' False) (acme_endpoint account_route) (sample_frontend nonce_server) of (rsp, fe') \<Rightarrow>
     rs_headers rsp = [(''replay-nonce'', ''m'')] \<and> fst (consume_nonce 0 ''m'' (sv_db (fe_server fe')))"
proof -
  have "nonce_server\<lparr>sv_nonce_spent := False\<rparr> = nonce_server" by (simp add: nonce_server_def)
  then have e: "acme_endpoint account_route (fresh_request (sample_frontend nonce_server))
      = (Inr (json_response 200 (JObj (account_to_json sample_cfg signed_account))), sample_frontend spent_server)"
    by (simp add: acme_endpoint_def fresh_request_def sample_frontend_def account_route_ok)
  show ?thesis
    using nonce_returned [where endpoint = "acme_endpoint account_route" and fe = "sample_frontend nonce_server" and t = 0 and en = sample_env
        and m = MintFault and m' = "MintText ''m'' False", OF e] wf_nonce_server(2)
    by (simp add: sample_frontend_def json_response_def has_nonce_def spent_server_def sample_env_def case_prod_beta)
qed

lemma spent_refused:
  "fst (account_route (spent_server\<lparr>sv_nonce_spent := False\<rparr>)) = Inl (Acme bad_nonce)
   \<and> snd (account_route (spent_server\<lparr>sv_nonce_spent := False\<rparr>)) = spent_server\<lparr>sv_nonce_spent := False\<rparr>"
proof -
  have "consume_request_nonce sample_env (sample_header u) (spent_server\<lparr>sv_nonce_spent := False\<rparr>)
      = (Inl (Acme bad_nonce), spent_server\<lparr>sv_nonce_spent := False\<rparr>)" for u
    by (simp add: consume_request_nonce_def sample_header_def consume_nonce_def select_nonce_def spent_server_def)
  then show ?thesis
    using envelope_sample [of nothing "sample_header ''https://ra/acme/acct/a''" "[]"]
    by (simp add: account_route_def account_resource_def authenticate_account_def verify_existing_account_jws_def parse_jws_header_def
        hbind_def lift_fault_def account_crypto_def limit_sample)
qed

theorem bad_nonce_retryable_witness:
  "case serve 0 sample_env (MintText ''m'' False) MintFault (acme_endpoint account_route) (sample_frontend spent_server) of (rsp, fe') \<Rightarrow>
     (\<exists>n. rsp = problem bad_nonce [(''Replay-Nonce'', n)] \<and> fst (consume_nonce 0 n (sv_db (fe_server fe'))))
     \<or> (\<exists>seconds. rsp = problem (rate_limited (Some seconds)) [] \<and> 1 \<le> seconds)"
proof -
  have e: "acme_endpoint account_route (fresh_request (sample_frontend spent_server))
      = (Inl (Acme bad_nonce), sample_frontend (spent_server\<lparr>sv_nonce_spent := False\<rparr>))"
    using spent_refused by (simp add: acme_endpoint_def fresh_request_def sample_frontend_def case_prod_beta Let_def)
  show ?thesis
    by (rule bad_nonce_retryable [where endpoint = "acme_endpoint account_route" and fe = "sample_frontend spent_server", OF e])
       (use wf_nonce_server(2) in \<open>simp_all add: sample_frontend_def sample_env_def\<close>)
qed

theorem open_nonces_bounded_witness:
  "of_nat (open_nonces [(0, sample_env, MintText ''x'' False, MintFault, NewNonce), (1, sample_env, MintText ''y'' False, MintFault, NewNonce)]
     (sample_frontend signed_server)) \<le> (1 + 1 * (1 - 0) :: rat)"
proof -
  have "default_nonce_bucket 1 1 0 = Some \<lparr>tb_capacity = 1, tb_refill = 1, tb_tokens = 1, tb_updated = 0\<rparr>"
    by (simp add: default_nonce_bucket_def new_bucket_def)
  from open_nonces_bounded [OF this, of "sample_frontend signed_server" 1
      "[(0, sample_env, MintText ''x'' False, MintFault, NewNonce), (1, sample_env, MintText ''y'' False, MintFault, NewNonce)]"]
  show ?thesis by (simp add: sample_frontend_def)
qed

end
