(* ===== verification/IssuerRecovery.thy ===== *)
theory IssuerRecovery
  imports Prelude
begin

text \<open>
  Issuer material: which stored certificate signed a leaf
  (\<open>_issuing_ca_certificate\<close> and \<open>crl_watermark_key\<close> of
  \<open>src/src/acme_adcs_ra/crl_evidence.py\<close>), and the recovery of a missing chain from other
  stored chains (\<open>src/src/acme_adcs_ra/issuer_recovery.py\<close>). X.509 is a parameter: the parsed
  certificates of a PEM text and the relation \<open>verify_directly_issued_by\<close>; extensions are
  given as what reading them yields.
\<close>

section \<open>Certificates\<close>

datatype 'a extension = ExtensionNotFound | ExtensionInvalid | Extension 'a

record ca_cert =
  xc_fingerprint :: string
  xc_subject :: string
  xc_issuer :: string
  xc_rfc4514 :: string
  xc_spki :: string
  xc_pem :: string
  xc_basic_constraints :: "bool extension"
  xc_key_cert_sign :: "bool extension"

record pki =
  load_pem_certificate :: "string \<Rightarrow> ca_cert option"
  load_pem_certificates :: "string \<Rightarrow> ca_cert list option"
  verify_directly_issued_by :: "ca_cert \<Rightarrow> ca_cert \<Rightarrow> bool"
  key_digest :: "string \<Rightarrow> string \<Rightarrow> string"

definition is_ca_certificate :: "ca_cert \<Rightarrow> bool" where
  "is_ca_certificate certificate =
     (case xc_basic_constraints certificate of
        Extension ca \<Rightarrow>
          if \<not> ca then False
          else (case xc_key_cert_sign certificate of
                  ExtensionNotFound \<Rightarrow> True
                | ExtensionInvalid \<Rightarrow> False
                | Extension key_cert_sign \<Rightarrow> key_cert_sign)
      | _ \<Rightarrow> False)"

text \<open>The name is a filter and the signature the decision.\<close>

definition signs :: "pki \<Rightarrow> ca_cert \<Rightarrow> ca_cert \<Rightarrow> bool" where
  "signs p issuer child \<longleftrightarrow> xc_subject issuer = xc_issuer child \<and> verify_directly_issued_by p child issuer"

section \<open>The issuer in a stored chain\<close>

fun find_issuer :: "pki \<Rightarrow> ca_cert \<Rightarrow> string list \<Rightarrow> ca_cert option" where
  "find_issuer p leaf [] = None"
| "find_issuer p leaf (pem # pems) =
     (case load_pem_certificates p pem of
        None \<Rightarrow> find_issuer p leaf pems
      | Some candidates \<Rightarrow>
          (case find (\<lambda>c. signs p c leaf) candidates of
             None \<Rightarrow> find_issuer p leaf pems
           | Some c \<Rightarrow> Some c))"

definition issuing_ca_certificate :: "pki \<Rightarrow> string \<Rightarrow> string list \<Rightarrow> ca_cert option" where
  "issuing_ca_certificate p cert_pem chain_pem =
     (case load_pem_certificate p cert_pem of None \<Rightarrow> None | Some leaf \<Rightarrow> find_issuer p leaf chain_pem)"

definition watermark_key :: "pki \<Rightarrow> ca_cert \<Rightarrow> string" where
  "watermark_key p ca = key_digest p (xc_subject ca) (xc_spki ca)"

definition crl_watermark_key :: "pki \<Rightarrow> string \<Rightarrow> string list \<Rightarrow> string option" where
  "crl_watermark_key p cert_pem chain_pem = map_option (watermark_key p) (issuing_ca_certificate p cert_pem chain_pem)"

section \<open>Candidates\<close>

definition MAX_CHAIN_DEPTH :: nat where "MAX_CHAIN_DEPTH = 8"
definition DEFAULT_MAX_ROWS :: nat where "DEFAULT_MAX_ROWS = 1000"
definition DEFAULT_MAX_CANDIDATES :: nat where "DEFAULT_MAX_CANDIDATES = 64"

record CandidateIssuer =
  ci_certificate :: ca_cert
  ci_source :: string

abbreviation ci_fingerprint :: "CandidateIssuer \<Rightarrow> string" where
  "ci_fingerprint c \<equiv> xc_fingerprint (ci_certificate c)"

text \<open>
  The three nested loops; the second component says that the candidate bound stopped the
  scan. The set \<open>seen\<close> of the code is the fingerprints of the candidates so far.
\<close>

fun scan_parsed :: "nat \<Rightarrow> string \<Rightarrow> ca_cert list \<Rightarrow> CandidateIssuer list \<Rightarrow> CandidateIssuer list \<times> bool" where
  "scan_parsed max_candidates cid [] candidates = (candidates, False)"
| "scan_parsed max_candidates cid (certificate # rest) candidates =
     (if \<not> is_ca_certificate certificate then scan_parsed max_candidates cid rest candidates
      else if xc_fingerprint certificate \<in> set (map ci_fingerprint candidates) then scan_parsed max_candidates cid rest candidates
      else if length candidates \<ge> max_candidates then (candidates, True)
      else scan_parsed max_candidates cid rest (candidates @ [\<lparr>ci_certificate = certificate, ci_source = cid\<rparr>]))"

fun scan_chain :: "pki \<Rightarrow> nat \<Rightarrow> string \<Rightarrow> string list \<Rightarrow> CandidateIssuer list \<Rightarrow> CandidateIssuer list \<times> bool" where
  "scan_chain p max_candidates cid [] candidates = (candidates, False)"
| "scan_chain p max_candidates cid (entry # entries) candidates =
     (case load_pem_certificates p entry of
        None \<Rightarrow> scan_chain p max_candidates cid entries candidates
      | Some parsed \<Rightarrow>
          (let (candidates', truncated) = scan_parsed max_candidates cid parsed candidates
           in if truncated then (candidates', True) else scan_chain p max_candidates cid entries candidates'))"

fun scan_rows ::
  "pki \<Rightarrow> nat \<Rightarrow> nat \<Rightarrow> (string \<times> string list) list \<Rightarrow> CandidateIssuer list \<Rightarrow> nat \<Rightarrow> CandidateIssuer list \<times> nat \<times> bool" where
  "scan_rows p max_rows max_candidates [] candidates rows_scanned = (candidates, rows_scanned, False)"
| "scan_rows p max_rows max_candidates ((cid, chain) # stored) candidates rows_scanned =
     (if rows_scanned \<ge> max_rows then (candidates, rows_scanned, True)
      else
        let (candidates', truncated) = scan_chain p max_candidates cid chain candidates
        in if truncated then (candidates', Suc rows_scanned, True)
           else scan_rows p max_rows max_candidates stored candidates' (Suc rows_scanned))"

definition collect_candidate_issuers ::
  "pki \<Rightarrow> nat \<Rightarrow> nat \<Rightarrow> (string \<times> string list) list \<Rightarrow> CandidateIssuer list \<times> nat \<times> bool" where
  "collect_candidate_issuers p max_rows max_candidates stored = scan_rows p max_rows max_candidates stored [] 0"

section \<open>The walk\<close>

definition direct_issuer :: "pki \<Rightarrow> ca_cert \<Rightarrow> CandidateIssuer list \<Rightarrow> string set \<Rightarrow> CandidateIssuer option" where
  "direct_issuer p child candidates consumed =
     find (\<lambda>c. ci_fingerprint c \<notin> consumed \<and> signs p (ci_certificate c) child) candidates"

fun walk :: "pki \<Rightarrow> CandidateIssuer list \<Rightarrow> nat \<Rightarrow> string set \<Rightarrow> ca_cert \<Rightarrow> CandidateIssuer list" where
  "walk p candidates 0 consumed current = []"
| "walk p candidates (Suc depth) consumed current =
     (case direct_issuer p current candidates consumed of
        None \<Rightarrow> []
      | Some issuer \<Rightarrow>
          issuer # (if xc_subject (ci_certificate issuer) = xc_issuer (ci_certificate issuer) then []
                    else walk p candidates depth (insert (ci_fingerprint issuer) consumed) (ci_certificate issuer)))"

definition build_verified_chain :: "pki \<Rightarrow> ca_cert \<Rightarrow> CandidateIssuer list \<Rightarrow> CandidateIssuer list" where
  "build_verified_chain p leaf candidates = walk p candidates MAX_CHAIN_DEPTH {} leaf"

datatype recovery_detail = LeafInvalid | NoCandidates | NoneSigned | Recovered

record RecoveryOutcome =
  ro_chain_pem :: "string list"
  ro_fingerprints :: "string list"
  ro_subjects :: "string list"
  ro_sources :: "string list"
  ro_rows_scanned :: nat
  ro_candidates :: nat
  ro_truncated :: bool
  ro_detail :: recovery_detail

definition no_recovery :: "nat \<Rightarrow> nat \<Rightarrow> bool \<Rightarrow> recovery_detail \<Rightarrow> RecoveryOutcome" where
  "no_recovery rows n truncated d =
     \<lparr>ro_chain_pem = [], ro_fingerprints = [], ro_subjects = [], ro_sources = [], ro_rows_scanned = rows,
      ro_candidates = n, ro_truncated = truncated, ro_detail = d\<rparr>"

definition recovered :: "RecoveryOutcome \<Rightarrow> bool" where
  "recovered r \<longleftrightarrow> ro_chain_pem r \<noteq> []"

definition recover_issuer_chain :: "pki \<Rightarrow> nat \<Rightarrow> nat \<Rightarrow> string \<Rightarrow> (string \<times> string list) list \<Rightarrow> RecoveryOutcome" where
  "recover_issuer_chain p max_rows max_candidates cert_pem stored =
     (case load_pem_certificate p cert_pem of
        None \<Rightarrow> no_recovery 0 0 False LeafInvalid
      | Some leaf \<Rightarrow>
          let (candidates, rows_scanned, truncated) = collect_candidate_issuers p max_rows max_candidates stored in
          if candidates = [] then no_recovery rows_scanned 0 truncated NoCandidates
          else
            let path = build_verified_chain p leaf candidates in
            if path = [] then no_recovery rows_scanned (length candidates) truncated NoneSigned
            else \<lparr>ro_chain_pem = map (\<lambda>l. xc_pem (ci_certificate l)) path, ro_fingerprints = map ci_fingerprint path,
                  ro_subjects = map (\<lambda>l. xc_rfc4514 (ci_certificate l)) path, ro_sources = map ci_source path,
                  ro_rows_scanned = rows_scanned, ro_candidates = length candidates, ro_truncated = truncated,
                  ro_detail = Recovered\<rparr>)"


section \<open>What a scan finds\<close>

definition candidates_ok :: "nat \<Rightarrow> CandidateIssuer list \<Rightarrow> bool" where
  "candidates_ok m cs \<longleftrightarrow> length cs \<le> m \<and> distinct (map ci_fingerprint cs) \<and> (\<forall>c \<in> set cs. is_ca_certificate (ci_certificate c))"

text \<open>A scan of the certificates \<open>xs\<close> keeps what was found, adds only CA certificates of \<open>xs\<close>, and all of them unless stopped.\<close>

definition scanned :: "nat \<Rightarrow> ca_cert set \<Rightarrow> CandidateIssuer list \<Rightarrow> CandidateIssuer list \<times> bool \<Rightarrow> bool" where
  "scanned m xs cs r \<longleftrightarrow>
     candidates_ok m (fst r) \<and> set cs \<subseteq> set (fst r) \<and> ci_certificate ` set (fst r) \<subseteq> ci_certificate ` set cs \<union> xs
     \<and> (snd r \<or> (\<forall>x \<in> xs. is_ca_certificate x \<longrightarrow> xc_fingerprint x \<in> ci_fingerprint ` set (fst r)))"

lemma scanned_empty: "candidates_ok m cs \<Longrightarrow> scanned m {} cs (cs, False)"
  by (auto simp: scanned_def)

lemma scanned_trans:
  assumes "scanned m xs cs (cs', False)" "scanned m ys cs' r"
  shows "scanned m (xs \<union> ys) cs r"
proof -
  have "xc_fingerprint x \<in> ci_fingerprint ` set (fst r)" if "x \<in> xs" "is_ca_certificate x" for x
    using assms that by (fastforce simp: scanned_def)
  moreover have "ci_certificate ` set (fst r) \<subseteq> ci_certificate ` set cs \<union> (xs \<union> ys)"
    using assms by (simp add: scanned_def) (metis (no_types, lifting) Un_assoc Un_mono subset_refl subset_trans)
  moreover have "set cs \<subseteq> set (fst r)" using assms by (auto simp: scanned_def)
  ultimately show ?thesis using assms by (auto simp: scanned_def)
qed

lemma scanned_stop: "scanned m xs cs (cs', True) \<Longrightarrow> xs \<subseteq> ys \<Longrightarrow> scanned m ys cs (cs', True)"
  by (auto simp: scanned_def)

lemma scan_parsed_scanned: "candidates_ok m cs \<Longrightarrow> scanned m (set xs) cs (scan_parsed m cid xs cs)"
proof (induction xs arbitrary: cs)
  case Nil
  then show ?case by (simp add: scanned_empty)
next
  case (Cons x xs)
  show ?case
  proof (cases "is_ca_certificate x \<and> xc_fingerprint x \<notin> set (map ci_fingerprint cs)")
    case False
    then have "scan_parsed m cid (x # xs) cs = scan_parsed m cid xs cs" by auto
    moreover have "scanned m {x} cs (cs, False)" using Cons.prems False by (auto simp: scanned_def)
    ultimately show ?thesis using scanned_trans [OF _ Cons.IH [OF Cons.prems], of "{x}"] by simp
  next
    case True
    show ?thesis
    proof (cases "length cs \<ge> m")
      case full: True
      then have "scan_parsed m cid (x # xs) cs = (cs, True)" using True by auto
      then show ?thesis using Cons.prems by (auto simp: scanned_def)
    next
      case room: False
      let ?cs = "cs @ [\<lparr>ci_certificate = x, ci_source = cid\<rparr>]"
      have ok: "candidates_ok m ?cs" using Cons.prems True room by (auto simp: candidates_ok_def)
      have "scan_parsed m cid (x # xs) cs = scan_parsed m cid xs ?cs" using True room by auto
      moreover have "scanned m {x} cs (?cs, False)" using ok by (auto simp: scanned_def)
      ultimately show ?thesis using scanned_trans [OF _ Cons.IH [OF ok], of "{x}"] by simp
    qed
  qed
qed

definition chain_certificates :: "pki \<Rightarrow> string list \<Rightarrow> ca_cert set" where
  "chain_certificates p chain = {c. \<exists>pem parsed. pem \<in> set chain \<and> load_pem_certificates p pem = Some parsed \<and> c \<in> set parsed}"

lemma chain_certificates_simps [simp]:
  "chain_certificates p [] = {}"
  "chain_certificates p (pem # pems) =
     (case load_pem_certificates p pem of None \<Rightarrow> {} | Some parsed \<Rightarrow> set parsed) \<union> chain_certificates p pems"
  by (auto simp: chain_certificates_def split: option.split)

lemma scan_chain_scanned: "candidates_ok m cs \<Longrightarrow> scanned m (chain_certificates p chain) cs (scan_chain p m cid chain cs)"
proof (induction chain arbitrary: cs)
  case Nil
  then show ?case by (simp add: scanned_empty)
next
  case (Cons pem pems)
  show ?case
  proof (cases "load_pem_certificates p pem")
    case None
    then show ?thesis using Cons by simp
  next
    case (Some parsed)
    obtain cs' t where r: "scan_parsed m cid parsed cs = (cs', t)" by force
    have s: "scanned m (set parsed) cs (cs', t)" using scan_parsed_scanned [OF Cons.prems, of parsed cid] r by simp
    then have "candidates_ok m cs'" by (simp add: scanned_def)
    note IH = Cons.IH [OF this]
    show ?thesis
    proof (cases t)
      case True
      with s r Some show ?thesis by (auto intro: scanned_stop)
    next
      case False
      with s have "scanned m (set parsed) cs (cs', False)" by simp
      from scanned_trans [OF this IH] False r Some show ?thesis by simp
    qed
  qed
qed

definition stored_certificates :: "pki \<Rightarrow> (string \<times> string list) list \<Rightarrow> ca_cert set" where
  "stored_certificates p stored = (\<Union>r \<in> set stored. chain_certificates p (snd r))"

lemma scan_rows_scanned:
  "candidates_ok m cs \<Longrightarrow> scan_rows p max_rows m stored cs n = (cs', n', t) \<Longrightarrow>
     scanned m (stored_certificates p stored) cs (cs', t) \<and> n' \<le> max n max_rows"
proof (induction stored arbitrary: cs n)
  case Nil
  then show ?case using scanned_empty by (simp add: stored_certificates_def)
next
  case (Cons row rows)
  obtain cid chain where row: "row = (cid, chain)" by force
  obtain cs1 t1 where r: "scan_chain p m cid chain cs = (cs1, t1)" by force
  have s: "scanned m (chain_certificates p chain) cs (cs1, t1)"
    using scan_chain_scanned [OF Cons.prems(1), of p chain cid] r by simp
  then have ok: "candidates_ok m cs1" by (simp add: scanned_def)
  show ?case
  proof (cases "n \<ge> max_rows")
    case True
    with Cons.prems row show ?thesis by (auto simp: scanned_def)
  next
    case False
    show ?thesis
    proof (cases t1)
      case True
      with False Cons.prems(2) row r s show ?thesis by (auto simp: stored_certificates_def intro: scanned_stop)
    next
      case more_rows: False
      have "scan_rows p max_rows m rows cs1 (Suc n) = (cs', n', t)" using False Cons.prems(2) row r more_rows by simp
      from Cons.IH [OF ok this] have rest: "scanned m (stored_certificates p rows) cs1 (cs', t)" "n' \<le> max n max_rows"
        using False by auto
      moreover have "scanned m (chain_certificates p chain) cs (cs1, False)" using s more_rows by simp
      ultimately have "scanned m (chain_certificates p chain \<union> stored_certificates p rows) cs (cs', t)"
        using scanned_trans by blast
      with row rest show ?thesis by (simp add: stored_certificates_def)
    qed
  qed
qed

section \<open>What the walk finds\<close>

text \<open>Each link is the certificate that signed the one before it.\<close>

fun signed_path :: "pki \<Rightarrow> ca_cert \<Rightarrow> ca_cert list \<Rightarrow> bool" where
  "signed_path p child [] \<longleftrightarrow> True"
| "signed_path p child (c # cs) \<longleftrightarrow> signs p c child \<and> signed_path p c cs"

lemma direct_issuer_Some:
  "direct_issuer p child candidates consumed = Some c \<Longrightarrow>
     c \<in> set candidates \<and> ci_fingerprint c \<notin> consumed \<and> signs p (ci_certificate c) child"
  by (auto simp: direct_issuer_def find_Some_iff)

lemma direct_issuer_None:
  "direct_issuer p child candidates consumed = None \<longleftrightarrow>
     (\<forall>c \<in> set candidates. ci_fingerprint c \<notin> consumed \<longrightarrow> \<not> signs p (ci_certificate c) child)"
  by (auto simp: direct_issuer_def find_None_iff)

lemma walk_verified:
  "signed_path p current (map ci_certificate (walk p candidates d consumed current))
   \<and> set (walk p candidates d consumed current) \<subseteq> set candidates
   \<and> length (walk p candidates d consumed current) \<le> d
   \<and> distinct (map ci_fingerprint (walk p candidates d consumed current))
   \<and> ci_fingerprint ` set (walk p candidates d consumed current) \<inter> consumed = {}"
proof (induction p candidates d consumed current rule: walk.induct)
  case (2 p candidates depth consumed current)
  show ?case
  proof (cases "direct_issuer p current candidates consumed")
    case (Some c)
    then show ?thesis using direct_issuer_Some [OF Some] 2 [OF Some] by auto
  qed simp
qed simp

lemma build_verified_chain_Nil:
  "build_verified_chain p leaf candidates = [] \<longleftrightarrow> (\<forall>c \<in> set candidates. \<not> signs p (ci_certificate c) leaf)"
  by (simp add: build_verified_chain_def MAX_CHAIN_DEPTH_def eval_nat_numeral direct_issuer_None split: option.split)
    (metis direct_issuer_None direct_issuer_Some empty_iff)

lemma recovery_path:
  assumes "load_pem_certificate p cert_pem = Some leaf"
  shows "\<exists>path. ro_chain_pem (recover_issuer_chain p max_rows max_candidates cert_pem stored) = map xc_pem path
    \<and> ro_fingerprints (recover_issuer_chain p max_rows max_candidates cert_pem stored) = map xc_fingerprint path
    \<and> signed_path p leaf path \<and> distinct (map xc_fingerprint path) \<and> length path \<le> 8
    \<and> (\<forall>c \<in> set path. is_ca_certificate c \<and> c \<in> stored_certificates p stored)
    \<and> ro_candidates (recover_issuer_chain p max_rows max_candidates cert_pem stored) \<le> max_candidates
    \<and> ro_rows_scanned (recover_issuer_chain p max_rows max_candidates cert_pem stored) \<le> max_rows"
proof -
  obtain cs rows t where r: "collect_candidate_issuers p max_rows max_candidates stored = (cs, rows, t)" by (metis prod_cases3)
  then have s: "scanned max_candidates (stored_certificates p stored) [] (cs, t)" "rows \<le> max_rows"
    using scan_rows_scanned [of max_candidates "[]" p max_rows stored 0] by (auto simp: collect_candidate_issuers_def candidates_ok_def)
  let ?path = "map ci_certificate (build_verified_chain p leaf cs)"
  note w = walk_verified [of p leaf cs MAX_CHAIN_DEPTH "{}", folded build_verified_chain_def, unfolded MAX_CHAIN_DEPTH_def]
  have "\<forall>c \<in> set ?path. is_ca_certificate c \<and> c \<in> stored_certificates p stored"
    using w s by (auto simp: scanned_def candidates_ok_def)
  moreover have "cs = [] \<Longrightarrow> ?path = []" by (simp add: build_verified_chain_Nil)
  ultimately show ?thesis using w s assms r
    by (intro exI [of _ ?path]) (auto simp: recover_issuer_chain_def no_recovery_def scanned_def candidates_ok_def comp_def Let_def)
qed

text \<open>
  Issuer recovery only ever returns a path of signatures: the recovered chain is made of
  distinct CA certificates of stored chains, of which the first signed the leaf and each next one
  the certificate before it; it has at most eight links, and the scan reads no more rows and keeps
  no more candidates than its bounds.
\<close>

theorem recovery_verified:
  assumes "load_pem_certificate p cert_pem = Some leaf"
  shows "\<exists>path. ro_chain_pem (recover_issuer_chain p max_rows max_candidates cert_pem stored) = map xc_pem path
    \<and> ro_fingerprints (recover_issuer_chain p max_rows max_candidates cert_pem stored) = map xc_fingerprint path
    \<and> signed_path p leaf path \<and> distinct (map xc_fingerprint path) \<and> length path \<le> 8
    \<and> (\<forall>c \<in> set path. is_ca_certificate c \<and> c \<in> stored_certificates p stored)
    \<and> ro_candidates (recover_issuer_chain p max_rows max_candidates cert_pem stored) \<le> max_candidates
    \<and> ro_rows_scanned (recover_issuer_chain p max_rows max_candidates cert_pem stored) \<le> max_rows"
  using recovery_path [OF assms] .

text \<open>A scan that was not stopped has every CA certificate of the store, up to its fingerprint.\<close>

lemma collect_complete:
  assumes "collect_candidate_issuers p max_rows m stored = (cs, rows, False)" "inj_on xc_fingerprint (stored_certificates p stored)"
    "c \<in> stored_certificates p stored" "is_ca_certificate c"
  shows "c \<in> ci_certificate ` set cs"
proof -
  have s: "scanned m (stored_certificates p stored) [] (cs, False)"
    using assms(1) scan_rows_scanned [of m "[]" p max_rows stored 0] by (auto simp: collect_candidate_issuers_def candidates_ok_def)
  then obtain d where d: "d \<in> set cs" "ci_fingerprint d = xc_fingerprint c" using assms by (auto simp: scanned_def)
  with s have "ci_certificate d \<in> stored_certificates p stored" by (auto simp: scanned_def)
  with d assms show ?thesis by (metis image_eqI inj_onD)
qed

text \<open>
  Issuer recovery misses nothing inside its bounds: when the scan was not stopped and no two
  stored certificates share a fingerprint, a chain is recovered exactly if some stored CA
  certificate signed the leaf.
\<close>

theorem recovery_complete:
  assumes "load_pem_certificate p cert_pem = Some leaf" "inj_on xc_fingerprint (stored_certificates p stored)"
    "\<not> ro_truncated (recover_issuer_chain p max_rows max_candidates cert_pem stored)"
  shows "recovered (recover_issuer_chain p max_rows max_candidates cert_pem stored)
    \<longleftrightarrow> (\<exists>c \<in> stored_certificates p stored. is_ca_certificate c \<and> signs p c leaf)"
proof -
  obtain cs rows t where r: "collect_candidate_issuers p max_rows max_candidates stored = (cs, rows, t)" by (metis prod_cases3)
  with assms(1,3) have "\<not> t" by (auto simp: recover_issuer_chain_def no_recovery_def Let_def split: if_splits)
  with r have r': "collect_candidate_issuers p max_rows max_candidates stored = (cs, rows, False)" by simp
  have s: "scanned max_candidates (stored_certificates p stored) [] (cs, False)"
    using r' scan_rows_scanned [of max_candidates "[]" p max_rows stored 0] by (auto simp: collect_candidate_issuers_def candidates_ok_def)
  have "recovered (recover_issuer_chain p max_rows max_candidates cert_pem stored) \<longleftrightarrow> build_verified_chain p leaf cs \<noteq> []"
    using assms(1) r' by (auto simp: recovered_def recover_issuer_chain_def no_recovery_def Let_def build_verified_chain_Nil [of p leaf "[]"])
  also have "\<dots> \<longleftrightarrow> (\<exists>c \<in> ci_certificate ` set cs. signs p c leaf)" by (simp add: build_verified_chain_Nil)
  also have "\<dots> \<longleftrightarrow> (\<exists>c \<in> stored_certificates p stored. is_ca_certificate c \<and> signs p c leaf)"
  proof -
    have "ci_certificate ` set cs = {c \<in> stored_certificates p stored. is_ca_certificate c}"
      using s collect_complete [OF r' assms(2)] by (auto simp: scanned_def candidates_ok_def)
    then show ?thesis by auto
  qed
  finally show ?thesis .
qed

section \<open>The recovered chain names the issuer\<close>

text \<open>
  The recovered chain repairs the row: when the PEM text written for a stored certificate parses back to it, the issuer
  lookup of the evidence check finds in the recovered chain a CA certificate that signed the leaf,
  so the watermark of that issuer has a key.
\<close>

theorem recovery_repairs:
  assumes "load_pem_certificate p cert_pem = Some leaf" "\<And>c. c \<in> stored_certificates p stored \<Longrightarrow> load_pem_certificates p (xc_pem c) = Some [c]"
    "recovered (recover_issuer_chain p max_rows max_candidates cert_pem stored)"
  shows "\<exists>c. issuing_ca_certificate p cert_pem (ro_chain_pem (recover_issuer_chain p max_rows max_candidates cert_pem stored)) = Some c
    \<and> is_ca_certificate c \<and> signs p c leaf \<and> c \<in> stored_certificates p stored
    \<and> crl_watermark_key p cert_pem (ro_chain_pem (recover_issuer_chain p max_rows max_candidates cert_pem stored))
        = Some (watermark_key p c)"
proof -
  obtain path where path: "ro_chain_pem (recover_issuer_chain p max_rows max_candidates cert_pem stored) = map xc_pem path"
    "signed_path p leaf path" "\<forall>c \<in> set path. is_ca_certificate c \<and> c \<in> stored_certificates p stored"
    using recovery_path [OF assms(1), of max_rows max_candidates stored] by auto
  with assms(3) obtain c cs where "path = c # cs" by (cases path) (auto simp: recovered_def)
  with path assms(1,2) show ?thesis by (auto simp: issuing_ca_certificate_def crl_watermark_key_def)
qed

section \<open>A sample store\<close>

text \<open>An intermediate and a root, in two rows; PEM text is the fingerprint.\<close>

definition root_cert :: ca_cert where
  "root_cert = \<lparr>xc_fingerprint = ''r'', xc_subject = ''Root'', xc_issuer = ''Root'', xc_rfc4514 = ''CN=Root'', xc_spki = ''kr'',
     xc_pem = ''r'', xc_basic_constraints = Extension True, xc_key_cert_sign = Extension True\<rparr>"

definition mid_cert :: ca_cert where
  "mid_cert = \<lparr>xc_fingerprint = ''m'', xc_subject = ''Mid'', xc_issuer = ''Root'', xc_rfc4514 = ''CN=Mid'', xc_spki = ''km'',
     xc_pem = ''m'', xc_basic_constraints = Extension True, xc_key_cert_sign = ExtensionNotFound\<rparr>"

definition leaf_cert :: ca_cert where
  "leaf_cert = \<lparr>xc_fingerprint = ''l'', xc_subject = ''Leaf'', xc_issuer = ''Mid'', xc_rfc4514 = ''CN=Leaf'', xc_spki = ''kl'',
     xc_pem = ''l'', xc_basic_constraints = ExtensionNotFound, xc_key_cert_sign = ExtensionNotFound\<rparr>"

definition sample_pki :: pki where
  "sample_pki = \<lparr>load_pem_certificate = (\<lambda>t. if t = ''l'' then Some leaf_cert else None),
     load_pem_certificates = (\<lambda>t. map_of [(''m'', [mid_cert]), (''b'', [leaf_cert, root_cert]), (''r'', [root_cert]), (''l'', [leaf_cert])] t),
     verify_directly_issued_by = (\<lambda>child issuer. (child, issuer) \<in> {(leaf_cert, mid_cert), (mid_cert, root_cert), (root_cert, root_cert)}),
     key_digest = (\<lambda>a b. a @ b)\<rparr>"

lemmas sample_certs = root_cert_def mid_cert_def leaf_cert_def

definition sample_stored :: "(string \<times> string list) list" where
  "sample_stored = [(''c1'', [''bad'', ''m'']), (''c2'', [''b''])]"

lemma sample_recovery:
  "recover_issuer_chain sample_pki 10 5 ''l'' sample_stored =
     \<lparr>ro_chain_pem = [''m'', ''r''], ro_fingerprints = [''m'', ''r''], ro_subjects = [''CN=Mid'', ''CN=Root''],
      ro_sources = [''c1'', ''c2''], ro_rows_scanned = 2, ro_candidates = 2, ro_truncated = False, ro_detail = Recovered\<rparr>"
  by code_simp

lemma sample_leaf: "load_pem_certificate sample_pki ''l'' = Some leaf_cert"
  by (simp add: sample_pki_def)

lemma sample_stored_certificates: "stored_certificates sample_pki sample_stored = {mid_cert, leaf_cert, root_cert}"
  by (auto simp: stored_certificates_def sample_stored_def sample_pki_def)

theorem recovery_verified_witness:
  "\<exists>path. [''m'', ''r''] = map xc_pem path \<and> signed_path sample_pki leaf_cert path \<and> length path \<le> 8"
  using recovery_verified [OF sample_leaf, of 10 5 sample_stored] unfolding sample_recovery RecoveryOutcome.simps by meson

theorem recovery_complete_witness:
  "\<exists>c \<in> stored_certificates sample_pki sample_stored. is_ca_certificate c \<and> signs sample_pki c leaf_cert"
proof -
  have "inj_on xc_fingerprint (stored_certificates sample_pki sample_stored)"
    by (simp add: sample_stored_certificates sample_certs)
  from recovery_complete [OF sample_leaf this, of 10 5] show ?thesis by (simp add: sample_recovery recovered_def)
qed

theorem recovery_repairs_witness:
  "\<exists>c. issuing_ca_certificate sample_pki ''l'' [''m'', ''r''] = Some c \<and> is_ca_certificate c \<and> signs sample_pki c leaf_cert"
proof -
  have "load_pem_certificates sample_pki (xc_pem c) = Some [c]" if "c \<in> stored_certificates sample_pki sample_stored" for c
    using that unfolding sample_stored_certificates by (auto simp: sample_pki_def sample_certs)
  from recovery_repairs [OF sample_leaf this, of sample_stored 10 5] show ?thesis by (auto simp: sample_recovery recovered_def)
qed

end
