(* ===== verification/CrlFetch.thy ===== *)
theory CrlFetch
  imports UrlBinding
begin

text \<open>
  The retrieval of a CRL document (\<open>src/src/acme_adcs_ra/crl_evidence.py\<close>): URL authority,
  the redirect rule, the connection pinned to the addresses resolved once, the redirect loop and
  the bounded read. The network is an argument: the addresses of the configured host and, for each
  hop, URL and address, what the transport does. Whether the watchdog fired or the deadline has
  passed is part of each of its answers.
\<close>

section \<open>Authority of a URL\<close>

definition rpartition_tail :: "char \<Rightarrow> string \<Rightarrow> string" where
  "rpartition_tail c s = rev (takeWhile (\<lambda>x. x \<noteq> c) (rev s))"

definition hostinfo :: "string \<Rightarrow> string \<times> string option" where
  "hostinfo netloc =
     (let info = rpartition_tail CHR ''@'' netloc;
          (host, port) =
            (if CHR ''['' \<in> set info
             then (let (h, rest) = cut CHR '']'' (snd (cut CHR ''['' info)) in (h, snd (cut CHR '':'' rest)))
             else cut CHR '':'' info)
      in (host, if port = [] then None else Some port))"

definition hostname :: "ParseResult \<Rightarrow> string option" where
  "hostname u =
     (let h = fst (hostinfo (u_netloc u)) in
      if h = [] then None
      else let zone = dropWhile (\<lambda>x. x \<noteq> CHR ''%'') h in Some (lower (takeWhile (\<lambda>x. x \<noteq> CHR ''%'') h) @ zone))"

text \<open>\<open>None\<close> is \<open>ValueError\<close>.\<close>

fun digits_value :: "nat \<Rightarrow> string \<Rightarrow> nat option" where
  "digits_value acc [] = Some acc"
| "digits_value acc (c # cs) =
     (let n = (of_char c :: nat) in if 48 \<le> n \<and> n \<le> 57 then digits_value (acc * 10 + (n - 48)) cs else None)"

definition url_port :: "ParseResult \<Rightarrow> nat option option" where
  "url_port u =
     (case snd (hostinfo (u_netloc u)) of
        None \<Rightarrow> Some None
      | Some text \<Rightarrow>
          (case digits_value 0 text of
             None \<Rightarrow> None
           | Some port \<Rightarrow> if port \<le> 65535 then Some (Some port) else None))"

definition default_port :: "string \<Rightarrow> nat option" where
  "default_port scheme = (if scheme = ''http'' then Some 80 else if scheme = ''https'' then Some 443 else None)"

definition effective_port :: "ParseResult \<Rightarrow> nat option option" where
  "effective_port u =
     (case url_port u of None \<Rightarrow> None | Some (Some port) \<Rightarrow> Some (Some port) | Some None \<Rightarrow> Some (default_port (u_scheme u)))"

section \<open>urljoin\<close>

definition uses_relative :: "string list" where
  "uses_relative = [[], ''ftp'', ''http'', ''gopher'', ''nntp'', ''imap'', ''wais'', ''file'', ''https'', ''shttp'', ''mms'',
     ''prospero'', ''rtsp'', ''rtsps'', ''rtspu'', ''sftp'', ''svn'', ''svn+ssh'', ''ws'', ''wss'']"

definition uses_netloc :: "string list" where
  "uses_netloc = [[], ''ftp'', ''http'', ''gopher'', ''nntp'', ''telnet'', ''imap'', ''wais'', ''file'', ''mms'', ''https'', ''shttp'',
     ''snews'', ''prospero'', ''rtsp'', ''rtsps'', ''rtspu'', ''rsync'', ''svn'', ''svn+ssh'', ''sftp'', ''nfs'', ''git'', ''git+ssh'',
     ''ws'', ''wss'', ''itms-services'']"

definition urlunparse :: "ParseResult \<Rightarrow> string" where
  "urlunparse u =
     (let path = (if u_params u \<noteq> [] then u_path u @ '';'' @ u_params u else u_path u);
          rest = (if u_netloc u \<noteq> [] \<or> (u_scheme u \<noteq> [] \<and> u_scheme u \<in> set uses_netloc \<and> take 2 path \<noteq> ''//'')
                  then ''//'' @ u_netloc u @ (if path \<noteq> [] \<and> take 1 path \<noteq> ''/'' then ''/'' @ path else path)
                  else path);
          text = (if u_scheme u \<noteq> [] then u_scheme u @ '':'' @ rest else rest);
          text = (if u_query u \<noteq> [] then text @ ''?'' @ u_query u else text)
      in if u_fragment u \<noteq> [] then text @ ''#'' @ u_fragment u else text)"

definition urlparse_default :: "(string \<Rightarrow> bool) \<Rightarrow> string \<Rightarrow> string \<Rightarrow> ParseResult option" where
  "urlparse_default ip_literal scheme raw =
     map_option (\<lambda>u. if u_scheme u = [] then u\<lparr>u_scheme := scheme\<rparr> else u) (urlparse ip_literal raw)"

definition merge_segments :: "string \<Rightarrow> string \<Rightarrow> string list" where
  "merge_segments base_path path =
     (let parts = split_on CHR ''/'' base_path;
          base_parts = (if last parts \<noteq> [] then butlast parts else parts);
          segments = base_parts @ split_on CHR ''/'' path
      in if take 1 path = ''/'' then split_on CHR ''/'' path
         else if length segments < 2 then segments
         else hd segments # filter (\<lambda>s. s \<noteq> []) (butlast (tl segments)) @ [last segments])"

fun resolve_dots :: "string list \<Rightarrow> string list \<Rightarrow> string list" where
  "resolve_dots resolved [] = resolved"
| "resolve_dots resolved (seg # segs) =
     (if seg = ''..'' then resolve_dots (butlast resolved) segs
      else if seg = ''.'' then resolve_dots resolved segs
      else resolve_dots (resolved @ [seg]) segs)"

definition urljoin :: "(string \<Rightarrow> bool) \<Rightarrow> string \<Rightarrow> string \<Rightarrow> string option" where
  "urljoin ip_literal base loc =
     (if base = [] then Some loc else if loc = [] then Some base
      else case urlparse ip_literal base of
        None \<Rightarrow> None
      | Some b \<Rightarrow>
          (case urlparse_default ip_literal (u_scheme b) loc of
             None \<Rightarrow> None
           | Some u \<Rightarrow>
               if u_scheme u \<noteq> u_scheme b \<or> u_scheme u \<notin> set uses_relative then Some loc
               else if u_scheme u \<in> set uses_netloc \<and> u_netloc u \<noteq> [] then Some (urlunparse u)
               else
                 let u = (if u_scheme u \<in> set uses_netloc then u\<lparr>u_netloc := u_netloc b\<rparr> else u) in
                 if u_path u = [] \<and> u_params u = []
                 then Some (urlunparse (u\<lparr>u_path := u_path b, u_params := u_params b,
                        u_query := (if u_query u = [] then u_query b else u_query u)\<rparr>))
                 else
                   let segments = merge_segments (u_path b) (u_path u);
                       resolved = resolve_dots [] segments
                         @ (if last segments = ''.'' \<or> last segments = ''..'' then [[]] else []);
                       path = join_with CHR ''/'' resolved
                   in Some (urlunparse (u\<lparr>u_path := (if path = [] then ''/'' else path)\<rparr>))))"

section \<open>The redirect rule\<close>

datatype redirect_refusal = NotHttp | LeavesHost | Downgrades | ChangesPort

text \<open>The outer \<open>None\<close> is \<open>ValueError\<close> from the URL parser.\<close>

definition vet_redirect :: "(string \<Rightarrow> bool) \<Rightarrow> string \<Rightarrow> string \<Rightarrow> ParseResult \<Rightarrow> (redirect_refusal + string) option" where
  "vet_redirect ip_literal location current_url origin =
     Option.bind (urljoin ip_literal current_url location) (\<lambda>target.
     Option.bind (urlparse ip_literal target) (\<lambda>u.
       case hostname u of
         None \<Rightarrow> Some (Inl NotHttp)
       | Some host \<Rightarrow>
           if u_scheme u \<notin> {''http'', ''https''} then Some (Inl NotHttp)
           else if lower host \<noteq> lower (case hostname origin of None \<Rightarrow> [] | Some h \<Rightarrow> h) then Some (Inl LeavesHost)
           else if u_scheme origin = ''https'' \<and> u_scheme u = ''http'' then Some (Inl Downgrades)
           else
             Option.bind (effective_port origin) (\<lambda>origin_port.
             Option.bind (effective_port u) (\<lambda>port.
               let upgrade = u_scheme origin = ''http'' \<and> u_scheme u = ''https'' \<and> origin_port = Some 80 in
               if port = origin_port \<or> (upgrade \<and> port = Some 443) then Some (Inr target)
               else Some (Inl ChangesPort)))))"

section \<open>The transport\<close>

text \<open>One read of the body; the end of the list is the end of the stream.\<close>

datatype read_event =
    Chunk bytes (past_deadline: bool)
  | ReadRaises bool
  | WatchdogFired

record http_answer =
  ans_status :: nat
  ans_location :: "string option"
  ans_timed_out :: bool
  ans_past_deadline :: bool
  ans_reads :: "read_event list"

text \<open>
  An attempt on one address: the deadline had passed before it, it failed in the transport (the
  flag is \<open>_past_deadline\<close> when that is caught), or it answered.
\<close>

datatype attempt = Late | SendFails bool | SendRaises bool | Answers http_answer

record connection =
  cn_address :: string
  cn_port :: nat
  cn_server_hostname :: "string option"
  cn_host_header :: string
  cn_url :: string

datatype fetch_failure = DeadlineExpired | FetchFailed | ReadFailed | TooLarge | RedirectsDisabled | NoLocation
  | RedirectRefused redirect_refusal | TooManyRedirects

definition caught :: "fetch_failure \<Rightarrow> bool \<Rightarrow> fetch_failure" where
  "caught e late = (if late then DeadlineExpired else e)"

fun read_document :: "nat \<Rightarrow> bytes \<Rightarrow> read_event list \<Rightarrow> fetch_failure + bytes" where
  "read_document max_bytes body [] = Inr body"
| "read_document max_bytes body (WatchdogFired # es) = Inl DeadlineExpired"
| "read_document max_bytes body (ReadRaises late # es) = Inl (caught ReadFailed late)"
| "read_document max_bytes body (Chunk chunk late # es) =
     (if chunk = [] then Inr body
      else if length (body @ chunk) > max_bytes then Inl TooLarge
      else if late then Inl DeadlineExpired
      else read_document max_bytes (body @ chunk) es)"

text \<open>The connection that \<open>_PinnedAddressAdapter\<close> and the explicit \<open>Host\<close> header give for a URL.\<close>

definition pinned_connection :: "string \<Rightarrow> ParseResult \<Rightarrow> string \<Rightarrow> nat \<Rightarrow> string \<Rightarrow> connection" where
  "pinned_connection target u host port address =
     (let bracketed = (if CHR '':'' \<in> set host then ''['' @ host @ '']'' else host) in
      \<lparr>cn_address = address, cn_port = port,
       cn_server_hostname = (if u_scheme u = ''https'' then Some host else None),
       cn_host_header = (case url_port u of Some (Some p) \<Rightarrow> bracketed @ '':'' @ show_nat p | _ \<Rightarrow> bracketed),
       cn_url = target\<rparr>)"

fun open_addresses ::
  "(string \<Rightarrow> attempt) \<Rightarrow> (string \<Rightarrow> connection) \<Rightarrow> bool \<Rightarrow> string list \<Rightarrow> (fetch_failure + http_answer) \<times> connection list" where
  "open_addresses send connect last_late [] = (Inl (caught FetchFailed last_late), [])"
| "open_addresses send connect last_late (address # addresses) =
     (case send address of
        Late \<Rightarrow> (Inl DeadlineExpired, [])
      | SendFails late \<Rightarrow>
          (let (r, log) = open_addresses send connect late addresses in (r, connect address # log))
      | SendRaises late \<Rightarrow> (Inl (caught ReadFailed late), [connect address])
      | Answers answer \<Rightarrow> (Inr answer, [connect address]))"

definition open_pinned_response ::
  "(string \<Rightarrow> bool) \<Rightarrow> (string \<Rightarrow> string \<Rightarrow> attempt) \<Rightarrow> string \<Rightarrow> string list \<Rightarrow> (fetch_failure + http_answer) \<times> connection list" where
  "open_pinned_response ip_literal send target addresses =
     (case urlparse ip_literal target of
        None \<Rightarrow> (Inl ReadFailed, [])
      | Some u \<Rightarrow>
          (case (hostname u, effective_port u) of
             (Some host, Some (Some port)) \<Rightarrow>
               open_addresses (send target) (pinned_connection target u host port) False addresses
           | _ \<Rightarrow> (Inl FetchFailed, [])))"

section \<open>The redirect loop\<close>

definition MAX_CRL_REDIRECTS :: nat where "MAX_CRL_REDIRECTS = 4"

record fetch_options =
  fo_max_bytes :: nat
  fo_follow_redirects :: bool

fun fetch_hops ::
  "(string \<Rightarrow> bool) \<Rightarrow> (nat \<Rightarrow> string \<Rightarrow> string \<Rightarrow> attempt) \<Rightarrow> fetch_options \<Rightarrow> ParseResult \<Rightarrow> string list \<Rightarrow> nat \<Rightarrow> string
     \<Rightarrow> (fetch_failure + bytes) \<times> connection list" where
  "fetch_hops ip_literal net opts origin addresses 0 target = (Inl TooManyRedirects, [])"
| "fetch_hops ip_literal net opts origin addresses (Suc hops) target =
     (let (opened, log) = open_pinned_response ip_literal (net hops) target addresses in
      case opened of
        Inl e \<Rightarrow> (Inl e, log)
      | Inr answer \<Rightarrow>
          if ans_timed_out answer then (Inl DeadlineExpired, log)
          else if 300 \<le> ans_status answer \<and> ans_status answer < 400 then
            if \<not> fo_follow_redirects opts then (Inl RedirectsDisabled, log)
            else (case ans_location answer of
                None \<Rightarrow> (Inl NoLocation, log)
              | Some location \<Rightarrow>
                  if location = [] then (Inl NoLocation, log)
                  else (case vet_redirect ip_literal location target origin of
                      None \<Rightarrow> (Inl (caught ReadFailed (ans_past_deadline answer)), log)
                    | Some (Inl refusal) \<Rightarrow> (Inl (RedirectRefused refusal), log)
                    | Some (Inr next_target) \<Rightarrow>
                        (let (r, later) = fetch_hops ip_literal net opts origin addresses hops next_target
                         in (r, log @ later))))
          else if 400 \<le> ans_status answer \<and> ans_status answer < 600
            then (Inl (caught FetchFailed (ans_past_deadline answer)), log)
          else (read_document (fo_max_bytes opts) [] (ans_reads answer), log))"

datatype fetch_start = NotHttpUrl | Unresolved | Raises string | Fetched "fetch_failure + bytes"

text \<open>
  The retrieval part of \<open>fetch_crl_evidence\<close>. The URL is parsed and its port read before the
  \<open>try\<close> block.
\<close>

definition fetch_document ::
  "(string \<Rightarrow> bool) \<Rightarrow> (string \<Rightarrow> nat option \<Rightarrow> string list) \<Rightarrow> (nat \<Rightarrow> string \<Rightarrow> string \<Rightarrow> attempt) \<Rightarrow> fetch_options \<Rightarrow> string
     \<Rightarrow> fetch_start \<times> connection list" where
  "fetch_document ip_literal resolve_addresses net opts crl_url =
     (case urlparse ip_literal crl_url of
        None \<Rightarrow> (Raises ''ValueError'', [])
      | Some origin \<Rightarrow>
          (case hostname origin of
             None \<Rightarrow> (NotHttpUrl, [])
           | Some host \<Rightarrow>
               if u_scheme origin \<notin> {''http'', ''https''} then (NotHttpUrl, [])
               else (case effective_port origin of
                   None \<Rightarrow> (Raises ''ValueError'', [])
                 | Some port \<Rightarrow>
                     let pinned = rev (remdups (rev (resolve_addresses host port))) in
                     if pinned = [] then (Unresolved, [])
                     else (let (r, log) = fetch_hops ip_literal net opts origin pinned (Suc MAX_CRL_REDIRECTS) crl_url
                           in (Fetched r, log)))))"

section \<open>The retrieval stays on the configured host\<close>

definition on_origin :: "(string \<Rightarrow> bool) \<Rightarrow> ParseResult \<Rightarrow> nat option \<Rightarrow> string \<Rightarrow> bool" where
  "on_origin ip_literal origin port target \<longleftrightarrow>
     (case urlparse ip_literal target of
        None \<Rightarrow> False
      | Some u \<Rightarrow>
          u_scheme u \<in> {''http'', ''https''} \<and> (u_scheme origin = ''https'' \<longrightarrow> u_scheme u = ''https'')
          \<and> hostname u \<noteq> None \<and> map_option lower (hostname u) = map_option lower (hostname origin)
          \<and> (effective_port u = Some port
             \<or> (u_scheme origin = ''http'' \<and> port = Some 80 \<and> u_scheme u = ''https'' \<and> effective_port u = Some (Some 443))))"

lemma vet_redirect_on_origin:
  assumes "vet_redirect ip_literal location current_url origin = Some (Inr target)"
    "effective_port origin = Some port" "hostname origin = Some host"
  shows "on_origin ip_literal origin port target"
  using assms
  by (auto simp: vet_redirect_def on_origin_def Let_def bind_eq_Some_conv split: option.splits if_splits)

definition connects :: "(string \<Rightarrow> bool) \<Rightarrow> string list \<Rightarrow> string \<Rightarrow> connection \<Rightarrow> bool" where
  "connects ip_literal addresses target cn \<longleftrightarrow>
     cn_url cn = target \<and> cn_address cn \<in> set addresses
     \<and> (\<exists>u. urlparse ip_literal target = Some u \<and> effective_port u = Some (Some (cn_port cn))
          \<and> cn_server_hostname cn = (if u_scheme u = ''https'' then hostname u else None))"

lemma open_addresses_log:
  "open_addresses send connect late addresses = (r, log) \<Longrightarrow>
     set log \<subseteq> connect ` set addresses \<and> length log \<le> length addresses"
  by (induction addresses arbitrary: late r log)
    (fastforce split: attempt.splits prod.splits)+

lemma connects_pinned:
  "urlparse ip_literal target = Some u \<Longrightarrow> hostname u = Some host \<Longrightarrow> effective_port u = Some (Some port) \<Longrightarrow>
     address \<in> set addresses \<Longrightarrow> connects ip_literal addresses target (pinned_connection target u host port address)"
  by (simp add: connects_def pinned_connection_def Let_def)

lemma open_pinned_log:
  assumes "open_pinned_response ip_literal send target addresses = (r, log)"
  shows "list_all (connects ip_literal addresses target) log" "length log \<le> length addresses"
  using assms
  by (auto simp: open_pinned_response_def list_all_iff split: option.splits dest!: open_addresses_log
      dest!: subsetD [of "set log"] intro!: connects_pinned)

lemma fetch_hops_confined:
  assumes "fetch_hops ip_literal net opts origin addresses n target = (r, log)" "on_origin ip_literal origin port target"
    "effective_port origin = Some port" "hostname origin = Some host"
  shows "list_all (\<lambda>cn. on_origin ip_literal origin port (cn_url cn) \<and> connects ip_literal addresses (cn_url cn) cn
      \<and> (\<not> fo_follow_redirects opts \<longrightarrow> cn_url cn = target)) log \<and> length log \<le> n * length addresses"
  using assms(1,2)
proof (induction n arbitrary: target r log)
  case (Suc n)
  obtain opened log1 where o: "open_pinned_response ip_literal (net n) target addresses = (opened, log1)" by force
  have here: "list_all (\<lambda>cn. on_origin ip_literal origin port (cn_url cn) \<and> connects ip_literal addresses (cn_url cn) cn
      \<and> (\<not> fo_follow_redirects opts \<longrightarrow> cn_url cn = target)) log1"
    using open_pinned_log(1) [OF o] Suc.prems(2) by (auto simp: list_all_iff connects_def)
  have len: "length log1 \<le> length addresses" using open_pinned_log(2) [OF o] .
  show ?case
  proof (cases "\<exists>next_target r2 log2. fo_follow_redirects opts \<and> on_origin ip_literal origin port next_target
      \<and> fetch_hops ip_literal net opts origin addresses n next_target = (r2, log2) \<and> log = log1 @ log2")
    case True
    then show ?thesis using Suc.IH here len by (fastforce simp: list_all_iff)
  next
    case False
    then have "log = log1"
      using Suc.prems(1) o
      by (auto simp: Let_def split: sum.splits if_splits option.splits prod.splits dest: vet_redirect_on_origin [OF _ assms(3,4)])
    with here len show ?thesis by simp
  qed
qed simp

text \<open>
  C25. A CRL server cannot steer the retrieval: every connection goes to one of the addresses the
  configured host resolved to at the start, for a URL of that host over http or https, never down
  from https, on the configured port or, from http on port 80 only, on port 443 over https, and TLS
  is verified against the host of the URL; there are at most five requests per address, and none
  but the configured URL is requested unless redirects are enabled.
\<close>

theorem crl_fetch_confined:
  assumes "urlparse ip_literal crl_url = Some origin" "hostname origin = Some host" "effective_port origin = Some port"
    "fetch_document ip_literal resolve_addresses net opts crl_url = (r, log)"
  shows "list_all (\<lambda>cn. cn_address cn \<in> set (resolve_addresses host port)
      \<and> on_origin ip_literal origin port (cn_url cn)
      \<and> (\<exists>u. urlparse ip_literal (cn_url cn) = Some u \<and> effective_port u = Some (Some (cn_port cn))
           \<and> cn_server_hostname cn = (if u_scheme u = ''https'' then hostname u else None))
      \<and> (\<not> fo_follow_redirects opts \<longrightarrow> cn_url cn = crl_url)) log
    \<and> length log \<le> 5 * length (resolve_addresses host port)"
proof -
  let ?pinned = "rev (remdups (rev (resolve_addresses host port)))"
  have len: "length ?pinned \<le> length (resolve_addresses host port)" by (metis length_remdups_leq length_rev)
  show ?thesis
  proof (cases "log = []")
    case False
    then have "u_scheme origin \<in> {''http'', ''https''}"
      and "\<exists>r. fetch_hops ip_literal net opts origin ?pinned (Suc MAX_CRL_REDIRECTS) crl_url = (r, log)"
      using assms by (auto simp: fetch_document_def Let_def split: if_splits prod.splits)
    moreover have "on_origin ip_literal origin port crl_url" if "u_scheme origin \<in> {''http'', ''https''}"
      using assms that by (simp add: on_origin_def)
    ultimately have "list_all (\<lambda>cn. on_origin ip_literal origin port (cn_url cn) \<and> connects ip_literal ?pinned (cn_url cn) cn
      \<and> (\<not> fo_follow_redirects opts \<longrightarrow> cn_url cn = crl_url)) log \<and> length log \<le> 5 * length ?pinned"
      using fetch_hops_confined [OF _ _ assms(3,2)] by (force simp: MAX_CRL_REDIRECTS_def)
    then show ?thesis using len by (auto simp: list_all_iff connects_def)
  qed simp
qed

lemma read_document_bound: "read_document m body es = Inr d \<Longrightarrow> length body \<le> m \<Longrightarrow> length d \<le> m"
  by (induction m body es rule: read_document.induct) (auto split: if_splits)

lemma fetch_hops_bound: "fetch_hops ip_literal net opts origin addresses n target = (Inr d, log) \<Longrightarrow> length d \<le> fo_max_bytes opts"
  by (induction ip_literal net opts origin addresses n target arbitrary: log rule: fetch_hops.induct)
    (auto simp: Let_def split: sum.splits if_splits option.splits prod.splits dest: read_document_bound)

lemma fetch_document_bound:
  "fetch_document ip_literal resolve_addresses net opts crl_url = (Fetched (Inr d), log) \<Longrightarrow> length d \<le> fo_max_bytes opts"
  by (auto simp: fetch_document_def Let_def simp del: fetch_hops.simps split: if_splits option.splits prod.splits dest: fetch_hops_bound)

section \<open>A sample retrieval\<close>

definition sample_net :: "nat \<Rightarrow> string \<Rightarrow> string \<Rightarrow> attempt" where
  "sample_net hop target address =
     (if address = ''10.0.0.1'' then SendFails False
      else if target = ''http://pki/ca.crl''
        then Answers \<lparr>ans_status = 301, ans_location = Some ''https://pki/new/../ca2.crl'', ans_timed_out = False, ans_past_deadline = False, ans_reads = []\<rparr>
      else Answers \<lparr>ans_status = 200, ans_location = None, ans_timed_out = False, ans_past_deadline = False,
             ans_reads = [Chunk [48, 1] False, Chunk [2] False]\<rparr>)"

definition sample_origin :: ParseResult where
  "sample_origin = \<lparr>u_scheme = ''http'', u_netloc = ''pki'', u_path = ''/ca.crl'', u_params = [], u_query = [], u_fragment = []\<rparr>"

definition sample_log :: "connection list" where
  "sample_log = (let cn = \<lambda>a p n t. \<lparr>cn_address = a, cn_port = p, cn_server_hostname = n, cn_host_header = ''pki'', cn_url = t\<rparr> in
     [cn ''10.0.0.1'' 80 None ''http://pki/ca.crl'', cn ''10.0.0.2'' 80 None ''http://pki/ca.crl'',
      cn ''10.0.0.1'' 443 (Some ''pki'') ''https://pki/new/../ca2.crl'', cn ''10.0.0.2'' 443 (Some ''pki'') ''https://pki/new/../ca2.crl''])"

lemma sample_fetch:
  "fetch_document (\<lambda>_. True) (\<lambda>_ _. [''10.0.0.1'', ''10.0.0.2'', ''10.0.0.1'']) sample_net
     \<lparr>fo_max_bytes = 10, fo_follow_redirects = True\<rparr> ''http://pki/ca.crl'' = (Fetched (Inr [48, 1, 2]), sample_log)"
  by code_simp

lemma sample_urls:
  "urlparse (\<lambda>_. True) ''http://pki/ca.crl'' = Some sample_origin" "hostname sample_origin = Some ''pki''"
  "effective_port sample_origin = Some (Some 80)"
  by code_simp+

theorem crl_fetch_confined_witness:
  "list_all (\<lambda>cn. cn_address cn \<in> {''10.0.0.1'', ''10.0.0.2''} \<and> on_origin (\<lambda>_. True) sample_origin (Some 80) (cn_url cn)) sample_log"
  using crl_fetch_confined [OF sample_urls sample_fetch] by (auto simp: list_all_iff)

end
