(* ===== verification/CrlEvidence.thy ===== *)
theory CrlEvidence
  imports CrlFetch IssuerRecovery CrlWatermark
begin

text \<open>
  CRL evidence (\<open>fetch_crl_evidence\<close> of \<open>src/src/acme_adcs_ra/crl_evidence.py\<close>): what the RA
  concludes about a serial from the document it retrieved. The X.509 library is a parameter: the
  two loaders and the signature check; a parsed CRL is what reading its fields yields, where an
  extension that does not parse raises.
\<close>

section \<open>Documents and evidence\<close>

datatype crl_reason = remove_from_crl | reason_flag string

record crl_document =
  crl_last_update :: "timestamp option"
  crl_next_update :: "timestamp option"
  crl_number_ext :: "int extension"
  crl_delta_ext :: "int extension"
  crl_entries :: "(int \<times> crl_reason extension) list"

record crl_lib =
  load_der_crl :: "bytes \<Rightarrow> crl_document option"
  load_pem_crl :: "bytes \<Rightarrow> crl_document option"
  is_signature_valid :: "bytes \<Rightarrow> ca_cert \<Rightarrow> bool option"

datatype evidence_detail =
    UrlNotHttp | HostUnresolved | RetrievalFailed fetch_failure | NeitherDerNorPem | IssuerNotInChain | SignatureInvalid
  | NoNextUpdate | CrlExpired | ThisUpdateInFuture | CrlTooOld | DeltaCrl | EvidenceRegressed | RemovedFromCrl
  | SerialListed crl_reason | SerialListedUnspecified | SerialNotListed | StoredSerialNotHex | CheckError string

record CrlEvidence =
  ev_revoked :: bool
  ev_checked :: bool
  ev_detail :: evidence_detail
  ev_crl_number :: "string option"
  ev_this_update :: "timestamp option"
  ev_next_update :: "timestamp option"
  ev_issuer_key :: "string option"
  ev_watermark_verdict :: "watermark_verdict option"
  ev_issuer_missing :: bool

datatype verification = CRL_VERIFIED | AGENT_ASSERTED

definition ev_verification :: "CrlEvidence \<Rightarrow> verification" where
  "ev_verification e = (if ev_checked e \<and> ev_revoked e then CRL_VERIFIED else AGENT_ASSERTED)"

definition ev_regressed :: "CrlEvidence \<Rightarrow> bool" where
  "ev_regressed e \<longleftrightarrow> ev_watermark_verdict e = Some WATERMARK_OLDER"

definition no_evidence :: "evidence_detail \<Rightarrow> CrlEvidence" where
  "no_evidence d = \<lparr>ev_revoked = False, ev_checked = False, ev_detail = d, ev_crl_number = None, ev_this_update = None,
     ev_next_update = None, ev_issuer_key = None, ev_watermark_verdict = None, ev_issuer_missing = False\<rparr>"

section \<open>The document\<close>

definition CLOCK_SKEW :: int where "CLOCK_SKEW = 300000000"

text \<open>A time of the document, which has whole seconds, on the clock's microseconds.\<close>

abbreviation crl_micros :: "timestamp \<Rightarrow> clock" where
  "crl_micros t \<equiv> t * 1000000"

record judge_options =
  jo_max_age :: int
  jo_watermark :: "CrlWatermark option"
  jo_enforce_monotonic :: bool

definition judge_entry ::
  "crl_document \<Rightarrow> int \<Rightarrow> (bool \<Rightarrow> bool \<Rightarrow> evidence_detail \<Rightarrow> CrlEvidence) \<Rightarrow> fault + CrlEvidence" where
  "judge_entry crl serial_number evidence =
     (case map_of (crl_entries crl) serial_number of
        None \<Rightarrow> Inr (evidence False True SerialNotListed)
      | Some ExtensionInvalid \<Rightarrow> Inl (Uncaught ''ValueError'')
      | Some ExtensionNotFound \<Rightarrow> Inr (evidence True True SerialListedUnspecified)
      | Some (Extension r) \<Rightarrow>
          if r = remove_from_crl then Inr (evidence False True RemovedFromCrl)
          else Inr (evidence True True (SerialListed r)))"

definition judge_signed ::
  "judge_options \<Rightarrow> clock \<Rightarrow> int \<Rightarrow> string \<Rightarrow> crl_document \<Rightarrow> fault + CrlEvidence" where
  "judge_signed opts now serial_number issuer_key crl =
     (case crl_next_update crl of
        None \<Rightarrow> Inr ((no_evidence NoNextUpdate)\<lparr>ev_this_update := crl_last_update crl\<rparr>)
      | Some next_update \<Rightarrow>
          let dated = (\<lambda>d. (no_evidence d)\<lparr>ev_this_update := crl_last_update crl, ev_next_update := Some next_update\<rparr>) in
          if crl_micros next_update < now then Inr (dated CrlExpired)
          else if (case crl_last_update crl of None \<Rightarrow> False | Some t \<Rightarrow> crl_micros t > now + CLOCK_SKEW) then Inr (dated ThisUpdateInFuture)
          else if (case crl_last_update crl of None \<Rightarrow> False | Some t \<Rightarrow> now - crl_micros t > jo_max_age opts * 1000000) then Inr (dated CrlTooOld)
          else
            (case crl_number_ext crl of
               ExtensionInvalid \<Rightarrow> Inl (Uncaught ''ValueError'')
             | n \<Rightarrow>
                 let crl_number = (case n of Extension i \<Rightarrow> Some (show_int i) | _ \<Rightarrow> None);
                     numbered = (\<lambda>d. (dated d)\<lparr>ev_crl_number := crl_number, ev_issuer_key := Some issuer_key\<rparr>)
                 in case crl_delta_ext crl of
                      ExtensionInvalid \<Rightarrow> Inl (Uncaught ''ValueError'')
                    | Extension base \<Rightarrow> Inr (numbered DeltaCrl)
                    | ExtensionNotFound \<Rightarrow>
                        let verdict = compare_to_watermark (jo_watermark opts) crl_number (crl_last_update crl) in
                        if verdict = WATERMARK_OLDER \<and> jo_enforce_monotonic opts
                        then Inr ((numbered EvidenceRegressed)\<lparr>ev_watermark_verdict := Some verdict\<rparr>)
                        else judge_entry crl serial_number
                               (\<lambda>revoked checked d. (numbered d)\<lparr>ev_revoked := revoked, ev_checked := checked,
                                  ev_watermark_verdict := Some verdict\<rparr>)))"

definition load_crl :: "crl_lib \<Rightarrow> bytes \<Rightarrow> crl_document option" where
  "load_crl lib body = (case load_der_crl lib body of Some crl \<Rightarrow> Some crl | None \<Rightarrow> load_pem_crl lib body)"

definition judge_document ::
  "pki \<Rightarrow> crl_lib \<Rightarrow> judge_options \<Rightarrow> clock \<Rightarrow> int \<Rightarrow> string \<Rightarrow> string list \<Rightarrow> bytes \<Rightarrow> fault + CrlEvidence" where
  "judge_document p lib opts now serial_number leaf_pem chain_pems body =
     (case load_crl lib body of
        None \<Rightarrow> Inr (no_evidence NeitherDerNorPem)
      | Some crl \<Rightarrow>
          (case issuing_ca_certificate p leaf_pem chain_pems of
             None \<Rightarrow> Inr ((no_evidence IssuerNotInChain)\<lparr>ev_issuer_missing := True\<rparr>)
           | Some ca \<Rightarrow>
               (case is_signature_valid lib body ca of
                  None \<Rightarrow> Inl (Uncaught ''TypeError'')
                | Some False \<Rightarrow> Inr (no_evidence SignatureInvalid)
                | Some True \<Rightarrow> judge_signed opts now serial_number (watermark_key p ca) crl)))"

section \<open>The whole check\<close>

record crl_network =
  cx_ip_literal :: "string \<Rightarrow> bool"
  cx_resolve :: "string \<Rightarrow> nat option \<Rightarrow> string list"
  cx_send :: "nat \<Rightarrow> string \<Rightarrow> string \<Rightarrow> attempt"

definition fetch_crl_evidence ::
  "pki \<Rightarrow> crl_lib \<Rightarrow> crl_network \<Rightarrow> fetch_options \<Rightarrow> judge_options \<Rightarrow> clock \<Rightarrow> string \<Rightarrow> int \<Rightarrow> string \<Rightarrow> string list
     \<Rightarrow> fault + CrlEvidence" where
  "fetch_crl_evidence p lib net fo jo now crl_url serial_number leaf_pem chain_pems =
     (case fst (fetch_document (cx_ip_literal net) (cx_resolve net) (cx_send net) fo crl_url) of
        Raises e \<Rightarrow> Inl (Uncaught e)
      | NotHttpUrl \<Rightarrow> Inr (no_evidence UrlNotHttp)
      | Unresolved \<Rightarrow> Inr (no_evidence HostUnresolved)
      | Fetched (Inl e) \<Rightarrow> Inr (no_evidence (RetrievalFailed e))
      | Fetched (Inr body) \<Rightarrow> judge_document p lib jo now serial_number leaf_pem chain_pems body)"

section \<open>What evidence means\<close>

text \<open>A base CRL in date, within the age ceiling, and not older than the watermark where that is enforced.\<close>

definition current_crl :: "judge_options \<Rightarrow> clock \<Rightarrow> crl_document \<Rightarrow> bool" where
  "current_crl opts now crl \<longleftrightarrow>
     (\<exists>next_update. crl_next_update crl = Some next_update \<and> now \<le> crl_micros next_update)
     \<and> (\<forall>t. crl_last_update crl = Some t \<longrightarrow> crl_micros t \<le> now + CLOCK_SKEW \<and> now - crl_micros t \<le> jo_max_age opts * 1000000)
     \<and> crl_number_ext crl \<noteq> ExtensionInvalid \<and> crl_delta_ext crl = ExtensionNotFound
     \<and> (jo_enforce_monotonic opts \<longrightarrow>
          compare_to_watermark (jo_watermark opts)
            (case crl_number_ext crl of Extension i \<Rightarrow> Some (show_int i) | _ \<Rightarrow> None) (crl_last_update crl) \<noteq> WATERMARK_OLDER)"

definition lists_revoked :: "crl_document \<Rightarrow> int \<Rightarrow> bool" where
  "lists_revoked crl serial_number \<longleftrightarrow>
     map_of (crl_entries crl) serial_number \<notin> {None, Some ExtensionInvalid, Some (Extension remove_from_crl)}"

lemma judge_signed_checked:
  "judge_signed opts now serial_number k crl = Inr ev \<Longrightarrow>
     (ev_checked ev \<longleftrightarrow> current_crl opts now crl) \<and> (ev_revoked ev \<longleftrightarrow> current_crl opts now crl \<and> lists_revoked crl serial_number)"
  by (auto simp: judge_signed_def judge_entry_def current_crl_def lists_revoked_def no_evidence_def Let_def
      split: option.splits extension.splits if_splits)

lemma judge_signed_issuer:
  "judge_signed opts now serial_number k crl = Inr ev \<Longrightarrow> ev_checked ev \<Longrightarrow> ev_issuer_key ev = Some k"
  by (auto simp: judge_signed_def judge_entry_def no_evidence_def Let_def split: option.splits extension.splits if_splits)

lemma judge_document_checked:
  assumes "judge_document p lib opts now serial_number leaf_pem chain_pems body = Inr ev"
  shows "ev_checked ev \<longleftrightarrow> (\<exists>crl ca. load_crl lib body = Some crl \<and> issuing_ca_certificate p leaf_pem chain_pems = Some ca
      \<and> is_signature_valid lib body ca = Some True \<and> current_crl opts now crl)"
    and "ev_revoked ev \<longleftrightarrow> (\<exists>crl ca. load_crl lib body = Some crl \<and> issuing_ca_certificate p leaf_pem chain_pems = Some ca
      \<and> is_signature_valid lib body ca = Some True \<and> current_crl opts now crl \<and> lists_revoked crl serial_number
      \<and> ev_issuer_key ev = Some (watermark_key p ca))"
  using assms
  by (auto simp: judge_document_def no_evidence_def dest: judge_signed_checked judge_signed_issuer split: option.splits bool.splits)

lemma find_issuer_Some:
  "find_issuer p leaf pems = Some ca \<Longrightarrow> signs p ca leaf \<and> ca \<in> chain_certificates p pems"
  by (induction pems) (auto split: option.splits simp: find_Some_iff)

lemma evidence_exact:
  assumes "fetch_crl_evidence p lib net fo jo now crl_url serial_number leaf_pem chain_pems = Inr ev"
  shows "(ev_verification ev = CRL_VERIFIED \<longleftrightarrow> ev_revoked ev)
    \<and> (ev_revoked ev \<longleftrightarrow>
        (\<exists>body crl leaf ca.
           fst (fetch_document (cx_ip_literal net) (cx_resolve net) (cx_send net) fo crl_url) = Fetched (Inr body)
           \<and> length body \<le> fo_max_bytes fo \<and> load_crl lib body = Some crl
           \<and> load_pem_certificate p leaf_pem = Some leaf \<and> issuing_ca_certificate p leaf_pem chain_pems = Some ca
           \<and> signs p ca leaf \<and> ca \<in> chain_certificates p chain_pems
           \<and> is_signature_valid lib body ca = Some True \<and> current_crl jo now crl \<and> lists_revoked crl serial_number
           \<and> ev_issuer_key ev = Some (watermark_key p ca)))"
proof (cases "\<exists>body. fst (fetch_document (cx_ip_literal net) (cx_resolve net) (cx_send net) fo crl_url) = Fetched (Inr body)")
  case False
  then show ?thesis using assms
    by (auto simp: fetch_crl_evidence_def no_evidence_def ev_verification_def split: fetch_start.splits sum.splits)
next
  case True
  then obtain body where body: "fst (fetch_document (cx_ip_literal net) (cx_resolve net) (cx_send net) fo crl_url) = Fetched (Inr body)" by blast
  then have len: "length body \<le> fo_max_bytes fo" by (metis fetch_document_bound prod.collapse)
  have "judge_document p lib jo now serial_number leaf_pem chain_pems body = Inr ev"
    using assms body by (simp add: fetch_crl_evidence_def)
  note c = judge_document_checked [OF this]
  have "\<exists>leaf. load_pem_certificate p leaf_pem = Some leaf \<and> signs p ca leaf \<and> ca \<in> chain_certificates p chain_pems"
    if "issuing_ca_certificate p leaf_pem chain_pems = Some ca" for ca
    using that find_issuer_Some by (auto simp: issuing_ca_certificate_def split: option.splits)
  moreover have "ev_verification ev = CRL_VERIFIED \<longleftrightarrow> ev_revoked ev" using c by (auto simp: ev_verification_def)
  ultimately show ?thesis using body len c(2) by (simp, blast)
qed

text \<open>
  C24. What revocation evidence is worth: the check concludes that a serial is revoked exactly if
  a document was retrieved whole within the byte limit, parses as a CRL, is signed by the
  certificate of the stored chain that signed the leaf, is a base CRL in date, within the age
  ceiling and not behind the watermark where that is enforced, and lists the serial with a reason other
  than removeFromCRL; only then is it recorded as crl-verified, and under that issuer's watermark key.
\<close>

theorem crl_evidence_exact:
  assumes "fetch_crl_evidence p lib net fo jo now crl_url serial_number leaf_pem chain_pems = Inr ev"
  shows "(ev_verification ev = CRL_VERIFIED \<longleftrightarrow> ev_revoked ev)
    \<and> (ev_revoked ev \<longleftrightarrow>
        (\<exists>body crl leaf ca.
           fst (fetch_document (cx_ip_literal net) (cx_resolve net) (cx_send net) fo crl_url) = Fetched (Inr body)
           \<and> length body \<le> fo_max_bytes fo \<and> load_crl lib body = Some crl
           \<and> load_pem_certificate p leaf_pem = Some leaf \<and> issuing_ca_certificate p leaf_pem chain_pems = Some ca
           \<and> signs p ca leaf \<and> ca \<in> chain_certificates p chain_pems
           \<and> is_signature_valid lib body ca = Some True \<and> current_crl jo now crl \<and> lists_revoked crl serial_number
           \<and> ev_issuer_key ev = Some (watermark_key p ca)))"
  using evidence_exact [OF assms] .

section \<open>Replay\<close>

lemma read_advanced:
  "advance_crl_watermark_in_conn now k n t u s = (True, s') \<Longrightarrow>
     read_crl_watermark k s' = Some \<lparr>cw_issuer_key = k, cw_crl_number = n, cw_this_update = Some t\<rparr>"
  by (auto simp: advance_crl_watermark_in_conn_def read_crl_watermark_def find_upsert Let_def split: option.splits if_splits)

text \<open>
  A replayed CRL is not evidence: once the watermark of an issuer has advanced to CRL number
  \<open>n\<close>, a document of that issuer with number \<open>i\<close> is acceptable under that watermark exactly if
  it would have been without one and \<open>i\<close> is not below \<open>n\<close>, whatever its dates; a lower one
  is reported as regressed.
\<close>

theorem crl_replay_refused:
  assumes "advance_crl_watermark_in_conn t0 k (Some (show_int n)) t u s = (True, s')"
    "jo_watermark opts = read_crl_watermark k s'" "jo_enforce_monotonic opts" "crl_number_ext crl = Extension i"
    "judge_signed opts now serial_number k crl = Inr ev"
  shows "(ev_checked ev \<longleftrightarrow> current_crl (opts\<lparr>jo_watermark := None\<rparr>) now crl \<and> n \<le> i)
    \<and> (current_crl (opts\<lparr>jo_watermark := None\<rparr>) now crl \<and> i < n \<longrightarrow> ev_regressed ev \<and> \<not> ev_revoked ev)"
proof -
  have verdict: "compare_to_watermark (jo_watermark opts) (Some (show_int i)) w = verdict_of n i" for w
    by (simp add: assms(2) read_advanced [OF assms(1)] compare_to_watermark_def py_int_show_int)
  have cur: "current_crl opts now crl \<longleftrightarrow> current_crl (opts\<lparr>jo_watermark := None\<rparr>) now crl \<and> n \<le> i"
    using assms(3,4) verdict by (auto simp: current_crl_def verdict_of_def compare_to_watermark_def [of None])
  moreover have "ev_regressed ev" if "current_crl (opts\<lparr>jo_watermark := None\<rparr>) now crl" "i < n"
    using that assms(3-5) verdict
    by (auto simp: judge_signed_def ev_regressed_def current_crl_def verdict_of_def Let_def split: option.splits if_splits)
  ultimately show ?thesis using judge_signed_checked [OF assms(5)] by auto
qed

text \<open>The check raises on a configured URL whose port is out of range, although it is described as never raising.\<close>

lemma crl_url_port_raises:
  "fetch_crl_evidence p lib net fo jo now ''http://pki:99999/ca.crl'' serial_number leaf_pem chain_pems = Inl (Uncaught ''ValueError'')"
proof -
  define u where "u = \<lparr>u_scheme = ''http'', u_netloc = ''pki:99999'', u_path = ''/ca.crl'', u_params = [], u_query = [], u_fragment = []\<rparr>"
  have "plain_url ''http'' ''pki:99999'' ''/ca.crl''" by code_simp
  from urlparse_plain [OF this] have "urlparse ip ''http://pki:99999/ca.crl'' = Some u" for ip by (simp add: u_def)
  moreover have h: "hostinfo ''pki:99999'' = (''pki'', Some ''99999'')" by code_simp
  moreover have "hostname u = Some ''pki''" unfolding u_def by code_simp
  moreover have "digits_value 0 ''99999'' = Some 99999" by simp
  then have "effective_port u = None" by (simp add: effective_port_def url_port_def u_def h)
  moreover have "u_scheme u = ''http''" by (simp add: u_def)
  ultimately show ?thesis by (simp add: fetch_crl_evidence_def fetch_document_def)
qed

section \<open>A sample check\<close>

definition sample_crl :: crl_document where
  "sample_crl = \<lparr>crl_last_update = Some 1000, crl_next_update = Some 5000, crl_number_ext = Extension 7, crl_delta_ext = ExtensionNotFound,
     crl_entries = [(17, Extension (reason_flag ''superseded'')), (18, Extension remove_from_crl)]\<rparr>"

definition sample_lib :: crl_lib where
  "sample_lib = \<lparr>load_der_crl = (\<lambda>b. if b = [48, 1, 2] then Some sample_crl else None), load_pem_crl = (\<lambda>_. None),
     is_signature_valid = (\<lambda>b ca. Some (ca = mid_cert))\<rparr>"

definition sample_network :: crl_network where
  "sample_network = \<lparr>cx_ip_literal = (\<lambda>_. True), cx_resolve = (\<lambda>_ _. [''10.0.0.1'', ''10.0.0.2'', ''10.0.0.1'']), cx_send = sample_net\<rparr>"

definition sample_judge :: judge_options where
  "sample_judge = \<lparr>jo_max_age = 626400, jo_watermark = None, jo_enforce_monotonic = True\<rparr>"

lemma sample_evidence:
  "\<exists>ev. fetch_crl_evidence sample_pki sample_lib sample_network \<lparr>fo_max_bytes = 10, fo_follow_redirects = True\<rparr> sample_judge
     2000000000 ''http://pki/ca.crl'' 17 ''l'' [''m''] = Inr ev \<and> ev_revoked ev"
proof -
  have "issuing_ca_certificate sample_pki ''l'' [''m''] = Some mid_cert" by code_simp
  then show ?thesis
    by (simp add: fetch_crl_evidence_def sample_network_def sample_fetch judge_document_def load_crl_def sample_lib_def sample_crl_def
        judge_signed_def judge_entry_def sample_judge_def CLOCK_SKEW_def Let_def compare_to_watermark_def)
qed

theorem crl_evidence_exact_witness:
  "\<exists>ev. ev_verification ev = CRL_VERIFIED \<and> ev_issuer_key ev = Some (watermark_key sample_pki mid_cert)"
proof -
  obtain ev where ev: "fetch_crl_evidence sample_pki sample_lib sample_network \<lparr>fo_max_bytes = 10, fo_follow_redirects = True\<rparr> sample_judge
     2000000000 ''http://pki/ca.crl'' 17 ''l'' [''m''] = Inr ev" "ev_revoked ev" using sample_evidence by blast
  have "issuing_ca_certificate sample_pki ''l'' [''m''] = Some mid_cert" by code_simp
  with crl_evidence_exact [OF ev(1)] ev(2) show ?thesis by auto
qed

theorem crl_replay_refused_witness:
  "\<exists>s' ev. advance_crl_watermark_in_conn 0 ''k'' (Some (show_int 8)) 1500 None empty_db = (True, s')
     \<and> judge_signed (sample_judge\<lparr>jo_watermark := read_crl_watermark ''k'' s'\<rparr>) 2000000000 17 ''k'' sample_crl = Inr ev
     \<and> ev_regressed ev \<and> \<not> ev_revoked ev"
proof -
  obtain s' where a: "advance_crl_watermark_in_conn 0 ''k'' (Some (show_int 8)) 1500 None empty_db = (True, s')"
    by (simp add: advance_crl_watermark_in_conn_def find_watermark_def empty_db_def)
  let ?opts = "sample_judge\<lparr>jo_watermark := read_crl_watermark ''k'' s'\<rparr>"
  obtain ev where j: "judge_signed ?opts 2000000000 17 ''k'' sample_crl = Inr ev"
    by (cases "judge_signed ?opts 2000000000 17 ''k'' sample_crl")
      (auto simp: judge_signed_def judge_entry_def sample_crl_def sample_judge_def Let_def split: if_splits)
  have "current_crl (?opts\<lparr>jo_watermark := None\<rparr>) 2000000000 sample_crl"
    by (simp add: current_crl_def sample_crl_def sample_judge_def CLOCK_SKEW_def compare_to_watermark_def)
  with crl_replay_refused [OF a, of ?opts sample_crl 7, OF _ _ _ j] a j show ?thesis
    by (simp add: sample_judge_def sample_crl_def)
qed

end
