(* ===== verification/CrlGate.thy ===== *)
theory CrlGate
  imports Prelude
begin

text \<open>
  The gate in front of CRL retrievals (\<open>CrlEvidenceGate\<close> of
  \<open>src/src/acme_adcs_ra/crl_evidence.py\<close>). It runs on one event loop, so its state changes in
  atomic turns: a call of \<open>run\<close> up to its await, the settling of a retrieval, the done-callback
  of a settled retrieval, which runs in a later turn, a change of limits, and \<open>close\<close>. A future is a
  number, new for each submission.
\<close>

section \<open>The gate\<close>

type_synonym future = nat

record gate =
  g_max_workers :: nat
  g_max_pending :: nat
  g_executor :: "nat option"
  g_inflight :: "(string \<times> future) list"
  g_closed :: bool

text \<open>The world around it: the retrievals submitted, with their keys, and those that have settled.\<close>

record loop = gate +
  l_submitted :: "(future \<times> string) list"
  l_settled :: "future list"

datatype run_outcome = GateClosed | GateBusy | Joined future | Started future

definition new_gate :: "nat \<Rightarrow> nat \<Rightarrow> loop" where
  "new_gate max_workers max_pending =
     \<lparr>g_max_workers = max_workers, g_max_pending = max_pending, g_executor = None, g_inflight = [], g_closed = False,
      l_submitted = [], l_settled = []\<rparr>"

definition set_limits :: "nat \<Rightarrow> nat \<Rightarrow> loop \<Rightarrow> loop" where
  "set_limits max_workers max_pending g =
     (let g = g\<lparr>g_max_pending := max_pending\<rparr> in
      if g_executor g = None then g\<lparr>g_max_workers := max_workers\<rparr> else g)"

definition inflight :: "loop \<Rightarrow> nat" where
  "inflight g = length (g_inflight g)"

definition gate_pool :: "loop \<Rightarrow> loop" where
  "gate_pool g = (if g_executor g = None then g\<lparr>g_executor := Some (g_max_workers g)\<rparr> else g)"

definition pop_key :: "string \<Rightarrow> loop \<Rightarrow> loop" where
  "pop_key key g = g\<lparr>g_inflight := filter (\<lambda>e. fst e \<noteq> key) (g_inflight g)\<rparr>"

definition run_gate :: "string \<Rightarrow> loop \<Rightarrow> run_outcome \<times> loop" where
  "run_gate key g =
     (if g_closed g then (GateClosed, g)
      else
        let pending = map_of (g_inflight g) key;
            finished = (case pending of None \<Rightarrow> False | Some f \<Rightarrow> f \<in> set (l_settled g));
            g = (if finished then pop_key key g else g);
            pending = (if finished then None else pending)
        in case pending of
             Some f \<Rightarrow> (Joined f, g)
           | None \<Rightarrow>
               if inflight g \<ge> g_max_pending g then (GateBusy, g)
               else
                 let f = length (l_submitted g); g = gate_pool g
                 in (Started f, g\<lparr>l_submitted := l_submitted g @ [(f, key)], g_inflight := (key, f) # g_inflight g\<rparr>))"

definition settle :: "future \<Rightarrow> loop \<Rightarrow> loop" where
  "settle f g = (if f \<in> set (l_settled g) then g else g\<lparr>l_settled := f # l_settled g\<rparr>)"

text \<open>\<open>_clear\<close>, bound to its key; the entry goes only if it still is this future.\<close>

definition clear :: "string \<Rightarrow> future \<Rightarrow> loop \<Rightarrow> loop" where
  "clear key f g = (if map_of (g_inflight g) key = Some f then pop_key key g else g)"

definition close_gate :: "loop \<Rightarrow> loop" where
  "close_gate g = g\<lparr>g_closed := True, g_executor := None\<rparr>"

text \<open>
  \<open>drain\<close>: at most eight turns, in each of which the callbacks of the retrievals settled so far run.
\<close>

definition DRAIN_MAX_TURNS :: nat where "DRAIN_MAX_TURNS = 8"

definition settled_entries :: "loop \<Rightarrow> (string \<times> future) list" where
  "settled_entries g = filter (\<lambda>e. snd e \<in> set (l_settled g)) (g_inflight g)"

definition loop_turn :: "loop \<Rightarrow> loop" where
  "loop_turn g = fold (\<lambda>e. clear (fst e) (snd e)) (settled_entries g) g"

fun drain_turns :: "nat \<Rightarrow> loop \<Rightarrow> loop" where
  "drain_turns 0 g = g"
| "drain_turns (Suc n) g = (if settled_entries g = [] then g else drain_turns n (loop_turn g))"

definition drain :: "loop \<Rightarrow> loop" where
  "drain g = drain_turns DRAIN_MAX_TURNS g"

section \<open>Interleavings\<close>

inductive gate_step :: "loop \<Rightarrow> loop \<Rightarrow> bool" where
  Run: "gate_step g (snd (run_gate key g))"
| Settle: "f \<in> fst ` set (l_submitted g) \<Longrightarrow> gate_step g (settle f g)"
| Callback: "(f, key) \<in> set (l_submitted g) \<Longrightarrow> f \<in> set (l_settled g) \<Longrightarrow> gate_step g (clear key f g)"
| Close: "gate_step g (close_gate g)"

inductive_cases gate_stepE: "gate_step g g'"

definition live_flights :: "loop \<Rightarrow> (future \<times> string) list" where
  "live_flights g = filter (\<lambda>e. fst e \<notin> set (l_settled g)) (l_submitted g)"

definition gate_inv :: "loop \<Rightarrow> bool" where
  "gate_inv g \<longleftrightarrow>
     distinct (map fst (g_inflight g)) \<and> length (g_inflight g) \<le> g_max_pending g
     \<and> (\<forall>(key, f) \<in> set (g_inflight g). (f, key) \<in> set (l_submitted g))
     \<and> map fst (l_submitted g) = [0..<length (l_submitted g)]
     \<and> (\<forall>(f, key) \<in> set (live_flights g). (key, f) \<in> set (g_inflight g))"

lemma gate_inv_new: "gate_inv (new_gate w m)"
  by (simp add: gate_inv_def new_gate_def live_flights_def)

lemma gate_frames [simp]:
  "l_submitted (pop_key key g) = l_submitted g" "l_settled (pop_key key g) = l_settled g" "g_max_pending (pop_key key g) = g_max_pending g"
  "l_submitted (gate_pool g) = l_submitted g" "l_settled (gate_pool g) = l_settled g" "g_max_pending (gate_pool g) = g_max_pending g"
  "g_inflight (gate_pool g) = g_inflight g"
  "g_inflight (pop_key key g) = filter (\<lambda>e. fst e \<noteq> key) (g_inflight g)"
  by (simp_all add: pop_key_def gate_pool_def)

lemma distinct_filter_fst: "distinct (map fst xs) \<Longrightarrow> distinct (map fst (filter P xs))"
  by (induction xs) (auto simp: image_iff)

lemma gate_inv_pop:
  assumes "gate_inv g" "map_of (g_inflight g) key = Some f" "f \<in> set (l_settled g)"
  shows "gate_inv (pop_key key g)" "length (g_inflight (pop_key key g)) < length (g_inflight g)"
proof -
  have only: "f' = f" if "(key, f') \<in> set (g_inflight g)" for f'
    using assms(1,2) that by (auto simp: gate_inv_def dest: map_of_is_SomeI)
  show "length (g_inflight (pop_key key g)) < length (g_inflight g)"
    using map_of_SomeD [OF assms(2)] by (auto intro!: length_filter_less)
  show "gate_inv (pop_key key g)"
    using assms(1,3) only unfolding gate_inv_def live_flights_def
    by (auto simp: distinct_filter_fst intro: le_trans [OF length_filter_le])
qed

lemma gate_inv_start:
  assumes "gate_inv g" "map_of (g_inflight g) key = None" "length (g_inflight g) < g_max_pending g"
  shows "gate_inv ((gate_pool g)\<lparr>l_submitted := l_submitted g @ [(length (l_submitted g), key)],
    g_inflight := (key, length (l_submitted g)) # g_inflight g\<rparr>)"
  using assms by (auto simp: gate_inv_def live_flights_def map_of_eq_None_iff)

lemma gate_inv_run:
  assumes "gate_inv g"
  shows "gate_inv (snd (run_gate key g))"
proof (cases "\<exists>f. map_of (g_inflight g) key = Some f \<and> f \<in> set (l_settled g)")
  case True
  then obtain f where f: "map_of (g_inflight g) key = Some f" "f \<in> set (l_settled g)" by blast
  note pop = gate_inv_pop [OF assms f]
  have "map_of (g_inflight (pop_key key g)) key = None" by (auto simp: map_of_eq_None_iff)
  then show ?thesis using assms f pop gate_inv_start [OF pop(1)]
    by (auto simp: run_gate_def Let_def inflight_def)
next
  case False
  then show ?thesis using assms gate_inv_start [OF assms]
    by (auto simp: run_gate_def Let_def inflight_def split: option.splits)
qed

lemma gate_inv_step: "gate_step g g' \<Longrightarrow> gate_inv g \<Longrightarrow> gate_inv g'"
proof (erule gate_stepE)
  fix key assume "gate_inv g" "g' = snd (run_gate key g)"
  then show ?thesis by (simp add: gate_inv_run)
next
  fix f assume "gate_inv g" "g' = settle f g"
  then show ?thesis by (auto simp: gate_inv_def live_flights_def settle_def)
next
  fix f key assume "gate_inv g" "g' = clear key f g" "f \<in> set (l_settled g)"
  then show ?thesis using gate_inv_pop by (auto simp: clear_def)
next
  assume "gate_inv g" "g' = close_gate g"
  then show ?thesis by (auto simp: gate_inv_def live_flights_def close_gate_def)
qed

lemma gate_inv_reachable: "gate_step\<^sup>*\<^sup>* (new_gate w m) g \<Longrightarrow> gate_inv g"
  by (induction rule: rtranclp_induct) (auto intro: gate_inv_step gate_inv_new)

lemma step_max_pending: "gate_step g g' \<Longrightarrow> g_max_pending g' = g_max_pending g"
  by (erule gate_stepE) (auto simp: run_gate_def settle_def clear_def close_gate_def Let_def split: option.splits)

lemma reachable_max_pending: "gate_step\<^sup>*\<^sup>* g g' \<Longrightarrow> g_max_pending g' = g_max_pending g"
  by (induction rule: rtranclp_induct) (auto dest: step_max_pending)

section \<open>Single flight and admission\<close>

lemma distinct_of_map: "distinct (map f xs) \<Longrightarrow> distinct xs"
  by (simp add: distinct_map)

lemma live_inflight: "gate_inv g \<Longrightarrow> (\<lambda>(f, key). (key, f)) ` set (live_flights g) \<subseteq> set (g_inflight g)"
  by (auto simp: gate_inv_def)

lemma live_distinct: "gate_inv g \<Longrightarrow> distinct (map fst (live_flights g))"
  unfolding live_flights_def gate_inv_def by (metis distinct_filter_fst distinct_upt)

lemma live_length:
  assumes "gate_inv g"
  shows "length (live_flights g) \<le> length (g_inflight g)"
proof -
  have "length (live_flights g) = card (set (live_flights g))"
    using distinct_of_map [OF live_distinct [OF assms]] by (simp add: distinct_card)
  also have "\<dots> = card ((\<lambda>(f, key). (key, f)) ` set (live_flights g))" by (rule card_image [symmetric]) (auto simp: inj_on_def)
  also have "\<dots> \<le> card (set (g_inflight g))" using live_inflight [OF assms] by (simp add: card_mono)
  also have "\<dots> \<le> length (g_inflight g)" by (rule card_length)
  finally show ?thesis .
qed

lemma live_pending:
  assumes "gate_inv g"
  shows "(f, key) \<in> set (live_flights g) \<longleftrightarrow> map_of (g_inflight g) key = Some f \<and> f \<notin> set (l_settled g)"
  using assms by (auto simp: gate_inv_def live_flights_def dest: map_of_SomeD)

lemma live_keys: "gate_inv g \<Longrightarrow> distinct (map snd (live_flights g))"
  unfolding distinct_map
proof
  assume inv: "gate_inv g"
  then show "distinct (live_flights g)" using live_distinct distinct_of_map by blast
  have "f = f'" if "(f, key) \<in> set (live_flights g)" "(f', key) \<in> set (live_flights g)" for f f' key
    using that by (simp add: live_pending [OF inv])
  then show "inj_on snd (set (live_flights g))" by (auto simp: inj_on_def)
qed

text \<open>
  C26. Single flight and admission control hold under every interleaving of callers, completions,
  late done-callbacks and \<open>close\<close>: no key ever has two retrievals running, at most \<open>m\<close>
  retrievals run or wait, and a call joins the running retrieval of its key if there is one, never
  a finished one, is shed only if there is none and the gate is full, and otherwise starts one.
\<close>

theorem crl_gate_single_flight:
  assumes "gate_step\<^sup>*\<^sup>* (new_gate w m) g"
  shows "distinct (map snd (live_flights g)) \<and> length (live_flights g) \<le> m
    \<and> (case fst (run_gate key g) of
         GateClosed \<Rightarrow> g_closed g
       | Joined f \<Rightarrow> (f, key) \<in> set (live_flights g)
       | GateBusy \<Rightarrow> key \<notin> snd ` set (live_flights g) \<and> m \<le> inflight g
       | Started f \<Rightarrow> key \<notin> snd ` set (live_flights g) \<and> f \<notin> fst ` set (l_submitted g))"
proof -
  have inv: "gate_inv g" using assms by (rule gate_inv_reachable)
  have m: "g_max_pending g = m" using reachable_max_pending [OF assms] by (simp add: new_gate_def)
  have "length (live_flights g) \<le> m" using live_length [OF inv] inv m by (simp add: gate_inv_def)
  moreover have "length (l_submitted g) \<notin> fst ` set (l_submitted g)"
    using inv unfolding gate_inv_def by (metis atLeastLessThan_iff less_irrefl list.set_map set_upt)
  moreover have "key \<notin> snd ` set (live_flights g)" if "\<And>f. (f, key) \<notin> set (live_flights g)" using that by auto
  ultimately show ?thesis using live_keys [OF inv] m
    by (auto simp: run_gate_def Let_def inflight_def live_pending [OF inv] split: option.splits elim: order_trans [OF _ length_filter_le])
qed

section \<open>Draining\<close>

lemma clear_inflight:
  "distinct (map fst (g_inflight g)) \<Longrightarrow> g_inflight (clear key f g) = filter (\<lambda>e. e \<noteq> (key, f)) (g_inflight g)"
  using map_of_eq_Some_iff [of "g_inflight g" key f] eq_key_imp_eq_value [of "g_inflight g" key]
  by (force simp: clear_def intro!: filter_cong filter_True [symmetric])

lemma clear_frames [simp]: "l_submitted (clear key f g) = l_submitted g" "l_settled (clear key f g) = l_settled g"
  "g_max_pending (clear key f g) = g_max_pending g"
  by (simp_all add: clear_def)

lemma fold_clear:
  "distinct (map fst (g_inflight g)) \<Longrightarrow>
     g_inflight (fold (\<lambda>e. clear (fst e) (snd e)) es g) = filter (\<lambda>e. e \<notin> set es) (g_inflight g)
     \<and> l_submitted (fold (\<lambda>e. clear (fst e) (snd e)) es g) = l_submitted g
     \<and> l_settled (fold (\<lambda>e. clear (fst e) (snd e)) es g) = l_settled g
     \<and> g_max_pending (fold (\<lambda>e. clear (fst e) (snd e)) es g) = g_max_pending g"
proof (induction es arbitrary: g)
  case (Cons e es)
  have "distinct (map fst (g_inflight (clear (fst e) (snd e) g)))"
    by (simp add: clear_inflight [OF Cons.prems] distinct_filter_fst [OF Cons.prems])
  from Cons.IH [OF this] show ?case by (auto simp: clear_inflight [OF Cons.prems] intro!: filter_cong)
qed simp

lemma loop_turn_inflight:
  assumes "distinct (map fst (g_inflight g))"
  shows "g_inflight (loop_turn g) = filter (\<lambda>e. snd e \<notin> set (l_settled g)) (g_inflight g)"
    "l_submitted (loop_turn g) = l_submitted g" "l_settled (loop_turn g) = l_settled g"
    "g_max_pending (loop_turn g) = g_max_pending g"
  using fold_clear [OF assms, of "settled_entries g"]
  by (auto simp: loop_turn_def settled_entries_def intro!: filter_cong)

text \<open>
  Draining ends with the bookkeeping caught up: in every reachable state \<open>drain\<close> leaves
  exactly the running retrievals counted as in flight, so none of them is lost and no finished one
  is held against the admission limit.
\<close>

theorem crl_gate_drain:
  assumes "gate_step\<^sup>*\<^sup>* (new_gate w m) g"
  shows "inflight (drain g) = length (live_flights g) \<and> live_flights (drain g) = live_flights g"
proof -
  have inv: "gate_inv g" using assms by (rule gate_inv_reachable)
  then have d: "distinct (map fst (g_inflight g))" by (simp add: gate_inv_def)
  have "inflight g' = length (live_flights g')" if g': "gate_inv g'" "settled_entries g' = []" for g'
  proof -
    have "set (g_inflight g') \<subseteq> (\<lambda>(f, key). (key, f)) ` set (live_flights g')"
      using g' by (force simp: gate_inv_def settled_entries_def live_flights_def filter_empty_conv)
    with live_inflight [OF g'(1)] have "set (g_inflight g') = (\<lambda>(f, key). (key, f)) ` set (live_flights g')" by blast
    then have "card (set (g_inflight g')) = card (set (live_flights g'))" by (simp add: card_image inj_on_def split_beta prod_eq_iff)
    moreover have "distinct (g_inflight g')" "distinct (live_flights g')"
      using g'(1) live_distinct [OF g'(1)] by (auto simp: gate_inv_def intro: distinct_of_map)
    ultimately show ?thesis by (simp add: inflight_def distinct_card)
  qed
  moreover have "settled_entries (loop_turn g) = []" "live_flights (loop_turn g) = live_flights g"
    using loop_turn_inflight [OF d] by (simp_all add: settled_entries_def live_flights_def)
  moreover have "gate_inv (loop_turn g)"
    using inv loop_turn_inflight [OF d] by (auto simp: gate_inv_def live_flights_def distinct_filter_fst intro: le_trans [OF length_filter_le])
  moreover have "drain g = (if settled_entries g = [] then g else loop_turn g)"
    using calculation(2) by (simp add: drain_def DRAIN_MAX_TURNS_def eval_nat_numeral)
  ultimately show ?thesis using inv by simp
qed

section \<open>A sample run\<close>

text \<open>A retrieval settles, a second caller replaces it before its callback runs, and the callback comes late.\<close>

definition sample_loop :: loop where
  "sample_loop = clear ''17'' 0 (snd (run_gate ''17'' (settle 0 (snd (run_gate ''17'' (new_gate 2 4))))))"

lemma sample_reachable: "gate_step\<^sup>*\<^sup>* (new_gate 2 4) sample_loop"
proof -
  let ?g1 = "snd (run_gate ''17'' (new_gate 2 4))" and ?g2 = "settle 0 (snd (run_gate ''17'' (new_gate 2 4)))"
  let ?g3 = "snd (run_gate ''17'' (settle 0 (snd (run_gate ''17'' (new_gate 2 4)))))"
  have "gate_step (new_gate 2 4) ?g1" by (rule Run)
  moreover have "gate_step ?g1 ?g2" by (rule Settle) code_simp
  moreover have "gate_step ?g2 ?g3" by (rule Run)
  moreover have "gate_step ?g3 sample_loop" unfolding sample_loop_def by (rule Callback; code_simp)
  ultimately show ?thesis by (meson converse_rtranclp_into_rtranclp rtranclp.rtrancl_refl)
qed

theorem crl_gate_single_flight_witness: "fst (run_gate ''17'' sample_loop) = Joined 1 \<and> (1, ''17'') \<in> set (live_flights sample_loop)"
proof -
  have "fst (run_gate ''17'' sample_loop) = Joined 1" by code_simp
  with crl_gate_single_flight [OF sample_reachable, of "''17''"] show ?thesis by simp
qed

theorem crl_gate_drain_witness: "inflight (drain sample_loop) = 1"
proof -
  have "length (live_flights sample_loop) = 1" by code_simp
  with crl_gate_drain [OF sample_reachable] show ?thesis by simp
qed

end
