(* ===== verification/AdminRoutes.thy ===== *)
theory AdminRoutes
  imports OrderRoutes CrlEvidence CrlGate
begin

text \<open>
  The administrative routes (\<open>src/src/acme_adcs_ra/routes/admin.py\<close>): maintenance, the
  reclaim of orders stuck in processing, the revocation feed and the confirmation of CA-side
  revocations. A string of the model has code points below 256, so the \<open>Authorization\<close> header
  is its octets. A reclaim is a decision and a commit, a confirmation a check, the gathering of evidence and
  a commit; other requests may run between them. Whether the evidence gate sheds the call is an
  argument. The prose of details is the parameter \<open>ee_prose\<close>; ages are recorded in whole
  seconds.
\<close>

section \<open>Credentials\<close>

record admin_request =
  aq_request :: request
  aq_authorization :: string

definition latin1 :: "string \<Rightarrow> bytes" where
  "latin1 s = map of_char s"

definition utf8 :: "string \<Rightarrow> bytes" where
  "utf8 s = concat (map (\<lambda>c. let n = (of_char c :: nat) in if n < 128 then [n] else [192 + n div 64, 128 + n mod 64]) s)"

definition bearer_token :: "admin_request \<Rightarrow> AcmeError + bytes" where
  "bearer_token rq =
     (if \<not> prefix ''Bearer '' (aq_authorization rq) then Inl unauthorized else Inr (latin1 (drop 7 (aq_authorization rq))))"

definition configured_token_bytes :: "string \<Rightarrow> bytes" where
  "configured_token_bytes configured = utf8 configured"

definition require_admin_token :: "config \<Rightarrow> admin_request \<Rightarrow> unit handler" where
  "require_admin_token cfg rq =
     (if admin_token cfg = [] then raising unauthorized
      else hbind (lift (bearer_token rq)) (\<lambda>t.
        if t \<noteq> configured_token_bytes (admin_token cfg) then raising unauthorized else ret ()))"

definition require_revocation_authority :: "config \<Rightarrow> admin_request \<Rightarrow> unit handler" where
  "require_revocation_authority cfg rq =
     hbind (lift (bearer_token rq)) (\<lambda>provided.
       if list_ex (\<lambda>candidate. candidate \<noteq> [] \<and> provided = configured_token_bytes candidate)
            [revocation_confirm_token cfg, admin_token cfg]
       then ret () else raising unauthorized)"

definition require_revocation_confirm_token :: "config \<Rightarrow> admin_request \<Rightarrow> unit handler" where
  "require_revocation_confirm_token cfg rq =
     (if revocation_confirm_token cfg = [] then raising unauthorized
      else hbind (lift (bearer_token rq)) (\<lambda>t.
        if t \<noteq> configured_token_bytes (revocation_confirm_token cfg) then raising unauthorized else ret ()))"

section \<open>Maintenance\<close>

definition cleanup_nonces_route :: "env \<Rightarrow> config \<Rightarrow> admin_request \<Rightarrow> response handler" where
  "cleanup_nonces_route en cfg rq =
     hbind (require_admin_token cfg rq) (\<lambda>_.
     hbind (on_db (cleanup_expired_nonces (en_now en))) (\<lambda>deleted.
     hbind (if deleted > 0 then audited en (audit_ev ''admin-nonce-cleanup'' None None ''success'' [(''deleted'', JInt (int deleted))])
            else ret ()) (\<lambda>_.
     ret (json_response 200 (JObj [(''deleted'', JInt (int deleted))])))))"

definition sweep_orders_route :: "env \<Rightarrow> config \<Rightarrow> admin_request \<Rightarrow> response handler" where
  "sweep_orders_route en cfg rq =
     hbind (require_admin_token cfg rq) (\<lambda>_.
     hbind (on_db (sweep_expired_orders (en_now en))) (\<lambda>invalidated.
     hbind (if invalidated > 0
            then audited en (audit_ev ''admin-expired-order-sweep'' None None ''success'' [(''invalidated'', JInt (int invalidated))])
            else ret ()) (\<lambda>_.
     ret (json_response 200 (JObj [(''invalidated'', JInt (int invalidated))])))))"

definition order_to_admin_json :: "OrderRow \<Rightarrow> details" where
  "order_to_admin_json order =
     [(''id'', JStr (ord_id order)), (''account_id'', JStr (ord_account_id order)),
      (''status'', JStr (order_status_text (ord_status order))), (''expires'', JInt (ord_expires order)),
      (''created_at'', JInt (ord_created_at order)), (''updated_at'', JInt (ord_updated_at order))]
     @ (case ord_processing_started_at order of None \<Rightarrow> [] | Some t \<Rightarrow> [(''processing_started_at'', JInt t)])"

definition order_status_of :: "string \<Rightarrow> OrderStatus option" where
  "order_status_of text = find (\<lambda>st. order_status_text st = text) [PROCESSING, VALID, INVALID, READY, PENDING, REVOKED]"

definition list_orders_route :: "env \<Rightarrow> config \<Rightarrow> admin_request \<Rightarrow> string \<Rightarrow> int \<Rightarrow> response handler" where
  "list_orders_route en cfg rq status limit =
     hbind (require_admin_token cfg rq) (\<lambda>_.
       case order_status_of status of
         None \<Rightarrow> raising malformed
       | Some st \<Rightarrow>
           if \<not> (1 \<le> limit \<and> limit \<le> 500) then raising malformed
           else (\<lambda>sv.
             let found = list_orders_by_status st (nat limit) (sv_db sv) in
             hbind (audited en (audit_ev ''admin-list-orders'' None None ''success''
                [(''reason_code'', JStr ''read-only-list''), (''status'', JStr status), (''limit'', JInt limit),
                 (''returned'', JInt (int (length found)))])) (\<lambda>_.
             ret (json_response 200 (JObj [(''orders'', JList (map (\<lambda>r. JObj (order_to_admin_json r)) found))]))) sv))"

section \<open>Reclaiming an order\<close>

definition reclaim_denied :: "env \<Rightarrow> OrderRow \<Rightarrow> string \<Rightarrow> details \<Rightarrow> 'a handler" where
  "reclaim_denied en order code extra =
     hbind (audited en (audit_ev ''admin-order-reclaim-denied'' (Some (ord_account_id order)) (Some (ord_id order)) ''failed''
        ([(''reason'', JStr code), (''reason_code'', JStr code)] @ extra))) (\<lambda>_. raising malformed)"

datatype reclaim_decision = NotProcessing OrderRow | Reclaim OrderRow "string option"

text \<open>A pending CA request that has an identifier.\<close>

definition pending_request :: "OrderRow \<Rightarrow> string option" where
  "pending_request order = (case ord_pending_ca_request_id order of None \<Rightarrow> None | Some req \<Rightarrow> if req = [] then None else Some req)"

definition reclaim_target :: "env \<Rightarrow> config \<Rightarrow> OrderRow \<Rightarrow> bool \<Rightarrow> reclaim_decision handler" where
  "reclaim_target en cfg order ca_verified_no_issuance sv =
     (case get_certificate_by_order (ord_id order) (sv_db sv) of
        Some existing_cert \<Rightarrow> ret (Reclaim order (Some (certificate_url cfg (cert_id existing_cert)))) sv
      | None \<Rightarrow>
          if \<not> ca_verified_no_issuance then reclaim_denied en order ''ca-verification-not-asserted'' [] sv
          else ret (Reclaim order None) sv)"

definition reclaim_decide ::
  "env \<Rightarrow> config \<Rightarrow> admin_request \<Rightarrow> string \<Rightarrow> bool \<Rightarrow> string \<Rightarrow> reclaim_decision handler" where
  "reclaim_decide en cfg rq order_id ca_verified_no_issuance ca_request_resolved =
     hbind (require_admin_token cfg rq) (\<lambda>_ sv.
       case get_order order_id (sv_db sv) of
         None \<Rightarrow>
           hbind (audited en (audit_ev ''admin-order-reclaim-not-found'' None None ''failed''
             [(''reason'', JStr ''order-not-found''), (''reason_code'', JStr ''order-not-found''), (''sample_order_id'', JStr order_id)]))
             (\<lambda>_. raising not_found) sv
       | Some order \<Rightarrow>
           if ord_status order \<noteq> PROCESSING then
             hbind (audited en (audit_ev ''admin-order-reclaim-noop'' (Some (ord_account_id order)) (Some order_id) ''noop''
               [(''reason'', JStr ''not-processing''), (''reason_code'', JStr ''not-processing''),
                (''order_status'', JStr (order_status_text (ord_status order)))])) (\<lambda>_. ret (NotProcessing order)) sv
           else if is_active order_id sv then reclaim_denied en order ''enrollment-in-flight'' [] sv
           else
             let age = processing_age_seconds (en_now en) order_id (sv_db sv);
                 minimum = reclaim_minimum_processing_age_seconds cfg in
             if (case age of None \<Rightarrow> False | Some a \<Rightarrow> a < int minimum * 1000000) then
               reclaim_denied en order ''still-within-enrollment-window''
                 [(''processing_age_seconds'', JInt (the age div 1000000)), (''minimum_seconds'', JInt (int minimum))] sv
             else if (case pending_request order of None \<Rightarrow> False | Some req \<Rightarrow> ca_request_resolved \<noteq> req) then
               reclaim_denied en order ''ca-request-pending''
                 [(''pending_ca_request_id'', JStr (the (pending_request order))), (''asserted'', JStr ca_request_resolved)] sv
             else reclaim_target en cfg order ca_verified_no_issuance sv)"

definition opt_json :: "string option \<Rightarrow> json" where
  "opt_json v = (case v of None \<Rightarrow> JNull | Some s \<Rightarrow> JStr s)"

definition reclaim_commit :: "env \<Rightarrow> bool \<Rightarrow> OrderRow \<Rightarrow> string option \<Rightarrow> response handler" where
  "reclaim_commit en ca_verified_no_issuance order target =
     hbind (on_db (reclaim_processing_order (en_ext en) (en_now en) (ord_id order) target (Some (ord_processing_generation order))
        (pending_request order)
        (audit_ev ''admin-order-reclaimed'' (Some (ord_account_id order)) None ''success''
          [(''new_status'', JStr (order_status_text (if target = None then READY else VALID))), (''had_certificate'', JBool (target \<noteq> None)),
           (''ca_verified_no_issuance'', JBool ca_verified_no_issuance), (''ca_request_resolved'', opt_json (pending_request order))])))
       (\<lambda>(applied, event).
         hbind (refresh_order_or_500 (ord_id order)) (\<lambda>refreshed.
         hbind (if applied then ret ()
                else audited en (audit_ev ''admin-order-reclaim-denied'' (Some (ord_account_id order)) (Some (ord_id order)) ''failed''
                  [(''reason'', JStr ''lost-race''), (''reason_code'', JStr ''lost-race''),
                   (''current_status'', JStr (order_status_text (ord_status refreshed)))])) (\<lambda>_.
         ret (json_response 200 (JObj (order_to_json refreshed))))))"

definition reclaim_route ::
  "env \<Rightarrow> config \<Rightarrow> admin_request \<Rightarrow> string \<Rightarrow> bool \<Rightarrow> string \<Rightarrow> response handler" where
  "reclaim_route en cfg rq order_id ca_verified_no_issuance ca_request_resolved =
     hbind (reclaim_decide en cfg rq order_id ca_verified_no_issuance ca_request_resolved) (\<lambda>decision.
       case decision of
         NotProcessing order \<Rightarrow> ret (json_response 200 (JObj (order_to_json order)))
       | Reclaim order target \<Rightarrow> reclaim_commit en ca_verified_no_issuance order target)"

section \<open>The revocation feed\<close>

definition ISSUER_EVIDENCE_RECOVERY_ACTION :: string where
  "ISSUER_EVIDENCE_RECOVERY_ACTION =
     ''the RA holds this certificate but not the CA certificate that signed it, so no CRL signature can be verified for it. ''
     @ ''Recovery runs automatically on the next confirmation attempt, once revocation_confirm_crl_url is set and one of the newest ''
     @ ''stored chains carries the issuing CA certificate; until then, reconcile it at the CA by ReqID.''"

definition LEAFLESS_RECOVERY_ACTION :: string where
  "LEAFLESS_RECOVERY_ACTION =
     ''the CA issued this certificate but the RA never received its bytes, so there is no store row and no serial. ''
     @ ''It cannot be revoked by the sync agent: revoke it by ReqID at the CA by hand.''"

definition LEAFLESS_SCAN_LIMIT :: nat where "LEAFLESS_SCAN_LIMIT = 500"

text \<open>\<open>details.get(a) or details.get(b) or ''\<close>.\<close>

definition first_truthy :: "details \<Rightarrow> string list \<Rightarrow> json" where
  "first_truthy d ks = (case filter truthy (List.map_filter (map_of d) ks) of [] \<Rightarrow> JStr [] | v # _ \<Rightarrow> v)"

definition leafless_incident :: "AuditRow \<Rightarrow> json" where
  "leafless_incident event =
     JObj [(''req_id'', first_truthy (aud_details event) [''req_id'']), (''order_id'', opt_json (aud_order_id event)),
       (''observed_at'', JInt (aud_timestamp event)), (''reason'', first_truthy (aud_details event) [''reason'', ''quarantine_error'']),
       (''error'', first_truthy (aud_details event) [''error'']), (''recovery_action'', JStr LEAFLESS_RECOVERY_ACTION)]"

definition leafless_orphan_incidents :: "nat \<Rightarrow> db \<Rightarrow> json list \<times> bool" where
  "leafless_orphan_incidents limit s =
     (let events = list_audit_events None (Some ''finalize-enrollment-transport-orphan'') LEAFLESS_SCAN_LIMIT s;
          incidents = map leafless_incident
            (filter (\<lambda>event. map_of (aud_details event) ''quarantined'' = Some (JBool False)) events)
      in (take limit incidents, length events \<ge> LEAFLESS_SCAN_LIMIT \<or> length incidents > limit))"

definition cert_status_text :: "CertStatus \<Rightarrow> string" where
  "cert_status_text st = (case st of CertVALID \<Rightarrow> ''valid'' | CertREVOKED \<Rightarrow> ''revoked'' | CertQUARANTINED \<Rightarrow> ''quarantined'')"

definition pending_entry :: "CertRow \<Rightarrow> json option" where
  "pending_entry cert =
     (case cert_serial cert of
        None \<Rightarrow> None
      | Some ser \<Rightarrow>
          Some (JObj ([(''serial'', JStr ser), (''req_id'', JStr (case map_of (cert_metadata cert) ''req_id'' of None \<Rightarrow> [] | Some v \<Rightarrow> v)),
            (''reason'', case cert_revocation_reason cert of None \<Rightarrow> JNull | Some n \<Rightarrow> JInt n),
            (''revoked_at'', case cert_revoked_at cert of None \<Rightarrow> JNull | Some t \<Rightarrow> JInt t),
            (''status'', JStr (cert_status_text (cert_status cert)))]
            @ (if cert_chain_pem cert = []
               then [(''issuer_evidence'', JStr ''missing''), (''blocked_reason'', JStr ''issuer-evidence-missing''),
                     (''recovery_action'', JStr ISSUER_EVIDENCE_RECOVERY_ACTION)]
               else []))))"

definition list_pending_revocations :: "env \<Rightarrow> config \<Rightarrow> admin_request \<Rightarrow> int \<Rightarrow> response handler" where
  "list_pending_revocations en cfg rq limit =
     hbind (require_revocation_authority cfg rq) (\<lambda>_.
       if \<not> (1 \<le> limit \<and> limit \<le> 500) then raising malformed
       else (\<lambda>sv.
         let pending = List.map_filter pending_entry (list_revoked_certificates (nat limit) (sv_db sv));
             (leafless, truncated) = leafless_orphan_incidents (nat limit) (sv_db sv) in
         hbind (if pending \<noteq> []
                then audited en (audit_ev ''admin-list-pending-revocations'' None None ''success''
                  [(''returned'', JInt (int (length pending))), (''reason_code'', JStr ''pending-revocations-listed'')])
                else ret ()) (\<lambda>_.
         ret (json_response 200 (JObj [(''pending_revocations'', JList pending), (''leafless_incidents'', JList leafless),
           (''leafless_incidents_truncated'', JBool truncated)]))) sv))"

section \<open>Evidence for a confirmation\<close>

record evidence_env =
  ee_pki :: pki
  ee_lib :: crl_lib
  ee_net :: crl_network
  ee_net_again :: crl_network
  ee_fetch :: fetch_options
  ee_max_age :: int
  ee_prose :: "evidence_detail \<Rightarrow> string"
  ee_recovery_prose :: "recovery_detail \<Rightarrow> string"

definition ser_json :: "CertRow \<Rightarrow> json" where
  "ser_json cert = opt_json (cert_serial cert)"

definition recover_issuer_evidence :: "evidence_env \<Rightarrow> env \<Rightarrow> CertRow \<Rightarrow> CertRow handler" where
  "recover_issuer_evidence ee en cert sv =
     (if cert_chain_pem cert \<noteq> [] then ret cert sv
      else
        let outcome = recover_issuer_chain (ee_pki ee) DEFAULT_MAX_ROWS DEFAULT_MAX_CANDIDATES (cert_pem cert)
              (list_certificate_chains (DEFAULT_MAX_ROWS + 1) (sv_db sv)) in
        if \<not> recovered outcome then
          hbind (audited en (audit_ev ''revocation-issuer-evidence-recovery'' (Some (cert_account_id cert)) (Some (cert_order_id cert)) ''failed''
            [(''certificate_id'', JStr (cert_id cert)), (''serial'', ser_json cert), (''reason_code'', JStr ''issuer-evidence-missing''),
             (''detail'', JStr (ee_recovery_prose ee (ro_detail outcome))), (''chains_scanned'', JInt (int (ro_rows_scanned outcome))),
             (''candidates_considered'', JInt (int (ro_candidates outcome))), (''scan_truncated'', JBool (ro_truncated outcome)),
             (''recovery_action'', JStr ISSUER_EVIDENCE_RECOVERY_ACTION)])) (\<lambda>_. ret cert) sv
        else
          hbind (on_db (attach_recovered_chain_with_audit (en_ext en) (en_now en) (cert_id cert) (ro_chain_pem outcome)
            (audit_ev ''revocation-issuer-evidence-recovered'' (Some (cert_account_id cert)) (Some (cert_order_id cert)) ''success''
              [(''certificate_id'', JStr (cert_id cert)), (''serial'', ser_json cert), (''reason_code'', JStr ''issuer-evidence-recovered''),
               (''issuer_source'', JStr ''stored-chain''), (''issuer_fingerprints'', JList (map JStr (ro_fingerprints outcome))),
               (''issuer_subjects'', JList (map JStr (ro_subjects outcome))),
               (''source_certificate_ids'', JList (map JStr (ro_sources outcome))),
               (''chains_scanned'', JInt (int (ro_rows_scanned outcome))),
               (''candidates_considered'', JInt (int (ro_candidates outcome))),
               (''detail'', JStr (ee_recovery_prose ee (ro_detail outcome)))])))
            (\<lambda>(row, event) sv'.
              case row of
                None \<Rightarrow> ret (case get_certificate (cert_id cert) (sv_db sv') of None \<Rightarrow> cert | Some r \<Rightarrow> r) sv'
              | Some r \<Rightarrow> ret r sv') sv)"

text \<open>\<open>int(text, 16)\<close> on hexadecimal digits; the serial of a row found by the route consists of them.\<close>

definition hex_digit_value :: "char \<Rightarrow> int option" where
  "hex_digit_value c =
     (let n = (of_char c :: nat) in
      if 48 \<le> n \<and> n \<le> 57 then Some (int n - 48)
      else if 65 \<le> n \<and> n \<le> 70 then Some (int n - 55)
      else if 97 \<le> n \<and> n \<le> 102 then Some (int n - 87) else None)"

fun hex_value :: "int \<Rightarrow> string \<Rightarrow> int option" where
  "hex_value acc [] = Some acc"
| "hex_value acc (c # cs) = (case hex_digit_value c of None \<Rightarrow> None | Some d \<Rightarrow> hex_value (acc * 16 + d) cs)"

definition int_hex :: "string \<Rightarrow> int option" where
  "int_hex s = (if s = [] then None else hex_value 0 s)"

definition judge_of :: "evidence_env \<Rightarrow> config \<Rightarrow> CrlWatermark option \<Rightarrow> judge_options" where
  "judge_of ee cfg watermark =
     \<lparr>jo_max_age = ee_max_age ee, jo_watermark = watermark, jo_enforce_monotonic = revocation_confirm_crl_require_monotonic cfg\<rparr>"

definition fetch_for ::
  "evidence_env \<Rightarrow> config \<Rightarrow> clock \<Rightarrow> crl_network \<Rightarrow> int \<Rightarrow> CertRow \<Rightarrow> db \<Rightarrow> fault + CrlEvidence" where
  "fetch_for ee cfg now net serial_int cert s =
     (let watermark = (case crl_watermark_key (ee_pki ee) (cert_pem cert) (cert_chain_pem cert) of
                         None \<Rightarrow> None | Some k \<Rightarrow> read_crl_watermark k s)
      in fetch_crl_evidence (ee_pki ee) (ee_lib ee) net (ee_fetch ee) (judge_of ee cfg watermark) now
           (revocation_confirm_crl_url cfg) serial_int (cert_pem cert) (cert_chain_pem cert))"

definition fault_text :: "fault \<Rightarrow> string" where
  "fault_text e = (case e of Uncaught t \<Rightarrow> t | OperationalError t \<Rightarrow> t | OSError t \<Rightarrow> t | _ \<Rightarrow> [])"

definition crl_evidence_for :: "evidence_env \<Rightarrow> env \<Rightarrow> config \<Rightarrow> CertRow \<Rightarrow> CrlEvidence option handler" where
  "crl_evidence_for ee en cfg cert =
     (if revocation_confirm_crl_url cfg = [] then ret None
      else case int_hex (case cert_serial cert of None \<Rightarrow> [] | Some t \<Rightarrow> t) of
          None \<Rightarrow> ret (Some (no_evidence StoredSerialNotHex))
        | Some serial_int \<Rightarrow>
            hbind (recover_issuer_evidence ee en cert) (\<lambda>cert sv.
              let first = fetch_for ee cfg (en_now en) (ee_net ee) serial_int cert (sv_db sv);
                  evidence = (case first of
                      Inl e \<Rightarrow> Inl e
                    | Inr ev \<Rightarrow>
                        if ev_regressed ev \<and> revocation_confirm_crl_require_monotonic cfg
                        then fetch_for ee cfg (en_now en) (ee_net_again ee) serial_int cert (sv_db sv)
                        else Inr ev)
              in ret (Some (case evidence of Inl e \<Rightarrow> no_evidence (CheckError (fault_text e)) | Inr ev \<Rightarrow> ev)) sv))"

section \<open>Confirming a revocation\<close>

text \<open>An exception of \<open>json.loads\<close> other than the two it catches leaves the function.\<close>

definition crl_published_from :: "crypto \<Rightarrow> bytes \<Rightarrow> fault + bool" where
  "crl_published_from cr raw_body =
     (if raw_body = [] then Inr False
      else case c_loads cr raw_body of
          Inl DecodeError \<Rightarrow> Inr False
        | Inl LimitError \<Rightarrow> Inl (Uncaught ''ValueError'')
        | Inr (JObj body) \<Rightarrow> Inr (map_of body ''crl_published'' = Some (JBool True))
        | Inr _ \<Rightarrow> Inr False)"

definition HEX_DIGITS :: string where "HEX_DIGITS = ''0123456789ABCDEF''"

definition confirm_denied :: "env \<Rightarrow> CertRow option \<Rightarrow> string \<Rightarrow> string \<Rightarrow> details \<Rightarrow> unit handler" where
  "confirm_denied en cert ser code extra =
     audited en (audit_ev ''admin-revocation-confirm-denied'' (map_option cert_account_id cert) (map_option cert_order_id cert) ''failed''
       ([(''serial'', JStr ser), (''reason'', JStr code), (''reason_code'', JStr code)] @ extra))"

definition verification_text :: "verification \<Rightarrow> string" where
  "verification_text v = (case v of CRL_VERIFIED \<Rightarrow> ''crl-verified'' | AGENT_ASSERTED \<Rightarrow> ''agent-asserted'')"

definition verdict_text :: "watermark_verdict \<Rightarrow> string" where
  "verdict_text v = (case v of WATERMARK_FIRST \<Rightarrow> ''first'' | WATERMARK_NEWER \<Rightarrow> ''newer'' | WATERMARK_EQUAL \<Rightarrow> ''equal''
     | WATERMARK_OLDER \<Rightarrow> ''older'' | WATERMARK_INDETERMINATE \<Rightarrow> ''indeterminate'')"

datatype confirm_decision = AlreadyConfirmed string | Confirm CertRow string bool

definition confirm_check :: "crypto \<Rightarrow> env \<Rightarrow> config \<Rightarrow> admin_request \<Rightarrow> string \<Rightarrow> confirm_decision handler" where
  "confirm_check cr en cfg rq serial =
     hbind (require_revocation_confirm_token cfg rq) (\<lambda>_.
     hbind (lift (read_body_limited (max_admin_body_size_bytes cfg) (aq_request rq))) (\<lambda>body.
     hbind (lift_fault (crl_published_from cr body)) (\<lambda>crl_published.
       let serial_upper = canonical_serial serial in
       if strip_space serial = [] then raising malformed
       else if \<not> set serial_upper \<subseteq> set HEX_DIGITS then raising malformed
       else (\<lambda>sv.
         case get_certificate_by_serial serial_upper None (sv_db sv) of
           None \<Rightarrow> hbind (confirm_denied en None serial_upper ''not-found'' []) (\<lambda>_. raising not_found) sv
         | Some cert \<Rightarrow>
             if cert_status cert \<notin> {CertREVOKED, CertQUARANTINED} then
               hbind (confirm_denied en None serial_upper ''not-revoked'' [(''cert_status'', JStr (cert_status_text (cert_status cert)))])
                 (\<lambda>_. raising malformed) sv
             else if cert_ca_crl_updated cert then ret (AlreadyConfirmed serial_upper) sv
             else ret (Confirm cert serial_upper crl_published) sv))))"

definition confirm_details ::
  "evidence_env \<Rightarrow> CertRow \<Rightarrow> string \<Rightarrow> bool \<Rightarrow> CrlEvidence option \<Rightarrow> verification \<Rightarrow> details" where
  "confirm_details ee cert serial_upper crl_published evidence verification =
     [(''serial'', JStr serial_upper), (''certificate_id'', JStr (cert_id cert)), (''ca_crl_updated'', JBool True),
      (''revocation_scope'', JStr ''ca-crl''), (''prior_status'', JStr (cert_status_text (cert_status cert))),
      (''verification'', JStr (verification_text verification)), (''crl_published'', JBool crl_published)]
     @ (case evidence of
          None \<Rightarrow> []
        | Some ev \<Rightarrow>
            [(''crl_detail'', JStr (ee_prose ee (ev_detail ev)))]
            @ (case ev_crl_number ev of None \<Rightarrow> [] | Some n \<Rightarrow> if n = [] then [] else [(''crl_number'', JStr n)])
            @ (case ev_this_update ev of None \<Rightarrow> [] | Some t \<Rightarrow> [(''crl_this_update'', JInt t)])
            @ (case ev_watermark_verdict ev of None \<Rightarrow> [] | Some v \<Rightarrow> [(''crl_watermark_verdict'', JStr (verdict_text v))]))"

definition watermark_advance :: "CrlEvidence option \<Rightarrow> CrlWatermark option" where
  "watermark_advance evidence =
     (case evidence of
        None \<Rightarrow> None
      | Some ev \<Rightarrow>
          (case (ev_issuer_key ev, ev_this_update ev) of
             (Some k, Some t) \<Rightarrow>
               if ev_checked ev \<and> k \<noteq> []
               then Some \<lparr>cw_issuer_key = k, cw_crl_number = ev_crl_number ev, cw_this_update = Some t\<rparr> else None
           | _ \<Rightarrow> None))"

definition evidence_denial :: "evidence_env \<Rightarrow> env \<Rightarrow> CertRow \<Rightarrow> string \<Rightarrow> CrlEvidence option \<Rightarrow> unit handler" where
  "evidence_denial ee en cert serial_upper evidence =
     (let detail = (''crl_detail'', JStr (case evidence of None \<Rightarrow> ''no CRL configured'' | Some ev \<Rightarrow> ee_prose ee (ev_detail ev))) in
      case evidence of
        None \<Rightarrow> confirm_denied en (Some cert) serial_upper ''crl-evidence-required-but-absent'' [detail]
      | Some ev \<Rightarrow>
          if ev_issuer_missing ev then
            confirm_denied en (Some cert) serial_upper ''issuer-evidence-missing''
              [detail, (''recovery_action'', JStr ISSUER_EVIDENCE_RECOVERY_ACTION)]
          else if ev_regressed ev \<and> \<not> ev_checked ev then
            confirm_denied en (Some cert) serial_upper ''crl-evidence-regressed'' [detail]
          else confirm_denied en (Some cert) serial_upper ''crl-evidence-required-but-absent'' [detail])"

definition confirm_reply :: "string \<Rightarrow> verification \<Rightarrow> details \<Rightarrow> response" where
  "confirm_reply serial_upper verification extra =
     json_response 200 (JObj ([(''serial'', JStr serial_upper), (''ca_crl_updated'', JBool True),
       (''verification'', JStr (verification_text verification))] @ extra))"

definition confirm_commit ::
  "evidence_env \<Rightarrow> env \<Rightarrow> config \<Rightarrow> CertRow \<Rightarrow> string \<Rightarrow> bool \<Rightarrow> CrlEvidence option \<Rightarrow> response handler" where
  "confirm_commit ee en cfg cert serial_upper crl_published evidence =
     (if revocation_confirm_require_crl_evidence cfg \<and> \<not> (case evidence of None \<Rightarrow> False | Some ev \<Rightarrow> ev_revoked ev) then
        hbind (evidence_denial ee en cert serial_upper evidence) (\<lambda>_. raising malformed)
      else
        let verification = (case evidence of None \<Rightarrow> AGENT_ASSERTED | Some ev \<Rightarrow> ev_verification ev) in
        hbind (on_db (confirm_ca_revocation_with_audit (en_ext en) (en_now en) serial_upper
          (audit_ev ''revocation-ca-confirmed'' (Some (cert_account_id cert)) (Some (cert_order_id cert)) ''success''
            (confirm_details ee cert serial_upper crl_published evidence verification))
          (watermark_advance evidence)
          (if revocation_confirm_crl_url cfg = [] then None else Some (revocation_confirm_crl_url cfg)))) (\<lambda>(flipped, event).
        ret (confirm_reply serial_upper verification (if flipped then [(''crl_published'', JBool crl_published)] else []))))"

text \<open>The gate sheds the call, and says so without judging the certificate.\<close>

definition gathered :: "evidence_env \<Rightarrow> env \<Rightarrow> config \<Rightarrow> bool \<Rightarrow> CertRow \<Rightarrow> string \<Rightarrow> CrlEvidence option handler" where
  "gathered ee en cfg busy cert serial_upper =
     (if busy then
        hbind (audited en (audit_ev ''admin-revocation-confirm-deferred'' (Some (cert_account_id cert)) (Some (cert_order_id cert)) ''failed''
          [(''serial'', JStr serial_upper), (''reason'', JStr ''crl-evidence-capacity''), (''reason_code'', JStr ''crl-evidence-capacity''),
           (''detail'', JStr (ee_prose ee (CheckError ''CrlEvidenceGateBusy'')))]))
          (\<lambda>_. raising (rate_limited (Some 30)))
      else crl_evidence_for ee en cfg cert)"

definition confirm_route ::
  "evidence_env \<Rightarrow> crypto \<Rightarrow> env \<Rightarrow> config \<Rightarrow> bool \<Rightarrow> admin_request \<Rightarrow> string \<Rightarrow> response handler" where
  "confirm_route ee cr en cfg busy rq serial =
     hbind (confirm_check cr en cfg rq serial) (\<lambda>decision.
       case decision of
         AlreadyConfirmed serial_upper \<Rightarrow> ret (confirm_reply serial_upper AGENT_ASSERTED [])
       | Confirm cert serial_upper crl_published \<Rightarrow>
           hbind (gathered ee en cfg busy cert serial_upper) (\<lambda>evidence.
             confirm_commit ee en cfg cert serial_upper crl_published evidence))"

end
