(* ===== verification/AdminSafety.thy ===== *)
theory AdminSafety
  imports AdminRoutes OrderSafety RevocationRoutes
begin

text \<open>
  What the administrative routes guarantee: every route is a run of store operations, each
  credential opens its own routes only, a reclaim reopens only what its guards allow, and a
  confirmation under required evidence rests on the CA's signed CRL.
\<close>

section \<open>Store operations\<close>

context handler_frame begin

lemma keeps_require [intro]:
  "keeps (require_admin_token cfg rq)" "keeps (require_revocation_authority cfg rq)" "keeps (require_revocation_confirm_token cfg rq)"
  unfolding require_admin_token_def require_revocation_authority_def require_revocation_confirm_token_def
  by (intro keeps_rules)+

lemma keeps_reclaim_denied [intro]: "keeps (reclaim_denied en order code extra)"
  unfolding reclaim_denied_def by (intro keeps_rules)

lemma keeps_confirm_denied [intro]: "keeps (confirm_denied en cert ser code extra)"
  unfolding confirm_denied_def by (intro keeps_rules)

lemma keeps_evidence_denial [intro]: "keeps (evidence_denial ee en cert ser evidence)"
  unfolding evidence_denial_def Let_def by (intro keeps_rules keeps_confirm_denied)

lemma keeps_reclaim_decide [intro]: "keeps (reclaim_decide en cfg rq i b req)"
proof -
  have "R sv (snd (reclaim_target en cfg order b sv))" for order sv
    by (simp add: reclaim_target_def keepsD [OF keeps_reclaim_denied] refl split: option.split)
  then show ?thesis
    unfolding reclaim_decide_def Let_def
    by (intro keeps_hbind keeps_require keepsI)
      (simp add: keepsD [OF keeps_reclaim_denied] audit_ok split: option.split)
qed

lemma keeps_confirm_check [intro]: "keeps (confirm_check cr en cfg rq ser)"
  unfolding confirm_check_def Let_def by (intro keeps_rules keeps_require keeps_confirm_denied)

end

lemma runs_commit: "runs.keeps (reclaim_commit en b order target)"
proof -
  have "runs.keeps (refresh_order_or_500 i)" for i
    unfolding refresh_order_or_500_def by (intro runs.keeps_rules)
  then show ?thesis unfolding reclaim_commit_def by (intro runs.keeps_rules runs_on_db store_step.reclaim)
qed

lemma runs_evidence: "runs.keeps (crl_evidence_for ee en cfg cert)"
proof -
  have at: "runs.keeps (\<lambda>sv. ret (f sv) sv)" for f :: "server \<Rightarrow> 'b" by (simp add: runs.keeps_def runs.refl)
  have "runs.keeps (recover_issuer_evidence ee en c)" for c
  proof (rule runs.keepsI)
    fix sv
    have k: "runs.keeps (hbind (on_db (attach_recovered_chain_with_audit (en_ext en) (en_now en) (cert_id c) chain args))
        (\<lambda>(row, event) sv'. case row of
            None \<Rightarrow> ret (case get_certificate (cert_id c) (sv_db sv') of None \<Rightarrow> c | Some r \<Rightarrow> r) sv' | Some r \<Rightarrow> ret r sv'))" for chain args
      by (intro runs.keeps_hbind runs_on_db store_step.attach_chain) (auto simp: runs.keeps_def runs.refl split: option.split)
    show "db_run sv (snd (recover_issuer_evidence ee en c sv))"
      by (simp add: recover_issuer_evidence_def Let_def runs.refl runs.audit_ok runs.keepsD [OF k])
  qed
  then show ?thesis unfolding crl_evidence_for_def Let_def by (intro runs.keeps_rules at)
qed

lemma runs_confirm_commit: "runs.keeps (confirm_commit ee en cfg cert ser p evidence)"
  unfolding confirm_commit_def Let_def by (intro runs.keeps_rules runs_on_db store_step.confirm_audited runs.keeps_evidence_denial)

text \<open>Every administrative route is a run of store operations, so the store invariant holds whatever it does.\<close>

lemma runs_admin_routes:
  "runs.keeps (cleanup_nonces_route en cfg rq)" "runs.keeps (sweep_orders_route en cfg rq)"
  "runs.keeps (list_orders_route en cfg rq st limit)" "runs.keeps (list_pending_revocations en cfg rq limit)"
  "runs.keeps (reclaim_route en cfg rq i b req)" "runs.keeps (confirm_route ee cr en cfg busy rq ser)"
proof -
  have dec: "runs.keeps (case d of NotProcessing r \<Rightarrow> f r | Reclaim r t \<Rightarrow> g r t)"
    if "\<And>r. runs.keeps (f r)" "\<And>r t. runs.keeps (g r t)" for d and f :: "OrderRow \<Rightarrow> response handler" and g
    using that by (cases d) auto
  have con: "runs.keeps (case d of AlreadyConfirmed u \<Rightarrow> f u | Confirm c u p \<Rightarrow> g c u p)"
    if "\<And>u. runs.keeps (f u)" "\<And>c u p. runs.keeps (g c u p)" for d and f :: "string \<Rightarrow> response handler" and g
    using that by (cases d) auto
  show "runs.keeps (cleanup_nonces_route en cfg rq)" "runs.keeps (sweep_orders_route en cfg rq)"
    unfolding cleanup_nonces_route_def sweep_orders_route_def
    by (intro runs.keeps_rules runs.keeps_require runs_on_db store_step.cleanup_nonces store_step.sweep_orders)+
  show "runs.keeps (list_orders_route en cfg rq st limit)" "runs.keeps (list_pending_revocations en cfg rq limit)"
    unfolding list_orders_route_def list_pending_revocations_def Let_def
    by (intro runs.keeps_rules runs.keeps_require; auto simp: runs.keeps_def runs.refl runs.audit_ok case_prod_beta)+
  show "runs.keeps (reclaim_route en cfg rq i b req)"
    unfolding reclaim_route_def by (intro runs.keeps_rules runs.keeps_reclaim_decide runs_commit dec)
  have "runs.keeps (gathered ee en cfg busy c u)" for c u
    unfolding gathered_def by (intro runs.keeps_rules runs_evidence)
  then show "runs.keeps (confirm_route ee cr en cfg busy rq ser)"
    unfolding confirm_route_def by (intro runs.keeps_rules runs.keeps_confirm_check runs_confirm_commit con)
qed

section \<open>Credentials\<close>

definition holds_token :: "admin_request \<Rightarrow> string \<Rightarrow> bool" where
  "holds_token rq token \<longleftrightarrow> token \<noteq> [] \<and> bearer_token rq = Inr (configured_token_bytes token)"

lemma bearer_Inl: "bearer_token rq = Inl e \<Longrightarrow> e = unauthorized"
  by (auto simp: bearer_token_def split: if_splits)

lemma require_outcomes:
  "require_admin_token cfg rq sv = (if holds_token rq (admin_token cfg) then (Inr (), sv) else (Inl (Acme unauthorized), sv))"
  "require_revocation_confirm_token cfg rq sv =
     (if holds_token rq (revocation_confirm_token cfg) then (Inr (), sv) else (Inl (Acme unauthorized), sv))"
  "require_revocation_authority cfg rq sv =
     (if holds_token rq (revocation_confirm_token cfg) \<or> holds_token rq (admin_token cfg) then (Inr (), sv)
      else (Inl (Acme unauthorized), sv))"
  by (cases "bearer_token rq";
      auto simp: require_admin_token_def require_revocation_confirm_token_def require_revocation_authority_def holds_token_def
        dest: bearer_Inl)+

text \<open>
  C23. Each administrative authority opens its own routes only: without the admin token the
  maintenance, listing and reclaim routes refuse and change nothing; without the confirmation
  token, whatever other token is presented, no revocation is confirmed; the revocation feed needs one of the
  two; and a credential that is not configured opens nothing.
\<close>

theorem admin_guarded:
  "(\<not> holds_token rq (admin_token cfg) \<longrightarrow>
      cleanup_nonces_route en cfg rq sv = (Inl (Acme unauthorized), sv) \<and> sweep_orders_route en cfg rq sv = (Inl (Acme unauthorized), sv)
      \<and> list_orders_route en cfg rq st limit sv = (Inl (Acme unauthorized), sv)
      \<and> reclaim_route en cfg rq i b req sv = (Inl (Acme unauthorized), sv))
   \<and> (\<not> holds_token rq (revocation_confirm_token cfg) \<longrightarrow> confirm_route ee cr en cfg busy rq ser sv = (Inl (Acme unauthorized), sv))
   \<and> (\<not> holds_token rq (admin_token cfg) \<and> \<not> holds_token rq (revocation_confirm_token cfg) \<longrightarrow>
        list_pending_revocations en cfg rq limit sv = (Inl (Acme unauthorized), sv))
   \<and> \<not> holds_token rq []"
  by (simp add: cleanup_nonces_route_def sweep_orders_route_def list_orders_route_def reclaim_route_def reclaim_decide_def
      confirm_route_def confirm_check_def list_pending_revocations_def hbind_def require_outcomes)
    (simp add: holds_token_def)

section \<open>Reclaim\<close>

lemma reclaim_decide_ok:
  assumes "reclaim_decide en cfg rq i b req sv = (Inr (Reclaim order target), sv1)"
  shows "sv1 = sv" "holds_token rq (admin_token cfg)" "get_order i (sv_db sv) = Some order" "ord_status order = PROCESSING"
    "\<not> is_active i sv" "\<forall>t. ord_processing_started_at order = Some t \<longrightarrow>
       int (reclaim_minimum_processing_age_seconds cfg) * 1000000 \<le> en_now en - t * 1000000"
    "\<forall>q. pending_request order = Some q \<longrightarrow> req = q"
    "case get_certificate_by_order i (sv_db sv) of
       None \<Rightarrow> b \<and> target = None | Some c \<Rightarrow> target = Some (certificate_url cfg (cert_id c))"
proof -
  from assms have tok: "holds_token rq (admin_token cfg)"
    by (auto simp: reclaim_decide_def hbind_def require_outcomes split: if_splits)
  have id: "ord_id order = i" if "get_order i (sv_db sv) = Some order" using that by (auto simp: get_order_def dest: find_Some_in)
  show "sv1 = sv" "holds_token rq (admin_token cfg)" "get_order i (sv_db sv) = Some order" "ord_status order = PROCESSING"
    "\<not> is_active i sv" "\<forall>t. ord_processing_started_at order = Some t \<longrightarrow>
       int (reclaim_minimum_processing_age_seconds cfg) * 1000000 \<le> en_now en - t * 1000000"
    "\<forall>q. pending_request order = Some q \<longrightarrow> req = q"
    "case get_certificate_by_order i (sv_db sv) of
       None \<Rightarrow> b \<and> target = None | Some c \<Rightarrow> target = Some (certificate_url cfg (cert_id c))"
    using assms tok id
    by (auto simp: reclaim_decide_def hbind_def require_outcomes reclaim_denied_def reclaim_target_def audited_def Let_def
        processing_age_seconds_def micros_def split: option.splits if_splits)
qed

definition reclaimed :: "clock \<Rightarrow> string option \<Rightarrow> OrderRow \<Rightarrow> OrderRow" where
  "reclaimed now target r =
     (case target of
        None \<Rightarrow> r\<lparr>ord_status := READY, ord_processing_started_at := None, ord_updated_at := now_iso now\<rparr>
      | Some u \<Rightarrow> r\<lparr>ord_status := VALID, ord_certificate_url := Some u, ord_processing_started_at := None, ord_updated_at := now_iso now\<rparr>)"

definition unmarked :: "clock \<Rightarrow> string option \<Rightarrow> OrderRow \<Rightarrow> OrderRow" where
  "unmarked now req r =
     (if req \<noteq> None \<and> req \<noteq> Some [] \<and> ord_pending_ca_request_id r = req
      then r\<lparr>ord_pending_ca_request_id := None, ord_updated_at := now_iso now\<rparr> else r)"

lemma reclaimed_simps [simp]:
  "ord_id (reclaimed now target r) = ord_id r" "ord_id (unmarked now req r) = ord_id r"
  "ord_status (reclaimed now target r) = (if target = None then READY else VALID)" "ord_status (unmarked now req r) = ord_status r"
  "ord_pending_ca_request_id (reclaimed now target r) = ord_pending_ca_request_id r"
  by (simp_all add: reclaimed_def unmarked_def split: option.split)

lemma reclaim_effect:
  assumes wf: "wf_db s" and run: "reclaim_processing_order x now i target (Some g) req args s = ((won, ev), s')"
  shows "won \<longleftrightarrow> (\<exists>r. get_order i s = Some r \<and> ord_status r = PROCESSING \<and> ord_processing_generation r = g)"
    and "\<not> won \<Longrightarrow> s' = s"
    and "won \<Longrightarrow> get_order j s' = (if j = i then map_option (\<lambda>r. unmarked now req (reclaimed now target r)) (get_order i s) else get_order j s)"
    and "won \<Longrightarrow> \<exists>e. ev = Some e \<and> audit_log s' = audit_log s @ [e] \<and> aud_event_type e = ev_type args \<and> aud_order_id e = Some i"
proof -
  let ?p = "\<lambda>r. ord_id r = i \<and> ord_status r = PROCESSING \<and> ord_processing_generation r = g"
  let ?s1 = "snd (cas_orders ?p (reclaimed now target) s)"
  have t: "(case target of
              Some u \<Rightarrow> transition_processing_to_valid now i u (Some g) s
            | None \<Rightarrow> transition_processing_to_ready now i (Some g) s) = cas_orders ?p (reclaimed now target) s"
    by (cases target) (simp_all add: transition_processing_to_valid_def transition_processing_to_ready_def reclaimed_def [abs_def] processing_cas_def)
  define s2 where "s2 = (case req of
                Some q \<Rightarrow> if q \<noteq> [] then
                    upd_orders (\<lambda>r. ord_id r = i \<and> ord_pending_ca_request_id r = Some q)
                      (\<lambda>r. r\<lparr>ord_pending_ca_request_id := None, ord_updated_at := now_iso now\<rparr>) ?s1
                  else ?s1
              | None \<Rightarrow> ?s1)"
  have eq: "reclaim_processing_order x now i target (Some g) req args s =
      (if fst (cas_orders ?p (reclaimed now target) s)
       then ((True, Some (fst (record_audit_in_conn x now (args\<lparr>ev_order := Some i\<rparr>) s2))),
             snd (record_audit_in_conn x now (args\<lparr>ev_order := Some i\<rparr>) s2))
       else ((False, None), ?s1))"
    unfolding reclaim_processing_order_def t Let_def case_prod_beta s2_def by simp
  note cas = cas_get_order [OF wf, of ?p i "reclaimed now target", simplified]
  have id: "ord_id r = i" if "get_order i s = Some r" for r using that by (auto simp: get_order_def dest: find_Some_in)
  show won: "won \<longleftrightarrow> (\<exists>r. get_order i s = Some r \<and> ord_status r = PROCESSING \<and> ord_processing_generation r = g)"
    using run eq cas(1) id by (auto split: if_splits)
  show "\<not> won \<Longrightarrow> s' = s"
    using run eq cas_orders_none [OF wf, of ?p i "reclaimed now target"] by (auto split: if_splits)
  have upd: "get_order j s2 = map_option (\<lambda>r. if ord_id r = i then unmarked now req r else r) (get_order j ?s1)" for j
  proof (cases "req = None \<or> req = Some []")
    case True
    then have "(\<lambda>r. if ord_id r = i then unmarked now req r else r) = id" by (intro ext) (auto simp: unmarked_def)
    with True show ?thesis by (auto simp: s2_def option.map_id)
  next
    case False
    then obtain q where q: "req = Some q" "q \<noteq> []" by auto
    have "get_order j s2 = map_option (\<lambda>r. if ord_id r = i \<and> ord_pending_ca_request_id r = Some q
        then r\<lparr>ord_pending_ca_request_id := None, ord_updated_at := now_iso now\<rparr> else r) (get_order j ?s1)"
      using q by (simp add: s2_def get_order_def upd_orders_def find_upd_where)
    also have "\<dots> = map_option (\<lambda>r. if ord_id r = i then unmarked now req r else r) (get_order j ?s1)"
      using q by (intro option.map_cong) (auto simp: unmarked_def)
    finally show ?thesis .
  qed
  have log: "audit_log s2 = audit_log s"
    by (simp add: s2_def cas_orders_def upd_orders_def split: option.split)
  have s': "s' = snd (record_audit_in_conn x now (args\<lparr>ev_order := Some i\<rparr>) s2)"
      "ev = Some (fst (record_audit_in_conn x now (args\<lparr>ev_order := Some i\<rparr>) s2))" if won using run eq that by (auto split: if_splits)
  show "\<exists>e. ev = Some e \<and> audit_log s' = audit_log s @ [e] \<and> aud_event_type e = ev_type args \<and> aud_order_id e = Some i" if won
    using s' [OF that] log by simp
  assume won
  then have g: "get_order j s' = get_order j s2" by (simp add: s' get_order_def)
  obtain r0 where r0: "get_order i s = Some r0" "ord_status r0 = PROCESSING" "ord_processing_generation r0 = g" using won \<open>won\<close> by blast
  show "get_order j s' = (if j = i then map_option (\<lambda>r. unmarked now req (reclaimed now target r)) (get_order i s) else get_order j s)"
  proof (cases "j = i")
    case True
    then show ?thesis using g upd [of i] cas(2) [of i] r0 id [OF r0(1)] by simp
  next
    case False
    have "ord_id r \<noteq> i" if "get_order j s = Some r" for r using that False by (auto simp: get_order_def dest: find_Some_in)
    then show ?thesis using False g upd [of j] cas(2) [of j] by (cases "get_order j s") simp_all
  qed
qed

text \<open>
  C22. Reopening a stuck order is never a guess: a reclaim changes an order only on a request with the
  admin token, for an order that was in processing with no live enrollment in this process, for at
  least the configured time, whose pending CA request, if any, the operator named exactly; it
  becomes valid with the certificate recorded for it, or ready again only when there was none and
  the operator asserted that the CA issued none. If anything ran between the decision and the commit,
  the commit still changes only that order, only while it is in processing under the lease the
  decision was made on, and writes one audit row with the change; otherwise it changes no order.
\<close>

theorem reclaim_authorized:
  assumes "reclaim_decide en cfg rq i b req sv = (Inr (Reclaim order target), sv1)"
    "wf_db (sv_db sv2)" "reclaim_commit en2 b order target sv2 = (r, sv3)" "orders (sv_db sv3) \<noteq> orders (sv_db sv2)"
  shows "holds_token rq (admin_token cfg) \<and> get_order i (sv_db sv) = Some order \<and> ord_status order = PROCESSING \<and> \<not> is_active i sv
    \<and> (\<forall>t. ord_processing_started_at order = Some t \<longrightarrow>
         int (reclaim_minimum_processing_age_seconds cfg) * 1000000 \<le> en_now en - t * 1000000)
    \<and> (\<forall>q. pending_request order = Some q \<longrightarrow> req = q)
    \<and> (case get_certificate_by_order i (sv_db sv) of
         None \<Rightarrow> b \<and> target = None | Some c \<Rightarrow> target = Some (certificate_url cfg (cert_id c)))
    \<and> (\<exists>row. get_order i (sv_db sv2) = Some row \<and> ord_status row = PROCESSING
         \<and> ord_processing_generation row = ord_processing_generation order
         \<and> get_order i (sv_db sv3) = Some (unmarked (en_now en2) (pending_request order) (reclaimed (en_now en2) target row)))
    \<and> (\<forall>j. j \<noteq> i \<longrightarrow> get_order j (sv_db sv3) = get_order j (sv_db sv2))
    \<and> (\<exists>e. audit_log (sv_db sv3) = audit_log (sv_db sv2) @ [e] \<and> aud_event_type e = ''admin-order-reclaimed'' \<and> aud_order_id e = Some i)"
proof -
  note d = reclaim_decide_ok [OF assms(1)]
  have id: "ord_id order = i" using d(3) by (auto simp: get_order_def dest: find_Some_in)
  define args where "args = audit_ev ''admin-order-reclaimed'' (Some (ord_account_id order)) None ''success''
          [(''new_status'', JStr (order_status_text (if target = None then READY else VALID))), (''had_certificate'', JBool (target \<noteq> None)),
           (''ca_verified_no_issuance'', JBool b), (''ca_request_resolved'', opt_json (pending_request order))]"
  have args: "ev_type args = ''admin-order-reclaimed''" by (simp add: args_def)
  obtain won ev s' where run: "reclaim_processing_order (en_ext en2) (en_now en2) i target (Some (ord_processing_generation order))
              (pending_request order) args (sv_db sv2) = ((won, ev), s')" by (metis prod.collapse)
  let ?lost = "\<lambda>r. audit_ev ''admin-order-reclaim-denied'' (Some (ord_account_id order)) (Some i) ''failed''
                  [(''reason'', JStr ''lost-race''), (''reason_code'', JStr ''lost-race''),
                   (''current_status'', JStr (order_status_text (ord_status r)))]"
  have on: "on_db (reclaim_processing_order (en_ext en2) (en_now en2) i target (Some (ord_processing_generation order))
              (pending_request order) args) sv2 = (Inr (won, ev), sv2\<lparr>sv_db := s'\<rparr>)" using run by (simp add: on_db_def)
  have commit: "snd (reclaim_commit en2 b order target sv2) =
       (case get_order i s' of
          None \<Rightarrow> sv2\<lparr>sv_db := s'\<rparr>
        | Some r \<Rightarrow> if won then sv2\<lparr>sv_db := s'\<rparr> else audit en2 (?lost r) (sv2\<lparr>sv_db := s'\<rparr>))"
    unfolding reclaim_commit_def id args_def [symmetric] hbind_def [of "on_db _"] on
    by (cases "get_order i s'") (simp_all add: hbind_def refresh_order_or_500_def audited_def)
  note e = reclaim_effect [OF assms(2) run]
  have sv3: "sv3 = snd (reclaim_commit en2 b order target sv2)" using assms(3) by simp
  have won
  proof (rule ccontr)
    assume "\<not> won"
    then have "orders (sv_db sv3) = orders (sv_db sv2)" using e(2) unfolding sv3 commit by (simp split: option.split)
    with assms(4) show False by simp
  qed
  then have "sv_db sv3 = s'" unfolding sv3 commit by (simp split: option.split)
  with d e(1) e(3,4) [OF \<open>won\<close>] \<open>won\<close> args show ?thesis by auto
qed

section \<open>Confirmation\<close>

lemma certificate_persists:
  assumes "store_step\<^sup>*\<^sup>* s s'" "wf_db s" "get_certificate i s = Some c"
  shows "\<exists>c'. get_certificate i s' = Some c' \<and> cert_identity c' = cert_identity c"
  using assms
proof (induction rule: rtranclp_induct)
  case base
  then show ?case by simp
next
  case (step s1 s2)
  then obtain c1 where c1: "get_certificate i s1 = Some c1" "cert_identity c1 = cert_identity c" by blast
  have "wf_db s1" using step.hyps(1) step.prems(1) by (rule wf_reachable)
  then have "db_evolve s1 s2" using step.hyps(2) evolve_step by blast
  then obtain c2 where "get_certificate i s2 = Some c2" "cert_step c1 c2"
    using certs_evolve_find c1(1) unfolding db_evolve_def get_certificate_def by blast
  with c1(2) show ?case by (auto simp: cert_step_def)
qed

lemma attached_identity:
  assumes "attach_recovered_chain_with_audit x now cid chain args s = ((row, ev), s')" "get_certificate cid s = Some c"
  shows "\<exists>c'. get_certificate cid s' = Some c' \<and> cert_identity c' = cert_identity c" "row = Some c' \<Longrightarrow> cert_identity c' = cert_identity c"
proof -
  define s1 where "s1 = s\<lparr>certificates := upd_where (\<lambda>r. cert_id r = cid \<and> cert_chain_pem r = []) (\<lambda>r. r\<lparr>cert_chain_pem := chain\<rparr>) (certificates s)\<rparr>"
  obtain c1 where s1: "get_certificate cid s1 = Some c1" "cert_identity c1 = cert_identity c"
    using assms(2) by (simp add: s1_def get_certificate_def find_upd_where cert_identity_def)
  have eq: "attach_recovered_chain_with_audit x now cid chain args s =
      (if rowcount (\<lambda>r. cert_id r = cid \<and> cert_chain_pem r = []) (certificates s) \<noteq> 1 then ((None, None), s1)
       else ((Some c1, Some (fst (record_audit_in_conn x now args s1))), snd (record_audit_in_conn x now args s1)))"
    using s1 unfolding attach_recovered_chain_with_audit_def Let_def case_prod_beta s1_def [symmetric] by simp
  have "get_certificate cid (snd (record_audit_in_conn x now args s1)) = Some c1" using s1(1) by (simp add: get_certificate_def)
  then show "\<exists>c'. get_certificate cid s' = Some c' \<and> cert_identity c' = cert_identity c" "row = Some c' \<Longrightarrow> cert_identity c' = cert_identity c"
    using assms(1) s1 unfolding eq by (force split: if_splits)+
qed

lemma recovered_row_identity:
  assumes "get_certificate (cert_id cert) (sv_db sv) = Some row" "cert_identity row = cert_identity cert"
    "recover_issuer_evidence ee en cert sv = (Inr c', sv')"
  shows "cert_identity c' = cert_identity cert"
proof (cases "cert_chain_pem cert \<noteq> []")
  case True
  with assms(3) show ?thesis by (simp add: recover_issuer_evidence_def)
next
  case False
  let ?outcome = "recover_issuer_chain (ee_pki ee) DEFAULT_MAX_ROWS DEFAULT_MAX_CANDIDATES (cert_pem cert)
              (list_certificate_chains (DEFAULT_MAX_ROWS + 1) (sv_db sv))"
  show ?thesis
  proof (cases "recovered ?outcome")
    case False
    with \<open>\<not> cert_chain_pem cert \<noteq> []\<close> assms(3) show ?thesis by (simp add: recover_issuer_evidence_def Let_def)
  next
    case True
    then obtain args r ev s' where run:
      "attach_recovered_chain_with_audit (en_ext en) (en_now en) (cert_id cert) (ro_chain_pem ?outcome) args (sv_db sv) = ((r, ev), s')"
      and c': "c' = (case r of None \<Rightarrow> (case get_certificate (cert_id cert) s' of None \<Rightarrow> cert | Some r \<Rightarrow> r) | Some r \<Rightarrow> r)"
      using assms(3) \<open>\<not> cert_chain_pem cert \<noteq> []\<close>
      by (simp add: recover_issuer_evidence_def hbind_def on_db_def Let_def case_prod_beta split: option.splits) (metis prod.collapse option.simps)+
    from attached_identity [OF run assms(1)] c' assms(2) show ?thesis by (auto split: option.splits)
  qed
qed

lemma crl_evidence_for_revoked:
  assumes "crl_evidence_for ee en cfg cert sv = (Inr (Some ev), sv')" "ev_revoked ev"
    "get_certificate (cert_id cert) (sv_db sv) = Some row" "cert_identity row = cert_identity cert"
  shows "\<exists>n net c' s. int_hex (case cert_serial cert of None \<Rightarrow> [] | Some t \<Rightarrow> t) = Some n \<and> net \<in> {ee_net ee, ee_net_again ee}
    \<and> cert_identity c' = cert_identity cert \<and> fetch_for ee cfg (en_now en) net n c' s = Inr ev"
proof -
  obtain n where n: "int_hex (case cert_serial cert of None \<Rightarrow> [] | Some t \<Rightarrow> t) = Some n" and url: "revocation_confirm_crl_url cfg \<noteq> []"
    using assms(1,2) by (auto simp: crl_evidence_for_def no_evidence_def split: if_splits option.splits)
  obtain c' sv1 where c': "recover_issuer_evidence ee en cert sv = (Inr c', sv1)"
    using assms(1) n url by (auto simp: crl_evidence_for_def hbind_def split: prod.splits sum.splits)
  have "\<exists>net \<in> {ee_net ee, ee_net_again ee}. fetch_for ee cfg (en_now en) net n c' (sv_db sv1) = Inr ev"
    using assms(1,2) n url c'
    by (auto simp: crl_evidence_for_def hbind_def Let_def no_evidence_def split: sum.splits if_splits)
  then show ?thesis using n recovered_row_identity [OF assms(3,4) c'] by blast
qed

lemma confirm_check_ok:
  assumes "confirm_check cr en cfg rq ser sv = (Inr (Confirm cert u pub), sv1)"
  shows "sv1 = sv" "holds_token rq (revocation_confirm_token cfg)" "u = canonical_serial ser"
    "cert \<in> set (certificates (sv_db sv))" "cert_serial cert = Some (canonical_serial u)" "awaiting_ca cert"
proof -
  from assms have tok: "holds_token rq (revocation_confirm_token cfg)"
    by (auto simp: confirm_check_def hbind_def require_outcomes split: if_splits)
  show "sv1 = sv" "holds_token rq (revocation_confirm_token cfg)" "u = canonical_serial ser"
    "cert \<in> set (certificates (sv_db sv))" "cert_serial cert = Some (canonical_serial u)" "awaiting_ca cert"
    using assms tok
    by (auto simp: confirm_check_def hbind_def require_outcomes lift_def lift_fault_def confirm_denied_def audited_def Let_def awaiting_ca_def
        get_certificate_by_serial_def split: sum.splits option.splits if_splits dest: find_Some_in)
qed

text \<open>
  C19. Where CRL evidence is required, a certificate leaves the revocation feed only on proof: a
  confirmation changes a certificate row only on a request with the confirmation token for a
  serial of a revoked or quarantined certificate, it marks only rows of that serial that await the
  CA, and the document it rests on was retrieved from the configured URL, is a current base CRL signed by
  the CA that signed the certificate, and lists that serial as revoked; all of it with any other
  store operations between the check, the gathering of the evidence and the commit.
\<close>

theorem confirmation_proved:
  assumes "wf_db (sv_db sv)" "confirm_check cr en cfg rq ser sv = (Inr (Confirm cert u pub), sv1)"
    "store_step\<^sup>*\<^sup>* (sv_db sv1) (sv_db sv2)" "crl_evidence_for ee en2 cfg cert sv2 = (Inr evidence, sv3)"
    "confirm_commit ee en3 cfg cert u pub evidence sv4 = (r, sv5)" "certificates (sv_db sv5) \<noteq> certificates (sv_db sv4)"
    "revocation_confirm_require_crl_evidence cfg"
  shows "holds_token rq (revocation_confirm_token cfg) \<and> u = canonical_serial ser
    \<and> cert \<in> set (certificates (sv_db sv)) \<and> cert_serial cert = Some (canonical_serial u) \<and> awaiting_ca cert
    \<and> certificates (sv_db sv5) = upd_where (confirm_where u) (\<lambda>r. r\<lparr>cert_ca_crl_updated := True\<rparr>) (certificates (sv_db sv4))
    \<and> (\<exists>n net wm body crl leaf ca. int_hex (canonical_serial u) = Some n \<and> net \<in> {ee_net ee, ee_net_again ee}
        \<and> fst (fetch_document (cx_ip_literal net) (cx_resolve net) (cx_send net) (ee_fetch ee) (revocation_confirm_crl_url cfg))
            = Fetched (Inr body)
        \<and> load_crl (ee_lib ee) body = Some crl \<and> load_pem_certificate (ee_pki ee) (cert_pem cert) = Some leaf
        \<and> signs (ee_pki ee) ca leaf \<and> is_signature_valid (ee_lib ee) body ca = Some True
        \<and> current_crl (judge_of ee cfg wm) (en_now en2) crl \<and> lists_revoked crl n)"
proof -
  note c = confirm_check_ok [OF assms(2)]
  have sv5: "sv5 = snd (confirm_commit ee en3 cfg cert u pub evidence sv4)" using assms(5) by simp
  obtain ev where ev: "evidence = Some ev" "ev_revoked ev"
  proof (rule ccontr)
    assume no: "\<not> thesis"
    then have "confirm_commit ee en3 cfg cert u pub evidence = hbind (evidence_denial ee en3 cert u evidence) (\<lambda>_. raising malformed)"
      using that assms(7) by (auto simp: confirm_commit_def split: option.splits)
    moreover have "rows.keeps (hbind (evidence_denial ee en3 cert u evidence) (\<lambda>_. raising malformed :: response handler))"
      by (intro rows.keeps_rules rows.keeps_evidence_denial)
    ultimately have "rows_kept sv4 sv5" using rows.keepsD unfolding sv5 by metis
    with assms(6) show False by (simp add: rows_kept_def)
  qed
  have "certificates (sv_db sv5) = upd_where (confirm_where u) (\<lambda>r. r\<lparr>cert_ca_crl_updated := True\<rparr>) (certificates (sv_db sv4))"
    unfolding sv5 using ev by (simp add: confirm_commit_def hbind_def on_db_def Let_def case_prod_beta confirm_with_audit_tables)
  moreover have "get_certificate (cert_id cert) (sv_db sv1) = Some cert"
    using get_certificate_member [OF assms(1) c(4)] c(1) by simp
  then obtain row where "get_certificate (cert_id cert) (sv_db sv2) = Some row" "cert_identity row = cert_identity cert"
    using certificate_persists [OF assms(3)] assms(1) c(1) by blast
  then obtain n net c' s where n: "int_hex (canonical_serial u) = Some n" "net \<in> {ee_net ee, ee_net_again ee}"
    "cert_identity c' = cert_identity cert" "fetch_for ee cfg (en_now en2) net n c' s = Inr ev"
    using crl_evidence_for_revoked [of ee en2 cfg cert sv2 ev sv3 row] assms(4) ev c(5) by (simp, blast)
  then have "cert_pem c' = cert_pem cert" by (simp add: cert_identity_def)
  with evidence_exact [OF n(4) [unfolded fetch_for_def Let_def]] ev(2) obtain wm body crl leaf ca where
    "fst (fetch_document (cx_ip_literal net) (cx_resolve net) (cx_send net) (ee_fetch ee) (revocation_confirm_crl_url cfg)) = Fetched (Inr body)"
    "load_crl (ee_lib ee) body = Some crl" "load_pem_certificate (ee_pki ee) (cert_pem cert) = Some leaf"
    "signs (ee_pki ee) ca leaf" "is_signature_valid (ee_lib ee) body ca = Some True"
    "current_crl (judge_of ee cfg wm) (en_now en2) crl" "lists_revoked crl n" by auto
  with n(1,2) have "\<exists>n net wm body crl leaf ca. int_hex (canonical_serial u) = Some n \<and> net \<in> {ee_net ee, ee_net_again ee}
        \<and> fst (fetch_document (cx_ip_literal net) (cx_resolve net) (cx_send net) (ee_fetch ee) (revocation_confirm_crl_url cfg))
            = Fetched (Inr body)
        \<and> load_crl (ee_lib ee) body = Some crl \<and> load_pem_certificate (ee_pki ee) (cert_pem cert) = Some leaf
        \<and> signs (ee_pki ee) ca leaf \<and> is_signature_valid (ee_lib ee) body ca = Some True
        \<and> current_crl (judge_of ee cfg wm) (en_now en2) crl \<and> lists_revoked crl n"
    by (intro exI [of _ n] exI [of _ net] exI [of _ wm] exI [of _ body] exI [of _ crl] exI [of _ leaf] exI [of _ ca]) simp
  with c calculation show ?thesis by simp
qed

section \<open>Witnesses\<close>

definition admin_rq :: "string \<Rightarrow> admin_request" where
  "admin_rq token = \<lparr>aq_request = \<lparr>rq_content_types = [], rq_content_length = None, rq_chunks = [], rq_end = Some 0\<rparr>,
     aq_authorization = ''Bearer '' @ token\<rparr>"

lemma admin_rq_tokens: "holds_token (admin_rq ''admin'') (admin_token sample_cfg)" "\<not> holds_token (admin_rq ''admin'') (revocation_confirm_token sample_cfg)"
  "holds_token (admin_rq ''confirm'') (revocation_confirm_token sample_cfg)"
  by code_simp+

definition proof_crl :: crl_document where
  "proof_crl = sample_crl\<lparr>crl_entries := [(18, ExtensionNotFound)]\<rparr>"

definition proof_lib :: crl_lib where
  "proof_lib = sample_lib\<lparr>load_der_crl := (\<lambda>_. Some proof_crl)\<rparr>"

definition sample_ee :: evidence_env where
  "sample_ee = \<lparr>ee_pki = sample_pki, ee_lib = proof_lib, ee_net = sample_network, ee_net_again = sample_network,
     ee_fetch = \<lparr>fo_max_bytes = 10, fo_follow_redirects = False\<rparr>, ee_max_age = 626400, ee_prose = (\<lambda>_. []), ee_recovery_prose = (\<lambda>_. [])\<rparr>"

theorem admin_guarded_witness:
  "confirm_route sample_ee (sample_crypto nothing [] []) sample_env sample_cfg False (admin_rq ''admin'') ''12'' sample_server = (Inl (Acme unauthorized), sample_server)"
  using admin_guarded [of "admin_rq ''admin''" sample_cfg] admin_rq_tokens(2) by blast

definition stuck_order :: OrderRow where
  "stuck_order = (sample_order ''o1'' PROCESSING 10)\<lparr>ord_processing_generation := 1, ord_processing_started_at := Some (- 100),
     ord_pending_ca_request_id := Some ''77''\<rparr>"

definition stuck_server :: server where
  "stuck_server = sample_server\<lparr>sv_db := sample_db\<lparr>orders := [stuck_order]\<rparr>\<rparr>"

lemma wf_stuck: "wf_db (sv_db stuck_server)"
  by (simp add: wf_db_def stuck_server_def stuck_order_def sample_server_def sample_db_def empty_db_def sample_order_def sample_account_def)

lemma stuck_decide:
  "reclaim_decide sample_env sample_cfg (admin_rq ''admin'') ''o1'' True ''77'' stuck_server = (Inr (Reclaim stuck_order None), stuck_server)"
  using admin_rq_tokens(1)
  by (simp add: reclaim_decide_def hbind_def require_outcomes get_order_def stuck_server_def stuck_order_def sample_order_def is_active_def
      sample_server_def processing_age_seconds_def micros_def sample_env_def sample_cfg_def pending_request_def reclaim_target_def
      get_certificate_by_order_def sample_db_def empty_db_def Let_def)

theorem reclaim_authorized_witness:
  "\<exists>r sv3 row. reclaim_commit sample_env True stuck_order None stuck_server = (r, sv3) \<and> get_order ''o1'' (sv_db sv3) = Some row
     \<and> ord_status row = READY \<and> ord_pending_ca_request_id row = None"
proof -
  obtain r sv3 where run: "reclaim_commit sample_env True stuck_order None stuck_server = (r, sv3)" by force
  have "orders (sv_db (snd (reclaim_commit sample_env True stuck_order None stuck_server))) \<noteq> orders (sv_db stuck_server)"
    by (simp add: reclaim_commit_def hbind_def on_db_def reclaim_processing_order_def transition_processing_to_ready_def cas_orders_def
        upd_orders_def stuck_server_def stuck_order_def sample_order_def processing_cas_def pending_request_def Let_def case_prod_beta
        refresh_order_or_500_def get_order_def)
  then have "orders (sv_db sv3) \<noteq> orders (sv_db stuck_server)" using run by simp
  from reclaim_authorized [OF stuck_decide wf_stuck run this] run show ?thesis
    by (auto simp: pending_request_def stuck_order_def unmarked_def)
qed

definition proof_cert :: CertRow where
  "proof_cert = (sample_cert ''c1'' ''o1'' CertREVOKED)\<lparr>cert_pem := ''l'', cert_chain_pem := [''m'']\<rparr>"

definition proof_server :: server where
  "proof_server = sample_server\<lparr>sv_db := sample_db\<lparr>certificates := [proof_cert]\<rparr>\<rparr>"

definition proof_env :: env where
  "proof_env = sample_env\<lparr>en_now := 2000000000\<rparr>"

lemma proof_cert_simps [simp]:
  "cert_id proof_cert = ''c1''" "cert_serial proof_cert = Some ''12''" "cert_status proof_cert = CertREVOKED"
  "\<not> cert_ca_crl_updated proof_cert" "cert_pem proof_cert = ''l''" "cert_chain_pem proof_cert = [''m'']" "cert_order_id proof_cert = ''o1''"
  by (simp_all add: proof_cert_def sample_cert_def new_cert_row_def)

lemma wf_proof: "wf_db (sv_db proof_server)"
  by (simp add: wf_db_def proof_server_def sample_server_def sample_db_def empty_db_def sample_order_def sample_account_def)

lemma proof_check:
  "confirm_check (sample_crypto nothing [] []) proof_env sample_cfg (admin_rq ''confirm'') ''0x12'' proof_server
     = (Inr (Confirm proof_cert ''12'' False), proof_server)"
proof -
  have ser: "canonical_serial ''0x12'' = ''12''" "strip_space ''0x12'' \<noteq> []" by code_simp+
  have "read_body_limited (max_admin_body_size_bytes sample_cfg) (aq_request (admin_rq ''confirm'')) = Inr []"
    by (simp add: read_body_limited_def admin_rq_def sample_cfg_def DEFAULT_BODY_TOTAL_TIMEOUT_def)
  then show ?thesis using admin_rq_tokens(3) ser
    by (simp add: confirm_check_def hbind_def require_outcomes lift_def lift_fault_def crl_published_from_def HEX_DIGITS_def
        get_certificate_by_serial_def sample_serial proof_server_def sample_server_def sample_db_def Let_def)
qed

lemma proof_document:
  "fst (fetch_document (cx_ip_literal sample_network) (cx_resolve sample_network) (cx_send sample_network)
     \<lparr>fo_max_bytes = 10, fo_follow_redirects = False\<rparr> ''http://crl/'') = Fetched (Inr [48, 1, 2])"
  by code_simp

lemma proof_evidence:
  "\<exists>ev. crl_evidence_for sample_ee proof_env sample_cfg proof_cert proof_server = (Inr (Some ev), proof_server) \<and> ev_revoked ev"
proof -
  have n: "int_hex ''12'' = Some 18" by code_simp
  have ca: "issuing_ca_certificate sample_pki ''l'' [''m''] = Some mid_cert" by code_simp
  have wm: "read_crl_watermark k (sv_db proof_server) = None" for k
    by (simp add: read_crl_watermark_def find_watermark_def proof_server_def sample_server_def sample_db_def empty_db_def)
  have "\<exists>ev. fetch_for sample_ee sample_cfg (en_now proof_env) sample_network 18 proof_cert (sv_db proof_server) = Inr ev
      \<and> ev_revoked ev \<and> \<not> ev_regressed ev"
    using proof_document
    by (simp add: fetch_for_def crl_watermark_key_def ca wm sample_ee_def fetch_crl_evidence_def sample_cfg_def judge_document_def load_crl_def
        proof_lib_def sample_lib_def proof_crl_def sample_crl_def judge_signed_def judge_entry_def judge_of_def proof_env_def CLOCK_SKEW_def
        Let_def compare_to_watermark_def ev_regressed_def)
  then show ?thesis
    by (auto simp: crl_evidence_for_def n recover_issuer_evidence_def hbind_def sample_cfg_def sample_ee_def)
qed

theorem confirmation_proved_witness:
  "\<exists>ev r sv5. confirm_commit sample_ee proof_env sample_cfg proof_cert ''12'' False (Some ev) proof_server = (r, sv5)
     \<and> certificates (sv_db sv5) = [proof_cert\<lparr>cert_ca_crl_updated := True\<rparr>]"
proof -
  obtain ev where ev: "crl_evidence_for sample_ee proof_env sample_cfg proof_cert proof_server = (Inr (Some ev), proof_server)" "ev_revoked ev"
    using proof_evidence by blast
  obtain r sv5 where run: "confirm_commit sample_ee proof_env sample_cfg proof_cert ''12'' False (Some ev) proof_server = (r, sv5)" by force
  have certs: "certificates (sv_db proof_server) = [proof_cert]" by (simp add: proof_server_def)
  have w: "confirm_where ''12'' proof_cert" by (simp add: confirm_where_def awaiting_ca_def sample_serial)
  have "certificates (sv_db (snd (confirm_commit sample_ee proof_env sample_cfg proof_cert ''12'' False (Some ev) proof_server)))
      = [proof_cert\<lparr>cert_ca_crl_updated := True\<rparr>]"
    using ev(2) certs w by (simp add: confirm_commit_def hbind_def on_db_def Let_def case_prod_beta confirm_with_audit_tables)
  then have "certificates (sv_db sv5) \<noteq> certificates (sv_db proof_server)"
    using run certs proof_cert_simps(4) by (metis CertRow.select_convs(14) CertRow.surjective CertRow.update_convs(14) list.inject snd_conv)
  from confirmation_proved [OF wf_proof proof_check _ ev(1) run this] run certs w show ?thesis
    by (auto simp: sample_cfg_def)
qed

end
