(* ===== verification/AuditRetention.thy ===== *)
theory AuditRetention
  imports StoreCertificates
begin

text \<open>
  Audit retention (\<open>src/src/acme_adcs_ra/audit_retention.py\<close>): the floor, the gate on deletion,
  the sweep and the footprint. What the emitter says of itself is an argument: whether it is enabled, and
  whether its probe is delivered now. The reason of a decision is its constructor, without the prose.
\<close>

section \<open>The floor\<close>

definition RETENTION_FLOOR_GRACE_DAYS :: int where "RETENTION_FLOOR_GRACE_DAYS = 14"

record retention_config =
  audit_retention_days :: int
  audit_prune_enabled :: bool
  audit_offbox_required :: bool
  audit_store_warn_mib :: int

record siem_state =
  sm_enabled :: bool
  sm_probe_delivered :: bool

datatype retention_reason =
    NoWindow | PruneOff | OffboxNotRequired | NoEmitter | FloorUnknown | BelowFloor | Unhealthy | Healthy

record RetentionDecision =
  rd_may_prune :: bool
  rd_reason :: retention_reason
  rd_cutoff :: "timestamp option"
  rd_floor_days :: "int option"

definition retention_floor_days :: "db \<Rightarrow> int option" where
  "retention_floor_days s = map_option (\<lambda>d. d + RETENTION_FLOOR_GRACE_DAYS) (fst (certificate_validity_summary s))"

text \<open>\<open>False\<close> is \<open>RetentionFloorError\<close>.\<close>

definition assert_retention_above_floor :: "retention_config \<Rightarrow> db \<Rightarrow> bool" where
  "assert_retention_above_floor cfg s =
     (if audit_retention_days cfg \<le> 0 then True
      else case retention_floor_days s of None \<Rightarrow> True | Some floor \<Rightarrow> \<not> audit_retention_days cfg < floor)"

section \<open>The sweep\<close>

definition refuse :: "retention_reason \<Rightarrow> int option \<Rightarrow> RetentionDecision" where
  "refuse r floor = \<lparr>rd_may_prune = False, rd_reason = r, rd_cutoff = None, rd_floor_days = floor\<rparr>"

definition days_ago :: "clock \<Rightarrow> int \<Rightarrow> timestamp" where
  "days_ago now days = now_iso (now - days * 86400 * 1000000)"

definition evaluate_retention :: "clock \<Rightarrow> retention_config \<Rightarrow> db \<Rightarrow> siem_state option \<Rightarrow> RetentionDecision" where
  "evaluate_retention now cfg s siem =
     (let floor = retention_floor_days s in
      if audit_retention_days cfg \<le> 0 then refuse NoWindow floor
      else if \<not> audit_prune_enabled cfg then refuse PruneOff floor
      else if \<not> audit_offbox_required cfg then refuse OffboxNotRequired floor
      else case siem of
          None \<Rightarrow> refuse NoEmitter floor
        | Some emitter \<Rightarrow>
            if \<not> sm_enabled emitter then refuse NoEmitter floor
            else case floor of
                None \<Rightarrow> refuse FloorUnknown None
              | Some f \<Rightarrow>
                  if audit_retention_days cfg < f then refuse BelowFloor floor
                  else if \<not> sm_probe_delivered emitter then refuse Unhealthy floor
                  else \<lparr>rd_may_prune = True, rd_reason = Healthy, rd_cutoff = Some (days_ago now (audit_retention_days cfg)),
                         rd_floor_days = floor\<rparr>)"

definition run_sweep ::
  "ext \<Rightarrow> clock \<Rightarrow> retention_config \<Rightarrow> siem_state option \<Rightarrow> db \<Rightarrow> (nat \<times> RetentionDecision) \<times> db" where
  "run_sweep x now cfg siem s =
     (let decision = evaluate_retention now cfg s siem in
      case (rd_may_prune decision, rd_cutoff decision) of
        (True, Some cutoff) \<Rightarrow>
          (let (deleted, s1) = delete_audit_rows_before cutoff s;
               (event, s2) = record_audit x now (audit_ev ''audit-retention-swept'' None None ''success''
                 [(''cutoff'', JInt cutoff), (''rows_deleted'', JInt (int deleted)),
                  (''retention_days'', JInt (audit_retention_days cfg)),
                  (''floor_days'', case rd_floor_days decision of None \<Rightarrow> JNull | Some f \<Rightarrow> JInt f)]) s1
           in ((deleted, decision), s2))
      | _ \<Rightarrow> ((0, decision), s))"

section \<open>The footprint\<close>

record footprint =
  fp_rows :: nat
  fp_oldest :: "timestamp option"
  fp_newest :: "timestamp option"
  fp_db_bytes :: int

text \<open>The sizes of the database file and its two companions, where they exist.\<close>

definition audit_footprint :: "int option list \<Rightarrow> db \<Rightarrow> footprint" where
  "audit_footprint sizes s =
     (let times = map aud_timestamp (audit_log s) in
      \<lparr>fp_rows = length times, fp_oldest = (if times = [] then None else Some (Min (set times))),
       fp_newest = (if times = [] then None else Some (Max (set times))),
       fp_db_bytes = sum_list (map (\<lambda>v. case v of None \<Rightarrow> 0 | Some n \<Rightarrow> n) sizes)\<rparr>)"

record footprint_report =
  fr_stats :: footprint
  fr_jsonl_bytes :: int
  fr_total_bytes :: int
  fr_warn_bytes :: int
  fr_over_threshold :: bool

definition footprint_report_of :: "retention_config \<Rightarrow> int option list \<Rightarrow> int \<Rightarrow> db \<Rightarrow> footprint_report" where
  "footprint_report_of cfg sizes jsonl_bytes s =
     (let stats = audit_footprint sizes s; total = fp_db_bytes stats + jsonl_bytes;
          warn_bytes = audit_store_warn_mib cfg * 1024 * 1024
      in \<lparr>fr_stats = stats, fr_jsonl_bytes = jsonl_bytes, fr_total_bytes = total, fr_warn_bytes = warn_bytes,
          fr_over_threshold = (warn_bytes \<noteq> 0 \<and> total > warn_bytes)\<rparr>)"

section \<open>What the sweep may delete\<close>

lemma run_sweep_cases:
  obtains (kept) d where "run_sweep x now cfg siem s = ((0, d), s)" "\<not> rd_may_prune d"
  | (swept) floor e where "retention_floor_days s = Some floor" "floor \<le> audit_retention_days cfg" "0 < audit_retention_days cfg"
      "audit_prune_enabled cfg" "audit_offbox_required cfg" "\<exists>m. siem = Some m \<and> sm_enabled m \<and> sm_probe_delivered m"
      "snd (run_sweep x now cfg siem s) =
         s\<lparr>audit_log := filter (\<lambda>r. days_ago now (audit_retention_days cfg) \<le> aud_timestamp r) (audit_log s) @ [e],
           audit_seq := Suc (audit_seq s)\<rparr>"
      "aud_event_type e = ''audit-retention-swept''" "aud_timestamp e = now_iso now"
proof (cases "rd_may_prune (evaluate_retention now cfg s siem)")
  case False
  then have "run_sweep x now cfg siem s = ((0, evaluate_retention now cfg s siem), s)"
    by (simp add: run_sweep_def Let_def)
  with False show thesis using kept by blast
next
  case True
  then obtain floor m where c: "0 < audit_retention_days cfg" "audit_prune_enabled cfg" "audit_offbox_required cfg" "siem = Some m"
      "sm_enabled m" "sm_probe_delivered m" "retention_floor_days s = Some floor" "floor \<le> audit_retention_days cfg"
    by (auto simp: evaluate_retention_def refuse_def Let_def split: if_splits option.splits)
  show thesis
    by (rule swept [OF c(7,8,1-3), of "fst (record_audit x now (audit_ev ''audit-retention-swept'' None None ''success''
                 [(''cutoff'', JInt (days_ago now (audit_retention_days cfg))),
                  (''rows_deleted'', JInt (int (fst (delete_audit_rows_before (days_ago now (audit_retention_days cfg)) s)))),
                  (''retention_days'', JInt (audit_retention_days cfg)), (''floor_days'', JInt floor)])
                 (snd (delete_audit_rows_before (days_ago now (audit_retention_days cfg)) s)))"])
      (use c in \<open>simp_all add: run_sweep_def evaluate_retention_def Let_def case_prod_beta record_audit_def record_audit_in_conn_def
         delete_audit_rows_before_def not_less\<close>)
qed

text \<open>Evidence that is still needed: a row since the start of a certificate that is valid, or expired at most fourteen days ago.\<close>

definition live_evidence :: "clock \<Rightarrow> db \<Rightarrow> AuditRow \<Rightarrow> bool" where
  "live_evidence now s r \<longleftrightarrow>
     (\<exists>c \<in> set (certificates s). \<exists>nb na. cert_not_before c = Some nb \<and> cert_not_after c = Some na
        \<and> now \<le> (na + 14 * 86400) * 1000000 \<and> nb \<le> aud_timestamp r)"

lemma live_evidence_in_window:
  assumes "retention_floor_days s = Some floor" "floor \<le> audit_retention_days cfg" "live_evidence now s r"
  shows "days_ago now (audit_retention_days cfg) \<le> aud_timestamp r"
proof -
  obtain c nb na where c: "c \<in> set (certificates s)" "cert_not_before c = Some nb" "cert_not_after c = Some na"
    "now \<le> (na + 14 * 86400) * 1000000" "nb \<le> aud_timestamp r"
    using assms(3) by (auto simp: live_evidence_def)
  obtain longest where l: "fst (certificate_validity_summary s) = Some longest" "longest + 14 \<le> audit_retention_days cfg"
    using assms(1,2) by (auto simp: retention_floor_days_def RETENTION_FLOOR_GRACE_DAYS_def)
  then have "na \<le> nb + longest * 86400"
    using validity_summary_bound [of s] c(1-3) by (cases "certificate_validity_summary s") (auto simp: list_all_iff)
  then have "days_ago now (audit_retention_days cfg) \<le> nb"
    using c(4) l(2) by (simp add: days_ago_def now_iso_def micros_def)
  with c(5) show ?thesis by simp
qed

text \<open>
  C31. A retention sweep deletes no audit row that is younger than the configured window, and none written since the start of
  a certificate that is still valid or expired at most fourteen days ago. It deletes at all only with a window
  that is at least the longest validity of a stored certificate plus those fourteen days, pruning enabled, off-box audit
  required and a probe delivered at that moment; it then deletes exactly the rows before the window, appends its own row,
  and changes nothing else in the store. Otherwise the store is as it was.
\<close>

theorem sweep_keeps_live_evidence:
  "(\<forall>r \<in> set (audit_log s). days_ago now (audit_retention_days cfg) \<le> aud_timestamp r \<or> live_evidence now s r \<longrightarrow>
      r \<in> set (audit_log (snd (run_sweep x now cfg siem s))))
   \<and> (snd (run_sweep x now cfg siem s) = s
      \<or> (audit_offbox_required cfg \<and> audit_prune_enabled cfg \<and> 0 < audit_retention_days cfg
         \<and> (\<exists>floor. retention_floor_days s = Some floor \<and> floor \<le> audit_retention_days cfg)
         \<and> (\<exists>m. siem = Some m \<and> sm_enabled m \<and> sm_probe_delivered m)
         \<and> (\<exists>e. aud_event_type e = ''audit-retention-swept'' \<and> snd (run_sweep x now cfg siem s) =
              s\<lparr>audit_log := filter (\<lambda>r. days_ago now (audit_retention_days cfg) \<le> aud_timestamp r) (audit_log s) @ [e],
                audit_seq := Suc (audit_seq s)\<rparr>)))"
proof (cases rule: run_sweep_cases [of x now cfg siem s])
  case (kept d)
  then show ?thesis by simp
next
  case (swept floor e)
  have "r \<in> set (audit_log (snd (run_sweep x now cfg siem s)))"
    if "r \<in> set (audit_log s)" "days_ago now (audit_retention_days cfg) \<le> aud_timestamp r \<or> live_evidence now s r" for r
    using that live_evidence_in_window [OF swept(1,2), of now r] by (auto simp: swept(7))
  with swept show ?thesis by blast
qed

definition sweep_row :: "timestamp \<Rightarrow> AuditRow" where
  "sweep_row t = fst (record_audit sample_ext (t * 1000000) (audit_ev ''certificate-issued'' None None ''success'' []) certs_db)"

definition sweep_db :: db where
  "sweep_db = certs_db\<lparr>audit_log := [sweep_row (- 9), sweep_row 5]\<rparr>"

definition sweep_config :: retention_config where
  "sweep_config = \<lparr>audit_retention_days = 15, audit_prune_enabled = True, audit_offbox_required = True, audit_store_warn_mib = 0\<rparr>"

definition live_siem :: siem_state where "live_siem = \<lparr>sm_enabled = True, sm_probe_delivered = True\<rparr>"

lemma sweep_row_time: "aud_timestamp (sweep_row t) = t"
  by (simp add: sweep_row_def record_audit_def now_iso_def micros_def)

theorem sweep_keeps_live_evidence_witness:
  "sweep_row 5 \<in> set (audit_log (snd (run_sweep sample_ext 1296000000000 sweep_config (Some live_siem) sweep_db)))
   \<and> sweep_row (- 9) \<notin> set (audit_log (snd (run_sweep sample_ext 1296000000000 sweep_config (Some live_siem) sweep_db)))"
proof
  have "live_evidence 1296000000000 sweep_db (sweep_row 5)" "sweep_row 5 \<in> set (audit_log sweep_db)"
    by (auto simp: live_evidence_def sweep_db_def certs_db_def sample_cert_def new_cert_row_def sweep_row_time)
  with sweep_keeps_live_evidence [of sweep_db 1296000000000 sweep_config sample_ext "Some live_siem"]
  show "sweep_row 5 \<in> set (audit_log (snd (run_sweep sample_ext 1296000000000 sweep_config (Some live_siem) sweep_db)))" by blast
  have f: "retention_floor_days sweep_db = Some 15"
    by (simp add: retention_floor_days_def certificate_validity_summary_def sweep_db_def certs_db_def sample_cert_def new_cert_row_def
        validity_unknown_def validity_days_def RETENTION_FLOOR_GRACE_DAYS_def)
  have "rd_may_prune (snd (fst (run_sweep sample_ext 1296000000000 sweep_config (Some live_siem) sweep_db)))"
    by (simp add: run_sweep_def evaluate_retention_def f sweep_config_def live_siem_def Let_def case_prod_beta)
  then show "sweep_row (- 9) \<notin> set (audit_log (snd (run_sweep sample_ext 1296000000000 sweep_config (Some live_siem) sweep_db)))"
    by (cases rule: run_sweep_cases [of sample_ext 1296000000000 sweep_config "Some live_siem" sweep_db])
      (auto simp: sweep_config_def days_ago_def now_iso_def micros_def sweep_row_time dest: arg_cong [of _ _ aud_timestamp])
qed

end
