(* ===== verification/Certfnsh.thy ===== *)
theory Certfnsh
  imports StoreBase
begin

text \<open>
  What the enrollment leg reads off the answer page of \<open>certfnsh.asp\<close>
  (\<open>_parse_certfnsh_disposition\<close> of \<open>src/src/acme_adcs_ra/enrollment.py\<close>). The regular expressions
  are written out as matchers on the text; each of them has at most one match at a given position,
  so no backtracking is left out. The diagnostic text of an unrecognized page is not modelled.
\<close>

section \<open>Matchers\<close>

definition is_digit_char :: "char \<Rightarrow> bool" where
  "is_digit_char c = (let n = (of_char c :: nat) in 48 \<le> n \<and> n \<le> 57)"

text \<open>\<open>\w\<close>: letters, digits and numeric signs of the range, and the underscore.\<close>

definition is_word_char :: "char \<Rightarrow> bool" where
  "is_word_char c = (let n = (of_char c :: nat) in
     (48 \<le> n \<and> n \<le> 57) \<or> (65 \<le> n \<and> n \<le> 90) \<or> (97 \<le> n \<and> n \<le> 122) \<or> n = 95
     \<or> n \<in> {170, 178, 179, 181, 185, 186, 188, 189, 190} \<or> (192 \<le> n \<and> n \<noteq> 215 \<and> n \<noteq> 247))"

text \<open>What follows a literal at the start of a text, as written and in any case.\<close>

fun after_prefix :: "string \<Rightarrow> string \<Rightarrow> string option" where
  "after_prefix [] s = Some s"
| "after_prefix (p # ps) (c # cs) = (if p = c then after_prefix ps cs else None)"
| "after_prefix (p # ps) [] = None"

definition after_prefix_ci :: "string \<Rightarrow> string \<Rightarrow> string option" where
  "after_prefix_ci p s =
     (if prefix (lower p) (lower s) then Some (drop (length p) s) else None)"

text \<open>\<open>re.search\<close>: the first position where a matcher succeeds, with what it yields.\<close>

fun re_search :: "(string \<Rightarrow> 'a option) \<Rightarrow> string \<Rightarrow> 'a option" where
  "re_search m [] = m []"
| "re_search m (c # cs) = (case m (c # cs) of Some v \<Rightarrow> Some v | None \<Rightarrow> re_search m cs)"

text \<open>\<open>re.sub\<close> with the empty text, for a matcher that yields the length of its non-empty match.\<close>

fun re_delete :: "(string \<Rightarrow> nat option) \<Rightarrow> nat \<Rightarrow> string \<Rightarrow> string" where
  "re_delete m k [] = []"
| "re_delete m (Suc k) (c # cs) = re_delete m k cs"
| "re_delete m 0 (c # cs) =
     (case m (c # cs) of Some n \<Rightarrow> re_delete m (n - 1) cs | None \<Rightarrow> c # re_delete m 0 cs)"

section \<open>The page without scripts and comments\<close>

definition consumed :: "string \<Rightarrow> string option \<Rightarrow> nat option" where
  "consumed s rest = map_option (\<lambda>r. length s - length r) rest"

definition script_block :: "string \<Rightarrow> nat option" where
  "script_block s = consumed s
     (case after_prefix_ci ''<script'' s of
        None \<Rightarrow> None
      | Some r \<Rightarrow>
          if (case r of [] \<Rightarrow> False | c # _ \<Rightarrow> is_word_char c) then None
          else (case re_search (after_prefix ''>'') r of
                  None \<Rightarrow> None
                | Some body \<Rightarrow> re_search (after_prefix_ci ''</script>'') body))"

definition comment_block :: "string \<Rightarrow> nat option" where
  "comment_block s = consumed s
     (case after_prefix ''<!--'' s of None \<Rightarrow> None | Some r \<Rightarrow> re_search (after_prefix ''-->'') r)"

definition clean_page :: "string \<Rightarrow> string" where
  "clean_page body = re_delete comment_block 0 (re_delete script_block 0 body)"

section \<open>The signals\<close>

datatype disposition = Issued string | Pending string | Denied string | Unknown

definition digits_after :: "string option \<Rightarrow> (string \<times> string) option" where
  "digits_after rest =
     (case rest of
        None \<Rightarrow> None
      | Some r \<Rightarrow> let d = takeWhile is_digit_char r in if d = [] then None else Some (d, dropWhile is_digit_char r))"

definition download_link :: "string \<Rightarrow> string option" where
  "download_link s =
     (case digits_after (after_prefix ''certnew.cer?ReqID='' s) of
        Some (d, CHR ''&'' # _) \<Rightarrow> Some d
      | _ \<Rightarrow> None)"

definition disposition_message :: "string \<Rightarrow> string option" where
  "disposition_message s =
     (case after_prefix (''The disposition message is '' @ [CHR 0x22]) s of
        None \<Rightarrow> None
      | Some r \<Rightarrow> let m = takeWhile (\<lambda>c. c \<noteq> CHR 0x22) r in if m = [] then None else Some m)"

definition request_id :: "string \<Rightarrow> string option" where
  "request_id s = map_option fst (digits_after (after_prefix ''ReqID='' s))"

definition your_request_id :: "string \<Rightarrow> string option" where
  "your_request_id s = map_option fst (digits_after (after_prefix_ci ''Your Request Id is '' s))"

definition contains_ci :: "string \<Rightarrow> string \<Rightarrow> bool" where
  "contains_ci p s = (re_search (after_prefix_ci p) s \<noteq> None)"

text \<open>
  One match of a word, white space and a quoted message of at least five characters: the message
  and the length of the match.
\<close>

definition quoted_message :: "string \<Rightarrow> (string \<times> nat) option" where
  "quoted_message s =
     (let w = takeWhile is_word_char s; r = dropWhile is_word_char s;
          b = takeWhile is_space r; r2 = dropWhile is_space r
      in if w = [] \<or> b = [] then None
         else case r2 of
             [] \<Rightarrow> None
           | q # r3 \<Rightarrow>
               let m = takeWhile (\<lambda>c. c \<noteq> CHR 0x22) r3 in
               if q = CHR 0x22 \<and> 5 \<le> length m \<and> length m < length r3
               then Some (m, length w + length b + length m + 2) else None)"

text \<open>\<open>re.finditer\<close>: the flag says whether the character before is a word character.\<close>

fun quoted_messages :: "bool \<Rightarrow> nat \<Rightarrow> string \<Rightarrow> string list" where
  "quoted_messages w k [] = []"
| "quoted_messages w (Suc k) (c # cs) = quoted_messages (is_word_char c) k cs"
| "quoted_messages w 0 (c # cs) =
     (case (if w then None else quoted_message (c # cs)) of
        None \<Rightarrow> quoted_messages (is_word_char c) 0 cs
      | Some (m, n) \<Rightarrow> m # quoted_messages (is_word_char c) (n - 1) cs)"

definition denial_candidate :: "string \<Rightarrow> bool" where
  "denial_candidate m \<longleftrightarrow> \<not> contains ''://'' m \<and> \<not> contains ''certnew.cer'' (lower m)"

definition loose_denial :: "string \<Rightarrow> string option" where
  "loose_denial s = find denial_candidate (quoted_messages False 0 s)"

definition english_denial :: "string \<Rightarrow> string option" where
  "english_denial clean =
     (case re_search disposition_message clean of
        Some m \<Rightarrow> Some m
      | None \<Rightarrow> if contains_ci ''your certificate request was denied'' clean
                then Some ''the CA denied the request'' else None)"

definition english_pending :: "string \<Rightarrow> string option" where
  "english_pending clean =
     (let pending_id = re_search your_request_id clean in
      if pending_id \<noteq> None \<or> contains_ci ''Certificate Pending'' clean
      then Some (case pending_id of Some i \<Rightarrow> i | None \<Rightarrow> ''?'') else None)"

definition parse_certfnsh_disposition :: "string \<Rightarrow> string \<Rightarrow> disposition" where
  "parse_certfnsh_disposition body locale =
     (let is_english = (locale = ''en''); clean = clean_page body in
      case re_search download_link clean of
        Some i \<Rightarrow> Issued i
      | None \<Rightarrow>
        (case if is_english then english_denial clean else None of
           Some m \<Rightarrow> Denied m
         | None \<Rightarrow>
           (case re_search request_id clean of
              Some i \<Rightarrow> Pending i
            | None \<Rightarrow>
              (case if is_english then english_pending clean else None of
                 Some i \<Rightarrow> Pending i
               | None \<Rightarrow>
                 (case if is_english then None else loose_denial clean of
                    Some m \<Rightarrow> Denied m
                  | None \<Rightarrow> Unknown)))))"

section \<open>Search and occurrence\<close>

lemma re_search_iff: "re_search m s \<noteq> None \<longleftrightarrow> (\<exists>a b. s = a @ b \<and> m b \<noteq> None)"
proof (induction s)
  case Nil
  then show ?case by simp
next
  case (Cons c cs)
  have "(\<exists>a b. c # cs = a @ b \<and> m b \<noteq> None) \<longleftrightarrow> m (c # cs) \<noteq> None \<or> (\<exists>a b. cs = a @ b \<and> m b \<noteq> None)"
    by (auto simp: Cons_eq_append_conv)
  with Cons show ?case by (auto split: option.splits)
qed

lemma re_search_first:
  "re_search m s = Some v \<Longrightarrow> \<exists>a b. s = a @ b \<and> m b = Some v \<and> (\<forall>a' b'. s = a' @ b' \<longrightarrow> length a' < length a \<longrightarrow> m b' = None)"
proof (induction s)
  case Nil
  then show ?case by simp
next
  case (Cons c cs)
  show ?case
  proof (cases "m (c # cs)")
    case None
    with Cons obtain a b where ab: "cs = a @ b" "m b = Some v" "\<And>a' b'. cs = a' @ b' \<Longrightarrow> length a' < length a \<Longrightarrow> m b' = None"
      by auto
    have "m b' = None" if "c # cs = a' @ b'" "length a' < length (c # a)" for a' b'
      using that None ab(3) by (cases a') auto
    with ab(1,2) show ?thesis by (intro exI [of _ "c # a"] exI [of _ b]) auto
  next
    case (Some w)
    with Cons.prems show ?thesis by (intro exI [of _ "[]"] exI [of _ "c # cs"]) auto
  qed
qed

lemma re_search_some_iff:
  "re_search m s = Some v \<longleftrightarrow>
     (\<exists>a b. s = a @ b \<and> m b = Some v \<and> (\<forall>a' b'. s = a' @ b' \<longrightarrow> length a' < length a \<longrightarrow> m b' = None))"
proof
  assume "\<exists>a b. s = a @ b \<and> m b = Some v \<and> (\<forall>a' b'. s = a' @ b' \<longrightarrow> length a' < length a \<longrightarrow> m b' = None)"
  then obtain a b where ab: "s = a @ b" "m b = Some v" "\<And>a' b'. s = a' @ b' \<Longrightarrow> length a' < length a \<Longrightarrow> m b' = None"
    by blast
  then obtain w where w: "re_search m s = Some w" using re_search_iff [of m s] by fastforce
  from re_search_first [OF this] obtain a2 b2 where ab2: "s = a2 @ b2" "m b2 = Some w"
      "\<And>a' b'. s = a' @ b' \<Longrightarrow> length a' < length a2 \<Longrightarrow> m b' = None" by blast
  have "length a = length a2"
    using ab(3) [OF ab2(1)] ab2(3) [OF ab(1)] ab(2) ab2(2) by (metis linorder_neqE_nat option.distinct(1))
  with ab(1) ab2(1) have "b = b2" by auto
  with ab(2) ab2(2) w show "re_search m s = Some v" by simp
qed (rule re_search_first)

lemma after_prefix_iff: "after_prefix p s = Some r \<longleftrightarrow> s = p @ r"
  by (induction p s rule: after_prefix.induct) auto

lemma digits_after_iff:
  "digits_after rest = Some (d, r) \<longleftrightarrow>
     rest = Some (d @ r) \<and> d \<noteq> [] \<and> list_all is_digit_char d \<and> (case r of [] \<Rightarrow> True | c # _ \<Rightarrow> \<not> is_digit_char c)"
proof (cases rest)
  case None
  then show ?thesis by (simp add: digits_after_def)
next
  case (Some s)
  have "takeWhile is_digit_char (d @ r) = d \<and> dropWhile is_digit_char (d @ r) = r"
    if "list_all is_digit_char d" "case r of [] \<Rightarrow> True | c # _ \<Rightarrow> \<not> is_digit_char c"
    using that by (cases r) (auto simp: list_all_iff)
  moreover have "list_all is_digit_char (takeWhile is_digit_char s)"
    by (auto simp: list_all_iff dest: set_takeWhileD)
  moreover have "case dropWhile is_digit_char s of [] \<Rightarrow> True | c # _ \<Rightarrow> \<not> is_digit_char c"
    by (auto split: list.splits dest: dropWhile_eq_Cons_conv [THEN iffD1])
  ultimately show ?thesis
    by (auto simp: Some digits_after_def Let_def)
qed

lemma download_link_iff:
  "download_link s = Some d \<longleftrightarrow> (\<exists>r. s = ''certnew.cer?ReqID='' @ d @ ''&'' @ r) \<and> d \<noteq> [] \<and> list_all is_digit_char d"
proof -
  have amp: "\<not> is_digit_char CHR ''&''" by (simp add: is_digit_char_def)
  have "download_link s = Some d \<longleftrightarrow> (\<exists>r. digits_after (after_prefix ''certnew.cer?ReqID='' s) = Some (d, CHR ''&'' # r))"
    by (auto simp: download_link_def split: option.splits prod.splits list.splits char.splits bool.splits)
  also have "\<dots> \<longleftrightarrow> (\<exists>r. after_prefix ''certnew.cer?ReqID='' s = Some (d @ CHR ''&'' # r)) \<and> d \<noteq> [] \<and> list_all is_digit_char d"
    by (simp add: digits_after_iff amp)
  finally show ?thesis by (simp only: after_prefix_iff append_Cons append_Nil)
qed

definition issue_link :: "string \<Rightarrow> string" where
  "issue_link i = ''certnew.cer?ReqID='' @ i @ ''&''"

text \<open>
  C33. The leg reads a page as issued exactly when, with scripts and comments removed, it holds a
  download link with a decimal request number; the number is the one of the first such link. Every other
  reading, denial included, is of a page without one.
\<close>

theorem disposition_issued_iff:
  "parse_certfnsh_disposition body locale = Issued i \<longleftrightarrow>
     (\<exists>a b. clean_page body = a @ issue_link i @ b \<and> i \<noteq> [] \<and> list_all is_digit_char i
        \<and> \<not> (\<exists>a' j b'. clean_page body = a' @ issue_link j @ b' \<and> j \<noteq> [] \<and> list_all is_digit_char j \<and> length a' < length a))"
proof -
  let ?c = "clean_page body"
  have "parse_certfnsh_disposition body locale = Issued i \<longleftrightarrow> re_search download_link ?c = Some i"
    by (auto simp: parse_certfnsh_disposition_def Let_def split: option.splits)
  also have "\<dots> \<longleftrightarrow> (\<exists>a b. ?c = a @ issue_link i @ b \<and> i \<noteq> [] \<and> list_all is_digit_char i
        \<and> \<not> (\<exists>a' j b'. ?c = a' @ issue_link j @ b' \<and> j \<noteq> [] \<and> list_all is_digit_char j \<and> length a' < length a))"
  proof -
    have none: "download_link b' = None \<longleftrightarrow> \<not> (\<exists>j r. b' = issue_link j @ r \<and> j \<noteq> [] \<and> list_all is_digit_char j)" for b'
      using download_link_iff [of b'] unfolding issue_link_def append_assoc by (metis not_None_eq)
    show ?thesis
      by (simp only: re_search_some_iff download_link_iff none append_assoc issue_link_def) blast
  qed
  finally show ?thesis .
qed

end
