(* ===== verification/EnrollmentLeg.thy ===== *)
theory EnrollmentLeg
  imports Certfnsh Finalize CrlWatermark Jwk
begin

text \<open>
  The enrollment leg against the CA's web enrollment pages
  (\<open>CertsrvEnrollmentLeg\<close> of \<open>src/src/acme_adcs_ra/enrollment.py\<close>) and the fixture leg. Its answer is
  the argument of the finalize model. The session is a parameter: for each request, whether the total
  deadline has passed at the two checks around it, and the response, if the call does not raise. X.509, PKCS#7
  and the text codec of a response are parameters as well, and so is the wording of a failure.
\<close>

section \<open>Responses\<close>

text \<open>
  One turn of the streaming loop: the deadline check before the read fires, the read raises, or it yields
  a chunk (the empty one ends the body). When the events run out, the body has ended.
\<close>

datatype read1_event = ReadLate | ReadRaises | ReadChunk bytes

text \<open>A buffered body carries the two deadline checks around it; the final check of a stream is a flag.\<close>

datatype http_content =
    Buffered bool bytes bool
  | Streamed "read1_event list" bool

record http_response =
  hr_status :: int
  hr_content_length :: "string option"
  hr_encoding :: "string option"
  hr_content :: http_content

record exchange =
  ex_late_before :: bool
  ex_response :: "http_response option"
  ex_late_after :: bool

record http_session =
  hs_post :: "string \<Rightarrow> (string \<times> string) list \<Rightarrow> exchange"
  hs_get :: "string \<Rightarrow> (string \<times> string) list \<Rightarrow> exchange"

section \<open>Failures\<close>

datatype leg_failure =
    TotalDeadline | Redirected string | Declared string | Oversized string | Unrecognized
  | NotACertificate | CsrUnreadable | IssuedUnreadable | KeyMismatch | CommonNameNotText | CommonNameOutOfScope
  | ChainUnparseable | ChainUnreadable | ChainMismatch

datatype leg_exception =
    RaiseDenied string
  | RaisePending string
  | RaiseTransport leg_failure "string option"
  | RaiseOther

text \<open>What the CA has already committed to.\<close>

record tracked =
  issued_req_id :: "string option"
  issued_cert_pem :: "string option"
  issued_chain_pem :: "string list"

type_synonym 'a leg_step = "tracked \<Rightarrow> (leg_exception + 'a) \<times> tracked"

definition lreturn :: "'a \<Rightarrow> 'a leg_step" where "lreturn v t = (Inr v, t)"

definition lbind :: "'a leg_step \<Rightarrow> ('a \<Rightarrow> 'b leg_step) \<Rightarrow> 'b leg_step" where
  "lbind m f t = (case m t of (Inl e, t') \<Rightarrow> (Inl e, t') | (Inr v, t') \<Rightarrow> f v t')"

definition leg_lift :: "leg_exception + 'a \<Rightarrow> 'a leg_step" where "leg_lift r t = (r, t)"

definition track :: "(tracked \<Rightarrow> tracked) \<Rightarrow> unit leg_step" where "track f t = (Inr (), f t)"

definition transport :: "leg_failure \<Rightarrow> leg_exception" where "transport f = RaiseTransport f None"

section \<open>What the leg reads with\<close>

datatype 'a loaded = Loaded 'a | ValueOrTypeError | OtherError

record leg_cert =
  lc_spki :: "string option"
  lc_subject :: string
  lc_issuer :: string
  lc_common_names :: "attr_value list"
  lc_pem :: string

datatype verified = Verifies | NotVerified | VerifyError

record leg_lib =
  ll_decode :: "string option \<Rightarrow> bytes \<Rightarrow> string"
  ll_load_csr :: "string \<Rightarrow> string option loaded"
  ll_load_pem :: "string \<Rightarrow> leg_cert loaded"
  ll_load_der :: "bytes \<Rightarrow> leg_cert loaded"
  ll_load_pkcs7 :: "bytes \<Rightarrow> leg_cert list loaded"
  ll_issued_by :: "leg_cert \<Rightarrow> leg_cert \<Rightarrow> verified"
  ll_text :: "leg_failure \<Rightarrow> string"
  ll_other_text :: string

record certsrv_leg =
  le_host :: string
  le_template :: string
  le_ca_name :: "string option"
  le_locale :: string
  le_max_response_bytes :: nat
  le_injected :: bool

section \<open>One request\<close>

definition reject_redirect :: "string \<Rightarrow> http_response \<Rightarrow> leg_exception + unit" where
  "reject_redirect what resp =
     (if 300 \<le> hr_status resp \<and> hr_status resp < 400 then Inl (transport (Redirected what)) else Inr ())"

text \<open>\<open>resp.raise_for_status()\<close>: \<open>HTTPError\<close> for 4xx and 5xx.\<close>

definition raise_for_status :: "http_response \<Rightarrow> leg_exception + unit" where
  "raise_for_status resp = (if 400 \<le> hr_status resp \<and> hr_status resp < 600 then Inl RaiseOther else Inr ())"

definition deadline_check :: "bool \<Rightarrow> leg_exception + unit" where
  "deadline_check late = (if late then Inl (transport TotalDeadline) else Inr ())"

text \<open>The streaming loop, with the bytes received so far; it stops after the first chunk beyond the limit.\<close>

fun read_stream :: "nat \<Rightarrow> bytes \<Rightarrow> read1_event list \<Rightarrow> leg_exception + bytes" where
  "read_stream max_bytes received [] = Inr received"
| "read_stream max_bytes received (e # es) =
     (if length received > max_bytes then Inr received
      else case e of
          ReadLate \<Rightarrow> Inl (transport TotalDeadline)
        | ReadRaises \<Rightarrow> Inl RaiseOther
        | ReadChunk chunk \<Rightarrow> if chunk = [] then Inr received else read_stream max_bytes (received @ chunk) es)"

text \<open>\<open>int(header)\<close>, which refuses a text of more than 4300 digits.\<close>

definition header_int :: "string \<Rightarrow> int option" where
  "header_int d = (if length (filter is_digit_char d) > 4300 then None else py_int d)"

definition read_capped_body :: "nat \<Rightarrow> string \<Rightarrow> http_response \<Rightarrow> leg_exception + bytes" where
  "read_capped_body max_bytes what resp =
     (if (case hr_content_length resp of
            None \<Rightarrow> False
          | Some d \<Rightarrow> (case header_int d of None \<Rightarrow> False | Some n \<Rightarrow> n > int max_bytes))
      then Inl (transport (Declared what))
      else case hr_content resp of
          Buffered late_before body late_after \<Rightarrow>
            rbind (deadline_check late_before) (\<lambda>_. rbind (deadline_check late_after) (\<lambda>_.
              if length body > max_bytes then Inl (transport (Oversized what)) else Inr body))
        | Streamed events late \<Rightarrow>
            rbind (read_stream max_bytes [] events) (\<lambda>body. rbind (deadline_check late) (\<lambda>_.
              if length body > max_bytes then Inl (transport (Oversized what)) else Inr body)))"

definition open_response :: "certsrv_leg \<Rightarrow> string \<Rightarrow> exchange \<Rightarrow> leg_exception + http_response \<times> bytes" where
  "open_response leg what ex =
     rbind (deadline_check (ex_late_before ex)) (\<lambda>_.
       case ex_response ex of
         None \<Rightarrow> Inl RaiseOther
       | Some resp \<Rightarrow>
           rbind (reject_redirect what resp) (\<lambda>_.
           rbind (raise_for_status resp) (\<lambda>_.
           rbind (read_capped_body (le_max_response_bytes leg) what resp) (\<lambda>body. Inr (resp, body)))))"

definition decode_body :: "leg_lib \<Rightarrow> http_response \<Rightarrow> bytes \<Rightarrow> string" where
  "decode_body lib resp body = ll_decode lib (hr_encoding resp) body"

section \<open>The certificate\<close>

text \<open>White space of \<open>bytes\<close>, its stripping, and base64 with and without validation.\<close>

definition ascii_space :: "nat \<Rightarrow> bool" where
  "ascii_space b \<longleftrightarrow> b \<in> {9, 10, 11, 12, 13, 32}"

definition strip_bytes :: "bytes \<Rightarrow> bytes" where
  "strip_bytes b = rev (dropWhile ascii_space (rev (dropWhile ascii_space b)))"

definition text_of :: "bytes \<Rightarrow> string" where "text_of b = map char_of b"

definition standard_alphabet :: "char \<Rightarrow> bool" where
  "standard_alphabet c \<longleftrightarrow> b64_val c \<noteq> None \<and> c \<noteq> CHR ''-'' \<and> c \<noteq> CHR ''_''"

definition b64decode :: "string \<Rightarrow> bytes option" where
  "b64decode s = (case b64_loop (filter (\<lambda>c. c \<noteq> CHR ''-'' \<and> c \<noteq> CHR ''_'') s) 0 0 0 [] of Inl e \<Rightarrow> None | Inr b \<Rightarrow> Some b)"

definition b64decode_validate :: "string \<Rightarrow> bytes option" where
  "b64decode_validate s =
     (let pad = dropWhile standard_alphabet s in
      if pad \<in> {[], ''='', ''==''} then b64decode s else None)"

definition parse_cert_body :: "leg_lib \<Rightarrow> bytes \<Rightarrow> string option" where
  "parse_cert_body lib body =
     (if prefix ''-----BEGIN CERTIFICATE'' (text_of (dropWhile ascii_space body))
      then (if list_all (\<lambda>b. b < 128) (strip_bytes body) then Some (text_of (strip_bytes body)) else None)
      else let cleaned = filter (\<lambda>b. b \<notin> {10, 13, 32}) body in
           case b64decode_validate (text_of cleaned) of
             None \<Rightarrow> None
           | Some der \<Rightarrow> (case ll_load_der lib der of Loaded c \<Rightarrow> Some (lc_pem c) | _ \<Rightarrow> None))"

definition authorized_names :: "string list \<Rightarrow> string list" where
  "authorized_names names = map (\<lambda>n. lower (rstrip CHR ''.'' n)) names"

definition check_common_name :: "string list \<Rightarrow> attr_value \<Rightarrow> leg_exception + unit" where
  "check_common_name authorized a =
     (case a of
        BytesAttr b \<Rightarrow> Inl (transport CommonNameNotText)
      | TextAttr n \<Rightarrow> if lower (rstrip CHR ''.'' n) \<notin> set authorized then Inl (transport CommonNameOutOfScope) else Inr ())"

definition validate_issued_certificate_binding ::
  "leg_lib \<Rightarrow> string \<Rightarrow> string \<Rightarrow> string list \<Rightarrow> leg_exception + unit" where
  "validate_issued_certificate_binding lib cert_text csr_text requested_sans =
     (case ll_load_pem lib cert_text of
        ValueOrTypeError \<Rightarrow> Inl (transport IssuedUnreadable)
      | OtherError \<Rightarrow> Inl RaiseOther
      | Loaded cert \<Rightarrow>
          (case ll_load_csr lib csr_text of
             ValueOrTypeError \<Rightarrow> Inl (transport IssuedUnreadable)
           | OtherError \<Rightarrow> Inl RaiseOther
           | Loaded csr_key \<Rightarrow>
               (case (lc_spki cert, csr_key) of
                  (Some cert_spki, Some csr_spki) \<Rightarrow>
                    if cert_spki \<noteq> csr_spki then Inl (transport KeyMismatch)
                    else each (check_common_name (authorized_names requested_sans)) (lc_common_names cert)
                | _ \<Rightarrow> Inl RaiseOther)))"

text \<open>The binding check of \<open>submit_csr\<close>: an unreadable CSR is let through for an injected session only.\<close>

definition bind_to_csr :: "leg_lib \<Rightarrow> certsrv_leg \<Rightarrow> string \<Rightarrow> string \<Rightarrow> string list \<Rightarrow> leg_exception + unit" where
  "bind_to_csr lib leg cert_text csr_text requested_sans =
     (case ll_load_csr lib csr_text of
        ValueOrTypeError \<Rightarrow> if \<not> le_injected leg then Inl (transport CsrUnreadable) else Inr ()
      | OtherError \<Rightarrow> Inl RaiseOther
      | Loaded _ \<Rightarrow> validate_issued_certificate_binding lib cert_text csr_text requested_sans)"

section \<open>The chain\<close>

definition label_char :: "char \<Rightarrow> bool" where
  "label_char c = (let n = (of_char c :: nat) in (65 \<le> n \<and> n \<le> 90) \<or> (48 \<le> n \<and> n \<le> 57) \<or> n = 32)"

text \<open>A PEM line \<open>-----BEGIN label-----\<close> or \<open>-----END label-----\<close> at the start of a text, and what follows.\<close>

definition pem_line :: "string \<Rightarrow> string \<Rightarrow> string option" where
  "pem_line opening s =
     (case after_prefix opening s of
        None \<Rightarrow> None
      | Some r \<Rightarrow> if takeWhile label_char r = [] then None else after_prefix ''-----'' (dropWhile label_char r))"

text \<open>The text up to the first match of a matcher, and what follows the match.\<close>

fun scan_upto :: "(string \<Rightarrow> string option) \<Rightarrow> string \<Rightarrow> (string \<times> string) option" where
  "scan_upto m [] = map_option (\<lambda>r. ([], r)) (m [])"
| "scan_upto m (c # cs) =
     (case m (c # cs) of
        Some r \<Rightarrow> Some ([], r)
      | None \<Rightarrow> map_option (\<lambda>(a, r). (c # a, r)) (scan_upto m cs))"

definition pem_block :: "string \<Rightarrow> (string \<times> nat) option" where
  "pem_block s =
     (case pem_line ''-----BEGIN '' s of
        None \<Rightarrow> None
      | Some r \<Rightarrow> map_option (\<lambda>(inner, rest). (inner, length s - length rest)) (scan_upto (pem_line ''-----END '') r))"

fun pem_blocks :: "nat \<Rightarrow> string \<Rightarrow> string list" where
  "pem_blocks k [] = []"
| "pem_blocks (Suc k) (c # cs) = pem_blocks k cs"
| "pem_blocks 0 (c # cs) =
     (case pem_block (c # cs) of
        None \<Rightarrow> pem_blocks 0 cs
      | Some (inner, n) \<Rightarrow> inner # pem_blocks (n - 1) cs)"

definition blob_of_block :: "string \<Rightarrow> bytes option" where
  "blob_of_block inner =
     (let t = filter (\<lambda>c. \<not> is_space c) inner in
      if list_ex (\<lambda>c. (of_char c :: nat) \<ge> 128) t then None else b64decode t)"

definition chain_blobs :: "bytes \<Rightarrow> bytes list" where
  "chain_blobs body =
     (let blobs = List.map_filter blob_of_block (pem_blocks 0 (text_of body)) in
      if blobs \<noteq> [] then blobs
      else case b64decode (text_of (filter (\<lambda>b. \<not> ascii_space b) body)) of None \<Rightarrow> [] | Some b \<Rightarrow> [b])"

fun load_blobs :: "leg_lib \<Rightarrow> bytes list \<Rightarrow> leg_exception + leg_cert list" where
  "load_blobs lib [] = Inr []"
| "load_blobs lib (der # ders) =
     (case ll_load_pkcs7 lib der of
        Loaded cs \<Rightarrow> rbind (load_blobs lib ders) (\<lambda>rest. Inr (cs @ rest))
      | OtherError \<Rightarrow> Inl RaiseOther
      | ValueOrTypeError \<Rightarrow>
          (case ll_load_der lib der of
             Loaded c \<Rightarrow> rbind (load_blobs lib ders) (\<lambda>rest. Inr (c # rest))
           | OtherError \<Rightarrow> Inl RaiseOther
           | ValueOrTypeError \<Rightarrow> load_blobs lib ders))"

definition parse_pkcs7_chain :: "leg_lib \<Rightarrow> bytes \<Rightarrow> leg_exception + string list" where
  "parse_pkcs7_chain lib body =
     rbind (load_blobs lib (chain_blobs body)) (\<lambda>certs.
       if certs = [] then Inl (transport ChainUnparseable) else Inr (map lc_pem certs))"

fun load_chain :: "leg_lib \<Rightarrow> string list \<Rightarrow> leg_exception + leg_cert list" where
  "load_chain lib [] = Inr []"
| "load_chain lib (p # ps) =
     (case ll_load_pem lib p of
        ValueOrTypeError \<Rightarrow> Inl (transport ChainUnreadable)
      | OtherError \<Rightarrow> Inl RaiseOther
      | Loaded c \<Rightarrow> rbind (load_chain lib ps) (\<lambda>cs. Inr (c # cs)))"

fun find_signer :: "leg_lib \<Rightarrow> leg_cert \<Rightarrow> leg_cert list \<Rightarrow> leg_exception + unit" where
  "find_signer lib leaf [] = Inl (transport ChainMismatch)"
| "find_signer lib leaf (c # cs) =
     (if lc_subject c \<noteq> lc_issuer leaf then find_signer lib leaf cs
      else case ll_issued_by lib leaf c of
          Verifies \<Rightarrow> Inr ()
        | NotVerified \<Rightarrow> find_signer lib leaf cs
        | VerifyError \<Rightarrow> Inl RaiseOther)"

definition validate_chain_binds_to_leaf :: "leg_lib \<Rightarrow> string \<Rightarrow> string list \<Rightarrow> leg_exception + unit" where
  "validate_chain_binds_to_leaf lib cert_text chain =
     (case ll_load_pem lib cert_text of
        ValueOrTypeError \<Rightarrow> Inl (transport ChainUnreadable)
      | OtherError \<Rightarrow> Inl RaiseOther
      | Loaded leaf \<Rightarrow> rbind (load_chain lib chain) (\<lambda>cs. find_signer lib leaf cs))"

definition renewals_of :: "string \<Rightarrow> string" where
  "renewals_of page =
     (case re_search (\<lambda>s. case digits_after (after_prefix ''var nRenewals='' s) of
                            Some (d, CHR '';'' # _) \<Rightarrow> Some d | _ \<Rightarrow> None) page of
        Some d \<Rightarrow> d | None \<Rightarrow> ''0'')"

section \<open>The submission\<close>

definition certsrv_base :: "certsrv_leg \<Rightarrow> string" where
  "certsrv_base leg = ''https://'' @ le_host leg @ ''/certsrv''"

definition enrollment_form :: "certsrv_leg \<Rightarrow> string \<Rightarrow> (string \<times> string) list" where
  "enrollment_form leg csr_text =
     [(''Mode'', ''newreq''), (''CertRequest'', csr_text),
      (''CertAttrib'', ''CertificateTemplate:'' @ le_template leg @ [CHR 0x0D, CHR 0x0A]),
      (''FriendlyType'', ''Saved-Request Certificate''), (''TargetStoreFlags'', ''0''), (''SaveCert'', ''yes'')]"

text \<open>The page of \<open>certfnsh.asp\<close>, read, with the deadline check after it.\<close>

definition read_disposition :: "leg_lib \<Rightarrow> certsrv_leg \<Rightarrow> http_session \<Rightarrow> string \<Rightarrow> leg_exception + disposition" where
  "read_disposition lib leg ses csr_text =
     (let ex = hs_post ses (certsrv_base leg @ ''/certfnsh.asp'') (enrollment_form leg csr_text) in
      rbind (open_response leg ''certfnsh.asp'' ex) (\<lambda>(resp, body).
        let d = parse_certfnsh_disposition (decode_body lib resp body) (le_locale leg) in
        rbind (deadline_check (ex_late_after ex)) (\<lambda>_. Inr d)))"

definition issued_id :: "disposition \<Rightarrow> leg_exception + string" where
  "issued_id d =
     (case d of
        Pending i \<Rightarrow> Inl (RaisePending i)
      | Denied m \<Rightarrow> Inl (RaiseDenied m)
      | Unknown \<Rightarrow> Inl (transport Unrecognized)
      | Issued i \<Rightarrow> Inr i)"

definition fetch_certificate :: "leg_lib \<Rightarrow> certsrv_leg \<Rightarrow> http_session \<Rightarrow> string \<Rightarrow> leg_exception + string" where
  "fetch_certificate lib leg ses req_id =
     (let ex = hs_get ses (certsrv_base leg @ ''/certnew.cer'') [(''ReqID'', req_id), (''Enc'', ''b64'')] in
      rbind (open_response leg ''certnew.cer'' ex) (\<lambda>(resp, body).
        case parse_cert_body lib body of
          None \<Rightarrow> Inl (RaiseTransport NotACertificate (Some req_id))
        | Some pem \<Rightarrow> rbind (deadline_check (ex_late_after ex)) (\<lambda>_. Inr pem)))"

definition fetch_renewals :: "leg_lib \<Rightarrow> certsrv_leg \<Rightarrow> http_session \<Rightarrow> leg_exception + string" where
  "fetch_renewals lib leg ses =
     (let ex = hs_get ses (certsrv_base leg @ ''/certcarc.asp'') [] in
      rbind (open_response leg ''certcarc.asp'' ex) (\<lambda>(resp, body).
        let renewals = renewals_of (decode_body lib resp body) in
        rbind (deadline_check (ex_late_after ex)) (\<lambda>_. Inr renewals)))"

definition chain_exchange :: "certsrv_leg \<Rightarrow> http_session \<Rightarrow> string \<Rightarrow> exchange" where
  "chain_exchange leg ses renewals =
     hs_get ses (certsrv_base leg @ ''/certnew.p7b'') [(''ReqID'', ''CACert''), (''Renewal'', renewals), (''Enc'', ''b64'')]"

text \<open>The body of the \<open>try\<close> block: the certificate and the chain.\<close>

definition enroll_steps ::
  "leg_lib \<Rightarrow> certsrv_leg \<Rightarrow> http_session \<Rightarrow> string \<Rightarrow> string list \<Rightarrow> (string \<times> string \<times> string list) leg_step" where
  "enroll_steps lib leg ses csr_text requested_sans =
     lbind (leg_lift (read_disposition lib leg ses csr_text)) (\<lambda>disposition.
     lbind (leg_lift (issued_id disposition)) (\<lambda>req_id.
     lbind (track (issued_req_id_update (\<lambda>_. Some req_id))) (\<lambda>_.
     lbind (leg_lift (fetch_certificate lib leg ses req_id)) (\<lambda>cert_text.
     lbind (track (issued_cert_pem_update (\<lambda>_. Some cert_text))) (\<lambda>_.
     lbind (leg_lift (bind_to_csr lib leg cert_text csr_text requested_sans)) (\<lambda>_.
     lbind (leg_lift (fetch_renewals lib leg ses)) (\<lambda>renewals.
     lbind (leg_lift (open_response leg ''certnew.p7b'' (chain_exchange leg ses renewals))) (\<lambda>(resp, body).
     lbind (leg_lift (parse_pkcs7_chain lib body)) (\<lambda>chain.
     lbind (track (issued_chain_pem_update (\<lambda>_. chain))) (\<lambda>_.
     lbind (leg_lift (validate_chain_binds_to_leaf lib cert_text chain)) (\<lambda>_.
     lbind (leg_lift (deadline_check (ex_late_after (chain_exchange leg ses renewals)))) (\<lambda>_.
     lreturn (req_id, cert_text, chain)))))))))))))"

definition transport_of :: "string \<Rightarrow> string option \<Rightarrow> string option \<Rightarrow> string list \<Rightarrow> transport_error" where
  "transport_of text req_id cert_text chain =
     \<lparr>te_text = text, te_ca_issued = (req_id \<noteq> None), te_cert_pem = cert_text, te_chain_pem = chain, te_req_id = req_id\<rparr>"

text \<open>The handlers of the \<open>try\<close> block.\<close>

definition handle_exception :: "leg_lib \<Rightarrow> leg_exception \<Rightarrow> tracked \<Rightarrow> enroll_answer" where
  "handle_exception lib e t =
     (case e of
        RaiseDenied m \<Rightarrow> CaDenied m
      | RaisePending i \<Rightarrow> CaPending i (ll_other_text lib)
      | RaiseTransport f req_id \<Rightarrow>
          if req_id = None \<and> issued_req_id t \<noteq> None
          then CaTransport (transport_of (ll_text lib f) (issued_req_id t) (issued_cert_pem t) (issued_chain_pem t))
          else CaTransport (transport_of (ll_text lib f) req_id None [])
      | RaiseOther \<Rightarrow>
          CaTransport (transport_of (ll_other_text lib) (issued_req_id t) (issued_cert_pem t) (issued_chain_pem t)))"

definition requester_name :: "string \<Rightarrow> string option \<Rightarrow> string" where
  "requester_name domain user =
     (let u = (case user of None \<Rightarrow> ''?'' | Some n \<Rightarrow> n) in if domain \<noteq> [] then domain @ [CHR 0x5C] @ u else u)"

definition no_issue :: tracked where
  "no_issue = \<lparr>issued_req_id = None, issued_cert_pem = None, issued_chain_pem = []\<rparr>"

text \<open>
  \<open>CertsrvEnrollmentLeg.submit_csr\<close>: \<open>windows\<close> is \<open>sys.platform == "win32"\<close>, and a session that cannot be
  built raises before the \<open>try\<close>.
\<close>

definition submit_csr ::
  "leg_lib \<Rightarrow> certsrv_leg \<Rightarrow> bool \<Rightarrow> string \<Rightarrow> http_session option \<Rightarrow> string \<Rightarrow> string list \<Rightarrow> enroll_answer" where
  "submit_csr lib leg windows requester session csr_text requested_sans =
     (if \<not> windows \<and> \<not> le_injected leg then CaError ''NotImplementedError''
      else case session of
          None \<Rightarrow> CaError ''session''
        | Some ses \<Rightarrow>
            (case enroll_steps lib leg ses csr_text requested_sans no_issue of
               (Inl e, t) \<Rightarrow> handle_exception lib e t
             | (Inr (req_id, cert_text, chain), t) \<Rightarrow>
                 CaIssued \<lparr>er_cert_pem = cert_text, er_chain_pem = chain, er_template = le_template leg,
                   er_requester = requester,
                   er_metadata = [(''req_id'', req_id), (''host'', le_host leg), (''source'', ''certsrv''),
                       (''requester_source'', ''process-environment'')]
                     @ (case le_ca_name leg of None \<Rightarrow> [] | Some n \<Rightarrow> if n = [] then [] else [(''ca_name'', n)])\<rparr>))"

section \<open>The fixture leg\<close>

fun comma_join :: "string list \<Rightarrow> string" where
  "comma_join [] = []"
| "comma_join [a] = a"
| "comma_join (a # as) = a @ '','' @ comma_join as"

definition fake_submit_csr :: "string \<Rightarrow> string \<Rightarrow> string \<Rightarrow> string list \<Rightarrow> EnrollmentResult" where
  "fake_submit_csr fixture_cert fixture_chain account_id requested_sans =
     \<lparr>er_cert_pem = fixture_cert, er_chain_pem = [fixture_chain], er_template = ''ACME-ServerAuth'',
      er_requester = account_id, er_metadata = [(''source'', ''fake''), (''sans'', comma_join requested_sans)]\<rparr>"

section \<open>After the CA has issued\<close>

lemmas leg_defs = lbind_def leg_lift_def track_def lreturn_def

text \<open>An outcome that says nothing of its own about the request: a success, an unexpected error, a bare transport error.\<close>

fun bare :: "leg_exception \<Rightarrow> bool" where
  "bare RaiseOther = True"
| "bare (RaiseTransport f r) = (r = None)"
| "bare _ = False"

definition anonymous :: "leg_exception + 'a \<Rightarrow> bool" where
  "anonymous r \<longleftrightarrow> (\<forall>e. r = Inl e \<longrightarrow> bare e)"

lemma anonymous_simps [simp]: "anonymous (Inr v)" "anonymous (Inl e) = bare e"
  by (simp_all add: anonymous_def)

lemma bare_transport [simp]: "bare (transport f)" by (simp add: transport_def)

lemma anonymousD: "r = Inl e \<Longrightarrow> anonymous r \<Longrightarrow> bare e" by (simp add: anonymous_def)

lemma anonymous_rbind: "anonymous m \<Longrightarrow> (\<And>v. m = Inr v \<Longrightarrow> anonymous (f v)) \<Longrightarrow> anonymous (rbind m f)"
  by (cases m) auto

lemma anonymous_basic:
  "anonymous (deadline_check late)" "anonymous (reject_redirect what resp)" "anonymous (raise_for_status resp)"
  "anonymous (Inl (transport f))"
  by (simp_all add: deadline_check_def reject_redirect_def raise_for_status_def transport_def)

lemma anonymous_stream: "anonymous (read_stream n received es)"
  by (induction n received es rule: read_stream.induct) (auto simp: transport_def split: read1_event.splits)

lemma anonymous_open: "anonymous (open_response leg what ex)"
  unfolding open_response_def read_capped_body_def
  by (auto intro!: anonymous_rbind anonymous_basic anonymous_stream split: option.splits http_content.splits)

lemma anonymous_each: "(\<And>x. anonymous (f x)) \<Longrightarrow> anonymous (each f xs)"
  by (induction xs) (auto intro!: anonymous_rbind)

lemma anonymous_binding: "anonymous (bind_to_csr lib leg cert_text csr_text sans)"
proof -
  have "anonymous (check_common_name names a)" for names a
    by (auto simp: check_common_name_def anonymous_basic split: attr_value.splits)
  then have "anonymous (each (check_common_name names) xs)" for names xs by (rule anonymous_each)
  then show ?thesis
    by (auto simp: bind_to_csr_def validate_issued_certificate_binding_def anonymous_basic split: loaded.splits option.splits)
qed

lemma anonymous_renewals: "anonymous (fetch_renewals lib leg ses)"
  unfolding fetch_renewals_def Let_def
  by (auto intro!: anonymous_rbind anonymous_open anonymous_basic)

lemma anonymous_chain: "anonymous (parse_pkcs7_chain lib body)" "anonymous (validate_chain_binds_to_leaf lib cert_text chain)"
proof -
  have "anonymous (load_blobs lib bs)" for bs
    by (induction bs) (auto intro!: anonymous_rbind split: loaded.splits)
  then show "anonymous (parse_pkcs7_chain lib body)"
    unfolding parse_pkcs7_chain_def by (auto intro!: anonymous_rbind anonymous_basic)
  have "anonymous (load_chain lib ps)" for ps
    by (induction ps) (auto intro!: anonymous_rbind anonymous_basic split: loaded.splits)
  moreover have "anonymous (find_signer lib leaf cs)" for leaf cs
    by (induction cs) (auto intro!: anonymous_basic split: verified.splits)
  ultimately show "anonymous (validate_chain_binds_to_leaf lib cert_text chain)"
    by (auto simp: validate_chain_binds_to_leaf_def intro!: anonymous_rbind anonymous_basic split: loaded.splits)
qed

lemma fetch_certificate_raises:
  assumes "fetch_certificate lib leg ses i = Inl e"
  shows "bare e \<or> e = RaiseTransport NotACertificate (Some i)"
  using assms anonymousD [OF _ anonymous_open] anonymousD [OF _ anonymous_basic(1)]
  by (auto simp: fetch_certificate_def Let_def rbind_eq_Inl split: option.splits)

text \<open>A run of the steps once the page said issued: the request is tracked, and the certificate from its arrival on.\<close>

definition tracks :: "leg_lib \<Rightarrow> certsrv_leg \<Rightarrow> http_session \<Rightarrow> string \<Rightarrow> leg_exception \<Rightarrow> tracked \<Rightarrow> bool" where
  "tracks lib leg ses i e t \<longleftrightarrow> issued_req_id t = Some i
     \<and> (case fetch_certificate lib leg ses i of
          Inl _ \<Rightarrow> issued_cert_pem t = None \<and> issued_chain_pem t = [] \<and> (bare e \<or> e = RaiseTransport NotACertificate (Some i))
        | Inr pem \<Rightarrow> issued_cert_pem t = Some pem \<and> bare e)"

lemma leg_step_simps:
  "lbind (leg_lift r) f t = (case r of Inl e \<Rightarrow> (Inl e, t) | Inr v \<Rightarrow> f v t)" "lbind (track g) h t = h () (g t)" "lreturn w t = (Inr w, t)"
  by (simp_all add: leg_defs split: sum.splits)

lemma enroll_steps_after_issue:
  assumes "read_disposition lib leg ses csr_text = Inr (Issued i)"
  shows "case enroll_steps lib leg ses csr_text sans no_issue of
      (Inl e, t) \<Rightarrow> tracks lib leg ses i e t
    | (Inr (j, pem, chain), t) \<Rightarrow> j = i \<and> fetch_certificate lib leg ses i = Inr pem
        \<and> bind_to_csr lib leg pem csr_text sans = Inr () \<and> validate_chain_binds_to_leaf lib pem chain = Inr ()"
  using anonymousD [OF _ anonymous_binding] anonymousD [OF _ anonymous_renewals] anonymousD [OF _ anonymous_open]
    anonymousD [OF _ anonymous_chain(1)] anonymousD [OF _ anonymous_chain(2)] anonymousD [OF _ anonymous_basic(1)] fetch_certificate_raises
  by (simp add: enroll_steps_def assms issued_id_def no_issue_def leg_step_simps tracks_def case_prod_beta split: sum.split)

lemma find_signer_ok: "find_signer lib leaf cs = Inr () \<Longrightarrow> \<exists>c \<in> set cs. lc_subject c = lc_issuer leaf \<and> ll_issued_by lib leaf c = Verifies"
  by (induction cs) (auto split: if_splits verified.splits)

lemma load_chain_ok: "load_chain lib ps = Inr cs \<Longrightarrow> c \<in> set cs \<Longrightarrow> \<exists>p \<in> set ps. ll_load_pem lib p = Loaded c"
  by (induction ps arbitrary: cs) (auto split: loaded.splits)

lemma issued_needs_disposition:
  assumes "submit_csr lib leg windows requester (Some ses) csr_text sans = CaIssued r"
  obtains i where "read_disposition lib leg ses csr_text = Inr (Issued i)"
  using assms that
  by (cases "read_disposition lib leg ses csr_text")
    (auto simp: submit_csr_def enroll_steps_def leg_step_simps issued_id_def handle_exception_def
      split: if_splits disposition.splits leg_exception.splits)

lemma issued_result:
  assumes "submit_csr lib leg windows requester (Some ses) csr_text sans = CaIssued r"
  obtains i pem chain t where "enroll_steps lib leg ses csr_text sans no_issue = (Inr (i, pem, chain), t)"
    "er_cert_pem r = pem" "er_chain_pem r = chain" "(''req_id'', i) \<in> set (er_metadata r)"
proof (cases "enroll_steps lib leg ses csr_text sans no_issue")
  case (Pair a t)
  with assms obtain i pem chain where "a = Inr (i, pem, chain)"
    by (cases a) (auto simp: submit_csr_def handle_exception_def split: if_splits leg_exception.splits)
  with Pair assms show thesis by (intro that [of i pem chain t]) (auto simp: submit_csr_def split: if_splits)
qed

text \<open>
  Once the CA has issued, nothing is lost: whatever happens after the page of \<open>certfnsh.asp\<close> was read
  as issued with a request number, the leg returns either the result under that number or a transport error that
  says the CA issued, names the request, and carries the certificate from the moment it was fetched; it never
  reports a denial, a pending request or an error without the number.
\<close>

theorem issued_request_carried:
  assumes "windows \<or> le_injected leg" "read_disposition lib leg ses csr_text = Inr (Issued i)"
  shows "case submit_csr lib leg windows requester (Some ses) csr_text sans of
      CaIssued r \<Rightarrow> (''req_id'', i) \<in> set (er_metadata r) \<and> fetch_certificate lib leg ses i = Inr (er_cert_pem r)
    | CaTransport te \<Rightarrow> te_ca_issued te \<and> te_req_id te = Some i
        \<and> te_cert_pem te = (case fetch_certificate lib leg ses i of Inl _ \<Rightarrow> None | Inr pem \<Rightarrow> Some pem)
    | _ \<Rightarrow> False"
proof (cases "enroll_steps lib leg ses csr_text sans no_issue")
  case (Pair r t)
  with enroll_steps_after_issue [OF assms(2), of sans] assms(1) show ?thesis
    by (cases r) (auto simp: submit_csr_def handle_exception_def transport_of_def tracks_def
        split: leg_exception.splits sum.splits)
qed

text \<open>
  C10. What the leg returns belongs to the request: the page named the request number under which the
  certificate was fetched, and a certificate of the chain carries the issuer's name and signed it. The key of the
  certificate is the key of the CSR, and each of its common names is a requested name; only a leg with an injected session lets
  a CSR through that cannot be read. (The subject alternative names are checked by finalize, not by the leg.)
\<close>

theorem enrollment_result_bound:
  assumes "submit_csr lib leg windows requester (Some ses) csr_text sans = CaIssued r"
  shows "\<exists>i leaf. read_disposition lib leg ses csr_text = Inr (Issued i) \<and> (''req_id'', i) \<in> set (er_metadata r)
    \<and> fetch_certificate lib leg ses i = Inr (er_cert_pem r)
    \<and> ll_load_pem lib (er_cert_pem r) = Loaded leaf
    \<and> (\<exists>p ca. p \<in> set (er_chain_pem r) \<and> ll_load_pem lib p = Loaded ca \<and> lc_subject ca = lc_issuer leaf
        \<and> ll_issued_by lib leaf ca = Verifies)
    \<and> (case ll_load_csr lib csr_text of
          Loaded key \<Rightarrow> lc_spki leaf \<noteq> None \<and> lc_spki leaf = key
            \<and> list_all (\<lambda>a. case a of TextAttr n \<Rightarrow> lower (rstrip CHR ''.'' n) \<in> set (authorized_names sans) | BytesAttr _ \<Rightarrow> False)
                (lc_common_names leaf)
        | _ \<Rightarrow> le_injected leg)"
proof -
  obtain i where i: "read_disposition lib leg ses csr_text = Inr (Issued i)"
    using issued_needs_disposition [OF assms(1)] .
  obtain j pem chain t where st: "enroll_steps lib leg ses csr_text sans no_issue = (Inr (j, pem, chain), t)"
      and r: "er_cert_pem r = pem" "er_chain_pem r = chain" "(''req_id'', j) \<in> set (er_metadata r)"
    using issued_result [OF assms(1)] .
  have j: "j = i" and ok: "fetch_certificate lib leg ses i = Inr pem" "bind_to_csr lib leg pem csr_text sans = Inr ()"
      "validate_chain_binds_to_leaf lib pem chain = Inr ()"
    using enroll_steps_after_issue [OF i, of sans] by (simp_all add: st)
  from ok(3) obtain leaf cs where leaf: "ll_load_pem lib pem = Loaded leaf" and cs: "load_chain lib chain = Inr cs" "find_signer lib leaf cs = Inr ()"
    by (auto simp: validate_chain_binds_to_leaf_def split: loaded.splits sum.splits)
  then have "\<exists>p ca. p \<in> set chain \<and> ll_load_pem lib p = Loaded ca \<and> lc_subject ca = lc_issuer leaf \<and> ll_issued_by lib leaf ca = Verifies"
    using find_signer_ok load_chain_ok by metis
  moreover have "case ll_load_csr lib csr_text of
          Loaded key \<Rightarrow> lc_spki leaf \<noteq> None \<and> lc_spki leaf = key
            \<and> list_all (\<lambda>a. case a of TextAttr n \<Rightarrow> lower (rstrip CHR ''.'' n) \<in> set (authorized_names sans) | BytesAttr _ \<Rightarrow> False)
                (lc_common_names leaf)
        | _ \<Rightarrow> le_injected leg"
    using ok(2) leaf
    by (auto simp: bind_to_csr_def validate_issued_certificate_binding_def list_all_iff check_common_name_def
        split: loaded.splits option.splits attr_value.splits if_splits)
  ultimately show ?thesis using i ok(1) leaf r j by (intro exI [of _ i] exI [of _ leaf]) simp
qed

text \<open>
  C30. The deadline check after the page of \<open>certfnsh.asp\<close> comes before the request number is
  recorded: when the total deadline passes while the page that says issued is read, the leg reports a transport
  error without a request number, one that says the CA did not issue.
\<close>

theorem late_issue_unreported:
  assumes "windows \<or> le_injected leg"
    "ex = hs_post ses (certsrv_base leg @ ''/certfnsh.asp'') (enrollment_form leg csr_text)"
    "open_response leg ''certfnsh.asp'' ex = Inr (resp, body)"
    "parse_certfnsh_disposition (decode_body lib resp body) (le_locale leg) = Issued i" "ex_late_after ex"
  shows "\<exists>te. submit_csr lib leg windows requester (Some ses) csr_text sans = CaTransport te
    \<and> \<not> te_ca_issued te \<and> te_req_id te = None \<and> te_cert_pem te = None"
  using assms
  by (auto simp: submit_csr_def enroll_steps_def leg_step_simps read_disposition_def Let_def deadline_check_def handle_exception_def
      transport_def transport_of_def no_issue_def)

section \<open>Sample runs\<close>

definition page_of :: "string \<Rightarrow> http_response" where
  "page_of t = \<lparr>hr_status = 200, hr_content_length = None, hr_encoding = None, hr_content = Buffered False (map of_char t) False\<rparr>"

definition prompt :: "http_response \<Rightarrow> exchange" where
  "prompt r = \<lparr>ex_late_before = False, ex_response = Some r, ex_late_after = False\<rparr>"

definition tardy :: "http_response \<Rightarrow> exchange" where
  "tardy r = \<lparr>ex_late_before = False, ex_response = Some r, ex_late_after = True\<rparr>"

definition sample_leaf_cert :: leg_cert where
  "sample_leaf_cert = \<lparr>lc_spki = Some ''key'', lc_subject = ''leaf'', lc_issuer = ''ca'', lc_common_names = [TextAttr ''H.example''], lc_pem = ''-----BEGIN CERTIFICATE''\<rparr>"

definition sample_ca_cert :: leg_cert where
  "sample_ca_cert = \<lparr>lc_spki = Some ''ca key'', lc_subject = ''ca'', lc_issuer = ''ca'', lc_common_names = [], lc_pem = ''CA''\<rparr>"

definition sample_leg_lib :: leg_lib where
  "sample_leg_lib = \<lparr>ll_decode = (\<lambda>_ b. text_of b), ll_load_csr = (\<lambda>_. Loaded (Some ''key'')),
     ll_load_pem = (\<lambda>p. if p = ''CA'' then Loaded sample_ca_cert else Loaded sample_leaf_cert), ll_load_der = (\<lambda>_. Loaded sample_ca_cert),
     ll_load_pkcs7 = (\<lambda>_. ValueOrTypeError), ll_issued_by = (\<lambda>_ _. Verifies), ll_text = (\<lambda>_. ''failed''), ll_other_text = ''error''\<rparr>"

definition sample_leg :: certsrv_leg where
  "sample_leg = \<lparr>le_host = ''ca'', le_template = ''t'', le_ca_name = None, le_locale = ''en'', le_max_response_bytes = 100, le_injected = False\<rparr>"

definition sample_session :: "(http_response \<Rightarrow> exchange) \<Rightarrow> (http_response \<Rightarrow> exchange) \<Rightarrow> http_session" where
  "sample_session submission chain = \<lparr>hs_post = (\<lambda>_ _. submission (page_of ''certnew.cer?ReqID=7&'')),
     hs_get = (\<lambda>u _. if u = ''https://ca/certsrv/certnew.cer'' then prompt (page_of ''-----BEGIN CERTIFICATE'')
                     else if u = ''https://ca/certsrv/certcarc.asp'' then prompt (page_of ''var nRenewals=1;'')
                     else chain (page_of ''QUJD''))\<rparr>"

lemmas sample_leg_defs = sample_session_def sample_leg_def sample_leg_lib_def page_of_def prompt_def tardy_def

lemma sample_disposition: "read_disposition sample_leg_lib sample_leg (sample_session prompt chain) ''csr'' = Inr (Issued ''7'')"
  by code_simp

theorem issued_request_carried_witness:
  "\<exists>te. submit_csr sample_leg_lib sample_leg True ''r'' (Some (sample_session prompt tardy)) ''csr'' [''h.example''] = CaTransport te
     \<and> te_ca_issued te \<and> te_req_id te = Some ''7'' \<and> te_cert_pem te = Some ''-----BEGIN CERTIFICATE''"
proof -
  have f: "fetch_certificate sample_leg_lib sample_leg (sample_session prompt tardy) ''7'' = Inr ''-----BEGIN CERTIFICATE''"
    by code_simp
  have "(case submit_csr sample_leg_lib sample_leg True ''r'' (Some (sample_session prompt tardy)) ''csr'' [''h.example''] of CaTransport _ \<Rightarrow> True | _ \<Rightarrow> False)"
    by code_simp
  then show ?thesis
    using issued_request_carried [of True sample_leg sample_leg_lib "sample_session prompt tardy" "''csr''" "''7''" "''r''" "[''h.example'']"]
    by (auto simp: sample_disposition f split: enroll_answer.splits)
qed

theorem enrollment_result_bound_witness:
  "\<exists>r. submit_csr sample_leg_lib sample_leg True ''r'' (Some (sample_session prompt prompt)) ''csr'' [''h.example''] = CaIssued r
     \<and> (\<exists>leaf. ll_load_pem sample_leg_lib (er_cert_pem r) = Loaded leaf \<and> lc_spki leaf = Some ''key'')"
proof -
  have "(case submit_csr sample_leg_lib sample_leg True ''r'' (Some (sample_session prompt prompt)) ''csr'' [''h.example''] of CaIssued _ \<Rightarrow> True | _ \<Rightarrow> False)"
    by code_simp
  then obtain r where r: "submit_csr sample_leg_lib sample_leg True ''r'' (Some (sample_session prompt prompt)) ''csr'' [''h.example''] = CaIssued r"
    by (auto split: enroll_answer.splits)
  have "ll_load_csr sample_leg_lib ''csr'' = Loaded (Some ''key'')" by (simp add: sample_leg_lib_def)
  with enrollment_result_bound [OF r] r show ?thesis by auto
qed

theorem late_issue_unreported_witness:
  "\<exists>te. submit_csr sample_leg_lib sample_leg True ''r'' (Some (sample_session tardy prompt)) ''csr'' [''h.example''] = CaTransport te
     \<and> \<not> te_ca_issued te \<and> te_req_id te = None \<and> te_cert_pem te = None"
proof (rule late_issue_unreported [OF _ refl, where resp = "page_of ''certnew.cer?ReqID=7&''" and body = "map of_char ''certnew.cer?ReqID=7&''" and i = "''7''"])
  show "parse_certfnsh_disposition (decode_body sample_leg_lib (page_of ''certnew.cer?ReqID=7&'') (map of_char ''certnew.cer?ReqID=7&'')) (le_locale sample_leg) = Issued ''7''"
    by code_simp
qed (simp_all add: sample_leg_defs open_response_def deadline_check_def reject_redirect_def raise_for_status_def read_capped_body_def)

end
