(* ===== verification/EnrollmentGate.thy ===== *)
theory EnrollmentGate
  imports Prelude "HOL-Library.Multiset"
begin

text \<open>
  The gate in front of the enrollment workers (\<open>EnrollmentGate\<close> of
  \<open>src/src/acme_adcs_ra/enrollment.py\<close>) and the executor behind it, as far as the gate uses it: the queue of submitted
  calls, the calls its workers run, the futures that are done, and \<open>shutdown\<close>. The state of the gate changes under one
  lock: the admission of a call, the done-callback of its future, a change of limits, and \<open>close\<close>. A call that was
  admitted waits in a loop that swallows the cancellation of its caller. A job is a number, new for each
  admission, and its work ends in a value of the type \<open>'r\<close>, a result or an exception of the worker.
\<close>

section \<open>The gate and its executor\<close>

type_synonym job_id = nat

record enrollment_gate =
  eg_max_workers :: nat
  eg_max_pending :: nat
  eg_executor :: "nat option"
  eg_pending :: nat
  eg_closed :: bool

text \<open>A future that is done: its call has ended, or it was cancelled while it was queued.\<close>

datatype 'r future = FutureResult 'r | FutureCancelled

text \<open>
  Around the gate: the executor, which lives on when the gate lets go of it, the jobs ever admitted, and what
  \<open>run\<close> has given to their callers: an outcome of the work, or \<open>Inl ()\<close> for the \<open>RuntimeError\<close>.
\<close>

record 'r gate_world = enrollment_gate +
  ex_workers :: nat
  ex_queue :: "job_id list"
  ex_running :: "job_id list"
  ex_done :: "(job_id \<times> 'r future) list"
  ex_shutdown :: bool
  gw_admitted :: "job_id list"
  gw_delivered :: "(job_id \<times> (unit + 'r)) list"

datatype admission = EGateClosed | EGateBusy | ENoWorkers | ESubmitFails | EAdmitted job_id

definition new_enrollment_gate :: "nat \<Rightarrow> nat \<Rightarrow> 'r gate_world" where
  "new_enrollment_gate max_workers max_pending =
     \<lparr>eg_max_workers = max_workers, eg_max_pending = max_pending, eg_executor = None, eg_pending = 0, eg_closed = False,
      ex_workers = 0, ex_queue = [], ex_running = [], ex_done = [], ex_shutdown = False,
      gw_admitted = [], gw_delivered = []\<rparr>"

definition set_enrollment_limits :: "nat \<Rightarrow> nat \<Rightarrow> 'r gate_world \<Rightarrow> 'r gate_world" where
  "set_enrollment_limits max_workers max_pending g =
     (let g = g\<lparr>eg_max_pending := max_pending\<rparr> in
      if eg_executor g = None then g\<lparr>eg_max_workers := max_workers\<rparr> else g)"

text \<open>
  The first part of \<open>run\<close>, under the lock. A \<open>ThreadPoolExecutor\<close> of no workers raises when it is made. \<open>executor.submit\<close>
  raises on an executor that is shut down and when it has no thread to give (\<open>submits\<close> is false); otherwise it queues the call.
\<close>

definition admit_submission :: "bool \<Rightarrow> 'r gate_world \<Rightarrow> admission \<times> 'r gate_world" where
  "admit_submission submits g =
     (if eg_closed g then (EGateClosed, g)
      else if eg_pending g \<ge> eg_max_pending g then (EGateBusy, g)
      else if eg_executor g = None \<and> eg_max_workers g = 0 then (ENoWorkers, g)
      else
        let g = (if eg_executor g = None
                 then g\<lparr>eg_executor := Some (eg_max_workers g), ex_workers := eg_max_workers g\<rparr> else g);
            g = g\<lparr>eg_pending := Suc (eg_pending g)\<rparr>
        in if submits \<and> \<not> ex_shutdown g
           then (let j = length (gw_admitted g)
                 in (EAdmitted j, g\<lparr>ex_queue := ex_queue g @ [j], gw_admitted := gw_admitted g @ [j]\<rparr>))
           else (ESubmitFails, g\<lparr>eg_pending := eg_pending g - 1\<rparr>))"

text \<open>A free worker takes the next call of the queue, also after the shutdown.\<close>

definition start_work :: "'r gate_world \<Rightarrow> 'r gate_world" where
  "start_work g =
     (case ex_queue g of
        [] \<Rightarrow> g
      | j # js \<Rightarrow> if length (ex_running g) < ex_workers g then g\<lparr>ex_queue := js, ex_running := ex_running g @ [j]\<rparr> else g)"

text \<open>The call of a job ends: its future is done and the callback \<open>_finished\<close> runs.\<close>

definition finish_work :: "job_id \<Rightarrow> 'r \<Rightarrow> 'r gate_world \<Rightarrow> 'r gate_world" where
  "finish_work j r g =
     g\<lparr>ex_running := remove1 j (ex_running g), ex_done := ex_done g @ [(j, FutureResult r)], eg_pending := eg_pending g - 1\<rparr>"

text \<open>
  \<open>executor.shutdown(wait=False, cancel_futures=...)\<close>: with \<open>cancel_futures\<close> the futures of the queue are cancelled, and the
  callback runs for each of them.
\<close>

definition executor_shutdown :: "bool \<Rightarrow> 'r gate_world \<Rightarrow> 'r gate_world" where
  "executor_shutdown cancel_futures g =
     (if cancel_futures
      then g\<lparr>ex_shutdown := True, ex_queue := [],
             ex_done := ex_done g @ map (\<lambda>j. (j, FutureCancelled)) (ex_queue g), eg_pending := eg_pending g - length (ex_queue g)\<rparr>
      else g\<lparr>ex_shutdown := True\<rparr>)"

definition close_enrollment_gate :: "'r gate_world \<Rightarrow> 'r gate_world" where
  "close_enrollment_gate g =
     (let g' = g\<lparr>eg_closed := True, eg_executor := None\<rparr>
      in if eg_executor g = None then g' else executor_shutdown False g')"

section \<open>The waiting caller\<close>

text \<open>
  What \<open>await asyncio.shield(wrapped)\<close> meets in turn: the caller is cancelled, the work has ended, or the work
  itself was cancelled. \<open>None\<close>: still waiting; \<open>Some (Inl ())\<close>: the \<open>RuntimeError\<close>.
\<close>

datatype 'r wait_event = CallerCancelled | WorkEnded 'r | WorkCancelled

fun await_work :: "'r wait_event list \<Rightarrow> (unit + 'r) option" where
  "await_work [] = None"
| "await_work (CallerCancelled # es) = await_work es"
| "await_work (WorkEnded r # es) = Some (Inr r)"
| "await_work (WorkCancelled # es) = Some (Inl ())"

text \<open>The caller of an admitted job: cancelled any number of times, then met with its future.\<close>

definition wait_history :: "nat \<Rightarrow> 'r future option \<Rightarrow> 'r wait_event list" where
  "wait_history cancellations future =
     replicate cancellations CallerCancelled
       @ (case future of None \<Rightarrow> [] | Some (FutureResult r) \<Rightarrow> [WorkEnded r] | Some FutureCancelled \<Rightarrow> [WorkCancelled])"

definition return_to_caller :: "nat \<Rightarrow> job_id \<Rightarrow> 'r gate_world \<Rightarrow> 'r gate_world" where
  "return_to_caller cancellations j g =
     (case await_work (wait_history cancellations (map_of (ex_done g) j)) of
        None \<Rightarrow> g
      | Some out \<Rightarrow> g\<lparr>gw_delivered := gw_delivered g @ [(j, out)]\<rparr>)"

section \<open>Interleavings\<close>

inductive gate_turn :: "'r gate_world \<Rightarrow> 'r gate_world \<Rightarrow> bool" where
  turn_admit: "gate_turn g (snd (admit_submission submits g))"
| turn_start: "gate_turn g (start_work g)"
| turn_finish: "j \<in> set (ex_running g) \<Longrightarrow> gate_turn g (finish_work j r g)"
| turn_return: "j \<in> set (gw_admitted g) \<Longrightarrow> gate_turn g (return_to_caller n j g)"
| turn_limits: "gate_turn g (set_enrollment_limits w p g)"
| turn_close: "gate_turn g (close_enrollment_gate g)"

inductive gate_reach :: "nat \<Rightarrow> nat \<Rightarrow> 'r gate_world \<Rightarrow> bool" for w p where
  reach_new: "gate_reach w p (new_enrollment_gate w p)"
| reach_turn: "gate_reach w p g \<Longrightarrow> gate_turn g g' \<Longrightarrow> gate_reach w p g'"

text \<open>The workers go on: the call that has run longest ends, with the outcome \<open>work\<close> gives it, or the next one is taken.\<close>

definition worker_turn :: "(job_id \<Rightarrow> 'r) \<Rightarrow> 'r gate_world \<Rightarrow> 'r gate_world" where
  "worker_turn work g = (case ex_running g of j # js \<Rightarrow> finish_work j (work j) g | [] \<Rightarrow> start_work g)"

section \<open>Invariant\<close>

definition gate_ok :: "'r gate_world \<Rightarrow> bool" where
  "gate_ok g \<longleftrightarrow> gw_admitted g = [0..<length (gw_admitted g)]
     \<and> mset (gw_admitted g) = mset (ex_queue g) + mset (ex_running g) + mset (map fst (ex_done g))
     \<and> eg_pending g = length (ex_queue g) + length (ex_running g)
     \<and> FutureCancelled \<notin> snd ` set (ex_done g)
     \<and> set (gw_delivered g) \<subseteq> (\<lambda>(j, f). (j, case f of FutureResult r \<Rightarrow> Inr r | FutureCancelled \<Rightarrow> Inl ())) ` set (ex_done g)
     \<and> (eg_executor g \<noteq> None \<longrightarrow> 0 < ex_workers g \<and> \<not> ex_shutdown g \<and> \<not> eg_closed g)
     \<and> (eg_executor g = None \<and> \<not> eg_closed g \<longrightarrow> gw_admitted g = [] \<and> \<not> ex_shutdown g)
     \<and> (ex_queue g \<noteq> [] \<longrightarrow> 0 < ex_workers g)"

lemma await_wait_history:
  "await_work (wait_history n f) = map_option (\<lambda>f. case f of FutureResult r \<Rightarrow> Inr r | FutureCancelled \<Rightarrow> Inl ()) f"
  by (induction n) (auto simp: wait_history_def split: option.splits future.splits)

lemma return_to_caller_eq:
  "return_to_caller n j g = (case map_of (ex_done g) j of
      Some f \<Rightarrow> g\<lparr>gw_delivered := gw_delivered g @ [(j, case f of FutureResult r \<Rightarrow> Inr r | FutureCancelled \<Rightarrow> Inl ())]\<rparr> | None \<Rightarrow> g)"
  by (simp add: return_to_caller_def await_wait_history split: option.splits)

lemma gate_ok_new: "gate_ok (new_enrollment_gate w p)"
  by (simp add: gate_ok_def new_enrollment_gate_def)

lemma gate_ok_admit: "gate_ok g \<Longrightarrow> gate_ok (snd (admit_submission submits g))"
  by (auto simp: gate_ok_def admit_submission_def Let_def)

lemma gate_ok_start: "gate_ok g \<Longrightarrow> gate_ok (start_work g)"
  by (auto simp: gate_ok_def start_work_def split: list.splits)

lemma gate_ok_finish:
  assumes "gate_ok g" "j \<in> set (ex_running g)"
  shows "gate_ok (finish_work j r g)"
proof -
  have "\<exists>m. length (ex_running g) = Suc m" using assms(2) by (cases "ex_running g") auto
  then show ?thesis using assms by (auto simp: gate_ok_def finish_work_def length_remove1)
qed

lemma gate_ok_return: "gate_ok g \<Longrightarrow> gate_ok (return_to_caller n j g)"
  by (auto simp: gate_ok_def return_to_caller_eq image_iff dest!: map_of_SomeD split: option.splits)

lemma gate_ok_limits: "gate_ok g \<Longrightarrow> gate_ok (set_enrollment_limits w p g)"
  by (auto simp: gate_ok_def set_enrollment_limits_def Let_def)

lemma gate_ok_close: "gate_ok g \<Longrightarrow> gate_ok (close_enrollment_gate g)"
  by (cases "eg_executor g") (simp_all add: gate_ok_def close_enrollment_gate_def executor_shutdown_def Let_def)

lemma gate_ok_turn: "gate_turn g g' \<Longrightarrow> gate_ok g \<Longrightarrow> gate_ok g'"
  by (induction rule: gate_turn.induct)
     (simp_all add: gate_ok_admit gate_ok_start gate_ok_finish gate_ok_return gate_ok_limits gate_ok_close)

lemma gate_reach_ok: "gate_reach w p g \<Longrightarrow> gate_ok g"
  by (induction rule: gate_reach.induct) (auto simp: gate_ok_new intro: gate_ok_turn)

section \<open>The workers drain the queue\<close>

definition work_left :: "'r gate_world \<Rightarrow> nat" where
  "work_left g = 2 * length (ex_queue g) + length (ex_running g)"

lemma gate_ok_worker: "gate_ok g \<Longrightarrow> gate_ok (worker_turn work g)"
  by (auto simp: worker_turn_def gate_ok_start split: list.split intro!: gate_ok_finish)

lemma worker_progress: "gate_ok g \<Longrightarrow> work_left (worker_turn work g) = work_left g - 1"
  by (auto simp: worker_turn_def work_left_def finish_work_def start_work_def gate_ok_def split: list.splits)

lemma worker_frame: "gw_admitted (worker_turn work g) = gw_admitted g"
  by (simp add: worker_turn_def finish_work_def start_work_def split: list.splits)

text \<open>Every future of the later state is one of the earlier state or the outcome the work gave.\<close>

lemma worker_done:
  "ex_done (worker_turn work g) = ex_done g \<or> (\<exists>j. ex_done (worker_turn work g) = ex_done g @ [(j, FutureResult (work j))])"
  by (auto simp: worker_turn_def finish_work_def start_work_def split: list.splits)

lemma workers_run:
  fixes work :: "job_id \<Rightarrow> 'r"
  assumes "gate_ok g"
  defines "h n \<equiv> (worker_turn work ^^ n) g"
  shows "gate_ok (h n)" "work_left (h n) = work_left g - n" "gw_admitted (h n) = gw_admitted g"
    "\<exists>js. ex_done (h n) = ex_done g @ map (\<lambda>j. (j, FutureResult (work j))) js"
proof (induction n)
  case 0
  show "gate_ok (h 0)" "work_left (h 0) = work_left g - 0" "gw_admitted (h 0) = gw_admitted g"
    "\<exists>js. ex_done (h 0) = ex_done g @ map (\<lambda>j. (j, FutureResult (work j))) js"
    using assms by simp_all
next
  case (Suc n)
  have h: "h (Suc n) = worker_turn work (h n)" by (simp add: h_def)
  show "gate_ok (h (Suc n))" "work_left (h (Suc n)) = work_left g - Suc n" "gw_admitted (h (Suc n)) = gw_admitted g"
    using Suc by (simp_all add: h gate_ok_worker worker_progress worker_frame)
  show "\<exists>js. ex_done (h (Suc n)) = ex_done g @ map (\<lambda>j. (j, FutureResult (work j))) js"
    using worker_done [of work "h n"]
  proof (elim disjE exE)
    fix j assume "ex_done (worker_turn work (h n)) = ex_done (h n) @ [(j, FutureResult (work j))]"
    moreover obtain js where "ex_done (h n) = ex_done g @ map (\<lambda>j. (j, FutureResult (work j))) js" using Suc(4) by blast
    ultimately have "ex_done (h (Suc n)) = ex_done g @ map (\<lambda>j. (j, FutureResult (work j))) (js @ [j])" by (simp add: h)
    then show ?thesis by (rule exI)
  qed (use Suc(4) h in simp)
qed

lemma gate_ok_done_distinct: "gate_ok g \<Longrightarrow> distinct (map fst (ex_done g))"
proof -
  assume g: "gate_ok g"
  have "distinct (gw_admitted g)" using g distinct_upt unfolding gate_ok_def by metis
  then have "distinct (ex_queue g @ ex_running g @ map fst (ex_done g))"
    using g unfolding gate_ok_def by (metis mset_append mset_eq_imp_distinct_iff append.assoc)
  then show ?thesis by simp
qed

lemma drained_returned:
  fixes work :: "job_id \<Rightarrow> 'r"
  assumes "gate_ok g" "2 * eg_pending g \<le> n" "j \<in> set (gw_admitted g)"
  defines "h \<equiv> (worker_turn work ^^ n) g"
  shows "(j, Inr (case map_of (ex_done g) j of Some (FutureResult r) \<Rightarrow> r | _ \<Rightarrow> work j)) \<in> set (gw_delivered (return_to_caller k j h))"
proof -
  note run = workers_run [OF assms(1), where work = work and n = n, folded h_def]
  have "work_left g \<le> n" using assms(1,2) by (simp add: work_left_def gate_ok_def)
  then have empty: "ex_queue h = []" "ex_running h = []" using run(2) by (simp_all add: work_left_def)
  have "set (gw_admitted h) = fst ` set (ex_done h)"
    using run(1) empty unfolding gate_ok_def by (metis add_0 mset.simps(1) set_map set_mset_mset)
  then obtain f where f: "(j, f) \<in> set (ex_done h)" using assms(3) run(3) by auto
  then have m: "map_of (ex_done h) j = Some f" using gate_ok_done_distinct [OF run(1)] by simp
  obtain js where js: "ex_done h = ex_done g @ map (\<lambda>j. (j, FutureResult (work j))) js" using run(4) by blast
  have fr: "f = FutureResult (case map_of (ex_done g) j of Some (FutureResult r) \<Rightarrow> r | _ \<Rightarrow> work j)"
  proof (cases "map_of (ex_done g) j")
    case None
    then have "(j, f) \<in> set (map (\<lambda>j. (j, FutureResult (work j))) js)" using f js by (auto simp: map_of_eq_None_iff image_iff)
    with None show ?thesis by auto
  next
    case (Some a)
    have "a \<noteq> FutureCancelled" using map_of_SomeD [OF Some] assms(1) by (force simp: gate_ok_def)
    then show ?thesis using Some m js by (cases a) auto
  qed
  then show ?thesis using m by (simp add: return_to_caller_eq)
qed

text \<open>
  C27. Admitted work is neither lost nor abandoned, under every interleaving of admissions, workers, waiting callers,
  changes of limits and the closing of the gate. Every admitted job is queued, running or done, once, and the
  counter is the number of those not done. A call is admitted exactly on an open gate, below the limit, when the
  executor can take it. No admitted job is cancelled, so no caller gets the \<open>RuntimeError\<close>. And when the workers go on, their calls
  ending in whatever \<open>work\<close> says, then within two turns per pending job every admitted job has returned the outcome of
  its call, however often its caller was cancelled, also when the gate has been closed.
\<close>

theorem admitted_work_returned:
  assumes "gate_reach w p g"
  shows "distinct (gw_admitted g)
    \<and> mset (gw_admitted g) = mset (ex_queue g) + mset (ex_running g) + mset (map fst (ex_done g))
    \<and> eg_pending g = length (ex_queue g) + length (ex_running g)
    \<and> (\<forall>submits. (\<exists>j g'. admit_submission submits g = (EAdmitted j, g')) \<longleftrightarrow>
         \<not> eg_closed g \<and> eg_pending g < eg_max_pending g \<and> (eg_executor g = None \<longrightarrow> 0 < eg_max_workers g) \<and> submits)
    \<and> FutureCancelled \<notin> snd ` set (ex_done g) \<and> Inl () \<notin> snd ` set (gw_delivered g)
    \<and> (\<forall>work n k. \<forall>j \<in> set (gw_admitted g). 2 * eg_pending g \<le> n \<longrightarrow>
         (j, Inr (case map_of (ex_done g) j of Some (FutureResult r) \<Rightarrow> r | _ \<Rightarrow> work j))
           \<in> set (gw_delivered (return_to_caller k j ((worker_turn work ^^ n) g))))"
proof (intro conjI)
  note ok = gate_reach_ok [OF assms]
  show "distinct (gw_admitted g)" using ok distinct_upt unfolding gate_ok_def by metis
  show "mset (gw_admitted g) = mset (ex_queue g) + mset (ex_running g) + mset (map fst (ex_done g))"
    "eg_pending g = length (ex_queue g) + length (ex_running g)" "FutureCancelled \<notin> snd ` set (ex_done g)"
    using ok by (simp_all add: gate_ok_def)
  show "\<forall>submits. (\<exists>j g'. admit_submission submits g = (EAdmitted j, g')) \<longleftrightarrow>
      \<not> eg_closed g \<and> eg_pending g < eg_max_pending g \<and> (eg_executor g = None \<longrightarrow> 0 < eg_max_workers g) \<and> submits"
    using ok by (auto simp: admit_submission_def Let_def gate_ok_def)
  show "Inl () \<notin> snd ` set (gw_delivered g)"
    using ok by (force simp: gate_ok_def split: future.splits)
qed (use drained_returned [OF gate_reach_ok [OF assms]] in blast)

theorem admitted_work_returned_witness:
  "let g = close_enrollment_gate (start_work (snd (admit_submission True (snd (admit_submission True (new_enrollment_gate 1 2))))))
   in ex_queue g = [1] \<and> (1, Inr ''ok'') \<in> set (gw_delivered (return_to_caller 3 1 ((worker_turn (\<lambda>_. ''ok'') ^^ 4) g)))"
proof -
  define g :: "string gate_world" where
    "g = close_enrollment_gate (start_work (snd (admit_submission True (snd (admit_submission True (new_enrollment_gate 1 2))))))"
  have "gate_reach 1 2 g" unfolding g_def
    by (rule reach_turn [OF reach_turn [OF reach_turn [OF reach_turn [OF reach_new turn_admit] turn_admit] turn_start] turn_close])
  note returned = admitted_work_returned [OF this, THEN conjunct2, THEN conjunct2, THEN conjunct2, THEN conjunct2, THEN conjunct2,
      THEN conjunct2, THEN spec, of "\<lambda>_. ''ok''", THEN spec, of 4, THEN spec, of 3]
  have g: "1 \<in> set (gw_admitted g)" "eg_pending g = 2" "ex_done g = []" "ex_queue g = [1]" unfolding g_def by code_simp+
  from bspec [OF returned g(1)] show ?thesis unfolding g_def [symmetric] Let_def g by simp
qed

end
