(* ===== verification/Configuration.thy ===== *)
theory Configuration
  imports RateLimit CrlFetch StoreAccounts
begin

text \<open>
  The settings of \<open>src/src/acme_adcs_ra/config.py\<close> that its validators read or the start-up uses, and
  the validators in the order they run: the constraints of the fields and the DNS patterns first, then the model
  validators, of which the first to raise decides. The reading of the environment is pydantic's. Timeouts are
  rationals; a warning is not modelled; an error is its constructor, without the prose.
\<close>

section \<open>Settings\<close>

definition MIN_EAB_MAC_KEY_BYTES :: nat where "MIN_EAB_MAC_KEY_BYTES = 32"
definition MIN_ADMIN_TOKEN_CHARS :: nat where "MIN_ADMIN_TOKEN_CHARS = 32"
definition MIN_EAB_KID_CHARS :: nat where "MIN_EAB_KID_CHARS = 22"

datatype siem_sink_kind = JsonlSink | SyslogSink | HecSink

datatype syslog_protocol = UdpSyslog | TcpSyslog

record RAConfig =
  rc_eab_allowlist :: "(string \<times> string) list"
  rc_max_accounts_per_eab_kid :: int
  rc_adcs_host :: string
  rc_adcs_template :: string
  rc_adcs_ca_name :: string
  rc_adcs_locale :: string
  rc_adcs_enrollment_timeout_seconds :: rat
  rc_adcs_enrollment_total_timeout_seconds :: rat
  rc_adcs_enrollment_max_workers :: int
  rc_adcs_enrollment_max_pending :: int
  rc_allow_fake_adcs_backends :: bool
  rc_base_url :: string
  rc_tls_certfile :: "string option"
  rc_tls_keyfile :: "string option"
  rc_bind_host :: string
  rc_bind_port :: "int option"
  rc_san_scopes :: "(string \<times> string list) list"
  rc_max_admin_body_size_bytes :: int
  rc_rate_limit_key_changes_per_window :: int
  rc_audit_offbox_required :: bool
  rc_audit_offbox_allow_unauthenticated_syslog :: bool
  rc_audit_denial_coalesce_window_seconds :: int
  rc_audit_retention_days :: int
  rc_audit_prune_enabled :: bool
  rc_audit_store_warn_mib :: int
  rc_audit_jsonl_max_mib :: int
  rc_audit_jsonl_keep :: int
  rc_siem_sink :: siem_sink_kind
  rc_siem_jsonl_path :: "string option"
  rc_siem_syslog_host :: string
  rc_siem_syslog_proto :: syslog_protocol
  rc_siem_syslog_timeout_seconds :: rat
  rc_siem_hec_url :: string
  rc_siem_hec_token :: string
  rc_siem_hec_queue_max :: int
  rc_admin_token :: string
  rc_revocation_confirm_token :: string
  rc_revocation_confirm_crl_url :: string
  rc_revocation_confirm_require_crl_evidence :: bool
  rc_revocation_confirm_crl_timeout_seconds :: rat
  rc_revocation_confirm_crl_total_timeout_seconds :: rat
  rc_revocation_confirm_crl_max_workers :: int
  rc_revocation_confirm_crl_max_pending :: int
  rc_allow_weak_credentials :: bool

section \<open>Fields\<close>

datatype credential_problem =
    KidNotPlain string | MacKeyNotBase64 string | MacKeyShort string nat | AdminTokenShort nat | ConfirmTokenShort nat | TokensIdentical

datatype config_error =
    FieldOutOfRange | BadDnsPattern string | PruningUnavailable
  | BaseUrlUnreadable | BaseUrlScheme | BaseUrlNoHost | BaseUrlPath | BaseUrlQuery
  | DuplicateKid string | WeakCredentials "credential_problem list"
  | IdleAcknowledgement | OffboxLocalSink | OffboxUdp | OffboxUnauthenticated | OffboxHecUnsafe
  | CrlUrlMissing | TotalTimeoutNotPositive | EnrollTotalTooShort | EnrollPendingTooSmall
  | CrlWorkersTooFew | CrlPendingTooFew | CrlPendingBelowWorkers | AdminBodyTooSmall | CrlTotalTooShort
  | TlsHalfConfigured

text \<open>The bounds the fields declare.\<close>

definition field_constraints :: "RAConfig \<Rightarrow> bool" where
  "field_constraints c \<longleftrightarrow> 1 \<le> rc_max_accounts_per_eab_kid c
     \<and> 0 < rc_adcs_enrollment_timeout_seconds c \<and> 0 < rc_adcs_enrollment_total_timeout_seconds c
     \<and> 1 \<le> rc_adcs_enrollment_max_workers c \<and> 1 \<le> rc_adcs_enrollment_max_pending c
     \<and> 0 \<le> rc_rate_limit_key_changes_per_window c \<and> 0 \<le> rc_audit_denial_coalesce_window_seconds c
     \<and> 0 \<le> rc_audit_retention_days c \<and> 0 \<le> rc_audit_store_warn_mib c \<and> 0 \<le> rc_audit_jsonl_max_mib c
     \<and> 0 \<le> rc_audit_jsonl_keep c \<and> 0 < rc_siem_syslog_timeout_seconds c \<and> 1 \<le> rc_siem_hec_queue_max c"

definition validate_dns_pattern :: "string \<Rightarrow> config_error + unit" where
  "validate_dns_pattern p =
     (let domain =
        (if CHR ''*'' \<in> set p then
           (if prefix ''*.'' p \<and> CHR ''*'' \<notin> set (drop 2 p) \<and> drop 2 p \<noteq> [] then Some (drop 2 p) else None)
         else Some p)
      in case domain of
           None \<Rightarrow> Inl (BadDnsPattern p)
         | Some d \<Rightarrow> (case validate_dns_name d of Inl _ \<Rightarrow> Inl (BadDnsPattern p) | Inr _ \<Rightarrow> Inr ()))"

definition validate_san_scopes :: "RAConfig \<Rightarrow> config_error + unit" where
  "validate_san_scopes c = each (\<lambda>(kid, patterns). each validate_dns_pattern patterns) (rc_san_scopes c)"

section \<open>Model validators\<close>

definition audit_pruning_is_not_available :: "RAConfig \<Rightarrow> config_error + unit" where
  "audit_pruning_is_not_available c = (if rc_audit_prune_enabled c then Inl PruningUnavailable else Inr ())"

text \<open>\<open>urllib.parse.urlsplit\<close>: \<open>urlparse\<close> without the split of path parameters.\<close>

definition urlsplit :: "(string \<Rightarrow> bool) \<Rightarrow> string \<Rightarrow> ParseResult option" where
  "urlsplit ip_literal raw =
     (let clean = filter (\<lambda>c. \<not> is_unsafe c) (dropWhile is_c0_or_space raw);
          (scheme, rest) = split_scheme clean;
          (netloc, rest) = splitnetloc rest;
          (rest, fragment) = cut CHR ''#'' rest;
          (path, query) = cut CHR ''?'' rest
      in if bad_brackets ip_literal netloc then None
         else Some \<lparr>u_scheme = scheme, u_netloc = netloc, u_path = path, u_params = [], u_query = query, u_fragment = fragment\<rparr>)"

definition base_url_is_a_bare_origin :: "(string \<Rightarrow> bool) \<Rightarrow> RAConfig \<Rightarrow> config_error + unit" where
  "base_url_is_a_bare_origin ip_literal c =
     (case urlsplit ip_literal (rc_base_url c) of
        None \<Rightarrow> Inl BaseUrlUnreadable
      | Some parts \<Rightarrow>
          if u_scheme parts \<notin> {''http'', ''https''} then Inl BaseUrlScheme
          else if u_netloc parts = [] then Inl BaseUrlNoHost
          else if u_path parts \<notin> {[], ''/''} then Inl BaseUrlPath
          else if u_query parts \<noteq> [] \<or> u_fragment parts \<noteq> [] then Inl BaseUrlQuery
          else Inr ())"

fun no_duplicates :: "string set \<Rightarrow> (string \<times> string) list \<Rightarrow> config_error + unit" where
  "no_duplicates seen [] = Inr ()"
| "no_duplicates seen ((kid, _) # es) =
     (if kid \<in> seen then Inl (DuplicateKid kid) else no_duplicates (insert kid seen) es)"

definition no_duplicate_eab_kids :: "RAConfig \<Rightarrow> config_error + unit" where
  "no_duplicate_eab_kids c = no_duplicates {} (rc_eab_allowlist c)"

definition entry_problems :: "string \<times> string \<Rightarrow> credential_problem list" where
  "entry_problems e =
     (let (kid, mac_key) = e in
      (if strip_space kid = [] \<or> kid \<noteq> strip_space kid then [KidNotPlain kid] else [])
      @ (case base64url_decode mac_key of
           Inl _ \<Rightarrow> [MacKeyNotBase64 kid]
         | Inr key_bytes \<Rightarrow>
             if length key_bytes < MIN_EAB_MAC_KEY_BYTES then [MacKeyShort kid (length key_bytes)] else []))"

definition credential_problems :: "RAConfig \<Rightarrow> credential_problem list" where
  "credential_problems c =
     concat (map entry_problems (rc_eab_allowlist c))
     @ (let t = rc_admin_token c in if t \<noteq> [] \<and> length t < MIN_ADMIN_TOKEN_CHARS then [AdminTokenShort (length t)] else [])
     @ (let t = rc_revocation_confirm_token c in if t \<noteq> [] \<and> length t < MIN_ADMIN_TOKEN_CHARS then [ConfirmTokenShort (length t)] else [])
     @ (if rc_admin_token c \<noteq> [] \<and> rc_revocation_confirm_token c \<noteq> [] \<and> rc_admin_token c = rc_revocation_confirm_token c
        then [TokensIdentical] else [])"

definition credentials_are_strong :: "RAConfig \<Rightarrow> config_error + unit" where
  "credentials_are_strong c =
     (if rc_allow_weak_credentials c then Inr ()
      else let problems = credential_problems c in if problems \<noteq> [] then Inl (WeakCredentials problems) else Inr ())"

text \<open>An https URL with a host and no user information: \<open>username\<close> and \<open>password\<close> are \<open>None\<close> without an at sign.\<close>

definition safe_hec_url :: "ParseResult \<Rightarrow> bool" where
  "safe_hec_url u \<longleftrightarrow> u_scheme u = ''https'' \<and> hostname u \<noteq> None \<and> CHR ''@'' \<notin> set (u_netloc u)"

definition offbox_audit_when_required :: "(string \<Rightarrow> bool) \<Rightarrow> RAConfig \<Rightarrow> config_error + unit" where
  "offbox_audit_when_required ip_literal c =
     (if \<not> rc_audit_offbox_required c
      then (if rc_audit_offbox_allow_unauthenticated_syslog c then Inl IdleAcknowledgement else Inr ())
      else case rc_siem_sink c of
          JsonlSink \<Rightarrow> Inl OffboxLocalSink
        | SyslogSink \<Rightarrow>
            if rc_siem_syslog_proto c = UdpSyslog then Inl OffboxUdp
            else if \<not> rc_audit_offbox_allow_unauthenticated_syslog c then Inl OffboxUnauthenticated
            else Inr ()
        | HecSink \<Rightarrow>
            (case urlsplit ip_literal (rc_siem_hec_url c) of
               None \<Rightarrow> Inl OffboxHecUnsafe
             | Some u \<Rightarrow> if \<not> safe_hec_url u \<or> rc_siem_hec_token c = [] then Inl OffboxHecUnsafe else Inr ()))"

definition crl_evidence_is_obtainable :: "RAConfig \<Rightarrow> config_error + unit" where
  "crl_evidence_is_obtainable c =
     (if rc_revocation_confirm_require_crl_evidence c \<and> rc_revocation_confirm_crl_url c = [] then Inl CrlUrlMissing else Inr ())"

definition crl_timeouts_are_coherent :: "RAConfig \<Rightarrow> config_error + unit" where
  "crl_timeouts_are_coherent c =
     (if rc_revocation_confirm_crl_total_timeout_seconds c \<le> 0 then Inl TotalTimeoutNotPositive
      else if rc_adcs_enrollment_total_timeout_seconds c < rc_adcs_enrollment_timeout_seconds c then Inl EnrollTotalTooShort
      else if rc_adcs_enrollment_max_pending c < rc_adcs_enrollment_max_workers c then Inl EnrollPendingTooSmall
      else if rc_revocation_confirm_crl_max_workers c < 1 then Inl CrlWorkersTooFew
      else if rc_revocation_confirm_crl_max_pending c < 1 then Inl CrlPendingTooFew
      else if rc_revocation_confirm_crl_max_pending c < rc_revocation_confirm_crl_max_workers c then Inl CrlPendingBelowWorkers
      else if rc_max_admin_body_size_bytes c < 1 then Inl AdminBodyTooSmall
      else if rc_revocation_confirm_crl_total_timeout_seconds c < rc_revocation_confirm_crl_timeout_seconds c then Inl CrlTotalTooShort
      else Inr ())"

definition tls_cert_key_paired :: "RAConfig \<Rightarrow> config_error + unit" where
  "tls_cert_key_paired c =
     (if (rc_tls_certfile c \<noteq> None) \<noteq> (rc_tls_keyfile c \<noteq> None) then Inl TlsHalfConfigured else Inr ())"

definition load_config :: "(string \<Rightarrow> bool) \<Rightarrow> RAConfig \<Rightarrow> config_error + unit" where
  "load_config ip_literal c =
     rbind (if field_constraints c then Inr () else Inl FieldOutOfRange) (\<lambda>_.
     rbind (validate_san_scopes c) (\<lambda>_.
     rbind (audit_pruning_is_not_available c) (\<lambda>_.
     rbind (base_url_is_a_bare_origin ip_literal c) (\<lambda>_.
     rbind (no_duplicate_eab_kids c) (\<lambda>_.
     rbind (credentials_are_strong c) (\<lambda>_.
     rbind (offbox_audit_when_required ip_literal c) (\<lambda>_.
     rbind (crl_evidence_is_obtainable c) (\<lambda>_.
     rbind (crl_timeouts_are_coherent c) (\<lambda>_. tls_cert_key_paired c)))))))))"

section \<open>Lookups\<close>

text \<open>The floor on kids, at start-up against the store: \<open>eab_kid_floor.py\<close>. \<open>Inl\<close> names the refused kids.\<close>

definition assert_eab_kids_meet_floor :: "RAConfig \<Rightarrow> db \<Rightarrow> string list + unit" where
  "assert_eab_kids_meet_floor c s =
     (if rc_allow_weak_credentials c then Inr ()
      else let short = filter (\<lambda>k. length k < MIN_EAB_KID_CHARS) (map fst (rc_eab_allowlist c)) in
           if short = [] then Inr ()
           else let in_use = eab_kids_with_accounts short s; refused = filter (\<lambda>k. k \<notin> in_use) short
                in if refused \<noteq> [] then Inl refused else Inr ())"

section \<open>What an accepted configuration guarantees\<close>

definition sound_pattern :: "string \<Rightarrow> bool" where
  "sound_pattern p \<longleftrightarrow>
     (\<exists>d. (p = d \<or> p = ''*.'' @ d) \<and> CHR ''*'' \<notin> set d \<and> validate_dns_name d = Inr ())"

definition strong_credentials :: "RAConfig \<Rightarrow> bool" where
  "strong_credentials c \<longleftrightarrow>
     list_all (\<lambda>(kid, mac_key). kid \<noteq> [] \<and> strip_space kid = kid \<and> (\<exists>key. base64url_decode mac_key = Inr key \<and> 32 \<le> length key))
       (rc_eab_allowlist c)
     \<and> (rc_admin_token c = [] \<or> 32 \<le> length (rc_admin_token c))
     \<and> (rc_revocation_confirm_token c = [] \<or> 32 \<le> length (rc_revocation_confirm_token c))
     \<and> \<not> (rc_admin_token c \<noteq> [] \<and> rc_admin_token c = rc_revocation_confirm_token c)"

definition bare_origin :: "(string \<Rightarrow> bool) \<Rightarrow> string \<Rightarrow> bool" where
  "bare_origin ip_literal base \<longleftrightarrow>
     (\<exists>u. urlsplit ip_literal base = Some u \<and> u_scheme u \<in> {''http'', ''https''} \<and> u_netloc u \<noteq> [] \<and> u_path u \<in> {[], ''/''}
        \<and> u_query u = [] \<and> u_fragment u = [])"

definition audit_posture :: "(string \<Rightarrow> bool) \<Rightarrow> RAConfig \<Rightarrow> bool" where
  "audit_posture ip_literal c \<longleftrightarrow>
     (if rc_audit_offbox_required c
      then rc_siem_sink c = SyslogSink \<and> rc_siem_syslog_proto c = TcpSyslog \<and> rc_audit_offbox_allow_unauthenticated_syslog c
        \<or> rc_siem_sink c = HecSink \<and> rc_siem_hec_token c \<noteq> [] \<and> (\<exists>u. urlsplit ip_literal (rc_siem_hec_url c) = Some u \<and> safe_hec_url u)
      else \<not> rc_audit_offbox_allow_unauthenticated_syslog c)"

definition coherent_limits :: "RAConfig \<Rightarrow> bool" where
  "coherent_limits c \<longleftrightarrow> 0 < rc_revocation_confirm_crl_total_timeout_seconds c
     \<and> rc_revocation_confirm_crl_timeout_seconds c \<le> rc_revocation_confirm_crl_total_timeout_seconds c
     \<and> rc_adcs_enrollment_timeout_seconds c \<le> rc_adcs_enrollment_total_timeout_seconds c
     \<and> rc_adcs_enrollment_max_workers c \<le> rc_adcs_enrollment_max_pending c
     \<and> 1 \<le> rc_revocation_confirm_crl_max_workers c
     \<and> rc_revocation_confirm_crl_max_workers c \<le> rc_revocation_confirm_crl_max_pending c
     \<and> 1 \<le> rc_max_admin_body_size_bytes c"

lemma star_prefix_drop: "prefix ''*.'' p \<longleftrightarrow> p = ''*.'' @ drop 2 p"
  by (auto simp: prefix_def)

lemma validate_dns_pattern_iff: "validate_dns_pattern p = Inr () \<longleftrightarrow> sound_pattern p"
proof -
  have nonempty: "validate_dns_name [] \<noteq> Inr ()" by (simp add: validate_dns_name_def rstrip_def)
  show ?thesis
  proof (cases "CHR ''*'' \<in> set p")
    case False
    then show ?thesis
      by (auto simp: validate_dns_pattern_def sound_pattern_def split: sum.splits)
  next
    case True
    have "sound_pattern p \<longleftrightarrow> prefix ''*.'' p \<and> CHR ''*'' \<notin> set (drop 2 p) \<and> validate_dns_name (drop 2 p) = Inr ()"
      using True by (auto simp: sound_pattern_def star_prefix_drop)
    with True nonempty show ?thesis
      by (auto simp: validate_dns_pattern_def split: sum.splits)
  qed
qed

lemma no_duplicates_iff: "no_duplicates seen es = Inr () \<longleftrightarrow> distinct (map fst es) \<and> set (map fst es) \<inter> seen = {}"
  by (induction seen es rule: no_duplicates.induct) auto

lemma entry_problems_iff:
  "entry_problems (kid, mac_key) = [] \<longleftrightarrow>
     kid \<noteq> [] \<and> strip_space kid = kid \<and> (\<exists>key. base64url_decode mac_key = Inr key \<and> 32 \<le> length key)"
  by (auto simp: entry_problems_def MIN_EAB_MAC_KEY_BYTES_def split: sum.splits)

lemma credential_problems_iff: "credential_problems c = [] \<longleftrightarrow> strong_credentials c"
proof -
  have "concat (map entry_problems (rc_eab_allowlist c)) = [] \<longleftrightarrow>
      list_all (\<lambda>(kid, mac_key). kid \<noteq> [] \<and> strip_space kid = kid \<and> (\<exists>key. base64url_decode mac_key = Inr key \<and> 32 \<le> length key))
        (rc_eab_allowlist c)"
    by (auto simp: list_all_iff entry_problems_iff)
  then show ?thesis
    by (auto simp: credential_problems_def strong_credentials_def Let_def MIN_ADMIN_TOKEN_CHARS_def not_less)
qed

lemma base_url_iff: "base_url_is_a_bare_origin ip_literal c = Inr () \<longleftrightarrow> bare_origin ip_literal (rc_base_url c)"
  by (auto simp: base_url_is_a_bare_origin_def bare_origin_def split: option.splits)

lemma offbox_iff: "offbox_audit_when_required ip_literal c = Inr () \<longleftrightarrow> audit_posture ip_literal c"
  by (cases "rc_siem_sink c"; cases "rc_siem_syslog_proto c")
    (auto simp: offbox_audit_when_required_def audit_posture_def split: option.splits)

lemma coherent_iff: "crl_timeouts_are_coherent c = Inr () \<longleftrightarrow> coherent_limits c"
  by (auto simp: crl_timeouts_are_coherent_def coherent_limits_def not_less not_le)

lemma config_iff:
  "load_config ip_literal c = Inr () \<longleftrightarrow>
     field_constraints c \<and> list_all (\<lambda>(kid, patterns). list_all sound_pattern patterns) (rc_san_scopes c)
     \<and> \<not> rc_audit_prune_enabled c \<and> bare_origin ip_literal (rc_base_url c) \<and> distinct (map fst (rc_eab_allowlist c))
     \<and> (rc_allow_weak_credentials c \<or> strong_credentials c) \<and> audit_posture ip_literal c
     \<and> \<not> (rc_revocation_confirm_require_crl_evidence c \<and> rc_revocation_confirm_crl_url c = [])
     \<and> coherent_limits c \<and> (rc_tls_certfile c = None \<longleftrightarrow> rc_tls_keyfile c = None)"
proof -
  have scopes: "validate_san_scopes c = Inr () \<longleftrightarrow> list_all (\<lambda>(kid, patterns). list_all sound_pattern patterns) (rc_san_scopes c)"
    by (auto simp: validate_san_scopes_def list_all_iff validate_dns_pattern_iff)
  have rest: "audit_pruning_is_not_available c = Inr () \<longleftrightarrow> \<not> rc_audit_prune_enabled c"
    "no_duplicate_eab_kids c = Inr () \<longleftrightarrow> distinct (map fst (rc_eab_allowlist c))"
    "credentials_are_strong c = Inr () \<longleftrightarrow> rc_allow_weak_credentials c \<or> strong_credentials c"
    "crl_evidence_is_obtainable c = Inr () \<longleftrightarrow> \<not> (rc_revocation_confirm_require_crl_evidence c \<and> rc_revocation_confirm_crl_url c = [])"
    "tls_cert_key_paired c = Inr () \<longleftrightarrow> (rc_tls_certfile c = None \<longleftrightarrow> rc_tls_keyfile c = None)"
    by (auto simp: audit_pruning_is_not_available_def no_duplicate_eab_kids_def no_duplicates_iff credentials_are_strong_def
        credential_problems_iff Let_def crl_evidence_is_obtainable_def tls_cert_key_paired_def)
  have unit: "(\<exists>u. m = Inr u \<and> P) \<longleftrightarrow> m = Inr () \<and> P" for m :: "config_error + unit" and P by auto
  show ?thesis
    unfolding load_config_def rbind_eq_Inr unit scopes rest base_url_iff offbox_iff coherent_iff by auto
qed

lemmas config_sound = config_iff [THEN iffD1]

text \<open>
  A configuration is accepted exactly when its numbers are in range, its name patterns are DNS names or
  such a name under one leading wildcard label, pruning is off, the base URL is a bare origin, no kid appears twice,
  the credentials are strong (unless weak ones are allowed), required off-box audit goes over HTTPS with a token or over
  acknowledged TCP syslog, required CRL evidence has a URL, the limits cohere, and TLS has both halves or none.
\<close>

theorem config_accepted_iff:
  "load_config ip_literal c = Inr () \<longleftrightarrow>
     field_constraints c \<and> list_all (\<lambda>(kid, patterns). list_all sound_pattern patterns) (rc_san_scopes c)
     \<and> \<not> rc_audit_prune_enabled c \<and> bare_origin ip_literal (rc_base_url c) \<and> distinct (map fst (rc_eab_allowlist c))
     \<and> (rc_allow_weak_credentials c \<or> strong_credentials c) \<and> audit_posture ip_literal c
     \<and> \<not> (rc_revocation_confirm_require_crl_evidence c \<and> rc_revocation_confirm_crl_url c = [])
     \<and> coherent_limits c \<and> (rc_tls_certfile c = None \<longleftrightarrow> rc_tls_keyfile c = None)"
  by (rule config_iff)

lemma kid_floor_iff:
  "assert_eab_kids_meet_floor c s = Inr () \<longleftrightarrow>
     rc_allow_weak_credentials c \<or> list_all (\<lambda>(kid, _). 22 \<le> length kid \<or> list_ex (\<lambda>a. acc_eab_kid a = kid) (accounts s)) (rc_eab_allowlist c)"
proof -
  have in_use: "list_ex (\<lambda>a. acc_eab_kid a = k) (accounts s) \<longleftrightarrow> k \<in> acc_eab_kid ` set (accounts s)" for k
    by (auto simp: list_ex_iff)
  have floor: "assert_eab_kids_meet_floor c s = Inr () \<longleftrightarrow>
      rc_allow_weak_credentials c \<or> (\<forall>k \<in> fst ` set (rc_eab_allowlist c). 22 \<le> length k \<or> k \<in> acc_eab_kid ` set (accounts s))"
    by (auto simp: assert_eab_kids_meet_floor_def Let_def eab_kids_with_accounts_def filter_empty_conv MIN_EAB_KID_CHARS_def not_less)
  show ?thesis unfolding floor in_use by (simp add: list_all_iff split_beta)
qed

end
