(* ===== verification/Siem.thy ===== *)
theory Siem
  imports Configuration "HOL-Library.Sublist"
begin

text \<open>
  The emission of audit events (\<open>src/src/acme_adcs_ra/siem.py\<close>): the sinks and when they are enabled, the
  bounded queue in front of the off-box sinks with its accounting, the delivery probe, and the local JSON-lines mirror
  with its rotation. What the network, the file system and the syslog handler answer are arguments. An event is its
  JSON line.
\<close>

section \<open>The emitter\<close>

record SiemConfig =
  sc_sink :: siem_sink_kind
  sc_jsonl_path :: "string option"
  sc_syslog_host :: string
  sc_syslog_proto :: syslog_protocol
  sc_hec_url :: string
  sc_hec_token :: string
  sc_jsonl_max_mib :: int
  sc_jsonl_keep :: int
  sc_hec_queue_max :: int
  sc_offbox_unauthenticated_acknowledged :: bool

text \<open>\<open>default_path\<close> is \<open>default_jsonl_path(config.db_path)\<close>.\<close>

definition build_siem_config :: "string \<Rightarrow> RAConfig \<Rightarrow> SiemConfig" where
  "build_siem_config default_path c =
     \<lparr>sc_sink = rc_siem_sink c,
      sc_jsonl_path = (if rc_siem_jsonl_path c = None \<and> rc_siem_sink c = JsonlSink then Some default_path else rc_siem_jsonl_path c),
      sc_syslog_host = rc_siem_syslog_host c, sc_syslog_proto = rc_siem_syslog_proto c,
      sc_hec_url = rc_siem_hec_url c, sc_hec_token = rc_siem_hec_token c,
      sc_jsonl_max_mib = rc_audit_jsonl_max_mib c, sc_jsonl_keep = rc_audit_jsonl_keep c,
      sc_hec_queue_max = rc_siem_hec_queue_max c,
      sc_offbox_unauthenticated_acknowledged = rc_audit_offbox_allow_unauthenticated_syslog c\<rparr>"

text \<open>The pool holds the events submitted to it and not yet worked off; \<open>None\<close> is no pool.\<close>

record emitter =
  em_config :: SiemConfig
  em_enabled :: bool
  em_syslog :: bool
  em_pool :: "string list option"
  em_inflight :: int
  em_dropped :: nat
  em_failures :: nat
  em_delivered :: nat
  em_last_error :: "string option"

definition blank_emitter :: "SiemConfig \<Rightarrow> emitter" where
  "blank_emitter cfg =
     \<lparr>em_config = cfg, em_enabled = False, em_syslog = False, em_pool = None, em_inflight = 0, em_dropped = 0,
      em_failures = 0, em_delivered = 0, em_last_error = None\<rparr>"

text \<open>
  \<open>SiemEmitter.__init__\<close>: whether the syslog handler can be set up and whether the mirror can be opened for
  appending are arguments. \<open>None\<close>: the HEC URL makes \<open>urlparse\<close> raise.
\<close>

definition new_emitter :: "(string \<Rightarrow> bool) \<Rightarrow> bool \<Rightarrow> bool \<Rightarrow> SiemConfig \<Rightarrow> emitter option" where
  "new_emitter ip_literal syslog_sets_up path_opens cfg =
     (let e = blank_emitter cfg in
      case sc_sink cfg of
        SyslogSink \<Rightarrow>
          let ok = sc_syslog_host cfg \<noteq> [] \<and> syslog_sets_up in
          Some (e\<lparr>em_syslog := ok, em_pool := (if ok then Some [] else None), em_enabled := ok\<rparr>)
      | HecSink \<Rightarrow>
          (case urlparse ip_literal (sc_hec_url cfg) of
             None \<Rightarrow> None
           | Some u \<Rightarrow>
               let ok = safe_hec_url u \<and> sc_hec_token cfg \<noteq> [] in
               Some (e\<lparr>em_pool := (if ok then Some [] else None), em_enabled := ok\<rparr>))
      | JsonlSink \<Rightarrow> Some (e\<lparr>em_enabled := (sc_jsonl_path cfg \<noteq> None \<and> path_opens)\<rparr>))"

definition close_emitter :: "emitter \<Rightarrow> emitter" where
  "close_emitter e = e\<lparr>em_syslog := False, em_pool := None\<rparr>"

section \<open>Off-box delivery\<close>

text \<open>
  The two halves of \<open>_submit_bounded\<close>: under the lock an event takes a slot, is dropped when there is none, or is passed over when
  there is no pool; outside the lock it is handed to the pool. \<open>submit\<close> on a pool that was shut down raises
  \<open>RuntimeError\<close>, which is caught and gives the slot back. When \<open>close\<close> has taken the pool away in between, the call raises
  another error, which \<open>export\<close> catches, and the slot is not given back.
\<close>

definition reserve_slot :: "emitter \<Rightarrow> bool \<times> emitter" where
  "reserve_slot e =
     (if em_pool e = None then (False, e)
      else if em_inflight e \<ge> sc_hec_queue_max (em_config e) then (False, e\<lparr>em_dropped := Suc (em_dropped e)\<rparr>)
      else (True, e\<lparr>em_inflight := em_inflight e + 1\<rparr>))"

definition hand_over :: "bool \<Rightarrow> string \<Rightarrow> emitter \<Rightarrow> emitter" where
  "hand_over shut_down event e =
     (case em_pool e of
        None \<Rightarrow> e
      | Some queue \<Rightarrow>
          if shut_down then e\<lparr>em_inflight := em_inflight e - 1\<rparr> else e\<lparr>em_pool := Some (queue @ [event])\<rparr>)"

definition submit_bounded :: "bool \<Rightarrow> string \<Rightarrow> emitter \<Rightarrow> emitter" where
  "submit_bounded shut_down event e =
     (let (reserved, e') = reserve_slot e in if reserved then hand_over shut_down event e' else e')"

definition record_offbox_result :: "string option \<Rightarrow> emitter \<Rightarrow> emitter" where
  "record_offbox_result error e =
     (case error of
        None \<Rightarrow> e\<lparr>em_delivered := Suc (em_delivered e), em_failures := 0\<rparr>
      | Some x \<Rightarrow> e\<lparr>em_failures := Suc (em_failures e), em_last_error := Some x\<rparr>)"

text \<open>What a post meets: a 2xx answer, an answer of another status that was returned, or an exception.\<close>

datatype hec_outcome = Hec2xx | HecStatus string | HecRaises string

text \<open>The flag of the result says that the call raises: with \<open>raise_on_error\<close> a failure is raised again.\<close>

definition hec_post_inner :: "bool \<Rightarrow> hec_outcome \<Rightarrow> emitter \<Rightarrow> bool \<times> emitter" where
  "hec_post_inner raise_on_error outcome e =
     (case outcome of
        Hec2xx \<Rightarrow> (False, record_offbox_result None e)
      | HecStatus s \<Rightarrow>
          let e = record_offbox_result (Some s) e in
          if raise_on_error then (True, record_offbox_result (Some s) e) else (False, e)
      | HecRaises x \<Rightarrow> (raise_on_error, record_offbox_result (Some x) e))"

definition hec_post :: "hec_outcome \<Rightarrow> emitter \<Rightarrow> emitter" where
  "hec_post outcome e = (let e = snd (hec_post_inner False outcome e) in e\<lparr>em_inflight := em_inflight e - 1\<rparr>)"

definition syslog_send :: "string option \<Rightarrow> emitter \<Rightarrow> emitter" where
  "syslog_send error e =
     (let e = record_offbox_result (if em_syslog e then error else None) e in e\<lparr>em_inflight := em_inflight e - 1\<rparr>)"

text \<open>\<open>probe_offbox_delivery\<close>; \<open>syslog_error\<close> is what the handler raises, if it does.\<close>

definition probe_offbox_delivery :: "hec_outcome \<Rightarrow> string option \<Rightarrow> emitter \<Rightarrow> bool \<times> emitter" where
  "probe_offbox_delivery outcome syslog_error e =
     (if \<not> em_enabled e then (False, e)
      else case sc_sink (em_config e) of
          HecSink \<Rightarrow> (let (raised, e') = hec_post_inner True outcome e in (\<not> raised, e'))
        | SyslogSink \<Rightarrow>
            if em_syslog e \<and> syslog_error \<noteq> None then (False, e)
            else (sc_syslog_proto (em_config e) \<noteq> UdpSyslog, e)
        | JsonlSink \<Rightarrow> (False, e))"

section \<open>The mirror\<close>

text \<open>
  The files of the mirror by their number: 0 is the path itself, \<open>i\<close> the path with the suffix \<open>.i\<close>. The size of a
  file is the sum of its lines' sizes, each with its newline.
\<close>

type_synonym mirror = "nat \<rightharpoonup> string list"

definition file_bytes :: "string list \<Rightarrow> int" where
  "file_bytes ls = sum_list (map (\<lambda>l. int (length l) + 1) ls)"

definition append_line :: "string \<Rightarrow> mirror \<Rightarrow> mirror" where
  "append_line line m = m(0 \<mapsto> (case m 0 of None \<Rightarrow> [] | Some ls \<Rightarrow> ls) @ [line])"

text \<open>\<open>Path.replace\<close>, and the moves from file \<open>n\<close> down to file 1, as far as they get before one fails.\<close>

definition replace_file :: "nat \<Rightarrow> nat \<Rightarrow> mirror \<Rightarrow> mirror" where
  "replace_file i j m = (case m i of None \<Rightarrow> m | Some ls \<Rightarrow> (m(i := None))(j \<mapsto> ls))"

fun shift_files :: "nat \<Rightarrow> nat \<Rightarrow> mirror \<Rightarrow> nat \<times> mirror" where
  "shift_files 0 allowance m = (allowance, m)"
| "shift_files (Suc n) allowance m =
     (if m (Suc n) = None then shift_files n allowance m
      else case allowance of
          0 \<Rightarrow> (0, m)
        | Suc b \<Rightarrow> shift_files n b (replace_file (Suc n) (Suc (Suc n)) m))"

text \<open>
  \<open>allowance\<close> is how many file operations succeed before one raises \<open>OSError\<close>, which is caught; the order of the moves
  is from the highest number down, and the current file is moved last.
\<close>

definition rotate_jsonl_if_needed :: "SiemConfig \<Rightarrow> nat \<Rightarrow> mirror \<Rightarrow> mirror" where
  "rotate_jsonl_if_needed cfg allowance m =
     (let max_bytes = sc_jsonl_max_mib cfg * 1024 * 1024 in
      if max_bytes \<le> 0 then m
      else case m 0 of
          None \<Rightarrow> m
        | Some ls \<Rightarrow>
            if file_bytes ls < max_bytes then m
            else let keep = nat (sc_jsonl_keep cfg) in
              if keep = 0 then (if allowance = 0 then m else m(0 \<mapsto> []))
              else let (left, m') = shift_files (keep - 1) allowance m in
                   if left = 0 then m' else replace_file 0 1 m')"

definition to_jsonl :: "SiemConfig \<Rightarrow> nat \<Rightarrow> string \<Rightarrow> mirror \<Rightarrow> mirror" where
  "to_jsonl cfg allowance line m = rotate_jsonl_if_needed cfg allowance (append_line line m)"

text \<open>\<open>jsonl_bytes\<close>: the path and its \<open>keep\<close> rotated files.\<close>

definition jsonl_bytes :: "SiemConfig \<Rightarrow> mirror \<Rightarrow> int" where
  "jsonl_bytes cfg m =
     (if sc_jsonl_path cfg = None then 0
      else sum_list (map (\<lambda>i. case m i of None \<Rightarrow> 0 | Some ls \<Rightarrow> file_bytes ls) [0..<Suc (nat (sc_jsonl_keep cfg))]))"

text \<open>\<open>export\<close>: an emitter that is not enabled emits nothing.\<close>

definition export :: "nat \<Rightarrow> bool \<Rightarrow> string \<Rightarrow> emitter \<times> mirror \<Rightarrow> emitter \<times> mirror" where
  "export allowance shut_down event st =
     (let (e, m) = st in
      if \<not> em_enabled e then st
      else case sc_sink (em_config e) of
          JsonlSink \<Rightarrow> (e, if sc_jsonl_path (em_config e) = None then m else to_jsonl (em_config e) allowance event m)
        | SyslogSink \<Rightarrow> (if em_syslog e then submit_bounded shut_down event e else e, m)
        | HecSink \<Rightarrow> (submit_bounded shut_down event e, m))"

section \<open>The queue is bounded and accounted for\<close>

text \<open>
  The emitter among its threads: the calls of \<open>export\<close> between the two halves of their submission, the pool and its
  shutdown, and the events its workers have taken. The other fields count what became of the events: offered; refused
  because the emitter was closed; given up with their slot because \<open>close\<close> took the pool away; cancelled in the queue; failed;
  acknowledged by the sink; and taken by a syslog worker after the logger was gone, which sends nothing.
\<close>

record siem_world =
  sw_em :: emitter
  sw_reserved :: "string list"
  sw_running :: "string list"
  sw_shut_down :: bool
  sw_offered :: nat
  sw_refused :: nat
  sw_stranded :: nat
  sw_cancelled :: nat
  sw_failed :: nat
  sw_acked :: nat
  sw_unsent :: nat

definition siem_start :: "emitter \<Rightarrow> siem_world" where
  "siem_start e = \<lparr>sw_em = e, sw_reserved = [], sw_running = [], sw_shut_down = False, sw_offered = 0, sw_refused = 0, sw_stranded = 0,
     sw_cancelled = 0, sw_failed = 0, sw_acked = 0, sw_unsent = 0\<rparr>"

definition queue_of :: "emitter \<Rightarrow> string list" where
  "queue_of e = (case em_pool e of None \<Rightarrow> [] | Some q \<Rightarrow> q)"

datatype siem_event =
    Offer string
  | HandOver
  | TakeWork
  | EndWork hec_outcome "string option"
  | CloseLogger
  | CloseShutdown
  | CloseForget

definition offers_to_pool :: "emitter \<Rightarrow> bool" where
  "offers_to_pool e \<longleftrightarrow> em_enabled e \<and> (sc_sink (em_config e) = HecSink \<or> sc_sink (em_config e) = SyslogSink \<and> em_syslog e)"

definition offer_event :: "string \<Rightarrow> siem_world \<Rightarrow> siem_world" where
  "offer_event event w =
     (let w = w\<lparr>sw_offered := Suc (sw_offered w)\<rparr> in
      if \<not> offers_to_pool (sw_em w) \<or> em_pool (sw_em w) = None then w\<lparr>sw_refused := Suc (sw_refused w)\<rparr>
      else let (reserved, e) = reserve_slot (sw_em w)
           in w\<lparr>sw_em := e, sw_reserved := (if reserved then sw_reserved w @ [event] else sw_reserved w)\<rparr>)"

definition hand_over_event :: "siem_world \<Rightarrow> siem_world" where
  "hand_over_event w =
     (case sw_reserved w of
        [] \<Rightarrow> w
      | event # rest \<Rightarrow>
          let w' = w\<lparr>sw_reserved := rest, sw_em := hand_over (sw_shut_down w) event (sw_em w)\<rparr> in
          if em_pool (sw_em w) = None then w'\<lparr>sw_stranded := Suc (sw_stranded w)\<rparr>
          else if sw_shut_down w then w'\<lparr>sw_refused := Suc (sw_refused w)\<rparr> else w')"

text \<open>A worker takes the first event of the queue, and later its call ends.\<close>

definition take_event :: "siem_world \<Rightarrow> siem_world" where
  "take_event w =
     (case em_pool (sw_em w) of
        Some (event # queue) \<Rightarrow> w\<lparr>sw_em := (sw_em w)\<lparr>em_pool := Some queue\<rparr>, sw_running := sw_running w @ [event]\<rparr>
      | _ \<Rightarrow> w)"

definition end_event :: "hec_outcome \<Rightarrow> string option \<Rightarrow> siem_world \<Rightarrow> siem_world" where
  "end_event outcome error w =
     (case sw_running w of
        [] \<Rightarrow> w
      | event # rest \<Rightarrow>
          let e = sw_em w; w = w\<lparr>sw_running := rest\<rparr> in
          if sc_sink (em_config e) = HecSink then
            (let w = w\<lparr>sw_em := hec_post outcome e\<rparr>
             in if outcome = Hec2xx then w\<lparr>sw_acked := Suc (sw_acked w)\<rparr> else w\<lparr>sw_failed := Suc (sw_failed w)\<rparr>)
          else
            (let w = w\<lparr>sw_em := syslog_send error e\<rparr>
             in if \<not> em_syslog e then w\<lparr>sw_unsent := Suc (sw_unsent w)\<rparr>
                else if error = None then w\<lparr>sw_acked := Suc (sw_acked w)\<rparr> else w\<lparr>sw_failed := Suc (sw_failed w)\<rparr>))"

text \<open>\<open>close\<close> in its three steps: the logger, \<open>shutdown(wait=False, cancel_futures=True)\<close>, the pool.\<close>

definition close_logger :: "siem_world \<Rightarrow> siem_world" where
  "close_logger w = w\<lparr>sw_em := (sw_em w)\<lparr>em_syslog := False\<rparr>\<rparr>"

definition close_shutdown :: "siem_world \<Rightarrow> siem_world" where
  "close_shutdown w =
     (case em_pool (sw_em w) of
        None \<Rightarrow> w
      | Some queue \<Rightarrow> w\<lparr>sw_shut_down := True, sw_em := (sw_em w)\<lparr>em_pool := Some []\<rparr>, sw_cancelled := sw_cancelled w + length queue\<rparr>)"

definition close_forget :: "siem_world \<Rightarrow> siem_world" where
  "close_forget w = (if sw_shut_down w then w\<lparr>sw_em := (sw_em w)\<lparr>em_pool := None\<rparr>\<rparr> else w)"

fun siem_step :: "siem_event \<Rightarrow> siem_world \<Rightarrow> siem_world" where
  "siem_step (Offer event) w = offer_event event w"
| "siem_step HandOver w = hand_over_event w"
| "siem_step TakeWork w = take_event w"
| "siem_step (EndWork outcome error) w = end_event outcome error w"
| "siem_step CloseLogger w = close_logger w"
| "siem_step CloseShutdown w = close_shutdown w"
| "siem_step CloseForget w = close_forget w"

lemmas siem_step_defs = offer_event_def hand_over_event_def take_event_def end_event_def close_logger_def close_shutdown_def close_forget_def
  reserve_slot_def hand_over_def hec_post_def hec_post_inner_def syslog_send_def queue_of_def

text \<open>The steps are those of the program: an offer and its hand-over make \<open>export\<close>, the three steps of closing make \<open>close\<close>.\<close>

lemma export_in_steps:
  assumes "sw_reserved w = []" "sc_sink (em_config (sw_em w)) \<noteq> JsonlSink"
  shows "sw_em (siem_step HandOver (siem_step (Offer event) w)) = fst (export allowance (sw_shut_down w) event (sw_em w, m))"
  using assms
  by (cases "sc_sink (em_config (sw_em w))")
     (auto simp: offer_event_def hand_over_event_def export_def submit_bounded_def reserve_slot_def hand_over_def offers_to_pool_def Let_def
        split: option.split)

lemma close_in_steps:
  "sw_em (fold siem_step [CloseLogger, CloseShutdown, CloseForget] w) = close_emitter (sw_em w)"
  by (auto simp: close_logger_def close_shutdown_def close_forget_def close_emitter_def split: option.split)

lemma record_offbox_simps [simp]:
  "em_config (record_offbox_result x e) = em_config e" "em_enabled (record_offbox_result x e) = em_enabled e"
  "em_syslog (record_offbox_result x e) = em_syslog e" "em_pool (record_offbox_result x e) = em_pool e"
  "em_inflight (record_offbox_result x e) = em_inflight e" "em_dropped (record_offbox_result x e) = em_dropped e"
  "em_delivered (record_offbox_result x e) = em_delivered e + (if x = None then 1 else 0)"
  by (simp_all add: record_offbox_result_def split: option.split)

definition siem_ok :: "SiemConfig \<Rightarrow> siem_world \<Rightarrow> bool" where
  "siem_ok cfg w \<longleftrightarrow> em_config (sw_em w) = cfg \<and> em_enabled (sw_em w)
     \<and> em_inflight (sw_em w) = int (length (sw_reserved w) + length (queue_of (sw_em w)) + length (sw_running w) + sw_cancelled w + sw_stranded w)
     \<and> em_inflight (sw_em w) \<le> sc_hec_queue_max cfg
     \<and> em_delivered (sw_em w) = sw_acked w + sw_unsent w
     \<and> sw_offered w = em_delivered (sw_em w) + sw_failed w + em_dropped (sw_em w) + sw_refused w + sw_stranded w + sw_cancelled w
          + length (sw_reserved w) + length (queue_of (sw_em w)) + length (sw_running w)
     \<and> (\<not> sw_shut_down w \<longrightarrow> em_pool (sw_em w) \<noteq> None \<and> sw_cancelled w = 0 \<and> sw_stranded w = 0)
     \<and> (sw_shut_down w \<longrightarrow> queue_of (sw_em w) = [])
     \<and> (sc_sink cfg = HecSink \<or> em_syslog (sw_em w) \<longrightarrow> sw_unsent w = 0)
     \<and> (\<not> sw_shut_down w \<and> (sc_sink cfg = HecSink \<or> em_syslog (sw_em w)) \<longrightarrow> sw_refused w = 0)"

lemma siem_ok_step:
  assumes "siem_ok cfg w" "sc_sink cfg \<noteq> JsonlSink"
  shows "siem_ok cfg (siem_step x w)"
proof (cases x)
  case (Offer event)
  then show ?thesis using assms by (cases "sc_sink cfg") (auto simp: siem_ok_def offers_to_pool_def siem_step_defs Let_def)
next
  case HandOver
  then show ?thesis using assms
    by (cases "sw_reserved w") (auto simp: siem_ok_def siem_step_defs Let_def split: option.splits)
next
  case TakeWork
  then show ?thesis using assms by (auto simp: siem_ok_def siem_step_defs split: option.splits list.splits)
next
  case (EndWork outcome error)
  then show ?thesis using assms
    by (cases "sw_running w"; cases outcome) (auto simp: siem_ok_def siem_step_defs Let_def split: option.splits)
qed (use assms in \<open>auto simp: siem_ok_def siem_step_defs split: option.splits\<close>)

definition is_offer :: "siem_event \<Rightarrow> bool" where
  "is_offer x \<longleftrightarrow> (case x of Offer _ \<Rightarrow> True | _ \<Rightarrow> False)"

lemma offered_step: "sw_offered (siem_step x w) = sw_offered w + (if is_offer x then 1 else 0)"
  by (cases x) (auto simp: siem_step_defs is_offer_def Let_def split: list.split option.split)

lemma shut_down_step: "x \<noteq> CloseShutdown \<Longrightarrow> sw_shut_down (siem_step x w) = sw_shut_down w"
  by (cases x) (auto simp: siem_step_defs Let_def split: list.split option.split)

lemma logger_step: "x \<noteq> CloseLogger \<Longrightarrow> em_syslog (sw_em (siem_step x w)) = em_syslog (sw_em w)"
  by (cases x) (auto simp: siem_step_defs Let_def split: list.split option.split hec_outcome.split)

lemma offered_run: "sw_offered (fold siem_step es w) = sw_offered w + length (filter is_offer es)"
  by (induction es arbitrary: w) (simp_all add: offered_step del: siem_step.simps)

lemma open_pool_run: "CloseShutdown \<notin> set es \<Longrightarrow> sw_shut_down (fold siem_step es w) = sw_shut_down w"
proof (induction es arbitrary: w)
  case (Cons x es)
  then have "x \<noteq> CloseShutdown" by auto
  with Cons show ?case by (simp add: shut_down_step del: siem_step.simps)
qed simp

lemma open_logger_run: "CloseLogger \<notin> set es \<Longrightarrow> em_syslog (sw_em (fold siem_step es w)) = em_syslog (sw_em w)"
proof (induction es arbitrary: w)
  case (Cons x es)
  then have "x \<noteq> CloseLogger" by auto
  with Cons show ?case by (simp add: logger_step del: siem_step.simps)
qed simp

text \<open>
  C32. An off-box sink never holds more than the configured number of events, and no event is unaccounted for, over every
  interleaving of calls of \<open>export\<close>, workers and the steps of \<open>close\<close>. Each event offered was delivered, failed, counted as
  dropped, refused or stranded by the closing, cancelled by it in the queue, or is still held: between the halves of
  its submission, in the queue, or by a worker. The in-flight count is exactly the events held, and those whose slot the closing
  kept. The count of deliveries is the sends that succeeded, and the events that a syslog worker took up after the closing
  had removed the logger, of which nothing was sent. Until the shutdown nothing is cancelled or stranded; and until the closing
  begins nothing is refused, and the count of deliveries is exactly the number of sends that succeeded.
\<close>

theorem siem_events_accounted:
  assumes "new_emitter ip_literal syslog_sets_up path_opens cfg = Some e" "em_enabled e" "sc_sink cfg \<noteq> JsonlSink" "0 \<le> sc_hec_queue_max cfg"
    "w = fold siem_step es (siem_start e)"
  shows "em_inflight (sw_em w) \<le> sc_hec_queue_max cfg
    \<and> em_inflight (sw_em w) = int (length (sw_reserved w) + length (queue_of (sw_em w)) + length (sw_running w) + sw_cancelled w + sw_stranded w)
    \<and> sw_offered w = length (filter is_offer es)
    \<and> sw_offered w = em_delivered (sw_em w) + sw_failed w + em_dropped (sw_em w) + sw_refused w + sw_stranded w + sw_cancelled w
          + length (sw_reserved w) + length (queue_of (sw_em w)) + length (sw_running w)
    \<and> em_delivered (sw_em w) = sw_acked w + sw_unsent w
    \<and> (CloseShutdown \<notin> set es \<longrightarrow> sw_cancelled w = 0 \<and> sw_stranded w = 0)
    \<and> (CloseShutdown \<notin> set es \<and> CloseLogger \<notin> set es \<longrightarrow> sw_refused w = 0 \<and> em_delivered (sw_em w) = sw_acked w)"
proof -
  have start: "siem_ok cfg (siem_start e)"
    using assms(1-4)
    by (auto simp: siem_ok_def siem_start_def queue_of_def new_emitter_def blank_emitter_def Let_def split: siem_sink_kind.splits option.splits)
  have ok: "siem_ok cfg (fold siem_step xs (siem_start e))" for xs
    by (induction xs rule: rev_induct) (simp_all add: start siem_ok_step assms(3))
  have sink: "sc_sink cfg = HecSink \<or> em_syslog e"
    using assms(1-3) by (auto simp: new_emitter_def blank_emitter_def Let_def split: siem_sink_kind.splits option.splits)
  show ?thesis
    using ok [of es] offered_run [of es "siem_start e"] open_pool_run [of es "siem_start e"] open_logger_run [of es "siem_start e"] sink
    unfolding siem_ok_def assms(5) by (auto simp: siem_start_def)
qed

section \<open>The mirror is a suffix of the history\<close>

definition lines_of :: "mirror \<Rightarrow> nat \<Rightarrow> string list" where
  "lines_of m i = (case m i of None \<Rightarrow> [] | Some ls \<Rightarrow> ls)"

text \<open>All lines, the oldest file first.\<close>

definition mirror_lines :: "nat \<Rightarrow> mirror \<Rightarrow> string list" where
  "mirror_lines keep m = concat (map (lines_of m) (rev [0..<Suc keep]))"

lemma lines_replace:
  "m i \<noteq> None \<Longrightarrow> i \<noteq> j \<Longrightarrow> lines_of (replace_file i j m) = (lines_of m)(j := lines_of m i, i := [])"
  by (auto simp: lines_of_def replace_file_def fun_eq_iff split: option.splits)

lemma mirror_lines_split:
  assumes "Suc i \<le> keep"
  shows "mirror_lines keep m = concat (map (lines_of m) (rev [Suc (Suc i)..<Suc keep])) @ lines_of m (Suc i) @ lines_of m i
    @ concat (map (lines_of m) (rev [0..<i]))"
proof -
  have "[0..<Suc keep] = [0..<i] @ [i, Suc i] @ [Suc (Suc i)..<Suc keep]"
    using assms upt_add_eq_append [of 0 i "Suc keep - i"] by (simp add: upt_conv_Cons)
  then show ?thesis unfolding mirror_lines_def by simp
qed

lemma mirror_replace:
  assumes "Suc i \<le> keep"
  shows "lines_of m (Suc i) = [] \<Longrightarrow> mirror_lines keep (replace_file i (Suc i) m) = mirror_lines keep m"
    "Suc i = keep \<Longrightarrow> suffix (mirror_lines keep (replace_file i (Suc i) m)) (mirror_lines keep m)"
proof -
  have up: "map ((lines_of m)(Suc i := v, i := w)) (rev [Suc (Suc i)..<Suc keep]) = map (lines_of m) (rev [Suc (Suc i)..<Suc keep])"
    "map ((lines_of m)(Suc i := v, i := w)) (rev [0..<i]) = map (lines_of m) (rev [0..<i])" for v w
    by auto
  have eq: "mirror_lines keep (replace_file i (Suc i) m) = concat (map (lines_of m) (rev [Suc (Suc i)..<Suc keep])) @ lines_of m i
      @ concat (map (lines_of m) (rev [0..<i]))" if "m i \<noteq> None"
    unfolding mirror_lines_split [OF assms] lines_replace [of m i "Suc i", OF that n_not_Suc_n] up by simp
  have same: "replace_file i (Suc i) m = m" if "m i = None" using that by (simp add: replace_file_def)
  show "mirror_lines keep (replace_file i (Suc i) m) = mirror_lines keep m" if "lines_of m (Suc i) = []"
    using that eq same mirror_lines_split [OF assms, of m] by (cases "m i") simp_all
  show "suffix (mirror_lines keep (replace_file i (Suc i) m)) (mirror_lines keep m)" if "Suc i = keep"
    using that eq same mirror_lines_split [OF assms, of m] by (cases "m i") (simp_all add: suffix_def)
qed

lemma replace_file_free: "replace_file i j m i = None" if "i \<noteq> j" "m i \<noteq> None"
  using that by (auto simp: replace_file_def)

lemma shift_files_lines:
  assumes "m (Suc n) = None" "Suc n \<le> keep"
  shows "mirror_lines keep (snd (shift_files n b m)) = mirror_lines keep m"
  using assms
proof (induction n arbitrary: b m)
  case 0
  then show ?case by simp
next
  case (Suc n)
  show ?case
  proof (cases "m (Suc n) = None")
    case True
    with Suc show ?thesis by simp
  next
    case False
    have "mirror_lines keep (replace_file (Suc n) (Suc (Suc n)) m) = mirror_lines keep m"
      using Suc.prems by (intro mirror_replace(1)) (simp_all add: lines_of_def)
    moreover have "replace_file (Suc n) (Suc (Suc n)) m (Suc n) = None" using False by (intro replace_file_free) simp_all
    ultimately show ?thesis using Suc.IH [of "replace_file (Suc n) (Suc (Suc n)) m"] Suc.prems(2) False by (cases b) auto
  qed
qed

lemma shift_files_top: "0 < keep \<Longrightarrow> suffix (mirror_lines keep (snd (shift_files (keep - 1) b m))) (mirror_lines keep m)"
proof (cases "keep - 1")
  case 0
  then show ?thesis by simp
next
  case (Suc n)
  assume "0 < keep"
  with Suc have k: "keep = Suc (Suc n)" by simp
  show ?thesis
  proof (cases "m (Suc n) = None")
    case True
    then show ?thesis using shift_files_lines [of m n keep b] k by simp
  next
    case False
    let ?m = "replace_file (Suc n) (Suc (Suc n)) m"
    have "?m (Suc n) = None" using False by (intro replace_file_free) simp_all
    then have "mirror_lines keep (snd (shift_files n b' ?m)) = mirror_lines keep ?m" for b'
      by (intro shift_files_lines) (simp_all add: k)
    moreover have "suffix (mirror_lines keep ?m) (mirror_lines keep m)" by (rule mirror_replace(2)) (simp_all add: k)
    ultimately show ?thesis using False unfolding k by (cases b) auto
  qed
qed

text \<open>When the moves went through, file 1 is free.\<close>

lemma shift_files_free: "0 < n \<Longrightarrow> 0 < fst (shift_files n b m) \<Longrightarrow> snd (shift_files n b m) 1 = None"
proof (induction n arbitrary: b m)
  case 0
  then show ?case by simp
next
  case (Suc n)
  show ?case
  proof (cases "m (Suc n) = None")
    case True
    then have eq: "shift_files (Suc n) b m = shift_files n b m" by simp
    show ?thesis
    proof (cases "n = 0")
      case n: True
      with True show ?thesis by simp
    next
      case False
      with Suc.IH [of b m] Suc.prems(2) show ?thesis unfolding eq by simp
    qed
  next
    case False
    with Suc.prems obtain b' where b: "b = Suc b'" by (cases b) simp_all
    have "replace_file (Suc n) (Suc (Suc n)) m (Suc n) = None" using False by (intro replace_file_free) simp_all
    moreover have eq: "shift_files (Suc n) b m = shift_files n b' (replace_file (Suc n) (Suc (Suc n)) m)" using False by (auto simp: b)
    ultimately show ?thesis
      using Suc.IH [of b' "replace_file (Suc n) (Suc (Suc n)) m"] Suc.prems(2) unfolding eq by (cases "n = 0") simp_all
  qed
qed

lemma rotate_suffix: "suffix (mirror_lines (nat (sc_jsonl_keep cfg)) (rotate_jsonl_if_needed cfg b m)) (mirror_lines (nat (sc_jsonl_keep cfg)) m)"
proof (cases "m 0")
  case None
  then show ?thesis by (simp add: rotate_jsonl_if_needed_def)
next
  case (Some ls)
  let ?k = "nat (sc_jsonl_keep cfg)"
  let ?m = "snd (shift_files (?k - 1) b m)"
  have pos: "suffix (mirror_lines ?k (replace_file 0 1 ?m)) (mirror_lines ?k m)" if k: "0 < ?k" and l: "0 < fst (shift_files (?k - 1) b m)"
  proof (cases "?k = 1")
    case True
    have "suffix (mirror_lines ?k (replace_file 0 (Suc 0) m)) (mirror_lines ?k m)"
      by (rule mirror_replace(2)) (simp_all add: True)
    then show ?thesis by (simp add: True)
  next
    case False
    then have "?m 1 = None" using k l by (intro shift_files_free) simp_all
    then have "mirror_lines ?k (replace_file 0 (Suc 0) ?m) = mirror_lines ?k ?m"
      using k by (intro mirror_replace(1)) (simp_all add: lines_of_def)
    then show ?thesis using shift_files_top [OF k, of b m] by (simp only: One_nat_def)
  qed
  have "suffix (mirror_lines 0 (m(0 \<mapsto> []))) (mirror_lines 0 m)" by (simp add: mirror_lines_def lines_of_def)
  then show ?thesis
    using pos shift_files_top [of ?k b m] Some by (auto simp: rotate_jsonl_if_needed_def Let_def case_prod_beta)
qed

lemma append_line_lines: "mirror_lines keep (append_line line m) = mirror_lines keep m @ [line]"
proof -
  have l: "lines_of (append_line line m) = (lines_of m)(0 := lines_of m 0 @ [line])"
    by (simp add: lines_of_def append_line_def fun_eq_iff)
  have r: "rev [0..<Suc keep] = rev [Suc 0..<Suc keep] @ [0]" by (simp add: upt_conv_Cons)
  show ?thesis unfolding mirror_lines_def r l by simp
qed

definition write_all :: "SiemConfig \<Rightarrow> (nat \<times> string) list \<Rightarrow> mirror" where
  "write_all cfg ws = fold (\<lambda>(allowance, line). to_jsonl cfg allowance line) ws Map.empty"

lemma write_all_suffix: "suffix (mirror_lines (nat (sc_jsonl_keep cfg)) (write_all cfg ws)) (map snd ws)"
proof (induction ws rule: rev_induct)
  case Nil
  have "lines_of Map.empty = (\<lambda>_. [])" by (simp add: lines_of_def fun_eq_iff)
  then show ?case by (simp add: write_all_def mirror_lines_def)
next
  case (snoc w ws)
  let ?k = "nat (sc_jsonl_keep cfg)"
  have "suffix (mirror_lines ?k (write_all cfg (ws @ [w]))) (mirror_lines ?k (append_line (snd w) (write_all cfg ws)))"
    using rotate_suffix [of cfg "fst w"] by (simp add: write_all_def to_jsonl_def case_prod_beta)
  also have "suffix (mirror_lines ?k (append_line (snd w) (write_all cfg ws))) (map snd (ws @ [w]))"
    using snoc by (simp add: append_line_lines)
  finally show ?case .
qed

subsection \<open>Its size\<close>

definition sized :: "int \<Rightarrow> int \<Rightarrow> mirror \<Rightarrow> bool" where
  "sized small large m \<longleftrightarrow> file_bytes (lines_of m 0) < small \<and> (\<forall>i. file_bytes (lines_of m i) < large)"

lemma file_bytes_append: "file_bytes (ls @ [line]) = file_bytes ls + int (length line) + 1"
  by (simp add: file_bytes_def)

lemma sized_replace:
  assumes "\<forall>i. file_bytes (lines_of m i) < large" "0 < large" "i \<noteq> j"
  shows "\<forall>k. file_bytes (lines_of (replace_file i j m) k) < large"
  using assms lines_replace [of m i j] by (cases "m i") (auto simp: replace_file_def file_bytes_def)

lemma sized_shift:
  assumes "\<forall>i. file_bytes (lines_of m i) < large" "0 < large"
  shows "(\<forall>i. file_bytes (lines_of (snd (shift_files n b m)) i) < large) \<and> snd (shift_files n b m) 0 = m 0
    \<and> b \<le> fst (shift_files n b m) + n"
  using assms(1)
proof (induction n arbitrary: b m)
  case 0
  then show ?case by simp
next
  case (Suc n)
  let ?m = "replace_file (Suc n) (Suc (Suc n)) m"
  have "\<forall>i. file_bytes (lines_of ?m i) < large" using Suc.prems assms(2) by (intro sized_replace) auto
  moreover have "?m 0 = m 0" by (simp add: replace_file_def split: option.split)
  ultimately show ?case
    using Suc.IH [of m b] Suc.IH [of ?m "b - 1"] Suc.prems by (cases b) (auto split: nat.splits)
qed

lemma sized_rotate:
  assumes "\<forall>i. file_bytes (lines_of m i) < large" "0 < large" "0 < sc_jsonl_max_mib cfg" "nat (sc_jsonl_keep cfg) < b"
  shows "sized (sc_jsonl_max_mib cfg * 1024 * 1024) large (rotate_jsonl_if_needed cfg b m)"
proof (cases "m 0")
  case None
  with assms show ?thesis by (simp add: sized_def rotate_jsonl_if_needed_def lines_of_def file_bytes_def)
next
  case (Some ls)
  let ?k = "nat (sc_jsonl_keep cfg)"
  let ?m = "snd (shift_files (?k - 1) b m)"
  note sh = sized_shift [OF assms(1,2), of "?k - 1" b]
  have left: "0 < fst (shift_files (?k - 1) b m)" using sh assms(4) by linarith
  have "\<forall>i. file_bytes (lines_of (replace_file 0 1 ?m) i) < large" using sh assms(2) by (intro sized_replace) simp_all
  moreover have "replace_file 0 1 ?m 0 = None" using sh Some by (intro replace_file_free) simp_all
  ultimately have moved: "sized (sc_jsonl_max_mib cfg * 1024 * 1024) large (replace_file 0 1 ?m)"
    using assms(3) by (simp add: sized_def lines_of_def file_bytes_def)
  have cleared: "sized (sc_jsonl_max_mib cfg * 1024 * 1024) large (m(0 \<mapsto> []))"
    using assms(1-3) by (simp add: sized_def lines_of_def file_bytes_def)
  show ?thesis
    using Some assms left moved cleared
    by (simp add: rotate_jsonl_if_needed_def Let_def case_prod_beta) (simp add: sized_def lines_of_def)
qed

lemma write_all_sized:
  assumes "0 < sc_jsonl_max_mib cfg" "list_all (\<lambda>(b, line). nat (sc_jsonl_keep cfg) < b \<and> int (length line) < longest) ws" "0 \<le> longest"
  shows "sized (sc_jsonl_max_mib cfg * 1024 * 1024) (sc_jsonl_max_mib cfg * 1024 * 1024 + longest) (write_all cfg ws)"
  using assms(2)
proof (induction ws rule: rev_induct)
  case Nil
  show ?case using assms by (simp add: write_all_def sized_def lines_of_def file_bytes_def)
next
  case (snoc w ws)
  let ?m = "append_line (snd w) (write_all cfg ws)"
  have s: "sized (sc_jsonl_max_mib cfg * 1024 * 1024) (sc_jsonl_max_mib cfg * 1024 * 1024 + longest) (write_all cfg ws)"
    and w: "nat (sc_jsonl_keep cfg) < fst w" "int (length (snd w)) < longest"
    using snoc by (simp_all add: case_prod_beta)
  have l: "lines_of ?m = (lines_of (write_all cfg ws))(0 := lines_of (write_all cfg ws) 0 @ [snd w])"
    by (simp add: lines_of_def append_line_def fun_eq_iff)
  have "\<forall>i. file_bytes (lines_of ?m i) < sc_jsonl_max_mib cfg * 1024 * 1024 + longest"
    using s w by (auto simp: l sized_def file_bytes_append)
  then have "sized (sc_jsonl_max_mib cfg * 1024 * 1024) (sc_jsonl_max_mib cfg * 1024 * 1024 + longest) (rotate_jsonl_if_needed cfg (fst w) ?m)"
    using assms w by (intro sized_rotate) simp_all
  then show ?case by (simp add: write_all_def to_jsonl_def case_prod_beta)
qed

lemma mirror_nonempty: "0 < nat (sc_jsonl_keep cfg) \<Longrightarrow> mirror_lines (nat (sc_jsonl_keep cfg)) (to_jsonl cfg b line m) \<noteq> []"
proof -
  assume k: "0 < nat (sc_jsonl_keep cfg)"
  let ?k = "nat (sc_jsonl_keep cfg)" and ?a = "append_line line m"
  let ?m = "snd (shift_files (?k - 1) b ?a)"
  obtain ls where ls: "?a 0 = Some ls" "ls \<noteq> []" by (simp add: append_line_def)
  have zero: "snd (shift_files n b' m') 0 = m' 0" for n b' m'
  proof (induction n arbitrary: b' m')
    case (Suc n)
    then show ?case by (auto simp: replace_file_def split: nat.splits option.splits)
  qed simp
  have in_file: "mirror_lines ?k m' \<noteq> []" if "lines_of m' i \<noteq> []" "i \<le> ?k" for m' i
  proof -
    have "lines_of m' i \<in> set (map (lines_of m') (rev [0..<Suc ?k]))" 
      using that(2) by (simp add: less_Suc_eq_le image_iff del: upt_Suc) (intro bexI [of _ i], simp_all)
    with that(1) show ?thesis unfolding mirror_lines_def concat_eq_Nil_conv by blast
  qed
  have "lines_of (replace_file 0 1 ?m) 1 \<noteq> []" using zero [of "?k - 1" b ?a] ls by (simp add: lines_of_def replace_file_def)
  then have moved: "mirror_lines ?k (replace_file 0 1 ?m) \<noteq> []" using k by (intro in_file [of _ 1]) simp_all
  have kept: "mirror_lines ?k m' \<noteq> []" if "m' 0 = Some ls" for m' using that ls(2) by (intro in_file [of _ 0]) (simp_all add: lines_of_def)
  show ?thesis
    using moved kept [of ?a] kept [of ?m] zero [of "?k - 1" b ?a] ls(1) k
    by (simp add: to_jsonl_def rotate_jsonl_if_needed_def Let_def case_prod_beta)
qed

text \<open>
  C13. The local mirror holds the most recent events, in order, whatever fails: over every sequence of writes, with any
  file operation of a rotation failing at any point, the lines of its files from the oldest to the newest are a suffix of
  all lines written; with at least one rotated file kept, the newest line is always among them; and when the file
  operations succeed, the footprint is at most the configured size and the longest line per file.
\<close>

theorem mirror_keeps_recent:
  "suffix (mirror_lines (nat (sc_jsonl_keep cfg)) (write_all cfg ws)) (map snd ws)
   \<and> (ws \<noteq> [] \<and> 0 < sc_jsonl_keep cfg \<longrightarrow> last (mirror_lines (nat (sc_jsonl_keep cfg)) (write_all cfg ws)) = snd (last ws)
        \<and> mirror_lines (nat (sc_jsonl_keep cfg)) (write_all cfg ws) \<noteq> [])
   \<and> (0 < sc_jsonl_max_mib cfg \<and> list_all (\<lambda>(b, line). nat (sc_jsonl_keep cfg) < b \<and> int (length line) < longest) ws \<and> 0 \<le> longest
        \<longrightarrow> jsonl_bytes cfg (write_all cfg ws) \<le> (1 + int (nat (sc_jsonl_keep cfg))) * (sc_jsonl_max_mib cfg * 1024 * 1024 + longest))"
proof (intro conjI impI)
  let ?k = "nat (sc_jsonl_keep cfg)"
  show suf: "suffix (mirror_lines ?k (write_all cfg ws)) (map snd ws)" by (rule write_all_suffix)
  show ne: "mirror_lines ?k (write_all cfg ws) \<noteq> []" if w: "ws \<noteq> [] \<and> 0 < sc_jsonl_keep cfg"
  proof -
    obtain vs v where v: "ws = vs @ [v]" using w by (cases ws rule: rev_cases) auto
    have "write_all cfg ws = to_jsonl cfg (fst v) (snd v) (write_all cfg vs)" by (simp add: v write_all_def case_prod_beta)
    then show ?thesis using mirror_nonempty [of cfg "fst v" "snd v" "write_all cfg vs"] w by simp
  qed
  show "last (mirror_lines ?k (write_all cfg ws)) = snd (last ws)" if w: "ws \<noteq> [] \<and> 0 < sc_jsonl_keep cfg"
  proof -
    obtain front where "map snd ws = front @ mirror_lines ?k (write_all cfg ws)" using suf by (auto simp: suffix_def)
    then have "last (map snd ws) = last (mirror_lines ?k (write_all cfg ws))" using ne [OF w] by simp
    with w show ?thesis by (simp add: last_map)
  qed
  show "jsonl_bytes cfg (write_all cfg ws) \<le> (1 + int ?k) * (sc_jsonl_max_mib cfg * 1024 * 1024 + longest)"
    if a: "0 < sc_jsonl_max_mib cfg \<and> list_all (\<lambda>(b, line). ?k < b \<and> int (length line) < longest) ws \<and> 0 \<le> longest"
  proof -
    let ?L = "sc_jsonl_max_mib cfg * 1024 * 1024 + longest"
    have each_file: "(case write_all cfg ws i of None \<Rightarrow> 0 | Some ls \<Rightarrow> file_bytes ls) \<le> ?L" for i
      using write_all_sized [of cfg longest ws] a
      by (auto simp: sized_def lines_of_def file_bytes_def split: option.splits intro: less_imp_le)
    have sums: "sum_list (map f xs) \<le> int (length xs) * L" if "\<And>x. f x \<le> L" for f :: "nat \<Rightarrow> int" and xs L
    proof (induction xs)
      case (Cons y ys)
      with add_mono [OF that [of y] Cons] show ?case by (simp add: algebra_simps)
    qed simp
    have "sum_list (map (\<lambda>i. case write_all cfg ws i of None \<Rightarrow> 0 | Some ls \<Rightarrow> file_bytes ls) [0..<Suc ?k]) \<le> int (length [0..<Suc ?k]) * ?L"
      by (rule sums) (rule each_file)
    moreover have "0 \<le> (1 + int ?k) * ?L" using a by simp
    ultimately show ?thesis by (simp add: jsonl_bytes_def del: upt_Suc)
  qed
qed

section \<open>Sample emitters\<close>

definition sample_siem :: "siem_sink_kind \<Rightarrow> SiemConfig" where
  "sample_siem sink = \<lparr>sc_sink = sink, sc_jsonl_path = Some ''audit'', sc_syslog_host = ''collector'', sc_syslog_proto = TcpSyslog,
     sc_hec_url = [], sc_hec_token = [], sc_jsonl_max_mib = 1, sc_jsonl_keep = 2, sc_hec_queue_max = 1,
     sc_offbox_unauthenticated_acknowledged = True\<rparr>"

definition sample_emitter :: emitter where
  "sample_emitter = (blank_emitter (sample_siem SyslogSink))\<lparr>em_syslog := True, em_pool := Some [], em_enabled := True\<rparr>"

theorem siem_events_accounted_witness:
  "let w = fold siem_step [Offer ''a'', Offer ''b'', HandOver, CloseLogger, CloseShutdown, CloseForget, Offer ''c''] (siem_start sample_emitter)
   in em_inflight (sw_em w) \<le> 1 \<and> sw_offered w = 3 \<and> em_dropped (sw_em w) = 1 \<and> sw_cancelled w = 1 \<and> sw_refused w = 1"
proof -
  define w where "w = fold siem_step [Offer ''a'', Offer ''b'', HandOver, CloseLogger, CloseShutdown, CloseForget, Offer ''c''] (siem_start sample_emitter)"
  have "new_emitter (\<lambda>_. False) True True (sample_siem SyslogSink) = Some sample_emitter"
    by (simp add: new_emitter_def sample_siem_def sample_emitter_def)
  from siem_events_accounted [OF this _ _ _ w_def] have "em_inflight (sw_em w) \<le> 1" "sw_offered w = 3"
    by (simp_all add: sample_siem_def sample_emitter_def blank_emitter_def is_offer_def)
  moreover have "em_dropped (sw_em w) = 1" "sw_cancelled w = 1" "sw_refused w = 1" unfolding w_def by code_simp+
  ultimately show ?thesis unfolding w_def [symmetric] Let_def by blast
qed

theorem mirror_keeps_recent_witness:
  "last (mirror_lines 2 (write_all (sample_siem JsonlSink) [(3, ''a''), (0, ''b'')])) = ''b''
   \<and> jsonl_bytes (sample_siem JsonlSink) (write_all (sample_siem JsonlSink) [(3, ''a''), (9, ''b'')]) \<le> 3 * (1048576 + 2)"
  using mirror_keeps_recent [of "sample_siem JsonlSink" "[(3, ''a''), (0, ''b'')]" 2]
    mirror_keeps_recent [of "sample_siem JsonlSink" "[(3, ''a''), (9, ''b'')]" 2]
  by (simp add: sample_siem_def)

end
