(* ===== verification/Startup.thy ===== *)
theory Startup
  imports AdminSafety AuditRetention EnrollmentLeg Siem
begin

text \<open>
  The start of the process: \<open>main\<close> of \<open>src/src/acme_adcs_ra/__main__.py\<close> and the gates of \<open>create_app\<close> in
  \<open>src/src/acme_adcs_ra/server.py\<close>, on the validated configuration, the store as found, and the answers of the
  audit collector to the probe. Route tables, the lifespan and uvicorn are the frameworks'.
\<close>

section \<open>What is built from the configuration\<close>


text \<open>The leg as \<open>main\<close> constructs it: locale and response limit are the defaults of the constructor.\<close>

definition main_enrollment_leg :: "RAConfig \<Rightarrow> certsrv_leg" where
  "main_enrollment_leg c =
     \<lparr>le_host = rc_adcs_host c, le_template = rc_adcs_template c, le_ca_name = Some (rc_adcs_ca_name c), le_locale = ''en'',
      le_max_response_bytes = 5 * 1024 * 1024, le_injected = False\<rparr>"



section \<open>The gates\<close>











section \<open>What a started server guarantees\<close>







section \<open>A sample start\<close>






section \<open>The locale\<close>

definition german_denial :: string where
  "german_denial = ''ist '' @ [CHR 0x22] @ ''Nein!'' @ [CHR 0x22]"

lemma re_search_short:
  assumes "\<And>t. length t \<le> length s \<Longrightarrow> m t = None"
  shows "re_search m s = None"
proof (rule ccontr)
  assume "re_search m s \<noteq> None"
  then obtain a b where "s = a @ b" "m b \<noteq> None" unfolding re_search_iff by blast
  with assms [of b] show False by simp
qed

lemma short_page:
  assumes "length s < length p"
  shows "after_prefix_ci p s = None" "after_prefix p s = None" "re_search (after_prefix_ci p) s = None"
proof -
  have ci: "after_prefix_ci p t = None" if "length t < length p" for t
    using that by (auto simp: after_prefix_ci_def lower_def dest: prefix_length_le)
  then show "after_prefix_ci p s = None" using assms .
  show "after_prefix p s = None" using assms by (induction p s rule: after_prefix.induct) auto
  show "re_search (after_prefix_ci p) s = None"
    using assms ci by (intro re_search_short) simp
qed

text \<open>
  The setting \<open>adcs_locale\<close> has no effect: the leg that \<open>main\<close> builds reads every page as English, so with a
  CA that answers in German a denial that the parser recognizes under the configured locale is read as an unrecognized
  page, which the leg reports as a transport failure.
\<close>

theorem configured_locale_unused:
  "main_enrollment_leg (c\<lparr>rc_adcs_locale := loc\<rparr>) = main_enrollment_leg c
   \<and> parse_certfnsh_disposition german_denial ''de'' = Denied ''Nein!''
   \<and> parse_certfnsh_disposition german_denial (le_locale (main_enrollment_leg (c\<lparr>rc_adcs_locale := ''de''\<rparr>))) = Unknown"
proof -
  have "parse_certfnsh_disposition german_denial ''de'' = Denied ''Nein!''" by code_simp
  moreover have "parse_certfnsh_disposition german_denial ''en'' = Unknown"
  proof -
    have page: "clean_page german_denial = german_denial" "re_search download_link german_denial = None" "re_search request_id german_denial = None"
      by code_simp+
    have "length german_denial = 11" by (simp add: german_denial_def)
    then have "re_search disposition_message german_denial = None" "re_search your_request_id german_denial = None"
      by (auto intro!: re_search_short simp: disposition_message_def your_request_id_def digits_after_def short_page)
    then have "english_denial german_denial = None" "english_pending german_denial = None"
      using \<open>length german_denial = 11\<close> by (simp_all add: english_denial_def english_pending_def contains_ci_def short_page)
    then show ?thesis by (simp add: parse_certfnsh_disposition_def page)
  qed
  ultimately show ?thesis by (simp add: main_enrollment_leg_def)
qed

end
