(* ===== verification/Migrations.thy ===== *)
theory Migrations
  imports StoreCertificates StoreAccounts
begin

text \<open>
  The migrations that run when the store is opened (\<open>Store._init_schema\<close> of
  \<open>src/src/acme_adcs_ra/store.py\<close>). A row of an older schema is a row in which the columns added since hold their
  default, so the column migrations are the identity here; the backfills, the rewriting of the account keys and the two
  unique indexes are modelled. A stored key that is not JSON is \<open>None\<close>. A raise rolls the rows back.
\<close>

section \<open>Serial numbers\<close>

definition lacks_serial :: "CertRow \<Rightarrow> bool" where
  "lacks_serial r \<longleftrightarrow> cert_serial r = None \<or> cert_serial r = Some []"

definition derived_serials :: "ext \<Rightarrow> CertRow list \<Rightarrow> (string \<times> string \<times> string) list" where
  "derived_serials x rows =
     List.map_filter (\<lambda>r. case serial_from_pem x (cert_pem r) of
                            Inl _ \<Rightarrow> None | Inr serial \<Rightarrow> Some (serial, cert_id r, cert_account_id r)) rows"

text \<open>The conflicts: a second derived row of one serial and account, and a row that already holds it.\<close>

fun serial_conflicts :: "CertRow list \<Rightarrow> (string \<times> string) list \<Rightarrow> (string \<times> string \<times> string) list \<Rightarrow> string list" where
  "serial_conflicts rows seen [] = []"
| "serial_conflicts rows seen ((serial, cid, account_id) # ds) =
     (if (serial, account_id) \<in> set seen then cid # serial_conflicts rows seen ds
      else (if list_ex (\<lambda>r. cert_serial r = Some serial \<and> cert_account_id r = account_id \<and> cert_id r \<noteq> cid) rows then [cid] else [])
        @ serial_conflicts rows ((serial, account_id) # seen) ds)"

definition set_serial :: "string \<times> string \<times> string \<Rightarrow> CertRow list \<Rightarrow> CertRow list" where
  "set_serial d rows = (case d of (serial, cid, _) \<Rightarrow> upd_where (\<lambda>r. cert_id r = cid) (\<lambda>r. r\<lparr>cert_serial := Some serial\<rparr>) rows)"

definition backfill_certificate_serials :: "ext \<Rightarrow> db \<Rightarrow> store_error + db" where
  "backfill_certificate_serials x s =
     (let rows = filter lacks_serial (certificates s) in
      if rows = [] then Inr s
      else let derived = derived_serials x rows in
        if list_ex (\<lambda>r. isl (serial_from_pem x (cert_pem r))) rows then Inl StoreMigrationError
        else if serial_conflicts (certificates s) [] derived \<noteq> [] then Inl StoreMigrationError
        else let s' = s\<lparr>certificates := fold set_serial derived (certificates s)\<rparr> in
          if list_ex lacks_serial (certificates s') then Inl StoreMigrationError else Inr s')"

section \<open>Validity\<close>

definition backfill_validity_row :: "ext \<Rightarrow> CertRow \<Rightarrow> CertRow" where
  "backfill_validity_row x r =
     (if cert_not_after r \<noteq> None then r
      else case validity_from_pem x (cert_pem r) of
          Inl _ \<Rightarrow> r
        | Inr (nb, na) \<Rightarrow> r\<lparr>cert_not_before := Some nb, cert_not_after := Some na\<rparr>)"

text \<open>Rows have distinct identifiers, so the updates by identifier are one update of each row.\<close>

definition backfill_certificate_validity :: "ext \<Rightarrow> db \<Rightarrow> db" where
  "backfill_certificate_validity x s = s\<lparr>certificates := map (backfill_validity_row x) (certificates s)\<rparr>"

section \<open>Account keys\<close>

text \<open>The canonical key and thumbprint of a row, or \<open>None\<close> for one that cannot be read.\<close>

definition canonical_account :: "ext \<Rightarrow> AccountRow \<Rightarrow> (json \<times> string) option" where
  "canonical_account x a =
     (case acc_jwk a of
        None \<Rightarrow> None
      | Some jwk \<Rightarrow>
          (case canonicalize_jwk jwk of
             Inl _ \<Rightarrow> None
           | Inr canonical \<Rightarrow>
               (case jwk_thumbprint (x_sha256 x) canonical of Inl _ \<Rightarrow> None | Inr t \<Rightarrow> Some (canonical, t))))"

text \<open>\<open>str(stored_thumbprint)\<close> for a row that cannot be read: the text \<open>None\<close> when it has none.\<close>

definition planned_thumbprint :: "ext \<Rightarrow> AccountRow \<Rightarrow> string" where
  "planned_thumbprint x a =
     (case canonical_account x a of
        Some (_, t) \<Rightarrow> t
      | None \<Rightarrow> (case acc_thumbprint a of None \<Rightarrow> ''None'' | Some t \<Rightarrow> t))"

definition planned_update :: "ext \<Rightarrow> AccountRow \<Rightarrow> (json \<times> string \<times> string) option" where
  "planned_update x a =
     (case canonical_account x a of
        None \<Rightarrow> None
      | Some (canonical, t) \<Rightarrow>
          if Some canonical \<noteq> acc_jwk a \<or> Some t \<noteq> acc_thumbprint a then Some (canonical, t, acc_id a) else None)"

text \<open>One update of a row, refused by the unique index when another row holds the thumbprint.\<close>

definition migrate_account_key :: "bool \<Rightarrow> json \<times> string \<times> string \<Rightarrow> AccountRow list \<Rightarrow> store_error + AccountRow list" where
  "migrate_account_key indexed u rows =
     (case u of (canonical, t, aid) \<Rightarrow>
        if indexed \<and> list_ex (\<lambda>a. acc_thumbprint a = Some t \<and> acc_id a \<noteq> aid) rows \<and> list_ex (\<lambda>a. acc_id a = aid) rows
        then Inl IntegrityError
        else Inr (upd_where (\<lambda>a. acc_id a = aid) (\<lambda>a. a\<lparr>acc_jwk := Some canonical, acc_thumbprint := Some t\<rparr>) rows))"

fun migrate_account_keys :: "bool \<Rightarrow> (json \<times> string \<times> string) list \<Rightarrow> AccountRow list \<Rightarrow> store_error + AccountRow list" where
  "migrate_account_keys indexed [] rows = Inr rows"
| "migrate_account_keys indexed (u # us) rows = rbind (migrate_account_key indexed u rows) (migrate_account_keys indexed us)"

definition unique_thumbprints :: "AccountRow list \<Rightarrow> bool" where
  "unique_thumbprints rows \<longleftrightarrow> distinct (filter (\<lambda>t. t \<noteq> None) (map acc_thumbprint rows))"

definition migrate_accounts_canonical_jwk :: "ext \<Rightarrow> db \<Rightarrow> store_error + db" where
  "migrate_accounts_canonical_jwk x s =
     (if \<not> distinct (map (planned_thumbprint x) (accounts s)) then Inl StoreMigrationError
      else rbind (migrate_account_keys (idx_accounts_thumbprint s) (List.map_filter (planned_update x) (accounts s)) (accounts s)) (\<lambda>rows.
        if \<not> unique_thumbprints rows then Inl StoreMigrationError else Inr (s\<lparr>accounts := rows\<rparr>)))"

section \<open>The unique indexes\<close>

text \<open>Creating an index that exists does nothing; otherwise it fails, and is left out, where the rows are not unique.\<close>

definition migrate_certificates_unique_order_index :: "db \<Rightarrow> db" where
  "migrate_certificates_unique_order_index s =
     s\<lparr>idx_certificates_order := idx_certificates_order s \<or> distinct (map cert_order_id (certificates s))\<rparr>"

definition migrate_accounts_unique_thumbprint_index :: "db \<Rightarrow> db" where
  "migrate_accounts_unique_thumbprint_index s =
     s\<lparr>idx_accounts_thumbprint := idx_accounts_thumbprint s \<or> unique_thumbprints (accounts s)\<rparr>"

definition init_schema :: "ext \<Rightarrow> db \<Rightarrow> store_error + db" where
  "init_schema x s =
     rbind (backfill_certificate_serials x s) (\<lambda>s.
     let s = migrate_certificates_unique_order_index (backfill_certificate_validity x s) in
     rbind (migrate_accounts_canonical_jwk x s) (\<lambda>s. Inr (migrate_accounts_unique_thumbprint_index s)))"

section \<open>Updates by identifier\<close>

text \<open>A sequence of updates by identifier is one pass in which the last update of a row wins.\<close>

lemma fold_set_serial:
  "fold set_serial ds rows =
     map (\<lambda>r. case map_of (map (\<lambda>(serial, cid, a). (cid, serial)) (rev ds)) (cert_id r) of
                None \<Rightarrow> r | Some serial \<Rightarrow> r\<lparr>cert_serial := Some serial\<rparr>) rows"
proof (induction ds arbitrary: rows)
  case Nil
  then show ?case by simp
next
  case (Cons d ds)
  obtain serial cid a where d: "d = (serial, cid, a)" by (cases d)
  have "fold set_serial (d # ds) rows = fold set_serial ds (set_serial d rows)" by simp
  also note Cons
  finally show ?case
    unfolding d set_serial_def upd_where_def by (auto simp: map_add_def split: option.split)
qed

lemma migrate_account_keys_eq:
  "migrate_account_keys indexed us rows = Inr rows' \<Longrightarrow>
     rows' = map (\<lambda>a. case map_of (map (\<lambda>(c, t, i). (i, (c, t))) (rev us)) (acc_id a) of
                        None \<Rightarrow> a | Some (c, t) \<Rightarrow> a\<lparr>acc_jwk := Some c, acc_thumbprint := Some t\<rparr>) rows"
proof (induction us arbitrary: rows)
  case Nil
  then show ?case by simp
next
  case (Cons u us)
  obtain c t i where u: "u = (c, t, i)" by (cases u)
  let ?m = "upd_where (\<lambda>a. acc_id a = i) (\<lambda>a. a\<lparr>acc_jwk := Some c, acc_thumbprint := Some t\<rparr>) rows"
  from Cons.prems have "migrate_account_keys indexed us ?m = Inr rows'"
    by (auto simp: u migrate_account_key_def split: if_splits)
  from Cons.IH [OF this] show ?case
    by (simp add: u upd_where_def map_add_def) (auto split: option.split)
qed

lemma map_of_rows:
  assumes "distinct (map key rows)" "r \<in> set rows"
  shows "map_of (rev (List.map_filter (\<lambda>r. map_option (\<lambda>v. (key r, v)) (f r)) rows)) (key r) = f r"
  using assms
proof (induction rows)
  case Nil
  then show ?case by simp
next
  case (Cons q rows)
  have other: "map_of (rev (List.map_filter (\<lambda>r. map_option (\<lambda>v. (key r, v)) (f r)) rows)) (key q) = None"
    using Cons.prems(1) by (auto simp: map_of_eq_None_iff map_filter_def)
  show ?case
  proof (cases "r = q")
    case True
    then show ?thesis using other by (auto simp: List.map_filter_simps map_add_def split: option.splits)
  next
    case False
    then have r: "r \<in> set rows" using Cons.prems by simp
    moreover have "key q \<notin> key ` set rows" using Cons.prems(1) by simp
    ultimately have "key r \<noteq> key q" by (metis imageI)
    with r Cons show ?thesis by (auto simp: List.map_filter_simps map_add_def split: option.splits)
  qed
qed

section \<open>Serial numbers after the backfill\<close>

lemma no_conflicts:
  "serial_conflicts rows seen ds = [] \<Longrightarrow>
     distinct (map (\<lambda>(serial, cid, a). (serial, a)) ds) \<and> set (map (\<lambda>(serial, cid, a). (serial, a)) ds) \<inter> set seen = {}
     \<and> (\<forall>(serial, cid, a) \<in> set ds. \<forall>r \<in> set rows. cert_serial r = Some serial \<and> cert_account_id r = a \<longrightarrow> cert_id r = cid)"
proof (induction rows seen ds rule: serial_conflicts.induct)
  case (2 rows seen serial cid account_id ds)
  then have "(serial, account_id) \<notin> set seen" "serial_conflicts rows ((serial, account_id) # seen) ds = []"
    by (auto split: if_splits)
  with 2 show ?case by (fastforce simp: list_ex_iff split: if_splits)
qed simp

definition with_serial :: "ext \<Rightarrow> CertRow \<Rightarrow> CertRow" where
  "with_serial x r = (if lacks_serial r then (case serial_from_pem x (cert_pem r) of Inl _ \<Rightarrow> r | Inr serial \<Rightarrow> r\<lparr>cert_serial := Some serial\<rparr>) else r)"

lemma with_serial_frame [simp]:
  "cert_id (with_serial x r) = cert_id r" "cert_order_id (with_serial x r) = cert_order_id r"
  "cert_account_id (with_serial x r) = cert_account_id r" "cert_pem (with_serial x r) = cert_pem r"
  by (simp_all add: with_serial_def split: sum.split)

lemma derived_serials_eq:
  "map (\<lambda>(serial, cid, a). (cid, serial)) (derived_serials x rows) =
     List.map_filter (\<lambda>r. map_option (\<lambda>v. (cert_id r, v)) (case serial_from_pem x (cert_pem r) of Inl _ \<Rightarrow> None | Inr serial \<Rightarrow> Some serial)) rows"
  by (induction rows) (auto simp: derived_serials_def List.map_filter_simps split: sum.splits)

lemma backfilled:
  assumes "distinct (map cert_id rows)"
  shows "fold set_serial (derived_serials x (filter lacks_serial rows)) rows = map (with_serial x) rows"
proof -
  let ?f = "\<lambda>r. case serial_from_pem x (cert_pem r) of Inl _ \<Rightarrow> None | Inr serial \<Rightarrow> Some serial"
  let ?lacking = "filter lacks_serial rows"
  have d: "distinct (map cert_id ?lacking)" using assms by (simp add: distinct_map_filter)
  have "map_of (rev (List.map_filter (\<lambda>r. map_option (\<lambda>v. (cert_id r, v)) (?f r)) ?lacking)) (cert_id r) = (if lacks_serial r then ?f r else None)"
    if "r \<in> set rows" for r
  proof (cases "lacks_serial r")
    case True
    then show ?thesis using map_of_rows [OF d, of r ?f] that by simp
  next
    case False
    have "cert_id r \<noteq> cert_id q" if "q \<in> set ?lacking" for q
      using assms that \<open>r \<in> set rows\<close> False by (auto simp: distinct_map dest: inj_onD)
    then have "cert_id r \<notin> cert_id ` set ?lacking" by blast
    then show ?thesis using False by (auto simp: map_of_eq_None_iff map_filter_def rev_image_eqI)
  qed
  then show ?thesis
    unfolding fold_set_serial rev_map [symmetric] derived_serials_eq
    by (intro map_cong refl) (auto simp: with_serial_def split: sum.splits option.splits)
qed

lemma derived_in:
  "r \<in> set rows \<Longrightarrow> serial_from_pem x (cert_pem r) = Inr serial \<Longrightarrow> (serial, cert_id r, cert_account_id r) \<in> set (derived_serials x rows)"
  by (induction rows) (auto simp: derived_serials_def List.map_filter_simps split: option.splits)

lemma backfill_serials_cases:
  assumes "backfill_certificate_serials x s = Inr s'"
  shows "(filter lacks_serial (certificates s) = [] \<and> s' = s)
    \<or> (serial_conflicts (certificates s) [] (derived_serials x (filter lacks_serial (certificates s))) = []
      \<and> s' = s\<lparr>certificates := fold set_serial (derived_serials x (filter lacks_serial (certificates s))) (certificates s)\<rparr>
      \<and> \<not> list_ex lacks_serial (certificates s'))"
  using assms unfolding backfill_certificate_serials_def Let_def
  by (simp only: split: if_splits) (simp_all, auto)

lemma backfill_serials_ok:
  assumes "distinct (map cert_id (certificates s))" "backfill_certificate_serials x s = Inr s'"
  shows "s' = s\<lparr>certificates := map (with_serial x) (certificates s)\<rparr>" "list_all (\<lambda>r. \<not> lacks_serial r) (certificates s')"
proof -
  have keep: "map (with_serial x) (certificates s) = certificates s" if "filter lacks_serial (certificates s) = []"
    using that by (intro map_idI) (auto simp: with_serial_def filter_empty_conv)
  show "s' = s\<lparr>certificates := map (with_serial x) (certificates s)\<rparr>"
    using backfill_serials_cases [OF assms(2)] keep backfilled [OF assms(1), of x] by auto
  show "list_all (\<lambda>r. \<not> lacks_serial r) (certificates s')"
    using backfill_serials_cases [OF assms(2)] by (auto simp: list_all_iff list_ex_iff filter_empty_conv)
qed

lemma backfilled_serial_unique:
  assumes "distinct (map cert_id (certificates s))" "backfill_certificate_serials x s = Inr s'"
    "r \<in> set (certificates s)" "q \<in> set (certificates s)" "lacks_serial r" "serial_from_pem x (cert_pem r) = Inr serial"
    "cert_serial (with_serial x q) = Some serial" "cert_account_id q = cert_account_id r"
  shows "q = r"
proof -
  let ?rows = "filter lacks_serial (certificates s)"
  have nc: "serial_conflicts (certificates s) [] (derived_serials x ?rows) = []"
    using backfill_serials_cases [OF assms(2)] assms(3,5) by (auto simp: filter_empty_conv)
  have r: "(serial, cert_id r, cert_account_id r) \<in> set (derived_serials x ?rows)" using assms(3,5,6) by (intro derived_in) simp_all
  have "cert_id q = cert_id r"
  proof (cases "lacks_serial q \<and> isl (serial_from_pem x (cert_pem q)) = False")
    case True
    then have "(serial, cert_id q, cert_account_id q) \<in> set (derived_serials x ?rows)"
      using assms(4,7) by (intro derived_in) (auto simp: with_serial_def split: sum.splits)
    moreover have "inj_on (\<lambda>(serial, cid, a). (serial, a)) (set (derived_serials x ?rows))"
      using no_conflicts [OF nc] by (simp add: distinct_map)
    ultimately show ?thesis
      using r assms(8) inj_onD [of "\<lambda>(serial, cid, a). (serial, a)" "set (derived_serials x ?rows)" "(serial, cert_id q, cert_account_id q)"
          "(serial, cert_id r, cert_account_id r)"] by simp
  next
    case False
    then have "cert_serial q = Some serial" using assms(7) by (auto simp: with_serial_def split: sum.splits if_splits)
    with r no_conflicts [OF nc] assms(4,8) show ?thesis by fastforce
  qed
  with assms(1,3,4) show ?thesis by (auto simp: distinct_map dest: inj_onD)
qed

section \<open>Accounts after the rewriting\<close>

definition with_canonical_key :: "ext \<Rightarrow> AccountRow \<Rightarrow> AccountRow" where
  "with_canonical_key x a =
     (case canonical_account x a of None \<Rightarrow> a | Some (c, t) \<Rightarrow> a\<lparr>acc_jwk := Some c, acc_thumbprint := Some t\<rparr>)"

lemma with_canonical_key_frame [simp]:
  "acc_id (with_canonical_key x a) = acc_id a" "acc_status (with_canonical_key x a) = acc_status a"
  "acc_eab_kid (with_canonical_key x a) = acc_eab_kid a"
  by (simp_all add: with_canonical_key_def split: option.split)

lemma migrate_accounts_ok:
  assumes "distinct (map acc_id (accounts s))" "migrate_accounts_canonical_jwk x s = Inr s'"
  shows "s' = s\<lparr>accounts := map (with_canonical_key x) (accounts s)\<rparr>" "unique_thumbprints (accounts s')"
proof -
  let ?us = "List.map_filter (planned_update x) (accounts s)"
  obtain rows where rows: "migrate_account_keys (idx_accounts_thumbprint s) ?us (accounts s) = Inr rows" "unique_thumbprints rows"
      "s' = s\<lparr>accounts := rows\<rparr>"
    using assms(2) by (auto simp: migrate_accounts_canonical_jwk_def split: if_splits)
  let ?f = "\<lambda>a. map_option (\<lambda>(c, t, i). (c, t)) (planned_update x a)"
  have us: "map (\<lambda>(c, t, i). (i, (c, t))) ?us = List.map_filter (\<lambda>a. map_option (\<lambda>v. (acc_id a, v)) (?f a)) as"
    if "as = accounts s" for as
    unfolding that by (induction "accounts s" arbitrary: s) (auto simp: map_filter_def planned_update_def split: option.splits if_splits)
  have "rows = map (with_canonical_key x) (accounts s)"
    unfolding migrate_account_keys_eq [OF rows(1)] rev_map [symmetric] us [OF refl]
  proof (intro map_cong refl)
    fix a assume "a \<in> set (accounts s)"
    from map_of_rows [OF assms(1) this, of ?f]
    show "(case map_of (rev (List.map_filter (\<lambda>a. map_option (\<lambda>v. (acc_id a, v)) (?f a)) (accounts s))) (acc_id a) of
        None \<Rightarrow> a | Some (c, t) \<Rightarrow> a\<lparr>acc_jwk := Some c, acc_thumbprint := Some t\<rparr>) = with_canonical_key x a"
      by (auto simp: planned_update_def with_canonical_key_def split: option.splits prod.splits)
  qed
  with rows show "s' = s\<lparr>accounts := map (with_canonical_key x) (accounts s)\<rparr>" "unique_thumbprints (accounts s')" by simp_all
qed

lemma init_schema_ok:
  assumes ids: "distinct (map cert_id (certificates s))" "distinct (map acc_id (accounts s))" and opened: "init_schema x s = Inr s'"
  obtains s1 where "backfill_certificate_serials x s = Inr s1" "list_all (\<lambda>r. \<not> lacks_serial r) (certificates s')"
    "s' = s\<lparr>accounts := map (with_canonical_key x) (accounts s),
            certificates := map (backfill_validity_row x \<circ> with_serial x) (certificates s),
            idx_certificates_order := idx_certificates_order s \<or> distinct (map cert_order_id (certificates s)),
            idx_accounts_thumbprint := True\<rparr>" "unique_thumbprints (accounts s')"
proof -
  from opened obtain s1 where s1: "backfill_certificate_serials x s = Inr s1" by (auto simp: init_schema_def)
  note b = backfill_serials_ok [OF ids(1) s1]
  have val: "cert_serial (backfill_validity_row x r) = cert_serial r" "cert_order_id (backfill_validity_row x r) = cert_order_id r" for r
    by (simp_all add: backfill_validity_row_def split: sum.split)
  have orders: "map cert_order_id (map (backfill_validity_row x) (map (with_serial x) (certificates s))) = map cert_order_id (certificates s)"
    by (simp add: val)
  let ?s2 = "migrate_certificates_unique_order_index (backfill_certificate_validity x s1)"
  from opened s1 obtain s3 where s3: "migrate_accounts_canonical_jwk x ?s2 = Inr s3" "s' = migrate_accounts_unique_thumbprint_index s3"
    by (auto simp: init_schema_def Let_def)
  have acc: "accounts ?s2 = accounts s"
    by (simp add: b(1) migrate_certificates_unique_order_index_def backfill_certificate_validity_def)
  note m = migrate_accounts_ok [OF _ s3(1), unfolded acc, OF ids(2)]
  show thesis
  proof (rule that [OF s1])
    show "unique_thumbprints (accounts s')" using m s3(2) by (simp add: migrate_accounts_unique_thumbprint_index_def)
    show "s' = s\<lparr>accounts := map (with_canonical_key x) (accounts s),
        certificates := map (backfill_validity_row x \<circ> with_serial x) (certificates s),
        idx_certificates_order := idx_certificates_order s \<or> distinct (map cert_order_id (certificates s)),
        idx_accounts_thumbprint := True\<rparr>"
      using m(2) unfolding s3(2) m(1)
      by (simp add: migrate_accounts_unique_thumbprint_index_def migrate_certificates_unique_order_index_def
          backfill_certificate_validity_def b(1) val comp_def)
    then show "list_all (\<lambda>r. \<not> lacks_serial r) (certificates s')"
      using b(2) by (simp add: b(1) list_all_iff lacks_serial_def val)
  qed
qed

text \<open>
  C12. Opening a store brings its certificates and accounts into the form the rest relies on, given only that these two tables have
  their primary keys. What it changes is exactly this: an account whose key can be read gets the canonical
  encoding of that key and its thumbprint; a certificate without a serial number gets the one in its PEM text, and one without an
  end of validity the two dates of it; the index of account keys comes into force, and that of certificates by order
  when the rows admit it. Every other column and table, nonces, orders, authorizations, watermarks and the audit log
  included, is as it was. Afterwards no certificate is without a serial number, one that was derived finds its
  certificate, no two accounts share a thumbprint, and the constraints that held of the store still hold.
\<close>

theorem opened_store_well_formed:
  assumes "distinct (map cert_id (certificates s))" "distinct (map acc_id (accounts s))" "init_schema x s = Inr s'"
  shows "s' = s\<lparr>accounts := map (with_canonical_key x) (accounts s),
            certificates := map (backfill_validity_row x \<circ> with_serial x) (certificates s),
            idx_certificates_order := idx_certificates_order s \<or> distinct (map cert_order_id (certificates s)),
            idx_accounts_thumbprint := True\<rparr>
    \<and> list_all (\<lambda>r. \<not> lacks_serial r) (certificates s') \<and> unique_thumbprints (accounts s')
    \<and> (\<forall>r n. r \<in> set (certificates s) \<and> lacks_serial r \<and> x_serial x (cert_pem r) = Some n \<longrightarrow>
         map_option cert_id (get_certificate_by_serial (hex_nat n) (Some (cert_account_id r)) s') = Some (cert_id r))
    \<and> (wf_db s \<longrightarrow> wf_db s')"
proof -
  obtain s1 where s1: "backfill_certificate_serials x s = Inr s1" "list_all (\<lambda>r. \<not> lacks_serial r) (certificates s')"
    and s': "s' = s\<lparr>accounts := map (with_canonical_key x) (accounts s),
            certificates := map (backfill_validity_row x \<circ> with_serial x) (certificates s),
            idx_certificates_order := idx_certificates_order s \<or> distinct (map cert_order_id (certificates s)),
            idx_accounts_thumbprint := True\<rparr>" and u: "unique_thumbprints (accounts s')"
    using init_schema_ok [OF assms] .
  have row: "cert_id (backfill_validity_row x r) = cert_id r" "cert_order_id (backfill_validity_row x r) = cert_order_id r"
      "cert_pem (backfill_validity_row x r) = cert_pem r" "cert_status (backfill_validity_row x r) = cert_status r"
      "cert_serial (backfill_validity_row x r) = cert_serial r" "cert_account_id (backfill_validity_row x r) = cert_account_id r"
      "cert_status (with_serial x r) = cert_status r" for r
    by (simp_all add: backfill_validity_row_def with_serial_def split: sum.split)
  have wf: "wf_db s'" if "wf_db s"
    using that u unfolding wf_db_def by (simp add: s' row comp_def unique_thumbprints_def)
  have found: "map_option cert_id (get_certificate_by_serial (hex_nat n) (Some (cert_account_id r)) s') = Some (cert_id r)"
    if r: "r \<in> set (certificates s)" "lacks_serial r" "x_serial x (cert_pem r) = Some n" for r n
  proof -
    let ?new = "\<lambda>r. backfill_validity_row x (with_serial x r)" and ?serial = "canonical_serial (hex_nat n)"
    let ?p = "\<lambda>q. cert_serial q = Some ?serial \<and> cert_account_id q = cert_account_id r"
    have ser: "serial_from_pem x (cert_pem r) = Inr ?serial" using r(3) by (simp add: serial_from_pem_def)
    have hit: "?p (?new r)" using r(2) ser by (simp add: row) (simp add: with_serial_def)
    have only: "q = r" if "q \<in> set (certificates s)" "?p (?new q)" for q
      using backfilled_serial_unique [OF assms(1) s1(1) r(1) that(1) r(2) ser] that(2) by (simp add: row)
    have "find ?p (certificates s') \<noteq> None" using r(1) hit by (auto simp: find_None_iff s')
    then obtain y where y: "find ?p (certificates s') = Some y" by auto
    then have "y \<in> set (certificates s')" "?p y" by (auto simp: find_Some_iff)
    then obtain q where "q \<in> set (certificates s)" "y = ?new q" by (auto simp: s')
    with only \<open>?p y\<close> have "y = ?new r" by blast
    with y show ?thesis by (simp add: get_certificate_by_serial_def row)
  qed
  show ?thesis using wf s1(2) found u s' by blast
qed

text \<open>
  Two accounts whose stored keys cannot be read, and which have no thumbprint, are taken for one key: the store does not
  open, although neither row can authenticate and the index admits any number of missing thumbprints.
\<close>

definition unreadable_account :: "string \<Rightarrow> AccountRow" where
  "unreadable_account i = \<lparr>acc_id = i, acc_status = AcctVALID, acc_jwk = None, acc_eab_kid = ''k'', acc_contact = [], acc_created_at = 0,
     acc_thumbprint = None\<rparr>"

theorem unreadable_accounts_refused:
  "init_schema sample_ext (empty_db\<lparr>accounts := [unreadable_account ''a'', unreadable_account ''b'']\<rparr>) = Inl StoreMigrationError
   \<and> wf_db (empty_db\<lparr>accounts := [unreadable_account ''a'', unreadable_account ''b'']\<rparr>)"
  by (simp add: init_schema_def backfill_certificate_serials_def empty_db_def migrate_accounts_canonical_jwk_def planned_thumbprint_def
      canonical_account_def unreadable_account_def migrate_certificates_unique_order_index_def backfill_certificate_validity_def wf_db_def)

text \<open>A store of an older version: a certificate without a serial number, and an account whose key has a padded modulus.\<close>

definition small_rsa :: "string \<Rightarrow> json" where
  "small_rsa n = JObj [(''kty'', JStr ''RSA''), (''n'', JStr n), (''e'', JStr ''Aw'')]"

definition padded_account :: AccountRow where
  "padded_account = (unreadable_account ''a'')\<lparr>acc_jwk := Some (small_rsa ''AAU'')\<rparr>"

definition legacy_db :: db where
  "legacy_db = certs_db\<lparr>certificates := [(sample_cert ''c1'' ''o1'' CertVALID)\<lparr>cert_serial := None\<rparr>],
     accounts := [padded_account, unreadable_account ''b'']\<rparr>"

lemma padded_canonical:
  "map_option fst (canonical_account sample_ext padded_account) = Some (small_rsa ''BQ'')"
  by code_simp

theorem opened_store_well_formed_witness:
  "\<exists>s'. init_schema sample_ext legacy_db = Inr s' \<and> list_all (\<lambda>r. \<not> lacks_serial r) (certificates s')
     \<and> map acc_jwk (accounts s') = [Some (small_rsa ''BQ''), None] \<and> nonces s' = nonces legacy_db"
proof -
  have "\<not> isl (init_schema sample_ext legacy_db)" by code_simp
  then obtain s' where s': "init_schema sample_ext legacy_db = Inr s'" by (cases "init_schema sample_ext legacy_db") auto
  have "distinct (map cert_id (certificates legacy_db))" "distinct (map acc_id (accounts legacy_db))"
    by (simp_all add: legacy_db_def padded_account_def unreadable_account_def)
  note facts = opened_store_well_formed [OF this s']
  then have acc: "accounts s' = map (with_canonical_key sample_ext) (accounts legacy_db)" by simp
  have "acc_jwk (with_canonical_key sample_ext padded_account) = Some (small_rsa ''BQ'')"
    using padded_canonical by (auto simp: with_canonical_key_def)
  moreover have "acc_jwk (with_canonical_key sample_ext (unreadable_account ''b'')) = None"
    by (simp add: with_canonical_key_def canonical_account_def unreadable_account_def)
  moreover have "nonces s' = nonces legacy_db" using facts by simp
  ultimately have "map acc_jwk (accounts s') = [Some (small_rsa ''BQ''), None]" "nonces s' = nonces legacy_db"
    unfolding acc by (simp_all add: legacy_db_def)
  moreover have "list_all (\<lambda>r. \<not> lacks_serial r) (certificates s')" using facts by (elim conjE)
  ultimately show ?thesis using s' by (intro exI [of _ s'] conjI)
qed

end
