(* ===== verification/Reconciliation.thy ===== *)
theory Reconciliation
  imports Certfnsh AdminRoutes "HOL-Library.AList" "HOL-Library.List_Lexorder"
begin

text \<open>
  The reconciliation of the store with an export of the CA database
  (\<open>src/scripts/reconcile_revocation.py\<close>): the inventory of the store, the reading of a
  \<open>certutil -view\<close> export line by line, the comparison, and the exit code an operator closes an
  incident on. A dictionary is an association list in insertion order. The human-readable report is not
  modelled; a file that cannot be read is \<open>None\<close>.
\<close>

section \<open>Constants and records\<close>

definition ISSUED_DISPOSITION :: nat where "ISSUED_DISPOSITION = 20"

definition REVOKED_DISPOSITION :: nat where "REVOKED_DISPOSITION = 21"

definition REMOVE_FROM_CRL_REASON :: nat where "REMOVE_FROM_CRL_REASON = 8"

definition NON_CERTIFICATE_DISPOSITIONS :: "nat list" where
  "NON_CERTIFICATE_DISPOSITIONS = [2, 3, 9, 30, 31]"

definition MUST_BE_REVOKED_STATUSES :: "string list" where
  "MUST_BE_REVOKED_STATUSES = [''revoked'', ''quarantined'']"

record CaRecord =
  ca_request_id :: string
  ca_serial :: string
  ca_revoked :: bool

record RaRecord =
  ra_serial :: string
  ra_status :: string

definition must_be_revoked :: "RaRecord \<Rightarrow> bool" where
  "must_be_revoked r = (ra_status r \<in> set MUST_BE_REVOKED_STATUSES)"

datatype problem = NoDisposition string | UnrecognizedDisposition string nat | NoRows

record ReconciliationResult =
  in_sync :: "string list"
  revoked_at_ca_valid_in_ra :: "string list"
  revoked_in_ra_active_at_ca :: "string list"
  ra_serials_absent_from_ca :: "string list"
  parse_problems :: "problem list"

definition drift_count :: "ReconciliationResult \<Rightarrow> nat" where
  "drift_count r = length (revoked_at_ca_valid_in_ra r) + length (revoked_in_ra_active_at_ca r)"

definition coverage_complete :: "ReconciliationResult \<Rightarrow> bool" where
  "coverage_complete r = (ra_serials_absent_from_ca r = [] \<and> parse_problems r = [])"

section \<open>The inventory of the store\<close>

text \<open>\<open>_canonical_serial\<close> of the script; unlike the one of the store it also removes inner white space.\<close>

definition reconcile_serial :: "string \<Rightarrow> string" where
  "reconcile_serial v =
     (let digits = lstrip CHR ''0'' (remove_0X (map upper_char (filter (\<lambda>c. \<not> is_space c) v)))
      in if digits = [] then ''0'' else digits)"

definition add_ra_record :: "CertRow \<Rightarrow> (string \<times> RaRecord) list \<Rightarrow> (string \<times> RaRecord) list" where
  "add_ra_record row result =
     (case cert_serial row of
        None \<Rightarrow> result
      | Some raw_serial \<Rightarrow>
          if raw_serial = [] then result
          else let serial = reconcile_serial raw_serial;
                   record' = \<lparr>ra_serial = serial, ra_status = lower (cert_status_text (cert_status row))\<rparr>
               in case map_of result serial of
                    Some existing \<Rightarrow>
                      if must_be_revoked existing \<and> \<not> must_be_revoked record' then result
                      else AList.update serial record' result
                  | None \<Rightarrow> AList.update serial record' result)"

definition load_ra_records :: "db \<Rightarrow> (string \<times> RaRecord) list" where
  "load_ra_records s = fold add_ra_record (certificates s) []"

section \<open>The export\<close>

text \<open>\<open>str.splitlines\<close>; the flag says that the last character was a carriage return that ended a line.\<close>

definition is_line_break :: "char \<Rightarrow> bool" where
  "is_line_break c = ((of_char c :: nat) \<in> {10, 11, 12, 13, 28, 29, 30, 133})"

fun lines_from :: "string \<Rightarrow> bool \<Rightarrow> string \<Rightarrow> string list" where
  "lines_from line after_cr [] = (if line = [] then [] else [line])"
| "lines_from line after_cr (c # cs) =
     (if after_cr \<and> c = CHR 0x0A then lines_from line False cs
      else if is_line_break c then line # lines_from [] (c = CHR 0x0D) cs
      else lines_from (line @ [c]) False cs)"

definition splitlines :: "string \<Rightarrow> string list" where
  "splitlines text = lines_from [] False text"

record export_block =
  blk_request_id :: "string option"
  blk_serial :: "string option"
  blk_disposition :: "nat option"
  blk_reason :: "nat option"

definition empty_block :: export_block where
  "empty_block = \<lparr>blk_request_id = None, blk_serial = None, blk_disposition = None, blk_reason = None\<rparr>"

text \<open>A label after leading white space, and what follows it.\<close>

definition labelled :: "string \<Rightarrow> string \<Rightarrow> string option" where
  "labelled label line = after_prefix label (dropWhile is_space line)"

definition value_of :: "string \<Rightarrow> string \<Rightarrow> string option" where
  "value_of label line = map_option (dropWhile is_space) (labelled label line)"

definition row_index :: "string \<Rightarrow> bool" where
  "row_index line = (digits_after (value_of ''Row Index:'' line) \<noteq> None)"

definition request_id_line :: "string \<Rightarrow> string option" where
  "request_id_line line =
     (case digits_after (value_of ''Request ID:'' line) of
        Some (d, rest) \<Rightarrow> if list_all is_space rest then Some d else None
      | None \<Rightarrow> None)"

text \<open>
  A value of white space alone matches with its last character, since the group must take one.
\<close>

definition is_hex_char :: "char \<Rightarrow> bool" where
  "is_hex_char c = (let n = (of_char c :: nat) in (48 \<le> n \<and> n \<le> 57) \<or> (65 \<le> n \<and> n \<le> 70) \<or> (97 \<le> n \<and> n \<le> 102))"

definition serial_line :: "string \<Rightarrow> string option" where
  "serial_line line =
     (case labelled ''Serial Number:'' line of
        None \<Rightarrow> None
      | Some rest \<Rightarrow>
          let v = strip_space rest
          in if v = [] then (if rest = [] then None else Some [last rest])
             else if list_all (\<lambda>c. is_hex_char c \<or> is_space c) v then Some v else None)"

definition disposition_line :: "string \<Rightarrow> string option" where
  "disposition_line line = map_option fst (digits_after (value_of ''Disposition:'' line))"

text \<open>The hexadecimal form \<open>0x8 (8)\<close>: the digits after the parenthesis; otherwise the digits at the start.\<close>

definition parenthesized :: "string \<Rightarrow> (string \<times> string) option" where
  "parenthesized v =
     (case after_prefix ''0x'' v of
        None \<Rightarrow> None
      | Some h \<Rightarrow>
          if takeWhile is_hex_char h = [] then None
          else digits_after (after_prefix ''('' (dropWhile is_space (dropWhile is_hex_char h))))"

definition reason_line :: "string \<Rightarrow> string option" where
  "reason_line line =
     (case (case value_of ''Request.RevokedReason:'' line of None \<Rightarrow> value_of ''Revocation Reason:'' line | v \<Rightarrow> v) of
        None \<Rightarrow> None
      | Some v \<Rightarrow>
          (case parenthesized v of
             Some (d, _) \<Rightarrow> Some d
           | None \<Rightarrow> map_option fst (digits_after (Some v))))"

text \<open>\<open>int(digits)\<close>; \<open>None\<close> is the \<open>ValueError\<close> for more than 4300 digits.\<close>

definition int_digits :: "string \<Rightarrow> nat option" where
  "int_digits d = (if length d > 4300 then None else digits_value 0 d)"

definition read_field :: "string \<Rightarrow> export_block \<Rightarrow> export_block option" where
  "read_field line b =
     (case request_id_line line of
        Some i \<Rightarrow> Some (b\<lparr>blk_request_id := Some i\<rparr>)
      | None \<Rightarrow>
     (case serial_line line of
        Some v \<Rightarrow> Some (b\<lparr>blk_serial := Some v\<rparr>)
      | None \<Rightarrow>
     (case disposition_line line of
        Some d \<Rightarrow> map_option (\<lambda>n. b\<lparr>blk_disposition := Some n\<rparr>) (int_digits d)
      | None \<Rightarrow>
     (case reason_line line of
        Some d \<Rightarrow> map_option (\<lambda>n. b\<lparr>blk_reason := Some n\<rparr>) (int_digits d)
      | None \<Rightarrow> Some b))))"

record parse_state =
  ps_block :: export_block
  ps_records :: "(string \<times> CaRecord) list"
  ps_problems :: "problem list"
  ps_saw_any_row :: bool

definition flush_block :: "parse_state \<Rightarrow> parse_state" where
  "flush_block st =
     (let b = ps_block st in
      case blk_serial b of
        None \<Rightarrow> st
      | Some serial \<Rightarrow>
          let canonical = reconcile_serial serial;
              found = (\<lambda>revoked. st\<lparr>ps_records := AList.update canonical
                \<lparr>ca_request_id = (case blk_request_id b of None \<Rightarrow> [] | Some i \<Rightarrow> i), ca_serial = canonical, ca_revoked = revoked\<rparr>
                (ps_records st)\<rparr>)
          in case blk_disposition b of
               None \<Rightarrow> st\<lparr>ps_problems := ps_problems st @ [NoDisposition canonical]\<rparr>
             | Some d \<Rightarrow>
                 if d = REVOKED_DISPOSITION then found (blk_reason b \<noteq> Some REMOVE_FROM_CRL_REASON)
                 else if d = ISSUED_DISPOSITION then found False
                 else if d \<in> set NON_CERTIFICATE_DISPOSITIONS then st
                 else st\<lparr>ps_problems := ps_problems st @ [UnrecognizedDisposition canonical d]\<rparr>)"

primrec read_lines :: "string list \<Rightarrow> parse_state \<Rightarrow> parse_state option" where
  "read_lines [] st = Some st"
| "read_lines (line # ls) st =
     (if row_index line
      then read_lines ls ((flush_block (st\<lparr>ps_saw_any_row := True\<rparr>))\<lparr>ps_block := empty_block\<rparr>)
      else case read_field line (ps_block st) of
          None \<Rightarrow> None
        | Some b \<Rightarrow> read_lines ls (st\<lparr>ps_block := b\<rparr>))"

definition parse_ca_export :: "string \<Rightarrow> ((string \<times> CaRecord) list \<times> problem list) option" where
  "parse_ca_export text =
     map_option (\<lambda>st. let st' = flush_block st in
         (ps_records st', ps_problems st' @ (if \<not> ps_saw_any_row st' \<and> ps_records st' = [] then [NoRows] else [])))
       (read_lines (splitlines text) \<lparr>ps_block = empty_block, ps_records = [], ps_problems = [], ps_saw_any_row = False\<rparr>)"

section \<open>The comparison\<close>

definition reconcile :: "(string \<times> RaRecord) list \<Rightarrow> (string \<times> CaRecord) list \<Rightarrow> problem list \<Rightarrow> ReconciliationResult" where
  "reconcile ra ca problems =
     (let bucket = (\<lambda>p. sort (map fst (filter (\<lambda>(serial, r). p r (map_of ca serial)) ra)))
      in \<lparr>in_sync = bucket (\<lambda>r c. case c of None \<Rightarrow> False | Some k \<Rightarrow> must_be_revoked r = ca_revoked k),
          revoked_at_ca_valid_in_ra = bucket (\<lambda>r c. case c of None \<Rightarrow> False | Some k \<Rightarrow> must_be_revoked r \<noteq> ca_revoked k \<and> ca_revoked k),
          revoked_in_ra_active_at_ca = bucket (\<lambda>r c. case c of None \<Rightarrow> False | Some k \<Rightarrow> must_be_revoked r \<noteq> ca_revoked k \<and> \<not> ca_revoked k),
          ra_serials_absent_from_ca = bucket (\<lambda>r c. c = None), parse_problems = problems\<rparr>)"

definition problem_text :: "problem \<Rightarrow> string" where
  "problem_text p =
     (case p of
        NoDisposition s \<Rightarrow> ''serial '' @ s @ '' appears with no Disposition value''
      | UnrecognizedDisposition s d \<Rightarrow> ''serial '' @ s @ '' has unrecognized Disposition '' @ show_nat d
      | NoRows \<Rightarrow> ''the export contains no certutil rows at all; it is empty, '' @
          ''truncated, or was not produced by `certutil -view`'')"

definition json_report :: "ReconciliationResult \<Rightarrow> nat \<Rightarrow> nat \<Rightarrow> json" where
  "json_report r ra_count ca_count =
     (let strs = (\<lambda>xs. JList (map JStr xs)); num = (\<lambda>n. JInt (int n))
      in JObj [(''compared_serials'', num (length (in_sync r) + drift_count r)), (''ra_certificate_count'', num ra_count),
          (''ca_certificate_count'', num ca_count), (''drift_count'', num (drift_count r)),
          (''coverage_complete'', JBool (coverage_complete r)), (''in_sync'', strs (in_sync r)),
          (''revoked_at_ca_valid_in_ra'', strs (revoked_at_ca_valid_in_ra r)),
          (''revoked_in_ra_active_at_ca'', strs (revoked_in_ra_active_at_ca r)),
          (''ra_serials_absent_from_ca'', strs (ra_serials_absent_from_ca r)),
          (''parse_problems'', strs (map problem_text (parse_problems r)))])"

text \<open>\<open>None\<close> is an exception: a failed export, a file that cannot be read, a number that cannot be.\<close>

definition run_reconciliation :: "int \<Rightarrow> db option \<Rightarrow> string option \<Rightarrow> (json \<times> nat) option" where
  "run_reconciliation ca_export_exit_code store export_text =
     (if ca_export_exit_code \<noteq> 0 then None
      else case store of
          None \<Rightarrow> None
        | Some s \<Rightarrow>
            (case Option.bind export_text parse_ca_export of
               None \<Rightarrow> None
             | Some (ca, problems) \<Rightarrow>
                 let ra = load_ra_records s; r = reconcile ra ca problems
                 in Some (json_report r (length ra) (length ca),
                      if \<not> coverage_complete r then 2 else if drift_count r \<noteq> 0 then 1 else 0)))"

definition reconcile_main :: "int \<Rightarrow> db option \<Rightarrow> string option \<Rightarrow> nat" where
  "reconcile_main ca_export_exit_code store export_text =
     (case run_reconciliation ca_export_exit_code store export_text of None \<Rightarrow> 2 | Some (_, code) \<Rightarrow> code)"

section \<open>What a pass proves\<close>

text \<open>The rows of the store that name a serial, and those among them the CA must have revoked.\<close>

definition names_serial :: "string \<Rightarrow> CertRow \<Rightarrow> bool" where
  "names_serial k row = (case cert_serial row of None \<Rightarrow> False | Some n \<Rightarrow> n \<noteq> [] \<and> reconcile_serial n = k)"

definition demands_revocation :: "db \<Rightarrow> string \<Rightarrow> bool" where
  "demands_revocation s k = list_ex (\<lambda>row. names_serial k row \<and> cert_status row \<noteq> CertVALID) (certificates s)"

lemma must_be_revoked_iff: "must_be_revoked \<lparr>ra_serial = k, ra_status = lower (cert_status_text st)\<rparr> \<longleftrightarrow> st \<noteq> CertVALID"
proof -
  have "lower ''valid'' = ''valid''" "lower ''revoked'' = ''revoked''" "lower ''quarantined'' = ''quarantined''" by code_simp+
  then show ?thesis by (cases st) (simp_all add: must_be_revoked_def MUST_BE_REVOKED_STATUSES_def cert_status_text_def)
qed

lemma add_ra_record_lookup:
  "map_option must_be_revoked (map_of (add_ra_record row acc) k) =
     (if names_serial k row then Some (cert_status row \<noteq> CertVALID \<or> map_option must_be_revoked (map_of acc k) = Some True)
      else map_option must_be_revoked (map_of acc k))"
  by (auto simp: add_ra_record_def names_serial_def Let_def update_conv must_be_revoked_iff split: option.splits)

lemma add_ra_record_distinct: "distinct (map fst acc) \<Longrightarrow> distinct (map fst (add_ra_record row acc))"
  by (auto simp: add_ra_record_def Let_def distinct_update split: option.splits)

lemma fold_ra_records_lookup:
  "map_option must_be_revoked (map_of (fold add_ra_record rows acc) k) =
     (if list_ex (names_serial k) rows
      then Some (list_ex (\<lambda>row. names_serial k row \<and> cert_status row \<noteq> CertVALID) rows
                 \<or> map_option must_be_revoked (map_of acc k) = Some True)
      else map_option must_be_revoked (map_of acc k))"
proof (induction rows arbitrary: acc)
  case (Cons row rows)
  show ?case unfolding fold_simps Cons.IH add_ra_record_lookup by (auto simp: list_ex_iff)
qed simp

lemma load_ra_records_lookup:
  "map_option must_be_revoked (map_of (load_ra_records s) k) =
     (if list_ex (names_serial k) (certificates s) then Some (demands_revocation s k) else None)"
  by (simp add: load_ra_records_def fold_ra_records_lookup demands_revocation_def)

lemma load_ra_records_distinct: "distinct (map fst (load_ra_records s))"
proof -
  have "distinct (map fst acc) \<Longrightarrow> distinct (map fst (fold add_ra_record rows acc))" for rows acc
    by (induction rows arbitrary: acc) (simp_all add: add_ra_record_distinct)
  then show ?thesis by (simp add: load_ra_records_def)
qed

text \<open>The blocks of an export, the verdict one gives on a serial, and whether it can be interpreted.\<close>

primrec export_blocks :: "string list \<Rightarrow> export_block \<Rightarrow> export_block list option" where
  "export_blocks [] b = Some [b]"
| "export_blocks (line # ls) b =
     (if row_index line then map_option (Cons b) (export_blocks ls empty_block)
      else Option.bind (read_field line b) (export_blocks ls))"

definition block_verdict :: "export_block \<Rightarrow> (string \<times> bool) option" where
  "block_verdict b =
     (case (blk_serial b, blk_disposition b) of
        (Some n, Some d) \<Rightarrow>
          if d = 20 then Some (reconcile_serial n, False)
          else if d = 21 then Some (reconcile_serial n, blk_reason b \<noteq> Some 8) else None
      | _ \<Rightarrow> None)"

definition interpretable :: "export_block \<Rightarrow> bool" where
  "interpretable b \<longleftrightarrow> blk_serial b = None \<or> blk_disposition b \<in> Some ` {2, 3, 9, 20, 21, 30, 31}"

definition absorb :: "export_block \<Rightarrow> (string \<times> CaRecord) list \<times> problem list \<Rightarrow> (string \<times> CaRecord) list \<times> problem list" where
  "absorb b rp =
     (let st = flush_block \<lparr>ps_block = b, ps_records = fst rp, ps_problems = snd rp, ps_saw_any_row = True\<rparr>
      in (ps_records st, ps_problems st))"

lemmas flush_defs = flush_block_def absorb_def Let_def REVOKED_DISPOSITION_def ISSUED_DISPOSITION_def
  NON_CERTIFICATE_DISPOSITIONS_def REMOVE_FROM_CRL_REASON_def

lemma flush_block_absorb:
  "(ps_records (flush_block st), ps_problems (flush_block st)) = absorb (ps_block st) (ps_records st, ps_problems st)"
  "ps_saw_any_row (flush_block st) = ps_saw_any_row st"
  by (simp_all add: flush_defs split: option.split)

lemma absorb_effect:
  "map_option ca_revoked (map_of (fst (absorb b rp)) k) =
     (case block_verdict b of Some (n, v) \<Rightarrow> if n = k then Some v else map_option ca_revoked (map_of (fst rp) k)
      | None \<Rightarrow> map_option ca_revoked (map_of (fst rp) k))"
  "snd (absorb b rp) = [] \<longleftrightarrow> snd rp = [] \<and> interpretable b"
  "fst (absorb b rp) = [] \<longleftrightarrow> fst rp = [] \<and> block_verdict b = None"
proof -
  have ne: "AList.update n v r \<noteq> []" for n v and r :: "(string \<times> CaRecord) list" by (cases r) auto
  show "map_option ca_revoked (map_of (fst (absorb b rp)) k) =
     (case block_verdict b of Some (n, v) \<Rightarrow> if n = k then Some v else map_option ca_revoked (map_of (fst rp) k)
      | None \<Rightarrow> map_option ca_revoked (map_of (fst rp) k))"
    by (simp add: flush_defs block_verdict_def update_conv split: option.split)
  show "snd (absorb b rp) = [] \<longleftrightarrow> snd rp = [] \<and> interpretable b"
    by (auto simp: flush_defs interpretable_def split: option.split)
  show "fst (absorb b rp) = [] \<longleftrightarrow> fst rp = [] \<and> block_verdict b = None"
    by (simp add: flush_defs block_verdict_def ne split: option.split)
qed

lemma fold_absorb:
  "map_option ca_revoked (map_of (fst (fold absorb bs rp)) k) =
     (case map_of (rev (List.map_filter block_verdict bs)) k of Some v \<Rightarrow> Some v | None \<Rightarrow> map_option ca_revoked (map_of (fst rp) k))"
  "snd (fold absorb bs rp) = [] \<longleftrightarrow> snd rp = [] \<and> list_all interpretable bs"
  "fst (fold absorb bs rp) = [] \<longleftrightarrow> fst rp = [] \<and> List.map_filter block_verdict bs = []"
  by (induction bs arbitrary: rp)
    (auto simp: absorb_effect map_filter_simps map_add_def split: option.splits)

lemma read_lines_blocks:
  "map_option (\<lambda>st'. (absorb (ps_block st') (ps_records st', ps_problems st'), ps_saw_any_row st')) (read_lines ls st) =
   map_option (\<lambda>bs. (fold absorb bs (ps_records st, ps_problems st), ps_saw_any_row st \<or> list_ex row_index ls)) (export_blocks ls (ps_block st))"
proof (induction ls arbitrary: st)
  case (Cons line ls)
  show ?case
  proof (cases "row_index line")
    case True
    let ?st = "(flush_block (st\<lparr>ps_saw_any_row := True\<rparr>))\<lparr>ps_block := empty_block\<rparr>"
    have "(ps_records ?st, ps_problems ?st) = absorb (ps_block st) (ps_records st, ps_problems st)"
      using flush_block_absorb(1) [of "st\<lparr>ps_saw_any_row := True\<rparr>"] by simp
    with True Cons.IH [of ?st] show ?thesis by (simp add: flush_block_absorb(2) option.map_comp comp_def)
  next
    case False
    with Cons.IH show ?thesis by (cases "read_field line (ps_block st)") auto
  qed
qed simp

lemma parse_ca_export_blocks:
  "parse_ca_export text =
     map_option (\<lambda>bs. let rp = fold absorb bs ([], []) in
         (fst rp, snd rp @ (if \<not> list_ex row_index (splitlines text) \<and> fst rp = [] then [NoRows] else [])))
       (export_blocks (splitlines text) empty_block)"
proof -
  let ?st = "\<lparr>ps_block = empty_block, ps_records = [], ps_problems = [], ps_saw_any_row = False\<rparr>"
  have "parse_ca_export text = map_option (\<lambda>(rp, saw). (fst rp, snd rp @ (if \<not> saw \<and> fst rp = [] then [NoRows] else [])))
      (map_option (\<lambda>st'. (absorb (ps_block st') (ps_records st', ps_problems st'), ps_saw_any_row st')) (read_lines (splitlines text) ?st))"
    by (simp add: parse_ca_export_def option.map_comp comp_def Let_def flush_block_absorb(2) flush_block_absorb(1) [symmetric])
  then show ?thesis unfolding read_lines_blocks by (simp add: option.map_comp comp_def Let_def)
qed

lemma reconcile_passes_iff:
  assumes "distinct (map fst ra)"
  shows "coverage_complete (reconcile ra ca problems) \<and> drift_count (reconcile ra ca problems) = 0 \<longleftrightarrow>
    problems = [] \<and> (\<forall>k v. map_option must_be_revoked (map_of ra k) = Some v \<longrightarrow> map_option ca_revoked (map_of ca k) = Some v)"
proof -
  have mem: "(k, r) \<in> set ra \<longleftrightarrow> map_of ra k = Some r" for k r using assms by simp
  have "coverage_complete (reconcile ra ca problems) \<and> drift_count (reconcile ra ca problems) = 0 \<longleftrightarrow>
      problems = [] \<and> (\<forall>(k, r) \<in> set ra. map_option ca_revoked (map_of ca k) = Some (must_be_revoked r))"
  proof -
    have empty: "sort xs = [] \<longleftrightarrow> xs = []" for xs :: "string list" by (metis length_0_conv length_sort)
    show ?thesis
      unfolding coverage_complete_def drift_count_def reconcile_def Let_def add_is_0 length_0_conv ReconciliationResult.simps empty
        map_is_Nil_conv filter_empty_conv
      by (fastforce split: option.splits)
  qed
  also have "\<dots> \<longleftrightarrow> problems = [] \<and> (\<forall>k v. map_option must_be_revoked (map_of ra k) = Some v \<longrightarrow> map_option ca_revoked (map_of ca k) = Some v)"
    using mem by (force dest: map_of_SomeD)
  finally show ?thesis .
qed

text \<open>
  C20. A pass is proof: the reconciliation exits with 0 exactly when the export was produced without error, both
  inputs could be read, the export has at least one row, every block of it that names a serial has a disposition the
  tool understands, and for every serial of the store the last block on that serial says revoked, an
  un-revocation not counted, just in case the store holds a revoked or quarantined certificate of that serial.
\<close>

theorem reconciliation_pass_iff:
  "reconcile_main code store export_text = 0 \<longleftrightarrow>
     code = 0 \<and> (\<exists>s doc bs. store = Some s \<and> export_text = Some doc \<and> export_blocks (splitlines doc) empty_block = Some bs
       \<and> (list_ex row_index (splitlines doc) \<or> List.map_filter block_verdict bs \<noteq> []) \<and> list_all interpretable bs
       \<and> (\<forall>k. list_ex (names_serial k) (certificates s) \<longrightarrow>
            map_of (rev (List.map_filter block_verdict bs)) k = Some (demands_revocation s k)))"
proof (cases "code = 0 \<and> (\<exists>s doc bs. store = Some s \<and> export_text = Some doc \<and> export_blocks (splitlines doc) empty_block = Some bs)")
  case False
  then have "run_reconciliation code store export_text = None"
    by (auto simp: run_reconciliation_def parse_ca_export_blocks split: option.splits bind_split)
  with False show ?thesis by (auto simp: reconcile_main_def)
next
  case True
  then obtain s doc bs where given: "code = 0" "store = Some s" "export_text = Some doc" "export_blocks (splitlines doc) empty_block = Some bs"
    by blast
  let ?rp = "fold absorb bs ([], [])" and ?rows = "list_ex row_index (splitlines doc)"
  let ?problems = "snd ?rp @ (if \<not> ?rows \<and> fst ?rp = [] then [NoRows] else [])"
  let ?r = "reconcile (load_ra_records s) (fst ?rp) ?problems"
  have "reconcile_main code store export_text = 0 \<longleftrightarrow> coverage_complete ?r \<and> drift_count ?r = 0"
    using given by (simp add: reconcile_main_def run_reconciliation_def parse_ca_export_blocks Let_def)
  also have "\<dots> \<longleftrightarrow> ?problems = [] \<and> (\<forall>k v. map_option must_be_revoked (map_of (load_ra_records s) k) = Some v \<longrightarrow>
      map_option ca_revoked (map_of (fst ?rp) k) = Some v)"
    by (rule reconcile_passes_iff [OF load_ra_records_distinct])
  also have "\<dots> \<longleftrightarrow> (?rows \<or> List.map_filter block_verdict bs \<noteq> []) \<and> list_all interpretable bs
      \<and> (\<forall>k. list_ex (names_serial k) (certificates s) \<longrightarrow> map_of (rev (List.map_filter block_verdict bs)) k = Some (demands_revocation s k))"
    by (auto simp: fold_absorb load_ra_records_lookup split: option.splits if_splits)
  finally show ?thesis using given by simp
qed

definition sample_export :: string where
  "sample_export = ''Row Index: 1'' @ [CHR 0x0D, CHR 0x0A] @ ''Serial Number: 00 12'' @ [CHR 0x0A] @ ''Disposition: 21''"

lemma sample_reconciliation:
  "reconcile_main 0 (Some (certs_db\<lparr>certificates := [sample_cert ''c1'' ''o1'' CertREVOKED]\<rparr>)) (Some sample_export) = 0"
  by code_simp

theorem reconciliation_pass_iff_witness:
  "\<exists>bs. export_blocks (splitlines sample_export) empty_block = Some bs \<and> list_all interpretable bs
    \<and> map_of (rev (List.map_filter block_verdict bs)) ''12'' = Some True"
proof -
  let ?s = "certs_db\<lparr>certificates := [sample_cert ''c1'' ''o1'' CertREVOKED]\<rparr>"
  have "reconcile_serial ''12'' = ''12''" by code_simp
  then have known: "list_ex (names_serial ''12'') (certificates ?s)" "demands_revocation ?s ''12'' = True"
    by (simp_all add: names_serial_def demands_revocation_def sample_cert_def new_cert_row_def)
  obtain s doc bs where w: "Some ?s = Some s" "Some sample_export = Some doc" "export_blocks (splitlines doc) empty_block = Some bs"
      "list_all interpretable bs" "\<forall>k. list_ex (names_serial k) (certificates s) \<longrightarrow>
        map_of (rev (List.map_filter block_verdict bs)) k = Some (demands_revocation s k)"
    using reconciliation_pass_iff [THEN iffD1, OF sample_reconciliation] by blast
  have s: "s = ?s" and doc: "doc = sample_export" by (simp_all only: w(1,2) [symmetric, THEN option.inject [THEN iffD1]])
  show ?thesis
    using w(3,4) w(5) [rule_format, of "''12''", unfolded s, OF known(1), unfolded known(2)] unfolding doc by blast
qed

end
