(* ===== verification/CrlPublication.thy ===== *)
theory CrlPublication
  imports Certfnsh
begin

text \<open>
  The publication check (\<open>src/scripts/verify_crl_publication.py\<close>): proof, from the document a relying
  party fetches, that revocations reached a published CRL. A byte is a character. Parsing of X.509 and the
  signature check are the arguments in \<open>x509_lib\<close>; extensions are parsed when they are first looked at, so a
  document with malformed ones has \<open>None\<close> there. The prose of failures is not modelled.
\<close>

section \<open>What the libraries answer\<close>

text \<open>Looking up an extension: found, \<open>ExtensionNotFound\<close>, \<open>ValueError\<close>, or \<open>DuplicateExtension\<close>.\<close>

datatype 'a ext_lookup = Found 'a | NotFound | Malformed | Duplicated

record issuer_cert =
  ic_subject :: string
  ic_not_before :: clock
  ic_not_after :: clock
  ic_constraints_ca :: "bool ext_lookup"
  ic_usage_crl_sign :: "bool ext_lookup"

record idp =
  idp_indirect :: bool
  idp_some_reasons :: "string list option"
  idp_only_ca :: bool
  idp_only_attribute :: bool

datatype crl_ext_value = CrlNumberExt int | DeltaIndicator | IssuingDistributionPoint idp | OtherCrlExt string

record crl_ext =
  ce_critical :: bool
  ce_value :: crl_ext_value

datatype entry_ext_value = ReasonExt string | CertificateIssuerExt | OtherEntryExt string

record entry_ext =
  ee_critical :: bool
  ee_value :: entry_ext_value

record published_entry =
  pe_serial :: nat
  pe_extensions :: "entry_ext list option"

record published_crl =
  pc_issuer :: string
  pc_extensions :: "crl_ext list option"
  pc_last_update :: clock
  pc_next_update :: "clock option"
  pc_entries :: "published_entry list"

text \<open>\<open>is_signature_valid\<close> on the key of the issuer: its answer, \<open>TypeError\<close> or \<open>ValueError\<close>, or an exception that
  nothing catches.\<close>

datatype sig_answer = SigAnswer bool | SigTypeOrValueError | SigUncaught

record x509_lib =
  xl_der_cert :: "string \<Rightarrow> issuer_cert option"
  xl_pem_certs :: "string \<Rightarrow> issuer_cert list option"
  xl_der_crl :: "string \<Rightarrow> published_crl option"
  xl_pem_crl :: "string \<Rightarrow> published_crl option"
  xl_signature :: "published_crl \<Rightarrow> issuer_cert \<Rightarrow> sig_answer"

section \<open>Serials\<close>

definition hex_value :: "char \<Rightarrow> nat option" where
  "hex_value c = (let n = (of_char c :: nat) in
     if 48 \<le> n \<and> n \<le> 57 then Some (n - 48) else if 65 \<le> n \<and> n \<le> 70 then Some (n - 55)
     else if 97 \<le> n \<and> n \<le> 102 then Some (n - 87) else None)"

definition parse_serial :: "string \<Rightarrow> nat option" where
  "parse_serial s =
     (let cleaned = filter (\<lambda>c. c \<noteq> CHR '' '' \<and> c \<noteq> CHR '':'') (strip_space s);
          digits = (if prefix ''0x'' (lower cleaned) then drop 2 cleaned else cleaned)
      in if digits = [] \<or> list_ex (\<lambda>c. hex_value c = None) digits then None
         else Some (foldl (\<lambda>acc c. acc * 16 + the (hex_value c)) 0 digits))"

section \<open>Retrieval\<close>

datatype fetch_error = BadStatus int | BodyTooLarge | RequestFailed

text \<open>An answer: its status, the chunks of its body, and whether reading fails after them.\<close>

record cdp_answer =
  cdp_status :: int
  cdp_chunks :: "string list"
  cdp_breaks :: bool

fun read_published_chunks :: "nat \<Rightarrow> string \<Rightarrow> string list \<Rightarrow> bool \<Rightarrow> fetch_error + string" where
  "read_published_chunks max_bytes body [] breaks = (if breaks then Inl RequestFailed else Inr body)"
| "read_published_chunks max_bytes body (chunk # chunks) breaks =
     (if length (body @ chunk) > max_bytes then Inl BodyTooLarge else read_published_chunks max_bytes (body @ chunk) chunks breaks)"

definition fetch_published :: "nat \<Rightarrow> cdp_answer option \<Rightarrow> fetch_error + string" where
  "fetch_published max_bytes answer =
     (case answer of
        None \<Rightarrow> Inl RequestFailed
      | Some a \<Rightarrow> if cdp_status a \<noteq> 200 then Inl (BadStatus (cdp_status a)) else read_published_chunks max_bytes [] (cdp_chunks a) (cdp_breaks a))"

definition load_published_crl :: "x509_lib \<Rightarrow> string \<Rightarrow> published_crl option" where
  "load_published_crl lib body = (case xl_der_crl lib body of None \<Rightarrow> xl_pem_crl lib body | c \<Rightarrow> c)"

section \<open>The issuer\<close>

definition ascii_space_char :: "char \<Rightarrow> bool" where
  "ascii_space_char c = (let n = (of_char c :: nat) in (9 \<le> n \<and> n \<le> 13) \<or> n = 32)"

definition pem_cert :: "string \<Rightarrow> nat option" where
  "pem_cert s = consumed s
     (case after_prefix ''-----BEGIN CERTIFICATE-----'' s of
        Some (c # r) \<Rightarrow> if ascii_space_char c then re_search (after_prefix ''-----END CERTIFICATE-----'') r else None
      | _ \<Rightarrow> None)"

definition without_bom :: "string \<Rightarrow> string" where
  "without_bom body = (case after_prefix [CHR 0xEF, CHR 0xBB, CHR 0xBF] body of None \<Rightarrow> body | Some r \<Rightarrow> r)"

text \<open>\<open>None\<close> is a \<open>DuplicateExtension\<close> that nothing catches.\<close>

definition can_sign_crls :: "issuer_cert \<Rightarrow> bool option" where
  "can_sign_crls c =
     (case ic_constraints_ca c of
        Duplicated \<Rightarrow> None
      | Found ca \<Rightarrow>
          if \<not> ca then Some False
          else (case ic_usage_crl_sign c of Found u \<Rightarrow> Some u | NotFound \<Rightarrow> Some True | Malformed \<Rightarrow> Some False | Duplicated \<Rightarrow> None)
      | _ \<Rightarrow> Some False)"

definition issuer_certificates :: "x509_lib \<Rightarrow> string \<Rightarrow> issuer_cert list option" where
  "issuer_certificates lib body =
     (case xl_der_cert lib body of
        Some c \<Rightarrow> Some [c]
      | None \<Rightarrow>
          if list_all ascii_space_char (re_delete pem_cert 0 (without_bom body)) then xl_pem_certs lib (without_bom body) else None)"

text \<open>\<open>Inl\<close> is the exit status an exception leads to: 2 for \<open>RuntimeError\<close>, 1 for a traceback.\<close>

definition load_issuer :: "x509_lib \<Rightarrow> clock \<Rightarrow> string \<Rightarrow> nat + issuer_cert" where
  "load_issuer lib now body =
     (case issuer_certificates lib body of
        Some [c] \<Rightarrow>
          if \<not> (ic_not_before c \<le> now \<and> now \<le> ic_not_after c) then Inl 2
          else (case can_sign_crls c of None \<Rightarrow> Inl 1 | Some able \<Rightarrow> if able then Inr c else Inl 2)
      | _ \<Rightarrow> Inl 2)"

section \<open>The check\<close>

definition PUBLICATION_CLOCK_SKEW :: clock where "PUBLICATION_CLOCK_SKEW = 5 * 60 * micros"

datatype failure = IssuerMismatch | InvalidSignature | DeltaCrl | CriticalExtension | IndirectCrl | SomeReasonsOnly
  | NotEndEntity | NotYetInForce | NoNextUpdate | ExpiredCrl | NoNumber | NotNewer | UnattributableEntry nat
  | MissingSerial nat | ControlListed nat

definition is_remove_from_crl :: "entry_ext list \<Rightarrow> bool" where
  "is_remove_from_crl es =
     (case List.map_filter (\<lambda>e. case ee_value e of ReasonExt r \<Rightarrow> Some r | _ \<Rightarrow> None) es of
        [] \<Rightarrow> False | r # _ \<Rightarrow> r = ''removeFromCRL'')"

definition published_number :: "crl_ext list \<Rightarrow> int option" where
  "published_number es =
     (case List.map_filter (\<lambda>e. case ce_value e of CrlNumberExt n \<Rightarrow> Some n | _ \<Rightarrow> None) es of [] \<Rightarrow> None | n # _ \<Rightarrow> Some n)"

definition published_idp :: "crl_ext list \<Rightarrow> idp option" where
  "published_idp es =
     (case List.map_filter (\<lambda>e. case ce_value e of IssuingDistributionPoint i \<Rightarrow> Some i | _ \<Rightarrow> None) es of [] \<Rightarrow> None | i # _ \<Rightarrow> Some i)"

definition is_idp_ext :: "crl_ext \<Rightarrow> bool" where
  "is_idp_ext e = (case ce_value e of IssuingDistributionPoint _ \<Rightarrow> True | _ \<Rightarrow> False)"

definition authenticity_failures :: "sig_answer \<Rightarrow> published_crl \<Rightarrow> issuer_cert \<Rightarrow> failure list" where
  "authenticity_failures sig crl issuer =
     (if pc_issuer crl \<noteq> ic_subject issuer then [IssuerMismatch] else if sig \<noteq> SigAnswer True then [InvalidSignature] else [])"

definition scope_failures :: "crl_ext list \<Rightarrow> failure list" where
  "scope_failures es =
     (if list_ex (\<lambda>e. ce_value e = DeltaIndicator) es then [DeltaCrl] else [])
     @ map (\<lambda>_. CriticalExtension) (filter (\<lambda>e. ce_critical e \<and> \<not> is_idp_ext e) es)
     @ (case published_idp es of
          None \<Rightarrow> []
        | Some i \<Rightarrow> (if idp_indirect i then [IndirectCrl] else []) @ (if idp_some_reasons i \<noteq> None then [SomeReasonsOnly] else [])
            @ (if idp_only_ca i \<or> idp_only_attribute i then [NotEndEntity] else []))"

definition currency_failures :: "clock \<Rightarrow> published_crl \<Rightarrow> failure list" where
  "currency_failures now crl =
     (if pc_last_update crl > now + PUBLICATION_CLOCK_SKEW then [NotYetInForce] else [])
     @ (case pc_next_update crl of None \<Rightarrow> [NoNextUpdate] | Some t \<Rightarrow> if t \<le> now then [ExpiredCrl] else [])"

definition number_failures :: "int option \<Rightarrow> crl_ext list \<Rightarrow> failure list" where
  "number_failures prior es =
     (case prior of
        None \<Rightarrow> []
      | Some p \<Rightarrow> (case published_number es of None \<Rightarrow> [NoNumber] | Some n \<Rightarrow> if n \<le> p then [NotNewer] else []))"

definition unattributable :: "entry_ext list \<Rightarrow> bool" where
  "unattributable es = list_ex (\<lambda>e. ee_critical e \<or> ee_value e = CertificateIssuerExt) es"

text \<open>\<open>None\<close> is \<open>ValueError\<close> or \<open>DuplicateExtension\<close>; \<open>sig\<close> is not \<open>SigUncaught\<close> where the issuer matches.\<close>

definition check_publication :: "sig_answer \<Rightarrow> published_crl \<Rightarrow> issuer_cert \<Rightarrow> nat list \<Rightarrow> nat list \<Rightarrow> int option \<Rightarrow> clock \<Rightarrow> failure list option" where
  "check_publication sig crl issuer revoked absent prior now =
     (case pc_extensions crl of
        None \<Rightarrow> None
      | Some es \<Rightarrow>
          if list_ex (\<lambda>e. pe_extensions e = None) (pc_entries crl) then None
          else let entries = map (\<lambda>e. (pe_serial e, the (pe_extensions e))) (pc_entries crl);
                   listed = map fst (filter (\<lambda>(_, xs). \<not> is_remove_from_crl xs) entries)
               in Some (authenticity_failures sig crl issuer @ scope_failures es @ currency_failures now crl @ number_failures prior es
                    @ map (\<lambda>(n, _). UnattributableEntry n) (filter (\<lambda>(_, xs). unattributable xs) entries)
                    @ map MissingSerial (filter (\<lambda>n. n \<notin> set listed) revoked)
                    @ map ControlListed (filter (\<lambda>n. n \<in> set listed) absent)))"

section \<open>The command\<close>

text \<open>The document comes from a file (\<open>Inl\<close>, \<open>None\<close> where it cannot be read) or from the distribution point.\<close>

record publication_args =
  pa_source :: "string option + cdp_answer option"
  pa_max_bytes :: nat
  pa_issuer :: "string option"
  pa_revoked :: "string list"
  pa_absent :: "string list"
  pa_prior :: "int option"

fun parse_serials :: "string list \<Rightarrow> nat list option" where
  "parse_serials [] = Some []"
| "parse_serials (s # ss) =
     Option.bind (parse_serial s) (\<lambda>n. map_option (Cons n) (parse_serials ss))"

definition published_body :: "publication_args \<Rightarrow> string option" where
  "published_body args =
     (case pa_source args of
        Inl file \<Rightarrow> file
      | Inr answer \<Rightarrow> (case fetch_published (pa_max_bytes args) answer of Inl _ \<Rightarrow> None | Inr body \<Rightarrow> Some body))"

text \<open>\<open>main\<close>: the exit status and whether the verified banner is printed. A traceback exits with 1.\<close>

definition publication_main :: "x509_lib \<Rightarrow> clock \<Rightarrow> clock \<Rightarrow> publication_args \<Rightarrow> nat \<times> bool" where
  "publication_main lib now_issuer now args =
     (case (parse_serials (pa_revoked args), parse_serials (pa_absent args)) of
        (Some revoked, Some absent) \<Rightarrow>
          if (case pa_prior args of None \<Rightarrow> False | Some p \<Rightarrow> p < 0) then (2, False)
          else if revoked \<noteq> [] \<and> (absent = [] \<or> pa_prior args = None) then (2, False)
          else (case (case pa_issuer args of None \<Rightarrow> Inl 2 | Some file \<Rightarrow> load_issuer lib now_issuer file) of
              Inl status \<Rightarrow> (status, False)
            | Inr issuer \<Rightarrow>
                (case Option.bind (published_body args) (load_published_crl lib) of
                   None \<Rightarrow> (2, False)
                 | Some crl \<Rightarrow>
                     if pc_issuer crl = ic_subject issuer \<and> xl_signature lib crl issuer = SigUncaught then (1, False)
                     else (case check_publication (xl_signature lib crl issuer) crl issuer revoked absent (pa_prior args) now of
                         None \<Rightarrow> (2, False)
                       | Some failures \<Rightarrow> if failures \<noteq> [] then (1, False) else (0, revoked \<noteq> []))))
      | _ \<Rightarrow> (2, False))"

section \<open>What the banner proves\<close>

definition entry_readable :: "published_entry \<Rightarrow> bool" where
  "entry_readable e = (case pe_extensions e of None \<Rightarrow> False | Some xs \<Rightarrow> \<not> unattributable xs)"

definition lists_serial :: "published_crl \<Rightarrow> nat \<Rightarrow> bool" where
  "lists_serial crl n =
     list_ex (\<lambda>e. pe_serial e = n \<and> (case pe_extensions e of None \<Rightarrow> False | Some xs \<Rightarrow> \<not> is_remove_from_crl xs)) (pc_entries crl)"

definition end_entity_base :: "crl_ext list \<Rightarrow> bool" where
  "end_entity_base es \<longleftrightarrow> list_all (\<lambda>e. ce_value e \<noteq> DeltaIndicator \<and> (ce_critical e \<longrightarrow> is_idp_ext e)) es
     \<and> (case published_idp es of
          None \<Rightarrow> True
        | Some i \<Rightarrow> \<not> idp_indirect i \<and> idp_some_reasons i = None \<and> \<not> idp_only_ca i \<and> \<not> idp_only_attribute i)"

definition in_force :: "clock \<Rightarrow> published_crl \<Rightarrow> bool" where
  "in_force now crl \<longleftrightarrow> pc_last_update crl \<le> now + 300 * micros \<and> (case pc_next_update crl of None \<Rightarrow> False | Some t \<Rightarrow> now < t)"

lemma scope_ok_iff: "scope_failures es = [] \<longleftrightarrow> end_entity_base es"
  by (auto simp: scope_failures_def end_entity_base_def filter_empty_conv list_all_iff list_ex_iff split: option.splits)

lemma currency_ok_iff: "currency_failures now crl = [] \<longleftrightarrow> in_force now crl"
  by (auto simp: currency_failures_def in_force_def PUBLICATION_CLOCK_SKEW_def split: option.splits)

lemma number_ok_iff: "number_failures (Some p) es = [] \<longleftrightarrow> (\<exists>n. published_number es = Some n \<and> p < n)"
  by (auto simp: number_failures_def split: option.splits)

lemma authenticity_ok_iff:
  "authenticity_failures sig crl issuer = [] \<longleftrightarrow> pc_issuer crl = ic_subject issuer \<and> sig = SigAnswer True"
  by (simp add: authenticity_failures_def)

lemma check_ok_iff:
  "check_publication sig crl issuer revoked absent (Some p) now = Some [] \<longleftrightarrow>
     pc_issuer crl = ic_subject issuer \<and> sig = SigAnswer True
     \<and> (\<exists>es n. pc_extensions crl = Some es \<and> end_entity_base es \<and> published_number es = Some n \<and> p < n)
     \<and> in_force now crl \<and> list_all entry_readable (pc_entries crl)
     \<and> list_all (lists_serial crl) revoked \<and> \<not> list_ex (lists_serial crl) absent"
proof (cases "pc_extensions crl = None \<or> list_ex (\<lambda>e. pe_extensions e = None) (pc_entries crl)")
  case True
  then have "check_publication sig crl issuer revoked absent (Some p) now = None"
    by (auto simp: check_publication_def split: option.split)
  moreover have "pc_extensions crl = None \<or> \<not> list_all entry_readable (pc_entries crl)"
    using True by (force simp: list_all_iff list_ex_iff entry_readable_def)
  ultimately show ?thesis by auto
next
  case False
  then obtain es where es: "pc_extensions crl = Some es" and readable: "\<forall>e \<in> set (pc_entries crl). pe_extensions e \<noteq> None"
    by (auto simp: list_ex_iff)
  let ?entries = "map (\<lambda>e. (pe_serial e, the (pe_extensions e))) (pc_entries crl)"
  have listed: "n \<in> set (map fst (filter (\<lambda>(_, xs). \<not> is_remove_from_crl xs) ?entries)) \<longleftrightarrow> lists_serial crl n" for n
    using readable by (force simp: lists_serial_def list_ex_iff)
  have entries: "filter (\<lambda>(_, xs). unattributable xs) ?entries = [] \<longleftrightarrow> list_all entry_readable (pc_entries crl)"
    using readable by (fastforce simp: filter_empty_conv list_all_iff entry_readable_def split: option.splits)
  have controls: "filter (\<lambda>n. \<not> lists_serial crl n) revoked = [] \<longleftrightarrow> list_all (lists_serial crl) revoked"
      "filter (lists_serial crl) absent = [] \<longleftrightarrow> \<not> list_ex (lists_serial crl) absent"
    by (auto simp: filter_empty_conv list_all_iff list_ex_iff)
  have "\<not> list_ex (\<lambda>e. pe_extensions e = None) (pc_entries crl)" using False by blast
  then show ?thesis
    unfolding check_publication_def es
    by (auto simp: listed entries controls authenticity_ok_iff scope_ok_iff currency_ok_iff number_ok_iff Let_def simp del: set_map)
qed

lemma check_uncaught: "check_publication SigUncaught crl issuer revoked absent prior now \<noteq> Some []"
  by (auto simp: check_publication_def authenticity_failures_def Let_def split: option.split)

lemma load_issuer_iff:
  "load_issuer lib now body = Inr c \<longleftrightarrow>
     issuer_certificates lib body = Some [c] \<and> ic_not_before c \<le> now \<and> now \<le> ic_not_after c \<and> can_sign_crls c = Some True"
  by (auto simp: load_issuer_def split: option.splits list.splits if_splits)

text \<open>
  C21. The banner is proof of publication: it is printed exactly when serials, a negative control and a prior number were
  given and could be read, the issuer file holds one certificate, in its validity, of a CA that may sign CRLs, and
  the document names that CA, carries its valid signature, is a base CRL in force for end-entity certificates
  with no critical extension that is not understood and a number above the prior one, and lists every
  revoked serial, un-revocations not counted, and none of the controls, with no entry that could belong to
  another issuer.
\<close>

theorem publication_verified_iff:
  "publication_main lib now_issuer now args = (0, True) \<longleftrightarrow>
     (\<exists>revoked absent prior file issuer body crl es n.
        parse_serials (pa_revoked args) = Some revoked \<and> revoked \<noteq> [] \<and> parse_serials (pa_absent args) = Some absent \<and> absent \<noteq> []
      \<and> pa_prior args = Some prior \<and> 0 \<le> prior
      \<and> pa_issuer args = Some file \<and> issuer_certificates lib file = Some [issuer]
      \<and> ic_not_before issuer \<le> now_issuer \<and> now_issuer \<le> ic_not_after issuer \<and> can_sign_crls issuer = Some True
      \<and> published_body args = Some body \<and> load_published_crl lib body = Some crl
      \<and> pc_issuer crl = ic_subject issuer \<and> xl_signature lib crl issuer = SigAnswer True
      \<and> pc_extensions crl = Some es \<and> end_entity_base es \<and> published_number es = Some n \<and> prior < n
      \<and> in_force now crl \<and> list_all entry_readable (pc_entries crl)
      \<and> list_all (lists_serial crl) revoked \<and> \<not> list_ex (lists_serial crl) absent)"
proof -
  have "publication_main lib now_issuer now args = (0, True) \<longleftrightarrow>
     (\<exists>revoked absent prior file issuer body crl.
        parse_serials (pa_revoked args) = Some revoked \<and> revoked \<noteq> [] \<and> parse_serials (pa_absent args) = Some absent \<and> absent \<noteq> []
      \<and> pa_prior args = Some prior \<and> 0 \<le> prior
      \<and> pa_issuer args = Some file \<and> load_issuer lib now_issuer file = Inr issuer
      \<and> published_body args = Some body \<and> load_published_crl lib body = Some crl
      \<and> check_publication (xl_signature lib crl issuer) crl issuer revoked absent (Some prior) now = Some [])"
    unfolding publication_main_def
    by (auto simp: check_uncaught split: option.splits sum.splits if_splits bind_splits)
  then show ?thesis by (simp only: check_ok_iff load_issuer_iff) blast
qed

definition sample_issuer_cert :: issuer_cert where
  "sample_issuer_cert = \<lparr>ic_subject = ''CN=ca'', ic_not_before = 0, ic_not_after = 10, ic_constraints_ca = Found True,
     ic_usage_crl_sign = NotFound\<rparr>"

definition sample_published :: published_crl where
  "sample_published = \<lparr>pc_issuer = ''CN=ca'', pc_extensions = Some [\<lparr>ce_critical = False, ce_value = CrlNumberExt 8\<rparr>],
     pc_last_update = 1, pc_next_update = Some 9, pc_entries = [\<lparr>pe_serial = 18, pe_extensions = Some []\<rparr>]\<rparr>"

definition sample_x509 :: x509_lib where
  "sample_x509 = \<lparr>xl_der_cert = (\<lambda>_. Some sample_issuer_cert), xl_pem_certs = (\<lambda>_. None), xl_der_crl = (\<lambda>_. Some sample_published),
     xl_pem_crl = (\<lambda>_. None), xl_signature = (\<lambda>_ _. SigAnswer True)\<rparr>"

definition sample_publication :: publication_args where
  "sample_publication = \<lparr>pa_source = Inl (Some ''crl''), pa_max_bytes = 9, pa_issuer = Some ''ca'', pa_revoked = [''0x12''],
     pa_absent = [''13''], pa_prior = Some 7\<rparr>"

lemma sample_publication_run: "publication_main sample_x509 2 3 sample_publication = (0, True)"
  by code_simp

theorem publication_verified_iff_witness:
  "\<exists>crl revoked. parse_serials [''0x12''] = Some revoked \<and> revoked \<noteq> [] \<and> list_all (lists_serial crl) revoked \<and> in_force 3 crl"
  using publication_verified_iff [THEN iffD1, OF sample_publication_run] by (auto simp: sample_publication_def)

end
