(* ===== verification/Negotiate.thy ===== *)
theory Negotiate
  imports EnrollmentLeg
begin

text \<open>
  Negotiate authentication of the enrollment leg (\<open>src/src/acme_adcs_ra/negotiate_auth.py\<close>): the channel
  binding, the challenge, and the handshake as a response hook. The SPNEGO context and the connection
  are arguments, functions of their state that may raise (\<open>None\<close>); the side connection that reads the
  server certificate is its result. The handshake loop has no bound of its own, so it is a partial
  function whose outer \<open>None\<close> is a loop that does not return.
\<close>

section \<open>The channel binding\<close>

datatype sig_hash = MD5 | SHA1 | SHA256 | OtherHash string

text \<open>\<open>None\<close> from \<open>cert_hash\<close> is an unreadable certificate; its inner \<open>None\<close> a signature without a hash.\<close>

definition binding_hash :: "sig_hash option \<Rightarrow> sig_hash" where
  "binding_hash h = (case h of None \<Rightarrow> SHA256 | Some MD5 \<Rightarrow> SHA256 | Some SHA1 \<Rightarrow> SHA256 | Some a \<Rightarrow> a)"

definition tls_server_end_point_digest ::
    "(bytes \<Rightarrow> sig_hash option option) \<Rightarrow> (sig_hash \<Rightarrow> bytes \<Rightarrow> bytes) \<Rightarrow> bytes \<Rightarrow> bytes option" where
  "tls_server_end_point_digest cert_hash digest cert_der =
     map_option (\<lambda>h. map of_char ''tls-server-end-point:'' @ digest (binding_hash h) cert_der) (cert_hash cert_der)"

text \<open>The binding is computed once and kept: \<open>_app_data\<close>. \<open>None\<close> as result is an exception.\<close>

definition channel_binding_app_data ::
    "(bytes \<Rightarrow> sig_hash option option) \<Rightarrow> (sig_hash \<Rightarrow> bytes \<Rightarrow> bytes) \<Rightarrow> bytes option \<Rightarrow> bytes option \<Rightarrow> bytes option \<times> bytes option" where
  "channel_binding_app_data cert_hash digest server_cert app_data =
     (case app_data of
        Some d \<Rightarrow> (Some d, app_data)
      | None \<Rightarrow>
          (case Option.bind server_cert (tls_server_end_point_digest cert_hash digest) of
             None \<Rightarrow> (None, None)
           | Some d \<Rightarrow> (Some d, Some d)))"

section \<open>The challenge\<close>

datatype token_outcome = NoToken | Token bytes | TokenRaises

fun token_of_parts :: "string list \<Rightarrow> token_outcome" where
  "token_of_parts [] = NoToken"
| "token_of_parts (p # ps) =
     (let part = strip_space p; token = strip_space (drop 9 part) in
      if lower (take 9 part) = ''negotiate'' \<and> token \<noteq> []
      then (if list_ex (\<lambda>c. 128 \<le> (of_char c :: nat)) token then TokenRaises
            else case b64decode token of None \<Rightarrow> TokenRaises | Some t \<Rightarrow> Token t)
      else token_of_parts ps)"

definition challenge_token :: "string \<Rightarrow> token_outcome" where
  "challenge_token www_authenticate = token_of_parts (split_on CHR '','' www_authenticate)"

section \<open>The handshake\<close>

text \<open>The body of a challenge: already buffered, so many bytes to read, or a read that fails.\<close>

datatype challenge_body = BodyBuffered | BodyReads nat | BodyReadFails

definition NEGOTIATE_DRAIN_MAX_BYTES :: nat where "NEGOTIATE_DRAIN_MAX_BYTES = 64 * 1024"

text \<open>The bytes that are buffered while draining, and whether the connection is closed.\<close>

definition bounded_drain :: "challenge_body \<Rightarrow> nat \<times> bool" where
  "bounded_drain b =
     (case b of
        BodyBuffered \<Rightarrow> (0, False)
      | BodyReads n \<Rightarrow> (let got = min n (NEGOTIATE_DRAIN_MAX_BYTES + 1) in (got, got > NEGOTIATE_DRAIN_MAX_BYTES))
      | BodyReadFails \<Rightarrow> (0, True))"

text \<open>The header \<open>Authorization\<close> is \<open>Negotiate\<close> and the base64 of the token it stands for here.\<close>

record neg_request =
  nq_authorization :: "bytes option"
  nq_cookie :: "string option"

record neg_response =
  nr_status :: int
  nr_www_authenticate :: string
  nr_set_cookie :: "string option"
  nr_body :: challenge_body

definition next_request :: "neg_request \<Rightarrow> neg_response \<Rightarrow> bytes \<Rightarrow> neg_request" where
  "next_request rq current out_token =
     rq\<lparr>nq_authorization := Some out_token,
        nq_cookie := (case nr_set_cookie current of None \<Rightarrow> nq_cookie rq | Some c \<Rightarrow> if c = [] then nq_cookie rq else Some c)\<rparr>"

record ('c, 'w) peers =
  sp_step :: "'c \<Rightarrow> bytes option \<Rightarrow> (bytes option \<times> 'c) option"
  cn_send :: "'w \<Rightarrow> neg_request \<Rightarrow> (neg_response \<times> 'w) option"

text \<open>A leg of the handshake: the request sent, after the draining of the challenge before it.\<close>

type_synonym neg_leg = "neg_request \<times> nat \<times> bool"

text \<open>
  The loop: the context, the connection, the last request with its answer, the token received, and the legs
  so far. The result is the response handed back, or \<open>None\<close> where something raised.
\<close>

partial_function (option) handshake ::
    "('c, 'w) peers \<Rightarrow> 'c \<Rightarrow> 'w \<Rightarrow> neg_request \<Rightarrow> neg_response \<Rightarrow> bytes option \<Rightarrow> neg_leg list
       \<Rightarrow> (neg_response option \<times> neg_leg list) option" where
  "handshake ps c w rq current in_token sent =
     (case sp_step ps c in_token of
        None \<Rightarrow> Some (None, sent)
      | Some (out_token, c') \<Rightarrow>
          (case out_token of
             None \<Rightarrow> Some (Some current, sent)
           | Some out \<Rightarrow>
               if out = [] then Some (Some current, sent)
               else let request = next_request rq current out in
                 (case cn_send ps w request of
                    None \<Rightarrow> Some (None, sent @ [(request, bounded_drain (nr_body current))])
                  | Some (nxt, w') \<Rightarrow>
                      if nr_status nxt \<noteq> 401 then Some (Some nxt, sent @ [(request, bounded_drain (nr_body current))])
                      else (case challenge_token (nr_www_authenticate nxt) of
                              TokenRaises \<Rightarrow> Some (None, sent @ [(request, bounded_drain (nr_body current))])
                            | NoToken \<Rightarrow> Some (Some nxt, sent @ [(request, bounded_drain (nr_body current))])
                            | Token t \<Rightarrow> handshake ps c' w' request nxt (Some t) (sent @ [(request, bounded_drain (nr_body current))])))))"

definition authenticate ::
    "('c, 'w) peers \<Rightarrow> (bytes \<Rightarrow> 'c option) \<Rightarrow> bytes option \<Rightarrow> 'w \<Rightarrow> neg_request \<Rightarrow> neg_response
       \<Rightarrow> (neg_response option \<times> neg_leg list) option" where
  "authenticate ps client app_data w rq response =
     (if nr_status response \<noteq> 401 \<or> \<not> contains ''negotiate'' (lower (nr_www_authenticate response)) then Some (Some response, [])
      else case Option.bind app_data client of
          None \<Rightarrow> Some (None, [])
        | Some c \<Rightarrow> handshake ps c w rq response None [])"

section \<open>The handshake as an exchange\<close>

text \<open>
  The exchange, leg by leg: \<open>cs\<close> the states of the security context, \<open>ws\<close> those of the connection, \<open>rs\<close> the challenge before each
  leg, \<open>outs\<close> the tokens and \<open>qs\<close> the requests. The context steps on what the last challenge carried.
\<close>

definition received :: "(nat \<Rightarrow> neg_response) \<Rightarrow> nat \<Rightarrow> bytes option" where
  "received rs k = (if k = 0 then None else case challenge_token (nr_www_authenticate (rs k)) of Token t \<Rightarrow> Some t | _ \<Rightarrow> None)"

definition sent_leg ::
    "('c, 'w) peers \<Rightarrow> neg_request \<Rightarrow> (nat \<Rightarrow> 'c) \<Rightarrow> (nat \<Rightarrow> bytes) \<Rightarrow> (nat \<Rightarrow> neg_request) \<Rightarrow> (nat \<Rightarrow> neg_response) \<Rightarrow> nat \<Rightarrow> bool" where
  "sent_leg ps rq cs outs qs rs k \<longleftrightarrow>
     sp_step ps (cs k) (received rs k) = Some (Some (outs k), cs (Suc k)) \<and> outs k \<noteq> []
     \<and> nq_authorization (qs k) = Some (outs k)
     \<and> nq_cookie (qs k) = (case nr_set_cookie (rs k) of
          Some (x # xs) \<Rightarrow> Some (x # xs) | _ \<Rightarrow> if k = 0 then nq_cookie rq else nq_cookie (qs (k - 1)))"

definition answered :: "('c, 'w) peers \<Rightarrow> (nat \<Rightarrow> 'w) \<Rightarrow> (nat \<Rightarrow> neg_request) \<Rightarrow> (nat \<Rightarrow> neg_response) \<Rightarrow> nat \<Rightarrow> bool" where
  "answered ps ws qs rs k \<longleftrightarrow> cn_send ps (ws k) (qs k) = Some (rs (Suc k), ws (Suc k))"

definition challenged :: "neg_response \<Rightarrow> bool" where
  "challenged r \<longleftrightarrow> nr_status r = 401 \<and> (\<exists>t. challenge_token (nr_www_authenticate r) = Token t)"

text \<open>How an exchange ends at leg \<open>n\<close>: the context raises or has no more to say, or the last request raises or is not challenged again.\<close>

definition exchange_ends ::
    "('c, 'w) peers \<Rightarrow> neg_request \<Rightarrow> (nat \<Rightarrow> 'c) \<Rightarrow> (nat \<Rightarrow> 'w) \<Rightarrow> (nat \<Rightarrow> bytes) \<Rightarrow> (nat \<Rightarrow> neg_request) \<Rightarrow> (nat \<Rightarrow> neg_response)
       \<Rightarrow> nat \<Rightarrow> neg_response option \<Rightarrow> nat \<Rightarrow> bool" where
  "exchange_ends ps rq cs ws outs qs rs n r legs \<longleftrightarrow>
     legs = n \<and> (case sp_step ps (cs n) (received rs n) of None \<Rightarrow> r = None | Some (out, c) \<Rightarrow> out \<in> {None, Some []} \<and> r = Some (rs n))
     \<or> legs = Suc n \<and> sent_leg ps rq cs outs qs rs n
        \<and> (case cn_send ps (ws n) (qs n) of
              None \<Rightarrow> r = None
            | Some (nxt, w) \<Rightarrow> \<not> challenged nxt
                \<and> r = (if nr_status nxt = 401 \<and> challenge_token (nr_www_authenticate nxt) = TokenRaises then None else Some nxt))"

text \<open>One turn of the loop: it ends, with the legs it adds, or goes on.\<close>

type_synonym ('c, 'w) neg_state = "'c \<times> 'w \<times> neg_request \<times> neg_response \<times> bytes option"

definition neg_turn :: "('c, 'w) peers \<Rightarrow> ('c, 'w) neg_state \<Rightarrow> (neg_response option \<times> neg_leg list) + ('c, 'w) neg_state \<times> neg_leg" where
  "neg_turn ps st = (case st of (c, w, rq, current, in_token) \<Rightarrow>
     (case sp_step ps c in_token of
        None \<Rightarrow> Inl (None, [])
      | Some (out_token, c') \<Rightarrow>
          (case out_token of
             None \<Rightarrow> Inl (Some current, [])
           | Some out \<Rightarrow>
               if out = [] then Inl (Some current, [])
               else let request = next_request rq current out; leg = (request, bounded_drain (nr_body current)) in
                 (case cn_send ps w request of
                    None \<Rightarrow> Inl (None, [leg])
                  | Some (nxt, w') \<Rightarrow>
                      if nr_status nxt \<noteq> 401 then Inl (Some nxt, [leg])
                      else (case challenge_token (nr_www_authenticate nxt) of
                              TokenRaises \<Rightarrow> Inl (None, [leg])
                            | NoToken \<Rightarrow> Inl (Some nxt, [leg])
                            | Token t \<Rightarrow> Inr ((c', w', request, nxt, Some t), leg))))))"

definition neg_loop :: "('c, 'w) peers \<Rightarrow> ('c, 'w) neg_state \<Rightarrow> neg_leg list \<Rightarrow> (neg_response option \<times> neg_leg list) option" where
  "neg_loop ps st sent = (case st of (c, w, rq, current, in_token) \<Rightarrow> handshake ps c w rq current in_token sent)"

lemma neg_loop_turn:
  "neg_loop ps st sent = (case neg_turn ps st of Inl (r, legs) \<Rightarrow> Some (r, sent @ legs) | Inr (st', leg) \<Rightarrow> neg_loop ps st' (sent @ [leg]))"
  unfolding neg_loop_def neg_turn_def
  by (cases st; subst handshake.simps) (simp add: Let_def split: option.split prod.split token_outcome.split)

text \<open>The states the loop runs through; the last one is repeated.\<close>

primrec neg_states :: "('c, 'w) peers \<Rightarrow> ('c, 'w) neg_state \<Rightarrow> nat \<Rightarrow> ('c, 'w) neg_state" where
  "neg_states ps st 0 = st"
| "neg_states ps st (Suc k) = (case neg_turn ps (neg_states ps st k) of Inl _ \<Rightarrow> neg_states ps st k | Inr (st', leg) \<Rightarrow> st')"

definition neg_goes_on :: "('c, 'w) peers \<Rightarrow> ('c, 'w) neg_state \<Rightarrow> nat \<Rightarrow> bool" where
  "neg_goes_on ps st k \<longleftrightarrow> \<not> isl (neg_turn ps (neg_states ps st k))"

definition neg_leg_at :: "('c, 'w) peers \<Rightarrow> ('c, 'w) neg_state \<Rightarrow> nat \<Rightarrow> neg_leg" where
  "neg_leg_at ps st k = (case neg_turn ps (neg_states ps st k) of Inr (st', leg) \<Rightarrow> leg | Inl (r, legs) \<Rightarrow> hd legs)"

lemma neg_loop_after:
  "\<forall>k<n. neg_goes_on ps st k \<Longrightarrow> neg_loop ps st sent = neg_loop ps (neg_states ps st n) (sent @ map (neg_leg_at ps st) [0..<n])"
proof (induction n)
  case (Suc n)
  then have "\<not> isl (neg_turn ps (neg_states ps st n))" by (simp add: neg_goes_on_def)
  then obtain st' leg where "neg_turn ps (neg_states ps st n) = Inr (st', leg)" by (cases "neg_turn ps (neg_states ps st n)") auto
  then show ?case using Suc by (simp add: neg_loop_turn [of ps "neg_states ps st n"] neg_leg_at_def)
qed simp

lemma handshake_returned:
  "handshake ps c w rq cur t sent = Some out \<Longrightarrow> \<exists>n. \<not> neg_goes_on ps (c, w, rq, cur, t) n"
proof (erule handshake.raw_induct [rotated 1, where P = "\<lambda>ps c w rq cur t sent out. \<exists>n. \<not> neg_goes_on ps (c, w, rq, cur, t) n"], goal_cases)
  case (1 f ps c w rq cur t sent out)
  show ?case
  proof (cases "neg_turn ps (c, w, rq, cur, t)")
    case (Inl e)
    then show ?thesis by (intro exI [of _ 0]) (simp add: neg_goes_on_def)
  next
    case (Inr p)
    obtain c' w' rq' cur' t' leg where p: "p = ((c', w', rq', cur', t'), leg)" by (cases p) auto
    have "f ps c' w' rq' cur' t' (sent @ [leg]) = Some out"
      using 1(2) Inr unfolding p neg_turn_def
      by (auto simp: Let_def split: option.splits prod.splits token_outcome.splits if_splits)
    from 1(1) [OF this] obtain n where n: "\<not> neg_goes_on ps (c', w', rq', cur', t') n" by blast
    have "neg_states ps (c, w, rq, cur, t) (Suc n) = neg_states ps (c', w', rq', cur', t') n" for n
    proof (induction n)
      case (Suc n)
      show ?case unfolding neg_states.simps(2) [of _ _ "Suc n"] Suc by simp
    qed (simp add: Inr p)
    with n show ?thesis by (intro exI [of _ "Suc n"]) (simp add: neg_goes_on_def)
  qed
qed

lemma turn_goes_on:
  assumes "neg_turn ps (c, w, rq, cur, t) = Inr ((c', w', rq', cur', t'), leg)"
  shows "\<exists>out. sp_step ps c t = Some (Some out, c') \<and> out \<noteq> [] \<and> rq' = next_request rq cur out"
    "leg = (rq', bounded_drain (nr_body cur))" "cn_send ps w rq' = Some (cur', w')" "nr_status cur' = 401"
    "\<exists>tok. challenge_token (nr_www_authenticate cur') = Token tok \<and> t' = Some tok"
  using assms by (auto simp: neg_turn_def Let_def split: option.splits prod.splits token_outcome.splits if_splits)

lemma turn_ends:
  assumes "neg_turn ps (c, w, rq, cur, t) = Inl (r, legs)"
  shows "legs = [] \<and> (case sp_step ps c t of None \<Rightarrow> r = None | Some (out, c') \<Rightarrow> out \<in> {None, Some []} \<and> r = Some cur)
    \<or> (\<exists>out c'. sp_step ps c t = Some (Some out, c') \<and> out \<noteq> []
        \<and> legs = [(next_request rq cur out, bounded_drain (nr_body cur))]
        \<and> (case cn_send ps w (next_request rq cur out) of
              None \<Rightarrow> r = None
            | Some (nxt, w') \<Rightarrow> \<not> challenged nxt
                \<and> r = (if nr_status nxt = 401 \<and> challenge_token (nr_www_authenticate nxt) = TokenRaises then None else Some nxt)))"
  using assms
  by (auto simp: neg_turn_def challenged_def Let_def split: option.splits prod.splits token_outcome.splits if_splits)

lemma next_request_fields:
  "nq_authorization (next_request rq cur out) = Some out"
  "nq_cookie (next_request rq cur out) = (case nr_set_cookie cur of Some (x # xs) \<Rightarrow> Some (x # xs) | _ \<Rightarrow> nq_cookie rq)"
  by (auto simp: next_request_def split: option.splits list.splits)

text \<open>The exchange read off the states of the loop.\<close>

definition ex_rs :: "('c, 'w) peers \<Rightarrow> ('c, 'w) neg_state \<Rightarrow> nat \<Rightarrow> neg_response" where
  "ex_rs ps st k = (case neg_states ps st k of (c, w, rq, cur, t) \<Rightarrow> cur)"

definition ex_ws :: "('c, 'w) peers \<Rightarrow> ('c, 'w) neg_state \<Rightarrow> nat \<Rightarrow> 'w" where
  "ex_ws ps st k = (case neg_states ps st k of (c, w, rq, cur, t) \<Rightarrow> w)"

definition ex_qs :: "('c, 'w) peers \<Rightarrow> ('c, 'w) neg_state \<Rightarrow> nat \<Rightarrow> neg_request" where
  "ex_qs ps st k = fst (neg_leg_at ps st k)"

definition ex_outs :: "('c, 'w) peers \<Rightarrow> ('c, 'w) neg_state \<Rightarrow> nat \<Rightarrow> bytes" where
  "ex_outs ps st k = (case nq_authorization (ex_qs ps st k) of None \<Rightarrow> [] | Some t \<Rightarrow> t)"

fun ex_cs :: "('c, 'w) peers \<Rightarrow> ('c, 'w) neg_state \<Rightarrow> nat \<Rightarrow> 'c" where
  "ex_cs ps st 0 = fst st"
| "ex_cs ps st (Suc k) = (case neg_states ps st k of (c, w, rq, cur, t) \<Rightarrow> case sp_step ps c t of Some (out, c') \<Rightarrow> c' | None \<Rightarrow> c)"

definition ex_rq :: "('c, 'w) peers \<Rightarrow> ('c, 'w) neg_state \<Rightarrow> nat \<Rightarrow> neg_request" where
  "ex_rq ps st k = (if k = 0 then (case st of (c, w, rq, cur, t) \<Rightarrow> rq) else ex_qs ps st (k - 1))"

lemma neg_state_at:
  assumes "snd (snd (snd (snd st))) = None" "\<forall>j<k. neg_goes_on ps st j"
  shows "neg_states ps st k = (ex_cs ps st k, ex_ws ps st k, ex_rq ps st k, ex_rs ps st k, received (ex_rs ps st) k)"
proof (cases k)
  case 0
  then show ?thesis using assms(1) by (cases st) (simp add: ex_ws_def ex_rq_def ex_rs_def received_def)
next
  case (Suc j)
  obtain c w rq cur t where S: "neg_states ps st j = (c, w, rq, cur, t)" by (metis prod_cases5)
  have "\<not> isl (neg_turn ps (c, w, rq, cur, t))" using assms(2) Suc S by (auto simp: neg_goes_on_def)
  then obtain c' w' rq' cur' t' leg where T: "neg_turn ps (c, w, rq, cur, t) = Inr ((c', w', rq', cur', t'), leg)"
    by (cases "neg_turn ps (c, w, rq, cur, t)") auto
  note f = turn_goes_on [OF T]
  have n: "neg_states ps st k = (c', w', rq', cur', t')" using Suc S T by simp
  have "ex_cs ps st k = c'" using f(1) Suc S by auto
  moreover have "ex_rq ps st k = rq'" using f(2) Suc S T by (simp add: ex_rq_def ex_qs_def neg_leg_at_def)
  ultimately show ?thesis using n f(5) Suc by (auto simp: ex_ws_def ex_rs_def received_def)
qed

lemma sent_leg_at:
  assumes "neg_states ps st k = (ex_cs ps st k, w, ex_rq ps st k, ex_rs ps st k, received (ex_rs ps st) k)"
    "sp_step ps (ex_cs ps st k) (received (ex_rs ps st) k) = Some (Some out, c')" "out \<noteq> []"
    "ex_qs ps st k = next_request (ex_rq ps st k) (ex_rs ps st k) out"
  shows "sent_leg ps (ex_rq ps st 0) (ex_cs ps st) (ex_outs ps st) (ex_qs ps st) (ex_rs ps st) k"
proof -
  have "ex_outs ps st k = out" using assms(4) by (simp add: ex_outs_def next_request_fields)
  moreover have "ex_cs ps st (Suc k) = c'" using assms(1,2) by simp
  ultimately show ?thesis
    using assms(2,3,4) by (simp add: sent_leg_def next_request_fields) (auto simp: ex_rq_def split: option.split list.split)
qed

lemma exchange_goes_on:
  assumes "snd (snd (snd (snd st))) = None" "\<forall>j\<le>k. neg_goes_on ps st j"
  shows "sent_leg ps (ex_rq ps st 0) (ex_cs ps st) (ex_outs ps st) (ex_qs ps st) (ex_rs ps st) k"
    "answered ps (ex_ws ps st) (ex_qs ps st) (ex_rs ps st) k" "challenged (ex_rs ps st (Suc k))"
    "neg_leg_at ps st k = (ex_qs ps st k, bounded_drain (nr_body (ex_rs ps st k)))"
proof -
  have S: "neg_states ps st k = (ex_cs ps st k, ex_ws ps st k, ex_rq ps st k, ex_rs ps st k, received (ex_rs ps st) k)"
    using assms by (intro neg_state_at) auto
  have "\<not> isl (neg_turn ps (neg_states ps st k))" using assms(2) by (auto simp: neg_goes_on_def)
  then obtain c' w' rq' cur' t' leg where T: "neg_turn ps (neg_states ps st k) = Inr ((c', w', rq', cur', t'), leg)"
    by (cases "neg_turn ps (neg_states ps st k)") auto
  note f = turn_goes_on [OF T [unfolded S]]
  have leg: "neg_leg_at ps st k = leg" "ex_qs ps st k = rq'" using T f(2) by (simp_all add: neg_leg_at_def ex_qs_def)
  have nxt: "ex_rs ps st (Suc k) = cur'" "ex_ws ps st (Suc k) = w'" using T by (simp_all add: ex_rs_def ex_ws_def)
  show "neg_leg_at ps st k = (ex_qs ps st k, bounded_drain (nr_body (ex_rs ps st k)))" using leg f(2) by simp
  show "challenged (ex_rs ps st (Suc k))" "answered ps (ex_ws ps st) (ex_qs ps st) (ex_rs ps st) k"
    using f(3-5) nxt leg by (auto simp: challenged_def answered_def)
  show "sent_leg ps (ex_rq ps st 0) (ex_cs ps st) (ex_outs ps st) (ex_qs ps st) (ex_rs ps st) k"
    using f(1) S leg by (auto intro: sent_leg_at)
qed

lemma exchange_ends_at:
  assumes "snd (snd (snd (snd st))) = None" "\<forall>j<n. neg_goes_on ps st j" "neg_turn ps (neg_states ps st n) = Inl (r, legs)"
  shows "exchange_ends ps (ex_rq ps st 0) (ex_cs ps st) (ex_ws ps st) (ex_outs ps st) (ex_qs ps st) (ex_rs ps st) n r (n + length legs)
    \<and> (legs = [] \<or> legs = [(ex_qs ps st n, bounded_drain (nr_body (ex_rs ps st n)))])"
proof -
  note S = neg_state_at [OF assms(1,2)]
  from turn_ends [OF assms(3) [unfolded S]] show ?thesis
  proof (elim disjE exE conjE, goal_cases)
    case 1
    then show ?case by (simp add: exchange_ends_def)
  next
    case (2 out c')
    then have q: "ex_qs ps st n = next_request (ex_rq ps st n) (ex_rs ps st n) out"
      using assms(3) by (simp add: ex_qs_def neg_leg_at_def)
    with 2 sent_leg_at [OF S 2(1,2) q] show ?case by (simp add: exchange_ends_def)
  qed
qed

lemma handshake_exchange:
  assumes "st = (c, w, rq, response, None)"
  shows "case handshake ps c w rq response None [] of
      None \<Rightarrow> \<forall>k. neg_goes_on ps st k
    | Some (r, legs) \<Rightarrow> \<exists>n. (\<forall>k<n. neg_goes_on ps st k)
        \<and> exchange_ends ps rq (ex_cs ps st) (ex_ws ps st) (ex_outs ps st) (ex_qs ps st) (ex_rs ps st) n r (length legs)
        \<and> legs = map (\<lambda>k. (ex_qs ps st k, bounded_drain (nr_body (ex_rs ps st k)))) [0..<length legs]"
proof (cases "\<exists>n. \<not> neg_goes_on ps st n")
  case False
  then have "handshake ps c w rq response None [] = None"
    using handshake_returned [of ps c w rq response None "[]"] assms by (cases "handshake ps c w rq response None []") auto
  with False show ?thesis by simp
next
  case True
  define n where "n = (LEAST n. \<not> neg_goes_on ps st n)"
  have n: "\<not> neg_goes_on ps st n" unfolding n_def using True by (rule LeastI_ex)
  have before: "\<forall>k<n. neg_goes_on ps st k" unfolding n_def using not_less_Least by blast
  obtain r legs where final: "neg_turn ps (neg_states ps st n) = Inl (r, legs)"
    using n by (cases "neg_turn ps (neg_states ps st n)") (auto simp: neg_goes_on_def)
  have none: "snd (snd (snd (snd st))) = None" and rq: "ex_rq ps st 0 = rq" using assms by (simp_all add: ex_rq_def)
  have legs: "map (neg_leg_at ps st) [0..<n] = map (\<lambda>k. (ex_qs ps st k, bounded_drain (nr_body (ex_rs ps st k)))) [0..<n]"
    using exchange_goes_on(4) [OF none] before by (intro map_cong) auto
  have "handshake ps c w rq response None [] = Some (r, map (neg_leg_at ps st) [0..<n] @ legs)"
    using neg_loop_after [OF before, of "[]"] neg_loop_turn [of ps "neg_states ps st n"] final assms by (simp add: neg_loop_def)
  moreover note exchange_ends_at [OF none before final]
  ultimately show ?thesis using before legs rq by (auto intro!: exI [of _ n])
qed

definition drained_in_bounds :: "neg_leg \<Rightarrow> bool" where
  "drained_in_bounds leg \<longleftrightarrow> (case leg of (q, buffered, closed) \<Rightarrow> buffered \<le> 64 * 1024 + 1 \<and> (64 * 1024 < buffered \<longrightarrow> closed))"

lemma drain_bounded: "drained_in_bounds (q, bounded_drain b)"
  by (cases "bounded_drain b")
    (auto simp: drained_in_bounds_def bounded_drain_def NEGOTIATE_DRAIN_MAX_BYTES_def Let_def split: challenge_body.splits)

lemma drained_legs: "legs = map (\<lambda>k. (f k, bounded_drain (g k))) ks \<Longrightarrow> list_all drained_in_bounds legs"
  by (simp add: list_all_iff drain_bounded)

text \<open>
  C28. Authentication is the exchange it should be, whatever the server and the security context do. A response that is not a 401 asking
  for Negotiate is handed back, and without the channel binding to the server's certificate or a context nothing is sent. Otherwise
  each request carries exactly the token that the context gave on the token of the challenge before it, and that
  challenge's cookie if it set one; each challenge but the last is a 401 with a token. Of the body of a challenge
  at most a byte more than 64 KiB is buffered, and the connection is closed beyond that. What is handed back is the last answer, and an error is raised exactly when the context, the connection or the
  decoding of a token raises. The hook returns, unless the context has a token and the server challenges it again for ever.
\<close>

theorem negotiate_returns:
  "if nr_status response \<noteq> 401 \<or> \<not> contains ''negotiate'' (lower (nr_www_authenticate response))
   then authenticate ps client app_data w rq response = Some (Some response, [])
   else case Option.bind app_data client of
      None \<Rightarrow> authenticate ps client app_data w rq response = Some (None, [])
    | Some c \<Rightarrow> \<exists>cs ws outs qs rs. cs 0 = c \<and> ws 0 = w \<and> rs 0 = response
        \<and> (case authenticate ps client app_data w rq response of
              None \<Rightarrow> \<forall>k. sent_leg ps rq cs outs qs rs k \<and> answered ps ws qs rs k \<and> challenged (rs (Suc k))
            | Some (r, legs) \<Rightarrow> \<exists>n.
                (\<forall>k<n. sent_leg ps rq cs outs qs rs k \<and> answered ps ws qs rs k \<and> challenged (rs (Suc k)))
                \<and> exchange_ends ps rq cs ws outs qs rs n r (length legs)
                \<and> legs = map (\<lambda>k. (qs k, bounded_drain (nr_body (rs k)))) [0..<length legs]
                \<and> list_all drained_in_bounds legs)"
proof (cases "nr_status response \<noteq> 401 \<or> \<not> contains ''negotiate'' (lower (nr_www_authenticate response))")
  case True
  then show ?thesis by (simp add: authenticate_def)
next
  case False
  show ?thesis
  proof (cases "Option.bind app_data client")
    case None
    with False show ?thesis by (simp add: authenticate_def)
  next
    case (Some c)
    define st where "st = (c, w, rq, response, None :: bytes option)"
    have none: "snd (snd (snd (snd st))) = None" and rq: "ex_rq ps st 0 = rq" by (simp_all add: st_def ex_rq_def)
    have auth: "authenticate ps client app_data w rq response = handshake ps c w rq response None []"
      using False Some by (simp add: authenticate_def)
    have start: "ex_cs ps st 0 = c" "ex_ws ps st 0 = w" "ex_rs ps st 0 = response" by (simp_all add: st_def ex_ws_def ex_rs_def)
    have go: "sent_leg ps rq (ex_cs ps st) (ex_outs ps st) (ex_qs ps st) (ex_rs ps st) k
        \<and> answered ps (ex_ws ps st) (ex_qs ps st) (ex_rs ps st) k \<and> challenged (ex_rs ps st (Suc k))"
      if "\<forall>j\<le>k. neg_goes_on ps st j" for k
      using exchange_goes_on [OF none that] rq by simp
    show ?thesis
    proof (cases "handshake ps c w rq response None []")
      case None
      then have "\<forall>k. neg_goes_on ps st k" using handshake_exchange [OF st_def, of ps] by simp
      then have "\<forall>k. sent_leg ps rq (ex_cs ps st) (ex_outs ps st) (ex_qs ps st) (ex_rs ps st) k
          \<and> answered ps (ex_ws ps st) (ex_qs ps st) (ex_rs ps st) k \<and> challenged (ex_rs ps st (Suc k))" using go by blast
      with None start show ?thesis
        unfolding if_not_P [OF False] Some option.case auth
        by (intro exI [of _ "ex_cs ps st"] exI [of _ "ex_ws ps st"] exI [of _ "ex_outs ps st"] exI [of _ "ex_qs ps st"] exI [of _ "ex_rs ps st"] conjI) simp_all
    next
      case (Some p)
      obtain r legs where p: "p = (r, legs)" by (cases p)
      from handshake_exchange [OF st_def, of ps] Some p obtain n where n: "\<forall>k<n. neg_goes_on ps st k"
          "exchange_ends ps rq (ex_cs ps st) (ex_ws ps st) (ex_outs ps st) (ex_qs ps st) (ex_rs ps st) n r (length legs)"
          "legs = map (\<lambda>k. (ex_qs ps st k, bounded_drain (nr_body (ex_rs ps st k)))) [0..<length legs]"
        by auto
      have "\<forall>k<n. sent_leg ps rq (ex_cs ps st) (ex_outs ps st) (ex_qs ps st) (ex_rs ps st) k
          \<and> answered ps (ex_ws ps st) (ex_qs ps st) (ex_rs ps st) k \<and> challenged (ex_rs ps st (Suc k))" using go n(1) by (meson le_less_trans)
      with n(2,3) drained_legs [OF n(3)] Some p start show ?thesis
        unfolding if_not_P [OF False] \<open>Option.bind app_data client = Some c\<close> option.case auth
        by (intro exI [of _ "ex_cs ps st"] exI [of _ "ex_ws ps st"] exI [of _ "ex_outs ps st"] exI [of _ "ex_qs ps st"] exI [of _ "ex_rs ps st"] conjI) auto
    qed
  qed
qed

definition sample_peers :: "(nat, nat) peers" where
  "sample_peers = \<lparr>sp_step = (\<lambda>c _. Some (if c = 0 then None else Some [c], c - 1)),
     cn_send = (\<lambda>w _. Some (\<lparr>nr_status = (if w = 0 then 200 else 401), nr_www_authenticate = ''Negotiate QQ=='', nr_set_cookie = None,
       nr_body = BodyReads 10\<rparr>, w - 1))\<rparr>"

definition sample_challenge :: neg_response where
  "sample_challenge = \<lparr>nr_status = 401, nr_www_authenticate = ''Negotiate'', nr_set_cookie = None, nr_body = BodyBuffered\<rparr>"

definition sample_request :: neg_request where "sample_request = \<lparr>nq_authorization = None, nq_cookie = None\<rparr>"

lemma sample_handshake:
  "\<exists>r legs. authenticate sample_peers (\<lambda>_. Some 2) (Some [1]) 1 sample_request sample_challenge = Some (r, legs) \<and> length legs = 2"
proof -
  have tok: "challenge_token ''Negotiate QQ=='' = Token [65]" by code_simp
  have ask: "contains ''negotiate'' (lower ''Negotiate'')" by code_simp
  show ?thesis
    unfolding authenticate_def handshake.simps [of sample_peers 2] handshake.simps [of sample_peers 1] handshake.simps [of sample_peers 0]
    by (simp add: sample_challenge_def ask) (subst handshake.simps, subst handshake.simps, simp add: sample_peers_def tok Let_def)
qed

theorem negotiate_returns_witness:
  "\<exists>cs ws outs qs rs r n legs. authenticate sample_peers (\<lambda>_. Some 2) (Some [1]) 1 sample_request sample_challenge = Some (r, legs)
     \<and> length legs = 2 \<and> (\<forall>k<n. sent_leg sample_peers sample_request cs outs qs rs k)
     \<and> exchange_ends sample_peers sample_request cs ws outs qs rs n r 2"
proof -
  obtain r legs where a: "authenticate sample_peers (\<lambda>_. Some 2) (Some [1]) 1 sample_request sample_challenge = Some (r, legs)" "length legs = 2"
    using sample_handshake by blast
  have ask: "nr_status sample_challenge = 401" "contains ''negotiate'' (lower (nr_www_authenticate sample_challenge))"
    by code_simp+
  obtain cs ws outs qs rs n where
      "\<forall>k<n. sent_leg sample_peers sample_request cs outs qs rs k \<and> answered sample_peers ws qs rs k \<and> challenged (rs (Suc k))"
      "exchange_ends sample_peers sample_request cs ws outs qs rs n r 2"
    using negotiate_returns [where ps = sample_peers and client = "\<lambda>_. Some 2" and app_data = "Some [1]" and w = 1 and rq = sample_request
      and response = sample_challenge] a ask
    by auto
  with a show ?thesis by blast
qed

end
