(* ===== verification/SyslogHandler.thy ===== *)
theory SyslogHandler
  imports Siem
begin

text \<open>
  The syslog transport (\<open>_getaddrinfo_within\<close> and \<open>_RaisingSysLogHandler\<close> of
  \<open>src/src/acme_adcs_ra/siem.py\<close>), for the address of a host and a port that the emitter gives it. Time is the
  monotonic clock in seconds, as a rational; a resolution and a connection attempt are given by how long they
  would take and how they would end. Waiting with a timeout (\<open>Thread.join\<close>, \<open>settimeout\<close>) ends when
  that has passed.
\<close>

section \<open>Resolution\<close>

datatype transport_error = TimedOut | OtherError string

record 'a resolution =
  rs_takes :: rat
  rs_result :: "string + 'a list"

definition getaddrinfo_within :: "rat \<Rightarrow> rat \<Rightarrow> 'a resolution \<Rightarrow> (transport_error + 'a list) \<times> rat" where
  "getaddrinfo_within deadline now r =
     (let remaining = deadline - now in
      if remaining \<le> 0 then (Inl TimedOut, now)
      else if rs_takes r > remaining then (Inl TimedOut, now + remaining)
      else case rs_result r of
          Inl e \<Rightarrow> (Inl (OtherError e), now + rs_takes r)
        | Inr [] \<Rightarrow> (Inl (OtherError ''empty''), now + rs_takes r)
        | Inr infos \<Rightarrow> (Inr infos, now + rs_takes r))"

section \<open>Connection\<close>

text \<open>\<open>at_error\<close> is what creating or connecting the socket of an address raises in the end, if it does.\<close>

record connect_attempt =
  at_address :: string
  at_takes :: rat
  at_error :: "string option"

fun connect_first :: "rat \<Rightarrow> rat \<Rightarrow> transport_error option \<Rightarrow> connect_attempt list \<Rightarrow> (transport_error + string \<times> rat) \<times> rat" where
  "connect_first deadline now err [] = (Inl (case err of None \<Rightarrow> OtherError ''no address'' | Some e \<Rightarrow> e), now)"
| "connect_first deadline now err (a # as) =
     (let remaining = deadline - now in
      if remaining \<le> 0 then (Inl TimedOut, now)
      else if at_takes a > remaining then connect_first deadline (now + remaining) (Some TimedOut) as
      else case at_error a of
          None \<Rightarrow> (Inr (at_address a, remaining), now + at_takes a)
        | Some e \<Rightarrow> connect_first deadline (now + at_takes a) (Some (OtherError e)) as)"

text \<open>The handler: its deadline, its kind of socket, and the socket with the timeout set on it.\<close>

record syslog_handler =
  sh_send_timeout :: "rat option"
  sh_stream :: bool
  sh_socket :: "(string \<times> rat option) option"

definition apply_send_timeout :: "syslog_handler \<Rightarrow> syslog_handler" where
  "apply_send_timeout h =
     (if sh_send_timeout h = None \<or> \<not> sh_stream h then h
      else h\<lparr>sh_socket := map_option (\<lambda>(a, _). (a, sh_send_timeout h)) (sh_socket h)\<rparr>)"

definition create_stream_socket_within ::
    "rat \<Rightarrow> rat \<Rightarrow> connect_attempt resolution \<Rightarrow> syslog_handler \<Rightarrow> (transport_error + syslog_handler) \<times> rat" where
  "create_stream_socket_within timeout now r h =
     (let deadline = now + timeout in
      case getaddrinfo_within deadline now r of
        (Inl e, t) \<Rightarrow> (Inl e, t)
      | (Inr infos, t) \<Rightarrow>
          (case connect_first deadline t None infos of
             (Inl e, t') \<Rightarrow> (Inl e, t')
           | (Inr (a, limit), t') \<Rightarrow> (Inr (apply_send_timeout (h\<lparr>sh_socket := Some (a, Some limit), sh_stream := True\<rparr>)), t')))"

text \<open>\<open>createSocket\<close>; \<open>stock\<close> is what the standard library's method gives where it is used, with its time.\<close>

definition create_socket ::
    "rat \<Rightarrow> connect_attempt resolution \<Rightarrow> (transport_error + string) \<times> rat \<Rightarrow> syslog_handler \<Rightarrow> (transport_error + syslog_handler) \<times> rat" where
  "create_socket now r stock h =
     (case sh_send_timeout h of
        Some timeout \<Rightarrow>
          if sh_stream h then create_stream_socket_within timeout now r h
          else (case stock of (Inl e, t) \<Rightarrow> (Inl e, t) | (Inr a, t) \<Rightarrow> (Inr (apply_send_timeout (h\<lparr>sh_socket := Some (a, None)\<rparr>)), t))
      | None \<Rightarrow> (case stock of (Inl e, t) \<Rightarrow> (Inl e, t) | (Inr a, t) \<Rightarrow> (Inr (apply_send_timeout (h\<lparr>sh_socket := Some (a, None)\<rparr>)), t)))"

section \<open>Sending\<close>

text \<open>\<open>handleError\<close> drops a stream that failed and raises the error again.\<close>

definition handle_error :: "syslog_handler \<Rightarrow> syslog_handler" where
  "handle_error h = (if sh_stream h then h\<lparr>sh_socket := None\<rparr> else h)"

text \<open>
  \<open>emit\<close>: connect where there is no socket, then send, which takes its time and may fail; a stream with a
  timeout gives up when that has passed.
\<close>

definition emit_event ::
    "rat \<Rightarrow> connect_attempt resolution \<Rightarrow> (transport_error + string) \<times> rat \<Rightarrow> rat \<Rightarrow> string option \<Rightarrow> syslog_handler
       \<Rightarrow> (transport_error option \<times> rat) \<times> syslog_handler" where
  "emit_event now r stock send_takes send_error h =
     (case (if sh_socket h = None then create_socket now r stock h else (Inr h, now)) of
        (Inl e, t) \<Rightarrow> ((Some e, t), handle_error h)
      | (Inr h', t) \<Rightarrow>
          let limit = Option.bind (sh_socket h') snd in
          if sh_stream h' \<and> (case limit of None \<Rightarrow> False | Some l \<Rightarrow> send_takes > l)
          then ((Some TimedOut, t + the limit), handle_error h')
          else (case send_error of
              None \<Rightarrow> ((None, t + send_takes), h')
            | Some e \<Rightarrow> ((Some (OtherError e), t + send_takes), handle_error h')))"

section \<open>Deadlines\<close>

lemma getaddrinfo_in_time:
  assumes "getaddrinfo_within deadline now r = (res, t)" "now \<le> deadline"
  shows "t \<le> deadline"
  using assms by (auto simp: getaddrinfo_within_def Let_def split: if_splits sum.splits list.splits)

lemma connect_first_in_time: "connect_first deadline now err as = (res, t) \<Longrightarrow> now \<le> deadline \<Longrightarrow> t \<le> deadline"
  by (induction deadline now err as rule: connect_first.induct) (auto simp: Let_def split: if_splits option.splits)

lemma connect_first_address:
  "connect_first deadline now err as = (Inr (a, limit), t) \<Longrightarrow> \<exists>c \<in> set as. at_address c = a \<and> at_error c = None"
  by (induction deadline now err as rule: connect_first.induct) (auto simp: Let_def split: if_splits option.splits)

lemma create_stream_socket_ok:
  assumes "create_stream_socket_within timeout now r h = (Inr h', t)" "sh_send_timeout h = Some timeout"
  shows "sh_send_timeout h' = Some timeout \<and> sh_stream h'
    \<and> (\<exists>a infos. sh_socket h' = Some (a, Some timeout) \<and> rs_result r = Inr infos \<and> a \<in> at_address ` set infos)"
proof -
  obtain infos t1 where g: "getaddrinfo_within (now + timeout) now r = (Inr infos, t1)"
    and "\<exists>a limit. connect_first (now + timeout) t1 None infos = (Inr (a, limit), t)
        \<and> h' = apply_send_timeout (h\<lparr>sh_socket := Some (a, Some limit), sh_stream := True\<rparr>)"
    using assms(1) by (auto simp: create_stream_socket_within_def Let_def split: prod.splits sum.splits)
  then obtain a limit where a: "connect_first (now + timeout) t1 None infos = (Inr (a, limit), t)"
      "h' = apply_send_timeout (h\<lparr>sh_socket := Some (a, Some limit), sh_stream := True\<rparr>)" by blast
  have "rs_result r = Inr infos" using g by (auto simp: getaddrinfo_within_def Let_def split: if_splits sum.splits list.splits)
  with connect_first_address [OF a(1)] a(2) assms(2) show ?thesis by (auto simp: apply_send_timeout_def)
qed

lemma create_stream_socket_in_time:
  assumes "create_stream_socket_within timeout now r h = (res, t)" "0 \<le> timeout"
  shows "t \<le> now + timeout"
proof (cases "getaddrinfo_within (now + timeout) now r")
  case (Pair g t1)
  with getaddrinfo_in_time [OF Pair] assms(2) have t1: "t1 \<le> now + timeout" by simp
  show ?thesis
  proof (cases g)
    case (Inl e)
    with Pair assms(1) t1 show ?thesis by (simp add: create_stream_socket_within_def Let_def)
  next
    case (Inr infos)
    with Pair assms(1) connect_first_in_time [OF _ t1, of None infos] show ?thesis
      by (auto simp: create_stream_socket_within_def Let_def split: prod.splits sum.splits)
  qed
qed

text \<open>The handlers of a TCP sink: constructed without or with a connection, and after any emissions.\<close>

inductive syslog_life :: "rat \<Rightarrow> syslog_handler \<Rightarrow> bool" for timeout where
  life_new: "syslog_life timeout \<lparr>sh_send_timeout = Some timeout, sh_stream = True, sh_socket = None\<rparr>"
| life_connect: "syslog_life timeout h \<Longrightarrow> fst (create_socket now r stock h) = Inr h' \<Longrightarrow> syslog_life timeout h'"
| life_emit: "syslog_life timeout h \<Longrightarrow> syslog_life timeout (snd (emit_event now r stock send_takes send_error h))"

definition tcp_handler :: "rat \<Rightarrow> syslog_handler \<Rightarrow> bool" where
  "tcp_handler timeout h \<longleftrightarrow> sh_send_timeout h = Some timeout \<and> sh_stream h
     \<and> (case sh_socket h of None \<Rightarrow> True | Some (_, limit) \<Rightarrow> limit = Some timeout)"

lemma create_socket_tcp:
  assumes "tcp_handler timeout h"
  shows "create_socket now r stock h = create_stream_socket_within timeout now r h"
  using assms by (simp add: create_socket_def tcp_handler_def)

lemma created_tcp:
  assumes "tcp_handler timeout h" "create_stream_socket_within timeout now r h = (Inr h', t)"
  shows "tcp_handler timeout h'" "sh_socket h' \<noteq> None"
  using create_stream_socket_ok [OF assms(2)] assms(1) by (auto simp: tcp_handler_def)

lemma handle_error_tcp: "tcp_handler timeout h \<Longrightarrow> tcp_handler timeout (handle_error h) \<and> sh_socket (handle_error h) = None"
  by (simp add: tcp_handler_def handle_error_def)

lemma emit_tcp:
  assumes h: "tcp_handler timeout h" and pos: "0 \<le> timeout"
    and emit: "emit_event now r stock send_takes send_error h = ((err, t), h')"
  shows "tcp_handler timeout h'" "t \<le> now + 2 * timeout" "err \<noteq> None \<Longrightarrow> sh_socket h' = None"
    "err = None \<Longrightarrow> send_error = None \<and> sh_socket h' \<noteq> None"
proof -
  let ?c = "if sh_socket h = None then create_socket now r stock h else (Inr h, now)"
  obtain res t1 where c: "?c = (res, t1)" by (cases ?c)
  have t1: "t1 \<le> now + timeout"
    using c pos create_stream_socket_in_time [of timeout now r h] by (auto simp: create_socket_tcp [OF h] split: if_splits)
  have goal: "tcp_handler timeout h' \<and> t \<le> now + 2 * timeout \<and> (err \<noteq> None \<longrightarrow> sh_socket h' = None)
      \<and> (err = None \<longrightarrow> send_error = None \<and> sh_socket h' \<noteq> None)"
  proof (cases res)
    case (Inl e)
    then have "err = Some e" "t = t1" "h' = handle_error h" using emit c by (auto simp: emit_event_def)
    with t1 pos handle_error_tcp [OF h] show ?thesis by simp
  next
    case (Inr h1)
    with c have h1: "tcp_handler timeout h1 \<and> sh_socket h1 \<noteq> None"
      using h created_tcp [OF h, of now r h1 t1] by (auto simp: create_socket_tcp [OF h] split: if_splits)
    then have limit: "Option.bind (sh_socket h1) snd = Some timeout" "sh_stream h1"
      by (auto simp: tcp_handler_def split: option.splits)
    have "emit_event now r stock send_takes send_error h =
        (if send_takes > timeout then ((Some TimedOut, t1 + timeout), handle_error h1)
         else case send_error of None \<Rightarrow> ((None, t1 + send_takes), h1) | Some e \<Rightarrow> ((Some (OtherError e), t1 + send_takes), handle_error h1))"
      unfolding emit_event_def c Inr by (simp add: limit)
    with emit t1 h1 handle_error_tcp [of timeout h1] show ?thesis by (auto split: if_splits option.splits)
  qed
  from goal show "tcp_handler timeout h'" "t \<le> now + 2 * timeout" "err \<noteq> None \<Longrightarrow> sh_socket h' = None"
    "err = None \<Longrightarrow> send_error = None \<and> sh_socket h' \<noteq> None" by blast+
qed

lemma syslog_life_tcp: "syslog_life timeout h \<Longrightarrow> 0 \<le> timeout \<Longrightarrow> tcp_handler timeout h"
proof (induction rule: syslog_life.induct)
  case life_new
  show ?case by (simp add: tcp_handler_def)
next
  case (life_connect h now r stock h')
  then have h: "tcp_handler timeout h" by blast
  obtain t where "create_stream_socket_within timeout now r h = (Inr h', t)"
    using life_connect.hyps(2) by (cases "create_stream_socket_within timeout now r h") (simp add: create_socket_tcp [OF h])
  with h show ?case by (rule created_tcp)
next
  case (life_emit h now r stock send_takes send_error)
  then have h: "tcp_handler timeout h" "0 \<le> timeout" by blast+
  show ?case using emit_tcp(1) [OF h] by (metis prod.collapse)
qed

text \<open>
  C29. Talking to a TCP collector is bounded and honest: whatever the resolver, the addresses and the collector do, and after
  any earlier emissions, an emission ends within twice the configured timeout, one for resolution with all
  connection attempts together and one for the send; it reports no error only when the send succeeded
  on a socket, and after an error the socket is gone, so that the next emission connects anew.
\<close>

theorem syslog_emission_bounded:
  assumes "syslog_life timeout h" "0 \<le> timeout" "emit_event now r stock send_takes send_error h = ((err, t), h')"
  shows "t \<le> now + 2 * timeout \<and> (err = None \<longrightarrow> send_error = None \<and> sh_socket h' \<noteq> None)
    \<and> (err \<noteq> None \<longrightarrow> sh_socket h' = None)"
  using emit_tcp(2-4) [OF syslog_life_tcp [OF assms(1,2)] assms(2,3)] by blast

theorem syslog_emission_bounded_witness:
  "fst (fst (emit_event 0 \<lparr>rs_takes = 1, rs_result = Inr [\<lparr>at_address = ''a'', at_takes = 9, at_error = None\<rparr>]\<rparr> (Inl TimedOut, 0) 1 None
     \<lparr>sh_send_timeout = Some 5, sh_stream = True, sh_socket = None\<rparr>)) = Some TimedOut
   \<and> snd (fst (emit_event 0 \<lparr>rs_takes = 1, rs_result = Inr [\<lparr>at_address = ''a'', at_takes = 9, at_error = None\<rparr>]\<rparr> (Inl TimedOut, 0) 1 None
     \<lparr>sh_send_timeout = Some 5, sh_stream = True, sh_socket = None\<rparr>)) \<le> 10"
proof -
  let ?e = "emit_event 0 \<lparr>rs_takes = 1, rs_result = Inr [\<lparr>at_address = ''a'', at_takes = 9, at_error = None\<rparr>]\<rparr> (Inl TimedOut, 0) 1 None
     \<lparr>sh_send_timeout = Some 5, sh_stream = True, sh_socket = None\<rparr>"
  have "fst (fst ?e) = Some TimedOut"
    by (simp add: emit_event_def create_socket_def create_stream_socket_within_def getaddrinfo_within_def)
  moreover have "snd (fst ?e) \<le> 10"
    using syslog_emission_bounded [OF life_new, of 5 0 _ _ 1 None "fst (fst ?e)" "snd (fst ?e)" "snd ?e"] by simp
  ultimately show ?thesis by blast
qed

end
