(* ===== verification/IssuanceTrace.thy ===== *)
theory IssuanceTrace
  imports FinalizeSafety EnrollmentLeg
begin

text \<open>
  The enrollment leg under the finalize handler: what the store holds of a request the CA has issued. The
  number of the request is in the metadata of a stored certificate or in the details of an audit
  row, where the bounds of the audit log do not cut it.
\<close>

section \<open>The number survives the audit bounds\<close>

lemma length_esc_char: "length (esc_char c) \<le> 6"
  by (simp add: esc_char_def Let_def)

lemma length_dump_str: "length (dump_str s) \<le> 6 * length s + 2"
proof -
  have "sum_list (map (\<lambda>c. length (esc_char c)) s) \<le> length s * 6"
    by (rule sum_list_le) (simp add: length_esc_char)
  then show ?thesis by (simp add: dump_str_def length_concat comp_def)
qed

lemma bound_short: "length s \<le> 256 \<Longrightarrow> bound_value digest 256 0 (JStr s) = JStr s"
  by (simp add: bound_value.simps)

lemma bound_text_length:
  assumes "length s < 10 ^ 20" "\<And>s. length (digest s) \<le> 64"
  shows "\<exists>t. bound_value digest 256 0 (JStr s) = JStr t \<and> length t \<le> 371"
proof (cases "length s \<le> 256")
  case True
  then show ?thesis by (simp add: bound_short)
next
  case False
  have "length (show_nat (length s)) \<le> Suc 19" using assms(1) by (intro length_show_nat) simp
  then show ?thesis using False assms(2) [of s] by (subst bound_value.simps) simp
qed

lemma bound_orphan_details:
  assumes "length error < 10 ^ 20" "\<And>s. length (digest s) \<le> 64" "length i \<le> 256" "length v \<le> 256" "length (dump_str v) \<le> 110" "length (dump_str k) \<le> 20"
  shows "map_of (bound_details digest max_value_chars max_details_chars
      (Some ([(''error'', JStr error), (''ca_issued'', JBool True), (''req_id'', JStr i), (''quarantined'', JBool False)] @ [(k, JStr v)])))
      ''req_id'' = Some (JStr i)"
proof -
  obtain t where t: "bound_value digest 256 0 (JStr error) = JStr t" "length t \<le> 371"
    using bound_text_length [of error digest, OF assms(1,2)] by blast
  let ?d = "[(''error'', JStr t), (''ca_issued'', JBool True), (''req_id'', JStr i), (''quarantined'', JBool False), (k, JStr v)]"
  have keys: "length (dump_str ''error'') = 7" "length (dump_str ''ca_issued'') = 11" "length (dump_str ''req_id'') = 8"
      "length (dump_str ''quarantined'') = 13"
    by code_simp+
  have "serialized_length ?d \<le> 4096"
    using length_dump_str [of t] length_dump_str [of i] t(2) assms(3-6)
    by (simp add: length_dump_obj keys)
  moreover have "bound_value digest 256 0 (JBool b) = JBool b" for b by (simp add: bound_value.simps max_depth_def)
  ultimately show ?thesis
    using t(1) assms(3,4) by (simp add: bound_details_def max_value_chars_def max_details_chars_def bound_short Let_def)
qed

section \<open>The trace of an issued request\<close>

definition request_traced :: "string \<Rightarrow> db \<Rightarrow> bool" where
  "request_traced i s \<longleftrightarrow>
     list_ex (\<lambda>c. cert_status c = CertQUARANTINED \<and> map_of (cert_metadata c) ''req_id'' = Some i) (certificates s)
     \<or> list_ex (\<lambda>e. aud_event_type e = ''finalize-enrollment-transport-orphan'' \<and> map_of (aud_details e) ''req_id'' = Some (JStr i)) (audit_log s)"

lemma audit_traces:
  assumes "length error < 10 ^ 20" "\<And>s. length (x_digest (en_ext en) s) \<le> 64" "length i \<le> 256" "length v \<le> 256" "length (dump_str v) \<le> 110" "length (dump_str k) \<le> 20"
  shows "request_traced i (sv_db (audit en (finalize_audit ''finalize-enrollment-transport-orphan'' aid oid sans tmpl ''failed''
      ([(''error'', JStr error), (''ca_issued'', JBool True), (''req_id'', JStr i), (''quarantined'', JBool False)] @ [(k, JStr v)])) sv))"
proof -
  have "''finalize-enrollment-transport-orphan'' \<notin> set COALESCED_EVENT_TYPES" by (simp add: COALESCED_EVENT_TYPES_def)
  then show ?thesis
    using bound_orphan_details [of error "x_digest (en_ext en)" i v k, OF assms]
    by (simp add: audit_plain finalize_audit_def record_audit_def record_audit_in_conn_def Let_def request_traced_def)
qed

lemma quarantine_metadata:
  assumes "quarantine_certificate x now cid is et viol why sans extra s = (Inr (row, ev), s')"
  shows "row \<in> set (certificates s') \<and> cert_metadata row = is_metadata is \<and> cert_status row = CertQUARANTINED"
  using assms
  by (auto simp: quarantine_certificate_def with_conn_def put_certificate_ok record_audit_in_conn_def new_cert_row_def upd_orders_def Let_def
      split: sum.splits)

lemma traced_kept:
  assumes "request_traced i (sv_db sv)"
  shows "request_traced i (sv_db (snd (hbind (on_db (transition_processing_to_invalid now oid gen))
    (\<lambda>_. hbind (refresh_order_or_500 oid) (\<lambda>order. ret (f order))) sv)))"
proof -
  let ?s = "snd (transition_processing_to_invalid now oid gen (sv_db sv))"
  have "certificates ?s = certificates (sv_db sv)" "audit_log ?s = audit_log (sv_db sv)"
    by (simp_all add: transition_processing_to_invalid_def cas_orders_def upd_orders_def Let_def)
  with assms have "request_traced i ?s" by (simp add: request_traced_def)
  then show ?thesis
    by (simp add: hbind_def on_db_def refresh_order_or_500_def ret_def raising_def case_prod_beta Let_def split: option.split)
qed

text \<open>A submission accounts for a request: it leaves its number, or the audit row cannot be written and it raises that.\<close>

definition accounted :: "env \<Rightarrow> string \<Rightarrow> db \<Rightarrow> (fault + 'a) \<times> server \<Rightarrow> bool" where
  "accounted en i s out \<longleftrightarrow> request_traced i (sv_db (snd out))
     \<or> (\<exists>e. en_audit_fault en = Some e \<and> fst out = Inl e \<and> sv_db (snd out) = s)"

lemma audit_orphan_accounted:
  assumes "\<And>sv. request_traced i (sv_db (audit en args sv))"
    "\<And>sv. request_traced i (sv_db sv) \<Longrightarrow> request_traced i (sv_db (snd (f () sv)))"
  shows "accounted en i (sv_db sv) (hbind (audit_orphan en args) f sv)"
  using assms by (cases "en_audit_fault en") (simp_all add: accounted_def audit_orphan_def audited_def hbind_def)

lemma quarantine_or_audit_accounted:
  assumes "is_metadata is = [(''req_id'', i)]" "\<And>sv. request_traced i (sv_db (audit en fallback sv))"
    "\<And>sv. request_traced i (sv_db sv) \<Longrightarrow> request_traced i (sv_db (snd (f () sv)))"
  shows "accounted en i (sv_db sv) (hbind (quarantine_or_audit en cid is et viol why sans extra fallback) f sv)"
proof (cases "en_quarantine_fault en")
  case (Some e)
  then show ?thesis using audit_orphan_accounted [of i en fallback f sv] assms(2,3) by (simp add: quarantine_or_audit_def hbind_def)
next
  case None
  show ?thesis
  proof (cases rule: quarantine_cases [of "en_ext en" "en_now en" cid "is" et viol why sans extra "sv_db sv"])
    case (failed e)
    then show ?thesis
      using None audit_orphan_accounted [of i en fallback f sv] assms(2,3) by (simp add: quarantine_or_audit_def hbind_def)
  next
    case (stored row ev s1 s2 au)
    define s' where "s' = snd (quarantine_certificate (en_ext en) (en_now en) cid is et viol why sans extra (sv_db sv))"
    have q: "quarantine_certificate (en_ext en) (en_now en) cid is et viol why sans extra (sv_db sv) = (Inr (row, ev), s')"
      using stored by (simp add: s'_def)
    have "request_traced i s'"
      using quarantine_metadata [OF q] assms(1) by (auto simp: request_traced_def list_ex_iff)
    with None q assms(3) [of "sv\<lparr>sv_db := s'\<rparr>"] show ?thesis by (simp add: quarantine_or_audit_def hbind_def accounted_def)
  qed
qed

lemma orphan_accounted:
  assumes "te_req_id te = Some i" "length i \<le> 256" "length (te_text te) < 10 ^ 20" "\<And>s. length (x_digest (en_ext en) s) \<le> 64"
  shows "accounted en i (sv_db sv) (quarantine_transport_orphan en cid oid aid ap te g sv)"
proof -
  have keys: "length (dump_str ''quarantine_error'') \<le> 20" "length (dump_str ''reason'') \<le> 20"
      "length (dump_str ''see logs'') \<le> 110"
      "length (dump_str ''the CA issued but the RA never received the certificate bytes; revoke by ReqID at the CA manually'') \<le> 110"
    by code_simp+
  note audits = audit_traces [OF assms(3,4,2)]
  show ?thesis
  proof (cases "te_cert_pem te")
    case None
    show ?thesis
      unfolding quarantine_transport_orphan_def Let_def None option.case assms(1) json_opt_def
      by (rule audit_orphan_accounted [OF audits traced_kept]) (simp_all add: keys)
  next
    case (Some pem)
    have fallback: "request_traced i (sv_db (audit en (finalize_audit ''finalize-enrollment-transport-orphan'' aid oid (ap_sans ap)
        (template (ap_decision ap)) ''failed'' ([(''error'', JStr (te_text te)), (''ca_issued'', JBool True), (''req_id'', JStr i),
          (''quarantined'', JBool False)] @ [(''quarantine_error'', JStr ''see logs'')])) sv))" for sv
      by (rule audits) (simp_all add: keys)
    show ?thesis
      unfolding quarantine_transport_orphan_def Let_def Some option.case assms(1) json_opt_def
      by (rule quarantine_or_audit_accounted [OF _ fallback traced_kept]) simp_all
  qed
qed

section \<open>The leg under the handler\<close>

lemma transport_text:
  assumes "submit_csr lib leg windows requester ses csr_text sans = CaTransport te"
  shows "te_text te \<in> insert (ll_other_text lib) (range (ll_text lib))"
  using assms
  by (auto simp: submit_csr_def handle_exception_def transport_of_def split: if_splits option.splits prod.splits sum.splits leg_exception.splits)

lemma submission_traced:
  assumes "may_submit en cfg oid aid tp g (sv_db sv)" "length i \<le> 256" "\<And>s. length (x_digest (en_ext en) s) \<le> 64"
    "case answer of CaIssued r \<Rightarrow> P r | CaTransport te \<Rightarrow> te_ca_issued te \<and> te_req_id te = Some i \<and> length (te_text te) < 10 ^ 20 | _ \<Rightarrow> False"
    "finalize_submit_enrollment en cfg cid oid aid tp ap g answer sv = (r, sv')"
  shows "case r of Inr (Inl res) \<Rightarrow> P res
    | _ \<Rightarrow> request_traced i (sv_db sv') \<or> (\<exists>e. en_audit_fault en = Some e \<and> r = Inl e \<and> sv_db sv' = sv_db sv)"
proof -
  have called: "submit_enrollment_inner en cid oid aid ap g answer sv = (r, sv')"
    using assms(5) by (cases rule: submit_cases [of en cfg oid aid tp g sv cid ap answer]) (use assms(1) in auto)
  let ?sv = "sv\<lparr>sv_ca := sv_ca sv @ [(oid, g)]\<rparr>"
  show ?thesis
  proof (cases answer)
    case (CaTransport te)
    with assms(4) have te: "te_ca_issued te" "te_req_id te = Some i" "length (te_text te) < 10 ^ 20" by auto
    obtain q sv1 where q: "quarantine_transport_orphan en cid oid aid ap te g ?sv = (q, sv1)" by (metis surj_pair)
    have "accounted en i (sv_db ?sv) (q, sv1)"
      using orphan_accounted [OF te(2) assms(2) te(3) assms(3), of ?sv cid oid aid ap g] by (simp add: q)
    moreover have "r = (case q of Inl e \<Rightarrow> Inl e | Inr v \<Rightarrow> Inr (Inr v))" "sv' = sv1"
      using called unfolding submit_enrollment_inner_def CaTransport
      by (simp_all add: te(1) hbind_def q ret_def split: sum.splits)
    ultimately show ?thesis by (auto simp: accounted_def split: sum.splits)
  qed (use assms(4) called in \<open>auto simp: submit_enrollment_inner_def ret_def\<close>)
qed

lemma transport_not_handed_on:
  assumes "may_submit en cfg oid aid tp g (sv_db sv)"
  shows "finalize_submit_enrollment en cfg cid oid aid tp ap g (CaTransport te) sv \<noteq> (Inr (Inl res), sv')"
proof (cases rule: submit_cases [of en cfg oid aid tp g sv cid ap "CaTransport te"])
  case called
  then show ?thesis
    by (auto simp: submit_enrollment_inner_def Let_def hbind_eq_Inr ret_def split: if_splits)
qed (use assms in auto)

end
