(* ===== verification/Spec2Isabelle.thy ===== *)
theory Spec2Isabelle
  imports Policy AcmeErrors CsrValidation AuditBounds Jwk StoreSteps AuditCoalesce AppState Finalize FinalizeSafety
    EnrollmentPool OrderSafety RevocationRoutes NonceServer IssuerRecovery CrlFetch CrlEvidence CrlGate AdminRoutes AdminSafety AuditRetention EnrollmentLeg EnrollmentGate Siem Startup Migrations Reconciliation CrlPublication Negotiate SyslogHandler IssuanceTrace
begin

text \<open>
  A verification library for \<open>acme-adcs-ra\<close>, an ACME (RFC 8555) registration authority in front of an
  Active Directory certification authority. File names below are relative to \<open>src/src/acme_adcs_ra/\<close> unless they
  start with \<open>src/\<close>.

  \<^bold>\<open>The program.\<close> An ACME client registers an account under a pre-shared external account credential, places
  orders for DNS names, and finalizes them with a certificate request. The server verifies each request as a flattened
  JWS with a single-use nonce, decides by the SAN scope of the credential, submits the request to the CA through a
  web-enrollment leg, verifies what the CA returned against the order and the policy, and records it in a SQLite store
  together with an audit row. Revocations are recorded locally and confirmed, by an operator or an agent, against a CRL the
  CA signed. All state that survives a request is the store; everything else is in the context of the server.

  \<^bold>\<open>Layers and theories.\<close> Each theory names the files and functions it models in its opening text.

  \<^item> \<open>Prelude\<close>: text operations of Python, the result type \<open>error + value\<close> with its bind, transactions over a
    state (\<open>with_conn\<close>: a transaction that raises leaves the state as it was), and tables as lists of rows.
  \<^item> Pure rules. \<open>Policy\<close> (\<open>policy.py\<close>): DNS names, scope patterns, the decision. \<open>AcmeErrors\<close> (\<open>acme_errors.py\<close>).
    \<open>CsrValidation\<close> (\<open>csr_validation.py\<close>, \<open>issued_certificate_validation.py\<close>). \<open>AuditBounds\<close> (\<open>audit_bounds.py\<close>).
    \<open>Jwk\<close> and \<open>Jws\<close> (\<open>jws.py\<close>). \<open>RateLimit\<close> (\<open>rate_limit.py\<close>). \<open>HttpRequest\<close> and \<open>UrlBinding\<close>
    (\<open>http_body.py\<close>, \<open>server_jws.py\<close>).
  \<^item> The store (\<open>store.py\<close>): \<open>StoreBase\<close> has the tables as records in the record \<open>db\<close> and the audit insert;
    \<open>StoreAccounts\<close>, \<open>StoreNonces\<close>, \<open>StoreOrders\<close>, \<open>StoreCertificates\<close>, \<open>CrlWatermark\<close> have one definition per
    operation, each a function of the state that returns its result and the new state; \<open>Migrations\<close> has what runs when a
    store is opened; \<open>StoreSteps\<close> makes every public operation one step of a relation \<open>store_step\<close>, with the
    invariants of all reachable states.
  \<^item> The server context: \<open>AppState\<close> (\<open>app_state.py\<close>) is the record \<open>server\<close> around the store, with the handler
    monad of the routes; \<open>AuditCoalesce\<close> (\<open>audit_coalesce.py\<close>), \<open>AuditRetention\<close> (\<open>audit_retention.py\<close>),
    \<open>Siem\<close> and \<open>SyslogHandler\<close> (\<open>siem.py\<close>). \<open>Samples\<close> has the concrete states of the witnesses.
  \<^item> The routes: \<open>ServerJws\<close> (\<open>server_jws.py\<close>) authenticates, \<open>AccountRoutes\<close> (\<open>routes/accounts.py\<close>,
    \<open>routes/key_change.py\<close>), \<open>OrderRoutes\<close> (\<open>routes/orders.py\<close>, \<open>routes/authorizations.py\<close>,
    \<open>routes/certificates.py\<close>), \<open>RevocationRoutes\<close> (\<open>routes/revocation.py\<close>, \<open>revocation.py\<close>), \<open>AdminRoutes\<close>
    (\<open>routes/admin.py\<close>), \<open>NonceServer\<close> (\<open>routes/directory.py\<close>, the middleware and problem handler of \<open>server.py\<close>).
    A route is a function of the environment, the request and the server that returns a response or a problem and the
    new server.
  \<^item> Issuance: \<open>Finalize\<close> (\<open>finalize.py\<close> and the route of \<open>routes/orders.py\<close>), in which the answer of the CA is an
    argument; \<open>EnrollmentPool\<close> runs any number of finalize calls interleaved at their suspension points.
    \<open>Certfnsh\<close>, \<open>EnrollmentLeg\<close> and \<open>EnrollmentGate\<close> (\<open>enrollment.py\<close>) are the leg that computes that answer
    from HTTP exchanges, the reading of its pages, and the bounded pool it runs on; \<open>Negotiate\<close>
    (\<open>negotiate_auth.py\<close>) is how its exchanges are authenticated.
  \<^item> Revocation evidence: \<open>CrlFetch\<close>, \<open>CrlEvidence\<close>, \<open>CrlGate\<close> (\<open>crl_evidence.py\<close>) and \<open>IssuerRecovery\<close>
    (\<open>issuer_recovery.py\<close>) in the server; beside it \<open>Reconciliation\<close> (\<open>src/scripts/reconcile_revocation.py\<close>), which
    compares the store with an export of the CA, and \<open>CrlPublication\<close> (\<open>src/scripts/verify_crl_publication.py\<close>), which
    checks that revocations were published.
  \<^item> The start: \<open>Configuration\<close> (\<open>config.py\<close>, \<open>eab_kid_floor.py\<close>) and \<open>Startup\<close> (\<open>__main__.py\<close>, the gates of
    \<open>create_app\<close> in \<open>server.py\<close>).

  \<^bold>\<open>What is shown.\<close>

  \<^item> Issuance is authorized, from the wire to the CA (\<open>OrderSafety\<close>, \<open>FinalizeSafety\<close>): the CA is called only for the
    authenticated owner of a ready, unexpired order, for a request that policy allows, once per lease; what comes back
    is served only if it is honourable, whichever writes of the store fail, and what is not is quarantined or audited as
    long as one of the two can be written; a certificate that cannot be recorded halts issuance. Under every interleaving
    the submissions of an order carry strictly increasing leases (\<open>EnrollmentPool\<close>), which rests on the fact that a
    lapsed lease never holds again (\<open>StoreSteps\<close>).
  \<^item> The leg loses nothing: after the CA has issued, every failure carries the request number, with the exception of the
    deadline check that precedes its recording; a result belongs to its request (\<open>EnrollmentLeg\<close>); a page is read as
    issued exactly for a download link outside scripts and comments (\<open>Certfnsh\<close>); admitted work is never
    cancelled and is returned, also when the gate closes (\<open>EnrollmentGate\<close>, with the queue and the workers of its executor);
    authentication is exactly the exchange between security context and server, and lasts for ever only if both
    do (\<open>Negotiate\<close>).
    \<open>IssuanceTrace\<close> puts the leg under the handler, and the theorem at the end of this theory follows the number of an
    issued request into the store, or into the error of a store that cannot be written.
  \<^item> Requests are authentic and accepted once (\<open>ServerJws\<close>); accounts need a binding and key changes both keys
    (\<open>AccountSafety\<close>); nonces come back and are bounded (\<open>NonceServer\<close>).
  \<^item> The store: keys, indexes, audit numbering, the life of orders and certificates over all sequences of operations
    (\<open>StoreSteps\<close>), atomic issuance records (\<open>StoreCertificates\<close>), opening (\<open>Migrations\<close>).
  \<^item> Revocation: containment (\<open>RevocationRoutes\<close>), exactness of the CRL judgement (\<open>CrlEvidence\<close>), confinement of the
    retrieval (\<open>CrlFetch\<close>), one retrieval per certificate (\<open>CrlGate\<close>), confirmation by proof and guarded maintenance
    (\<open>AdminSafety\<close>), verified recovery (\<open>IssuerRecovery\<close>); and what the verdicts of the two operator tools prove, as
    equivalences (\<open>Reconciliation\<close>, \<open>CrlPublication\<close>).
  \<^item> Audit: bounds, coalescing, retention above the life of certificates, exact accounting of emission over
    every interleaving of exports, workers and the steps of closing, a mirror that holds a suffix of the log, and a transport that is bounded in time and reports its failures.
  \<^item> Configuration and start: the accepted configurations are characterized, and a started server keeps the floors.

  \<^bold>\<open>Interfaces.\<close> \<open>handler_frame\<close> (\<open>AppState\<close>) states what relation a handler keeps between the servers before and after
  it, closed under the combinators of the handler monad; it is interpreted on runs of store operations, on the
  preservation of rows and on the shrinking of nonces. \<open>single_use\<close> (\<open>StoreNonces\<close>) is the contract of a token that is
  redeemed once, interpreted on the nonce table and again on authenticated requests. \<open>lease_machine\<close> (\<open>StoreSteps\<close>) is the
  contract of the processing lease, interpreted on the store. \<open>revocation_leg\<close> (\<open>RevocationRoutes\<close>) is the contract of a
  leg, interpreted on the fixture leg and on the certsrv leg.

  \<^bold>\<open>Conventions.\<close> A character stands for a code point below 256, so texts of the program outside that range are not
  modelled. Timestamps of rows are integral seconds, the clock of a request is integral microseconds, rates and timeouts
  are rationals: rounding of floats is not modelled. Integers of Python are \<open>int\<close> or \<open>nat\<close>. JSON values have no
  floats. What a random source, a clock, the network, the file system or a library of X.509, signatures or MACs answers
  is an argument; what the code relies on of it is a hypothesis of the theorem that needs it. An exception is a
  value. Faults of the disk are modelled at the three writes that follow an issuance (its record, the quarantine, the audit row
  that replaces the quarantine), where the code handles them; elsewhere a store operation raises only what its own
  transaction raises. A transaction or a handler that raises says in the model what it leaves behind. Locks of the program
  make an operation one step. No definition uses fuel: loops are structural recursion on the data or on the
  program's own counter (redirects, turns of a drain, depth of a chain). The one loop with no bound of its own, the
  authentication handshake, is a partial function, and when it returns is part of its theorem.

  \<^bold>\<open>Not modelled.\<close> Reading the environment into the configuration is the work of pydantic; routing, the lifespan tasks and
  the server loop that of FastAPI and uvicorn. SSPI behind the authentication is a parameter. The threads that close a
  socket at a deadline are modelled by their effect, a read that ends late. The text of log lines, of problem details
  and of operator messages, and the constant-time dummy MAC are not modelled. The remaining scripts under
  \<open>src/scripts/\<close> (minting of credentials, gates on the repository, a sampler of CRL ages), the interoperability harness
  and the laboratory spike are outside the server.
\<close>

section \<open>From the page of the CA to the store\<close>

text \<open>
  C3. An issued request is accounted for from the page of the CA to the store, once the leg has taken the number from the
  page: when the handler submits under its lease and the leg has read, within its deadline, a page that says issued
  with a number, the submission either hands on the certificate fetched under that number, with the number,
  or leaves the number in the store, with the quarantined certificate or in the audit row of the
  orphan. The exception is a store on which that audit row cannot be written: its error is then raised and the
  database is as it was. (What happens to a page that arrives after the deadline is shown in \<open>EnrollmentLeg\<close>.)
\<close>

theorem issued_request_accounted:
  assumes "may_submit en cfg oid aid tp g (sv_db sv)" "windows \<or> le_injected leg"
    "read_disposition lib leg ses csr_text = Inr (Issued i)" "length i \<le> 256"
    "\<And>f. length (ll_text lib f) < 10 ^ 20" "length (ll_other_text lib) < 10 ^ 20" "\<And>s. length (x_digest (en_ext en) s) \<le> 64"
    "finalize_submit_enrollment en cfg cid oid aid tp ap g (submit_csr lib leg windows requester (Some ses) csr_text sans) sv = (r, sv')"
  shows "case r of
      Inr (Inl res) \<Rightarrow> (''req_id'', i) \<in> set (er_metadata res) \<and> fetch_certificate lib leg ses i = Inr (er_cert_pem res)
    | _ \<Rightarrow> request_traced i (sv_db sv') \<or> (\<exists>e. en_audit_fault en = Some e \<and> r = Inl e \<and> sv_db sv' = sv_db sv)"
proof (rule submission_traced [OF assms(1,4,7) _ assms(8)])
  let ?answer = "submit_csr lib leg windows requester (Some ses) csr_text sans"
  have "length (te_text te) < 10 ^ 20" if "?answer = CaTransport te" for te
    using transport_text [OF that] assms(5,6) by auto
  with issued_request_carried [OF assms(2,3), of requester sans]
  show "case ?answer of CaIssued r \<Rightarrow> (''req_id'', i) \<in> set (er_metadata r) \<and> fetch_certificate lib leg ses i = Inr (er_cert_pem r)
      | CaTransport te \<Rightarrow> te_ca_issued te \<and> te_req_id te = Some i \<and> length (te_text te) < 10 ^ 20 | _ \<Rightarrow> False"
    by (auto split: enroll_answer.splits)
qed

theorem issued_request_accounted_witness:
  "request_traced ''7'' (sv_db (snd (finalize_submit_enrollment sample_env sample_cfg ''c'' ''o1'' ''a'' [] sample_ap 1
     (submit_csr sample_leg_lib sample_leg True ''r'' (Some (sample_session prompt tardy)) ''csr'' [''h.example''])
     (signed_server\<lparr>sv_db := snd (acquire_processing_lease 0 ''o1'' (sv_db signed_server))\<rparr>))))"
proof -
  let ?sv = "signed_server\<lparr>sv_db := snd (acquire_processing_lease 0 ''o1'' (sv_db signed_server))\<rparr>"
  let ?answer = "submit_csr sample_leg_lib sample_leg True ''r'' (Some (sample_session prompt tardy)) ''csr'' [''h.example'']"
  obtain r sv' where r: "finalize_submit_enrollment sample_env sample_cfg ''c'' ''o1'' ''a'' [] sample_ap 1 ?answer ?sv = (r, sv')"
    by (metis surj_pair)
  have "case r of
      Inr (Inl res) \<Rightarrow> (''req_id'', ''7'') \<in> set (er_metadata res)
        \<and> fetch_certificate sample_leg_lib sample_leg (sample_session prompt tardy) ''7'' = Inr (er_cert_pem res)
    | _ \<Rightarrow> request_traced ''7'' (sv_db sv') \<or> (\<exists>e. en_audit_fault sample_env = Some e \<and> r = Inl e \<and> sv_db sv' = sv_db ?sv)"
  proof (rule issued_request_accounted [OF _ _ _ _ _ _ _ r])
    show "may_submit sample_env sample_cfg ''o1'' ''a'' [] 1 (sv_db ?sv)" using may_submit_sample by simp
    show "read_disposition sample_leg_lib sample_leg (sample_session prompt tardy) ''csr'' = Inr (Issued ''7'')" by (rule sample_disposition)
    show "length (x_digest (en_ext sample_env) s) \<le> 64" for s by (simp add: sample_env_def sample_ext_def)
  qed (simp_all add: sample_leg_lib_def)
  moreover have "en_audit_fault sample_env = None" by (simp add: sample_env_def)
  moreover have "\<not> (case r of Inr (Inl res) \<Rightarrow> True | _ \<Rightarrow> False)"
  proof -
    have "(case ?answer of CaTransport _ \<Rightarrow> True | _ \<Rightarrow> False)" by code_simp
    then obtain te where "?answer = CaTransport te" by (auto split: enroll_answer.splits)
    then show ?thesis using transport_not_handed_on [of sample_env sample_cfg "''o1''" "''a''" "[]" 1 ?sv] may_submit_sample r
      by (auto split: sum.splits)
  qed
  ultimately show ?thesis using r by (auto split: sum.splits)
qed

end
